(* ===== verification/Prelude.thy ===== *)
theory Prelude
  imports Main "HOL-Library.Word" "HOL-Library.Sublist"
begin

text \<open>
  Shared vocabulary of the development: the machine integers of the Go code, its error values,
  the outcome of a call that may return a value, return an error or panic, the little-endian
  integers of \<^verbatim>\<open>encoding/binary\<close>, and \<^verbatim>\<open>io.ReadFull\<close> on an in-memory reader.  The theorem
  collections declared here carry the proofs of the components.
\<close>

unbundle bit_operations_syntax

subsection \<open>Machine integers\<close>

type_synonym byte = "8 word"
type_synonym u16 = "16 word"
type_synonym u32 = "32 word"
type_synonym u64 = "64 word"

named_theorems const_defs "numeric constants of the source, unfolded together"
named_theorems wire "length and round-trip facts of wire encodings"

subsection \<open>Errors and outcomes\<close>

text \<open>
  A Go error is a sentinel (\<^verbatim>\<open>errors.New\<close>, compared by identity), a fresh formatted error
  (\<^verbatim>\<open>fmt.Errorf\<close> without \<^verbatim>\<open>%w\<close>) or a formatted error that wraps another one.
\<close>

datatype err = Sentinel string | Errorf string | Errorw string err

fun errors_Is :: "err \<Rightarrow> err \<Rightarrow> bool" where
  "errors_Is (Errorw s e) t = (Errorw s e = t \<or> errors_Is e t)"
| "errors_Is e t = (e = t)"

definition io_EOF :: err where "io_EOF = Sentinel ''EOF''"

definition io_ErrUnexpectedEOF :: err where
  "io_ErrUnexpectedEOF = Sentinel ''unexpected EOF''"

text \<open>A call returns a value, returns an error, or panics.\<close>

datatype 'a res = Ok 'a | Err err | Panic

fun bind_res :: "'a res \<Rightarrow> ('a \<Rightarrow> 'b res) \<Rightarrow> 'b res" where
  "bind_res (Ok a) k = k a"
| "bind_res (Err e) k = Err e"
| "bind_res Panic k = Panic"

lemma bind_res_Ok_iff: "bind_res m k = Ok b \<longleftrightarrow> (\<exists>a. m = Ok a \<and> k a = Ok b)"
  by (cases m) auto

text \<open>\<^verbatim>\<open>return fmt.Errorf("...: %w", err)\<close>.\<close>

fun wrap_res :: "string \<Rightarrow> 'a res \<Rightarrow> 'a res" where
  "wrap_res msg (Err e) = Err (Errorw msg e)"
| "wrap_res msg r = r"

lemma wrap_res_Ok_iff [simp]: "wrap_res msg m = Ok a \<longleftrightarrow> m = Ok a"
  by (cases m) auto

lemma wrap_res_Panic_iff [simp]: "wrap_res msg m = Panic \<longleftrightarrow> m = Panic"
  by (cases m) auto

text \<open>
  The same with a state threaded through: \<open>bind_st m k\<close> is the Go idiom
  \<^verbatim>\<open>x, err := m(); if err != nil { return err }; k(x)\<close> where both parts change the state, and
  \<open>wrap_st\<close> is the idiom \<^verbatim>\<open>return fmt.Errorf("...: %w", err)\<close>.
\<close>

fun bind_st :: "'a res \<times> 's \<Rightarrow> ('a \<Rightarrow> 's \<Rightarrow> 'b res \<times> 't) \<Rightarrow> ('s \<Rightarrow> 't) \<Rightarrow> 'b res \<times> 't" where
  "bind_st (Ok a, s) k f = k a s"
| "bind_st (Err e, s) k f = (Err e, f s)"
| "bind_st (Panic, s) k f = (Panic, f s)"

fun wrap_st :: "string \<Rightarrow> 'a res \<times> 's \<Rightarrow> 'a res \<times> 's" where
  "wrap_st msg (Err e, s) = (Err (Errorw msg e), s)"
| "wrap_st msg r = r"

lemma wrap_st_Ok_iff: "wrap_st msg m = (Ok a, s) \<longleftrightarrow> m = (Ok a, s)"
  by (cases "(msg, m)" rule: wrap_st.cases) auto

lemma bind_st_Ok_iff:
  "bind_st m k f = (Ok b, t) \<longleftrightarrow> (\<exists>a s. m = (Ok a, s) \<and> k a s = (Ok b, t))"
  by (cases "(m, k, f)" rule: bind_st.cases) auto

lemma snd_wrap_st [simp]: "snd (wrap_st msg m) = snd m"
  by (cases "(msg, m)" rule: wrap_st.cases) auto

text \<open>
  Calls that only return an error: a state and an optional error, in sequence.
\<close>

fun and_then :: "'s \<times> err option \<Rightarrow> ('s \<Rightarrow> 's \<times> err option) \<Rightarrow> 's \<times> err option" where
  "and_then (s, None) k = k s"
| "and_then (s, Some e) k = (s, Some e)"

lemma and_then_assoc: "and_then (and_then m k) l = and_then m (\<lambda>s. and_then (k s) l)"
  by (cases "(m, k)" rule: and_then.cases) auto

fun wrap_err :: "string \<Rightarrow> 's \<times> err option \<Rightarrow> 's \<times> err option" where
  "wrap_err msg (s, None) = (s, None)"
| "wrap_err msg (s, Some e) = (s, Some (Errorw msg e))"

text \<open>A call on a channel returns, blocks (nothing to receive, no room, no cancellation), or panics.\<close>

datatype 'a outcome = Returned 'a | Blocked | Panicked

subsection \<open>Formatting verbs\<close>

definition hex_digit :: "nat \<Rightarrow> char" where
  "hex_digit n = (if n < 10 then char_of (48 + n) else char_of (87 + n))"

text \<open>\<^verbatim>\<open>%02x\<close> of a byte.\<close>

definition fmt_02x :: "byte \<Rightarrow> string" where
  "fmt_02x b = [hex_digit (unat b div 16), hex_digit (unat b mod 16)]"

text \<open>\<^verbatim>\<open>%02X\<close>, with capital digits.\<close>

definition fmt_02X :: "byte \<Rightarrow> string" where
  "fmt_02X b = (let digit = (\<lambda>n. if n < 10 then char_of (48 + n) else char_of (55 + n))
     in [digit (unat b div 16), digit (unat b mod 16)])"

text \<open>\<^verbatim>\<open>%d\<close> of a non-negative integer: its decimal digits, most significant first.\<close>

fun fmt_d :: "nat \<Rightarrow> string" where
  "fmt_d n = (if n < 10 then [char_of (48 + n)] else fmt_d (n div 10) @ [char_of (48 + n mod 10)])"

declare fmt_d.simps [simp del]

subsection \<open>Little-endian integers\<close>

text \<open>
  \<open>le_put n w\<close> is the \<open>n\<close> bytes \<^verbatim>\<open>binary.LittleEndian.PutUint\<close> writes, \<open>le_get bs\<close> the value
  \<^verbatim>\<open>binary.LittleEndian.Uint\<close> reads.
\<close>

primrec le_put :: "nat \<Rightarrow> 'a::len word \<Rightarrow> byte list" where
  "le_put 0 w = []"
| "le_put (Suc n) w = ucast w # le_put n (drop_bit 8 w)"

primrec le_get :: "byte list \<Rightarrow> 'a::len word" where
  "le_get [] = 0"
| "le_get (b # bs) = ucast b OR push_bit 8 (le_get bs)"

lemma length_le_put [simp, wire]: "length (le_put n w) = n"
  by (induction n arbitrary: w) auto

lemma le_put_numeral:
  "le_put (numeral k) w = ucast w # le_put (pred_numeral k) (drop_bit 8 w)"
  by (simp add: numeral_eq_Suc)

lemma bit_le_put: "i < n \<Longrightarrow> bit (le_put n w ! i) j \<longleftrightarrow> j < 8 \<and> bit w (8 * i + j)"
proof (induction n arbitrary: w i)
  case (Suc n)
  then show ?case
    by (cases i) (auto simp: bit_simps nth_Cons add.assoc)
qed simp

lemma le_get_le_put: "le_get (le_put n (w :: 'a::len word)) = take_bit (8 * n) w"
proof (induction n arbitrary: w)
  case (Suc n)
  show ?case
    by (rule bit_eqI) (auto simp: Suc bit_simps not_less dest: bit_imp_le_length)
qed simp

lemma le_get_le_put_id [simp, wire]:
  "LENGTH('a) \<le> 8 * n \<Longrightarrow> le_get (le_put n (w :: 'a::len word)) = w"
  by (simp add: le_get_le_put take_bit_word_eq_self)

lemma le_put_le_get [wire]:
  "8 * length bs \<le> LENGTH('a) \<Longrightarrow> le_put (length bs) (le_get bs :: 'a::len word) = bs"
proof (induction bs)
  case (Cons b bs)
  have "ucast (ucast b OR push_bit 8 (le_get bs) :: 'a word) = b"
    using Cons.prems by (intro bit_eqI) (auto simp: bit_simps)
  moreover have "le_put (length bs) (drop_bit 8 (ucast b OR push_bit 8 (le_get bs :: 'a word)))
      = le_put (length bs) (le_get bs :: 'a word)"
  proof (rule nth_equalityI)
    fix i assume "i < length (le_put (length bs) (drop_bit 8 (ucast b OR push_bit 8 (le_get bs :: 'a word))))"
    then have i: "i < length bs" by simp
    show "le_put (length bs) (drop_bit 8 (ucast b OR push_bit 8 (le_get bs :: 'a word))) ! i
        = le_put (length bs) (le_get bs :: 'a word) ! i"
      using i Cons.prems by (intro bit_eqI) (auto simp: bit_le_put bit_simps dest: bit_imp_le_length)
  qed simp
  ultimately show ?case using Cons by simp
qed simp

lemma le_put_inject:
  "LENGTH('a) \<le> 8 * n \<Longrightarrow> le_put n (v :: 'a::len word) = le_put n w \<longleftrightarrow> v = w"
  by (metis le_get_le_put_id)

subsection \<open>Width conversions\<close>

lemma ucast_ucast_small:
  "unat x < 2 ^ LENGTH('b::len) \<Longrightarrow> (ucast (ucast x :: 'b word) :: 'a::len word) = x"
  by (rule word_unat_eq_iff [THEN iffD2])
    (simp add: unsigned_ucast_eq unsigned_take_bit_eq take_bit_nat_eq_self)

lemma unat_ucast_up:
  "LENGTH('a::len) \<le> LENGTH('b::len) \<Longrightarrow> unat (ucast (x :: 'a word) :: 'b word) = unat x"
  by (simp add: unsigned_ucast_eq take_bit_nat_eq_self order.strict_trans2 [OF unsigned_less])

lemma ucast_up_less:
  "LENGTH('a::len) < LENGTH('b::len) \<Longrightarrow> unat (ucast (x :: 'a word) :: 'b word) < 2 ^ LENGTH('a)"
  by (simp add: unat_ucast_up)

lemma unat_word_of_nat_id:
  "k < 2 ^ LENGTH('a::len) \<Longrightarrow> unat (word_of_nat k :: 'a word) = k"
  by (simp add: unsigned_of_nat take_bit_nat_eq_self)

lemma uint_word_of_nat_id:
  "k < 2 ^ LENGTH('a::len) \<Longrightarrow> uint (word_of_nat k :: 'a word) = int k"
  by (simp add: unsigned_of_nat take_bit_nat_eq_self)

lemma sint_small:
  "unat (w :: 'a::len word) < 2 ^ (LENGTH('a) - 1) \<Longrightarrow> sint w = int (unat w)"
proof -
  assume "unat w < 2 ^ (LENGTH('a) - 1)"
  then have "int (unat w) < int (2 ^ (LENGTH('a) - 1))" by (simp only: of_nat_less_iff)
  moreover have "- (2 ^ (LENGTH('a) - 1)) \<le> int (unat w)"
    by (rule order.trans [of _ 0]) simp_all
  ultimately have "signed_take_bit (LENGTH('a) - 1) (int (unat w)) = int (unat w)"
    by (intro signed_take_bit_int_eq_self) simp_all
  then show ?thesis by (simp add: sint_uint)
qed

lemma sint_large:
  "2 ^ (LENGTH('a) - 1) \<le> unat (w :: 'a::len word) \<Longrightarrow> sint w < 0"
proof (rule ccontr)
  assume a: "2 ^ (LENGTH('a) - 1) \<le> unat w" and n: "\<not> sint w < 0"
  have s: "sint w < 2 ^ (LENGTH('a) - 1)" by (rule sint_lt)
  also have "(2 :: int) ^ (LENGTH('a) - 1) \<le> 2 ^ LENGTH('a)" by (rule power_increasing) simp_all
  finally have "sint w < 2 ^ LENGTH('a)" .
  with n have "take_bit LENGTH('a) (sint w) = sint w" by (simp add: take_bit_int_eq_self)
  moreover have "uint w = take_bit LENGTH('a) (sint w)"
    by (simp add: uint_sint)
  ultimately have "int (unat w) = sint w" by simp
  moreover have "int (2 ^ (LENGTH('a) - 1)) \<le> int (unat w)" using a by (simp only: of_nat_le_iff)
  ultimately show False using s by simp
qed

subsection \<open>Reading from an in-memory reader\<close>

text \<open>
  \<^verbatim>\<open>io.ReadFull\<close> on a \<^verbatim>\<open>bytes.Reader\<close> with the given unread bytes: \<^verbatim>\<open>io.EOF\<close> if nothing is
  left, \<^verbatim>\<open>io.ErrUnexpectedEOF\<close> if the input ends inside the buffer.
\<close>

definition ReadFull :: "nat \<Rightarrow> byte list \<Rightarrow> byte list res \<times> byte list" where
  "ReadFull n src =
     (if n \<le> length src then (Ok (take n src), drop n src)
      else if src = [] then (Err io_EOF, [])
      else (Err io_ErrUnexpectedEOF, []))"

lemma ReadFull_append [simp, wire]: "length bs = n \<Longrightarrow> ReadFull n (bs @ rest) = (Ok bs, rest)"
  by (simp add: ReadFull_def)

lemma ReadFull_Cons [simp]: "ReadFull (Suc 0) (b # rest) = (Ok [b], rest)"
  by (simp add: ReadFull_def)

lemma ReadFull_Ok:
  "ReadFull n src = (Ok bs, rest) \<Longrightarrow> src = bs @ rest \<and> length bs = n"
  by (auto simp: ReadFull_def split: if_splits)

lemma ReadFull_suffix [simp]: "suffix (snd (ReadFull n src)) src"
  by (simp add: ReadFull_def suffix_drop)

lemma ReadFull_no_panic [simp]: "fst (ReadFull n src) \<noteq> Panic"
  by (simp add: ReadFull_def)

text \<open>
  \<^verbatim>\<open>make([]byte, n)\<close> panics on a negative length and on one beyond the runtime's allocation
  limit (\<^verbatim>\<open>maxAlloc\<close>, 2 to the 48 on 64-bit platforms).
\<close>

definition max_alloc :: nat where "max_alloc = 2 ^ 48"

definition make_panics :: "int \<Rightarrow> bool" where
  "make_panics n \<longleftrightarrow> n < 0 \<or> int max_alloc < n"

subsection \<open>Calls on a state\<close>

text \<open>
  A method that changes its receiver returns its result and the state as it left it, also when it
  fails; \<open>call_of what\<close> is a call of a function whose error is returned as
  \<^verbatim>\<open>fmt.Errorf("<what>: %w", err)\<close>.
\<close>

type_synonym ('s, 'a) call = "'s \<Rightarrow> 'a res \<times> 's"

definition call_bind :: "('s, 'a) call \<Rightarrow> ('a \<Rightarrow> ('s, 'b) call) \<Rightarrow> ('s, 'b) call" where
  "call_bind m k s = bind_st (m s) k id"

definition call_return :: "'a \<Rightarrow> ('s, 'a) call" where "call_return x s = (Ok x, s)"

definition call_of :: "string \<Rightarrow> 'a res \<Rightarrow> ('s, 'a) call" where "call_of what r s = (wrap_res what r, s)"

definition call_fail :: "string \<Rightarrow> ('s, 'a) call" where "call_fail what s = (Err (Errorf what), s)"

definition call_set :: "('s \<Rightarrow> 's) \<Rightarrow> ('s, unit) call" where "call_set f s = (Ok (), f s)"

lemmas call_defs = call_bind_def call_return_def call_of_def call_fail_def call_set_def

lemma call_bind_Ok: "m s = (Ok x, s') \<Longrightarrow> call_bind m k s = k x s'"
  by (simp add: call_bind_def)

lemma call_of_Ok: "r = Ok x \<Longrightarrow> call_of what r s = (Ok x, s)"
  by (simp add: call_of_def)

end
