(* ===== verification/Tlv_Types.thy ===== *)
theory Tlv_Types
  imports Prelude
begin

text \<open>
  \<^verbatim>\<open>internal/tlv/types.go\<close> and \<^verbatim>\<open>tags.go\<close>: the element types and tag forms (the two
  halves of the control byte), tags, elements, the package's errors and the tag codec.  \<^verbatim>\<open>ElementType\<close> and \<^verbatim>\<open>TagType\<close> are \<^verbatim>\<open>uint8\<close> in the code, so they are bytes
  here, with the code's constants; floats are their IEEE 754 bit patterns, which is all that
  \<^verbatim>\<open>math.Float32bits\<close> and \<^verbatim>\<open>math.Float32frombits\<close> pass on.
\<close>

subsection \<open>Element types\<close>

type_synonym ElementType = byte

definition TypeSignedInt8 :: ElementType where [const_defs]: "TypeSignedInt8 = 0"
definition TypeSignedInt16 :: ElementType where [const_defs]: "TypeSignedInt16 = 1"
definition TypeSignedInt32 :: ElementType where [const_defs]: "TypeSignedInt32 = 2"
definition TypeSignedInt64 :: ElementType where [const_defs]: "TypeSignedInt64 = 3"
definition TypeUnsignedInt8 :: ElementType where [const_defs]: "TypeUnsignedInt8 = 4"
definition TypeUnsignedInt16 :: ElementType where [const_defs]: "TypeUnsignedInt16 = 5"
definition TypeUnsignedInt32 :: ElementType where [const_defs]: "TypeUnsignedInt32 = 6"
definition TypeUnsignedInt64 :: ElementType where [const_defs]: "TypeUnsignedInt64 = 7"
definition TypeBoolFalse :: ElementType where [const_defs]: "TypeBoolFalse = 8"
definition TypeBoolTrue :: ElementType where [const_defs]: "TypeBoolTrue = 9"
definition TypeFloat32 :: ElementType where [const_defs]: "TypeFloat32 = 10"
definition TypeFloat64 :: ElementType where [const_defs]: "TypeFloat64 = 11"
definition TypeUTF8String1 :: ElementType where [const_defs]: "TypeUTF8String1 = 12"
definition TypeUTF8String2 :: ElementType where [const_defs]: "TypeUTF8String2 = 13"
definition TypeUTF8String4 :: ElementType where [const_defs]: "TypeUTF8String4 = 14"
definition TypeUTF8String8 :: ElementType where [const_defs]: "TypeUTF8String8 = 15"
definition TypeOctetString1 :: ElementType where [const_defs]: "TypeOctetString1 = 16"
definition TypeOctetString2 :: ElementType where [const_defs]: "TypeOctetString2 = 17"
definition TypeOctetString4 :: ElementType where [const_defs]: "TypeOctetString4 = 18"
definition TypeOctetString8 :: ElementType where [const_defs]: "TypeOctetString8 = 19"
definition TypeNull :: ElementType where [const_defs]: "TypeNull = 20"
definition TypeStructure :: ElementType where [const_defs]: "TypeStructure = 21"
definition TypeArray :: ElementType where [const_defs]: "TypeArray = 22"
definition TypeList :: ElementType where [const_defs]: "TypeList = 23"
definition TypeEndOfContainer :: ElementType where [const_defs]: "TypeEndOfContainer = 24"

text \<open>\<^verbatim>\<open>ElementType.String\<close>\<close>

definition ElementType_String :: "ElementType \<Rightarrow> string" where
  "ElementType_String t =
     (if t = TypeSignedInt8 then ''SignedInt8''
      else if t = TypeSignedInt16 then ''SignedInt16''
      else if t = TypeSignedInt32 then ''SignedInt32''
      else if t = TypeSignedInt64 then ''SignedInt64''
      else if t = TypeUnsignedInt8 then ''UnsignedInt8''
      else if t = TypeUnsignedInt16 then ''UnsignedInt16''
      else if t = TypeUnsignedInt32 then ''UnsignedInt32''
      else if t = TypeUnsignedInt64 then ''UnsignedInt64''
      else if t = TypeBoolFalse then ''BoolFalse''
      else if t = TypeBoolTrue then ''BoolTrue''
      else if t = TypeFloat32 then ''Float32''
      else if t = TypeFloat64 then ''Float64''
      else if t = TypeUTF8String1 then ''UTF8String1''
      else if t = TypeUTF8String2 then ''UTF8String2''
      else if t = TypeUTF8String4 then ''UTF8String4''
      else if t = TypeUTF8String8 then ''UTF8String8''
      else if t = TypeOctetString1 then ''OctetString1''
      else if t = TypeOctetString2 then ''OctetString2''
      else if t = TypeOctetString4 then ''OctetString4''
      else if t = TypeOctetString8 then ''OctetString8''
      else if t = TypeNull then ''Null''
      else if t = TypeStructure then ''Structure''
      else if t = TypeArray then ''Array''
      else if t = TypeList then ''List''
      else if t = TypeEndOfContainer then ''EndOfContainer''
      else ''Unknown'')"

subsection \<open>Tags\<close>

type_synonym TagType = byte

definition TagAnonymous :: TagType where [const_defs]: "TagAnonymous = 0x00"
definition TagContextSpecific :: TagType where [const_defs]: "TagContextSpecific = 0x20"
definition TagCommonProfile2 :: TagType where [const_defs]: "TagCommonProfile2 = 0x40"
definition TagCommonProfile4 :: TagType where [const_defs]: "TagCommonProfile4 = 0x60"
definition TagImplicitProfile2 :: TagType where [const_defs]: "TagImplicitProfile2 = 0x80"
definition TagImplicitProfile4 :: TagType where [const_defs]: "TagImplicitProfile4 = 0xA0"
definition TagFullyQualified6 :: TagType where [const_defs]: "TagFullyQualified6 = 0xC0"
definition TagFullyQualified8 :: TagType where [const_defs]: "TagFullyQualified8 = 0xE0"

definition tagTypeMask :: byte where [const_defs]: "tagTypeMask = 0xE0"
definition elementTypeMask :: byte where [const_defs]: "elementTypeMask = 0x1F"

record Tag =
  t_Type :: TagType
  t_VendorID :: u16
  t_ProfileNum :: u16
  t_TagNum :: u32

text \<open>The zero value \<^verbatim>\<open>Tag{Type: ty}\<close>.\<close>

definition zero_tag :: "TagType \<Rightarrow> Tag" where
  "zero_tag ty = \<lparr>t_Type = ty, t_VendorID = 0, t_ProfileNum = 0, t_TagNum = 0\<rparr>"

definition AnonymousTag :: Tag where
  "AnonymousTag = zero_tag TagAnonymous"

definition ContextTag :: "byte \<Rightarrow> Tag" where
  "ContextTag tagNum = (zero_tag TagContextSpecific)\<lparr>t_TagNum := ucast tagNum\<rparr>"

definition CommonProfileTag2 :: "u16 \<Rightarrow> Tag" where
  "CommonProfileTag2 tagNum = (zero_tag TagCommonProfile2)\<lparr>t_TagNum := ucast tagNum\<rparr>"

definition CommonProfileTag4 :: "u32 \<Rightarrow> Tag" where
  "CommonProfileTag4 tagNum = (zero_tag TagCommonProfile4)\<lparr>t_TagNum := tagNum\<rparr>"

subsection \<open>Elements and errors\<close>

text \<open>
  The dynamic values an \<^verbatim>\<open>Element.Value\<close> holds: \<^verbatim>\<open>nil\<close>, \<^verbatim>\<open>int64\<close>, \<^verbatim>\<open>uint64\<close>, \<^verbatim>\<open>bool\<close>, \<^verbatim>\<open>float32\<close>,
  \<^verbatim>\<open>float64\<close>, \<^verbatim>\<open>string\<close> (its bytes) and \<^verbatim>\<open>[]byte\<close>.
\<close>

datatype Value =
    VNil
  | VInt64 u64
  | VUint64 u64
  | VBool bool
  | VFloat32 u32
  | VFloat64 u64
  | VString "byte list"
  | VBytes "byte list"

record Element =
  e_Tag :: Tag
  e_Type :: ElementType
  e_Value :: Value

definition ErrInvalidType :: err where
  "ErrInvalidType = Sentinel ''tlv: invalid element type''"
definition ErrUnexpectedEOF :: err where
  "ErrUnexpectedEOF = Sentinel ''tlv: unexpected end of input''"
definition ErrContainerMismatch :: err where
  "ErrContainerMismatch = Sentinel ''tlv: container mismatch''"
definition ErrUnsupportedType :: err where
  "ErrUnsupportedType = Sentinel ''tlv: unsupported Go type''"
definition ErrTagInArray :: err where
  "ErrTagInArray = Sentinel ''tlv: non-anonymous tag inside array''"
definition ErrInvalidTag :: err where
  "ErrInvalidTag = Sentinel ''tlv: invalid tag''"

subsection \<open>The tag codec\<close>

text \<open>
  \<^verbatim>\<open>encodeTag\<close> appends to the buffer it is given; a \<^verbatim>\<open>bytes.Buffer\<close> write does not fail.
\<close>

definition encodeTag :: "byte list \<Rightarrow> Tag \<Rightarrow> byte list \<times> err option" where
  "encodeTag w tag =
     (let ty = t_Type tag in
      if ty = TagAnonymous then (w, None)
      else if ty = TagContextSpecific then (w @ [ucast (t_TagNum tag)], None)
      else if ty = TagCommonProfile2 \<or> ty = TagImplicitProfile2 then
        (w @ le_put 2 (ucast (t_TagNum tag) :: u16), None)
      else if ty = TagCommonProfile4 \<or> ty = TagImplicitProfile4 then
        (w @ le_put 4 (t_TagNum tag), None)
      else if ty = TagFullyQualified6 then
        (w @ le_put 2 (t_VendorID tag) @ le_put 2 (t_ProfileNum tag)
           @ le_put 2 (ucast (t_TagNum tag) :: u16), None)
      else if ty = TagFullyQualified8 then
        (w @ le_put 2 (t_VendorID tag) @ le_put 2 (t_ProfileNum tag)
           @ le_put 4 (t_TagNum tag), None)
      else (w, Some (Errorw (''encoding tag type '' @ fmt_02x ty) ErrInvalidTag)))"

text \<open>
  \<^verbatim>\<open>decodeTag\<close> reads from the unread bytes of its reader and returns those left.
\<close>

definition decodeTag :: "byte list \<Rightarrow> TagType \<Rightarrow> Tag res \<times> byte list" where
  "decodeTag r tagType =
     (let tag = zero_tag tagType in
      if tagType = TagAnonymous then (Ok tag, r)
      else if tagType = TagContextSpecific then
        bind_st (wrap_st ''reading context tag'' (ReadFull 1 r))
          (\<lambda>buf r. (Ok (tag\<lparr>t_TagNum := ucast (buf ! 0)\<rparr>), r)) id
      else if tagType = TagCommonProfile2 \<or> tagType = TagImplicitProfile2 then
        bind_st (wrap_st ''reading 2-byte tag'' (ReadFull 2 r))
          (\<lambda>buf r. (Ok (tag\<lparr>t_TagNum := ucast (le_get buf :: u16)\<rparr>), r)) id
      else if tagType = TagCommonProfile4 \<or> tagType = TagImplicitProfile4 then
        bind_st (wrap_st ''reading 4-byte tag'' (ReadFull 4 r))
          (\<lambda>buf r. (Ok (tag\<lparr>t_TagNum := le_get buf\<rparr>), r)) id
      else if tagType = TagFullyQualified6 then
        bind_st (wrap_st ''reading 6-byte tag'' (ReadFull 6 r))
          (\<lambda>buf r. (Ok (tag\<lparr>t_VendorID := le_get (take 2 buf),
                            t_ProfileNum := le_get (take 2 (drop 2 buf)),
                            t_TagNum := ucast (le_get (take 2 (drop 4 buf)) :: u16)\<rparr>), r)) id
      else if tagType = TagFullyQualified8 then
        bind_st (wrap_st ''reading 8-byte tag'' (ReadFull 8 r))
          (\<lambda>buf r. (Ok (tag\<lparr>t_VendorID := le_get (take 2 buf),
                            t_ProfileNum := le_get (take 2 (drop 2 buf)),
                            t_TagNum := le_get (take 4 (drop 4 buf))\<rparr>), r)) id
      else (Err (Errorw (''decoding tag type '' @ fmt_02x tagType) ErrInvalidTag), r))"

definition tagSize :: "TagType \<Rightarrow> nat" where
  "tagSize tagType =
     (if tagType = TagAnonymous then 0
      else if tagType = TagContextSpecific then 1
      else if tagType = TagCommonProfile2 \<or> tagType = TagImplicitProfile2 then 2
      else if tagType = TagCommonProfile4 \<or> tagType = TagImplicitProfile4 then 4
      else if tagType = TagFullyQualified6 then 6
      else if tagType = TagFullyQualified8 then 8
      else 0)"

subsection \<open>Well-formed tags\<close>

text \<open>
  A tag is well formed when its form is one of the eight, its number fits the form's width, and
  vendor and profile are zero unless the form carries them: exactly the tags the codec keeps.
\<close>

definition tag_types :: "TagType list" where
  "tag_types = [TagAnonymous, TagContextSpecific, TagCommonProfile2, TagCommonProfile4,
     TagImplicitProfile2, TagImplicitProfile4, TagFullyQualified6, TagFullyQualified8]"

definition wf_tag :: "Tag \<Rightarrow> bool" where
  "wf_tag tag \<longleftrightarrow>
     t_Type tag \<in> set tag_types \<and>
     (t_Type tag = TagAnonymous \<longrightarrow> t_TagNum tag = 0) \<and>
     (t_Type tag = TagContextSpecific \<longrightarrow> unat (t_TagNum tag) < 2 ^ 8) \<and>
     (t_Type tag \<in> {TagCommonProfile2, TagImplicitProfile2, TagFullyQualified6}
        \<longrightarrow> unat (t_TagNum tag) < 2 ^ 16) \<and>
     (t_Type tag \<notin> {TagFullyQualified6, TagFullyQualified8}
        \<longrightarrow> t_VendorID tag = 0 \<and> t_ProfileNum tag = 0)"

definition tag_bytes :: "Tag \<Rightarrow> byte list" where
  "tag_bytes tag = fst (encodeTag [] tag)"

lemmas tag_type_defs = TagAnonymous_def TagContextSpecific_def TagCommonProfile2_def
  TagCommonProfile4_def TagImplicitProfile2_def TagImplicitProfile4_def
  TagFullyQualified6_def TagFullyQualified8_def

lemma tag_types_distinct: "distinct tag_types"
  by (simp add: tag_types_def tag_type_defs)

lemma wf_tag_AnonymousTag [simp]: "wf_tag AnonymousTag"
  by (simp add: wf_tag_def AnonymousTag_def zero_tag_def tag_types_def tag_type_defs)

lemma wf_tag_ContextTag [simp]: "wf_tag (ContextTag n)"
  using ucast_up_less [of n, where 'b = 32]
  by (simp add: wf_tag_def ContextTag_def zero_tag_def tag_types_def tag_type_defs)

lemma encodeTag_append:
  "t_Type tag \<in> set tag_types \<Longrightarrow> encodeTag w tag = (w @ tag_bytes tag, None)"
  by (auto simp: encodeTag_def tag_bytes_def tag_types_def tag_type_defs Let_def)

lemma encodeTag_error:
  "t_Type tag \<notin> set tag_types \<Longrightarrow>
    encodeTag w tag = (w, Some (Errorw (''encoding tag type '' @ fmt_02x (t_Type tag)) ErrInvalidTag))"
  by (simp add: encodeTag_def tag_types_def Let_def)

lemma length_tag_bytes [wire]:
  "t_Type tag \<in> set tag_types \<Longrightarrow> length (tag_bytes tag) = tagSize (t_Type tag)"
  by (auto simp: tag_bytes_def encodeTag_def tagSize_def tag_types_def tag_type_defs Let_def)


text \<open>The two directions of the codec, one form at a time.\<close>

lemma tag_bytes_simps:
  "t_Type tag = TagAnonymous \<Longrightarrow> tag_bytes tag = []"
  "t_Type tag = TagContextSpecific \<Longrightarrow> tag_bytes tag = [ucast (t_TagNum tag)]"
  "t_Type tag \<in> {TagCommonProfile2, TagImplicitProfile2} \<Longrightarrow>
     tag_bytes tag = le_put 2 (ucast (t_TagNum tag) :: u16)"
  "t_Type tag \<in> {TagCommonProfile4, TagImplicitProfile4} \<Longrightarrow> tag_bytes tag = le_put 4 (t_TagNum tag)"
  "t_Type tag = TagFullyQualified6 \<Longrightarrow>
     tag_bytes tag = le_put 2 (t_VendorID tag) @ le_put 2 (t_ProfileNum tag)
       @ le_put 2 (ucast (t_TagNum tag) :: u16)"
  "t_Type tag = TagFullyQualified8 \<Longrightarrow>
     tag_bytes tag = le_put 2 (t_VendorID tag) @ le_put 2 (t_ProfileNum tag) @ le_put 4 (t_TagNum tag)"
  by (auto simp: tag_bytes_def encodeTag_def tag_type_defs)

lemma decodeTag_simps:
  "decodeTag r TagAnonymous = (Ok (zero_tag TagAnonymous), r)"
  "decodeTag (b # r) TagContextSpecific =
     (Ok ((zero_tag TagContextSpecific)\<lparr>t_TagNum := ucast b\<rparr>), r)"
  "ty \<in> {TagCommonProfile2, TagImplicitProfile2} \<Longrightarrow> length buf = 2 \<Longrightarrow>
     decodeTag (buf @ r) ty = (Ok ((zero_tag ty)\<lparr>t_TagNum := ucast (le_get buf :: u16)\<rparr>), r)"
  "ty \<in> {TagCommonProfile4, TagImplicitProfile4} \<Longrightarrow> length buf = 4 \<Longrightarrow>
     decodeTag (buf @ r) ty = (Ok ((zero_tag ty)\<lparr>t_TagNum := le_get buf\<rparr>), r)"
  "length buf = 6 \<Longrightarrow> decodeTag (buf @ r) TagFullyQualified6 =
     (Ok \<lparr>t_Type = TagFullyQualified6, t_VendorID = le_get (take 2 buf),
          t_ProfileNum = le_get (take 2 (drop 2 buf)),
          t_TagNum = ucast (le_get (take 2 (drop 4 buf)) :: u16)\<rparr>, r)"
  "length buf = 8 \<Longrightarrow> decodeTag (buf @ r) TagFullyQualified8 =
     (Ok \<lparr>t_Type = TagFullyQualified8, t_VendorID = le_get (take 2 buf),
          t_ProfileNum = le_get (take 2 (drop 2 buf)),
          t_TagNum = le_get (take 4 (drop 4 buf))\<rparr>, r)"
  by (auto simp: decodeTag_def tag_type_defs zero_tag_def)

lemma tag_bytes_inverse:
  assumes "wf_tag tag"
  shows "decodeTag (tag_bytes tag @ rest) (t_Type tag) = (Ok tag, rest)"
proof -
  obtain ty v p n where tag: "tag = \<lparr>t_Type = ty, t_VendorID = v, t_ProfileNum = p, t_TagNum = n\<rparr>"
    by (cases tag)
  have fq: "ty \<notin> {TagFullyQualified6, TagFullyQualified8} \<Longrightarrow> v = 0 \<and> p = 0"
    using assms by (simp add: wf_tag_def tag)
  have ty: "ty \<in> set tag_types" using assms by (simp add: wf_tag_def tag)
  consider "ty = TagAnonymous" | "ty = TagContextSpecific"
    | "ty \<in> {TagCommonProfile2, TagImplicitProfile2}" | "ty \<in> {TagCommonProfile4, TagImplicitProfile4}"
    | "ty = TagFullyQualified6" | "ty = TagFullyQualified8"
    using ty by (auto simp: tag_types_def)
  then show ?thesis
  proof cases
    case 1
    with assms fq show ?thesis
      by (simp add: tag wf_tag_def tag_bytes_simps decodeTag_simps zero_tag_def) (simp add: tag_type_defs)
  next
    case 2
    with assms fq have "v = 0 \<and> p = 0 \<and> unat n < 2 ^ 8"
      by (simp add: tag wf_tag_def) (simp add: tag_type_defs)
    with 2 show ?thesis
      by (simp add: tag tag_bytes_simps decodeTag_simps zero_tag_def ucast_ucast_small)
  next
    case 3
    with assms fq have "v = 0 \<and> p = 0 \<and> unat n < 2 ^ 16"
      by (auto simp add: tag wf_tag_def tag_type_defs)
    with 3 show ?thesis
      by (simp add: tag tag_bytes_simps decodeTag_simps zero_tag_def ucast_ucast_small)
  next
    case 4
    with fq have "v = 0 \<and> p = 0" by (auto simp: tag_type_defs)
    with 4 show ?thesis
      by (simp add: tag tag_bytes_simps decodeTag_simps zero_tag_def)
  next
    case 5
    with assms have "unat n < 2 ^ 16" by (simp add: tag wf_tag_def)
    with 5 show ?thesis
      using decodeTag_simps(5) [of "tag_bytes tag" rest]
      by (simp add: tag tag_bytes_simps ucast_ucast_small)
  next
    case 6
    then show ?thesis
      using decodeTag_simps(6) [of "tag_bytes tag" rest]
      by (simp add: tag tag_bytes_simps)
  qed
qed

lemma split_6: "length buf = 6 \<Longrightarrow> take 2 buf @ take 2 (drop 2 buf) @ take 2 (drop 4 buf) = buf"
  by (simp add: length_Suc_conv numeral_eq_Suc) auto

lemma split_8: "length buf = 8 \<Longrightarrow> take 2 buf @ take 2 (drop 2 buf) @ take 4 (drop 4 buf) = buf"
  by (simp add: length_Suc_conv numeral_eq_Suc) auto

lemma le_put_le_get_2 [simp]: "length bs = 2 \<Longrightarrow> le_put 2 (le_get bs :: u16) = bs"
  using le_put_le_get [of bs, where 'a = 16] by simp

lemma le_put_le_get_4 [simp]: "length bs = 4 \<Longrightarrow> le_put 4 (le_get bs :: u32) = bs"
  using le_put_le_get [of bs, where 'a = 32] by simp

lemma le_put_le_get_8 [simp]: "length bs = 8 \<Longrightarrow> le_put 8 (le_get bs :: u64) = bs"
  using le_put_le_get [of bs, where 'a = 64] by simp

lemma ucast_ucast_up [simp]:
  "LENGTH('a::len) \<le> LENGTH('b::len) \<Longrightarrow> ucast (ucast (x :: 'a word) :: 'b word) = x"
  by (rule bit_eqI) (auto simp: bit_simps dest: bit_imp_le_length)

text \<open>Whatever \<^verbatim>\<open>decodeTag\<close> accepts is well formed and is its own encoding.\<close>

lemma decodeTag_sound:
  assumes "decodeTag r ty = (Ok tag, rest)"
  shows "wf_tag tag \<and> t_Type tag = ty \<and> r = tag_bytes tag @ rest"
proof -
  have ty: "ty \<in> set tag_types"
    using assms by (auto simp: decodeTag_def tag_types_def Let_def split: if_splits)
  consider "ty = TagAnonymous" | "ty = TagContextSpecific"
    | "ty \<in> {TagCommonProfile2, TagImplicitProfile2}" | "ty \<in> {TagCommonProfile4, TagImplicitProfile4}"
    | "ty = TagFullyQualified6" | "ty = TagFullyQualified8"
    using ty by (auto simp: tag_types_def)
  then show ?thesis
  proof cases
    case 1
    with assms have "tag = zero_tag ty" "rest = r" by (simp_all add: decodeTag_simps)
    with 1 show ?thesis
      using wf_tag_AnonymousTag by (simp add: AnonymousTag_def tag_bytes_simps zero_tag_def)
  next
    case 2
    with assms obtain buf where buf: "ReadFull 1 r = (Ok buf, rest)"
      and tag: "tag = ContextTag (buf ! 0)"
      by (auto simp: decodeTag_def tag_type_defs bind_st_Ok_iff wrap_st_Ok_iff ContextTag_def)
    from ReadFull_Ok [OF buf] obtain b where "buf = [b]" "r = b # rest"
      by (auto simp: length_Suc_conv)
    with 2 tag show ?thesis
      by (simp add: tag_bytes_simps) (simp add: ContextTag_def zero_tag_def tag_bytes_simps)
  next
    case 3
    with assms obtain buf where buf: "ReadFull 2 r = (Ok buf, rest)"
      and tag: "tag = (zero_tag ty)\<lparr>t_TagNum := ucast (le_get buf :: u16)\<rparr>"
      by (auto simp: decodeTag_def tag_type_defs bind_st_Ok_iff wrap_st_Ok_iff)
    have "unat (ucast (le_get buf :: u16) :: u32) < 2 ^ 16"
      using ucast_up_less [of "le_get buf :: u16", where 'b = 32] by simp
    with 3 tag ty have "wf_tag tag" by (auto simp: wf_tag_def zero_tag_def tag_type_defs)
    with ReadFull_Ok [OF buf] 3 tag show ?thesis
      by (auto simp: zero_tag_def tag_bytes_simps)
  next
    case 4
    with assms obtain buf where buf: "ReadFull 4 r = (Ok buf, rest)"
      and tag: "tag = (zero_tag ty)\<lparr>t_TagNum := le_get buf\<rparr>"
      by (auto simp: decodeTag_def tag_type_defs bind_st_Ok_iff wrap_st_Ok_iff)
    with 4 tag ty have "wf_tag tag" by (auto simp: wf_tag_def zero_tag_def tag_type_defs)
    with ReadFull_Ok [OF buf] 4 tag show ?thesis
      by (auto simp: zero_tag_def tag_bytes_simps)
  next
    case 5
    with assms obtain buf where buf: "ReadFull 6 r = (Ok buf, rest)"
      and tag: "tag = \<lparr>t_Type = ty, t_VendorID = le_get (take 2 buf),
          t_ProfileNum = le_get (take 2 (drop 2 buf)),
          t_TagNum = ucast (le_get (take 2 (drop 4 buf)) :: u16)\<rparr>"
      by (auto simp: decodeTag_def tag_type_defs bind_st_Ok_iff wrap_st_Ok_iff zero_tag_def)
    have "unat (t_TagNum tag) < 2 ^ 16"
      using ucast_up_less [of "le_get (take 2 (drop 4 buf)) :: u16", where 'b = 32] by (simp add: tag)
    with 5 tag ty have "wf_tag tag" by (auto simp: wf_tag_def tag_type_defs)
    with ReadFull_Ok [OF buf] split_6 [of buf] 5 show ?thesis
      by (simp add: tag tag_bytes_simps flip: append_assoc)
  next
    case 6
    with assms obtain buf where buf: "ReadFull 8 r = (Ok buf, rest)"
      and tag: "tag = \<lparr>t_Type = ty, t_VendorID = le_get (take 2 buf),
          t_ProfileNum = le_get (take 2 (drop 2 buf)), t_TagNum = le_get (take 4 (drop 4 buf))\<rparr>"
      by (auto simp: decodeTag_def tag_type_defs bind_st_Ok_iff wrap_st_Ok_iff zero_tag_def)
    with 6 tag ty have "wf_tag tag" by (auto simp: wf_tag_def tag_type_defs)
    with ReadFull_Ok [OF buf] split_8 [of buf] 6 show ?thesis
      by (simp add: tag tag_bytes_simps flip: append_assoc)
  qed
qed

lemma decodeTag_no_panic: "fst (decodeTag r ty) \<noteq> Panic"
proof -
  have "fst (bind_st (wrap_st msg (ReadFull n r)) (\<lambda>buf r. (Ok (f buf :: Tag), r)) id) \<noteq> Panic" for msg n f
    by (simp add: ReadFull_def)
  then show ?thesis by (simp add: decodeTag_def Let_def)
qed

lemma decodeTag_suffix: "suffix (snd (decodeTag r ty)) r"
proof -
  have "suffix (snd (bind_st (wrap_st msg (ReadFull n r)) (\<lambda>buf r. (Ok (f buf :: Tag), r)) id)) r"
    for msg n f
    by (simp add: ReadFull_def suffix_drop)
  then show ?thesis by (simp add: decodeTag_def Let_def)
qed

end
