(* ===== verification/Tlv_Writer.thy ===== *)
theory Tlv_Writer
  imports Tlv_Types
begin

text \<open>
  \<^verbatim>\<open>internal/tlv/encoder.go\<close>: the \<^verbatim>\<open>Writer\<close> with its buffer and its stack of open containers, one
  definition per method.  A method returns the new writer and its error, if any; appending to a
  \<^verbatim>\<open>bytes.Buffer\<close> does not fail.  The second half gives the specification of the encoding (the
  element type and payload of each value) and proves that every \<^verbatim>\<open>Put\<close> method implements it.
\<close>

subsection \<open>The writer\<close>

record Writer =
  w_buf :: "byte list"
  w_containers :: "ElementType list"

definition NewWriter :: Writer where
  "NewWriter = \<lparr>w_buf = [], w_containers = []\<rparr>"

definition Bytes :: "Writer \<Rightarrow> byte list" where
  "Bytes w = w_buf w"

definition buf_write :: "Writer \<Rightarrow> byte list \<Rightarrow> Writer \<times> err option" where
  "buf_write w bs = (w\<lparr>w_buf := w_buf w @ bs\<rparr>, None)"

definition writeControlByte :: "Writer \<Rightarrow> Tag \<Rightarrow> ElementType \<Rightarrow> Writer \<times> err option" where
  "writeControlByte w tag elemType = buf_write w [t_Type tag OR elemType]"

definition writeElement :: "Writer \<Rightarrow> Tag \<Rightarrow> ElementType \<Rightarrow> Writer \<times> err option" where
  "writeElement w tag elemType =
     and_then (wrap_err ''writing control byte'' (writeControlByte w tag elemType))
       (\<lambda>w. wrap_err ''writing tag''
          (case encodeTag (w_buf w) tag of (buf, e) \<Rightarrow> (w\<lparr>w_buf := buf\<rparr>, e)))"

definition writeSignedValue :: "Writer \<Rightarrow> ElementType \<Rightarrow> u64 \<Rightarrow> Writer \<times> err option" where
  "writeSignedValue w elemType v =
     (if elemType = TypeSignedInt8 then buf_write w [ucast v]
      else if elemType = TypeSignedInt16 then buf_write w (le_put 2 (ucast v :: u16))
      else if elemType = TypeSignedInt32 then buf_write w (le_put 4 (ucast v :: u32))
      else if elemType = TypeSignedInt64 then buf_write w (le_put 8 v)
      else (w, None))"

definition PutSignedInt :: "Writer \<Rightarrow> Tag \<Rightarrow> u64 \<Rightarrow> Writer \<times> err option" where
  "PutSignedInt w tag v =
     (let elemType =
        (if - (2 ^ 7) \<le> sint v \<and> sint v \<le> 2 ^ 7 - 1 then TypeSignedInt8
         else if - (2 ^ 15) \<le> sint v \<and> sint v \<le> 2 ^ 15 - 1 then TypeSignedInt16
         else if - (2 ^ 31) \<le> sint v \<and> sint v \<le> 2 ^ 31 - 1 then TypeSignedInt32
         else TypeSignedInt64)
      in and_then (writeElement w tag elemType) (\<lambda>w. writeSignedValue w elemType v))"

definition writeUnsignedValue :: "Writer \<Rightarrow> ElementType \<Rightarrow> u64 \<Rightarrow> Writer \<times> err option" where
  "writeUnsignedValue w elemType v =
     (if elemType = TypeUnsignedInt8 then buf_write w [ucast v]
      else if elemType = TypeUnsignedInt16 then buf_write w (le_put 2 (ucast v :: u16))
      else if elemType = TypeUnsignedInt32 then buf_write w (le_put 4 (ucast v :: u32))
      else if elemType = TypeUnsignedInt64 then buf_write w (le_put 8 v)
      else (w, None))"

definition PutUnsignedInt :: "Writer \<Rightarrow> Tag \<Rightarrow> u64 \<Rightarrow> Writer \<times> err option" where
  "PutUnsignedInt w tag v =
     (let elemType =
        (if unat v \<le> 2 ^ 8 - 1 then TypeUnsignedInt8
         else if unat v \<le> 2 ^ 16 - 1 then TypeUnsignedInt16
         else if unat v \<le> 2 ^ 32 - 1 then TypeUnsignedInt32
         else TypeUnsignedInt64)
      in and_then (writeElement w tag elemType) (\<lambda>w. writeUnsignedValue w elemType v))"

definition PutBool :: "Writer \<Rightarrow> Tag \<Rightarrow> bool \<Rightarrow> Writer \<times> err option" where
  "PutBool w tag v =
     (let elemType = (if v then TypeBoolTrue else TypeBoolFalse) in writeElement w tag elemType)"

definition PutFloat32 :: "Writer \<Rightarrow> Tag \<Rightarrow> u32 \<Rightarrow> Writer \<times> err option" where
  "PutFloat32 w tag bits =
     and_then (writeElement w tag TypeFloat32) (\<lambda>w. buf_write w (le_put 4 bits))"

definition PutFloat64 :: "Writer \<Rightarrow> Tag \<Rightarrow> u64 \<Rightarrow> Writer \<times> err option" where
  "PutFloat64 w tag bits =
     and_then (writeElement w tag TypeFloat64) (\<lambda>w. buf_write w (le_put 8 bits))"

definition stringElementType :: "nat \<Rightarrow> ElementType \<Rightarrow> ElementType res" where
  "stringElementType len base =
     (if len \<le> 2 ^ 8 - 1 then Ok base
      else if len \<le> 2 ^ 16 - 1 then Ok (base + 1)
      else if len \<le> 2 ^ 32 - 1 then Ok (base + 2)
      else Ok (base + 3))"

definition writeLength :: "Writer \<Rightarrow> ElementType \<Rightarrow> nat \<Rightarrow> Writer \<times> err option" where
  "writeLength w elemType len =
     (if elemType = TypeUTF8String1 \<or> elemType = TypeOctetString1 then
        buf_write w [word_of_nat len]
      else if elemType = TypeUTF8String2 \<or> elemType = TypeOctetString2 then
        buf_write w (le_put 2 (word_of_nat len :: u16))
      else if elemType = TypeUTF8String4 \<or> elemType = TypeOctetString4 then
        buf_write w (le_put 4 (word_of_nat len :: u32))
      else if elemType = TypeUTF8String8 \<or> elemType = TypeOctetString8 then
        buf_write w (le_put 8 (word_of_nat len :: u64))
      else (w, Some (Errorw (''writing length for type '' @ fmt_02x elemType) ErrInvalidType)))"

definition PutUTF8String :: "Writer \<Rightarrow> Tag \<Rightarrow> byte list \<Rightarrow> Writer \<times> err option" where
  "PutUTF8String w tag v =
     (case stringElementType (length v) TypeUTF8String1 of
        Ok elemType \<Rightarrow>
          and_then (writeElement w tag elemType)
            (\<lambda>w. and_then (writeLength w elemType (length v)) (\<lambda>w. buf_write w v))
      | Err e \<Rightarrow> (w, Some e)
      | Panic \<Rightarrow> (w, None))"

definition PutOctetString :: "Writer \<Rightarrow> Tag \<Rightarrow> byte list \<Rightarrow> Writer \<times> err option" where
  "PutOctetString w tag v =
     (case stringElementType (length v) TypeOctetString1 of
        Ok elemType \<Rightarrow>
          and_then (writeElement w tag elemType)
            (\<lambda>w. and_then (writeLength w elemType (length v)) (\<lambda>w. buf_write w v))
      | Err e \<Rightarrow> (w, Some e)
      | Panic \<Rightarrow> (w, None))"

definition PutNull :: "Writer \<Rightarrow> Tag \<Rightarrow> Writer \<times> err option" where
  "PutNull w tag = writeElement w tag TypeNull"

definition push_container :: "ElementType \<Rightarrow> Writer \<Rightarrow> Writer \<times> err option" where
  "push_container t w = (w\<lparr>w_containers := w_containers w @ [t]\<rparr>, None)"

definition StartStructure :: "Writer \<Rightarrow> Tag \<Rightarrow> Writer \<times> err option" where
  "StartStructure w tag = and_then (writeElement w tag TypeStructure) (push_container TypeStructure)"

definition StartArray :: "Writer \<Rightarrow> Tag \<Rightarrow> Writer \<times> err option" where
  "StartArray w tag = and_then (writeElement w tag TypeArray) (push_container TypeArray)"

definition StartList :: "Writer \<Rightarrow> Tag \<Rightarrow> Writer \<times> err option" where
  "StartList w tag = and_then (writeElement w tag TypeList) (push_container TypeList)"

definition PutPreEncodedStruct :: "Writer \<Rightarrow> Tag \<Rightarrow> byte list \<Rightarrow> Writer \<times> err option" where
  "PutPreEncodedStruct w tag data =
     and_then (writeElement w tag TypeStructure)
       (\<lambda>w. and_then (if length data > 0 then buf_write w data else (w, None))
          (\<lambda>w. buf_write w [TypeEndOfContainer]))"

definition EndContainer :: "Writer \<Rightarrow> Writer \<times> err option" where
  "EndContainer w =
     (if w_containers w = [] then
        (w, Some (Errorw ''ending container with no open container'' ErrContainerMismatch))
      else buf_write (w\<lparr>w_containers := butlast (w_containers w)\<rparr>) [TypeEndOfContainer])"

subsection \<open>The encoding the methods implement\<close>

text \<open>
  The width in bytes of an integer or of a length prefix is the least of 1, 2, 4 and 8 that holds
  it; the element type is the base type of the value's kind plus the code of the width.
\<close>

definition int_width :: "u64 \<Rightarrow> nat" where
  "int_width v =
     (if - (2 ^ 7) \<le> sint v \<and> sint v < 2 ^ 7 then 1
      else if - (2 ^ 15) \<le> sint v \<and> sint v < 2 ^ 15 then 2
      else if - (2 ^ 31) \<le> sint v \<and> sint v < 2 ^ 31 then 4 else 8)"

definition nat_width :: "nat \<Rightarrow> nat" where
  "nat_width n = (if n < 2 ^ 8 then 1 else if n < 2 ^ 16 then 2 else if n < 2 ^ 32 then 4 else 8)"

definition width_code :: "nat \<Rightarrow> byte" where
  "width_code n = (if n = 1 then 0 else if n = 2 then 1 else if n = 4 then 2 else 3)"

fun value_type :: "Value \<Rightarrow> ElementType" where
  "value_type VNil = TypeNull"
| "value_type (VInt64 v) = TypeSignedInt8 + width_code (int_width v)"
| "value_type (VUint64 v) = TypeUnsignedInt8 + width_code (nat_width (unat v))"
| "value_type (VBool b) = (if b then TypeBoolTrue else TypeBoolFalse)"
| "value_type (VFloat32 f) = TypeFloat32"
| "value_type (VFloat64 f) = TypeFloat64"
| "value_type (VString s) = TypeUTF8String1 + width_code (nat_width (length s))"
| "value_type (VBytes s) = TypeOctetString1 + width_code (nat_width (length s))"

fun value_bytes :: "Value \<Rightarrow> byte list" where
  "value_bytes VNil = []"
| "value_bytes (VInt64 v) = le_put (int_width v) v"
| "value_bytes (VUint64 v) = le_put (nat_width (unat v)) v"
| "value_bytes (VBool b) = []"
| "value_bytes (VFloat32 f) = le_put 4 f"
| "value_bytes (VFloat64 f) = le_put 8 f"
| "value_bytes (VString s) = le_put (nat_width (length s)) (word_of_nat (length s) :: u64) @ s"
| "value_bytes (VBytes s) = le_put (nat_width (length s)) (word_of_nat (length s) :: u64) @ s"

definition head_bytes :: "Tag \<Rightarrow> ElementType \<Rightarrow> byte list" where
  "head_bytes tag t = (t_Type tag OR t) # tag_bytes tag"

definition elem_bytes :: "Tag \<Rightarrow> Value \<Rightarrow> byte list" where
  "elem_bytes tag v = head_bytes tag (value_type v) @ value_bytes v"

definition emits :: "Writer \<Rightarrow> byte list \<Rightarrow> Writer \<times> err option" where
  "emits w bs = (w\<lparr>w_buf := w_buf w @ bs\<rparr>, None)"

text \<open>The method that writes a value of each dynamic type.\<close>

fun put_value :: "Writer \<Rightarrow> Tag \<Rightarrow> Value \<Rightarrow> Writer \<times> err option" where
  "put_value w tag VNil = PutNull w tag"
| "put_value w tag (VInt64 v) = PutSignedInt w tag v"
| "put_value w tag (VUint64 v) = PutUnsignedInt w tag v"
| "put_value w tag (VBool v) = PutBool w tag v"
| "put_value w tag (VFloat32 v) = PutFloat32 w tag v"
| "put_value w tag (VFloat64 v) = PutFloat64 w tag v"
| "put_value w tag (VString v) = PutUTF8String w tag v"
| "put_value w tag (VBytes v) = PutOctetString w tag v"

lemma and_then_emits [simp]: "and_then (emits w bs) k = k (w\<lparr>w_buf := w_buf w @ bs\<rparr>)"
  by (simp add: emits_def)

lemma emits_twice [simp]: "emits (w\<lparr>w_buf := w_buf w @ bs\<rparr>) cs = emits w (bs @ cs)"
  by (simp add: emits_def)

lemma emits_eq [simp]: "emits w bs = (w', None) \<longleftrightarrow> w' = w\<lparr>w_buf := w_buf w @ bs\<rparr>"
  by (auto simp: emits_def)

lemma buf_write_emits [simp]: "buf_write w bs = emits w bs"
  by (simp add: buf_write_def emits_def)

lemma writeElement_emits:
  "t_Type tag \<in> set tag_types \<Longrightarrow> writeElement w tag t = emits w (head_bytes tag t)"
  by (simp add: writeElement_def writeControlByte_def buf_write_def emits_def head_bytes_def
      encodeTag_append)

lemma writeElement_error:
  "t_Type tag \<notin> set tag_types \<Longrightarrow>
    \<exists>e. snd (writeElement w tag t) = Some e \<and> errors_Is e ErrInvalidTag"
  by (simp add: writeElement_def writeControlByte_def emits_def encodeTag_error ErrInvalidTag_def)

lemma le_put_ucast:
  "8 * n \<le> LENGTH('b::len) \<Longrightarrow> le_put n (ucast (w :: 'a::len word) :: 'b word) = le_put n w"
proof (intro nth_equalityI)
  fix i assume n: "8 * n \<le> LENGTH('b)" and "i < length (le_put n (ucast w :: 'b word))"
  then have i: "i < n" by simp
  show "le_put n (ucast w :: 'b word) ! i = le_put n w ! i"
    using i n by (intro bit_eqI) (auto simp: bit_le_put bit_simps dest: bit_imp_le_length)
qed simp

lemma le_put_word_of_nat:
  "8 * n \<le> LENGTH('b::len) \<Longrightarrow> 8 * n \<le> LENGTH('a::len) \<Longrightarrow>
    le_put n (word_of_nat k :: 'b word) = le_put n (word_of_nat k :: 'a word)"
proof (intro nth_equalityI)
  fix i assume n: "8 * n \<le> LENGTH('b)" "8 * n \<le> LENGTH('a)"
    and "i < length (le_put n (word_of_nat k :: 'b word))"
  then have i: "i < n" by simp
  show "le_put n (word_of_nat k :: 'b word) ! i = le_put n (word_of_nat k :: 'a word) ! i"
    using i n by (intro bit_eqI) (auto simp: bit_le_put bit_simps dest: bit_imp_le_length)
qed simp

lemma le_put_1: "le_put (Suc 0) w = [ucast w]"
  by simp

lemma PutSignedInt_emits:
  "t_Type tag \<in> set tag_types \<Longrightarrow> PutSignedInt w tag v = emits w (elem_bytes tag (VInt64 v))"
  by (auto simp: PutSignedInt_def writeElement_emits writeSignedValue_def elem_bytes_def
      int_width_def width_code_def const_defs le_put_ucast le_put_1)

lemma PutUnsignedInt_emits:
  "t_Type tag \<in> set tag_types \<Longrightarrow> PutUnsignedInt w tag v = emits w (elem_bytes tag (VUint64 v))"
  by (auto simp: PutUnsignedInt_def writeElement_emits writeUnsignedValue_def elem_bytes_def
      nat_width_def width_code_def const_defs le_put_ucast le_put_1)

lemma string_type_cases:
  "stringElementType n base = Ok (base + width_code (nat_width n))"
  by (simp add: stringElementType_def width_code_def nat_width_def)

lemma nat_width_cases: "nat_width n \<in> {1, 2, 4, 8}"
  by (simp add: nat_width_def)

lemma int_width_cases: "int_width v \<in> {1, 2, 4, 8}"
  by (simp add: int_width_def)

lemma writeLength_emits:
  assumes "base \<in> {TypeUTF8String1, TypeOctetString1}"
  shows "writeLength w (base + width_code (nat_width n)) n
    = emits w (le_put (nat_width n) (word_of_nat n :: u64))"
proof -
  have narrow: "le_put 2 (word_of_nat n :: u16) = le_put 2 (word_of_nat n :: u64)"
    "le_put 4 (word_of_nat n :: u32) = le_put 4 (word_of_nat n :: u64)"
    "[word_of_nat n :: byte] = le_put 1 (word_of_nat n :: u64)"
    using le_put_word_of_nat [of 1 n, where 'b = 8 and 'a = 64] by (simp_all add: le_put_word_of_nat)
  consider "nat_width n = 1" | "nat_width n = 2" | "nat_width n = 4" | "nat_width n = 8"
    using nat_width_cases [of n] by auto
  then show ?thesis
    using assms by cases (auto simp: writeLength_def width_code_def const_defs narrow)
qed

lemma PutUTF8String_emits:
  "t_Type tag \<in> set tag_types \<Longrightarrow> PutUTF8String w tag v = emits w (elem_bytes tag (VString v))"
  by (simp add: PutUTF8String_def string_type_cases writeElement_emits writeLength_emits elem_bytes_def)

lemma PutOctetString_emits:
  "t_Type tag \<in> set tag_types \<Longrightarrow> PutOctetString w tag v = emits w (elem_bytes tag (VBytes v))"
  by (simp add: PutOctetString_def string_type_cases writeElement_emits writeLength_emits elem_bytes_def)

lemma put_value_emits:
  "t_Type tag \<in> set tag_types \<Longrightarrow> put_value w tag v = emits w (elem_bytes tag v)"
  by (cases v)
    (simp_all add: PutSignedInt_emits PutUnsignedInt_emits PutUTF8String_emits PutOctetString_emits,
     simp_all add: PutNull_def PutBool_def PutFloat32_def PutFloat64_def writeElement_emits elem_bytes_def)

text \<open>A tag form that does not exist is refused by every method, with \<^verbatim>\<open>ErrInvalidTag\<close>.\<close>

lemma put_value_error:
  assumes "t_Type tag \<notin> set tag_types"
  shows "\<exists>e. snd (put_value w tag v) = Some e \<and> errors_Is e ErrInvalidTag"
proof -
  have "\<exists>e. snd (and_then (writeElement w tag t) k) = Some e \<and> errors_Is e ErrInvalidTag" for t k
    using writeElement_error [OF assms, of w t]
    by (cases "writeElement w tag t") (auto simp: and_then.simps)
  then show ?thesis
    using writeElement_error [OF assms]
    by (cases v)
      (simp_all add: PutSignedInt_def PutUnsignedInt_def PutBool_def PutFloat32_def PutFloat64_def
        PutUTF8String_def PutOctetString_def PutNull_def string_type_cases Let_def)
qed

subsection \<open>Containers\<close>

lemma Start_emits:
  assumes "t_Type tag \<in> set tag_types"
  shows
    "StartStructure w tag = emits (w\<lparr>w_containers := w_containers w @ [TypeStructure]\<rparr>)
       (head_bytes tag TypeStructure)"
    "StartArray w tag = emits (w\<lparr>w_containers := w_containers w @ [TypeArray]\<rparr>)
       (head_bytes tag TypeArray)"
    "StartList w tag = emits (w\<lparr>w_containers := w_containers w @ [TypeList]\<rparr>)
       (head_bytes tag TypeList)"
  using assms
  by (simp_all add: StartStructure_def StartArray_def StartList_def writeElement_emits
      push_container_def emits_def)

lemma EndContainer_emits:
  "w_containers w \<noteq> [] \<Longrightarrow>
    EndContainer w = emits (w\<lparr>w_containers := butlast (w_containers w)\<rparr>) [TypeEndOfContainer]"
  by (simp add: EndContainer_def)

lemma EndContainer_error:
  "w_containers w = [] \<Longrightarrow>
    \<exists>e. EndContainer w = (w, Some e) \<and> errors_Is e ErrContainerMismatch"
  by (simp add: EndContainer_def ErrContainerMismatch_def)

lemma PutPreEncodedStruct_emits:
  "t_Type tag \<in> set tag_types \<Longrightarrow>
    PutPreEncodedStruct w tag data
      = emits w (head_bytes tag TypeStructure @ data @ [TypeEndOfContainer])"
  by (auto simp: PutPreEncodedStruct_def writeElement_emits emits_def)

subsection \<open>Minimal widths\<close>

definition fits_signed :: "nat \<Rightarrow> int \<Rightarrow> bool" where
  "fits_signed n k \<longleftrightarrow> - (2 ^ (8 * n - 1)) \<le> k \<and> k < 2 ^ (8 * n - 1)"

definition fits_unsigned :: "nat \<Rightarrow> nat \<Rightarrow> bool" where
  "fits_unsigned n k \<longleftrightarrow> k < 2 ^ (8 * n)"

definition widths :: "nat list" where "widths = [1, 2, 4, 8]"

lemma int_width_fits: "fits_signed (int_width v) (sint v)"
  using sint_lt [of v] sint_ge [of v] by (auto simp: int_width_def fits_signed_def)

lemma int_width_least:
  "n \<in> set widths \<Longrightarrow> fits_signed n (sint v) \<Longrightarrow> int_width v \<le> n"
  by (auto simp: int_width_def fits_signed_def widths_def)

lemma nat_width_fits: "k < 2 ^ 64 \<Longrightarrow> fits_unsigned (nat_width k) k"
  by (auto simp: nat_width_def fits_unsigned_def)

lemma nat_width_least:
  "n \<in> set widths \<Longrightarrow> fits_unsigned n k \<Longrightarrow> nat_width k \<le> n"
  by (auto simp: nat_width_def fits_unsigned_def widths_def)

end
