(* ===== verification/Tlv_Reader.thy ===== *)
theory Tlv_Reader
  imports Tlv_Types
begin

text \<open>
  \<^verbatim>\<open>internal/tlv/decoder.go\<close>: the \<^verbatim>\<open>Reader\<close> over an in-memory input, with its stack of open
  containers, the most recent element and the end-of-input flag.  The value readers only touch
  the underlying input, so they are functions of its unread bytes.
\<close>

subsection \<open>Reading values\<close>

definition readSignedInt :: "byte list \<Rightarrow> nat \<Rightarrow> u64 res \<times> byte list" where
  "readSignedInt r sz =
     bind_st (wrap_st (''reading '' @ fmt_d sz @ ''-byte signed int'') (ReadFull sz r))
       (\<lambda>buf r. (Ok (if sz = 1 then scast (buf ! 0)
                     else if sz = 2 then scast (le_get buf :: u16)
                     else if sz = 4 then scast (le_get buf :: u32)
                     else if sz = 8 then le_get buf
                     else 0), r)) id"

definition readUnsignedInt :: "byte list \<Rightarrow> nat \<Rightarrow> u64 res \<times> byte list" where
  "readUnsignedInt r sz =
     bind_st (wrap_st (''reading '' @ fmt_d sz @ ''-byte unsigned int'') (ReadFull sz r))
       (\<lambda>buf r. (Ok (if sz = 1 then ucast (buf ! 0)
                     else if sz = 2 then ucast (le_get buf :: u16)
                     else if sz = 4 then ucast (le_get buf :: u32)
                     else if sz = 8 then le_get buf
                     else 0), r)) id"

definition readFloat32 :: "byte list \<Rightarrow> u32 res \<times> byte list" where
  "readFloat32 r =
     bind_st (wrap_st ''reading float32'' (ReadFull 4 r)) (\<lambda>buf r. (Ok (le_get buf), r)) id"

definition readFloat64 :: "byte list \<Rightarrow> u64 res \<times> byte list" where
  "readFloat64 r =
     bind_st (wrap_st ''reading float64'' (ReadFull 8 r)) (\<lambda>buf r. (Ok (le_get buf), r)) id"

text \<open>The conversion of a \<^verbatim>\<open>uint64\<close> to \<^verbatim>\<open>int\<close> reads the 64 bits as two's complement.\<close>

definition readStringLength :: "byte list \<Rightarrow> nat \<Rightarrow> int res \<times> byte list" where
  "readStringLength r lenBytes =
     bind_st (wrap_st ''reading string length'' (ReadFull lenBytes r))
       (\<lambda>buf r. (Ok (if lenBytes = 1 then uint (buf ! 0)
                     else if lenBytes = 2 then uint (le_get buf :: u16)
                     else if lenBytes = 4 then uint (le_get buf :: u32)
                     else if lenBytes = 8 then sint (le_get buf :: u64)
                     else 0), r)) id"

definition readUTF8String :: "byte list \<Rightarrow> nat \<Rightarrow> byte list res \<times> byte list" where
  "readUTF8String r lenBytes =
     bind_st (readStringLength r lenBytes)
       (\<lambda>n r. if make_panics n then (Panic, r)
              else wrap_st ''reading UTF-8 string data'' (ReadFull (nat n) r)) id"

definition readOctetString :: "byte list \<Rightarrow> nat \<Rightarrow> byte list res \<times> byte list" where
  "readOctetString r lenBytes =
     bind_st (readStringLength r lenBytes)
       (\<lambda>n r. if make_panics n then (Panic, r)
              else wrap_st ''reading octet string data'' (ReadFull (nat n) r)) id"

fun map_st :: "('a \<Rightarrow> 'b) \<Rightarrow> 'a res \<times> 's \<Rightarrow> 'b res \<times> 's" where
  "map_st f (Ok a, s) = (Ok (f a), s)"
| "map_st f (Err e, s) = (Err e, s)"
| "map_st f (Panic, s) = (Panic, s)"

definition readValue :: "byte list \<Rightarrow> ElementType \<Rightarrow> Value res \<times> byte list" where
  "readValue r elemType =
     (if elemType = TypeSignedInt8 then map_st VInt64 (readSignedInt r 1)
      else if elemType = TypeSignedInt16 then map_st VInt64 (readSignedInt r 2)
      else if elemType = TypeSignedInt32 then map_st VInt64 (readSignedInt r 4)
      else if elemType = TypeSignedInt64 then map_st VInt64 (readSignedInt r 8)
      else if elemType = TypeUnsignedInt8 then map_st VUint64 (readUnsignedInt r 1)
      else if elemType = TypeUnsignedInt16 then map_st VUint64 (readUnsignedInt r 2)
      else if elemType = TypeUnsignedInt32 then map_st VUint64 (readUnsignedInt r 4)
      else if elemType = TypeUnsignedInt64 then map_st VUint64 (readUnsignedInt r 8)
      else if elemType = TypeBoolFalse then (Ok (VBool False), r)
      else if elemType = TypeBoolTrue then (Ok (VBool True), r)
      else if elemType = TypeFloat32 then map_st VFloat32 (readFloat32 r)
      else if elemType = TypeFloat64 then map_st VFloat64 (readFloat64 r)
      else if elemType = TypeUTF8String1 then map_st VString (readUTF8String r 1)
      else if elemType = TypeUTF8String2 then map_st VString (readUTF8String r 2)
      else if elemType = TypeUTF8String4 then map_st VString (readUTF8String r 4)
      else if elemType = TypeUTF8String8 then map_st VString (readUTF8String r 8)
      else if elemType = TypeOctetString1 then map_st VBytes (readOctetString r 1)
      else if elemType = TypeOctetString2 then map_st VBytes (readOctetString r 2)
      else if elemType = TypeOctetString4 then map_st VBytes (readOctetString r 4)
      else if elemType = TypeOctetString8 then map_st VBytes (readOctetString r 8)
      else if elemType = TypeNull then (Ok VNil, r)
      else (Err (Errorw (''element type '' @ fmt_02x elemType) ErrInvalidType), r))"

subsection \<open>The reader\<close>

record Reader =
  r_src :: "byte list"
  r_containers :: "ElementType list"
  r_elem :: Element
  r_done :: bool

definition zero_elem :: Element where
  "zero_elem = \<lparr>e_Tag = zero_tag 0, e_Type = 0, e_Value = VNil\<rparr>"

definition NewReader :: "byte list \<Rightarrow> Reader" where
  "NewReader src = \<lparr>r_src = src, r_containers = [], r_elem = zero_elem, r_done = False\<rparr>"

definition is_container :: "ElementType \<Rightarrow> bool" where
  "is_container t \<longleftrightarrow> t = TypeStructure \<or> t = TypeArray \<or> t = TypeList"

definition Next :: "Reader \<Rightarrow> unit res \<times> Reader" where
  "Next r =
     (if r_done r then (Err io_EOF, r)
      else case ReadFull 1 (r_src r) of
        (Err e, s) \<Rightarrow>
          if e = io_EOF \<or> e = io_ErrUnexpectedEOF then
            (Err io_EOF, r\<lparr>r_src := s, r_done := True\<rparr>)
          else (Err (Errorw ''reading control byte'' e), r\<lparr>r_src := s\<rparr>)
      | (Panic, s) \<Rightarrow> (Panic, r\<lparr>r_src := s\<rparr>)
      | (Ok cb, s) \<Rightarrow>
          let tagType = cb ! 0 AND tagTypeMask; elemType = cb ! 0 AND elementTypeMask in
          bind_st (wrap_st ''decoding tag'' (decodeTag s tagType))
            (\<lambda>tag s.
               if elemType = TypeEndOfContainer then
                 (if r_containers r = [] then
                    (Err (Errorw ''unexpected end of container'' ErrContainerMismatch),
                     r\<lparr>r_src := s\<rparr>)
                  else
                    (Ok (), r\<lparr>r_src := s, r_containers := butlast (r_containers r),
                              r_elem := \<lparr>e_Tag = tag, e_Type = elemType, e_Value = VNil\<rparr>\<rparr>))
               else if is_container elemType then
                 (Ok (), r\<lparr>r_src := s, r_containers := r_containers r @ [elemType],
                           r_elem := \<lparr>e_Tag = tag, e_Type = elemType, e_Value = VNil\<rparr>\<rparr>)
               else
                 bind_st (wrap_st (''reading value for '' @ ElementType_String elemType)
                            (readValue s elemType))
                   (\<lambda>val s.
                      (Ok (), r\<lparr>r_src := s,
                                r_elem := \<lparr>e_Tag = tag, e_Type = elemType, e_Value = val\<rparr>\<rparr>))
                   (\<lambda>s. r\<lparr>r_src := s\<rparr>))
            (\<lambda>s. r\<lparr>r_src := s\<rparr>))"

definition Reader_Type :: "Reader \<Rightarrow> ElementType" where
  "Reader_Type r = e_Type (r_elem r)"

definition TagValue :: "Reader \<Rightarrow> Tag" where
  "TagValue r = e_Tag (r_elem r)"

definition Reader_Value :: "Reader \<Rightarrow> Value" where
  "Reader_Value r = e_Value (r_elem r)"

definition ContainerDepth :: "Reader \<Rightarrow> nat" where
  "ContainerDepth r = length (r_containers r)"

end
