(* ===== verification/Tlv_Stream.thy ===== *)
theory Tlv_Stream
  imports Tlv_Writer Tlv_Reader
begin

text \<open>
  The reader against the writer: what \<^verbatim>\<open>Next\<close> does on the bytes each writer method produces, that
  \<^verbatim>\<open>Next\<close> always makes progress, and the two facts about hostile input, the length that makes the
  reader panic and the errors of a truncated stream.
\<close>

subsection \<open>Control bytes\<close>

definition elem_code :: "ElementType \<Rightarrow> bool" where
  "elem_code t \<longleftrightarrow> t AND elementTypeMask = t \<and> t AND tagTypeMask = 0"

lemma tag_type_masks:
  "T \<in> set tag_types \<Longrightarrow> T AND tagTypeMask = T \<and> T AND elementTypeMask = 0"
  by (auto simp: tag_types_def const_defs)

lemma control_byte_split:
  assumes "T \<in> set tag_types" and "elem_code t"
  shows "(T OR t) AND tagTypeMask = T" "(T OR t) AND elementTypeMask = t"
  using tag_type_masks [OF assms(1)] assms(2) by (simp_all add: elem_code_def bit.conj_disj_distrib2)

lemma elem_code_containers [simp]:
  "elem_code TypeStructure" "elem_code TypeArray" "elem_code TypeList" "elem_code TypeEndOfContainer"
  by (simp_all add: elem_code_def const_defs)

lemma value_type_range:
  "value_type v \<in> {TypeSignedInt8, TypeSignedInt16, TypeSignedInt32, TypeSignedInt64,
     TypeUnsignedInt8, TypeUnsignedInt16, TypeUnsignedInt32, TypeUnsignedInt64,
     TypeBoolFalse, TypeBoolTrue, TypeFloat32, TypeFloat64,
     TypeUTF8String1, TypeUTF8String2, TypeUTF8String4, TypeUTF8String8,
     TypeOctetString1, TypeOctetString2, TypeOctetString4, TypeOctetString8, TypeNull}"
  by (cases v) (simp_all add: width_code_def const_defs)

lemma elem_code_value_type [simp]: "elem_code (value_type v)"
  using value_type_range [of v] by (auto simp: elem_code_def const_defs)

lemma value_type_scalar [simp]:
  "value_type v \<noteq> TypeEndOfContainer" "\<not> is_container (value_type v)"
  using value_type_range [of v] by (auto simp: is_container_def const_defs)

subsection \<open>Values\<close>

definition value_ok :: "Value \<Rightarrow> bool" where
  "value_ok v = (case v of VString s \<Rightarrow> length s \<le> max_alloc | VBytes s \<Rightarrow> length s \<le> max_alloc
     | _ \<Rightarrow> True)"

lemma scast_ucast_id:
  assumes "LENGTH('b::len) \<le> LENGTH('a::len)"
    and "- (2 ^ (LENGTH('b) - 1)) \<le> sint v" and "sint v < 2 ^ (LENGTH('b) - 1)"
  shows "scast (ucast (v :: 'a word) :: 'b word) = v"
proof -
  have "sint (ucast v :: 'b word) = signed_take_bit (LENGTH('b) - 1) (sint v)"
    using assms(1) by (intro bit_eqI) (auto simp: bit_simps min_def)
  then have "sint (ucast v :: 'b word) = sint v"
    using assms by (simp add: signed_take_bit_int_eq_self)
  moreover have "signed_take_bit (LENGTH('a) - Suc 0) (sint v) = sint v"
    by (simp add: sint_uint)
  ultimately have "sint (scast (ucast v :: 'b word) :: 'a word) = sint v"
    by (simp add: signed_scast_eq)
  then show ?thesis by (rule signed_word_eqI)
qed

lemma scast_le_get:
  assumes "8 * n = LENGTH('b::len)" and "8 * n \<le> 64"
    and "- (2 ^ (8 * n - 1)) \<le> sint v" and "sint v < 2 ^ (8 * n - 1)"
  shows "scast (le_get (le_put n v) :: 'b word) = (v :: u64)"
proof -
  have "le_get (le_put n v) = (ucast v :: 'b word)"
    using assms le_put_ucast [of n v, where 'b = 'b] le_get_le_put_id [of n "ucast v :: 'b word"] by simp
  then show ?thesis using assms scast_ucast_id [of v, where 'b = 'b] by simp
qed

lemma ucast_le_get:
  assumes "8 * n = LENGTH('b::len)" and "8 * n \<le> 64" and "unat v < 2 ^ (8 * n)"
  shows "ucast (le_get (le_put n v) :: 'b word) = (v :: u64)"
proof -
  have "le_get (le_put n v) = (ucast v :: 'b word)"
    using assms le_put_ucast [of n v, where 'b = 'b] le_get_le_put_id [of n "ucast v :: 'b word"] by simp
  then show ?thesis using assms ucast_ucast_small [of v, where 'b = 'b] by simp
qed

lemma readSignedInt_put:
  assumes "n \<in> {1, 2, 4, 8}" and "fits_signed n (sint v)"
  shows "readSignedInt (le_put n v @ rest) n = (Ok v, rest)"
  using assms scast_le_get [of 1 v, where 'b = 8] scast_le_get [of 2 v, where 'b = 16]
    scast_le_get [of 4 v, where 'b = 32]
  by (auto simp: readSignedInt_def fits_signed_def)

lemma readUnsignedInt_put:
  assumes "n \<in> {1, 2, 4, 8}" and "fits_unsigned n (unat v)"
  shows "readUnsignedInt (le_put n v @ rest) n = (Ok v, rest)"
  using assms ucast_le_get [of 1 v, where 'b = 8] ucast_le_get [of 2 v, where 'b = 16]
    ucast_le_get [of 4 v, where 'b = 32]
  by (auto simp: readUnsignedInt_def fits_unsigned_def)

lemma uint_le_get_length:
  assumes "8 * n = LENGTH('b::len)" and "8 * n \<le> 64" and "k < 2 ^ (8 * n)"
  shows "uint (le_get (le_put n (word_of_nat k :: u64)) :: 'b word) = int k"
proof -
  have "le_get (le_put n (word_of_nat k :: u64)) = (word_of_nat k :: 'b word)"
    using assms le_put_word_of_nat [of n k, where 'b = 'b and 'a = 64]
      le_get_le_put_id [of n "word_of_nat k :: 'b word"] by simp
  then show ?thesis using assms uint_word_of_nat_id [of k, where 'a = 'b] by simp
qed

lemma readStringLength_put:
  assumes "k \<le> max_alloc"
  shows "readStringLength (le_put (nat_width k) (word_of_nat k :: u64) @ rest) (nat_width k)
    = (Ok (int k), rest)"
proof -
  have k: "k < 2 ^ 63" "k < 2 ^ 64" using assms by (simp_all add: max_alloc_def)
  note g = uint_le_get_length [of _ k]
  have s: "sint (le_get (le_put 8 (word_of_nat k :: u64)) :: u64) = int k"
    using k sint_small [of "word_of_nat k :: u64"] unat_word_of_nat_id [of k, where 'a = 64] by simp
  consider "nat_width k = 1" | "nat_width k = 2" | "nat_width k = 4" | "nat_width k = 8"
    using nat_width_cases [of k] by auto
  then show ?thesis
    using nat_width_fits [OF k(2)] g [of 1, where 'b = 8] g [of 2, where 'b = 16] g [of 4, where 'b = 32] s
    by cases (simp_all add: readStringLength_def fits_unsigned_def)
qed

lemma readString_put:
  assumes "length s \<le> max_alloc"
  shows "readUTF8String ((le_put (nat_width (length s)) (word_of_nat (length s) :: u64) @ s) @ rest)
      (nat_width (length s)) = (Ok s, rest)"
    and "readOctetString ((le_put (nat_width (length s)) (word_of_nat (length s) :: u64) @ s) @ rest)
      (nat_width (length s)) = (Ok s, rest)"
  using readStringLength_put [OF assms, of "s @ rest"] assms
  by (simp_all add: readUTF8String_def readOctetString_def make_panics_def)

text \<open>Every value read back from its own encoding.\<close>

lemma readValue_value_bytes:
  assumes "value_ok v"
  shows "readValue (value_bytes v @ rest) (value_type v) = (Ok v, rest)"
proof (cases v)
  case (VInt64 x)
  then show ?thesis
    using readSignedInt_put [OF int_width_cases int_width_fits, of x rest] int_width_cases [of x]
    by (auto simp: readValue_def width_code_def const_defs)
next
  case (VUint64 x)
  have "unat x < 2 ^ 64" using unsigned_less [of x] by simp
  from readUnsignedInt_put [OF nat_width_cases nat_width_fits [OF this], of rest]
  show ?thesis
    using VUint64 nat_width_cases [of "unat x"]
    by (auto simp: readValue_def width_code_def const_defs)
next
  case (VString x)
  with assms have "length x \<le> max_alloc" by (simp add: value_ok_def)
  from readString_put(1) [OF this, of rest] show ?thesis
    using VString nat_width_cases [of "length x"]
    by (auto simp: readValue_def width_code_def const_defs)
next
  case (VBytes x)
  with assms have "length x \<le> max_alloc" by (simp add: value_ok_def)
  from readString_put(2) [OF this, of rest] show ?thesis
    using VBytes nat_width_cases [of "length x"]
    by (auto simp: readValue_def width_code_def const_defs)
qed (simp_all add: readValue_def const_defs readFloat32_def readFloat64_def)

subsection \<open>\<^verbatim>\<open>Next\<close> on the bytes of one element\<close>

lemma Next_head:
  assumes "wf_tag tag" and "elem_code t" and "\<not> r_done r"
    and "r_src r = head_bytes tag t @ rest"
  shows "Next r =
     (if t = TypeEndOfContainer then
        (if r_containers r = [] then
           (Err (Errorw ''unexpected end of container'' ErrContainerMismatch), r\<lparr>r_src := rest\<rparr>)
         else (Ok (), r\<lparr>r_src := rest, r_containers := butlast (r_containers r),
                        r_elem := \<lparr>e_Tag = tag, e_Type = t, e_Value = VNil\<rparr>\<rparr>))
      else if is_container t then
        (Ok (), r\<lparr>r_src := rest, r_containers := r_containers r @ [t],
                  r_elem := \<lparr>e_Tag = tag, e_Type = t, e_Value = VNil\<rparr>\<rparr>)
      else
        bind_st (wrap_st (''reading value for '' @ ElementType_String t) (readValue rest t))
          (\<lambda>val s. (Ok (), r\<lparr>r_src := s, r_elem := \<lparr>e_Tag = tag, e_Type = t, e_Value = val\<rparr>\<rparr>))
          (\<lambda>s. r\<lparr>r_src := s\<rparr>))"
proof -
  have "t_Type tag \<in> set tag_types" using assms(1) by (simp add: wf_tag_def)
  note cb = control_byte_split [OF this assms(2)]
  show ?thesis
    using assms(3,4) tag_bytes_inverse [OF assms(1), of rest]
    by (simp add: Next_def head_bytes_def cb)
qed

lemma Next_value:
  assumes "wf_tag tag" and "value_ok v" and "\<not> r_done r" and "r_src r = elem_bytes tag v @ rest"
  shows "Next r = (Ok (), r\<lparr>r_src := rest,
           r_elem := \<lparr>e_Tag = tag, e_Type = value_type v, e_Value = v\<rparr>\<rparr>)"
  using assms Next_head [OF assms(1) elem_code_value_type [of v] assms(3), of "value_bytes v @ rest"]
  by (simp add: elem_bytes_def readValue_value_bytes)

lemma Next_open:
  assumes "wf_tag tag" and "t \<in> {TypeStructure, TypeArray, TypeList}" and "\<not> r_done r"
    and "r_src r = head_bytes tag t @ rest"
  shows "Next r = (Ok (), r\<lparr>r_src := rest, r_containers := r_containers r @ [t],
           r_elem := \<lparr>e_Tag = tag, e_Type = t, e_Value = VNil\<rparr>\<rparr>)"
proof -
  have "elem_code t" "t \<noteq> TypeEndOfContainer" "is_container t"
    using assms(2) by (auto simp: is_container_def) (auto simp: const_defs)
  with Next_head [OF assms(1) _ assms(3,4)] show ?thesis by simp
qed

lemma head_bytes_EndOfContainer: "head_bytes AnonymousTag TypeEndOfContainer = [TypeEndOfContainer]"
  by (simp add: head_bytes_def tag_bytes_simps AnonymousTag_def zero_tag_def) (simp add: const_defs)

lemma Next_close:
  assumes "\<not> r_done r" and "r_containers r \<noteq> []" and "r_src r = TypeEndOfContainer # rest"
  shows "Next r = (Ok (), r\<lparr>r_src := rest, r_containers := butlast (r_containers r),
           r_elem := \<lparr>e_Tag = AnonymousTag, e_Type = TypeEndOfContainer, e_Value = VNil\<rparr>\<rparr>)"
  using assms Next_head [of AnonymousTag TypeEndOfContainer r rest] by (simp add: head_bytes_EndOfContainer)

subsection \<open>Progress\<close>

lemma suffix_bind_st:
  fixes r :: "byte list"
  shows "suffix (snd m) r \<Longrightarrow> (\<And>a s. suffix (snd (k a s)) s) \<Longrightarrow> suffix (snd (bind_st m k id)) r"
  by (cases "(m, k, id :: byte list \<Rightarrow> byte list)" rule: bind_st.cases) (auto intro: suffix_order.trans)

lemma snd_map_st [simp]: "snd (map_st f m) = snd m"
  by (cases "(f, m)" rule: map_st.cases) auto

lemma map_st_Ok_iff: "map_st f m = (Ok b, s) \<longleftrightarrow> (\<exists>a. m = (Ok a, s) \<and> b = f a)"
  by (cases "(f, m)" rule: map_st.cases) auto

lemma suffix_reads [simp]:
  "suffix (snd (readSignedInt r n)) r" "suffix (snd (readUnsignedInt r n)) r"
  "suffix (snd (readFloat32 r)) r" "suffix (snd (readFloat64 r)) r"
  "suffix (snd (readStringLength r n)) r"
  by (simp_all add: readSignedInt_def readUnsignedInt_def readFloat32_def readFloat64_def
      readStringLength_def suffix_bind_st)

lemma suffix_read_strings [simp]:
  "suffix (snd (readUTF8String r n)) r" "suffix (snd (readOctetString r n)) r"
  by (simp_all add: readUTF8String_def readOctetString_def suffix_bind_st)

lemma suffix_readValue: "suffix (snd (readValue r t)) r"
  by (simp add: readValue_def)

lemma Next_consumes:
  assumes "Next r = (Ok (), r')"
  shows "length (r_src r') < length (r_src r)"
proof -
  have "r_src r \<noteq> [] \<and> \<not> r_done r"
    using assms by (auto simp: Next_def ReadFull_def split: if_splits)
  then obtain b s where src: "r_src r = b # s" and d: "\<not> r_done r" by (cases "r_src r") auto
  obtain tag s1 where tag: "decodeTag s (b AND tagTypeMask) = (Ok tag, s1)"
    using assms src d by (auto simp: Next_def bind_st_Ok_iff wrap_st_Ok_iff Let_def)
  have "length s1 \<le> length s"
    using decodeTag_suffix [of s "b AND tagTypeMask"] tag by (auto dest: suffix_length_le)
  moreover have "length (r_src r') \<le> length s1"
  proof (cases "r_src r' = s1")
    case False
    then obtain val where "readValue s1 (b AND elementTypeMask) = (Ok val, r_src r')"
      using assms src d tag
      by (auto simp: Next_def bind_st_Ok_iff wrap_st_Ok_iff Let_def split: if_splits)
    then show ?thesis
      using suffix_readValue [of s1 "b AND elementTypeMask"] by (auto dest: suffix_length_le)
  qed simp
  ultimately show ?thesis using src by simp
qed

end
