(* ===== verification/Tlv_Capture.thy ===== *)
theory Tlv_Capture
  imports Tlv_Stream
begin

text \<open>
  The element-level operations of \<^verbatim>\<open>internal/tlv/marshal.go\<close>: skipping an element, re-encoding one
  with another tag, and capturing one as raw bytes.  Their loops end because every \<^verbatim>\<open>Next\<close> consumes
  input (\<open>Next_consumes\<close>), which is also the termination measure here.  The specification is a tree
  of elements with its canonical encoding; the theorems say that each operation consumes exactly
  one encoded tree and writes that tree back, and that what is captured from any input at all is the
  canonical encoding of some tree.
\<close>

subsection \<open>Skipping\<close>

function skip_loop :: "nat \<Rightarrow> Reader \<Rightarrow> unit res \<times> Reader" where
  "skip_loop depth r =
     (if depth = 0 then (Ok (), r)
      else case wrap_st ''skipping element'' (Next r) of
        (Ok _, r') \<Rightarrow>
          skip_loop (if is_container (Reader_Type r') then depth + 1
                     else if Reader_Type r' = TypeEndOfContainer then depth - 1
                     else depth) r'
      | (Err e, r') \<Rightarrow> (Err e, r')
      | (Panic, r') \<Rightarrow> (Panic, r'))"
  by pat_completeness auto
termination
  by (relation "measure (\<lambda>(depth, r). length (r_src r))")
    (auto dest!: sym [where t = "wrap_st _ _"] simp: wrap_st_Ok_iff Next_consumes)

declare skip_loop.simps [simp del]

definition skipElement :: "Reader \<Rightarrow> unit res \<times> Reader" where
  "skipElement r =
     (if \<not> is_container (Reader_Type r) then (Ok (), r) else skip_loop 1 r)"

subsection \<open>Re-encoding\<close>

definition to_res :: "Writer \<times> err option \<Rightarrow> unit res \<times> Writer" where
  "to_res m = (case m of (w, None) \<Rightarrow> (Ok (), w) | (w, Some e) \<Rightarrow> (Err e, w))"

text \<open>
  A Go type assertion \<^verbatim>\<open>v.(T)\<close> with one result panics when the dynamic type is another one.
\<close>

definition reencodeScalar :: "Writer \<Rightarrow> Tag \<Rightarrow> Reader \<Rightarrow> unit res \<times> Writer" where
  "reencodeScalar w tag r =
     (let t = Reader_Type r; v = Reader_Value r in
      if t \<in> {TypeSignedInt8, TypeSignedInt16, TypeSignedInt32, TypeSignedInt64} then
        (case v of VInt64 x \<Rightarrow> to_res (PutSignedInt w tag x) | _ \<Rightarrow> (Panic, w))
      else if t \<in> {TypeUnsignedInt8, TypeUnsignedInt16, TypeUnsignedInt32, TypeUnsignedInt64} then
        (case v of VUint64 x \<Rightarrow> to_res (PutUnsignedInt w tag x) | _ \<Rightarrow> (Panic, w))
      else if t \<in> {TypeBoolFalse, TypeBoolTrue} then
        (case v of VBool x \<Rightarrow> to_res (PutBool w tag x) | _ \<Rightarrow> (Panic, w))
      else if t = TypeFloat32 then
        (case v of VFloat32 x \<Rightarrow> to_res (PutFloat32 w tag x) | _ \<Rightarrow> (Panic, w))
      else if t = TypeFloat64 then
        (case v of VFloat64 x \<Rightarrow> to_res (PutFloat64 w tag x) | _ \<Rightarrow> (Panic, w))
      else if t \<in> {TypeUTF8String1, TypeUTF8String2, TypeUTF8String4, TypeUTF8String8} then
        (case v of VString x \<Rightarrow> to_res (PutUTF8String w tag x) | _ \<Rightarrow> (Panic, w))
      else if t \<in> {TypeOctetString1, TypeOctetString2, TypeOctetString4, TypeOctetString8} then
        (case v of VBytes x \<Rightarrow> to_res (PutOctetString w tag x) | _ \<Rightarrow> (Panic, w))
      else if t = TypeNull then to_res (PutNull w tag)
      else (Err (Errorf (''rawstruct: unsupported element type '' @ ElementType_String t)), w))"

text \<open>
  \<open>startContainer\<close> is the three-way switch on the container type that the re-encoding and the
  capturing functions repeat.
\<close>

definition startContainer :: "Writer \<Rightarrow> ElementType \<Rightarrow> Tag \<Rightarrow> Writer \<times> err option" where
  "startContainer w t tag =
     (if t = TypeStructure then StartStructure w tag
      else if t = TypeArray then StartArray w tag
      else StartList w tag)"

text \<open>
  The mutual recursion of \<^verbatim>\<open>reencodeElement\<close> and \<^verbatim>\<open>reencodeContainerBody\<close>: the loop goes on from
  the reader that the recursive call returned, so the recursion is nested, and its termination
  rests on the fact that the call never un-reads input (\<open>reencode_shrinks\<close>).
\<close>

function (domintros)
  reencodeElement :: "Writer \<Rightarrow> Tag \<Rightarrow> Reader \<Rightarrow> unit res \<times> Writer \<times> Reader"
  and reencodeContainerBody :: "Writer \<Rightarrow> Reader \<Rightarrow> unit res \<times> Writer \<times> Reader" where
  "reencodeElement w tag r =
     (if is_container (Reader_Type r) then
        (case startContainer w (Reader_Type r) tag of
           (w', Some e) \<Rightarrow> (Err e, w', r)
         | (w', None) \<Rightarrow> reencodeContainerBody w' r)
      else (case reencodeScalar w tag r of (x, w') \<Rightarrow> (x, w', r)))"
| "reencodeContainerBody w r =
     (case Next r of
        (Err e, r') \<Rightarrow> (Err e, w, r')
      | (Panic, r') \<Rightarrow> (Panic, w, r')
      | (Ok _, r') \<Rightarrow>
          if Reader_Type r' = TypeEndOfContainer then
            (case to_res (EndContainer w) of (x, w') \<Rightarrow> (x, w', r'))
          else
            (case reencodeElement w (TagValue r') r' of
               (Ok _, w', r'') \<Rightarrow> reencodeContainerBody w' r''
             | (Err e, w', r'') \<Rightarrow> (Err e, w', r'')
             | (Panic, w', r'') \<Rightarrow> (Panic, w', r'')))"
  by pat_completeness auto

abbreviation reencode_dom :: "Writer \<times> Tag \<times> Reader + Writer \<times> Reader \<Rightarrow> bool" where
  "reencode_dom \<equiv> reencodeElement_reencodeContainerBody_dom"

lemma reencode_shrinks:
  "reencode_dom (Inl (w, tag, r)) \<Longrightarrow>
    \<forall>u w' r'. reencodeElement w tag r = (Ok u, w', r') \<longrightarrow> length (r_src r') \<le> length (r_src r)"
  "reencode_dom (Inr (w, r)) \<Longrightarrow>
    \<forall>u w' r'. reencodeContainerBody w r = (Ok u, w', r') \<longrightarrow> length (r_src r') \<le> length (r_src r)"
proof (induction w tag r and w r rule: reencodeElement_reencodeContainerBody.pinduct)
  case (1 w tag r)
  then show ?case
    by (auto simp: reencodeElement.psimps split: prod.splits option.splits if_splits)
next
  case (2 w r)
  show ?case
  proof (intro allI impI)
    fix u w' r' assume res: "reencodeContainerBody w r = (Ok u, w', r')"
    obtain r1 where n: "Next r = (Ok (), r1)"
      using res "2.hyps" by (auto simp: reencodeContainerBody.psimps split: prod.splits res.splits)
    then have lt: "length (r_src r1) < length (r_src r)" by (rule Next_consumes)
    show "length (r_src r') \<le> length (r_src r)"
    proof (cases "Reader_Type r1 = TypeEndOfContainer")
      case True
      with res n "2.hyps" have "r' = r1"
        by (auto simp: reencodeContainerBody.psimps split: prod.splits)
      with lt show ?thesis by simp
    next
      case False
      with res n "2.hyps" obtain u2 w2 r2 where
        e: "reencodeElement w (TagValue r1) r1 = (Ok u2, w2, r2)"
        and b: "reencodeContainerBody w2 r2 = (Ok u, w', r')"
        by (auto simp: reencodeContainerBody.psimps split: prod.splits res.splits)
      from e "2.IH"(1) [OF n [symmetric] refl False] have "length (r_src r2) \<le> length (r_src r1)" by auto
      moreover from b "2.IH"(2) [OF n [symmetric] refl False e [symmetric] refl refl]
      have "length (r_src r') \<le> length (r_src r2)" by auto
      ultimately show ?thesis using lt by simp
    qed
  qed
qed

termination reencodeElement
proof (relation "measure (\<lambda>x. case x of Inl (w, tag, r) \<Rightarrow> 2 * length (r_src r) + 1
    | Inr (w, r) \<Rightarrow> 2 * length (r_src r))", goal_cases)
  case (3 w r x r1 u)
  then have "Next r = (Ok (), r1)" by simp
  from Next_consumes [OF this] show ?case by simp
next
  case (4 w r x r1 u y z u2 w2 r2)
  then have "Next r = (Ok (), r1)" and e: "reencodeElement w (TagValue r1) r1 = (Ok u2, w2, r2)"
    by simp_all
  from Next_consumes [OF this(1)] reencode_shrinks(1) [OF 4(7)] e show ?case by fastforce
qed simp_all

declare reencodeElement.simps [simp del] reencodeContainerBody.simps [simp del]

subsection \<open>Capturing\<close>

text \<open>
  \<open>capture_loop\<close> is the loop that \<^verbatim>\<open>captureStructBody\<close> and \<^verbatim>\<open>captureElement\<close> share word for word;
  \<open>msg\<close> is the text of the error it wraps.  The errors of the writer's container methods are
  discarded, as \<^verbatim>\<open>_ = w.StartStructure(tag)\<close> does.
\<close>

function capture_loop :: "string \<Rightarrow> nat \<Rightarrow> Writer \<Rightarrow> Reader \<Rightarrow> unit res \<times> Writer \<times> Reader" where
  "capture_loop msg depth w r =
     (if depth = 0 then (Ok (), w, r)
      else case wrap_st msg (Next r) of
        (Err e, r') \<Rightarrow> (Err e, w, r')
      | (Panic, r') \<Rightarrow> (Panic, w, r')
      | (Ok _, r') \<Rightarrow>
          if Reader_Type r' = TypeEndOfContainer then
            capture_loop msg (depth - 1) (if depth - 1 > 0 then fst (EndContainer w) else w) r'
          else if is_container (Reader_Type r') then
            capture_loop msg (depth + 1) (fst (startContainer w (Reader_Type r') (TagValue r'))) r'
          else
            (case reencodeScalar w (TagValue r') r' of
               (Ok _, w') \<Rightarrow> capture_loop msg depth w' r'
             | (Err e, w') \<Rightarrow> (Err e, w', r')
             | (Panic, w') \<Rightarrow> (Panic, w', r')))"
  by pat_completeness auto
termination
  by (relation "measure (\<lambda>(msg, depth, w, r). length (r_src r))")
    (auto dest!: sym [where t = "wrap_st _ _"] simp: wrap_st_Ok_iff Next_consumes)

declare capture_loop.simps [simp del]

definition captureStructBody :: "Reader \<Rightarrow> byte list res \<times> Reader" where
  "captureStructBody r =
     (case capture_loop ''reading rawstruct body'' 1 NewWriter r of
        (Ok _, w, r') \<Rightarrow> (Ok (Bytes w), r')
      | (Err e, w, r') \<Rightarrow> (Err e, r')
      | (Panic, w, r') \<Rightarrow> (Panic, r'))"

definition captureElement :: "Reader \<Rightarrow> byte list res \<times> Reader" where
  "captureElement r =
     (let w = NewWriter; tag = AnonymousTag in
      if is_container (Reader_Type r) then
        (case capture_loop ''capturing container element'' 1
                (fst (startContainer w (Reader_Type r) tag)) r of
           (Ok _, w, r') \<Rightarrow> (Ok (Bytes (fst (EndContainer w))), r')
         | (Err e, w, r') \<Rightarrow> (Err e, r')
         | (Panic, w, r') \<Rightarrow> (Panic, r'))
      else
        (case reencodeScalar w tag r of
           (Ok _, w) \<Rightarrow> (Ok (Bytes w), r)
         | (Err e, w) \<Rightarrow> (Err e, r)
         | (Panic, w) \<Rightarrow> (Panic, r)))"

definition WrapStruct :: "byte list \<Rightarrow> byte list" where
  "WrapStruct inner = Bytes (fst (PutPreEncodedStruct NewWriter AnonymousTag inner))"

subsection \<open>Trees of elements\<close>

datatype Tlv = Leaf Tag Value | Node Tag ElementType "Tlv list"

fun tlv_bytes :: "Tlv \<Rightarrow> byte list" where
  "tlv_bytes (Leaf tag v) = elem_bytes tag v"
| "tlv_bytes (Node tag k ts) =
     head_bytes tag k @ concat (map tlv_bytes ts) @ [TypeEndOfContainer]"

fun wf_tlv :: "Tlv \<Rightarrow> bool" where
  "wf_tlv (Leaf tag v) = (wf_tag tag \<and> value_ok v)"
| "wf_tlv (Node tag k ts) =
     (wf_tag tag \<and> k \<in> {TypeStructure, TypeArray, TypeList} \<and> (\<forall>t \<in> set ts. wf_tlv t))"

fun retag :: "Tag \<Rightarrow> Tlv \<Rightarrow> Tlv" where
  "retag tag (Leaf _ v) = Leaf tag v"
| "retag tag (Node _ k ts) = Node tag k ts"

fun tlv_size :: "Tlv \<Rightarrow> nat" where
  "tlv_size (Leaf tag v) = 1"
| "tlv_size (Node tag k ts) = 2 + sum_list (map tlv_size ts)"

text \<open>The calls of the writer that produce a tree.\<close>

fun put_tlv :: "Writer \<Rightarrow> Tlv \<Rightarrow> Writer \<times> err option"
  and put_tlvs :: "Writer \<Rightarrow> Tlv list \<Rightarrow> Writer \<times> err option" where
  "put_tlv w (Leaf tag v) = put_value w tag v"
| "put_tlv w (Node tag k ts) =
     and_then (startContainer w k tag) (\<lambda>w. and_then (put_tlvs w ts) EndContainer)"
| "put_tlvs w [] = (w, None)"
| "put_tlvs w (t # ts) = and_then (put_tlv w t) (\<lambda>w. put_tlvs w ts)"

lemma startContainer_emits:
  assumes "wf_tag tag" and "k \<in> {TypeStructure, TypeArray, TypeList}"
  shows "startContainer w k tag
    = emits (w\<lparr>w_containers := w_containers w @ [k]\<rparr>) (head_bytes tag k)"
  using assms by (auto simp: startContainer_def Start_emits wf_tag_def)

lemma put_tlv_emits:
  "wf_tlv t \<Longrightarrow> put_tlv w t = emits w (tlv_bytes t)"
  "(\<forall>t \<in> set ts. wf_tlv t) \<Longrightarrow> put_tlvs w ts = emits w (concat (map tlv_bytes ts))"
proof (induction w t and w ts rule: put_tlv_put_tlvs.induct)
  case (1 w tag v)
  then show ?case by (simp add: put_value_emits wf_tag_def)
next
  case (2 w tag k ts)
  then show ?case by (simp add: startContainer_emits EndContainer_emits emits_def)
next
  case (4 w t ts)
  then show ?case by simp
qed (simp add: emits_def)

lemma tlv_forest_induct [case_names Leaf Node Nil Cons]:
  assumes "\<And>tag v. P (Leaf tag v)"
    and node: "\<And>tag k ts. Q ts \<Longrightarrow> P (Node tag k ts)"
    and nil: "Q []"
    and cons: "\<And>t ts. P t \<Longrightarrow> Q ts \<Longrightarrow> Q (t # ts)"
  shows "P t" "Q ts"
proof -
  show P: "P t" for t
  proof (induction t)
    case (Node tag k ts)
    then have "Q ts" by (induction ts) (auto intro: nil cons)
    then show ?case by (rule node)
  qed (rule assms)
  show "Q ts" by (induction ts) (auto intro: nil cons P)
qed

abbreviation forest_bytes :: "Tlv list \<Rightarrow> byte list" where
  "forest_bytes ts \<equiv> concat (map tlv_bytes ts)"

abbreviation wf_forest :: "Tlv list \<Rightarrow> bool" where
  "wf_forest ts \<equiv> (\<forall>t \<in> set ts. wf_tlv t)"

text \<open>\<open>at r bs\<close>: the reader is live and about to read \<open>bs\<close>.\<close>

definition at :: "Reader \<Rightarrow> byte list \<Rightarrow> bool" where
  "at r bs \<longleftrightarrow> \<not> r_done r \<and> r_src r = bs"

lemma at_update [simp]: "at (r\<lparr>r_src := bs, r_elem := e\<rparr>) cs \<longleftrightarrow> \<not> r_done r \<and> bs = cs"
  by (simp add: at_def)

lemma at_NewReader [simp]: "at (NewReader bs) cs \<longleftrightarrow> bs = cs"
  by (simp add: at_def NewReader_def)

lemma value_type_is_container [simp]: "is_container (value_type v) = False"
  by simp

lemma is_container_kinds: "is_container k \<longleftrightarrow> k \<in> {TypeStructure, TypeArray, TypeList}"
  by (auto simp: is_container_def)

lemma container_not_end: "is_container k \<Longrightarrow> k \<noteq> TypeEndOfContainer"
  by (auto simp: is_container_def const_defs)

lemma not_container_end [simp]: "\<not> is_container TypeEndOfContainer"
  by (simp add: is_container_def const_defs)

text \<open>The four shapes of \<^verbatim>\<open>Next\<close> on a tree, with the reader's fields spelled out.\<close>

lemma Next_leaf_at:
  assumes "wf_tlv (Leaf tag v)" and "at r (tlv_bytes (Leaf tag v) @ rest)"
  shows "Next r = (Ok (), r\<lparr>r_src := rest,
           r_elem := \<lparr>e_Tag = tag, e_Type = value_type v, e_Value = v\<rparr>\<rparr>)"
  using assms Next_value [of tag v r rest] by (simp add: at_def)

lemma Next_node_at:
  assumes "wf_tlv (Node tag k ts)" and "at r (tlv_bytes (Node tag k ts) @ rest)"
  shows "Next r = (Ok (), r\<lparr>r_src := forest_bytes ts @ TypeEndOfContainer # rest,
           r_containers := r_containers r @ [k],
           r_elem := \<lparr>e_Tag = tag, e_Type = k, e_Value = VNil\<rparr>\<rparr>)"
  using assms Next_open [of tag k r "forest_bytes ts @ TypeEndOfContainer # rest"] by (simp add: at_def)

lemma Next_close_at:
  assumes "at r (TypeEndOfContainer # rest)" and "r_containers r = cs @ [k]"
  shows "Next r = (Ok (), r\<lparr>r_src := rest, r_containers := cs,
           r_elem := \<lparr>e_Tag = AnonymousTag, e_Type = TypeEndOfContainer, e_Value = VNil\<rparr>\<rparr>)"
  using assms Next_close [of r rest] by (simp add: at_def)

subsection \<open>Skipping consumes exactly one element\<close>

lemma skip_loop_tree:
  "wf_tlv t \<Longrightarrow> at r (tlv_bytes t @ rest) \<Longrightarrow> 0 < d \<Longrightarrow>
    \<exists>e. skip_loop d r = skip_loop d (r\<lparr>r_src := rest, r_elem := e\<rparr>)"
  "wf_forest ts \<Longrightarrow> at r (forest_bytes ts @ rest) \<Longrightarrow> 0 < d \<Longrightarrow>
    \<exists>e. skip_loop d r = skip_loop d (r\<lparr>r_src := rest, r_elem := e\<rparr>)"
proof (induction t and ts arbitrary: r rest d and r rest d rule: tlv_forest_induct)
  case (Leaf tag v)
  from Next_leaf_at [OF Leaf(1,2)] Leaf(3) show ?case
    by (subst skip_loop.simps) (auto simp: Reader_Type_def)
next
  case (Node tag k ts)
  have k: "is_container k" using Node.prems(1) by (simp add: is_container_kinds)
  let ?r1 = "r\<lparr>r_src := forest_bytes ts @ TypeEndOfContainer # rest,
    r_containers := r_containers r @ [k], r_elem := \<lparr>e_Tag = tag, e_Type = k, e_Value = VNil\<rparr>\<rparr>"
  have "skip_loop d r = skip_loop (d + 1) ?r1"
    using Next_node_at [OF Node.prems(1,2)] Node.prems(3) k
    by (subst skip_loop.simps) (simp add: Reader_Type_def)
  moreover obtain e where "skip_loop (d + 1) ?r1
      = skip_loop (d + 1) (?r1\<lparr>r_src := TypeEndOfContainer # rest, r_elem := e\<rparr>)"
    using Node.IH [of ?r1 "TypeEndOfContainer # rest" "d + 1"] Node.prems by (auto simp: at_def)
  moreover have "\<exists>e'. skip_loop (d + 1) (?r1\<lparr>r_src := TypeEndOfContainer # rest, r_elem := e\<rparr>)
      = skip_loop d (r\<lparr>r_src := rest, r_elem := e'\<rparr>)" for e
    using Next_close_at [of "?r1\<lparr>r_src := TypeEndOfContainer # rest, r_elem := e\<rparr>" rest "r_containers r" k]
      Node.prems(2)
    by (subst skip_loop.simps) (auto simp: Reader_Type_def at_def)
  ultimately show ?case by metis
next
  case Nil
  then show ?case by (intro exI [of _ "r_elem r"]) (auto simp: at_def)
next
  case (Cons t ts)
  from Cons.prems Cons.IH(1) [of r "forest_bytes ts @ rest" d] obtain e where
    "skip_loop d r = skip_loop d (r\<lparr>r_src := forest_bytes ts @ rest, r_elem := e\<rparr>)" by auto
  moreover from Cons.prems Cons.IH(2) [of "r\<lparr>r_src := forest_bytes ts @ rest, r_elem := e\<rparr>" rest d]
  obtain e' where "skip_loop d (r\<lparr>r_src := forest_bytes ts @ rest, r_elem := e\<rparr>)
      = skip_loop d (r\<lparr>r_src := rest, r_elem := e'\<rparr>)" by (auto simp: at_def)
  ultimately show ?case by auto
qed

subsection \<open>Capturing and re-encoding write the element back\<close>

lemma reencodeScalar_value:
  assumes "wf_tag tag" and "Reader_Type r = value_type v" and "Reader_Value r = v"
  shows "reencodeScalar w tag r = (Ok (), w\<lparr>w_buf := w_buf w @ elem_bytes tag v\<rparr>)"
proof -
  have t: "t_Type tag \<in> set tag_types" using assms(1) by (simp add: wf_tag_def)
  have "reencodeScalar w tag r = to_res (put_value w tag v)"
    using assms(2,3) int_width_cases nat_width_cases
    by (cases v) (auto simp: reencodeScalar_def Let_def width_code_def const_defs)
  then show ?thesis by (simp add: put_value_emits [OF t] to_res_def emits_def)
qed

lemma capture_loop_tree:
  "wf_tlv t \<Longrightarrow> at r (tlv_bytes t @ rest) \<Longrightarrow> 0 < d \<Longrightarrow>
    \<exists>e. capture_loop msg d w r
      = capture_loop msg d (w\<lparr>w_buf := w_buf w @ tlv_bytes t\<rparr>) (r\<lparr>r_src := rest, r_elem := e\<rparr>)"
  "wf_forest ts \<Longrightarrow> at r (forest_bytes ts @ rest) \<Longrightarrow> 0 < d \<Longrightarrow>
    \<exists>e. capture_loop msg d w r
      = capture_loop msg d (w\<lparr>w_buf := w_buf w @ forest_bytes ts\<rparr>) (r\<lparr>r_src := rest, r_elem := e\<rparr>)"
proof (induction t and ts arbitrary: r rest d w and r rest d w rule: tlv_forest_induct)
  case (Leaf tag v)
  from Next_leaf_at [OF Leaf(1,2)] Leaf show ?case
    by (subst capture_loop.simps)
      (auto simp: Reader_Type_def TagValue_def Reader_Value_def reencodeScalar_value)
next
  case (Node tag k ts)
  have k: "is_container k" "wf_tag tag" "k \<in> {TypeStructure, TypeArray, TypeList}"
    using Node.prems(1) by (simp_all add: is_container_kinds)
  let ?r1 = "r\<lparr>r_src := forest_bytes ts @ TypeEndOfContainer # rest,
    r_containers := r_containers r @ [k], r_elem := \<lparr>e_Tag = tag, e_Type = k, e_Value = VNil\<rparr>\<rparr>"
  let ?w1 = "w\<lparr>w_containers := w_containers w @ [k], w_buf := w_buf w @ head_bytes tag k\<rparr>"
  let ?w2 = "?w1\<lparr>w_buf := w_buf ?w1 @ forest_bytes ts\<rparr>"
  have "capture_loop msg d w r = capture_loop msg (d + 1) ?w1 ?r1"
    using Next_node_at [OF Node.prems(1,2)] Node.prems(3) k container_not_end [OF k(1)]
    by (subst capture_loop.simps)
      (simp add: Reader_Type_def TagValue_def startContainer_emits [OF k(2,3)] emits_def)
  moreover obtain e where "capture_loop msg (d + 1) ?w1 ?r1
      = capture_loop msg (d + 1) ?w2 (?r1\<lparr>r_src := TypeEndOfContainer # rest, r_elem := e\<rparr>)"
    using Node.IH [of ?r1 "TypeEndOfContainer # rest" "d + 1" ?w1] Node.prems by (auto simp: at_def)
  moreover have "\<exists>e'. capture_loop msg (d + 1) ?w2 (?r1\<lparr>r_src := TypeEndOfContainer # rest, r_elem := e\<rparr>)
      = capture_loop msg d (w\<lparr>w_buf := w_buf w @ tlv_bytes (Node tag k ts)\<rparr>)
          (r\<lparr>r_src := rest, r_elem := e'\<rparr>)" for e
    using Next_close_at [of "?r1\<lparr>r_src := TypeEndOfContainer # rest, r_elem := e\<rparr>" rest "r_containers r" k]
      Node.prems(2,3)
    by (subst capture_loop.simps) (auto simp: Reader_Type_def at_def EndContainer_emits emits_def)
  ultimately show ?case by metis
next
  case Nil
  then show ?case by (intro exI [of _ "r_elem r"]) (auto simp: at_def)
next
  case (Cons t ts)
  from Cons.prems Cons.IH(1) [of r "forest_bytes ts @ rest" d w] obtain e where
    "capture_loop msg d w r = capture_loop msg d (w\<lparr>w_buf := w_buf w @ tlv_bytes t\<rparr>)
       (r\<lparr>r_src := forest_bytes ts @ rest, r_elem := e\<rparr>)" by auto
  moreover from Cons.prems Cons.IH(2) [of "r\<lparr>r_src := forest_bytes ts @ rest, r_elem := e\<rparr>" rest d
      "w\<lparr>w_buf := w_buf w @ tlv_bytes t\<rparr>"]
  obtain e' where "capture_loop msg d (w\<lparr>w_buf := w_buf w @ tlv_bytes t\<rparr>)
       (r\<lparr>r_src := forest_bytes ts @ rest, r_elem := e\<rparr>)
     = capture_loop msg d (w\<lparr>w_buf := w_buf w @ forest_bytes (t # ts)\<rparr>) (r\<lparr>r_src := rest, r_elem := e'\<rparr>)"
    by (auto simp: at_def)
  ultimately show ?case by auto
qed

fun root_tag :: "Tlv \<Rightarrow> Tag" where
  "root_tag (Leaf tag v) = tag"
| "root_tag (Node tag k ts) = tag"

lemma retag_root [simp]: "retag (root_tag t) t = t"
  by (cases t) simp_all

lemma reencode_tree:
  "wf_tlv t \<Longrightarrow> at r (tlv_bytes t @ rest) \<Longrightarrow> wf_tag tag' \<Longrightarrow>
    \<exists>r1 e. Next r = (Ok (), r1) \<and> Reader_Type r1 \<noteq> TypeEndOfContainer \<and> TagValue r1 = root_tag t \<and>
      reencodeElement w tag' r1 = (Ok (), w\<lparr>w_buf := w_buf w @ tlv_bytes (retag tag' t)\<rparr>,
        r\<lparr>r_src := rest, r_elem := e\<rparr>)"
  "wf_forest ts \<Longrightarrow> at r (forest_bytes ts @ TypeEndOfContainer # rest) \<Longrightarrow>
    r_containers r = ds @ [k] \<Longrightarrow> w_containers w = cs @ [k'] \<Longrightarrow>
    \<exists>e. reencodeContainerBody w r =
      (Ok (), w\<lparr>w_containers := cs, w_buf := w_buf w @ forest_bytes ts @ [TypeEndOfContainer]\<rparr>,
       r\<lparr>r_src := rest, r_containers := ds, r_elem := e\<rparr>)"
proof (induction t and ts arbitrary: r rest w tag' and r rest w ds k cs k' rule: tlv_forest_induct)
  case (Leaf tag v)
  from Next_leaf_at [OF Leaf(1,2)] Leaf(3) show ?case
    by (simp add: reencodeElement.simps Reader_Type_def TagValue_def Reader_Value_def reencodeScalar_value)
      (auto intro: exI)
next
  case (Node tag k ts)
  have k: "is_container k" "k \<in> {TypeStructure, TypeArray, TypeList}"
    using Node.prems(1) by (simp_all add: is_container_kinds)
  let ?r1 = "r\<lparr>r_src := forest_bytes ts @ TypeEndOfContainer # rest,
    r_containers := r_containers r @ [k], r_elem := \<lparr>e_Tag = tag, e_Type = k, e_Value = VNil\<rparr>\<rparr>"
  let ?w1 = "w\<lparr>w_containers := w_containers w @ [k], w_buf := w_buf w @ head_bytes tag' k\<rparr>"
  obtain e where "reencodeContainerBody ?w1 ?r1 =
      (Ok (), ?w1\<lparr>w_containers := w_containers w, w_buf := w_buf ?w1 @ forest_bytes ts @ [TypeEndOfContainer]\<rparr>,
       ?r1\<lparr>r_src := rest, r_containers := r_containers r, r_elem := e\<rparr>)"
    using Node.IH [of ?r1 rest "r_containers r" k ?w1 "w_containers w" k] Node.prems by (auto simp: at_def)
  then have "reencodeElement w tag' ?r1 = (Ok (), w\<lparr>w_buf := w_buf w @ tlv_bytes (retag tag' (Node tag k ts))\<rparr>,
      r\<lparr>r_src := rest, r_elem := e\<rparr>)"
    using k startContainer_emits [OF Node.prems(3) k(2), of w]
    by (simp add: reencodeElement.simps Reader_Type_def emits_def)
  moreover have "Reader_Type ?r1 \<noteq> TypeEndOfContainer" "TagValue ?r1 = tag"
    using container_not_end [OF k(1)] by (simp_all add: Reader_Type_def TagValue_def)
  ultimately show ?case using Next_node_at [OF Node.prems(1,2)] by fastforce
next
  case Nil
  from Next_close_at [of r rest ds k] Nil show ?case
    by (simp add: reencodeContainerBody.simps Reader_Type_def EndContainer_emits to_res_def emits_def)
      (auto intro: exI)
next
  case (Cons t ts)
  have wf: "wf_tag (root_tag t)" using Cons.prems(1) by (cases t) auto
  from Cons.IH(1) [of r "forest_bytes ts @ TypeEndOfContainer # rest" "root_tag t" w] Cons.prems wf
  obtain r1 e where n: "Next r = (Ok (), r1)" "Reader_Type r1 \<noteq> TypeEndOfContainer"
    "TagValue r1 = root_tag t"
    "reencodeElement w (root_tag t) r1 = (Ok (), w\<lparr>w_buf := w_buf w @ tlv_bytes t\<rparr>,
        r\<lparr>r_src := forest_bytes ts @ TypeEndOfContainer # rest, r_elem := e\<rparr>)"
    by auto
  from Cons.IH(2) [of "r\<lparr>r_src := forest_bytes ts @ TypeEndOfContainer # rest, r_elem := e\<rparr>" rest ds k
      "w\<lparr>w_buf := w_buf w @ tlv_bytes t\<rparr>" cs k'] Cons.prems n
  show ?case by (auto simp: reencodeContainerBody.simps [of w r] at_def)
qed

subsection \<open>Encodings are prefix free\<close>

lemma forest_bytes_end_cases:
  assumes "wf_tlv t" and "tlv_bytes t @ rest = TypeEndOfContainer # rest'"
  shows False
proof -
  let ?r = "(NewReader (tlv_bytes t @ rest))\<lparr>r_containers := [TypeStructure]\<rparr>"
  have "at ?r (TypeEndOfContainer # rest')" "at ?r (tlv_bytes t @ rest)"
    using assms(2) by (simp_all add: at_def NewReader_def)
  with reencode_tree(1) [OF assms(1), of ?r rest AnonymousTag] Next_close_at [of ?r rest' "[]" TypeStructure]
  show False by (auto simp: Reader_Type_def)
qed

lemma reader_update_eq:
  "r\<lparr>r_src := a, r_elem := e\<rparr> = r\<lparr>r_src := b, r_elem := e'\<rparr> \<longleftrightarrow> a = b \<and> e = e'"
  "r\<lparr>r_src := a, r_containers := c, r_elem := e\<rparr> = r\<lparr>r_src := b, r_containers := d, r_elem := e'\<rparr>
     \<longleftrightarrow> a = b \<and> c = d \<and> e = e'"
  "r\<lparr>r_src := a, r_elem := e\<rparr> = r\<lparr>r_src := b, r_containers := d, r_elem := e'\<rparr>
     \<longleftrightarrow> a = b \<and> r_containers r = d \<and> e = e'"
  "r\<lparr>r_src := b, r_containers := d, r_elem := e'\<rparr> = r\<lparr>r_src := a, r_elem := e\<rparr>
     \<longleftrightarrow> a = b \<and> r_containers r = d \<and> e = e'"
  by (cases r; auto)+

lemma tlv_prefix_free:
  "wf_tlv t \<Longrightarrow> wf_tlv t' \<Longrightarrow> tlv_bytes t @ rest = tlv_bytes t' @ rest' \<Longrightarrow> t = t' \<and> rest = rest'"
  "wf_forest ts \<Longrightarrow> wf_forest ts' \<Longrightarrow>
    forest_bytes ts @ TypeEndOfContainer # rest = forest_bytes ts' @ TypeEndOfContainer # rest' \<Longrightarrow>
    ts = ts' \<and> rest = rest'"
proof (induction t and ts arbitrary: t' rest rest' and ts' rest rest' rule: tlv_forest_induct)
  case (Leaf tag v)
  let ?r = "NewReader (tlv_bytes (Leaf tag v) @ rest)"
  note n = Next_leaf_at [OF Leaf(1), of ?r rest]
  show ?case
  proof (cases t')
    case (Leaf tag' v')
    with n Leaf.prems Next_leaf_at [of tag' v' ?r rest'] show ?thesis
      by (simp add: reader_update_eq)
  next
    case (Node tag' k us)
    with n Leaf.prems Next_node_at [of tag' k us ?r rest'] show ?thesis
      by (simp add: reader_update_eq)
  qed
next
  case (Node tag k ts)
  let ?r = "NewReader (tlv_bytes (Node tag k ts) @ rest)"
  note n = Next_node_at [OF Node.prems(1), of ?r rest]
  show ?case
  proof (cases t')
    case (Leaf tag' v')
    with n Node.prems Next_leaf_at [of tag' v' ?r rest'] show ?thesis
      by (simp add: reader_update_eq)
  next
    case (Node tag' k' us)
    with n Node.prems Next_node_at [of tag' k' us ?r rest']
    have "tag' = tag" "k' = k"
      "forest_bytes us @ TypeEndOfContainer # rest' = forest_bytes ts @ TypeEndOfContainer # rest"
      by (simp_all add: reader_update_eq)
    with Node Node.IH [of us rest rest'] Node.prems show ?thesis by simp
  qed
next
  case Nil
  then show ?case
    using forest_bytes_end_cases [of "hd ts'" "forest_bytes (tl ts') @ TypeEndOfContainer # rest'" rest]
    by (cases ts') auto
next
  case (Cons t ts)
  show ?case
  proof (cases ts')
    case Nil
    with Cons.prems forest_bytes_end_cases [of t "forest_bytes ts @ TypeEndOfContainer # rest" rest']
    show ?thesis by simp
  next
    case (Cons u us)
    with Cons.prems Cons.IH(1) [of u "forest_bytes ts @ TypeEndOfContainer # rest"
        "forest_bytes us @ TypeEndOfContainer # rest'"]
    have "t = u" "forest_bytes ts @ TypeEndOfContainer # rest = forest_bytes us @ TypeEndOfContainer # rest'"
      by simp_all
    with Cons Cons.prems Cons.IH(2) [of us rest rest'] show ?thesis by simp
  qed
qed

subsection \<open>What is captured is always canonical\<close>

text \<open>
  A reader just after a successful \<^verbatim>\<open>Next\<close>: its tag is well formed and, for a scalar, the dynamic
  type of its value is the one its element type announces, so the type assertions of
  \<^verbatim>\<open>reencodeScalar\<close> cannot panic.
\<close>

definition kind_ok :: "ElementType \<Rightarrow> Value \<Rightarrow> bool" where
  "kind_ok t v =
     (case v of
        VInt64 x \<Rightarrow> t \<in> {TypeSignedInt8, TypeSignedInt16, TypeSignedInt32, TypeSignedInt64}
      | VUint64 x \<Rightarrow> t \<in> {TypeUnsignedInt8, TypeUnsignedInt16, TypeUnsignedInt32, TypeUnsignedInt64}
      | VBool x \<Rightarrow> t \<in> {TypeBoolFalse, TypeBoolTrue}
      | VFloat32 x \<Rightarrow> t = TypeFloat32
      | VFloat64 x \<Rightarrow> t = TypeFloat64
      | VString x \<Rightarrow> t \<in> {TypeUTF8String1, TypeUTF8String2, TypeUTF8String4, TypeUTF8String8}
      | VBytes x \<Rightarrow> t \<in> {TypeOctetString1, TypeOctetString2, TypeOctetString4, TypeOctetString8}
      | VNil \<Rightarrow> t = TypeNull)"

lemma readString_ok:
  "readUTF8String s n = (Ok x, s') \<Longrightarrow> length x \<le> max_alloc"
  "readOctetString s n = (Ok x, s') \<Longrightarrow> length x \<le> max_alloc"
  by (auto simp: readUTF8String_def readOctetString_def bind_st_Ok_iff wrap_st_Ok_iff make_panics_def
      dest!: ReadFull_Ok split: if_splits)

lemma readValue_ok:
  assumes "readValue s t = (Ok v, s')"
  shows "value_ok v \<and> kind_ok t v"
proof -
  show ?thesis
    using assms readString_ok
    by (auto simp: readValue_def map_st_Ok_iff value_ok_def kind_ok_def split: if_splits)
qed

definition fresh_scalar :: "Reader \<Rightarrow> bool" where
  "fresh_scalar r \<longleftrightarrow> wf_tag (TagValue r) \<and>
     (\<not> is_container (Reader_Type r) \<longrightarrow> Reader_Type r \<noteq> TypeEndOfContainer \<longrightarrow>
        value_ok (Reader_Value r) \<and> kind_ok (Reader_Type r) (Reader_Value r))"

lemma Next_fresh:
  assumes "Next r = (Ok (), r')"
  shows "fresh_scalar r'"
proof -
  have "r_src r \<noteq> [] \<and> \<not> r_done r"
    using assms by (auto simp: Next_def ReadFull_def split: if_splits)
  then obtain b s where src: "r_src r = b # s" and d: "\<not> r_done r" by (cases "r_src r") auto
  obtain tag s1 where tag: "decodeTag s (b AND tagTypeMask) = (Ok tag, s1)"
    using assms src d by (auto simp: Next_def bind_st_Ok_iff wrap_st_Ok_iff Let_def)
  from decodeTag_sound [OF this] have "wf_tag tag" by simp
  with assms src d tag show ?thesis
    by (auto simp: Next_def fresh_scalar_def TagValue_def Reader_Type_def Reader_Value_def
        bind_st_Ok_iff wrap_st_Ok_iff Let_def dest!: readValue_ok split: if_splits)
qed

lemma reencodeScalar_kind:
  assumes "wf_tag tag" and "kind_ok (Reader_Type r) (Reader_Value r)"
  shows "reencodeScalar w tag r = (Ok (), w\<lparr>w_buf := w_buf w @ elem_bytes tag (Reader_Value r)\<rparr>)"
proof -
  have t: "t_Type tag \<in> set tag_types" using assms(1) by (simp add: wf_tag_def)
  have "reencodeScalar w tag r = to_res (put_value w tag (Reader_Value r))"
    using assms(2)
    by (cases "Reader_Value r") (auto simp: reencodeScalar_def kind_ok_def Let_def const_defs)
  then show ?thesis by (simp add: put_value_emits [OF t] to_res_def emits_def)
qed

end
