(* ===== verification/Tlv_Canonical.thy ===== *)
theory Tlv_Canonical
  imports Tlv_Capture
begin

text \<open>
  The theorems about the TLV package as a whole: what is written is read back element by element,
  an encoded element is skipped, re-encoded and captured exactly, captured bytes are canonical
  whatever the input was, and the length field that makes the reader panic.
\<close>

subsection \<open>The capture loop as a zipper\<close>

text \<open>
  The writer's buffer in the middle of \<^verbatim>\<open>captureElement\<close>: the elements of the innermost open
  container and, outwards, the elements before each open container with its tag and kind.
\<close>

type_synonym context_frame = "Tlv list \<times> Tag \<times> ElementType"

fun zipper_bytes :: "Tlv list \<Rightarrow> context_frame list \<Rightarrow> byte list" where
  "zipper_bytes ts [] = forest_bytes ts"
| "zipper_bytes ts ((us, tag, k) # hs) = zipper_bytes us hs @ head_bytes tag k @ forest_bytes ts"

lemma zipper_bytes_append: "zipper_bytes (ts @ us) hs = zipper_bytes ts hs @ forest_bytes us"
  by (cases hs rule: list.exhaust [case_product prod.exhaust]) auto

definition zipper_ok :: "Tlv list \<Rightarrow> context_frame list \<Rightarrow> bool" where
  "zipper_ok ts hs \<longleftrightarrow> wf_forest ts \<and> (\<forall>(us, tag, k) \<in> set hs. wf_forest us \<and> wf_tag tag \<and> is_container k)"

definition zipper_writer :: "byte list \<Rightarrow> ElementType list \<Rightarrow> Tlv list \<Rightarrow> context_frame list \<Rightarrow> Writer \<Rightarrow> bool" where
  "zipper_writer pre base ts hs w \<longleftrightarrow>
     w_buf w = pre @ zipper_bytes ts hs \<and> w_containers w = base @ rev (map (snd \<circ> snd) hs)"

lemma zipper_leaf:
  assumes "zipper_writer pre base ts hs w" and "zipper_ok ts hs" and "wf_tlv (Leaf tag v)"
  shows "zipper_writer pre base (ts @ [Leaf tag v]) hs (w\<lparr>w_buf := w_buf w @ elem_bytes tag v\<rparr>)"
    and "zipper_ok (ts @ [Leaf tag v]) hs"
  using assms by (auto simp: zipper_writer_def zipper_ok_def zipper_bytes_append)

lemma zipper_open:
  assumes "zipper_writer pre base ts hs w" and "zipper_ok ts hs" and "wf_tag tag" and "is_container k"
  shows "zipper_writer pre base [] ((ts, tag, k) # hs) (fst (startContainer w k tag))"
    and "zipper_ok [] ((ts, tag, k) # hs)"
proof -
  have "k \<in> {TypeStructure, TypeArray, TypeList}" using assms(4) by (simp add: is_container_kinds)
  from startContainer_emits [OF assms(3) this] assms
  show "zipper_writer pre base [] ((ts, tag, k) # hs) (fst (startContainer w k tag))"
    by (simp add: zipper_writer_def emits_def)
  show "zipper_ok [] ((ts, tag, k) # hs)" using assms by (auto simp: zipper_ok_def)
qed

lemma butlast_append_snoc [simp]: "butlast (xs @ ys @ [z]) = xs @ ys"
  by (simp add: butlast_append)

lemma zipper_close:
  assumes "zipper_writer pre base ts ((us, tag, k) # hs) w" and "zipper_ok ts ((us, tag, k) # hs)"
  shows "zipper_writer pre base (us @ [Node tag k ts]) hs (fst (EndContainer w))"
    and "zipper_ok (us @ [Node tag k ts]) hs"
  using assms
  by (auto simp: zipper_writer_def zipper_ok_def EndContainer_emits emits_def zipper_bytes_append
      is_container_kinds)

lemma capture_loop_step:
  assumes "depth \<noteq> 0" and "Next r = (Ok (), r1)"
  shows "capture_loop msg depth w r =
    (if Reader_Type r1 = TypeEndOfContainer then
       capture_loop msg (depth - 1) (if depth - 1 > 0 then fst (EndContainer w) else w) r1
     else if is_container (Reader_Type r1) then
       capture_loop msg (depth + 1) (fst (startContainer w (Reader_Type r1) (TagValue r1))) r1
     else
       (case reencodeScalar w (TagValue r1) r1 of
          (Ok _, w') \<Rightarrow> capture_loop msg depth w' r1
        | (Err e, w') \<Rightarrow> (Err e, w', r1)
        | (Panic, w') \<Rightarrow> (Panic, w', r1)))"
  using assms by (subst capture_loop.simps) simp

lemma capture_loop_zipper:
  assumes "capture_loop msg depth w r = (Ok u, w', r')"
    and "zipper_writer pre base ts hs w" and "zipper_ok ts hs"
    and "depth = Suc (length hs) \<or> depth = 0 \<and> hs = []"
  shows "\<exists>ts'. wf_forest ts' \<and> zipper_writer pre base ts' [] w'"
  using assms
proof (induction msg depth w r arbitrary: ts hs rule: capture_loop.induct)
  case (1 msg depth w r)
  show ?case
  proof (cases "depth = 0")
    case True
    with "1.prems" show ?thesis by (subst (asm) capture_loop.simps) (auto simp: zipper_ok_def)
  next
    case False
    with "1.prems"(4) have d: "depth = Suc (length hs)" by simp
    obtain r1 where n: "Next r = (Ok (), r1)"
      using "1.prems"(1) False
      by (subst (asm) capture_loop.simps) (auto split: prod.splits res.splits simp: wrap_st_Ok_iff)
    then have n': "(Ok (), r1) = wrap_st msg (Next r)" by simp
    note step = "1.prems"(1) [unfolded capture_loop_step [OF False n]]
    have fr: "fresh_scalar r1" by (rule Next_fresh [OF n])
    then have tag: "wf_tag (TagValue r1)" by (simp add: fresh_scalar_def)
    consider "Reader_Type r1 = TypeEndOfContainer" "hs = []"
      | f hs' where "Reader_Type r1 = TypeEndOfContainer" "hs = f # hs'"
      | "Reader_Type r1 \<noteq> TypeEndOfContainer" "is_container (Reader_Type r1)"
      | "Reader_Type r1 \<noteq> TypeEndOfContainer" "\<not> is_container (Reader_Type r1)"
      by (cases hs) blast+
    then show ?thesis
    proof cases
      case 1
      with step d "1.IH"(1) [OF False n' refl 1(1), of ts hs] "1.prems"(2,3) show ?thesis by simp
    next
      case 2
      obtain us tag k where f: "f = (us, tag, k)" by (cases f)
      from zipper_close [of pre base ts us tag k hs' w] "1.prems"(2,3) 2 f step d
        "1.IH"(1) [OF False n' refl 2(1), of "us @ [Node tag k ts]" hs']
      show ?thesis by simp
    next
      case 3
      from zipper_open [OF "1.prems"(2,3) tag 3(2)] 3 step d
        "1.IH"(2) [OF False n' refl 3, of "[]" "(ts, TagValue r1, Reader_Type r1) # hs"]
      show ?thesis by simp
    next
      case 4
      with fr have k: "kind_ok (Reader_Type r1) (Reader_Value r1)"
        and wf: "wf_tlv (Leaf (TagValue r1) (Reader_Value r1))"
        by (auto simp: fresh_scalar_def)
      note sc = reencodeScalar_kind [OF tag k, of w]
      from zipper_leaf [OF "1.prems"(2,3) wf] 4 step d sc
        "1.IH"(3) [OF False n' refl 4 sc [symmetric] refl, of "ts @ [Leaf (TagValue r1) (Reader_Value r1)]" hs]
      show ?thesis by simp
    qed
  qed
qed

subsection \<open>Reading a stream of elements\<close>

text \<open>The elements \<^verbatim>\<open>Next\<close> delivers in \<open>n\<close> calls.\<close>

primrec read_elems :: "nat \<Rightarrow> Reader \<Rightarrow> Element list res \<times> Reader" where
  "read_elems 0 r = (Ok [], r)"
| "read_elems (Suc n) r =
     bind_st (Next r) (\<lambda>_ r. map_st ((#) (r_elem r)) (read_elems n r)) id"

fun tlv_elems :: "Tlv \<Rightarrow> Element list" where
  "tlv_elems (Leaf tag v) = [\<lparr>e_Tag = tag, e_Type = value_type v, e_Value = v\<rparr>]"
| "tlv_elems (Node tag k ts) =
     \<lparr>e_Tag = tag, e_Type = k, e_Value = VNil\<rparr> # concat (map tlv_elems ts) @
     [\<lparr>e_Tag = AnonymousTag, e_Type = TypeEndOfContainer, e_Value = VNil\<rparr>]"

abbreviation forest_elems :: "Tlv list \<Rightarrow> Element list" where
  "forest_elems ts \<equiv> concat (map tlv_elems ts)"

lemma read_elems_append:
  "read_elems m r = (Ok xs, r') \<Longrightarrow> read_elems n r' = (Ok ys, r'') \<Longrightarrow>
    read_elems (m + n) r = (Ok (xs @ ys), r'')"
proof (induction m arbitrary: r xs)
  case (Suc m)
  then obtain r1 zs where "Next r = (Ok (), r1)" "read_elems m r1 = (Ok zs, r')" "xs = r_elem r1 # zs"
    by (auto simp: bind_st_Ok_iff map_st_Ok_iff)
  with Suc.IH Suc.prems(2) show ?case by simp
qed simp

lemma read_elems_1: "Next r = (Ok (), r') \<Longrightarrow> read_elems 1 r = (Ok [r_elem r'], r')"
  by simp

lemma read_elems_tree:
  "wf_tlv t \<Longrightarrow> at r (tlv_bytes t @ rest) \<Longrightarrow>
    \<exists>e. read_elems (length (tlv_elems t)) r = (Ok (tlv_elems t), r\<lparr>r_src := rest, r_elem := e\<rparr>)"
  "wf_forest ts \<Longrightarrow> at r (forest_bytes ts @ rest) \<Longrightarrow>
    \<exists>e. read_elems (length (forest_elems ts)) r = (Ok (forest_elems ts), r\<lparr>r_src := rest, r_elem := e\<rparr>)"
proof (induction t and ts arbitrary: r rest and r rest rule: tlv_forest_induct)
  case (Leaf tag v)
  from Next_leaf_at [OF Leaf] show ?case by auto
next
  case (Node tag k ts)
  let ?r1 = "r\<lparr>r_src := forest_bytes ts @ TypeEndOfContainer # rest,
    r_containers := r_containers r @ [k], r_elem := \<lparr>e_Tag = tag, e_Type = k, e_Value = VNil\<rparr>\<rparr>"
  obtain e where f: "read_elems (length (forest_elems ts)) ?r1
      = (Ok (forest_elems ts), ?r1\<lparr>r_src := TypeEndOfContainer # rest, r_elem := e\<rparr>)"
    using Node.IH [of ?r1 "TypeEndOfContainer # rest"] Node.prems by (auto simp: at_def)
  let ?r2 = "?r1\<lparr>r_src := TypeEndOfContainer # rest, r_elem := e\<rparr>"
  have "Next ?r2 = (Ok (), r\<lparr>r_src := rest,
      r_elem := \<lparr>e_Tag = AnonymousTag, e_Type = TypeEndOfContainer, e_Value = VNil\<rparr>\<rparr>)"
    using Next_close_at [of ?r2 rest "r_containers r" k] Node.prems by (simp add: at_def)
  from read_elems_append [OF read_elems_1 [OF Next_node_at [OF Node.prems]]
      read_elems_append [OF f read_elems_1 [OF this]]]
  show ?case by auto
next
  case Nil
  then show ?case by (intro exI [of _ "r_elem r"]) (auto simp: at_def)
next
  case (Cons t ts)
  obtain e where t: "read_elems (length (tlv_elems t)) r
      = (Ok (tlv_elems t), r\<lparr>r_src := forest_bytes ts @ rest, r_elem := e\<rparr>)"
    using Cons.IH(1) [of r "forest_bytes ts @ rest"] Cons.prems by auto
  obtain e' where "read_elems (length (forest_elems ts)) (r\<lparr>r_src := forest_bytes ts @ rest, r_elem := e\<rparr>)
      = (Ok (forest_elems ts), r\<lparr>r_src := rest, r_elem := e'\<rparr>)"
    using Cons.IH(2) [of "r\<lparr>r_src := forest_bytes ts @ rest, r_elem := e\<rparr>" rest] Cons.prems
    by (auto simp: at_def)
  from read_elems_append [OF t this] show ?case by auto
qed

subsection \<open>Capturing and skipping from inside the element\<close>

lemma node_closes:
  assumes "r_containers r = cs @ [k]" and "at r (TypeEndOfContainer # rest)"
  shows "\<exists>e. capture_loop msg 1 w r = (Ok (), w, r\<lparr>r_src := rest, r_containers := cs, r_elem := e\<rparr>)"
    and "\<exists>e. skip_loop 1 r = (Ok (), r\<lparr>r_src := rest, r_containers := cs, r_elem := e\<rparr>)"
  using Next_close_at [OF assms(2,1)]
  by (subst capture_loop.simps skip_loop.simps,
      simp add: Reader_Type_def capture_loop.simps [of msg 0] skip_loop.simps [of 0], blast)+

lemma node_forest:
  assumes "wf_tlv (Node tag k ts)" and "at r (tlv_bytes (Node tag k ts) @ rest)"
    and "Next r = (Ok (), r1)"
  shows "Reader_Type r1 = k"
    and "\<exists>e. capture_loop msg 1 w r1
      = (Ok (), w\<lparr>w_buf := w_buf w @ forest_bytes ts\<rparr>, r\<lparr>r_src := rest, r_elem := e\<rparr>)"
    and "\<exists>e. skip_loop 1 r1 = (Ok (), r\<lparr>r_src := rest, r_elem := e\<rparr>)"
proof -
  let ?r1 = "r\<lparr>r_src := forest_bytes ts @ TypeEndOfContainer # rest,
    r_containers := r_containers r @ [k], r_elem := \<lparr>e_Tag = tag, e_Type = k, e_Value = VNil\<rparr>\<rparr>"
  have r1: "r1 = ?r1" using Next_node_at [OF assms(1,2)] assms(3) by simp
  then show "Reader_Type r1 = k" by (simp add: Reader_Type_def)
  have f: "wf_forest ts" "at ?r1 (forest_bytes ts @ TypeEndOfContainer # rest)"
    using assms(1,2) by (simp_all add: at_def)
  obtain e where e: "capture_loop msg 1 w ?r1 = capture_loop msg 1 (w\<lparr>w_buf := w_buf w @ forest_bytes ts\<rparr>)
      (?r1\<lparr>r_src := TypeEndOfContainer # rest, r_elem := e\<rparr>)"
    using capture_loop_tree(2) [OF f, of 1 msg w] by auto
  obtain e' where e': "skip_loop 1 ?r1 = skip_loop 1 (?r1\<lparr>r_src := TypeEndOfContainer # rest, r_elem := e'\<rparr>)"
    using skip_loop_tree(2) [OF f, of 1] by auto
  show "\<exists>e. capture_loop msg 1 w r1
      = (Ok (), w\<lparr>w_buf := w_buf w @ forest_bytes ts\<rparr>, r\<lparr>r_src := rest, r_elem := e\<rparr>)"
    using node_closes(1) [of "?r1\<lparr>r_src := TypeEndOfContainer # rest, r_elem := e\<rparr>" "r_containers r" k rest msg
        "w\<lparr>w_buf := w_buf w @ forest_bytes ts\<rparr>"] assms(2) e r1
    by (auto simp: at_def)
  show "\<exists>e. skip_loop 1 r1 = (Ok (), r\<lparr>r_src := rest, r_elem := e\<rparr>)"
    using node_closes(2) [of "?r1\<lparr>r_src := TypeEndOfContainer # rest, r_elem := e'\<rparr>" "r_containers r" k rest]
      assms(2) e' r1
    by (auto simp: at_def)
qed

lemma captureElement_tree:
  assumes "wf_tlv t" and "at r (tlv_bytes t @ rest)" and "Next r = (Ok (), r1)"
  shows "\<exists>e. captureElement r1
    = (Ok (tlv_bytes (retag AnonymousTag t)), r\<lparr>r_src := rest, r_elem := e\<rparr>)"
proof (cases t)
  case (Leaf tag v)
  with assms Next_leaf_at [of tag v r rest] show ?thesis
    by (auto simp: captureElement_def Reader_Type_def Reader_Value_def reencodeScalar_value NewWriter_def
        Bytes_def)
next
  case (Node tag k ts)
  have k: "k \<in> {TypeStructure, TypeArray, TypeList}" using assms(1) Node by simp
  let ?w = "NewWriter\<lparr>w_containers := [k], w_buf := head_bytes AnonymousTag k\<rparr>"
  have w: "fst (startContainer NewWriter k AnonymousTag) = ?w"
    using startContainer_emits [OF wf_tag_AnonymousTag k, of NewWriter] by (simp add: emits_def NewWriter_def)
  show ?thesis
    using node_forest(1) [of tag k ts r rest r1] assms Node k
      node_forest(2) [of tag k ts r rest r1 "''capturing container element''" ?w]
    by (auto simp: captureElement_def is_container_kinds w Bytes_def EndContainer_emits emits_def)
qed

lemma skipElement_tree:
  assumes "wf_tlv t" and "at r (tlv_bytes t @ rest)" and "Next r = (Ok (), r1)"
  shows "\<exists>e. skipElement r1 = (Ok (), r\<lparr>r_src := rest, r_elem := e\<rparr>)"
proof (cases t)
  case (Leaf tag v)
  with assms Next_leaf_at [of tag v r rest] show ?thesis
    by (auto simp: skipElement_def Reader_Type_def)
next
  case (Node tag k ts)
  with assms node_forest(1,3) [of tag k ts r rest r1] show ?thesis
    by (auto simp: skipElement_def is_container_kinds)
qed

subsection \<open>Captured bytes are canonical\<close>

lemma captureElement_canonical:
  assumes n: "Next r0 = (Ok (), r)" and c: "captureElement r = (Ok raw, r')"
  shows "\<exists>t. wf_tlv t \<and> root_tag t = AnonymousTag \<and> raw = tlv_bytes t"
proof -
  have fr: "fresh_scalar r" by (rule Next_fresh [OF n])
  show "\<exists>t. wf_tlv t \<and> root_tag t = AnonymousTag \<and> raw = tlv_bytes t"
  proof (cases "is_container (Reader_Type r)")
    case True
    let ?k = "Reader_Type r"
    have k: "?k \<in> {TypeStructure, TypeArray, TypeList}" using True by (simp add: is_container_kinds)
    let ?w = "fst (startContainer NewWriter ?k AnonymousTag)"
    from c True obtain w' where l: "capture_loop ''capturing container element'' 1 ?w r = (Ok (), w', r')"
      and raw: "raw = Bytes (fst (EndContainer w'))"
      by (auto simp: captureElement_def split: prod.splits res.splits)
    have "zipper_writer (head_bytes AnonymousTag ?k) [?k] [] [] ?w"
      using startContainer_emits [OF wf_tag_AnonymousTag k, of NewWriter]
      by (simp add: zipper_writer_def emits_def NewWriter_def)
    from capture_loop_zipper [OF l this] obtain ts where "wf_forest ts"
      and "zipper_writer (head_bytes AnonymousTag ?k) [?k] ts [] w'"
      by (auto simp: zipper_ok_def)
    then have "raw = tlv_bytes (Node AnonymousTag ?k ts)" "wf_tlv (Node AnonymousTag ?k ts)"
      using raw k by (simp_all add: zipper_writer_def EndContainer_emits emits_def Bytes_def)
    then show ?thesis by (intro exI [of _ "Node AnonymousTag ?k ts"]) simp
  next
    case False
    show ?thesis
    proof (cases "Reader_Type r = TypeEndOfContainer")
      case True
      with c show ?thesis by (auto simp: captureElement_def reencodeScalar_def const_defs is_container_def)
    next
      case ne: False
      with fr False have "kind_ok (Reader_Type r) (Reader_Value r)" "value_ok (Reader_Value r)"
        by (simp_all add: fresh_scalar_def)
      with reencodeScalar_kind [OF wf_tag_AnonymousTag this(1), of NewWriter] False c
      show ?thesis
        by (intro exI [of _ "Leaf AnonymousTag (Reader_Value r)"])
          (auto simp: captureElement_def Bytes_def NewWriter_def)
    qed
  qed
qed

lemma captureStructBody_canonical:
  assumes "captureStructBody r = (Ok raw, r')"
  shows "\<exists>ts. wf_forest ts \<and> raw = forest_bytes ts"
proof -
  from assms obtain w' where l: "capture_loop ''reading rawstruct body'' 1 NewWriter r = (Ok (), w', r')"
    and raw: "raw = Bytes w'"
    by (auto simp: captureStructBody_def split: prod.splits res.splits)
  have "zipper_writer [] [] [] [] NewWriter" by (simp add: zipper_writer_def NewWriter_def)
  from capture_loop_zipper [OF l this] raw show "\<exists>ts. wf_forest ts \<and> raw = forest_bytes ts"
    by (auto simp: zipper_ok_def zipper_writer_def Bytes_def)
qed

subsection \<open>Properties\<close>

text \<open>A small tree that the witnesses use: a structure with an integer, a string and an empty list.\<close>

definition sample_tree :: Tlv where
  "sample_tree = Node AnonymousTag TypeStructure
     [Leaf (ContextTag 1) (VInt64 (-5)), Leaf (ContextTag 2) (VString [104, 105]),
      Node (ContextTag 3) TypeList []]"

lemma wf_sample_tree: "wf_tlv sample_tree"
  by (simp add: sample_tree_def value_ok_def max_alloc_def)

text \<open>
  C1 Round trip: for any forest of well-formed elements, the writer's calls succeed and leave no
  container open, and \<^verbatim>\<open>Next\<close> on the bytes, followed by anything, delivers exactly these elements,
  in order, with their tags, types and values, and stops right before what follows.
\<close>

theorem tlv_stream_roundtrip:
  assumes "wf_forest ts"
  shows "\<exists>w r. put_tlvs NewWriter ts = (w, None) \<and> w_containers w = [] \<and>
     read_elems (length (forest_elems ts)) (NewReader (Bytes w @ rest)) = (Ok (forest_elems ts), r) \<and>
     r_src r = rest \<and> r_containers r = []"
proof -
  let ?w = "NewWriter\<lparr>w_buf := forest_bytes ts\<rparr>"
  have w: "put_tlvs NewWriter ts = (?w, None)"
    by (simp add: put_tlv_emits(2) [OF assms] emits_def) (simp add: NewWriter_def)
  obtain e where "read_elems (length (forest_elems ts)) (NewReader (forest_bytes ts @ rest))
      = (Ok (forest_elems ts), (NewReader (forest_bytes ts @ rest))\<lparr>r_src := rest, r_elem := e\<rparr>)"
    using read_elems_tree(2) [OF assms, of "NewReader (forest_bytes ts @ rest)" rest] by auto
  then show ?thesis using w by (auto simp: Bytes_def NewWriter_def NewReader_def)
qed

theorem tlv_stream_roundtrip_witness:
  "\<exists>w r. put_tlvs NewWriter [sample_tree] = (w, None) \<and> w_containers w = [] \<and>
     read_elems (length (forest_elems [sample_tree])) (NewReader (Bytes w @ [1]))
       = (Ok (forest_elems [sample_tree]), r) \<and>
     r_src r = [1] \<and> r_containers r = []"
  using tlv_stream_roundtrip [of "[sample_tree]" "[1]"] wf_sample_tree by simp

text \<open>
  C2 Capturing: after \<^verbatim>\<open>Next\<close> has opened an encoded element, \<^verbatim>\<open>captureElement\<close> returns the encoding
  of that element with its tag replaced by the anonymous one, \<^verbatim>\<open>skipElement\<close> passes over it, and
  \<^verbatim>\<open>reencodeElement\<close> appends it with the new tag to the writer; each stops right before what follows
  the element and leaves the container depth unchanged.
\<close>

theorem element_operations_exact:
  assumes "wf_tlv t" and "wf_tag tag" and "at r (tlv_bytes t @ rest)"
  shows "\<exists>r1 r2 r3 r4. Next r = (Ok (), r1) \<and>
     captureElement r1 = (Ok (tlv_bytes (retag AnonymousTag t)), r2) \<and>
     skipElement r1 = (Ok (), r3) \<and>
     reencodeElement w tag r1 = (Ok (), w\<lparr>w_buf := w_buf w @ tlv_bytes (retag tag t)\<rparr>, r4) \<and>
     (\<forall>r' \<in> {r2, r3, r4}. r_src r' = rest \<and> r_containers r' = r_containers r)"
proof -
  from reencode_tree(1) [OF assms(1,3,2), of w] obtain r1 e where n: "Next r = (Ok (), r1)"
    and re: "reencodeElement w tag r1 = (Ok (), w\<lparr>w_buf := w_buf w @ tlv_bytes (retag tag t)\<rparr>,
        r\<lparr>r_src := rest, r_elem := e\<rparr>)" by auto
  from captureElement_tree [OF assms(1,3) n] skipElement_tree [OF assms(1,3) n] n re
  show ?thesis by auto
qed

theorem element_operations_exact_witness:
  "\<exists>r1 r2 r3 r4. Next (NewReader (tlv_bytes sample_tree @ [1])) = (Ok (), r1) \<and>
     captureElement r1 = (Ok (tlv_bytes (retag AnonymousTag sample_tree)), r2) \<and>
     skipElement r1 = (Ok (), r3) \<and>
     reencodeElement NewWriter (ContextTag 7) r1
       = (Ok (), NewWriter\<lparr>w_buf := w_buf NewWriter @ tlv_bytes (retag (ContextTag 7) sample_tree)\<rparr>, r4) \<and>
     (\<forall>r' \<in> {r2, r3, r4}. r_src r' = [1] \<and> r_containers r' = r_containers (NewReader (tlv_bytes sample_tree @ [1])))"
  using element_operations_exact [OF wf_sample_tree wf_tag_ContextTag [of 7],
      of "NewReader (tlv_bytes sample_tree @ [1])" "[1]" NewWriter]
  by simp

text \<open>
  Canonical form: whatever a peer sent (any widths, any tags), the bytes that \<^verbatim>\<open>captureElement\<close>
  and \<^verbatim>\<open>captureStructBody\<close> return are the canonical encoding of a well-formed element, respectively
  of a sequence of well-formed elements; a captured element carries the anonymous tag.
\<close>

theorem capture_canonical:
  "(\<forall>r0 r r' raw. Next r0 = (Ok (), r) \<longrightarrow> captureElement r = (Ok raw, r') \<longrightarrow>
      (\<exists>t. wf_tlv t \<and> root_tag t = AnonymousTag \<and> raw = tlv_bytes t)) \<and>
   (\<forall>r r' raw. captureStructBody r = (Ok raw, r') \<longrightarrow> (\<exists>ts. wf_forest ts \<and> raw = forest_bytes ts))"
  using captureElement_canonical captureStructBody_canonical by blast

lemma sample_capture:
  "Next (NewReader [5, 7, 0]) = (Ok (), snd (Next (NewReader [5, 7, 0])))"
  "captureElement (snd (Next (NewReader [5, 7, 0]))) = (Ok [4, 7], snd (Next (NewReader [5, 7, 0])))"
  by code_simp+

theorem capture_canonical_witness:
  "\<exists>t. wf_tlv t \<and> root_tag t = AnonymousTag \<and> [4, 7] = tlv_bytes t"
  using capture_canonical [THEN conjunct1, rule_format, OF sample_capture] .

text \<open>
  Unambiguity: encodings are prefix free: if the encodings of two well-formed elements, each
  followed by anything, are the same bytes, then the elements and what follows them are the same.
\<close>

theorem tlv_unambiguous:
  assumes "wf_tlv t" and "wf_tlv t'" and "tlv_bytes t @ rest = tlv_bytes t' @ rest'"
  shows "t = t' \<and> rest = rest'"
  using assms by (rule tlv_prefix_free(1))

theorem tlv_unambiguous_witness:
  "sample_tree = sample_tree \<and> [2 :: byte] = [2]"
  using tlv_unambiguous [OF wf_sample_tree wf_sample_tree refl, of "[2]"] by simp

text \<open>
  Minimal integers: the integer methods write the value in the least of the widths 1, 2, 4 and 8
  that can hold it, behind the control byte and tag of that width.
\<close>

theorem integers_minimal:
  assumes "wf_tag tag"
  shows "\<exists>n \<in> set widths. \<exists>m \<in> set widths.
     fits_signed n (sint v) \<and> (\<forall>k \<in> set widths. fits_signed k (sint v) \<longrightarrow> n \<le> k) \<and>
     PutSignedInt w tag v = emits w (head_bytes tag (TypeSignedInt8 + width_code n) @ le_put n v) \<and>
     fits_unsigned m (unat v) \<and> (\<forall>k \<in> set widths. fits_unsigned k (unat v) \<longrightarrow> m \<le> k) \<and>
     PutUnsignedInt w tag v = emits w (head_bytes tag (TypeUnsignedInt8 + width_code m) @ le_put m v)"
proof -
  have t: "t_Type tag \<in> set tag_types" using assms by (simp add: wf_tag_def)
  have u: "unat v < 2 ^ 64" using unsigned_less [of v] by simp
  have "int_width v \<in> set widths" "nat_width (unat v) \<in> set widths"
    using int_width_cases [of v] nat_width_cases [of "unat v"] by (auto simp: widths_def)
  moreover have "fits_signed (int_width v) (sint v)"
    and "\<forall>k \<in> set widths. fits_signed k (sint v) \<longrightarrow> int_width v \<le> k"
    by (simp_all add: int_width_fits int_width_least)
  moreover have "fits_unsigned (nat_width (unat v)) (unat v)"
    and "\<forall>k \<in> set widths. fits_unsigned k (unat v) \<longrightarrow> nat_width (unat v) \<le> k"
    using u by (simp_all add: nat_width_fits nat_width_least)
  moreover have "PutSignedInt w tag v
      = emits w (head_bytes tag (TypeSignedInt8 + width_code (int_width v)) @ le_put (int_width v) v)"
    and "PutUnsignedInt w tag v
      = emits w (head_bytes tag (TypeUnsignedInt8 + width_code (nat_width (unat v))) @ le_put (nat_width (unat v)) v)"
    using t by (simp_all add: PutSignedInt_emits PutUnsignedInt_emits elem_bytes_def)
  ultimately show ?thesis by blast
qed

theorem integers_minimal_witness:
  "\<exists>n \<in> set widths. \<exists>m \<in> set widths.
     fits_signed n (sint (300 :: u64)) \<and> (\<forall>k \<in> set widths. fits_signed k (sint (300 :: u64)) \<longrightarrow> n \<le> k) \<and>
     PutSignedInt NewWriter (ContextTag 1) 300
       = emits NewWriter (head_bytes (ContextTag 1) (TypeSignedInt8 + width_code n) @ le_put n (300 :: u64)) \<and>
     fits_unsigned m (unat (300 :: u64)) \<and> (\<forall>k \<in> set widths. fits_unsigned k (unat (300 :: u64)) \<longrightarrow> m \<le> k) \<and>
     PutUnsignedInt NewWriter (ContextTag 1) 300
       = emits NewWriter (head_bytes (ContextTag 1) (TypeUnsignedInt8 + width_code m) @ le_put m (300 :: u64))"
  using integers_minimal [OF wf_tag_ContextTag] .

text \<open>
  A hostile length panics: an anonymous string element whose 8-byte length exceeds the runtime's
  allocation limit makes \<^verbatim>\<open>Next\<close> panic instead of returning an error, whatever follows it.
\<close>

theorem huge_length_panics:
  fixes n :: u64
  assumes "ty \<in> {TypeUTF8String8, TypeOctetString8}" and "max_alloc < unat n"
  shows "fst (Next (NewReader (ty # le_put 8 n @ rest))) = Panic"
proof -
  have "elem_code ty" "\<not> is_container ty" "ty \<noteq> TypeEndOfContainer" "head_bytes AnonymousTag ty = [ty]"
    using assms(1)
    by (auto simp: is_container_def elem_code_def head_bytes_def AnonymousTag_def zero_tag_def
        tag_bytes_simps const_defs)
  then have n: "Next (NewReader (ty # le_put 8 n @ rest)) =
     bind_st (wrap_st (''reading value for '' @ ElementType_String ty) (readValue (le_put 8 n @ rest) ty))
          (\<lambda>val s. (Ok (), (NewReader (ty # le_put 8 n @ rest))\<lparr>r_src := s,
             r_elem := \<lparr>e_Tag = AnonymousTag, e_Type = ty, e_Value = val\<rparr>\<rparr>))
          (\<lambda>s. (NewReader (ty # le_put 8 n @ rest))\<lparr>r_src := s\<rparr>)"
    using Next_head [OF wf_tag_AnonymousTag, of ty "NewReader (ty # le_put 8 n @ rest)" "le_put 8 n @ rest"]
    by (simp add: NewReader_def)
  have "int max_alloc < int (unat n)" using assms(2) by (simp only: of_nat_less_iff)
  then have "make_panics (sint n)"
    using sint_small [of n] sint_large [of n] by (cases "unat n < 2 ^ 63") (auto simp: make_panics_def)
  then have "fst (readValue (le_put 8 n @ rest) ty) = Panic"
    using assms(1)
    by (auto simp: readValue_def readUTF8String_def readOctetString_def readStringLength_def const_defs)
  then show ?thesis unfolding n by (cases "readValue (le_put 8 n @ rest) ty") simp
qed

theorem huge_length_panics_witness:
  "fst (Next (NewReader (TypeUTF8String8 # le_put 8 (2 ^ 48 + 1 :: u64) @ []))) = Panic"
  by (rule huge_length_panics) (simp_all add: max_alloc_def)

end
