(* ===== verification/Tlv_Marshal.thy ===== *)
theory Tlv_Marshal
  imports Tlv_Canonical
begin

text \<open>
  The reflection engine of \<^verbatim>\<open>internal/tlv/marshal.go\<close> with the tri-state fields of \<^verbatim>\<open>optional.go\<close>.
  A Go value is a \<open>goval\<close> that carries its type; a struct has its type name and the list of its
  exported fields in order, each with its name, the text of its \<^verbatim>\<open>tlv\<close> struct tag and its value.  The kinds are those
  of the message structs of the program (no floats, arrays, maps or interfaces); a nil and an empty
  slice, which the engine does not tell apart, are the same value.  What \<^verbatim>\<open>reflect\<close> panics on (a
  \<^verbatim>\<open>Uint()\<close> of a bool, a \<^verbatim>\<open>SetBytes\<close> on a string) is \<open>Panic\<close> here.
\<close>

subsection \<open>Go types and values\<close>

datatype optionalState = optionalAbsent | optionalNull | optionalValuePresent

datatype gotype =
    KInt nat | KUint nat | KBool | KString | KBytes
  | KPtr gotype | KSlice gotype | KOptional gotype | KStruct string "(string \<times> string \<times> gotype) list"

datatype goval =
    GInt nat u64 | GUint nat u64 | GBool bool | GString "byte list" | GBytes "byte list"
  | GPtr gotype "goval option" | GSlice gotype "goval list"
  | GOptional gotype optionalState goval | GStruct string "(string \<times> string \<times> goval) list"

type_synonym fieldvals = "(string \<times> string \<times> goval) list"

fun typeof :: "goval \<Rightarrow> gotype" where
  "typeof (GInt n x) = KInt n"
| "typeof (GUint n x) = KUint n"
| "typeof (GBool b) = KBool"
| "typeof (GString s) = KString"
| "typeof (GBytes s) = KBytes"
| "typeof (GPtr t p) = KPtr t"
| "typeof (GSlice t vs) = KSlice t"
| "typeof (GOptional t st v) = KOptional t"
| "typeof (GStruct n fs) = KStruct n (map (\<lambda>(name, tag, v). (name, tag, typeof v)) fs)"

text \<open>\<open>reflect.Zero\<close>.\<close>

fun zero :: "gotype \<Rightarrow> goval" where
  "zero (KInt n) = GInt n 0"
| "zero (KUint n) = GUint n 0"
| "zero KBool = GBool False"
| "zero KString = GString []"
| "zero KBytes = GBytes []"
| "zero (KPtr t) = GPtr t None"
| "zero (KSlice t) = GSlice t []"
| "zero (KOptional t) = GOptional t optionalAbsent (zero t)"
| "zero (KStruct n fts) = GStruct n (map (\<lambda>(name, tag, t). (name, tag, zero t)) fts)"

text \<open>The text of \<^verbatim>\<open>reflect.Kind\<close>; a tri-state wrapper is a struct.\<close>

fun Kind :: "gotype \<Rightarrow> string" where
  "Kind (KInt n) = ''int'' @ fmt_d n"
| "Kind (KUint n) = ''uint'' @ fmt_d n"
| "Kind KBool = ''bool''"
| "Kind KString = ''string''"
| "Kind KBytes = ''slice''"
| "Kind (KPtr t) = ''ptr''"
| "Kind (KSlice t) = ''slice''"
| "Kind (KOptional t) = ''struct''"
| "Kind (KStruct n fts) = ''struct''"

text \<open>The fields of a value of kind struct (those of \<^verbatim>\<open>Optional\<close> carry no tag), and the elements of
  a value of kind slice.\<close>

fun as_struct :: "goval \<Rightarrow> fieldvals option" where
  "as_struct (GStruct n fs) = Some fs"
| "as_struct (GOptional t st v) = Some []"
| "as_struct v = None"

fun as_slice :: "goval \<Rightarrow> goval list option" where
  "as_slice (GSlice t vs) = Some vs"
| "as_slice (GBytes bs) = Some (map (\<lambda>b. GUint 8 (ucast b)) bs)"
| "as_slice v = None"

text \<open>A pointer is dereferenced once; a nil pointer is \<open>None\<close>.\<close>

fun deref :: "goval \<Rightarrow> goval option" where
  "deref (GPtr t p) = p"
| "deref v = Some v"

text \<open>\<^verbatim>\<open>reflect.Value.String\<close> does not panic on other kinds: it gives the name of the type.\<close>

fun type_name :: "gotype \<Rightarrow> string" where
  "type_name (KPtr t) = CHR ''*'' # type_name t"
| "type_name (KSlice t) = ''[]'' @ type_name t"
| "type_name KBytes = ''[]uint8''"
| "type_name (KOptional t) = ''tlv.Optional['' @ type_name t @ '']''"
| "type_name (KStruct n fts) = n"
| "type_name t = Kind t"

fun reflect_String :: "goval \<Rightarrow> byte list" where
  "reflect_String (GString s) = s"
| "reflect_String v = map of_char (CHR ''<'' # type_name (typeof v) @ '' Value>'')"

text \<open>What a field of type \<^verbatim>\<open>Optional\<close>, or a pointer to one (whose method set has the same readers),
  reports; a nil pointer panics.\<close>

fun optionalReader :: "goval \<Rightarrow> (optionalState \<times> goval) option res" where
  "optionalReader (GOptional t st v) = Ok (Some (st, v))"
| "optionalReader (GPtr (KOptional t) None) = Panic"
| "optionalReader (GPtr t (Some (GOptional t' st v))) = Ok (Some (st, v))"
| "optionalReader v = Ok None"

subsection \<open>The tri-state wrapper\<close>

definition OptionalValue :: "goval \<Rightarrow> goval" where
  "OptionalValue v = GOptional (typeof v) optionalValuePresent v"

definition OptionalNull :: "gotype \<Rightarrow> goval" where
  "OptionalNull t = GOptional t optionalNull (zero t)"

fun IsAbsent :: "goval \<Rightarrow> bool" where
  "IsAbsent (GOptional t st v) = (st = optionalAbsent)"
| "IsAbsent v = False"

fun IsNull :: "goval \<Rightarrow> bool" where
  "IsNull (GOptional t st v) = (st = optionalNull)"
| "IsNull v = False"

fun IsPresent :: "goval \<Rightarrow> bool" where
  "IsPresent (GOptional t st v) = (st = optionalValuePresent)"
| "IsPresent v = False"

fun Optional_Get :: "goval \<Rightarrow> goval \<times> bool" where
  "Optional_Get (GOptional t st v) = (v, st = optionalValuePresent)"
| "Optional_Get v = (v, False)"

text \<open>\<open>setOptionalNull\<close> resets the wrapped value; \<open>optionalDecodeTarget\<close> keeps it and is decoded into.\<close>

definition setOptionalNull :: "gotype \<Rightarrow> goval" where
  "setOptionalNull t = GOptional t optionalNull (zero t)"

definition optionalDecodeTarget :: "gotype \<Rightarrow> goval \<Rightarrow> goval" where
  "optionalDecodeTarget t v = GOptional t optionalValuePresent v"

subsection \<open>Struct tags\<close>

text \<open>\<^verbatim>\<open>strconv.ParseUint(s, 10, 8)\<close>: digits from the left, failing at the first character that is not
  one or at the first digit that takes the value over 255.\<close>

definition ErrSyntax :: err where "ErrSyntax = Sentinel ''invalid syntax''"
definition ErrRange :: err where "ErrRange = Sentinel ''value out of range''"

fun parse_digits :: "string \<Rightarrow> nat \<Rightarrow> err + nat" where
  "parse_digits [] acc = Inr acc"
| "parse_digits (c # cs) acc =
     (if of_char c < (48 :: nat) \<or> of_char c > (57 :: nat) then Inl ErrSyntax
      else let n = 10 * acc + (of_char c - 48)
           in if n > 255 then Inl ErrRange else parse_digits cs n)"

definition ParseUint8 :: "string \<Rightarrow> byte res" where
  "ParseUint8 s =
     (case (if s = [] then Inl ErrSyntax else parse_digits s 0) of
        Inl e \<Rightarrow> Err (Errorw (''strconv.ParseUint: parsing '' @ s) e)
      | Inr n \<Rightarrow> Ok (word_of_nat n))"

text \<open>The field index is the position in the struct, which the model keeps by itself.\<close>

definition parseTag :: "string \<Rightarrow> (byte \<times> string) res" where
  "parseTag tagStr =
     (case dropWhile (\<lambda>c. c \<noteq> CHR '','') tagStr of
        [] \<Rightarrow> Err (Errorf (''invalid tlv tag '' @ tagStr @ '': expected tagNum,type''))
      | _ # tlvType \<Rightarrow>
          let num = takeWhile (\<lambda>c. c \<noteq> CHR '','') tagStr
          in (case ParseUint8 num of
                Ok n \<Rightarrow> Ok (n, tlvType)
              | Err e \<Rightarrow> Err (Errorw (''parsing tag number '' @ num) e)
              | Panic \<Rightarrow> Panic))"

definition untagged :: "string \<Rightarrow> bool" where
  "untagged tagStr \<longleftrightarrow> tagStr = '''' \<or> tagStr = ''-''"

subsection \<open>Marshal\<close>

definition and_also :: "unit res \<times> 's \<Rightarrow> ('s \<Rightarrow> unit res \<times> 's) \<Rightarrow> unit res \<times> 's" where
  "and_also m k = (case m of (Ok _, s) \<Rightarrow> k s | (Err e, s) \<Rightarrow> (Err e, s) | (Panic, s) \<Rightarrow> (Panic, s))"

lemma and_also_Ok [simp]: "and_also (Ok u, s) k = k s"
  by (simp add: and_also_def)

lemma and_also_Ok_iff: "and_also m k = (Ok u, s) \<longleftrightarrow> (\<exists>u' s'. m = (Ok u', s') \<and> k s' = (Ok u, s))"
  by (auto simp: and_also_def split: prod.splits res.splits)

definition wrong_kind :: "string \<Rightarrow> string \<Rightarrow> goval \<Rightarrow> err" where
  "wrong_kind fieldName want v =
     Errorw (''field '' @ fieldName @ '': expected '' @ want @ '', got '' @ Kind (typeof v)) ErrUnsupportedType"

text \<open>The termination measure of the recursions over a value.\<close>

fun gsize :: "goval \<Rightarrow> nat" where
  "gsize (GBytes bs) = 1 + 2 * length bs"
| "gsize (GPtr t None) = 1"
| "gsize (GPtr t (Some v)) = 1 + gsize v"
| "gsize (GSlice t vs) = 1 + sum_list (map (\<lambda>v. 1 + gsize v) vs)"
| "gsize (GOptional t st v) = 1 + gsize v"
| "gsize (GStruct n fs) = 1 + sum_list (map (\<lambda>(name, tag, v). 1 + gsize v) fs)"
| "gsize v = 1"

definition fields_size :: "fieldvals \<Rightarrow> nat" where
  "fields_size fs = sum_list (map (\<lambda>(name, tag, v). 1 + gsize v) fs)"

definition elems_size :: "goval list \<Rightarrow> nat" where
  "elems_size vs = sum_list (map (\<lambda>v. 1 + gsize v) vs)"

lemma gsize_as_struct: "as_struct v = Some fs \<Longrightarrow> fields_size fs < gsize v"
  by (cases v) (auto simp: fields_size_def)

lemma gsize_as_slice: "as_slice v = Some vs \<Longrightarrow> elems_size vs < gsize v"
  by (cases v) (auto simp: elems_size_def sum_list_triv comp_def)

lemma gsize_optionalReader: "optionalReader v = Ok (Some (st, w)) \<Longrightarrow> gsize w < gsize v"
  by (cases v rule: optionalReader.cases) auto

lemma gsize_deref: "deref v = Some w \<Longrightarrow> gsize w \<le> gsize v"
  by (cases v) auto

lemmas gsize_parts = gsize_as_struct gsize_as_slice gsize_optionalReader gsize_deref

function (sequential)
  marshalFields :: "Writer \<Rightarrow> fieldvals \<Rightarrow> unit res \<times> Writer"
  and marshalValue :: "Writer \<Rightarrow> Tag \<Rightarrow> goval \<Rightarrow> string \<Rightarrow> string \<Rightarrow> unit res \<times> Writer"
  and marshalSlice :: "Writer \<Rightarrow> goval list \<Rightarrow> unit res \<times> Writer"
  and marshalArrayElement :: "Writer \<Rightarrow> Tag \<Rightarrow> goval \<Rightarrow> unit res \<times> Writer"
  and marshalSliceAsLists :: "Writer \<Rightarrow> goval list \<Rightarrow> unit res \<times> Writer" where
  "marshalFields w [] = (Ok (), w)"
| "marshalFields w ((name, tagStr, fv) # fs) =
     (if untagged tagStr then marshalFields w fs
      else case parseTag tagStr of
        Err e \<Rightarrow> (Err (Errorw (''parsing tag for field '' @ name) e), w)
      | Panic \<Rightarrow> (Panic, w)
      | Ok (tagNum, tlvType) \<Rightarrow>
          let tag = ContextTag tagNum in
          (case optionalReader fv of
             Panic \<Rightarrow> (Panic, w)
           | Err e \<Rightarrow> (Err e, w)
           | Ok (Some (st, v)) \<Rightarrow>
               (if st = optionalAbsent then marshalFields w fs
                else if st = optionalNull then and_also (to_res (PutNull w tag)) (\<lambda>w. marshalFields w fs)
                else and_also (marshalValue w tag v tlvType name) (\<lambda>w. marshalFields w fs))
           | Ok None \<Rightarrow>
               (case deref fv of
                  None \<Rightarrow> marshalFields w fs
                | Some v \<Rightarrow> and_also (marshalValue w tag v tlvType name) (\<lambda>w. marshalFields w fs))))"
| "marshalValue w tag fv tlvType fieldName =
     (if tlvType = ''int'' then
        (case fv of GInt n x \<Rightarrow> to_res (PutSignedInt w tag x) | _ \<Rightarrow> (Panic, w))
      else if tlvType = ''uint'' then
        (case fv of GUint n x \<Rightarrow> to_res (PutUnsignedInt w tag x) | _ \<Rightarrow> (Panic, w))
      else if tlvType = ''bool'' then
        (case fv of GBool b \<Rightarrow> to_res (PutBool w tag b) | _ \<Rightarrow> (Panic, w))
      else if tlvType = ''float32'' \<or> tlvType = ''float64'' then (Panic, w)
      else if tlvType = ''utf8'' then
        to_res (PutUTF8String w tag (reflect_String fv))
      else if tlvType = ''octets'' then
        (case fv of GBytes bs \<Rightarrow> to_res (PutOctetString w tag bs) | _ \<Rightarrow> (Panic, w))
      else if tlvType = ''struct'' then
        (case as_struct fv of
           None \<Rightarrow> (Err (wrong_kind fieldName ''struct'' fv), w)
         | Some fs \<Rightarrow> and_also (to_res (StartStructure w tag))
             (\<lambda>w. and_also (marshalFields w fs) (\<lambda>w. to_res (EndContainer w))))
      else if tlvType = ''array'' then
        (case as_slice fv of
           None \<Rightarrow> (Err (wrong_kind fieldName ''slice/array'' fv), w)
         | Some vs \<Rightarrow> and_also (to_res (StartArray w tag))
             (\<lambda>w. and_also (marshalSlice w vs) (\<lambda>w. to_res (EndContainer w))))
      else if tlvType = ''list'' then
        (case as_slice fv of
           None \<Rightarrow> (Err (wrong_kind fieldName ''slice/array'' fv), w)
         | Some vs \<Rightarrow> and_also (to_res (StartList w tag))
             (\<lambda>w. and_also (marshalSlice w vs) (\<lambda>w. to_res (EndContainer w))))
      else if tlvType = ''rawstruct'' then
        (case fv of GBytes bs \<Rightarrow> to_res (PutPreEncodedStruct w tag bs) | _ \<Rightarrow> (Panic, w))
      else if tlvType = ''rawtlv'' then
        (case fv of
           GBytes raw \<Rightarrow>
             (if raw = [] then (Ok (), w)
              else case Next (NewReader raw) of
                (Err e, r) \<Rightarrow> (Err (Errorw (''field '' @ fieldName @ '': parsing rawtlv'') e), w)
              | (Panic, r) \<Rightarrow> (Panic, w)
              | (Ok _, r) \<Rightarrow> (case reencodeElement w tag r of (x, w, r) \<Rightarrow> (x, w)))
         | _ \<Rightarrow> (Panic, w))
      else if tlvType = ''liststruct'' then
        (case as_struct fv of
           None \<Rightarrow> (Err (wrong_kind fieldName ''struct'' fv), w)
         | Some fs \<Rightarrow> and_also (to_res (StartList w tag))
             (\<lambda>w. and_also (marshalFields w fs) (\<lambda>w. to_res (EndContainer w))))
      else if tlvType = ''listarray'' then
        (case as_slice fv of
           None \<Rightarrow> (Err (wrong_kind fieldName ''slice/array'' fv), w)
         | Some vs \<Rightarrow> and_also (to_res (StartArray w tag))
             (\<lambda>w. and_also (marshalSliceAsLists w vs) (\<lambda>w. to_res (EndContainer w))))
      else if tlvType = ''listlist'' then
        (case as_slice fv of
           None \<Rightarrow> (Err (wrong_kind fieldName ''slice/array'' fv), w)
         | Some vs \<Rightarrow> and_also (to_res (StartList w tag))
             (\<lambda>w. and_also (marshalSliceAsLists w vs) (\<lambda>w. to_res (EndContainer w))))
      else (Err (Errorw (''field '' @ fieldName @ '': unknown TLV type '' @ tlvType) ErrUnsupportedType), w))"
| "marshalSlice w [] = (Ok (), w)"
| "marshalSlice w (elem # vs) =
     (case deref elem of
        None \<Rightarrow> and_also (to_res (PutNull w AnonymousTag)) (\<lambda>w. marshalSlice w vs)
      | Some v \<Rightarrow> and_also (marshalArrayElement w AnonymousTag v) (\<lambda>w. marshalSlice w vs))"
| "marshalArrayElement w tag elem =
     (case elem of
        GInt n x \<Rightarrow> to_res (PutSignedInt w tag x)
      | GUint n x \<Rightarrow> to_res (PutUnsignedInt w tag x)
      | GBool b \<Rightarrow> to_res (PutBool w tag b)
      | GString s \<Rightarrow> to_res (PutUTF8String w tag s)
      | GBytes bs \<Rightarrow> to_res (PutOctetString w tag bs)
      | GSlice t vs \<Rightarrow> (Err (Errorw ''unsupported slice element type'' ErrUnsupportedType), w)
      | GPtr t p \<Rightarrow>
          (Err (Errorw (''unsupported array element kind '' @ Kind (typeof elem)) ErrUnsupportedType), w)
      | _ \<Rightarrow>
          (case as_struct elem of
             None \<Rightarrow> (Panic, w)
           | Some fs \<Rightarrow> and_also (to_res (StartStructure w tag))
               (\<lambda>w. and_also (marshalFields w fs) (\<lambda>w. to_res (EndContainer w)))))"
| "marshalSliceAsLists w [] = (Ok (), w)"
| "marshalSliceAsLists w (elem # vs) =
     (case deref elem of
        None \<Rightarrow> and_also (to_res (PutNull w AnonymousTag)) (\<lambda>w. marshalSliceAsLists w vs)
      | Some v \<Rightarrow>
          (case as_struct v of
             Some fs \<Rightarrow>
               and_also (to_res (StartList w AnonymousTag))
                 (\<lambda>w. and_also (marshalFields w fs)
                 (\<lambda>w. and_also (to_res (EndContainer w)) (\<lambda>w. marshalSliceAsLists w vs)))
           | None \<Rightarrow> and_also (marshalArrayElement w AnonymousTag v) (\<lambda>w. marshalSliceAsLists w vs)))"
  by pat_completeness auto
termination
  by (relation "measure (\<lambda>x. case x of
        Inl (Inl (w, fs)) \<Rightarrow> 3 * fields_size fs
      | Inl (Inr (w, tag, v, ty, name)) \<Rightarrow> 3 * gsize v + 1
      | Inr (Inl (w, vs)) \<Rightarrow> 3 * elems_size vs
      | Inr (Inr (Inl (w, tag, v))) \<Rightarrow> 3 * gsize v + 1
      | Inr (Inr (Inr (w, vs))) \<Rightarrow> 3 * elems_size vs)")
    (auto simp: fields_size_def elems_size_def dest!: gsize_parts)

declare marshalFields.simps(2) [simp del] marshalValue.simps [simp del] marshalSlice.simps(2) [simp del]
  marshalArrayElement.simps [simp del] marshalSliceAsLists.simps(2) [simp del]

definition marshalStruct :: "Writer \<Rightarrow> fieldvals \<Rightarrow> unit res \<times> Writer" where
  "marshalStruct w fs =
     and_also (to_res (StartStructure w AnonymousTag))
       (\<lambda>w. and_also (marshalFields w fs) (\<lambda>w. to_res (EndContainer w)))"

definition Marshal :: "goval \<Rightarrow> byte list res" where
  "Marshal v =
     (case Option.bind (deref v) as_struct of
        None \<Rightarrow> Err (Errorw (''marshaling non-struct type '' @ type_name (typeof v)) ErrUnsupportedType)
      | Some fs \<Rightarrow>
          (case marshalStruct NewWriter fs of
             (Ok _, w) \<Rightarrow> Ok (Bytes w)
           | (Err e, w) \<Rightarrow> Err e
           | (Panic, w) \<Rightarrow> Panic))"

end
