(* ===== verification/Tlv_Unmarshal.thy ===== *)
theory Tlv_Unmarshal
  imports Tlv_Marshal
begin

text \<open>
  The decoding half of the reflection engine of \<^verbatim>\<open>internal/tlv/marshal.go\<close>.  A target is passed as
  its current value and returned updated, also when the call fails half way.  The loops of
  \<^verbatim>\<open>unmarshalFields\<close> and \<^verbatim>\<open>unmarshalSlice\<close> go on from the reader the nested call returned; they end
  because a call never un-reads input (\<open>unmarshal_shrinks\<close>).
\<close>

subsection \<open>Calls that consume no input twice\<close>

abbreviation reader_len :: "Reader \<Rightarrow> nat" where
  "reader_len r \<equiv> length (r_src r)"

lemma Next_reader_len: "Next r = (Ok u, r') \<Longrightarrow> reader_len r' < reader_len r"
  using Next_consumes [of r r'] by simp

lemma bind_st_len:
  assumes "length (snd m) \<le> n" and "\<And>a s. length s \<le> n \<Longrightarrow> reader_len (snd (k a s)) \<le> n"
    and "\<And>s. length s \<le> n \<Longrightarrow> reader_len (f s) \<le> n"
  shows "reader_len (snd (bind_st m k f)) \<le> n"
  using assms by (cases "(m, k, f)" rule: bind_st.cases) auto

lemma Next_len: "reader_len (snd (Next r)) \<le> reader_len r"
proof -
  have tag: "length (snd (decodeTag s ty)) \<le> length s" for s ty
    using decodeTag_suffix by (rule suffix_length_le)
  have val: "length (snd (readValue s ty)) \<le> length s" for s ty
    using suffix_readValue by (rule suffix_length_le)
  show ?thesis
    by (auto simp: Next_def ReadFull_def Let_def
        intro!: bind_st_len order.trans [OF tag] order.trans [OF val])
qed

lemma skip_loop_shrinks: "skip_loop d r = (Ok u, r') \<Longrightarrow> reader_len r' \<le> reader_len r"
proof (induction d r rule: skip_loop.induct)
  case (1 d r)
  show ?case
  proof (cases "d = 0")
    case True
    with "1.prems" show ?thesis by (simp add: skip_loop.simps)
  next
    case False
    with "1.prems" obtain r1 where n: "wrap_st ''skipping element'' (Next r) = (Ok (), r1)"
      by (auto simp: skip_loop.simps split: prod.splits res.splits)
    from "1.prems" n False "1.IH" [OF False n [symmetric] refl] have "reader_len r' \<le> reader_len r1"
      by (simp add: skip_loop.simps)
    with n Next_reader_len [of r "()" r1] show ?thesis by (simp add: wrap_st_Ok_iff)
  qed
qed

lemma skipElement_shrinks: "skipElement r = (Ok u, r') \<Longrightarrow> reader_len r' \<le> reader_len r"
  by (auto simp: skipElement_def dest: skip_loop_shrinks split: if_splits)

lemma capture_loop_shrinks:
  "capture_loop msg d w r = (Ok u, w', r') \<Longrightarrow> reader_len r' \<le> reader_len r"
proof (induction msg d w r rule: capture_loop.induct)
  case (1 msg d w r)
  show ?case
  proof (cases "d = 0")
    case True
    with "1.prems" show ?thesis by (simp add: capture_loop.simps)
  next
    case False
    with "1.prems" obtain r1 where n: "wrap_st msg (Next r) = (Ok (), r1)"
      by (auto simp: capture_loop.simps split: prod.splits res.splits)
    have "reader_len r' \<le> reader_len r1"
      using "1.prems" n False "1.IH"(1,2) [OF False n [symmetric] refl] "1.IH"(3) [OF False n [symmetric] refl]
      by (auto simp: capture_loop.simps [of msg d w r] split: if_splits prod.splits res.splits)
    with n Next_reader_len [of r "()" r1] show ?thesis by (simp add: wrap_st_Ok_iff)
  qed
qed

lemma capture_shrinks:
  "captureStructBody r = (Ok bs, r') \<Longrightarrow> reader_len r' \<le> reader_len r"
  "captureElement r = (Ok bs, r') \<Longrightarrow> reader_len r' \<le> reader_len r"
  by (auto simp: captureStructBody_def captureElement_def Let_def dest!: capture_loop_shrinks
      split: prod.splits res.splits if_splits)

subsection \<open>Setting values\<close>

text \<open>
  \<^verbatim>\<open>SetInt\<close> and \<^verbatim>\<open>SetUint\<close> keep the low bits that fit the type, without an error.
\<close>

fun SetInt :: "goval \<Rightarrow> u64 \<Rightarrow> goval res" where
  "SetInt (GInt n x) v = Ok (GInt n (signed_take_bit (n - 1) v))"
| "SetInt fv v = Panic"

fun SetUint :: "goval \<Rightarrow> u64 \<Rightarrow> goval res" where
  "SetUint (GUint n x) v = Ok (GUint n (take_bit n v))"
| "SetUint fv v = Panic"

fun SetBool :: "goval \<Rightarrow> bool \<Rightarrow> goval res" where
  "SetBool (GBool x) v = Ok (GBool v)"
| "SetBool fv v = Panic"

fun SetString :: "goval \<Rightarrow> byte list \<Rightarrow> goval res" where
  "SetString (GString x) v = Ok (GString v)"
| "SetString fv v = Panic"

fun SetBytes :: "goval \<Rightarrow> byte list \<Rightarrow> goval res" where
  "SetBytes (GBytes x) v = Ok (GBytes v)"
| "SetBytes fv v = Panic"

text \<open>The dynamic type of an element's value, as \<^verbatim>\<open>%T\<close> prints it.\<close>

fun value_T :: "Value \<Rightarrow> string" where
  "value_T VNil = ''<nil>''"
| "value_T (VInt64 x) = ''int64''"
| "value_T (VUint64 x) = ''uint64''"
| "value_T (VBool x) = ''bool''"
| "value_T (VFloat32 x) = ''float32''"
| "value_T (VFloat64 x) = ''float64''"
| "value_T (VString x) = ''string''"
| "value_T (VBytes x) = ''[]uint8''"

definition not_a :: "string \<Rightarrow> Value \<Rightarrow> err" where
  "not_a want v = Errorw (''expected '' @ want @ '', got '' @ value_T v) ErrInvalidType"

text \<open>A call that sets a target: it keeps the old value unless it succeeds.\<close>

definition set_to :: "goval \<Rightarrow> Reader \<Rightarrow> goval res \<Rightarrow> unit res \<times> goval \<times> Reader" where
  "set_to fv r m = (case m of Ok v \<Rightarrow> (Ok (), v, r) | Err e \<Rightarrow> (Err e, fv, r) | Panic \<Rightarrow> (Panic, fv, r))"

text \<open>The type assertion and assignment of the scalar tags, which \<^verbatim>\<open>unmarshalSlice\<close> repeats for the
  kinds of its element type.\<close>

definition assign_int :: "goval \<Rightarrow> Value \<Rightarrow> goval res" where
  "assign_int fv v = (case v of VInt64 x \<Rightarrow> SetInt fv x | _ \<Rightarrow> Err (not_a ''int64'' v))"

definition assign_uint :: "goval \<Rightarrow> Value \<Rightarrow> goval res" where
  "assign_uint fv v = (case v of VUint64 x \<Rightarrow> SetUint fv x | _ \<Rightarrow> Err (not_a ''uint64'' v))"

definition assign_bool :: "goval \<Rightarrow> Value \<Rightarrow> goval res" where
  "assign_bool fv v = (case v of VBool x \<Rightarrow> SetBool fv x | _ \<Rightarrow> Err (not_a ''bool'' v))"

definition assign_string :: "goval \<Rightarrow> Value \<Rightarrow> goval res" where
  "assign_string fv v = (case v of VString x \<Rightarrow> SetString fv x | _ \<Rightarrow> Err (not_a ''string'' v))"

definition assign_bytes :: "goval \<Rightarrow> Value \<Rightarrow> goval res" where
  "assign_bytes fv v = (case v of VBytes x \<Rightarrow> SetBytes fv x | _ \<Rightarrow> Err (not_a ''[]byte'' v))"

subsection \<open>The field map\<close>

fun field_entry :: "string \<times> string \<times> goval \<Rightarrow> (byte \<times> string) option" where
  "field_entry (name, tagStr, v) =
     (if untagged tagStr then None
      else case parseTag tagStr of Ok e \<Rightarrow> Some e | _ \<Rightarrow> None)"

text \<open>From the position \<open>i\<close> on; a later field with the same tag number wins.\<close>

fun buildFieldMap :: "nat \<Rightarrow> fieldvals \<Rightarrow> (byte \<rightharpoonup> nat \<times> string) \<Rightarrow> (byte \<rightharpoonup> nat \<times> string)" where
  "buildFieldMap i [] m = m"
| "buildFieldMap i (f # fs) m =
     buildFieldMap (Suc i) fs
       (case field_entry f of None \<Rightarrow> m | Some (n, ty) \<Rightarrow> m(n \<mapsto> (i, ty)))"

definition field_name :: "fieldvals \<Rightarrow> nat \<Rightarrow> string" where
  "field_name fs i = fst (fs ! i)"

definition field_val :: "fieldvals \<Rightarrow> nat \<Rightarrow> goval" where
  "field_val fs i = snd (snd (fs ! i))"

definition set_field :: "fieldvals \<Rightarrow> nat \<Rightarrow> goval \<Rightarrow> fieldvals" where
  "set_field fs i v = fs[i := (fst (fs ! i), fst (snd (fs ! i)), v)]"

text \<open>Slices are appended to; a \<^verbatim>\<open>[]byte\<close> by its bytes.\<close>

fun slice_elem :: "goval \<Rightarrow> gotype option" where
  "slice_elem (GSlice t vs) = Some t"
| "slice_elem (GBytes bs) = Some (KUint 8)"
| "slice_elem v = None"

fun reflect_Append :: "goval \<Rightarrow> goval \<Rightarrow> goval" where
  "reflect_Append (GSlice t vs) v = GSlice t (vs @ [v])"
| "reflect_Append (GBytes bs) (GUint n x) = GBytes (bs @ [ucast x])"
| "reflect_Append s v = s"

fun elem_of_ptr :: "gotype \<Rightarrow> gotype" where
  "elem_of_ptr (KPtr t) = t"
| "elem_of_ptr t = t"

fun is_ptr :: "gotype \<Rightarrow> bool" where
  "is_ptr (KPtr t) = True"
| "is_ptr t = False"

definition wrap_elem :: "gotype \<Rightarrow> goval \<Rightarrow> goval" where
  "wrap_elem t v = (if is_ptr t then GPtr (elem_of_ptr t) (Some v) else v)"

fun put_struct :: "goval \<Rightarrow> fieldvals \<Rightarrow> goval" where
  "put_struct (GStruct n fs) fs' = GStruct n fs'"
| "put_struct v fs' = v"

subsection \<open>Unmarshal\<close>

text \<open>
  The branches of the switch at the end of \<^verbatim>\<open>unmarshalValue\<close> that need no recursion: the scalars,
  the two raw kinds and the unknown kinds.
\<close>

definition unmarshalLeaf :: "Reader \<Rightarrow> goval \<Rightarrow> string \<Rightarrow> unit res \<times> goval \<times> Reader" where
  "unmarshalLeaf r fv tlvType =
     (if tlvType = ''int'' then set_to fv r (assign_int fv (Reader_Value r))
      else if tlvType = ''uint'' then set_to fv r (assign_uint fv (Reader_Value r))
      else if tlvType = ''bool'' then set_to fv r (assign_bool fv (Reader_Value r))
      else if tlvType = ''float32'' then
        set_to fv r (case Reader_Value r of VFloat32 x \<Rightarrow> Panic | v \<Rightarrow> Err (not_a ''float32'' v))
      else if tlvType = ''float64'' then
        set_to fv r (case Reader_Value r of VFloat64 x \<Rightarrow> Panic | v \<Rightarrow> Err (not_a ''float64'' v))
      else if tlvType = ''utf8'' then set_to fv r (assign_string fv (Reader_Value r))
      else if tlvType = ''octets'' then set_to fv r (assign_bytes fv (Reader_Value r))
      else if tlvType = ''rawstruct'' then
        (if Reader_Type r \<noteq> TypeStructure then
           (Err (Errorw (''expected structure for rawstruct, got '' @ ElementType_String (Reader_Type r))
              ErrInvalidType), fv, r)
         else case captureStructBody r of
           (Ok raw, r') \<Rightarrow> set_to fv r' (SetBytes fv raw)
         | (Err e, r') \<Rightarrow> (Err e, fv, r')
         | (Panic, r') \<Rightarrow> (Panic, fv, r'))
      else if tlvType = ''rawtlv'' then
        (case captureElement r of
           (Ok raw, r') \<Rightarrow> set_to fv r' (SetBytes fv raw)
         | (Err e, r') \<Rightarrow> (Err e, fv, r')
         | (Panic, r') \<Rightarrow> (Panic, fv, r'))
      else (Err (Errorw (''unknown TLV type '' @ tlvType) ErrUnsupportedType), fv, r))"

text \<open>The elements of a slice that are not structs.\<close>

definition unmarshalElem :: "Reader \<Rightarrow> gotype \<Rightarrow> unit res \<times> goval \<times> Reader" where
  "unmarshalElem r t =
     (let elem = zero t in
      case t of
        KInt n \<Rightarrow> set_to elem r (assign_int elem (Reader_Value r))
      | KUint n \<Rightarrow> set_to elem r (assign_uint elem (Reader_Value r))
      | KBool \<Rightarrow> set_to elem r (assign_bool elem (Reader_Value r))
      | KString \<Rightarrow> set_to elem r (assign_string elem (Reader_Value r))
      | KBytes \<Rightarrow> set_to elem r (assign_bytes elem (Reader_Value r))
      | KSlice t \<Rightarrow> (Err (Errorw ''unsupported slice element type'' ErrUnsupportedType), elem, r)
      | _ \<Rightarrow> (Err (Errorw (''unsupported array element kind '' @ Kind t) ErrUnsupportedType), elem, r))"

definition struct_tag :: "Reader \<Rightarrow> string \<Rightarrow> bool" where
  "struct_tag r tlvType \<longleftrightarrow>
     tlvType = ''struct'' \<or> tlvType = ''liststruct'' \<and> Reader_Type r \<in> {TypeList, TypeStructure}"

definition slice_tag :: "string \<Rightarrow> bool" where
  "slice_tag tlvType \<longleftrightarrow> tlvType \<in> {''array'', ''list'', ''listarray'', ''listlist''}"

definition not_a_list :: "Reader \<Rightarrow> err" where
  "not_a_list r =
     Errorw (''expected list/structure for liststruct, got '' @ ElementType_String (Reader_Type r)) ErrInvalidType"

definition field_error :: "fieldvals \<Rightarrow> nat \<Rightarrow> err \<Rightarrow> err" where
  "field_error fs i e = Errorw (''unmarshaling field '' @ field_name fs i) e"

definition next_error :: "string \<Rightarrow> err \<Rightarrow> unit res" where
  "next_error msg e = (if e = io_EOF then Ok () else Err (Errorw msg e))"

definition lookup_field :: "fieldvals \<Rightarrow> Reader \<Rightarrow> (nat \<times> string) option" where
  "lookup_field fs r = buildFieldMap 0 fs Map.empty (ucast (t_TagNum (TagValue r)))"

text \<open>\<open>unmarshalSwitch\<close> is the switch over the tag type at the end of \<^verbatim>\<open>unmarshalValue\<close>, after nulls,
  tri-state fields and pointers have been dealt with.\<close>

function
  unmarshalFields :: "Reader \<Rightarrow> fieldvals \<Rightarrow> unit res \<times> fieldvals \<times> Reader"
  and unmarshalValue :: "Reader \<Rightarrow> goval \<Rightarrow> string \<Rightarrow> unit res \<times> goval \<times> Reader"
  and unmarshalSwitch :: "Reader \<Rightarrow> goval \<Rightarrow> string \<Rightarrow> unit res \<times> goval \<times> Reader"
  and unmarshalSlice :: "Reader \<Rightarrow> goval \<Rightarrow> gotype \<Rightarrow> unit res \<times> goval \<times> Reader" where
  "unmarshalFields r fs =
     (case Next r of
        (Panic, r') \<Rightarrow> (Panic, fs, r')
      | (Err e, r') \<Rightarrow> (next_error ''reading next element'' e, fs, r')
      | (Ok _, r') \<Rightarrow>
          if Reader_Type r' = TypeEndOfContainer then (Ok (), fs, r')
          else case lookup_field fs r' of
            None \<Rightarrow>
              (case skipElement r' of
                 (Ok _, r'') \<Rightarrow> unmarshalFields r'' fs
               | (Err e, r'') \<Rightarrow> (Err e, fs, r'')
               | (Panic, r'') \<Rightarrow> (Panic, fs, r''))
          | Some (i, tlvType) \<Rightarrow>
              (case unmarshalValue r' (field_val fs i) tlvType of
                 (Ok _, v, r'') \<Rightarrow> unmarshalFields r'' (set_field fs i v)
               | (Err e, v, r'') \<Rightarrow> (Err (field_error fs i e), set_field fs i v, r'')
               | (Panic, v, r'') \<Rightarrow> (Panic, set_field fs i v, r'')))"
| "unmarshalValue r fv tlvType =
     (case fv of
        GOptional t st v \<Rightarrow>
          if Reader_Type r = TypeNull then (Ok (), setOptionalNull t, r)
          else (case unmarshalValue r v tlvType of (x, v', r') \<Rightarrow> (x, optionalDecodeTarget t v', r'))
      | GPtr t p \<Rightarrow>
          if Reader_Type r = TypeNull then (Ok (), GPtr t None, r)
          else (case unmarshalSwitch r (case p of None \<Rightarrow> zero t | Some v \<Rightarrow> v) tlvType of
                  (x, v', r') \<Rightarrow> (x, GPtr t (Some v'), r'))
      | _ \<Rightarrow>
          if Reader_Type r = TypeNull then (Ok (), fv, r) else unmarshalSwitch r fv tlvType)"
| "unmarshalSwitch r fv tlvType =
     (if struct_tag r tlvType then
        (case as_struct fv of
           None \<Rightarrow> (Panic, fv, r)
         | Some fs \<Rightarrow> (case unmarshalFields r fs of (x, fs', r') \<Rightarrow> (x, put_struct fv fs', r')))
      else if tlvType = ''liststruct'' then (Err (not_a_list r), fv, r)
      else if slice_tag tlvType then
        (case slice_elem fv of None \<Rightarrow> (Panic, fv, r) | Some t \<Rightarrow> unmarshalSlice r fv t)
      else unmarshalLeaf r fv tlvType)"
| "unmarshalSlice r fv elemType =
     (case Next r of
        (Panic, r') \<Rightarrow> (Panic, fv, r')
      | (Err e, r') \<Rightarrow> (next_error ''reading array element'' e, fv, r')
      | (Ok _, r') \<Rightarrow>
          if Reader_Type r' = TypeEndOfContainer then (Ok (), fv, r')
          else if Reader_Type r' = TypeNull then
            unmarshalSlice r' (if is_ptr elemType then reflect_Append fv (zero elemType) else fv) elemType
          else
            (case
              (case as_struct (zero (elem_of_ptr elemType)) of
                 None \<Rightarrow> unmarshalElem r' (elem_of_ptr elemType)
               | Some fs \<Rightarrow> (case unmarshalFields r' fs of
                   (x, fs', r'') \<Rightarrow> (x, put_struct (zero (elem_of_ptr elemType)) fs', r'')))
             of
               (Ok _, v, r'') \<Rightarrow> unmarshalSlice r'' (reflect_Append fv (wrap_elem elemType v)) elemType
             | (Err e, v, r'') \<Rightarrow> (Err e, fv, r'')
             | (Panic, v, r'') \<Rightarrow> (Panic, fv, r'')))"
  by pat_completeness auto

abbreviation "unmarshal_dom \<equiv> unmarshalFields_unmarshalValue_unmarshalSwitch_unmarshalSlice_dom"

lemma unmarshalLeaf_shrinks: "unmarshalLeaf r fv ty = (Ok u, v, r') \<Longrightarrow> reader_len r' \<le> reader_len r"
  by (auto simp: unmarshalLeaf_def set_to_def dest: capture_shrinks split: if_splits res.splits prod.splits)

lemma unmarshalElem_shrinks: "unmarshalElem r t = (Ok u, v, r') \<Longrightarrow> reader_len r' \<le> reader_len r"
  by (auto simp: unmarshalElem_def set_to_def Let_def split: gotype.splits res.splits)

lemma unmarshal_shrinks:
  "unmarshal_dom (Inl (Inl (r, fs))) \<Longrightarrow>
    (\<And>u fs' r'. unmarshalFields r fs = (Ok u, fs', r') \<Longrightarrow> reader_len r' \<le> reader_len r)"
  "unmarshal_dom (Inl (Inr (r, fv, ty))) \<Longrightarrow>
    (\<And>u v r'. unmarshalValue r fv ty = (Ok u, v, r') \<Longrightarrow> reader_len r' \<le> reader_len r)"
  "unmarshal_dom (Inr (Inl (r, fv, ty))) \<Longrightarrow>
    (\<And>u v r'. unmarshalSwitch r fv ty = (Ok u, v, r') \<Longrightarrow> reader_len r' \<le> reader_len r)"
  "unmarshal_dom (Inr (Inr (r, fv, t))) \<Longrightarrow>
    (\<And>u v r'. unmarshalSlice r fv t = (Ok u, v, r') \<Longrightarrow> reader_len r' \<le> reader_len r)"
proof (induction r fs and r fv ty and r fv ty and r fv t
    rule: unmarshalFields_unmarshalValue_unmarshalSwitch_unmarshalSlice.pinduct)
  case (1 r fs)
  obtain x r1 where n: "Next r = (x, r1)" by fastforce
  have le: "reader_len r1 \<le> reader_len r" using Next_len [of r] n by simp
  show ?case
  proof (cases x)
    case (Ok y)
    have "reader_len r' \<le> reader_len r1"
      using "1.prems" n Ok "1.hyps" "1.IH"(1) [OF n [symmetric] Ok] "1.IH"(2,3) [OF n [symmetric] Ok]
      by (simp add: unmarshalFields.psimps split: if_splits option.splits prod.splits res.splits)
        (fastforce dest: skipElement_shrinks)+
    with le show ?thesis by simp
  qed (use "1.prems" n "1.hyps" le in \<open>auto simp: unmarshalFields.psimps next_error_def\<close>)
next
  case (2 r fv ty)
  then show ?case
    by (cases fv) (auto simp: unmarshalValue.psimps split: if_splits prod.splits)
next
  case (3 r fv ty)
  then show ?case
    by (auto simp: unmarshalSwitch.psimps dest: unmarshalLeaf_shrinks split: if_splits prod.splits option.splits)
next
  case (4 r fv t)
  obtain x r1 where n: "Next r = (x, r1)" by fastforce
  have le: "reader_len r1 \<le> reader_len r" using Next_len [of r] n by simp
  show ?case
  proof (cases x)
    case (Ok y)
    have "reader_len r' \<le> reader_len r1"
      using "4.prems" n Ok "4.hyps" "4.IH"(1) [OF n [symmetric] Ok] "4.IH"(2,3) [OF n [symmetric] Ok]
      by (simp add: unmarshalSlice.psimps split: if_splits option.splits prod.splits res.splits)
        (fastforce dest: unmarshalElem_shrinks)+
    with le show ?thesis by simp
  qed (use "4.prems" n "4.hyps" le in \<open>auto simp: unmarshalSlice.psimps next_error_def\<close>)
qed

lemma Next_len_less: "(Ok u, r') = Next r \<Longrightarrow> reader_len r' < reader_len r"
  using Next_reader_len [of r u r'] by simp

termination unmarshalFields
proof (relation "measures
      [\<lambda>x. case x of
         Inl (Inl (r, fs)) \<Rightarrow> reader_len r
       | Inl (Inr (r, fv, ty)) \<Rightarrow> reader_len r
       | Inr (Inl (r, fv, ty)) \<Rightarrow> reader_len r
       | Inr (Inr (r, fv, t)) \<Rightarrow> reader_len r,
       \<lambda>x. case x of
         Inl (Inl (r, fs)) \<Rightarrow> 1
       | Inl (Inr (r, fv, ty)) \<Rightarrow> gsize fv + 3
       | Inr (Inl (r, fv, ty)) \<Rightarrow> 2
       | Inr (Inr (r, fv, t)) \<Rightarrow> 1]", simp_all, goal_cases)
  case (1 r fs x r1 u r2)
  from Next_len_less [OF 1(1)] skipElement_shrinks [OF 1(5) [symmetric]] show ?case by simp
next
  case (3 r fs x r1 it i ty u z v r2)
  from Next_len_less [OF 3(1)] unmarshal_shrinks(2) [OF 3(9), of "()" v r2] 3(6,8) show ?case by simp
next
  case (6 r t x r1 u z v r2)
  have eq: "(case as_struct (zero (elem_of_ptr t)) of
      None \<Rightarrow> unmarshalElem r1 (elem_of_ptr t)
    | Some fs \<Rightarrow> (case unmarshalFields r1 fs of
        (x, fs', r'') \<Rightarrow> (x, put_struct (zero (elem_of_ptr t)) fs', r''))) = (Ok (), v, r2)"
    using 6(5,7) by simp
  have "reader_len r2 \<le> reader_len r1"
  proof (cases "as_struct (zero (elem_of_ptr t))")
    case None
    with eq show ?thesis by (auto dest: unmarshalElem_shrinks)
  next
    case (Some fs)
    with eq 6(8) show ?thesis by (auto split: prod.splits dest: unmarshal_shrinks(1))
  qed
  with Next_len_less [OF 6(1)] show ?case by simp
qed (rule Next_len_less, assumption)+

declare unmarshalFields.simps [simp del] unmarshalValue.simps [simp del]
  unmarshalSwitch.simps [simp del] unmarshalSlice.simps [simp del]

text \<open>The target is a pointer; the result is the target after the call.\<close>

definition Unmarshal :: "byte list \<Rightarrow> goval \<Rightarrow> unit res \<times> goval" where
  "Unmarshal data v =
     (case v of
        GPtr t (Some rv) \<Rightarrow>
          (case as_struct rv of
             None \<Rightarrow> (Err (Errorw (''unmarshal requires pointer to struct, got pointer to '' @ Kind t)
                        ErrUnsupportedType), v)
           | Some fs \<Rightarrow>
               (case Next (NewReader data) of
                  (Err e, r) \<Rightarrow> (Err (Errorw ''reading opening element'' e), v)
                | (Panic, r) \<Rightarrow> (Panic, v)
                | (Ok _, r) \<Rightarrow>
                    if Reader_Type r \<noteq> TypeStructure then
                      (Err (Errorw (''expected structure, got '' @ ElementType_String (Reader_Type r))
                         ErrInvalidType), v)
                    else (case unmarshalFields r fs of
                            (x, fs', r') \<Rightarrow> (x, GPtr t (Some (put_struct rv fs'))))))
      | _ \<Rightarrow> (Err (Errorw (''unmarshal requires non-nil pointer, got '' @ type_name (typeof v))
                ErrUnsupportedType), v))"

end
