(* ===== verification/Tlv_Roundtrip.thy ===== *)
theory Tlv_Roundtrip
  imports Tlv_Unmarshal
begin

text \<open>
  \<^verbatim>\<open>Marshal\<close> against \<^verbatim>\<open>Unmarshal\<close>.  The predicate \<open>wire_value\<close> says when the tag type of a field can
  carry its value; the main lemma (\<open>wire_tree\<close>) gives for such a value the element tree that
  \<^verbatim>\<open>marshalValue\<close> writes and that \<^verbatim>\<open>unmarshalValue\<close> turns back into the value.
\<close>

subsection \<open>Values a tag type can carry\<close>

fun elem_kind :: "bool \<Rightarrow> goval \<Rightarrow> string" where
  "elem_kind aslist (GInt n x) = ''int''"
| "elem_kind aslist (GUint n x) = ''uint''"
| "elem_kind aslist (GBool b) = ''bool''"
| "elem_kind aslist (GString s) = ''utf8''"
| "elem_kind aslist (GBytes bs) = ''octets''"
| "elem_kind aslist (GStruct n fs) = (if aslist then ''liststruct'' else ''struct'')"
| "elem_kind aslist v = ''''"

definition tag_numbers :: "fieldvals \<Rightarrow> byte list" where
  "tag_numbers fs = map fst (List.map_filter field_entry fs)"

definition not_null :: "Tlv \<Rightarrow> bool" where
  "not_null t \<longleftrightarrow> (\<forall>tag. t \<noteq> Leaf tag VNil)"

inductive
  wire_value :: "string \<Rightarrow> goval \<Rightarrow> bool"
  and wire_field :: "string \<times> string \<times> goval \<Rightarrow> bool"
  and wire_elem :: "bool \<Rightarrow> gotype \<Rightarrow> goval \<Rightarrow> bool" where
  W_int: "signed_take_bit (n - 1) x = x \<Longrightarrow> wire_value ''int'' (GInt n x)"
| W_uint: "take_bit n x = x \<Longrightarrow> wire_value ''uint'' (GUint n x)"
| W_bool: "wire_value ''bool'' (GBool b)"
| W_utf8: "length s \<le> max_alloc \<Longrightarrow> wire_value ''utf8'' (GString s)"
| W_octets: "length bs \<le> max_alloc \<Longrightarrow> wire_value ''octets'' (GBytes bs)"
| W_rawstruct: "wf_forest ts \<Longrightarrow> wire_value ''rawstruct'' (GBytes (forest_bytes ts))"
| W_rawtlv: "wf_tlv t \<Longrightarrow> root_tag t = AnonymousTag \<Longrightarrow> not_null t \<Longrightarrow>
    wire_value ''rawtlv'' (GBytes (tlv_bytes t))"
| W_struct: "ty = ''struct'' \<or> ty = ''liststruct'' \<Longrightarrow> distinct (tag_numbers fs) \<Longrightarrow>
    (\<forall>f \<in> set fs. wire_field f) \<Longrightarrow> wire_value ty (GStruct n fs)"
| W_slice: "slice_tag ty \<Longrightarrow> t \<noteq> KUint 8 \<Longrightarrow>
    (\<forall>v \<in> set vs. wire_elem (ty = ''listarray'' \<or> ty = ''listlist'') t v) \<Longrightarrow>
    wire_value ty (GSlice t vs)"
| F_untagged: "untagged tagStr \<Longrightarrow> v = zero (typeof v) \<Longrightarrow> wire_field (name, tagStr, v)"
| F_plain: "field_entry (name, tagStr, v) = Some (n, ty) \<Longrightarrow> wire_value ty v \<Longrightarrow>
    wire_field (name, tagStr, v)"
| F_no_raw: "field_entry (name, tagStr, v) = Some (n, ''rawtlv'') \<Longrightarrow> v = GBytes [] \<Longrightarrow>
    wire_field (name, tagStr, v)"
| F_nil: "field_entry (name, tagStr, v) = Some (n, ty) \<Longrightarrow> v = GPtr t None \<Longrightarrow>
    (\<forall>u. t \<noteq> KOptional u) \<Longrightarrow> wire_field (name, tagStr, v)"
| F_pointer: "field_entry (name, tagStr, v) = Some (n, ty) \<Longrightarrow> v = GPtr (typeof u) (Some u) \<Longrightarrow>
    wire_value ty u \<Longrightarrow> wire_field (name, tagStr, v)"
| F_absent: "field_entry (name, tagStr, v) = Some (n, ty) \<Longrightarrow> v = zero (KOptional t) \<Longrightarrow>
    wire_field (name, tagStr, v)"
| F_null: "field_entry (name, tagStr, v) = Some (n, ty) \<Longrightarrow> v = OptionalNull t \<Longrightarrow>
    wire_field (name, tagStr, v)"
| F_present: "field_entry (name, tagStr, v) = Some (n, ty) \<Longrightarrow> v = OptionalValue u \<Longrightarrow>
    wire_value ty u \<Longrightarrow> wire_field (name, tagStr, v)"
| E_value: "wire_value (elem_kind aslist v) v \<Longrightarrow> wire_elem aslist (typeof v) v"
| E_pointer: "wire_value (elem_kind aslist v) v \<Longrightarrow> wire_elem aslist (KPtr (typeof v)) (GPtr (typeof v) (Some v))"
| E_nil: "wire_elem aslist (KPtr t) (GPtr t None)"

definition zero_fields :: "fieldvals \<Rightarrow> fieldvals" where
  "zero_fields = map (\<lambda>(name, tag, v). (name, tag, zero (typeof v)))"

lemma zero_struct: "zero (typeof (GStruct n fs)) = GStruct n (zero_fields fs)"
  by (simp add: zero_fields_def split_def)

subsection \<open>The field map\<close>

lemma tag_numbers_simps:
  "tag_numbers [] = []"
  "tag_numbers (f # fs) = (case field_entry f of None \<Rightarrow> tag_numbers fs | Some e \<Rightarrow> fst e # tag_numbers fs)"
  by (auto simp: tag_numbers_def List.map_filter_simps split: option.splits)

lemma buildFieldMap_other: "n \<notin> set (tag_numbers fs) \<Longrightarrow> buildFieldMap i fs m n = m n"
  by (induction i fs m rule: buildFieldMap.induct) (auto simp: tag_numbers_simps split: option.splits)

lemma buildFieldMap_here:
  assumes "distinct (tag_numbers (pre @ f # fs))" and "field_entry f = Some (n, ty)"
  shows "buildFieldMap i (pre @ f # fs) m n = Some (i + length pre, ty)"
  using assms
proof (induction pre arbitrary: i m)
  case Nil
  then show ?case by (simp add: tag_numbers_simps buildFieldMap_other)
next
  case (Cons g pre)
  from Cons.prems have "distinct (tag_numbers (pre @ f # fs))"
    by (auto simp: tag_numbers_simps split: option.splits)
  from Cons.IH [OF this Cons.prems(2)] show ?case by (simp add: split_def)
qed

lemma tag_numbers_append: "tag_numbers (fs @ gs) = tag_numbers fs @ tag_numbers gs"
  by (induction fs) (auto simp: tag_numbers_simps split: option.splits)

lemma tag_numbers_zero [simp]: "tag_numbers (zero_fields fs) = tag_numbers fs"
  by (induction fs) (auto simp: tag_numbers_simps zero_fields_def split: option.splits)

lemma set_field_here [simp]:
  "set_field (pre @ (name, tagStr, u) # fs) (length pre) v = pre @ (name, tagStr, v) # fs"
  "field_val (pre @ (name, tagStr, u) # fs) (length pre) = u"
  by (simp_all add: set_field_def field_val_def)

subsection \<open>Unknown elements are skipped\<close>

lemma skip_one:
  assumes "wf_tlv u" and "at r (tlv_bytes u @ rest)"
  shows "\<exists>r1 e. Next r = (Ok (), r1) \<and> Reader_Type r1 \<noteq> TypeEndOfContainer \<and> TagValue r1 = root_tag u \<and>
    skipElement r1 = (Ok (), r\<lparr>r_src := rest, r_elem := e\<rparr>)"
proof -
  obtain r1 where "Next r = (Ok (), r1)" "Reader_Type r1 \<noteq> TypeEndOfContainer" "TagValue r1 = root_tag u"
    using reencode_tree(1) [OF assms wf_tag_AnonymousTag] by blast
  with skipElement_tree [OF assms] show ?thesis by blast
qed

text \<open>An element whose tag number is none of the struct's.\<close>

definition tag_number :: "Tlv \<Rightarrow> byte" where
  "tag_number u = ucast (t_TagNum (root_tag u))"

definition known :: "fieldvals \<Rightarrow> Tlv \<Rightarrow> bool" where
  "known fs u \<longleftrightarrow> tag_number u \<in> set (tag_numbers fs)"

lemma unmarshalFields_unknown:
  assumes "wf_tlv u" and "at r (tlv_bytes u @ rest)" and "\<not> known fs u"
  shows "\<exists>e. unmarshalFields r fs = unmarshalFields (r\<lparr>r_src := rest, r_elem := e\<rparr>) fs"
proof -
  obtain r1 e where n: "Next r = (Ok (), r1)" "Reader_Type r1 \<noteq> TypeEndOfContainer"
    "TagValue r1 = root_tag u" "skipElement r1 = (Ok (), r\<lparr>r_src := rest, r_elem := e\<rparr>)"
    using skip_one [OF assms(1,2)] by auto
  moreover have "lookup_field fs r1 = None"
    using assms(3) n(3) by (simp add: lookup_field_def known_def tag_number_def buildFieldMap_other)
  ultimately show ?thesis by (subst unmarshalFields.simps) auto
qed

lemma unmarshalFields_unknowns:
  assumes "wf_forest us" and "at r (forest_bytes us @ rest)" and "\<forall>u \<in> set us. \<not> known fs u"
  shows "\<exists>e. unmarshalFields r fs = unmarshalFields (r\<lparr>r_src := rest, r_elem := e\<rparr>) fs"
  using assms
proof (induction us arbitrary: r)
  case Nil
  then have "r\<lparr>r_src := rest, r_elem := r_elem r\<rparr> = r" by (simp add: at_def)
  then show ?case by metis
next
  case (Cons u us)
  obtain e where e: "unmarshalFields r fs
      = unmarshalFields (r\<lparr>r_src := forest_bytes us @ rest, r_elem := e\<rparr>) fs"
    using unmarshalFields_unknown [of u r "forest_bytes us @ rest" fs] Cons.prems by auto
  moreover have "at (r\<lparr>r_src := forest_bytes us @ rest, r_elem := e\<rparr>) (forest_bytes us @ rest)"
    using Cons.prems(2) by (simp add: at_def)
  from Cons.IH [OF _ this] Cons.prems(1,3) obtain e' where
    "unmarshalFields (r\<lparr>r_src := forest_bytes us @ rest, r_elem := e\<rparr>) fs
      = unmarshalFields (r\<lparr>r_src := rest, r_elem := e'\<rparr>) fs" by auto
  ultimately show ?case by auto
qed

subsection \<open>One field\<close>

text \<open>\<open>decodes\<close>: after \<^verbatim>\<open>Next\<close> on the tree, the call turns \<open>v0\<close> into \<open>v\<close> and leaves what follows.\<close>

definition decodes :: "(Reader \<Rightarrow> goval \<Rightarrow> unit res \<times> goval \<times> Reader) \<Rightarrow> Tlv \<Rightarrow> goval \<Rightarrow> goval \<Rightarrow> bool" where
  "decodes f t v0 v \<longleftrightarrow>
     (\<forall>r r1 rest. at r (tlv_bytes t @ rest) \<longrightarrow> Next r = (Ok (), r1) \<longrightarrow>
        (\<exists>e. f r1 v0 = (Ok (), v, r\<lparr>r_src := rest, r_elem := e\<rparr>)))"

definition writes :: "(Writer \<Rightarrow> unit res \<times> Writer) \<Rightarrow> byte list \<Rightarrow> bool" where
  "writes f bs \<longleftrightarrow> (\<forall>w. f w = (Ok (), w\<lparr>w_buf := w_buf w @ bs\<rparr>))"

definition value_tree :: "string \<Rightarrow> goval \<Rightarrow> Tag \<Rightarrow> Tlv \<Rightarrow> bool" where
  "value_tree ty v tag t \<longleftrightarrow>
     wf_tlv t \<and> root_tag t = tag \<and> not_null t \<and>
     (\<forall>name. writes (\<lambda>w. marshalValue w tag v ty name) (tlv_bytes t)) \<and>
     decodes (\<lambda>r v0. unmarshalSwitch r v0 ty) t (zero (typeof v)) v"

definition field_trees :: "string \<times> string \<times> goval \<Rightarrow> Tlv list \<Rightarrow> bool" where
  "field_trees f ts \<longleftrightarrow>
     (\<forall>w fs. marshalFields w (f # fs) = marshalFields (w\<lparr>w_buf := w_buf w @ forest_bytes ts\<rparr>) fs) \<and>
     (case field_entry f of
        None \<Rightarrow> ts = [] \<and> snd (snd f) = zero (typeof (snd (snd f)))
      | Some (n, ty) \<Rightarrow>
          (ts = [] \<and> snd (snd f) = zero (typeof (snd (snd f)))) \<or>
          (\<exists>t. ts = [t] \<and> wf_tlv t \<and> tag_number t = n \<and>
             decodes (\<lambda>r v0. unmarshalValue r v0 ty) t (zero (typeof (snd (snd f)))) (snd (snd f))))"

text \<open>The loop of \<^verbatim>\<open>unmarshalFields\<close>: the fields \<open>pre\<close> are filled in, those of \<open>fs\<close> still zero.\<close>

lemma fields_decode:
  assumes "list_all2 field_trees fs tss" and "distinct (tag_numbers (pre @ fs @ post))"
    and "wf_forest us" and "filter (known (pre @ fs @ post)) us = concat tss"
    and "at r (forest_bytes us @ rest)"
  shows "\<exists>e. unmarshalFields r (pre @ zero_fields fs @ post)
    = unmarshalFields (r\<lparr>r_src := rest, r_elem := e\<rparr>) (pre @ fs @ post)"
  using assms
proof (induction fs tss arbitrary: pre us r rule: list_all2_induct)
  case Nil
  then have "\<forall>u \<in> set us. \<not> known (pre @ post) u" by (auto simp: filter_empty_conv)
  from unmarshalFields_unknowns [OF Nil.prems(2,4) this] show ?case by (simp add: zero_fields_def)
next
  case (Cons f fs ts tss)
  obtain name tagStr v where f: "f = (name, tagStr, v)" by (cases f)
  have zf: "zero_fields (f # fs) = (name, tagStr, zero (typeof v)) # zero_fields fs"
    by (simp add: zero_fields_def f)
  show ?case
  proof (cases ts)
    case Nil
    with Cons.hyps(1) have "zero (typeof v) = v"
      by (auto simp: field_trees_def f split: option.splits)
    with Cons.IH [of "pre @ [f]" us r] Cons.prems Nil zf show ?thesis by (simp add: f)
  next
    case (Cons t ts')
    from Cons.hyps(1) this obtain n ty where ts: "ts = [t]" "wf_tlv t" "tag_number t = n"
      and entry: "field_entry f = Some (n, ty)"
      and dec: "decodes (\<lambda>r v0. unmarshalValue r v0 ty) t (zero (typeof v)) v"
      by (auto simp: field_trees_def f split: option.splits)
    obtain us1 us2 where us: "us = us1 @ t # us2" "\<forall>u \<in> set us1. \<not> known (pre @ f # fs @ post) u"
      "filter (known (pre @ f # fs @ post)) us2 = concat tss"
      using Cons.prems(3) ts(1) by (auto simp: filter_eq_Cons_iff)
    let ?rest = "forest_bytes us2 @ rest"
    let ?z = "pre @ (name, tagStr, zero (typeof v)) # zero_fields fs @ post"
    have kz: "known ?z = known (pre @ f # fs @ post)"
      by (rule ext) (simp add: known_def tag_numbers_append tag_numbers_simps f split: option.splits)
    obtain e1 where skip: "unmarshalFields r ?z
        = unmarshalFields (r\<lparr>r_src := tlv_bytes t @ ?rest, r_elem := e1\<rparr>) ?z"
      using unmarshalFields_unknowns [of us1 r "tlv_bytes t @ ?rest" ?z] Cons.prems(2,4) us(1,2)
      by (auto simp: kz)
    let ?r = "r\<lparr>r_src := tlv_bytes t @ ?rest, r_elem := e1\<rparr>"
    have at: "at ?r (tlv_bytes t @ ?rest)" using Cons.prems(4) by (simp add: at_def)
    obtain r1 where n: "Next ?r = (Ok (), r1)" "Reader_Type r1 \<noteq> TypeEndOfContainer"
      "TagValue r1 = root_tag t"
      using skip_one [OF ts(2) at] by auto
    obtain e2 where val: "unmarshalValue r1 (zero (typeof v)) ty
        = (Ok (), v, ?r\<lparr>r_src := ?rest, r_elem := e2\<rparr>)"
      using dec at n(1) unfolding decodes_def by blast
    have "lookup_field ?z r1 = Some (length pre, ty)"
      using buildFieldMap_here [of pre "(name, tagStr, zero (typeof v))" "zero_fields fs @ post" n ty 0 Map.empty]
        Cons.prems(1) entry n(3) ts(3)
      by (simp add: lookup_field_def tag_number_def tag_numbers_append tag_numbers_simps f)
    with n val have step: "unmarshalFields ?r ?z
        = unmarshalFields (r\<lparr>r_src := ?rest, r_elem := e2\<rparr>) (pre @ f # zero_fields fs @ post)"
      by (subst unmarshalFields.simps) (simp add: f)
    from Cons.IH [of "pre @ [f]" us2 "r\<lparr>r_src := ?rest, r_elem := e2\<rparr>"] Cons.prems us
    obtain e where "unmarshalFields (r\<lparr>r_src := ?rest, r_elem := e2\<rparr>) (pre @ f # zero_fields fs @ post)
        = unmarshalFields (r\<lparr>r_src := rest, r_elem := e\<rparr>) (pre @ f # fs @ post)"
      by (auto simp: at_def)
    with skip step zf show ?thesis by auto
  qed
qed

text \<open>The loop ends at the end marker of its container, and as well at the end of the input.\<close>

lemma fields_end:
  "at r (TypeEndOfContainer # rest) \<Longrightarrow> r_containers r = ds @ [k] \<Longrightarrow>
    \<exists>e. unmarshalFields r fs = (Ok (), fs, r\<lparr>r_src := rest, r_containers := ds, r_elem := e\<rparr>)"
  using Next_close_at [of r rest ds k] by (subst unmarshalFields.simps) (auto simp: Reader_Type_def)

lemma fields_eof: "at r [] \<Longrightarrow> unmarshalFields r fs = (Ok (), fs, r\<lparr>r_src := [], r_done := True\<rparr>)"
  by (subst unmarshalFields.simps) (simp add: at_def Next_def ReadFull_def next_error_def)

lemma fields_encode:
  "list_all2 field_trees fs tss \<Longrightarrow> writes (\<lambda>w. marshalFields w fs) (forest_bytes (concat tss))"
  by (induction fs tss rule: list_all2_induct) (auto simp: writes_def field_trees_def)

subsection \<open>The trees of values\<close>

lemma to_res_Ok_iff: "to_res m = (Ok (), w) \<longleftrightarrow> m = (w, None)"
  by (cases m; cases "snd m") (auto simp: to_res_def)

lemma writes_to_res: "writes (\<lambda>w. to_res (m w)) bs \<longleftrightarrow> (\<forall>w. m w = emits w bs)"
  by (simp add: writes_def to_res_Ok_iff emits_def)

lemma leaf_tree:
  assumes "wf_tag tag" and "value_ok x" and "x \<noteq> VNil"
    and "\<And>w name. marshalValue w tag v ty name = to_res (put_value w tag x)"
    and "\<And>r. Reader_Value r = x \<Longrightarrow> unmarshalSwitch r (zero (typeof v)) ty = (Ok (), v, r)"
  shows "value_tree ty v tag (Leaf tag x)"
proof -
  have wf: "wf_tlv (Leaf tag x)" using assms(1,2) by simp
  have "decodes (\<lambda>r v0. unmarshalSwitch r v0 ty) (Leaf tag x) (zero (typeof v)) v"
    unfolding decodes_def using Next_leaf_at [OF wf] assms(5) by (auto simp: Reader_Value_def)
  moreover have "t_Type tag \<in> set tag_types" using assms(1) by (simp add: wf_tag_def)
  ultimately show ?thesis
    using assms wf by (simp add: value_tree_def not_null_def writes_to_res put_value_emits)
qed

text \<open>A container whose body the engine writes and reads.\<close>

lemma node_tree:
  assumes "wf_tag tag" and k: "k \<in> {TypeStructure, TypeArray, TypeList}" and "wf_forest ts"
    and m: "\<And>w name. marshalValue w tag v ty name =
      and_also (to_res (startContainer w k tag)) (\<lambda>w. and_also (body w) (\<lambda>w. to_res (EndContainer w)))"
    and b: "writes body (forest_bytes ts)"
    and d: "\<And>r ds rest. at r (forest_bytes ts @ TypeEndOfContainer # rest) \<Longrightarrow>
      r_containers r = ds @ [k] \<Longrightarrow> Reader_Type r = k \<Longrightarrow>
      \<exists>e. unmarshalSwitch r (zero (typeof v)) ty = (Ok (), v, r\<lparr>r_src := rest, r_containers := ds, r_elem := e\<rparr>)"
  shows "value_tree ty v tag (Node tag k ts)"
proof -
  have wf: "wf_tlv (Node tag k ts)" using assms(1-3) by simp
  have "writes (\<lambda>w. marshalValue w tag v ty name) (tlv_bytes (Node tag k ts))" for name
    using b unfolding writes_def m
    by (simp add: startContainer_emits [OF assms(1) k] EndContainer_emits to_res_def emits_def)
  moreover have "decodes (\<lambda>r v0. unmarshalSwitch r v0 ty) (Node tag k ts) (zero (typeof v)) v"
    unfolding decodes_def
  proof (intro allI impI)
    fix r r1 rest assume at: "at r (tlv_bytes (Node tag k ts) @ rest)" and n: "Next r = (Ok (), r1)"
    from Next_node_at [OF wf at] n have r1: "r1 = r\<lparr>r_src := forest_bytes ts @ TypeEndOfContainer # rest,
        r_containers := r_containers r @ [k], r_elem := \<lparr>e_Tag = tag, e_Type = k, e_Value = VNil\<rparr>\<rparr>" by simp
    from d [of r1 rest "r_containers r"] at
    show "\<exists>e. unmarshalSwitch r1 (zero (typeof v)) ty = (Ok (), v, r\<lparr>r_src := rest, r_elem := e\<rparr>)"
      by (auto simp: r1 at_def Reader_Type_def)
  qed
  ultimately show ?thesis using wf by (simp add: value_tree_def not_null_def)
qed

lemma marshalValue_containers:
  "as_struct v = Some fs \<Longrightarrow> ty = ''struct'' \<or> ty = ''liststruct'' \<Longrightarrow>
    marshalValue w tag v ty name =
      and_also (to_res (startContainer w (if ty = ''struct'' then TypeStructure else TypeList) tag))
        (\<lambda>w. and_also (marshalFields w fs) (\<lambda>w. to_res (EndContainer w)))"
  "as_slice v = Some vs \<Longrightarrow> slice_tag ty \<Longrightarrow>
    marshalValue w tag v ty name =
      and_also (to_res (startContainer w (if ty = ''array'' \<or> ty = ''listarray'' then TypeArray else TypeList) tag))
        (\<lambda>w. and_also ((if ty = ''listarray'' \<or> ty = ''listlist'' then marshalSliceAsLists else marshalSlice) w vs)
          (\<lambda>w. to_res (EndContainer w)))"
  by (auto simp: marshalValue.simps startContainer_def slice_tag_def const_defs)

lemma struct_tree:
  assumes "wf_tag tag" and ty: "ty = ''struct'' \<or> ty = ''liststruct''" and "distinct (tag_numbers fs)"
    and ft: "list_all2 field_trees fs tss" and wf: "wf_forest (concat tss)"
    and known: "\<forall>t \<in> set (concat tss). known fs t"
  shows "value_tree ty (GStruct n fs) tag
    (Node tag (if ty = ''struct'' then TypeStructure else TypeList) (concat tss))"
proof (rule node_tree [OF assms(1) _ wf])
  fix r ds rest
  assume r: "at r (forest_bytes (concat tss) @ TypeEndOfContainer # rest)"
    "r_containers r = ds @ [if ty = ''struct'' then TypeStructure else TypeList]"
    "Reader_Type r = (if ty = ''struct'' then TypeStructure else TypeList)"
  have "filter (known ([] @ fs @ [])) (concat tss) = concat tss" using known by (simp add: filter_id_conv)
  from fields_decode [OF ft _ wf this r(1)] assms(3) obtain e where
    "unmarshalFields r (zero_fields fs) = unmarshalFields (r\<lparr>r_src := TypeEndOfContainer # rest, r_elem := e\<rparr>) fs"
    by auto
  with fields_end [of "r\<lparr>r_src := TypeEndOfContainer # rest, r_elem := e\<rparr>" rest ds] r(1,2) obtain e where
    "unmarshalFields r (zero_fields fs) = (Ok (), fs, r\<lparr>r_src := rest, r_containers := ds, r_elem := e\<rparr>)"
    by (auto simp: at_def)
  moreover have "struct_tag r ty" using ty r(3) by (auto simp: struct_tag_def)
  ultimately show "\<exists>e. unmarshalSwitch r (zero (typeof (GStruct n fs))) ty
      = (Ok (), GStruct n fs, r\<lparr>r_src := rest, r_containers := ds, r_elem := e\<rparr>)"
    by (auto simp: unmarshalSwitch.simps zero_struct simp del: typeof.simps zero.simps)
next
  show "writes (\<lambda>w. marshalFields w fs) (forest_bytes (concat tss))" by (rule fields_encode [OF ft])
qed (use ty in \<open>simp_all add: marshalValue_containers(1)\<close>)

lemma rawtlv_writes:
  assumes "wf_tag tag" and "wf_tlv t" and "root_tag t = AnonymousTag"
  shows "writes (\<lambda>w. marshalValue w tag (GBytes (tlv_bytes t)) ''rawtlv'' name) (tlv_bytes (retag tag t))"
  unfolding writes_def
proof
  fix w
  have "tlv_bytes t \<noteq> []" by (cases t) (simp_all add: elem_bytes_def head_bytes_def)
  with reencode_tree(1) [OF assms(2) _ assms(1), of "NewReader (tlv_bytes t)" "[]" w]
  show "marshalValue w tag (GBytes (tlv_bytes t)) ''rawtlv'' name
      = (Ok (), w\<lparr>w_buf := w_buf w @ tlv_bytes (retag tag t)\<rparr>)"
    by (auto simp: marshalValue.simps)
qed

lemma raw_trees:
  assumes "wf_tag tag"
  shows "wf_forest ts \<Longrightarrow> value_tree ''rawstruct'' (GBytes (forest_bytes ts)) tag (Node tag TypeStructure ts)"
    and "wf_tlv t \<Longrightarrow> root_tag t = AnonymousTag \<Longrightarrow> not_null t \<Longrightarrow>
      value_tree ''rawtlv'' (GBytes (tlv_bytes t)) tag (retag tag t)"
proof -
  assume ts: "wf_forest ts"
  have wf: "wf_tlv (Node tag TypeStructure ts)" using ts assms by simp
  have "t_Type tag \<in> set tag_types" using assms by (simp add: wf_tag_def)
  then have w: "writes (\<lambda>w. marshalValue w tag (GBytes (forest_bytes ts)) ''rawstruct'' name)
      (tlv_bytes (Node tag TypeStructure ts))" for name
    by (simp add: marshalValue.simps writes_to_res PutPreEncodedStruct_emits)
  have "decodes (\<lambda>r v0. unmarshalSwitch r v0 ''rawstruct'') (Node tag TypeStructure ts)
      (GBytes []) (GBytes (forest_bytes ts))"
    unfolding decodes_def
  proof (intro allI impI)
    fix r r1 rest
    assume at: "at r (tlv_bytes (Node tag TypeStructure ts) @ rest)" and n: "Next r = (Ok (), r1)"
    from node_forest(1) [OF wf at n] node_forest(2) [OF wf at n, of "''reading rawstruct body''" NewWriter]
    show "\<exists>e. unmarshalSwitch r1 (GBytes []) ''rawstruct''
        = (Ok (), GBytes (forest_bytes ts), r\<lparr>r_src := rest, r_elem := e\<rparr>)"
      by (auto simp: unmarshalSwitch.simps struct_tag_def slice_tag_def unmarshalLeaf_def
          captureStructBody_def set_to_def Bytes_def NewWriter_def)
  qed
  with wf w show "value_tree ''rawstruct'' (GBytes (forest_bytes ts)) tag (Node tag TypeStructure ts)"
    by (simp add: value_tree_def not_null_def)
next
  assume t: "wf_tlv t" "root_tag t = AnonymousTag" "not_null t"
  have wf: "wf_tlv (retag tag t)" and root: "root_tag (retag tag t) = tag" and nn: "not_null (retag tag t)"
    and again: "retag AnonymousTag (retag tag t) = t"
    using t assms by (cases t; simp add: not_null_def)+
  note w = rawtlv_writes [OF assms t(1,2)]
  have "decodes (\<lambda>r v0. unmarshalSwitch r v0 ''rawtlv'') (retag tag t) (GBytes []) (GBytes (tlv_bytes t))"
    unfolding decodes_def
  proof (intro allI impI)
    fix r r1 rest
    assume at: "at r (tlv_bytes (retag tag t) @ rest)" and n: "Next r = (Ok (), r1)"
    from captureElement_tree [OF wf at n] again
    show "\<exists>e. unmarshalSwitch r1 (GBytes []) ''rawtlv''
        = (Ok (), GBytes (tlv_bytes t), r\<lparr>r_src := rest, r_elem := e\<rparr>)"
      by (auto simp: unmarshalSwitch.simps struct_tag_def slice_tag_def unmarshalLeaf_def set_to_def)
  qed
  with wf w root nn show "value_tree ''rawtlv'' (GBytes (tlv_bytes t)) tag (retag tag t)"
    by (simp add: value_tree_def)
qed

lemmas leaf_simps = marshalValue.simps unmarshalSwitch.simps struct_tag_def slice_tag_def unmarshalLeaf_def
  set_to_def assign_int_def assign_uint_def assign_bool_def assign_string_def assign_bytes_def value_ok_def

lemma scalar_trees:
  assumes "wf_tag tag"
  shows "signed_take_bit (n - 1) x = x \<Longrightarrow> value_tree ''int'' (GInt n x) tag (Leaf tag (VInt64 x))"
    and "take_bit n x = x \<Longrightarrow> value_tree ''uint'' (GUint n x) tag (Leaf tag (VUint64 x))"
    and "value_tree ''bool'' (GBool b) tag (Leaf tag (VBool b))"
    and "length s \<le> max_alloc \<Longrightarrow> value_tree ''utf8'' (GString s) tag (Leaf tag (VString s))"
    and "length s \<le> max_alloc \<Longrightarrow> value_tree ''octets'' (GBytes s) tag (Leaf tag (VBytes s))"
  by (rule leaf_tree [OF assms]; simp add: leaf_simps)+

subsection \<open>Slices\<close>

definition elem_writer :: "bool \<Rightarrow> Writer \<Rightarrow> goval list \<Rightarrow> unit res \<times> Writer" where
  "elem_writer aslist = (if aslist then marshalSliceAsLists else marshalSlice)"

definition elem_tree :: "bool \<Rightarrow> gotype \<Rightarrow> goval \<Rightarrow> Tlv \<Rightarrow> bool" where
  "elem_tree aslist et v t \<longleftrightarrow>
     wf_tlv t \<and>
     (\<forall>w vs. elem_writer aslist w (v # vs) = elem_writer aslist (w\<lparr>w_buf := w_buf w @ tlv_bytes t\<rparr>) vs) \<and>
     (\<forall>r rest acc. at r (tlv_bytes t @ rest) \<longrightarrow>
        (\<exists>e. unmarshalSlice r (GSlice et acc) et
           = unmarshalSlice (r\<lparr>r_src := rest, r_elem := e\<rparr>) (GSlice et (acc @ [v])) et))"

lemma and_also_assoc: "and_also (and_also m k) l = and_also m (\<lambda>w. and_also (k w) l)"
  by (auto simp: and_also_def split: prod.splits res.splits)

lemma elem_writer_step:
  assumes "elem_kind aslist v \<noteq> ''''" and "deref u = Some v"
  shows "elem_writer aslist w (u # vs)
    = and_also (marshalValue w AnonymousTag v (elem_kind aslist v) name) (\<lambda>w. elem_writer aslist w vs)"
  using assms
  by (cases v)
    (auto simp: elem_writer_def marshalSlice.simps marshalSliceAsLists.simps marshalArrayElement.simps
      marshalValue.simps and_also_assoc)

lemma elem_decode:
  assumes "elem_kind aslist v \<noteq> ''''"
    and "unmarshalSwitch r (zero (typeof v)) (elem_kind aslist v) = (Ok (), v', r')"
  shows "(case as_struct (zero (typeof v)) of
      None \<Rightarrow> unmarshalElem r (typeof v)
    | Some fs \<Rightarrow> (case unmarshalFields r fs of (x, fs', r'') \<Rightarrow> (x, put_struct (zero (typeof v)) fs', r'')))
    = (Ok (), v', r')"
  using assms
  by (cases v) (auto simp: unmarshalSwitch.simps unmarshalElem_def unmarshalLeaf_def struct_tag_def
      slice_tag_def split: if_splits)

lemma value_type_null: "value_type x = TypeNull \<longleftrightarrow> x = VNil"
  by (cases x) (auto simp: width_code_def const_defs split: if_splits)

lemma not_null_Reader_Type:
  assumes "wf_tlv t" and "not_null t" and "at r (tlv_bytes t @ rest)" and "Next r = (Ok (), r1)"
  shows "Reader_Type r1 \<noteq> TypeNull"
proof (cases t)
  case (Leaf tag x)
  with assms Next_leaf_at [of tag x r rest] show ?thesis
    by (auto simp: Reader_Type_def value_type_null not_null_def)
next
  case (Node tag k ts)
  with assms Next_node_at [of tag k ts r rest] show ?thesis
    by (auto simp: Reader_Type_def const_defs)
qed

lemma slice_step:
  assumes "wf_tlv t" and "not_null t" and "at r (tlv_bytes t @ rest)"
    and "elem_kind aslist v \<noteq> ''''" and "elem_of_ptr et = typeof v"
    and "decodes (\<lambda>r v0. unmarshalSwitch r v0 (elem_kind aslist v)) t (zero (typeof v)) v"
  shows "\<exists>e. unmarshalSlice r (GSlice et acc) et
    = unmarshalSlice (r\<lparr>r_src := rest, r_elem := e\<rparr>) (GSlice et (acc @ [wrap_elem et v])) et"
proof -
  obtain r1 where n: "Next r = (Ok (), r1)" "Reader_Type r1 \<noteq> TypeEndOfContainer"
    using skip_one [OF assms(1,3)] by auto
  obtain e where "unmarshalSwitch r1 (zero (typeof v)) (elem_kind aslist v)
      = (Ok (), v, r\<lparr>r_src := rest, r_elem := e\<rparr>)"
    using assms(3,6) n(1) unfolding decodes_def by blast
  note elem_decode [OF assms(4) this, folded assms(5)]
  with n not_null_Reader_Type [OF assms(1-3) n(1)] show ?thesis
    by (subst unmarshalSlice.simps) auto
qed

lemma elem_trees:
  assumes "value_tree (elem_kind aslist v) v AnonymousTag t" and "elem_kind aslist v \<noteq> ''''"
  shows "elem_tree aslist (typeof v) v t" and "elem_tree aslist (KPtr (typeof v)) (GPtr (typeof v) (Some v)) t"
proof -
  have t: "wf_tlv t" "not_null t" "\<And>w name. marshalValue w AnonymousTag v (elem_kind aslist v) name
      = (Ok (), w\<lparr>w_buf := w_buf w @ tlv_bytes t\<rparr>)"
    and d: "decodes (\<lambda>r v0. unmarshalSwitch r v0 (elem_kind aslist v)) t (zero (typeof v)) v"
    using assms(1) by (simp_all add: value_tree_def writes_def)
  have np: "deref v = Some v" "elem_of_ptr (typeof v) = typeof v" "\<not> is_ptr (typeof v)"
    using assms(2) by (cases v; simp)+
  show "elem_tree aslist (typeof v) v t"
    using slice_step [OF t(1,2) _ assms(2) np(2) d] np t
    by (simp add: elem_tree_def elem_writer_step [OF assms(2), where name = "''''"] wrap_elem_def)
  show "elem_tree aslist (KPtr (typeof v)) (GPtr (typeof v) (Some v)) t"
    using slice_step [OF t(1,2) _ assms(2) _ d, of _ _ "KPtr (typeof v)"] t
    by (simp add: elem_tree_def elem_writer_step [OF assms(2), where name = "''''"] wrap_elem_def)
qed

lemma nil_elem_tree: "elem_tree aslist (KPtr t) (GPtr t None) (Leaf AnonymousTag VNil)"
proof -
  have wf: "wf_tlv (Leaf AnonymousTag VNil)" by (simp add: value_ok_def)
  have "t_Type AnonymousTag \<in> set tag_types" using wf_tag_AnonymousTag by (simp add: wf_tag_def)
  then have p: "to_res (PutNull w AnonymousTag) = (Ok (), w\<lparr>w_buf := w_buf w @ elem_bytes AnonymousTag VNil\<rparr>)"
    for w using put_value_emits [of AnonymousTag w VNil] by (simp add: to_res_def emits_def)
  have "\<exists>e. unmarshalSlice r (GSlice (KPtr t) acc) (KPtr t)
      = unmarshalSlice (r\<lparr>r_src := rest, r_elem := e\<rparr>) (GSlice (KPtr t) (acc @ [GPtr t None])) (KPtr t)"
    if "at r (tlv_bytes (Leaf AnonymousTag VNil) @ rest)" for r rest acc
    using Next_leaf_at [OF wf that]
    by (subst unmarshalSlice.simps) (auto simp: Reader_Type_def const_defs)
  with wf p show ?thesis
    by (auto simp: elem_tree_def elem_writer_def marshalSlice.simps marshalSliceAsLists.simps)
qed

lemma elems_encode:
  "list_all2 (elem_tree aslist et) vs ts \<Longrightarrow> writes (\<lambda>w. elem_writer aslist w vs) (forest_bytes ts)"
  by (induction vs ts rule: list_all2_induct) (auto simp: writes_def elem_tree_def elem_writer_def)

lemma elems_decode:
  assumes "list_all2 (elem_tree aslist et) vs ts"
    and "at r (forest_bytes ts @ TypeEndOfContainer # rest)" and "r_containers r = ds @ [k]"
  shows "\<exists>e. unmarshalSlice r (GSlice et acc) et
    = (Ok (), GSlice et (acc @ vs), r\<lparr>r_src := rest, r_containers := ds, r_elem := e\<rparr>)"
  using assms
proof (induction vs ts arbitrary: r acc rule: list_all2_induct)
  case Nil
  with Next_close_at [of r rest ds k] show ?case
    by (subst unmarshalSlice.simps) (auto simp: Reader_Type_def)
next
  case (Cons v vs t ts)
  from Cons.hyps(1) Cons.prems(1) obtain e where "unmarshalSlice r (GSlice et acc) et
      = unmarshalSlice (r\<lparr>r_src := forest_bytes ts @ TypeEndOfContainer # rest, r_elem := e\<rparr>)
          (GSlice et (acc @ [v])) et"
    unfolding elem_tree_def by fastforce
  with Cons.IH [of "r\<lparr>r_src := forest_bytes ts @ TypeEndOfContainer # rest, r_elem := e\<rparr>" "acc @ [v]"]
    Cons.prems show ?case by (auto simp: at_def)
qed

lemma slice_tree:
  assumes "wf_tag tag" and ty: "slice_tag ty" and "et \<noteq> KUint 8"
    and vs: "list_all2 (elem_tree (ty = ''listarray'' \<or> ty = ''listlist'') et) vs ts"
  shows "value_tree ty (GSlice et vs) tag
    (Node tag (if ty = ''array'' \<or> ty = ''listarray'' then TypeArray else TypeList) ts)"
proof (rule node_tree [OF assms(1)])
  show "wf_forest ts" using vs by (auto simp: elem_tree_def list_all2_conv_all_nth in_set_conv_nth)
  show "writes (\<lambda>w. elem_writer (ty = ''listarray'' \<or> ty = ''listlist'') w vs) (forest_bytes ts)"
    by (rule elems_encode [OF vs])
  have "\<not> struct_tag r ty" "ty \<noteq> ''liststruct''" for r
    using ty by (auto simp: struct_tag_def slice_tag_def)
  then show "\<exists>e. unmarshalSwitch r (zero (typeof (GSlice et vs))) ty
      = (Ok (), GSlice et vs, r\<lparr>r_src := rest, r_containers := ds, r_elem := e\<rparr>)"
    if "at r (forest_bytes ts @ TypeEndOfContainer # rest)"
      "r_containers r = ds @ [if ty = ''array'' \<or> ty = ''listarray'' then TypeArray else TypeList]" for r rest ds
    using elems_decode [OF vs that, of "[]"] ty by (simp add: unmarshalSwitch.simps)
qed (use ty in \<open>simp_all add: marshalValue_containers(2) elem_writer_def\<close>)

subsection \<open>Fields\<close>

lemma field_entry_Some:
  "field_entry (name, tagStr, v) = Some (n, ty) \<longleftrightarrow> \<not> untagged tagStr \<and> parseTag tagStr = Ok (n, ty)"
  by (auto split: res.splits)

declare field_entry.simps [simp del]

fun plain :: "goval \<Rightarrow> bool" where
  "plain (GPtr t p) = False"
| "plain (GOptional t st v) = False"
| "plain v = True"

lemma wire_value_plain: "wire_value ty v \<Longrightarrow> plain v"
  by (cases rule: wire_value.cases) auto

lemma plain_simps:
  "plain v \<Longrightarrow> deref v = Some v" "plain v \<Longrightarrow> optionalReader v = Ok None"
  by (cases v; simp)+

lemma unmarshalValue_plain:
  "plain v \<Longrightarrow> Reader_Type r \<noteq> TypeNull \<Longrightarrow>
    unmarshalValue r (zero (typeof v)) ty = unmarshalSwitch r (zero (typeof v)) ty"
  by (cases v) (auto simp: unmarshalValue.simps)

lemma tag_number_context [simp]: "ucast (t_TagNum (ContextTag n)) = n"
  by (simp add: ContextTag_def zero_tag_def ucast_ucast_small unat_ucast_up)

lemma value_tree_decodes:
  assumes "value_tree ty u tag t" and "plain u"
  shows "decodes (\<lambda>r v0. unmarshalValue r v0 ty) t (zero (typeof u)) u"
    and "decodes (\<lambda>r v0. unmarshalValue r v0 ty) t (GPtr (typeof u) None) (GPtr (typeof u) (Some u))"
    and "decodes (\<lambda>r v0. unmarshalValue r v0 ty) t (zero (KOptional (typeof u))) (OptionalValue u)"
proof -
  have t: "wf_tlv t" "not_null t" "decodes (\<lambda>r v0. unmarshalSwitch r v0 ty) t (zero (typeof u)) u"
    using assms(1) by (simp_all add: value_tree_def)
  have nn: "Reader_Type r1 \<noteq> TypeNull" if "at r (tlv_bytes t @ rest)" "Next r = (Ok (), r1)" for r r1 rest
    using not_null_Reader_Type [OF t(1,2) that] .
  show d: "decodes (\<lambda>r v0. unmarshalValue r v0 ty) t (zero (typeof u)) u"
    using t(3) nn unmarshalValue_plain [OF assms(2)] unfolding decodes_def by metis
  show "decodes (\<lambda>r v0. unmarshalValue r v0 ty) t (GPtr (typeof u) None) (GPtr (typeof u) (Some u))"
    using t(3) nn unfolding decodes_def by (fastforce simp: unmarshalValue.simps)
  show "decodes (\<lambda>r v0. unmarshalValue r v0 ty) t (zero (KOptional (typeof u))) (OptionalValue u)"
    using d nn unfolding decodes_def
    by (fastforce simp: unmarshalValue.simps [of _ "GOptional _ _ _"] optionalDecodeTarget_def OptionalValue_def)
qed

lemma field_trees_one:
  assumes "field_entry (name, tagStr, v) = Some (n, ty)" and "value_tree ty u (ContextTag n) t" and "plain u"
    and "v = u \<or> v = GPtr (typeof u) (Some u) \<or> v = OptionalValue u"
  shows "field_trees (name, tagStr, v) [t]"
proof -
  have t: "wf_tlv t" "tag_number t = n"
    "\<And>w. marshalValue w (ContextTag n) u ty name = (Ok (), w\<lparr>w_buf := w_buf w @ tlv_bytes t\<rparr>)"
    using assms(2) by (simp_all add: value_tree_def writes_def tag_number_def)
  have opt: "optionalReader (GPtr (typeof u) (Some u)) = Ok None"
    using assms(3) by (cases u) auto
  have "marshalFields w ((name, tagStr, v) # fs) = marshalFields (w\<lparr>w_buf := w_buf w @ tlv_bytes t\<rparr>) fs" for w fs
    using assms(1,3,4) t(3) opt
    by (auto simp: field_entry_Some marshalFields.simps(2) plain_simps OptionalValue_def)
  moreover have "decodes (\<lambda>r v0. unmarshalValue r v0 ty) t (zero (typeof v)) v"
    using assms(4) value_tree_decodes [OF assms(2,3)] by (auto simp: OptionalValue_def)
  ultimately show ?thesis using assms(1) t(1,2) by (auto simp: field_trees_def)
qed

lemma field_trees_none:
  assumes "v = zero (typeof v)" and "\<And>w fs. marshalFields w ((name, tagStr, v) # fs) = marshalFields w fs"
  shows "field_trees (name, tagStr, v) []"
  using assms by (auto simp: field_trees_def split: option.splits)

lemma field_trees_null:
  assumes "field_entry (name, tagStr, v) = Some (n, ty)" and "v = OptionalNull t"
  shows "field_trees (name, tagStr, v) [Leaf (ContextTag n) VNil]"
proof -
  have wf: "wf_tlv (Leaf (ContextTag n) VNil)" by (simp add: value_ok_def wf_tag_ContextTag)
  have "t_Type (ContextTag n) \<in> set tag_types" using wf_tag_ContextTag [of n] by (simp add: wf_tag_def)
  then have p: "to_res (PutNull w (ContextTag n)) = (Ok (), w\<lparr>w_buf := w_buf w @ elem_bytes (ContextTag n) VNil\<rparr>)"
    for w using put_value_emits [of "ContextTag n" w VNil] by (simp add: to_res_def emits_def)
  have "marshalFields w ((name, tagStr, v) # fs)
      = marshalFields (w\<lparr>w_buf := w_buf w @ tlv_bytes (Leaf (ContextTag n) VNil)\<rparr>) fs" for w fs
    using assms p by (simp add: field_entry_Some marshalFields.simps(2) OptionalNull_def)
  moreover have "decodes (\<lambda>r v0. unmarshalValue r v0 ty) (Leaf (ContextTag n) VNil) (zero (typeof v)) v"
    unfolding decodes_def using Next_leaf_at [OF wf]
    by (auto simp: unmarshalValue.simps assms(2) OptionalNull_def setOptionalNull_def Reader_Type_def)
  ultimately show ?thesis using assms(1) wf by (auto simp: field_trees_def tag_number_def)
qed

lemma field_trees_known:
  "list_all2 field_trees fs tss \<Longrightarrow> wf_forest (concat tss) \<and> (\<forall>t \<in> set (concat tss). known fs t)"
  by (induction fs tss rule: list_all2_induct)
    (auto simp: field_trees_def known_def tag_numbers_simps split: option.splits)

lemma list_all2_choice: "\<forall>x \<in> set xs. \<exists>y. P x y \<Longrightarrow> \<exists>ys. list_all2 P xs ys"
  by (induction xs) (auto simp: list_all2_Cons1)

subsection \<open>Every carried value has its tree\<close>

lemma wire_value_tag: "wire_value ty v \<Longrightarrow> ty \<noteq> ''''"
  by (cases rule: wire_value.cases) (auto simp: slice_tag_def)

lemma wire_tree:
  "wire_value ty v \<Longrightarrow> (\<And>tag. wf_tag tag \<Longrightarrow> \<exists>t. value_tree ty v tag t)"
  "wire_field f \<Longrightarrow> \<exists>ts. field_trees f ts"
  "wire_elem aslist et v \<Longrightarrow> \<exists>t. elem_tree aslist et v t"
proof (induction rule: wire_value_wire_field_wire_elem.inducts)
  case (W_struct ty fs n)
  obtain tss where tss: "list_all2 field_trees fs tss"
    using list_all2_choice [of fs field_trees] W_struct.IH by auto
  from struct_tree [OF W_struct.prems W_struct.hyps(1,2) tss] field_trees_known [OF tss] show ?case by blast
next
  case (W_slice ty et vs)
  obtain ts where "list_all2 (elem_tree (ty = ''listarray'' \<or> ty = ''listlist'') et) vs ts"
    using list_all2_choice [of vs "elem_tree (ty = ''listarray'' \<or> ty = ''listlist'') et"] W_slice.IH by auto
  from slice_tree [OF W_slice.prems W_slice.hyps this] show ?case by blast
next
  case (F_untagged tagStr v name)
  then have "field_trees (name, tagStr, v) []"
    by (intro field_trees_none) (simp_all add: marshalFields.simps(2))
  then show ?case ..
next
  case (F_plain name tagStr v n ty)
  from F_plain.IH [OF wf_tag_ContextTag] obtain t where "value_tree ty v (ContextTag n) t" ..
  from field_trees_one [OF F_plain.hyps(1) this wire_value_plain [OF F_plain.hyps(2)]] show ?case by blast
next
  case (F_no_raw name tagStr v n)
  then have "field_trees (name, tagStr, v) []"
    by (intro field_trees_none) (simp_all add: field_entry_Some marshalFields.simps(2) marshalValue.simps)
  then show ?case ..
next
  case (F_nil name tagStr v n ty t)
  then have "optionalReader v = Ok None" by (cases t) auto
  with F_nil have "field_trees (name, tagStr, v) []"
    by (intro field_trees_none) (simp_all add: field_entry_Some marshalFields.simps(2))
  then show ?case ..
next
  case (F_pointer name tagStr v n ty u)
  from F_pointer.IH [OF wf_tag_ContextTag] obtain t where "value_tree ty u (ContextTag n) t" ..
  from field_trees_one [OF F_pointer.hyps(1) this wire_value_plain [OF F_pointer.hyps(3)]] F_pointer.hyps(2)
  show ?case by blast
next
  case (F_absent name tagStr v n ty t)
  then have "field_trees (name, tagStr, v) []"
    by (intro field_trees_none) (simp_all add: field_entry_Some marshalFields.simps(2))
  then show ?case ..
next
  case (F_null name tagStr v n ty t)
  from field_trees_null [OF F_null] show ?case by blast
next
  case (F_present name tagStr v n ty u)
  from F_present.IH [OF wf_tag_ContextTag] obtain t where "value_tree ty u (ContextTag n) t" ..
  from field_trees_one [OF F_present.hyps(1) this wire_value_plain [OF F_present.hyps(3)]] F_present.hyps(2)
  show ?case by blast
next
  case (E_value aslist v)
  then have "elem_kind aslist v \<noteq> ''''" by (intro wire_value_tag)
  with E_value.IH [OF wf_tag_AnonymousTag] elem_trees(1) show ?case by blast
next
  case (E_pointer aslist v)
  then have "elem_kind aslist v \<noteq> ''''" by (intro wire_value_tag)
  with E_pointer.IH [OF wf_tag_AnonymousTag] elem_trees(2) show ?case by blast
next
  case (E_nil aslist t)
  show ?case using nil_elem_tree by blast
qed (blast intro: scalar_trees raw_trees)+

subsection \<open>The message level\<close>

text \<open>The struct whose fields are all unset, as \<^verbatim>\<open>var x T\<close> declares it, behind a pointer.\<close>

definition fresh :: "string \<Rightarrow> fieldvals \<Rightarrow> goval" where
  "fresh n fs = GPtr (typeof (GStruct n fs)) (Some (zero (typeof (GStruct n fs))))"

definition filled :: "string \<Rightarrow> fieldvals \<Rightarrow> goval" where
  "filled n fs = GPtr (typeof (GStruct n fs)) (Some (GStruct n fs))"

lemma Unmarshal_struct:
  assumes "wf_forest us" and "bs = head_bytes AnonymousTag TypeStructure @ forest_bytes us @ rest"
  shows "\<exists>r. at r (forest_bytes us @ rest) \<and> r_containers r = [TypeStructure] \<and>
    Unmarshal bs (fresh n fs) =
      (case unmarshalFields r (zero_fields fs) of
         (x, fs', r') \<Rightarrow> (x, GPtr (typeof (GStruct n fs)) (Some (GStruct n fs'))))"
proof -
  let ?r = "NewReader bs"
  from Next_open [OF wf_tag_AnonymousTag, of TypeStructure ?r "forest_bytes us @ rest"] assms(2)
  have "Next ?r = (Ok (), ?r\<lparr>r_src := forest_bytes us @ rest, r_containers := [TypeStructure],
      r_elem := \<lparr>e_Tag = AnonymousTag, e_Type = TypeStructure, e_Value = VNil\<rparr>\<rparr>)"
    by (simp add: NewReader_def)
  then show ?thesis
    unfolding Unmarshal_def fresh_def zero_struct
    by (intro exI [of _ "?r\<lparr>r_src := forest_bytes us @ rest, r_containers := [TypeStructure],
        r_elem := \<lparr>e_Tag = AnonymousTag, e_Type = TypeStructure, e_Value = VNil\<rparr>\<rparr>"])
      (simp add: at_def NewReader_def Reader_Type_def)
qed

lemma Marshal_struct:
  assumes "list_all2 field_trees fs tss"
  shows "Marshal (GStruct n fs) = Ok (tlv_bytes (Node AnonymousTag TypeStructure (concat tss)))"
proof -
  have "t_Type AnonymousTag \<in> set tag_types" using wf_tag_AnonymousTag by (simp add: wf_tag_def)
  with fields_encode [OF assms] show ?thesis
    by (simp add: Marshal_def marshalStruct_def writes_def Start_emits EndContainer_emits emits_def to_res_def
        Bytes_def NewWriter_def)
qed

lemma wire_fields_trees:
  assumes "\<forall>f \<in> set fs. wire_field f"
  obtains tss where "list_all2 field_trees fs tss"
  using list_all2_choice [of fs field_trees] wire_tree(2) assms by blast

lemma marshal_unmarshal_known:
  assumes "distinct (tag_numbers fs)" and "\<forall>f \<in> set fs. wire_field f"
  shows "\<exists>ts. wf_forest ts \<and> (\<forall>t \<in> set ts. known fs t) \<and>
     Marshal (GStruct n fs) = Ok (tlv_bytes (Node AnonymousTag TypeStructure ts)) \<and>
     (\<forall>us rest. wf_forest us \<longrightarrow> filter (known fs) us = ts \<longrightarrow>
        Unmarshal (tlv_bytes (Node AnonymousTag TypeStructure us) @ rest) (fresh n fs) = (Ok (), filled n fs))"
proof -
  obtain tss where tss: "list_all2 field_trees fs tss" using wire_fields_trees [OF assms(2)] .
  have "Unmarshal (tlv_bytes (Node AnonymousTag TypeStructure us) @ rest) (fresh n fs) = (Ok (), filled n fs)"
    if us: "wf_forest us" "filter (known fs) us = concat tss" for us rest
  proof -
    obtain r where r: "at r (forest_bytes us @ TypeEndOfContainer # rest)" "r_containers r = [] @ [TypeStructure]"
      "Unmarshal (tlv_bytes (Node AnonymousTag TypeStructure us) @ rest) (fresh n fs) =
      (case unmarshalFields r (zero_fields fs) of
         (x, fs', r') \<Rightarrow> (x, GPtr (typeof (GStruct n fs)) (Some (GStruct n fs'))))"
      using Unmarshal_struct [OF us(1), of _ "TypeEndOfContainer # rest" n fs] by auto
    obtain e where "unmarshalFields r (zero_fields fs)
        = unmarshalFields (r\<lparr>r_src := TypeEndOfContainer # rest, r_elem := e\<rparr>) fs"
      using fields_decode [OF tss, of "[]" "[]" us r] assms(1) us r(1) by auto
    with fields_end [of "r\<lparr>r_src := TypeEndOfContainer # rest, r_elem := e\<rparr>" rest "[]" TypeStructure fs] r
    show ?thesis by (auto simp: at_def filled_def)
  qed
  with Marshal_struct [OF tss] field_trees_known [OF tss] show ?thesis by blast
qed

lemma marshal_unmarshal:
  assumes "distinct (tag_numbers fs)" and "\<forall>f \<in> set fs. wire_field f"
  shows "\<exists>ts. wf_forest ts \<and>
     Marshal (GStruct n fs) = Ok (tlv_bytes (Node AnonymousTag TypeStructure ts)) \<and>
     (\<forall>us rest. wf_forest us \<longrightarrow> filter (known fs) us = ts \<longrightarrow>
        Unmarshal (tlv_bytes (Node AnonymousTag TypeStructure us) @ rest) (fresh n fs) = (Ok (), filled n fs))"
  using marshal_unmarshal_known [OF assms] by blast

lemma cut_after_fields:
  assumes "distinct (tag_numbers (fs @ gs))" and "\<forall>f \<in> set (fs @ gs). wire_field f"
  shows "\<exists>bs cs. Marshal (GStruct n (fs @ gs)) = Ok (bs @ cs) \<and> cs \<noteq> [] \<and>
     Unmarshal bs (fresh n (fs @ gs)) =
       (Ok (), GPtr (typeof (GStruct n (fs @ gs))) (Some (GStruct n (fs @ zero_fields gs))))"
proof -
  have "\<forall>f \<in> set fs. wire_field f" "\<forall>f \<in> set gs. wire_field f" using assms(2) by auto
  then obtain tss uss where t: "list_all2 field_trees fs tss" "list_all2 field_trees gs uss"
    by (metis wire_fields_trees)
  let ?bs = "head_bytes AnonymousTag TypeStructure @ forest_bytes (concat tss)"
  have "Marshal (GStruct n (fs @ gs)) = Ok (?bs @ forest_bytes (concat uss) @ [TypeEndOfContainer])"
    using Marshal_struct [of "fs @ gs" "tss @ uss" n] list_all2_appendI [OF t] by simp
  moreover
  have k: "wf_forest (concat tss)" "\<forall>t \<in> set (concat tss). known fs t"
    using field_trees_known [OF t(1)] by auto
  obtain r where r: "at r (forest_bytes (concat tss) @ [])"
    "Unmarshal ?bs (fresh n (fs @ gs)) =
      (case unmarshalFields r (zero_fields (fs @ gs)) of
         (x, fs', r') \<Rightarrow> (x, GPtr (typeof (GStruct n (fs @ gs))) (Some (GStruct n fs'))))"
    using Unmarshal_struct [OF k(1), of ?bs "[]" n "fs @ gs"] by auto
  have z: "zero_fields (fs @ gs) = zero_fields fs @ zero_fields gs" by (simp add: zero_fields_def)
  have "filter (known ([] @ fs @ zero_fields gs)) (concat tss) = concat tss"
    using k(2) by (simp add: filter_id_conv known_def tag_numbers_append)
  from fields_decode [OF t(1) _ k(1) this r(1)] assms(1) obtain e where
    "unmarshalFields r (zero_fields (fs @ gs)) = unmarshalFields (r\<lparr>r_src := [], r_elem := e\<rparr>) (fs @ zero_fields gs)"
    by (auto simp: tag_numbers_append z)
  then have "Unmarshal ?bs (fresh n (fs @ gs)) =
      (Ok (), GPtr (typeof (GStruct n (fs @ gs))) (Some (GStruct n (fs @ zero_fields gs))))"
    using r fields_eof [of "r\<lparr>r_src := [], r_elem := e\<rparr>"] by (simp add: at_def)
  ultimately show ?thesis
    by (intro exI [of _ ?bs] exI [of _ "forest_bytes (concat uss) @ [TypeEndOfContainer]"]) simp
qed

end
