(* ===== verification/Tlv_Reflection.thy ===== *)
theory Tlv_Reflection
  imports Tlv_Roundtrip
begin

text \<open>
  The theorems about \<^verbatim>\<open>Marshal\<close> and \<^verbatim>\<open>Unmarshal\<close>: the round trip with skipped unknown fields, the
  type invariant of the targets, and three behaviours of the decoder on input that does not match.
\<close>

subsection \<open>Well-typed targets\<close>

text \<open>Integers fit their width, and what is stored behind a pointer, in a tri-state wrapper or in a
  slice has the declared type.\<close>

fun well_typed :: "goval \<Rightarrow> bool" where
  "well_typed (GInt n x) = (signed_take_bit (n - 1) x = x)"
| "well_typed (GUint n x) = (take_bit n x = x)"
| "well_typed (GPtr t None) = True"
| "well_typed (GPtr t (Some v)) = (typeof v = t \<and> well_typed v)"
| "well_typed (GSlice t vs) = (t \<noteq> KUint 8 \<and> (\<forall>v \<in> set vs. typeof v = t \<and> well_typed v))"
| "well_typed (GOptional t st v) = (typeof v = t \<and> well_typed v)"
| "well_typed (GStruct n fs) = (\<forall>(name, tag, v) \<in> set fs. well_typed v)"
| "well_typed v = True"

text \<open>A type whose slices of bytes are written \<open>KBytes\<close>.\<close>

fun wf_type :: "gotype \<Rightarrow> bool" where
  "wf_type (KPtr t) = wf_type t"
| "wf_type (KSlice t) = (t \<noteq> KUint 8 \<and> wf_type t)"
| "wf_type (KOptional t) = wf_type t"
| "wf_type (KStruct n fts) = (\<forall>(name, tag, t) \<in> set fts. wf_type t)"
| "wf_type t = True"

lemma typeof_zero [simp]: "typeof (zero t) = t"
  by (induction t rule: zero.induct) (auto intro!: map_idI)

lemma well_typed_zero: "wf_type t \<Longrightarrow> well_typed (zero t)"
  by (induction t rule: zero.induct) auto

text \<open>\<open>good t v\<close>: \<open>v\<close> is a well-typed value of type \<open>t\<close>.\<close>

definition good :: "gotype \<Rightarrow> goval \<Rightarrow> bool" where
  "good t v \<longleftrightarrow> wf_type t \<and> typeof v = t \<and> well_typed v"

definition good_fields :: "(string \<times> string \<times> gotype) list \<Rightarrow> fieldvals \<Rightarrow> bool" where
  "good_fields fts fs \<longleftrightarrow>
     map (\<lambda>(name, tag, v). (name, tag, typeof v)) fs = fts \<and>
     (\<forall>(name, tag, v) \<in> set fs. wf_type (typeof v) \<and> well_typed v)"

lemma good_struct:
  "good (KStruct n fts) v \<longleftrightarrow> (\<exists>fs. v = GStruct n fs \<and> good_fields fts fs)"
  by (cases v) (auto simp: good_def good_fields_def)

lemma good_GStruct:
  "good t (GStruct n fs) \<longleftrightarrow> (\<exists>fts. t = KStruct n fts \<and> good_fields fts fs)"
  by (fastforce simp: good_def good_fields_def split_def)

lemma good_pointer: "good (KPtr t) (GPtr t' (Some v)) \<longleftrightarrow> t' = t \<and> good t v"
  by (auto simp: good_def)

lemma good_zero: "wf_type t \<Longrightarrow> good t (zero t)"
  by (simp add: good_def well_typed_zero)

lemma assign_good:
  "good t fv \<Longrightarrow> assign_int fv x = Ok v \<Longrightarrow> good t v"
  "good t fv \<Longrightarrow> assign_uint fv x = Ok v \<Longrightarrow> good t v"
  "good t fv \<Longrightarrow> assign_bool fv x = Ok v \<Longrightarrow> good t v"
  "good t fv \<Longrightarrow> assign_string fv x = Ok v \<Longrightarrow> good t v"
  "good t fv \<Longrightarrow> assign_bytes fv x = Ok v \<Longrightarrow> good t v"
  "good t fv \<Longrightarrow> SetBytes fv bs = Ok v \<Longrightarrow> good t v"
  by (cases fv; auto simp: good_def assign_int_def assign_uint_def assign_bool_def assign_string_def
      assign_bytes_def split: Value.splits)+

lemma set_to_cases: "set_to fv r m = (x, v, r') \<Longrightarrow> v = fv \<or> m = Ok v"
  by (auto simp: set_to_def split: res.splits)

lemma unmarshalLeaf_good: "good t fv \<Longrightarrow> unmarshalLeaf r fv ty = (x, v, r') \<Longrightarrow> good t v"
  by (auto simp: unmarshalLeaf_def dest!: set_to_cases dest: assign_good
      split: if_splits prod.splits res.splits Value.splits)

lemma unmarshalElem_good:
  assumes "wf_type t" and "unmarshalElem r t = (x, v, r')"
  shows "good t v"
  using good_zero [OF assms(1)] assms(2)
  by (auto simp: unmarshalElem_def Let_def simp del: zero.simps dest!: set_to_cases
      dest: assign_good split: gotype.splits)

lemma good_append:
  "good t fv \<Longrightarrow> slice_elem fv = Some et \<Longrightarrow> good et v \<Longrightarrow>
    good t (reflect_Append fv v) \<and> slice_elem (reflect_Append fv v) = Some et"
  by (cases fv; cases v) (auto simp: good_def)

lemma good_wrap: "wf_type et \<Longrightarrow> good (elem_of_ptr et) v \<Longrightarrow> good et (wrap_elem et v)"
  by (cases et) (auto simp: good_def wrap_elem_def)

lemma good_set_field:
  assumes "good_fields fts fs" and "i < length fs" and "good (typeof (field_val fs i)) v"
  shows "good_fields fts (set_field fs i v)"
proof -
  have "map (\<lambda>(name, tag, v). (name, tag, typeof v)) (set_field fs i v)
      = map (\<lambda>(name, tag, v). (name, tag, typeof v)) fs"
    using assms(2,3) by (intro nth_equalityI)
      (auto simp: set_field_def field_val_def good_def nth_list_update split_def)
  then show ?thesis
    using assms by (auto simp: good_fields_def set_field_def good_def dest!: set_update_subset_insert [THEN subsetD])
qed

lemma buildFieldMap_bound:
  "buildFieldMap i fs m n = Some (j, ty) \<Longrightarrow> m n = Some (j, ty) \<or> j < i + length fs"
  by (induction i fs m rule: buildFieldMap.induct) (auto split: option.splits if_splits)

lemma lookup_field_bound: "lookup_field fs r = Some (i, ty) \<Longrightarrow> i < length fs"
  by (auto simp: lookup_field_def dest: buildFieldMap_bound)

lemma good_field_val:
  assumes "good_fields fts fs" and "i < length fs"
  shows "good (typeof (field_val fs i)) (field_val fs i)"
  using assms nth_mem [OF assms(2)] by (cases "fs ! i") (auto simp: good_fields_def good_def field_val_def)

text \<open>The four mutually recursive calls keep the type of their target.\<close>

lemma unmarshal_good:
  "good_fields fts fs \<Longrightarrow> unmarshalFields r fs = (x, fs', r') \<Longrightarrow> good_fields fts fs'"
  "good t fv \<Longrightarrow> unmarshalValue r fv ty = (x, v', r') \<Longrightarrow> good t v'"
  "good t fv \<Longrightarrow> unmarshalSwitch r fv ty = (x, v', r') \<Longrightarrow> good t v'"
  "good t fv \<Longrightarrow> slice_elem fv = Some et \<Longrightarrow> unmarshalSlice r fv et = (x, v', r') \<Longrightarrow> good t v'"
proof (induction r fs and r fv ty and r fv ty and r fv et arbitrary: fts x fs' r' and t x v' r' and t x v' r' and t x v' r'
    rule: unmarshalFields_unmarshalValue_unmarshalSwitch_unmarshalSlice.induct)
  case (1 r fs)
  obtain y r1 where n: "Next r = (y, r1)" by fastforce
  show ?case
  proof (cases y)
    case (Ok u)
    note IH = "1.IH" [OF n [symmetric] Ok]
    show ?thesis
    proof (cases "Reader_Type r1 = TypeEndOfContainer")
      case True
      with 1 n Ok show ?thesis by (simp add: unmarshalFields.simps)
    next
      case False
      show ?thesis
      proof (cases "lookup_field fs r1")
        case None
        with "1.prems" n Ok False IH(1) [OF False None] show ?thesis
          by (auto simp: unmarshalFields.simps [of r] split: prod.splits res.splits)
      next
        case (Some it)
        obtain i ty where it: "it = (i, ty)" by fastforce
        have i: "i < length fs" using Some it by (auto dest: lookup_field_bound)
        obtain z v r2 where v: "unmarshalValue r1 (field_val fs i) ty = (z, v, r2)" by (metis prod_cases3)
        have g: "good_fields fts (set_field fs i v)"
          using good_set_field [OF "1.prems"(1) i] IH(2) [OF False Some it [symmetric] good_field_val [OF "1.prems"(1) i] v] by simp
        show ?thesis
        proof (cases z)
          case (Ok w)
          from IH(3) [OF False Some it [symmetric] v [symmetric] Ok refl g] "1.prems"(2) n \<open>y = Ok u\<close> False Some it v Ok
          show ?thesis by (simp add: unmarshalFields.simps [of r])
        qed (use "1.prems"(2) n \<open>y = Ok u\<close> False Some it v g in \<open>auto simp: unmarshalFields.simps [of r]\<close>)
      qed
    qed
  qed (use "1.prems" n in \<open>auto simp: unmarshalFields.simps [of r]\<close>)
next
  case (2 r fv ty)
  show ?case
  proof (cases "Reader_Type r = TypeNull")
    case True
    with "2.prems" show ?thesis
      by (cases fv) (auto simp: unmarshalValue.simps good_def setOptionalNull_def well_typed_zero)
  next
    case nn: False
    have u: "unmarshalSwitch r fv ty = (x, v', r')" if "plain fv"
      using that nn "2.prems"(2) by (cases fv) (auto simp: unmarshalValue.simps [of r])
    show ?thesis
    proof (cases fv)
      case (GPtr t' p)
      let ?v = "case p of None \<Rightarrow> zero t' | Some v \<Rightarrow> v"
      have "good t' ?v" using "2.prems"(1) GPtr by (cases p) (auto simp: good_def well_typed_zero)
      moreover obtain y u r1 where u: "unmarshalSwitch r ?v ty = (y, u, r1)" by (metis prod_cases3)
      ultimately have "good t' u" using "2.IH"(6) [OF GPtr nn] by blast
      with u GPtr nn "2.prems" show ?thesis by (auto simp: unmarshalValue.simps [of r] good_def)
    next
      case (GOptional t' st w)
      have "good t' w" using "2.prems"(1) GOptional by (auto simp: good_def)
      moreover obtain y u r1 where u: "unmarshalValue r w ty = (y, u, r1)" by (metis prod_cases3)
      ultimately have "good t' u" using "2.IH"(8) [OF GOptional nn] by blast
      with u GOptional nn "2.prems" show ?thesis
        by (auto simp: unmarshalValue.simps [of r "GOptional _ _ _"] good_def optionalDecodeTarget_def)
    next
      case (GInt a b)
      with u "2.IH"(1) [OF GInt nn "2.prems"(1)] show ?thesis by simp
    next
      case (GUint a b)
      with u "2.IH"(2) [OF GUint nn "2.prems"(1)] show ?thesis by simp
    next
      case (GBool a)
      with u "2.IH"(3) [OF GBool nn "2.prems"(1)] show ?thesis by simp
    next
      case (GString a)
      with u "2.IH"(4) [OF GString nn "2.prems"(1)] show ?thesis by simp
    next
      case (GBytes a)
      with u "2.IH"(5) [OF GBytes nn "2.prems"(1)] show ?thesis by simp
    next
      case (GSlice a b)
      with u "2.IH"(7) [OF GSlice nn "2.prems"(1)] show ?thesis by simp
    next
      case (GStruct a b)
      with u "2.IH"(9) [OF GStruct nn "2.prems"(1)] show ?thesis by simp
    qed
  qed
next
  case (3 r fv ty)
  show ?case
  proof (cases "struct_tag r ty")
    case True
    show ?thesis
    proof (cases fv)
      case (GStruct m fs)
      then obtain fts where t: "t = KStruct m fts" "good_fields fts fs"
        using "3.prems"(1) good_GStruct by auto
      obtain y fs' r1 where u: "unmarshalFields r fs = (y, fs', r1)" by (metis prod_cases3)
      with "3.IH"(1) [OF True _ t(2)] GStruct have "good_fields fts fs'" by simp
      with t u True GStruct "3.prems"(2) show ?thesis by (auto simp: unmarshalSwitch.simps good_struct)
    qed (use True "3.prems" in \<open>auto simp: unmarshalSwitch.simps split: prod.splits\<close>)
  next
    case False
    with 3 show ?thesis
      by (auto simp: unmarshalSwitch.simps dest: unmarshalLeaf_good split: if_splits option.splits)
  qed
next
  case (4 r fv et)
  obtain y r1 where n: "Next r = (y, r1)" by fastforce
  have wf: "wf_type et" using "4.prems"(1,2) by (cases fv) (auto simp: good_def)
  show ?case
  proof (cases y)
    case (Ok u)
    note IH = "4.IH" [OF n [symmetric] Ok]
    let ?e = "elem_of_ptr et"
    have we: "wf_type ?e" using wf by (cases et) auto
    obtain z v r2 where el: "(case as_struct (zero ?e) of None \<Rightarrow> unmarshalElem r1 ?e
        | Some fs \<Rightarrow> (case unmarshalFields r1 fs of (x, fs', r'') \<Rightarrow> (x, put_struct (zero ?e) fs', r'')))
        = (z, v, r2)" by (metis prod_cases3)
    show ?thesis
    proof (cases "Reader_Type r1 = TypeEndOfContainer \<or> Reader_Type r1 = TypeNull")
      case True
      then show ?thesis
        using "4.prems" n Ok IH(1) good_append [OF "4.prems"(1,2) good_zero [OF wf]]
        by (auto simp: unmarshalSlice.simps [of r] split: if_splits)
    next
      case False
      have "good ?e v"
      proof (cases "as_struct (zero ?e)")
        case None
        with el unmarshalElem_good [OF we] show ?thesis by auto
      next
        case (Some fs)
        then consider (st) m fts where "?e = KStruct m fts" | (opt) t where "?e = KOptional t"
          by (cases ?e) auto
        then show ?thesis
        proof cases
          case st
          with we Some good_zero [OF we] have "good_fields fts fs" by (auto simp: good_struct)
          from IH(2) [OF _ _ Some this] False el Some st show ?thesis
            by (auto simp: good_struct split: prod.splits)
        next
          case opt
          with el Some good_zero [OF we] show ?thesis by (auto split: prod.splits)
        qed
      qed
      note app = good_append [OF "4.prems"(1,2) good_wrap [OF wf this]]
      show ?thesis
      proof (cases z)
        case (Ok w)
        from IH(3) [OF _ _ el [symmetric] Ok refl] app False "4.prems"(3) n \<open>y = Ok u\<close> el Ok
        show ?thesis by (auto simp: unmarshalSlice.simps [of r])
      qed (use "4.prems"(1,3) n \<open>y = Ok u\<close> False el in \<open>auto simp: unmarshalSlice.simps [of r]\<close>)
    qed
  qed (use "4.prems"(1,3) n in \<open>auto simp: unmarshalSlice.simps [of r]\<close>)
qed

lemma unmarshal_one_field:
  assumes "field_entry (name, tagStr, u) = Some (n, ty)" and "wf_tlv t" and "tag_number t = n"
    and "\<And>r r1. at r (tlv_bytes t @ [TypeEndOfContainer]) \<Longrightarrow> Next r = (Ok (), r1) \<Longrightarrow>
      \<exists>e. unmarshalValue r1 u ty = (Ok (), v, r\<lparr>r_src := [TypeEndOfContainer], r_elem := e\<rparr>)"
  shows "Unmarshal (tlv_bytes (Node AnonymousTag TypeStructure [t])) (GPtr T (Some (GStruct m [(name, tagStr, u)])))
    = (Ok (), GPtr T (Some (GStruct m [(name, tagStr, v)])))"
proof -
  let ?start = "NewReader (tlv_bytes (Node AnonymousTag TypeStructure [t]))"
  let ?r = "?start\<lparr>r_src := tlv_bytes t @ [TypeEndOfContainer], r_containers := [TypeStructure],
      r_elem := \<lparr>e_Tag = AnonymousTag, e_Type = TypeStructure, e_Value = VNil\<rparr>\<rparr>"
  have n0: "Next ?start = (Ok (), ?r)"
    by (subst Next_open [OF wf_tag_AnonymousTag, of TypeStructure ?start "tlv_bytes t @ [TypeEndOfContainer]"])
      (simp_all add: NewReader_def)
  have at: "at ?r (tlv_bytes t @ [TypeEndOfContainer])" by (simp add: at_def NewReader_def)
  obtain r1 where n1: "Next ?r = (Ok (), r1)" "Reader_Type r1 \<noteq> TypeEndOfContainer" "TagValue r1 = root_tag t"
    using skip_one [OF assms(2) at] by auto
  obtain e where val: "unmarshalValue r1 u ty = (Ok (), v, ?r\<lparr>r_src := [TypeEndOfContainer], r_elem := e\<rparr>)"
    using assms(4) [OF at n1(1)] by auto
  have "lookup_field [(name, tagStr, u)] r1 = Some (0, ty)"
    using buildFieldMap_here [of "[]" "(name, tagStr, u)" "[]" n ty 0 Map.empty] assms(1,3) n1(3)
    by (simp add: lookup_field_def tag_number_def tag_numbers_simps)
  then have "unmarshalFields ?r [(name, tagStr, u)]
      = unmarshalFields (?r\<lparr>r_src := [TypeEndOfContainer], r_elem := e\<rparr>) [(name, tagStr, v)]"
    using n1 val by (subst unmarshalFields.simps) (simp add: field_val_def set_field_def)
  moreover obtain e' where "unmarshalFields (?r\<lparr>r_src := [TypeEndOfContainer], r_elem := e\<rparr>) [(name, tagStr, v)]
      = (Ok (), [(name, tagStr, v)], ?r\<lparr>r_src := [], r_containers := [], r_elem := e'\<rparr>)"
    using fields_end [of "?r\<lparr>r_src := [TypeEndOfContainer], r_elem := e\<rparr>" "[]" "[]" TypeStructure]
    by (auto simp: at_def NewReader_def)
  ultimately show ?thesis using n0 by (simp add: Unmarshal_def Reader_Type_def)
qed

subsection \<open>Properties\<close>

text \<open>An attribute path with a nil pointer, a set pointer, an explicit null and a raw element.\<close>

definition sample_fields :: fieldvals where
  "sample_fields =
     [(''EnableTagCompression'', ''0,bool'', GPtr KBool None),
      (''EndpointID'', ''2,uint'', GPtr (KUint 16) (Some (GUint 16 513))),
      (''ListIndex'', ''5,uint'', OptionalNull (KUint 16)),
      (''Name'', ''6,utf8'', GString [104, 105]),
      (''Ids'', ''7,array'', GSlice (KUint 32) [GUint 32 1, GUint 32 70000])]"

lemma sample_entries:
  "field_entry (name, ''0,bool'', v) = Some (0, ''bool'')"
  "field_entry (name, ''2,uint'', v) = Some (2, ''uint'')"
  "field_entry (name, ''5,uint'', v) = Some (5, ''uint'')"
  "field_entry (name, ''6,utf8'', v) = Some (6, ''utf8'')"
  "field_entry (name, ''7,array'', v) = Some (7, ''array'')"
  "field_entry (name, ''2,rawtlv'', v) = Some (2, ''rawtlv'')"
  by (simp_all add: field_entry.simps untagged_def parseTag_def ParseUint8_def of_char_def)

lemma sample_wire: "distinct (tag_numbers sample_fields)" "\<forall>f \<in> set sample_fields. wire_field f"
proof -
  show "distinct (tag_numbers sample_fields)"
    by (simp add: sample_fields_def tag_numbers_simps sample_entries)
  have w: "wire_value ''uint'' (GUint 16 513)" "wire_value ''utf8'' (GString [104, 105])"
    "wire_value ''uint'' (GUint 32 1)" "wire_value ''uint'' (GUint 32 70000)"
    by (auto intro!: wire_value_wire_field_wire_elem.intros simp: max_alloc_def take_bit_word_eq_self)
  have "wire_elem False (KUint 32) (GUint 32 1)" "wire_elem False (KUint 32) (GUint 32 70000)"
    using E_value [of False "GUint 32 1"] E_value [of False "GUint 32 70000"] w by simp_all
  then have "wire_value ''array'' (GSlice (KUint 32) [GUint 32 1, GUint 32 70000])"
    by (intro W_slice) (auto simp: slice_tag_def)
  with w show "\<forall>f \<in> set sample_fields. wire_field f"
    using F_pointer [OF sample_entries(2) _ w(1)]
    by (auto simp: sample_fields_def intro: F_nil [OF sample_entries(1)] F_null [OF sample_entries(3)]
        F_plain [OF sample_entries(4)] F_plain [OF sample_entries(5)])
qed

text \<open>
  C3 Marshal/Unmarshal round trip: a struct whose tags can carry its fields is marshalled without
  error to one well-formed TLV structure, and unmarshalling any structure with the same known
  elements in the same order, unknown ones inserted anywhere and anything behind it, into a fresh
  struct gives the struct back.
\<close>

theorem marshal_unmarshal_roundtrip:
  assumes "distinct (tag_numbers fs)" and "\<forall>f \<in> set fs. wire_field f"
  shows "\<exists>ts. wf_forest ts \<and>
     Marshal (GStruct n fs) = Ok (tlv_bytes (Node AnonymousTag TypeStructure ts)) \<and>
     (\<forall>us rest. wf_forest us \<longrightarrow> filter (known fs) us = ts \<longrightarrow>
        Unmarshal (tlv_bytes (Node AnonymousTag TypeStructure us) @ rest) (fresh n fs) = (Ok (), filled n fs))"
  using assms by (rule marshal_unmarshal)

theorem marshal_unmarshal_roundtrip_witness:
  "\<exists>ts. Marshal (GStruct ''P'' sample_fields) = Ok (tlv_bytes (Node AnonymousTag TypeStructure ts)) \<and>
     Unmarshal (tlv_bytes (Node AnonymousTag TypeStructure (Leaf (ContextTag 9) (VBool True) # ts)) @ [1])
       (fresh ''P'' sample_fields) = (Ok (), filled ''P'' sample_fields)"
proof -
  obtain ts where ts: "wf_forest ts"
    "Marshal (GStruct ''P'' sample_fields) = Ok (tlv_bytes (Node AnonymousTag TypeStructure ts))"
    "\<And>us rest. wf_forest us \<Longrightarrow> filter (known sample_fields) us = ts \<Longrightarrow>
       Unmarshal (tlv_bytes (Node AnonymousTag TypeStructure us) @ rest) (fresh ''P'' sample_fields)
         = (Ok (), filled ''P'' sample_fields)"
    using marshal_unmarshal_roundtrip [OF sample_wire, of "''P''"] by blast
  obtain tss where tss: "list_all2 field_trees sample_fields tss" using wire_fields_trees [OF sample_wire(2)] .
  have "concat tss = ts"
    using Marshal_struct [OF tss, of "''P''"] ts(1,2) field_trees_known [OF tss]
      tlv_prefix_free(1) [of "Node AnonymousTag TypeStructure (concat tss)" "Node AnonymousTag TypeStructure ts" "[]" "[]"]
    by simp
  with field_trees_known [OF tss] have "filter (known sample_fields) ts = ts" by (simp add: filter_id_conv)
  moreover have "\<not> known sample_fields (Leaf (ContextTag 9) (VBool True))"
    by (simp add: known_def tag_number_def sample_fields_def tag_numbers_simps sample_entries)
  ultimately show ?thesis
    using ts(1,2) ts(3) [of "Leaf (ContextTag 9) (VBool True) # ts" "[1]"]
    by (auto simp: value_ok_def wf_tag_ContextTag)
qed

text \<open>
  Type safety: whatever the bytes, \<^verbatim>\<open>Unmarshal\<close> leaves a target of the same type in which every
  integer fits its width and every pointer, wrapper and slice holds values of its type, also when
  it fails half way.
\<close>

theorem unmarshal_type_safe:
  assumes "good (KPtr t) v"
  shows "good (KPtr t) (snd (Unmarshal data v))"
proof -
  obtain p where v: "v = GPtr t p" using assms by (cases v) (auto simp: good_def)
  show ?thesis
  proof (cases p)
    case (Some rv)
    have g: "good t rv" using assms v Some by (simp add: good_pointer)
    show ?thesis
    proof (cases rv)
      case (GStruct m fs)
      then obtain fts where t: "t = KStruct m fts" "good_fields fts fs" using g good_GStruct by auto
      have "good (KStruct m fts) (GStruct m fs')" if "unmarshalFields r fs = (x, fs', r')" for r x fs' r'
        using unmarshal_good(1) [OF t(2) that] by (simp add: good_struct)
      with assms v Some GStruct t(1) g show ?thesis
        by (auto simp: Unmarshal_def good_pointer split: prod.splits res.splits)
    qed (use assms v Some g in \<open>auto simp: Unmarshal_def good_pointer split: prod.splits res.splits\<close>)
  qed (use assms v in \<open>simp add: Unmarshal_def\<close>)
qed

theorem unmarshal_type_safe_witness:
  "good (KPtr (KStruct ''S'' [(''A'', ''1,uint'', KUint 8)]))
     (snd (Unmarshal [21, 37, 1, 255, 255, 24] (GPtr (KStruct ''S'' [(''A'', ''1,uint'', KUint 8)])
        (Some (GStruct ''S'' [(''A'', ''1,uint'', GUint 8 7)])))))"
  by (rule unmarshal_type_safe)
    (simp add: good_def take_bit_eq_mod)

text \<open>
  Truncated messages: a message cut right after any of its fields, its end marker lost, is
  accepted without an error; the missing fields keep their zero values.
\<close>

theorem cut_message_accepted:
  assumes "distinct (tag_numbers (fs @ gs))" and "\<forall>f \<in> set (fs @ gs). wire_field f"
  shows "\<exists>bs cs. Marshal (GStruct n (fs @ gs)) = Ok (bs @ cs) \<and> cs \<noteq> [] \<and>
     Unmarshal bs (fresh n (fs @ gs)) =
       (Ok (), GPtr (typeof (GStruct n (fs @ gs))) (Some (GStruct n (fs @ zero_fields gs))))"
  using assms by (rule cut_after_fields)

theorem cut_message_accepted_witness:
  "\<exists>bs cs. Marshal (GStruct ''P'' sample_fields) = Ok (bs @ cs) \<and> cs \<noteq> [] \<and>
     Unmarshal bs (fresh ''P'' sample_fields) =
       (Ok (), GPtr (typeof (GStruct ''P'' sample_fields))
          (Some (GStruct ''P'' (take 2 sample_fields @ zero_fields (drop 2 sample_fields)))))"
  using cut_message_accepted [of "take 2 sample_fields" "drop 2 sample_fields" "''P''"] sample_wire by simp

text \<open>
  Silent loss in the decoder: an unsigned integer too large for its field is accepted with its
  high bits cut off, and a TLV null in a raw element field, which \<^verbatim>\<open>Marshal\<close> writes, is decoded as
  no data at all.
\<close>

theorem decoder_silent_loss:
  assumes "field_entry (name, tagStr, GUint k 0) = Some (n, ''uint'')"
    and "field_entry (name', tagStr', GBytes []) = Some (n', ''rawtlv'')"
  shows "Unmarshal (tlv_bytes (Node AnonymousTag TypeStructure [Leaf (ContextTag n) (VUint64 x)]))
       (GPtr T (Some (GStruct m [(name, tagStr, GUint k 0)])))
     = (Ok (), GPtr T (Some (GStruct m [(name, tagStr, GUint k (take_bit k x))]))) \<and>
     (\<exists>bs. Marshal (GStruct m [(name', tagStr', GBytes [TypeNull])]) = Ok bs \<and>
       Unmarshal bs (GPtr T (Some (GStruct m [(name', tagStr', GBytes [])])))
         = (Ok (), GPtr T (Some (GStruct m [(name', tagStr', GBytes [])]))))" (is "?uint \<and> ?raw")
proof -
  have ?uint
  proof (rule unmarshal_one_field [OF assms(1)])
    show wf: "wf_tlv (Leaf (ContextTag n) (VUint64 x))" by (simp add: value_ok_def wf_tag_ContextTag)
    show "tag_number (Leaf (ContextTag n) (VUint64 x)) = n" by (simp add: tag_number_def)
    fix r r1 assume "at r (tlv_bytes (Leaf (ContextTag n) (VUint64 x)) @ [TypeEndOfContainer])"
      and "Next r = (Ok (), r1)"
    with Next_leaf_at [OF wf] show "\<exists>e. unmarshalValue r1 (GUint k 0) ''uint''
        = (Ok (), GUint k (take_bit k x), r\<lparr>r_src := [TypeEndOfContainer], r_elem := e\<rparr>)"
      by (auto simp: unmarshalValue.simps leaf_simps Reader_Type_def Reader_Value_def value_type_null
          simp del: value_type.simps)
  qed
  let ?null = "Leaf (ContextTag n') VNil"
  have wf: "wf_tlv ?null" by (simp add: value_ok_def wf_tag_ContextTag)
  have "Unmarshal (tlv_bytes (Node AnonymousTag TypeStructure [?null]))
      (GPtr T (Some (GStruct m [(name', tagStr', GBytes [])])))
    = (Ok (), GPtr T (Some (GStruct m [(name', tagStr', GBytes [])])))"
  proof (rule unmarshal_one_field [OF assms(2) wf])
    show "tag_number ?null = n'" by (simp add: tag_number_def)
    fix r r1 assume "at r (tlv_bytes ?null @ [TypeEndOfContainer])" and "Next r = (Ok (), r1)"
    with Next_leaf_at [OF wf] show "\<exists>e. unmarshalValue r1 (GBytes []) ''rawtlv''
        = (Ok (), GBytes [], r\<lparr>r_src := [TypeEndOfContainer], r_elem := e\<rparr>)"
      by (auto simp: unmarshalValue.simps Reader_Type_def)
  qed
  moreover have "Marshal (GStruct m [(name', tagStr', GBytes [TypeNull])])
      = Ok (tlv_bytes (Node AnonymousTag TypeStructure [?null]))"
  proof -
    have "tlv_bytes (Leaf AnonymousTag VNil) = [TypeNull]"
      by (simp add: elem_bytes_def head_bytes_def AnonymousTag_def zero_tag_def tag_bytes_simps)
        (simp add: const_defs)
    with rawtlv_writes [OF wf_tag_ContextTag, of "Leaf AnonymousTag VNil" n' name']
    have "marshalValue w (ContextTag n') (GBytes [TypeNull]) ''rawtlv'' name'
        = (Ok (), w\<lparr>w_buf := w_buf w @ tlv_bytes ?null\<rparr>)" for w
      by (simp add: writes_def value_ok_def wf_tag_AnonymousTag)
    then have "marshalFields w [(name', tagStr', GBytes [TypeNull])]
        = (Ok (), w\<lparr>w_buf := w_buf w @ tlv_bytes ?null\<rparr>)" for w
      using assms(2) by (simp add: field_entry_Some marshalFields.simps(2))
    moreover have "t_Type AnonymousTag \<in> set tag_types" using wf_tag_AnonymousTag by (simp add: wf_tag_def)
    ultimately show ?thesis
      by (simp add: Marshal_def marshalStruct_def Start_emits EndContainer_emits emits_def to_res_def
          Bytes_def NewWriter_def)
  qed
  ultimately have ?raw by blast
  with \<open>?uint\<close> show ?thesis ..
qed

theorem decoder_silent_loss_witness:
  "Unmarshal (tlv_bytes (Node AnonymousTag TypeStructure [Leaf (ContextTag 2) (VUint64 65537)]))
       (GPtr (KStruct ''S'' []) (Some (GStruct ''S'' [(''ClusterID'', ''2,uint'', GUint 16 0)])))
     = (Ok (), GPtr (KStruct ''S'' []) (Some (GStruct ''S'' [(''ClusterID'', ''2,uint'', GUint 16 1)]))) \<and>
   (\<exists>bs. Marshal (GStruct ''S'' [(''Data'', ''2,rawtlv'', GBytes [TypeNull])]) = Ok bs \<and>
       Unmarshal bs (GPtr (KStruct ''S'' []) (Some (GStruct ''S'' [(''Data'', ''2,rawtlv'', GBytes [])])))
         = (Ok (), GPtr (KStruct ''S'' []) (Some (GStruct ''S'' [(''Data'', ''2,rawtlv'', GBytes [])]))))"
proof -
  have "take_bit 16 65537 = (1 :: u64)" by (simp add: take_bit_eq_mod)
  with decoder_silent_loss [OF sample_entries(2) sample_entries(6), where x = 65537 and T = "KStruct ''S'' []" and m = "''S''"] show ?thesis by simp
qed

end
