(* ===== verification/Msg_Header.thy ===== *)
theory Msg_Header
  imports Prelude
begin

text \<open>
  The unencrypted message header and the protocol header of \<^verbatim>\<open>internal/protocol/message.go\<close>: their
  encoders, which compute a size, allocate a buffer and store each field at a running offset (so a
  wrong size would be an out-of-range store), and their decoders, which check the length before each
  optional field.  The lemmas give the byte layout, the exact domain of the decoders and the round
  trips in both directions.
\<close>

subsection \<open>Buffers addressed by offset\<close>

text \<open>
  \<open>put_at off bs buf\<close> stores \<open>bs\<close> at \<open>off\<close>, as \<^verbatim>\<open>PutUint16(buf[off:], v)\<close> or \<^verbatim>\<open>buf[off] = v\<close> do: an
  index beyond the buffer panics.  \<open>get_at off n data\<close> is the little-endian integer of the \<open>n\<close> bytes at
  \<open>off\<close>; the decoders only use it after their length checks.
\<close>

definition put_at :: "nat \<Rightarrow> byte list \<Rightarrow> byte list \<Rightarrow> byte list res" where
  "put_at off bs buf =
     (if off + length bs \<le> length buf then Ok (take off buf @ bs @ drop (off + length bs) buf)
      else Panic)"

definition get_at :: "nat \<Rightarrow> nat \<Rightarrow> byte list \<Rightarrow> 'a::len word" where
  "get_at off n data = le_get (take n (drop off data))"

lemma put_at_fill:
  "length xs = off \<Longrightarrow> length bs \<le> n \<Longrightarrow>
    put_at off bs (xs @ replicate n 0) = Ok (xs @ bs @ replicate (n - length bs) 0)"
  by (simp add: put_at_def)

subsection \<open>The message header\<close>

definition FlagSourceNodeID :: byte where [const_defs]: "FlagSourceNodeID = push_bit 2 1"
definition FlagDSIZMask :: byte where [const_defs]: "FlagDSIZMask = 0x03"
definition FlagVersionMask :: byte where [const_defs]: "FlagVersionMask = 0xF0"
definition DSIZNone :: byte where [const_defs]: "DSIZNone = 0x00"
definition DSIZNodeID :: byte where [const_defs]: "DSIZNodeID = 0x01"
definition DSIZGroup :: byte where [const_defs]: "DSIZGroup = 0x02"
definition SecFlagSessionTypeMask :: byte where [const_defs]: "SecFlagSessionTypeMask = 0x03"

record MessageHeader =
  Flags :: byte
  SessionID :: u16
  SecurityFlags :: byte
  MessageCounter :: u32
  SourceNodeID :: u64
  HasSourceNodeID :: bool
  DestinationNodeID :: u64
  HasDestinationNodeID :: bool
  DestinationGroupID :: u16
  HasDestinationGroupID :: bool

definition Version :: "MessageHeader \<Rightarrow> byte" where
  "Version h = drop_bit 4 (Flags h AND FlagVersionMask)"

definition Header_SessionType :: "MessageHeader \<Rightarrow> byte" where
  "Header_SessionType h = SecurityFlags h AND SecFlagSessionTypeMask"

definition EncodeMessageHeader :: "MessageHeader \<Rightarrow> byte list res" where
  "EncodeMessageHeader h =
     (let size = 8 + (if HasSourceNodeID h then 8 else 0)
                 + (if HasDestinationNodeID h then 8 else if HasDestinationGroupID h then 2 else 0);
          flags = Flags h AND FlagVersionMask;
          flags = (if HasSourceNodeID h then flags OR FlagSourceNodeID else flags);
          flags = (if HasDestinationNodeID h then flags OR DSIZNodeID
                   else if HasDestinationGroupID h then flags OR DSIZGroup else flags)
      in bind_res (put_at 0 [flags] (replicate size 0)) (\<lambda>buf.
         bind_res (put_at 1 (le_put 2 (SessionID h)) buf) (\<lambda>buf.
         bind_res (put_at 3 [SecurityFlags h] buf) (\<lambda>buf.
         bind_res (put_at 4 (le_put 4 (MessageCounter h)) buf) (\<lambda>buf.
         bind_res (if HasSourceNodeID h then put_at 8 (le_put 8 (SourceNodeID h)) buf else Ok buf) (\<lambda>buf.
         let offset = (if HasSourceNodeID h then 16 else 8) in
         if HasDestinationNodeID h then put_at offset (le_put 8 (DestinationNodeID h)) buf
         else if HasDestinationGroupID h then put_at offset (le_put 2 (DestinationGroupID h)) buf
         else Ok buf))))))"

definition zero_header :: MessageHeader where
  "zero_header = \<lparr>Flags = 0, SessionID = 0, SecurityFlags = 0, MessageCounter = 0,
     SourceNodeID = 0, HasSourceNodeID = False, DestinationNodeID = 0, HasDestinationNodeID = False,
     DestinationGroupID = 0, HasDestinationGroupID = False\<rparr>"

definition DecodeMessageHeader :: "byte list \<Rightarrow> (MessageHeader \<times> nat) res" where
  "DecodeMessageHeader data =
     (if length data < 8 then
        Err (Errorf (''protocol: message header too short: need 8 bytes, got '' @ fmt_d (length data)))
      else
        let h = zero_header\<lparr>Flags := data ! 0, SessionID := get_at 1 2 data,
                  SecurityFlags := data ! 3, MessageCounter := get_at 4 4 data\<rparr>;
            offset = 8
        in bind_res
             (if Flags h AND FlagSourceNodeID \<noteq> 0 then
                (if length data < offset + 8 then
                   Err (Errorf ''protocol: message too short for source node ID'')
                 else Ok (h\<lparr>SourceNodeID := get_at offset 8 data, HasSourceNodeID := True\<rparr>, offset + 8))
              else Ok (h, offset))
             (\<lambda>(h, offset).
                let dsiz = Flags h AND FlagDSIZMask in
                if dsiz = DSIZNodeID then
                  (if length data < offset + 8 then
                     Err (Errorf ''protocol: message too short for destination node ID'')
                   else Ok (h\<lparr>DestinationNodeID := get_at offset 8 data, HasDestinationNodeID := True\<rparr>,
                          offset + 8))
                else if dsiz = DSIZGroup then
                  (if length data < offset + 2 then
                     Err (Errorf ''protocol: message too short for destination group ID'')
                   else Ok (h\<lparr>DestinationGroupID := get_at offset 2 data, HasDestinationGroupID := True\<rparr>,
                          offset + 2))
                else if dsiz = DSIZNone then Ok (h, offset)
                else Err (Errorf (''protocol: unknown DSIZ value: '' @ fmt_d (unat dsiz)))))"

subsection \<open>The protocol header\<close>

definition ExFlagInitiator :: byte where [const_defs]: "ExFlagInitiator = push_bit 0 1"
definition ExFlagACK :: byte where [const_defs]: "ExFlagACK = push_bit 1 1"
definition ExFlagReliable :: byte where [const_defs]: "ExFlagReliable = push_bit 2 1"
definition ExFlagSecuredExt :: byte where [const_defs]: "ExFlagSecuredExt = push_bit 3 1"
definition ExFlagVendor :: byte where [const_defs]: "ExFlagVendor = push_bit 4 1"

record ProtocolHeader =
  ExchangeFlags :: byte
  ProtocolOpcode :: byte
  ExchangeID :: u16
  ProtocolID :: u16
  VendorID :: u16
  HasVendorID :: bool
  AckMessageCounter :: u32
  HasAckCounter :: bool

definition IsInitiator :: "ProtocolHeader \<Rightarrow> bool" where
  "IsInitiator p \<longleftrightarrow> ExchangeFlags p AND ExFlagInitiator \<noteq> 0"

definition NeedsACK :: "ProtocolHeader \<Rightarrow> bool" where
  "NeedsACK p \<longleftrightarrow> ExchangeFlags p AND ExFlagReliable \<noteq> 0"

definition EncodeProtocolHeader :: "ProtocolHeader \<Rightarrow> byte list res" where
  "EncodeProtocolHeader p =
     (let size = 6 + (if HasVendorID p then 2 else 0) + (if HasAckCounter p then 4 else 0);
          flags = ExchangeFlags p;
          flags = (if HasVendorID p then flags OR ExFlagVendor else flags);
          flags = (if HasAckCounter p then flags OR ExFlagACK else flags)
      in bind_res (put_at 0 [flags] (replicate size 0)) (\<lambda>buf.
         bind_res (put_at 1 [ProtocolOpcode p] buf) (\<lambda>buf.
         bind_res (put_at 2 (le_put 2 (ExchangeID p)) buf) (\<lambda>buf.
         bind_res (put_at 4 (le_put 2 (ProtocolID p)) buf) (\<lambda>buf.
         bind_res (if HasVendorID p then put_at 6 (le_put 2 (VendorID p)) buf else Ok buf) (\<lambda>buf.
         let offset = (if HasVendorID p then 8 else 6) in
         if HasAckCounter p then put_at offset (le_put 4 (AckMessageCounter p)) buf else Ok buf))))))"

definition DecodeProtocolHeader :: "byte list \<Rightarrow> (ProtocolHeader \<times> nat) res" where
  "DecodeProtocolHeader data =
     (if length data < 6 then
        Err (Errorf (''protocol: protocol header too short: need 6 bytes, got '' @ fmt_d (length data)))
      else
        let p = \<lparr>ExchangeFlags = data ! 0, ProtocolOpcode = data ! 1, ExchangeID = get_at 2 2 data,
                  ProtocolID = get_at 4 2 data, VendorID = 0, HasVendorID = False,
                  AckMessageCounter = 0, HasAckCounter = False\<rparr>;
            offset = 6
        in bind_res
             (if ExchangeFlags p AND ExFlagVendor \<noteq> 0 then
                (if length data < offset + 2 then
                   Err (Errorf ''protocol: protocol header too short for vendor ID'')
                 else Ok (p\<lparr>VendorID := get_at offset 2 data, HasVendorID := True\<rparr>, offset + 2))
              else Ok (p, offset))
             (\<lambda>(p, offset).
                if ExchangeFlags p AND ExFlagACK \<noteq> 0 then
                  (if length data < offset + 4 then
                     Err (Errorf ''protocol: protocol header too short for ack counter'')
                   else Ok (p\<lparr>AckMessageCounter := get_at offset 4 data, HasAckCounter := True\<rparr>, offset + 4))
                else Ok (p, offset)))"

record Message =
  Header :: MessageHeader
  Protocol :: ProtocolHeader
  Payload :: "byte list"

subsection \<open>Layouts\<close>

text \<open>
  The specification: a header is its fields one after the other, with the flags that announce the
  optional ones.
\<close>

definition mh_flags :: "MessageHeader \<Rightarrow> byte" where
  "mh_flags h = (Flags h AND FlagVersionMask) OR (if HasSourceNodeID h then FlagSourceNodeID else 0)
     OR (if HasDestinationNodeID h then DSIZNodeID else if HasDestinationGroupID h then DSIZGroup else DSIZNone)"

definition mh_bytes :: "MessageHeader \<Rightarrow> byte list" where
  "mh_bytes h = [mh_flags h] @ le_put 2 (SessionID h) @ [SecurityFlags h] @ le_put 4 (MessageCounter h) @
     (if HasSourceNodeID h then le_put 8 (SourceNodeID h) else []) @
     (if HasDestinationNodeID h then le_put 8 (DestinationNodeID h)
      else if HasDestinationGroupID h then le_put 2 (DestinationGroupID h) else [])"

definition ph_flags :: "ProtocolHeader \<Rightarrow> byte" where
  "ph_flags p = ExchangeFlags p OR (if HasVendorID p then ExFlagVendor else 0)
     OR (if HasAckCounter p then ExFlagACK else 0)"

definition ph_bytes :: "ProtocolHeader \<Rightarrow> byte list" where
  "ph_bytes p = [ph_flags p, ProtocolOpcode p] @ le_put 2 (ExchangeID p) @ le_put 2 (ProtocolID p) @
     (if HasVendorID p then le_put 2 (VendorID p) else []) @
     (if HasAckCounter p then le_put 4 (AckMessageCounter p) else [])"

lemma EncodeMessageHeader_bytes: "EncodeMessageHeader h = Ok (mh_bytes h)"
  by (simp add: EncodeMessageHeader_def mh_bytes_def mh_flags_def put_at_def Let_def DSIZNone_def or.assoc)

lemma EncodeProtocolHeader_bytes: "EncodeProtocolHeader p = Ok (ph_bytes p)"
  by (simp add: EncodeProtocolHeader_def ph_bytes_def ph_flags_def put_at_def Let_def or.assoc)

lemma length_mh_bytes:
  "length (mh_bytes h) = 8 + (if HasSourceNodeID h then 8 else 0)
     + (if HasDestinationNodeID h then 8 else if HasDestinationGroupID h then 2 else 0)"
  by (simp add: mh_bytes_def)

lemma length_ph_bytes:
  "length (ph_bytes p) = 6 + (if HasVendorID p then 2 else 0) + (if HasAckCounter p then 4 else 0)"
  by (simp add: ph_bytes_def)

text \<open>What a decoder returns for an encoded header: recomputed flags, absent fields zero.\<close>

definition norm_header :: "MessageHeader \<Rightarrow> MessageHeader" where
  "norm_header h = h\<lparr>Flags := mh_flags h,
     SourceNodeID := (if HasSourceNodeID h then SourceNodeID h else 0),
     DestinationNodeID := (if HasDestinationNodeID h then DestinationNodeID h else 0),
     DestinationGroupID := (if HasDestinationGroupID h \<and> \<not> HasDestinationNodeID h then DestinationGroupID h else 0),
     HasDestinationGroupID := (HasDestinationGroupID h \<and> \<not> HasDestinationNodeID h)\<rparr>"

definition norm_protocol :: "ProtocolHeader \<Rightarrow> ProtocolHeader" where
  "norm_protocol p = p\<lparr>ExchangeFlags := ph_flags p,
     VendorID := (if HasVendorID p then VendorID p else 0),
     AckMessageCounter := (if HasAckCounter p then AckMessageCounter p else 0)\<rparr>"

text \<open>A protocol header whose flags announce no field it does not carry.\<close>

definition flags_consistent :: "ProtocolHeader \<Rightarrow> bool" where
  "flags_consistent p \<longleftrightarrow> (ExchangeFlags p AND ExFlagVendor \<noteq> 0 \<longrightarrow> HasVendorID p) \<and>
     (ExchangeFlags p AND ExFlagACK \<noteq> 0 \<longrightarrow> HasAckCounter p)"

lemma mh_flags_source: "mh_flags h AND FlagSourceNodeID \<noteq> 0 \<longleftrightarrow> HasSourceNodeID h"
  by (simp add: mh_flags_def const_defs bit.conj_disj_distrib2 and.assoc)

lemma mh_flags_dsiz:
  "mh_flags h AND FlagDSIZMask =
     (if HasDestinationNodeID h then DSIZNodeID else if HasDestinationGroupID h then DSIZGroup else DSIZNone)"
  by (simp add: mh_flags_def const_defs bit.conj_disj_distrib2 and.assoc)

lemma DecodeMessageHeader_mh_bytes:
  "DecodeMessageHeader (mh_bytes h @ rest) = Ok (norm_header h, length (mh_bytes h))"
proof -
  have src: "mh_flags h AND FlagSourceNodeID = 0 \<longleftrightarrow> \<not> HasSourceNodeID h" using mh_flags_source by blast
  have dsiz: "DSIZNodeID \<noteq> DSIZGroup" "DSIZNodeID \<noteq> DSIZNone" "DSIZGroup \<noteq> DSIZNone"
    by (simp_all add: const_defs)
  have flags: "(mh_bytes h @ rest) ! 0 = mh_flags h" by (simp add: mh_bytes_def)
  show ?thesis
    unfolding DecodeMessageHeader_def length_append length_mh_bytes Let_def flags
    by (simp add: mh_flags_dsiz src dsiz dsiz [symmetric] zero_header_def)
      (auto intro!: MessageHeader.equality
        simp: mh_bytes_def norm_header_def get_at_def nth_append)
qed

lemma ph_flags_bits:
  assumes "flags_consistent p"
  shows "ph_flags p AND ExFlagVendor = 0 \<longleftrightarrow> \<not> HasVendorID p"
    and "ph_flags p AND ExFlagACK = 0 \<longleftrightarrow> \<not> HasAckCounter p"
  using assms
  by (auto simp: flags_consistent_def ph_flags_def const_defs bit.conj_disj_distrib2)

lemma DecodeProtocolHeader_ph_bytes:
  assumes "flags_consistent p"
  shows "DecodeProtocolHeader (ph_bytes p @ rest) = Ok (norm_protocol p, length (ph_bytes p))"
proof -
  have flags: "(ph_bytes p @ rest) ! 0 = ph_flags p" by (simp add: ph_bytes_def)
  show ?thesis
    unfolding DecodeProtocolHeader_def length_append length_ph_bytes Let_def flags
    by (simp add: ph_flags_bits [OF assms])
      (auto intro!: ProtocolHeader.equality simp: ph_bytes_def norm_protocol_def get_at_def nth_append)
qed

subsection \<open>The domain of the decoders\<close>

text \<open>The length that the flags of a header announce.\<close>

definition mh_size :: "byte \<Rightarrow> nat" where
  "mh_size f = 8 + (if f AND FlagSourceNodeID \<noteq> 0 then 8 else 0) +
     (if f AND FlagDSIZMask = DSIZNodeID then 8 else if f AND FlagDSIZMask = DSIZGroup then 2 else 0)"

definition mh_known :: "byte \<Rightarrow> bool" where
  "mh_known f \<longleftrightarrow> f AND FlagDSIZMask \<in> {DSIZNone, DSIZNodeID, DSIZGroup}"

definition ph_size :: "byte \<Rightarrow> nat" where
  "ph_size f = 6 + (if f AND ExFlagVendor \<noteq> 0 then 2 else 0) + (if f AND ExFlagACK \<noteq> 0 then 4 else 0)"

lemma le_put_get_at:
  "8 * n \<le> LENGTH('a) \<Longrightarrow> off + n \<le> length data \<Longrightarrow>
    le_put n (get_at off n data :: 'a::len word) = take n (drop off data)"
  using le_put_le_get [of "take n (drop off data)", where 'a = 'a]
  by (simp add: get_at_def min_absorb2 le_diff_conv2)


lemma DecodeMessageHeader_no_panic: "DecodeMessageHeader data \<noteq> Panic"
  by (simp add: DecodeMessageHeader_def Let_def)

lemma DecodeProtocolHeader_no_panic: "DecodeProtocolHeader data \<noteq> Panic"
  by (simp add: DecodeProtocolHeader_def Let_def)

lemma DecodeMessageHeader_domain:
  "(\<exists>h. DecodeMessageHeader data = Ok (h, n)) \<longleftrightarrow>
     8 \<le> length data \<and> mh_known (data ! 0) \<and> n = mh_size (data ! 0) \<and> n \<le> length data"
  by (auto simp: DecodeMessageHeader_def zero_header_def mh_size_def mh_known_def Let_def const_defs)

lemma DecodeProtocolHeader_domain:
  "(\<exists>p. DecodeProtocolHeader data = Ok (p, n)) \<longleftrightarrow>
     6 \<le> length data \<and> n = ph_size (data ! 0) \<and> n \<le> length data"
  by (auto simp: DecodeProtocolHeader_def ph_size_def Let_def)

text \<open>Bit 3 of the first byte is the only bit of an accepted header that re-encoding loses.\<close>

lemma mh_flags_mask:
  "(b AND FlagVersionMask) OR (b AND FlagSourceNodeID) OR (b AND FlagDSIZMask) = b AND 0xF7"
  by (simp add: const_defs flip: bit.conj_disj_distrib)

lemma and_single_bit: "(b :: 'a::len word) AND push_bit n 1 = (if bit b n then push_bit n 1 else 0)"
  by (rule bit_eqI) (auto simp: bit_simps)

lemma eight_bytes:
  assumes "8 \<le> length (data :: byte list)"
  obtains b0 b1 b2 b3 b4 b5 b6 b7 rest where "data = [b0, b1, b2, b3, b4, b5, b6, b7] @ rest"
proof
  have "[data ! 0, data ! 1, data ! 2, data ! 3, data ! 4, data ! 5, data ! 6, data ! 7] = take 8 data"
    using assms by (intro nth_equalityI) (auto simp: less_Suc_eq numeral_eq_Suc)
  then show "data = [data ! 0, data ! 1, data ! 2, data ! 3, data ! 4, data ! 5, data ! 6, data ! 7] @ drop 8 data"
    using append_take_drop_id [of 8 data] by simp
qed

lemma take_2_2: "take 2 xs @ take 4 (drop 2 xs) = take 6 xs"
  "take 8 xs @ take 8 (drop 8 xs) = take 16 xs" "take 8 xs @ take 2 (drop 8 xs) = take 10 xs"
  using take_add [of 2 4 xs] take_add [of 8 8 xs] take_add [of 8 2 xs] by simp_all

lemma DecodeMessageHeader_sound:
  assumes "DecodeMessageHeader data = Ok (h, n)"
  shows "mh_bytes h = (data ! 0 AND 0xF7) # take (n - 1) (drop 1 data)"
proof -
  have len: "8 \<le> length data" "n \<le> length data" and n: "n = mh_size (data ! 0)"
    using assms DecodeMessageHeader_domain [of data n] by auto
  from eight_bytes [OF len(1)] obtain b0 b1 b2 b3 b4 b5 b6 b7 rest where
    d: "data = [b0, b1, b2, b3, b4, b5, b6, b7] @ rest" .
  have f: "Flags h = b0" "SessionID h = get_at 1 2 data" "SecurityFlags h = b3"
    "MessageCounter h = get_at 4 4 data" "HasSourceNodeID h \<longleftrightarrow> b0 AND FlagSourceNodeID \<noteq> 0"
    "HasSourceNodeID h \<Longrightarrow> SourceNodeID h = get_at 8 8 data"
    "HasDestinationNodeID h \<longleftrightarrow> b0 AND FlagDSIZMask = DSIZNodeID"
    "HasDestinationNodeID h \<Longrightarrow> DestinationNodeID h = get_at (n - 8) 8 data"
    "HasDestinationGroupID h \<longleftrightarrow> b0 AND FlagDSIZMask = DSIZGroup"
    "HasDestinationGroupID h \<Longrightarrow> DestinationGroupID h = get_at (n - 2) 2 data"
    and known: "mh_known b0"
    using assms unfolding d
    by (auto simp: DecodeMessageHeader_def zero_header_def Let_def mh_known_def bind_res_Ok_iff const_defs
        split: if_splits)
  have four: "b0 AND 4 = 0 \<or> b0 AND 4 = 4" using and_single_bit [of b0 2] by (simp split: if_splits)
  have flags: "mh_flags h = b0 AND 0xF7"
    using four known f(5,7,9) unfolding mh_flags_mask [symmetric, of b0] mh_flags_def f(1)
    by (auto simp: mh_known_def const_defs)
  have *: "le_put 2 (SessionID h) = [b1, b2]" "le_put 4 (MessageCounter h) = [b4, b5, b6, b7]"
    by (simp_all add: f(2,4) le_put_get_at d)
  have **: "HasSourceNodeID h \<Longrightarrow> le_put 8 (SourceNodeID h) = take 8 rest"
    "HasDestinationNodeID h \<Longrightarrow> le_put 8 (DestinationNodeID h) = take 8 (drop (n - 16) rest)"
    "HasDestinationGroupID h \<Longrightarrow> le_put 2 (DestinationGroupID h) = take 2 (drop (n - 10) rest)"
    using len n f by (auto simp: le_put_get_at d mh_size_def)
  show ?thesis
    using len n f(3,5,7,9) * ** by (auto simp: mh_bytes_def flags d mh_size_def take_2_2 const_defs)
qed

subsection \<open>Properties\<close>

definition sample_header :: MessageHeader where
  "sample_header = zero_header\<lparr>SessionID := 0x1234, SecurityFlags := 1, MessageCounter := 7,
     SourceNodeID := 0x1122334455667788, HasSourceNodeID := True, DestinationGroupID := 9,
     HasDestinationGroupID := True\<rparr>"

definition sample_protocol :: ProtocolHeader where
  "sample_protocol = \<lparr>ExchangeFlags = 5, ProtocolOpcode = 8, ExchangeID = 0x0102, ProtocolID = 1,
     VendorID = 0, HasVendorID = False, AckMessageCounter = 77, HasAckCounter = True\<rparr>"

text \<open>
  C4 Message header round trip: encoding a header never fails, and decoding the bytes, whatever
  follows them, gives the header back with its flags recomputed and absent fields zero, and consumes
  exactly these bytes.
\<close>

theorem message_header_roundtrip:
  "\<exists>bs. EncodeMessageHeader h = Ok bs \<and> DecodeMessageHeader (bs @ rest) = Ok (norm_header h, length bs)"
  by (simp add: EncodeMessageHeader_bytes DecodeMessageHeader_mh_bytes)

text \<open>
  Message header decoder: it never panics; it accepts exactly the inputs that hold the length their
  first byte announces with a known destination size; and re-encoding what it returns gives the
  consumed bytes back, except for the reserved bit 3 of the first byte, which is cleared.
\<close>

theorem message_header_decoder_exact:
  "DecodeMessageHeader data \<noteq> Panic \<and>
   ((\<exists>h. DecodeMessageHeader data = Ok (h, n)) \<longleftrightarrow>
     8 \<le> length data \<and> mh_known (data ! 0) \<and> n = mh_size (data ! 0) \<and> n \<le> length data) \<and>
   (DecodeMessageHeader data = Ok (h, n) \<longrightarrow>
     EncodeMessageHeader h = Ok ((data ! 0 AND 0xF7) # take (n - 1) (drop 1 data)))"
  using DecodeMessageHeader_no_panic DecodeMessageHeader_domain DecodeMessageHeader_sound
  by (simp add: EncodeMessageHeader_bytes)

theorem message_header_decoder_exact_witness:
  "EncodeMessageHeader (norm_header sample_header)
    = Ok ((mh_bytes sample_header ! 0 AND 0xF7) # take (length (mh_bytes sample_header) - 1) (drop 1 (mh_bytes sample_header)))"
  using message_header_decoder_exact [of "mh_bytes sample_header" "length (mh_bytes sample_header)" "norm_header sample_header"]
    DecodeMessageHeader_mh_bytes [of sample_header "[]"]
  by simp

text \<open>
  Protocol header round trip: a header whose flags announce only fields it carries is decoded to
  itself, with the flags of its fields set and absent fields zero, whatever payload follows.
\<close>

theorem protocol_header_roundtrip:
  assumes "flags_consistent p"
  shows "\<exists>bs. EncodeProtocolHeader p = Ok bs \<and> DecodeProtocolHeader (bs @ payload) = Ok (norm_protocol p, length bs)"
  using DecodeProtocolHeader_ph_bytes [OF assms] by (simp add: EncodeProtocolHeader_bytes)

theorem protocol_header_roundtrip_witness:
  "\<exists>bs. EncodeProtocolHeader sample_protocol = Ok bs \<and>
     DecodeProtocolHeader (bs @ [1, 2, 3]) = Ok (norm_protocol sample_protocol, length bs)"
  by (rule protocol_header_roundtrip)
    (simp add: flags_consistent_def sample_protocol_def const_defs)

text \<open>
  Stale acknowledgment flag: a header with the ACK bit set in its flags but no acknowledgment
  counter is encoded with the bit and without the counter, and the decoder then takes the first four
  payload bytes for the counter.
\<close>

theorem stale_ack_flag_eats_payload:
  assumes "ExchangeFlags p AND ExFlagACK \<noteq> 0" and "\<not> HasAckCounter p"
    and "HasVendorID p \<or> ExchangeFlags p AND ExFlagVendor = 0" and "4 \<le> length payload"
  shows "\<exists>bs p'. EncodeProtocolHeader p = Ok bs \<and> length bs = 6 + (if HasVendorID p then 2 else 0) \<and>
     DecodeProtocolHeader (bs @ payload) = Ok (p', length bs + 4) \<and>
     HasAckCounter p' \<and> AckMessageCounter p' = le_get (take 4 payload)"
proof -
  have flags: "ph_flags p AND ExFlagVendor = 0 \<longleftrightarrow> \<not> HasVendorID p" "ph_flags p AND ExFlagACK \<noteq> 0"
    "(ph_bytes p @ payload) ! 0 = ph_flags p"
    using assms by (auto simp: ph_bytes_def ph_flags_def const_defs bit.conj_disj_distrib2)
  have "\<exists>p'. DecodeProtocolHeader (ph_bytes p @ payload) = Ok (p', length (ph_bytes p) + 4) \<and>
     HasAckCounter p' \<and> AckMessageCounter p' = le_get (take 4 payload)"
    using assms(2,4) unfolding DecodeProtocolHeader_def length_append length_ph_bytes Let_def flags(3)
    by (simp add: flags) (auto simp: get_at_def ph_bytes_def)
  then show ?thesis using assms(2) by (auto simp: EncodeProtocolHeader_bytes length_ph_bytes)
qed

theorem stale_ack_flag_eats_payload_witness:
  "\<exists>bs p'. EncodeProtocolHeader (sample_protocol\<lparr>ExchangeFlags := 2, HasAckCounter := False\<rparr>) = Ok bs \<and>
     length bs = 6 + (if HasVendorID (sample_protocol\<lparr>ExchangeFlags := 2, HasAckCounter := False\<rparr>) then 2 else 0) \<and>
     DecodeProtocolHeader (bs @ [1, 2, 3, 4]) = Ok (p', length bs + 4) \<and>
     HasAckCounter p' \<and> AckMessageCounter p' = le_get (take 4 [1, 2, 3, 4])"
  by (rule stale_ack_flag_eats_payload) (simp_all add: sample_protocol_def const_defs)

end
