(* ===== verification/Aes.thy ===== *)
theory Aes
  imports Prelude
begin

text \<open>
  AES-128 encryption of one block (FIPS 197), as \<^verbatim>\<open>crypto/aes\<close> of the Go standard library provides
  it: \<^verbatim>\<open>aes.NewCipher(key)\<close> with a 16-byte key followed by \<^verbatim>\<open>block.Encrypt\<close>.  CCM mode only uses the
  forward direction.
\<close>

text \<open>The S-box, as the standard tabulates it: one row per high nibble.\<close>

definition aes_sbox_table :: "byte list list" where
  "aes_sbox_table =
    [[0x63, 0x7c, 0x77, 0x7b, 0xf2, 0x6b, 0x6f, 0xc5, 0x30, 0x01, 0x67, 0x2b, 0xfe, 0xd7, 0xab, 0x76],
     [0xca, 0x82, 0xc9, 0x7d, 0xfa, 0x59, 0x47, 0xf0, 0xad, 0xd4, 0xa2, 0xaf, 0x9c, 0xa4, 0x72, 0xc0],
     [0xb7, 0xfd, 0x93, 0x26, 0x36, 0x3f, 0xf7, 0xcc, 0x34, 0xa5, 0xe5, 0xf1, 0x71, 0xd8, 0x31, 0x15],
     [0x04, 0xc7, 0x23, 0xc3, 0x18, 0x96, 0x05, 0x9a, 0x07, 0x12, 0x80, 0xe2, 0xeb, 0x27, 0xb2, 0x75],
     [0x09, 0x83, 0x2c, 0x1a, 0x1b, 0x6e, 0x5a, 0xa0, 0x52, 0x3b, 0xd6, 0xb3, 0x29, 0xe3, 0x2f, 0x84],
     [0x53, 0xd1, 0x00, 0xed, 0x20, 0xfc, 0xb1, 0x5b, 0x6a, 0xcb, 0xbe, 0x39, 0x4a, 0x4c, 0x58, 0xcf],
     [0xd0, 0xef, 0xaa, 0xfb, 0x43, 0x4d, 0x33, 0x85, 0x45, 0xf9, 0x02, 0x7f, 0x50, 0x3c, 0x9f, 0xa8],
     [0x51, 0xa3, 0x40, 0x8f, 0x92, 0x9d, 0x38, 0xf5, 0xbc, 0xb6, 0xda, 0x21, 0x10, 0xff, 0xf3, 0xd2],
     [0xcd, 0x0c, 0x13, 0xec, 0x5f, 0x97, 0x44, 0x17, 0xc4, 0xa7, 0x7e, 0x3d, 0x64, 0x5d, 0x19, 0x73],
     [0x60, 0x81, 0x4f, 0xdc, 0x22, 0x2a, 0x90, 0x88, 0x46, 0xee, 0xb8, 0x14, 0xde, 0x5e, 0x0b, 0xdb],
     [0xe0, 0x32, 0x3a, 0x0a, 0x49, 0x06, 0x24, 0x5c, 0xc2, 0xd3, 0xac, 0x62, 0x91, 0x95, 0xe4, 0x79],
     [0xe7, 0xc8, 0x37, 0x6d, 0x8d, 0xd5, 0x4e, 0xa9, 0x6c, 0x56, 0xf4, 0xea, 0x65, 0x7a, 0xae, 0x08],
     [0xba, 0x78, 0x25, 0x2e, 0x1c, 0xa6, 0xb4, 0xc6, 0xe8, 0xdd, 0x74, 0x1f, 0x4b, 0xbd, 0x8b, 0x8a],
     [0x70, 0x3e, 0xb5, 0x66, 0x48, 0x03, 0xf6, 0x0e, 0x61, 0x35, 0x57, 0xb9, 0x86, 0xc1, 0x1d, 0x9e],
     [0xe1, 0xf8, 0x98, 0x11, 0x69, 0xd9, 0x8e, 0x94, 0x9b, 0x1e, 0x87, 0xe9, 0xce, 0x55, 0x28, 0xdf],
     [0x8c, 0xa1, 0x89, 0x0d, 0xbf, 0xe6, 0x42, 0x68, 0x41, 0x99, 0x2d, 0x0f, 0xb0, 0x54, 0xbb, 0x16]]"

definition aes_sbox :: "byte \<Rightarrow> byte" where
  "aes_sbox b = aes_sbox_table ! (unat b div 16) ! (unat b mod 16)"

definition xtime :: "byte \<Rightarrow> byte" where
  "xtime b = push_bit 1 b XOR (if bit b 7 then 0x1b else 0)"

text \<open>The state is the 16 bytes of the block in column order.\<close>

definition shift_rows :: "byte list \<Rightarrow> byte list" where
  "shift_rows s = map (\<lambda>i. s ! ((i + 4 * (i mod 4)) mod 16)) [0..<16]"

definition mix_columns :: "byte list \<Rightarrow> byte list" where
  "mix_columns s = map (\<lambda>i.
     let c = 4 * (i div 4); a = (\<lambda>j. s ! (c + (i + j) mod 4))
     in xtime (a 0) XOR (xtime (a 1) XOR a 1) XOR a 2 XOR a 3) [0..<16]"

definition add_round_key :: "byte list \<Rightarrow> byte list \<Rightarrow> byte list" where
  "add_round_key k s = map (\<lambda>i. s ! i XOR k ! i) [0..<16]"

text \<open>The next round key from the previous one and its round constant.\<close>

definition next_round_key :: "byte list \<Rightarrow> byte \<Rightarrow> byte list" where
  "next_round_key k rcon =
     (let t = [aes_sbox (k ! 13) XOR rcon, aes_sbox (k ! 14), aes_sbox (k ! 15), aes_sbox (k ! 12)];
          w0 = map2 (XOR) (take 4 k) t;
          w1 = map2 (XOR) (take 4 (drop 4 k)) w0;
          w2 = map2 (XOR) (take 4 (drop 8 k)) w1;
          w3 = map2 (XOR) (take 4 (drop 12 k)) w2
      in w0 @ w1 @ w2 @ w3)"

definition aes_rcons :: "byte list" where
  "aes_rcons = [0x01, 0x02, 0x04, 0x08, 0x10, 0x20, 0x40, 0x80, 0x1b]"

definition aes_round :: "byte list \<times> byte list \<Rightarrow> byte \<Rightarrow> byte list \<times> byte list" where
  "aes_round = (\<lambda>(k, s) rcon.
     let k' = next_round_key k rcon
     in (k', add_round_key k' (mix_columns (shift_rows (map aes_sbox s)))))"

definition aes128 :: "byte list \<Rightarrow> byte list \<Rightarrow> byte list" where
  "aes128 key block =
     (let (k, s) = foldl aes_round (key, add_round_key key block) aes_rcons
      in add_round_key (next_round_key k 0x36) (shift_rows (map aes_sbox s)))"

lemma length_aes128 [simp]: "length (aes128 key block) = 16"
  by (simp add: aes128_def add_round_key_def case_prod_beta)

end
