(* ===== verification/Aes_Ccm.thy ===== *)
theory Aes_Ccm
  imports Aes
begin

text \<open>
  \<^verbatim>\<open>internal/crypto/aesccm.go\<close>: AES-128-CCM with 13-byte nonces and 16-byte tags, over the
  \<^verbatim>\<open>cipher.Block\<close> that the helper functions take as an argument.  The contract of the block cipher is
  the locale \<open>block_cipher\<close>, interpreted on AES-128; inside it, decryption inverts encryption and
  accepts nothing but what encryption produces.
\<close>

definition AESCCMTagSize :: nat where [const_defs]: "AESCCMTagSize = 16"
definition AESCCMNonceSize :: nat where [const_defs]: "AESCCMNonceSize = 13"
definition aesccmLenFieldSize :: nat where [const_defs]: "aesccmLenFieldSize = 15 - AESCCMNonceSize"
definition block_size :: nat where [const_defs]: "block_size = 16"

subsection \<open>Helpers\<close>

text \<open>The loop of \<^verbatim>\<open>putLength\<close> fills the buffer from its end with the low bytes of the value.\<close>

fun putLength :: "nat \<Rightarrow> nat \<Rightarrow> byte list" where
  "putLength val 0 = []"
| "putLength val (Suc n) = putLength (val div 256) n @ [word_of_nat val]"

definition xorBytes :: "byte list \<Rightarrow> byte list \<Rightarrow> byte list" where
  "xorBytes a b = map2 (XOR) a b"

text \<open>The loop that XORs and encrypts whole blocks.\<close>

function mac_blocks :: "(byte list \<Rightarrow> byte list) \<Rightarrow> byte list \<Rightarrow> byte list \<Rightarrow> byte list" where
  "mac_blocks E x data =
     (if length data < block_size then x
      else mac_blocks E (E (xorBytes x (take block_size data))) (drop block_size data))"
  by pat_completeness auto
termination by (relation "measure (\<lambda>(E, x, data). length data)") (auto simp: block_size_def)

declare mac_blocks.simps [simp del]

definition ccmMACAAD :: "(byte list \<Rightarrow> byte list) \<Rightarrow> byte list \<Rightarrow> byte list \<Rightarrow> byte list" where
  "ccmMACAAD E x aad =
     (let la = length aad;
          lenEnc = (if la < 2 ^ 16 - 2 ^ 8 then [word_of_nat (la div 256), word_of_nat la]
                    else [0xff, 0xfe] @ putLength la 4);
          data = lenEnc @ aad;
          data = (if length data mod block_size \<noteq> 0
                  then data @ replicate (block_size - length data mod block_size) 0 else data)
      in mac_blocks E x data)"

definition ccmMACData :: "(byte list \<Rightarrow> byte list) \<Rightarrow> byte list \<Rightarrow> byte list \<Rightarrow> byte list" where
  "ccmMACData E x data =
     (let x' = mac_blocks E x data;
          tail = drop (length data div block_size * block_size) data
      in if tail \<noteq> [] then E (xorBytes x' (tail @ replicate (block_size - length tail) 0)) else x')"

definition ccmCBCMAC :: "(byte list \<Rightarrow> byte list) \<Rightarrow> byte list \<Rightarrow> byte list \<Rightarrow> byte list \<Rightarrow> byte list" where
  "ccmCBCMAC E nonce plaintext aad =
     (let flags = word_of_nat (aesccmLenFieldSize - 1);
          flags = flags OR push_bit 3 (word_of_nat ((AESCCMTagSize - 2) div 2));
          flags = (if length aad > 0 then flags OR push_bit 6 1 else flags);
          b0 = [flags] @ nonce @ putLength (length plaintext) aesccmLenFieldSize;
          x = E b0;
          x = (if length aad > 0 then ccmMACAAD E x aad else x)
      in take AESCCMTagSize (ccmMACData E x plaintext))"

text \<open>The counter block \<^verbatim>\<open>A_i\<close> and the loop over the data; \<open>ccmCTR\<close> returns the data and the tag.\<close>

definition ctr_block :: "byte list \<Rightarrow> nat \<Rightarrow> byte list" where
  "ctr_block nonce ctr = [word_of_nat (aesccmLenFieldSize - 1)] @ nonce @ putLength ctr aesccmLenFieldSize"

function ctr_loop :: "(byte list \<Rightarrow> byte list) \<Rightarrow> byte list \<Rightarrow> nat \<Rightarrow> byte list \<Rightarrow> byte list" where
  "ctr_loop E nonce ctr src =
     (if src = [] then []
      else xorBytes (take block_size src) (take (length (take block_size src)) (E (ctr_block nonce ctr))) @
           ctr_loop E nonce (ctr + 1) (drop block_size src))"
  by pat_completeness auto
termination by (relation "measure (\<lambda>(E, nonce, ctr, src). length src)") (auto simp: block_size_def)

declare ctr_loop.simps [simp del]

definition ccmCTR ::
  "(byte list \<Rightarrow> byte list) \<Rightarrow> byte list \<Rightarrow> byte list \<Rightarrow> byte list \<Rightarrow> byte list \<times> byte list" where
  "ccmCTR E nonce src tag =
     (ctr_loop E nonce 1 src, xorBytes tag (take AESCCMTagSize (E (ctr_block nonce 0))))"

subsection \<open>Encryption and decryption\<close>

text \<open>
  \<open>NewCipher key\<close> is \<^verbatim>\<open>aes.NewCipher\<close>, whose error (an unsupported key size) the length checks
  before it exclude.
\<close>

definition AESCCMEncrypt :: "byte list \<Rightarrow> byte list \<Rightarrow> byte list \<Rightarrow> byte list \<Rightarrow> byte list res" where
  "AESCCMEncrypt key nonce plaintext aad =
     (if length key \<noteq> 16 then
        Err (Errorf (''crypto: AES-CCM key must be 16 bytes, got '' @ fmt_d (length key)))
      else if length nonce \<noteq> AESCCMNonceSize then
        Err (Errorf (''crypto: AES-CCM nonce must be '' @ fmt_d AESCCMNonceSize @ '' bytes, got '' @ fmt_d (length nonce)))
      else if length plaintext > 2 ^ (8 * aesccmLenFieldSize) - 1 then
        Err (Errorf ''crypto: plaintext too long for AES-CCM'')
      else
        let E = aes128 key;
            tag = ccmCBCMAC E nonce plaintext aad;
            (out, tag) = ccmCTR E nonce plaintext tag
        in Ok (out @ tag))"

definition AESCCMDecrypt :: "byte list \<Rightarrow> byte list \<Rightarrow> byte list \<Rightarrow> byte list \<Rightarrow> byte list res" where
  "AESCCMDecrypt key nonce ciphertextWithTag aad =
     (if length key \<noteq> 16 then
        Err (Errorf (''crypto: AES-CCM key must be 16 bytes, got '' @ fmt_d (length key)))
      else if length nonce \<noteq> AESCCMNonceSize then
        Err (Errorf (''crypto: AES-CCM nonce must be '' @ fmt_d AESCCMNonceSize @ '' bytes, got '' @ fmt_d (length nonce)))
      else if length ciphertextWithTag < AESCCMTagSize then
        Err (Errorf ''crypto: AES-CCM ciphertext too short'')
      else
        let E = aes128 key;
            ctLen = length ciphertextWithTag - AESCCMTagSize;
            ciphertext = take ctLen ciphertextWithTag;
            encTag = drop ctLen ciphertextWithTag;
            (plaintext, tag) = ccmCTR E nonce ciphertext encTag;
            expectedTag = ccmCBCMAC E nonce plaintext aad
        in if tag \<noteq> expectedTag then Err (Errorf ''crypto: AES-CCM authentication failed'')
           else Ok plaintext)"

subsection \<open>Facts that need no cipher\<close>

lemma length_xorBytes [simp]: "length (xorBytes a b) = min (length a) (length b)"
  by (simp add: xorBytes_def)

lemma length_putLength [simp]: "length (putLength val n) = n"
  by (induction n arbitrary: val) auto

lemma xorBytes_twice: "length a \<le> length b \<Longrightarrow> xorBytes (xorBytes a b) b = a"
  by (auto simp: xorBytes_def xor.assoc intro!: nth_equalityI)

lemma xorBytes_append:
  "length a = length c \<Longrightarrow> xorBytes (a @ b) (c @ d) = xorBytes a c @ xorBytes b d"
  by (simp add: xorBytes_def)

lemma block_prefix:
  assumes "length c = length (take block_size src)" and "length (take block_size src) = 16 \<or> rest = []"
  shows "take block_size (c @ rest) = c" and "drop block_size (c @ rest) = rest"
  using assms by (auto simp: block_size_def min_def split: if_splits)

subsection \<open>The block cipher's contract\<close>

locale block_cipher =
  fixes E :: "byte list \<Rightarrow> byte list"
  assumes length_E: "length (E b) = 16"
begin

lemma length_mac_blocks: "length x = 16 \<Longrightarrow> length (mac_blocks E x data) = 16"
proof (induction data arbitrary: x rule: length_induct)
  case (1 data)
  then show ?case
    by (subst mac_blocks.simps) (simp add: block_size_def length_E)
qed

lemma length_ccmMACAAD: "length x = 16 \<Longrightarrow> length (ccmMACAAD E x aad) = 16"
  by (simp add: ccmMACAAD_def Let_def length_mac_blocks)

lemma length_ccmMACData: "length x = 16 \<Longrightarrow> length (ccmMACData E x data) = 16"
  by (simp add: ccmMACData_def Let_def length_mac_blocks length_E)

lemma length_ccmCBCMAC: "length (ccmCBCMAC E nonce plaintext aad) = 16"
  by (simp add: ccmCBCMAC_def Let_def length_ccmMACData length_ccmMACAAD length_E const_defs)

lemma length_ctr_loop: "length (ctr_loop E nonce ctr src) = length src"
proof (induction src arbitrary: ctr rule: length_induct)
  case (1 src)
  then show ?case
    by (subst ctr_loop.simps) (auto simp: block_size_def length_E)
qed

lemma ctr_loop_Nil: "ctr_loop E nonce ctr [] = []"
  by (subst ctr_loop.simps) simp

lemma ctr_loop_step:
  "src \<noteq> [] \<Longrightarrow> ctr_loop E nonce ctr src =
     xorBytes (take block_size src) (take (length (take block_size src)) (E (ctr_block nonce ctr))) @
     ctr_loop E nonce (ctr + 1) (drop block_size src)"
  by (subst ctr_loop.simps) simp

text \<open>The key stream only depends on the position, so a second pass restores the data.\<close>

lemma ctr_loop_twice: "ctr_loop E nonce ctr (ctr_loop E nonce ctr src) = src"
proof (induction src arbitrary: ctr rule: length_induct)
  case (1 src)
  show ?case
  proof (cases "src = []")
    case True
    then show ?thesis by (simp add: ctr_loop.simps)
  next
    case False
    let ?n = "length (take block_size src)"
    let ?c = "xorBytes (take block_size src) (take ?n (E (ctr_block nonce ctr)))"
    let ?rest = "ctr_loop E nonce (ctr + 1) (drop block_size src)"
    have step: "ctr_loop E nonce ctr src = ?c @ ?rest"
      using False by (rule ctr_loop_step)
    have len: "length ?c = ?n" by (simp add: length_E block_size_def)
    have short: "?n = 16 \<or> ?rest = []"
      by (cases "length src \<le> 16") (simp_all add: block_size_def ctr_loop_Nil min_def)
    have tk: "take block_size (?c @ ?rest) = ?c" "drop block_size (?c @ ?rest) = ?rest"
      using len short by (rule block_prefix)+
    have "?c @ ?rest \<noteq> []" using False len by (metis append_is_Nil_conv length_0_conv take_eq_Nil block_size_def zero_neq_numeral)
    then have "ctr_loop E nonce ctr (?c @ ?rest) =
        xorBytes ?c (take (length ?c) (E (ctr_block nonce ctr))) @ ctr_loop E nonce (ctr + 1) ?rest"
      by (rule ctr_loop_step [of "?c @ ?rest", unfolded tk])
    also have "xorBytes ?c (take (length ?c) (E (ctr_block nonce ctr))) = take block_size src"
      unfolding len by (rule xorBytes_twice) (simp add: length_E block_size_def)
    also have "ctr_loop E nonce (ctr + 1) ?rest = drop block_size src"
      using 1 False by (simp add: block_size_def)
    finally show ?thesis by (simp add: step)
  qed
qed

lemma ccmCTR_twice:
  assumes "length tag = 16" and "ccmCTR E nonce src tag = (dst, tag')"
  shows "ccmCTR E nonce dst tag' = (src, tag)" and "length dst = length src" and "length tag' = 16"
  using assms by (auto simp: ccmCTR_def ctr_loop_twice length_ctr_loop length_E xorBytes_twice const_defs)

end

text \<open>AES-128 meets the contract under every key.\<close>

interpretation aes: block_cipher "aes128 key" for key
  by unfold_locales simp

subsection \<open>Encryption and decryption are inverse\<close>

text \<open>
  The output of encryption without its checks.  Beyond 65535 bytes of plaintext, the length in the
  first block and the counters are cut to their two bytes.
\<close>

definition ccm_seal :: "byte list \<Rightarrow> byte list \<Rightarrow> byte list \<Rightarrow> byte list \<Rightarrow> byte list" where
  "ccm_seal key nonce plaintext aad =
     (let (out, tag) = ccmCTR (aes128 key) nonce plaintext (ccmCBCMAC (aes128 key) nonce plaintext aad)
      in out @ tag)"

lemma AESCCMEncrypt_seal:
  "AESCCMEncrypt key nonce pt aad = Ok ct \<longleftrightarrow>
     length key = 16 \<and> length nonce = 13 \<and> length pt \<le> 65535 \<and> ct = ccm_seal key nonce pt aad"
  by (auto simp: AESCCMEncrypt_def ccm_seal_def Let_def const_defs case_prod_beta)

lemma length_ccm_seal: "length (ccm_seal key nonce pt aad) = length pt + 16"
  by (simp add: ccm_seal_def ccmCTR_def aes.length_ctr_loop aes.length_ccmCBCMAC const_defs)

lemma AESCCMDecrypt_seal:
  "AESCCMDecrypt key nonce ct aad = Ok pt \<longleftrightarrow>
     length key = 16 \<and> length nonce = 13 \<and> ct = ccm_seal key nonce pt aad" (is "?l \<longleftrightarrow> ?r")
proof
  assume ?r
  obtain out tag where c: "ccmCTR (aes128 key) nonce pt (ccmCBCMAC (aes128 key) nonce pt aad) = (out, tag)"
    by (cases "ccmCTR (aes128 key) nonce pt (ccmCBCMAC (aes128 key) nonce pt aad)")
  with \<open>?r\<close> have ct: "ct = out @ tag" and k: "length key = 16" "length nonce = 13"
    by (simp_all add: ccm_seal_def)
  from k aes.ccmCTR_twice [OF aes.length_ccmCBCMAC c] show ?l
    unfolding ct by (simp add: AESCCMDecrypt_def Let_def const_defs)
next
  assume ?l
  define n where "n = length ct - 16"
  obtain dst tag where c: "ccmCTR (aes128 key) nonce (take n ct) (drop n ct) = (dst, tag)"
    by (cases "ccmCTR (aes128 key) nonce (take n ct) (drop n ct)")
  from \<open>?l\<close> c have k: "length key = 16" "length nonce = 13" "16 \<le> length ct"
    and "pt = dst" "tag = ccmCBCMAC (aes128 key) nonce pt aad"
    by (auto simp: AESCCMDecrypt_def Let_def const_defs n_def split: if_splits)
  with aes.ccmCTR_twice [OF _ c] have "ccm_seal key nonce pt aad = take n ct @ drop n ct"
    by (simp add: ccm_seal_def n_def)
  with k show ?r by simp
qed

text \<open>
  The contract of authenticated encryption, as the message codec relies on it.
\<close>

locale aead =
  fixes enc dec :: "byte list \<Rightarrow> byte list \<Rightarrow> byte list \<Rightarrow> byte list \<Rightarrow> byte list res"
    and seal :: "byte list \<Rightarrow> byte list \<Rightarrow> byte list \<Rightarrow> byte list \<Rightarrow> byte list"
  assumes enc_ok: "length key = 16 \<Longrightarrow> length nonce = 13 \<Longrightarrow> length pt \<le> 65535 \<Longrightarrow>
      \<exists>ct. enc key nonce pt aad = Ok ct"
    and enc_length: "enc key nonce pt aad = Ok ct \<Longrightarrow> length ct = length pt + 16"
    and dec_length: "dec key nonce ct aad = Ok pt \<Longrightarrow> length ct = length pt + 16"
    and no_panic: "enc key nonce pt aad \<noteq> Panic" "dec key nonce ct aad \<noteq> Panic"
    and dec_enc: "enc key nonce pt aad = Ok ct \<Longrightarrow> dec key nonce ct aad = Ok pt"
    and enc_dec: "dec key nonce ct aad = Ok pt \<Longrightarrow> length pt \<le> 65535 \<Longrightarrow> enc key nonce pt aad = Ok ct"
    and dec_seal: "dec key nonce ct aad = Ok pt \<Longrightarrow> ct = seal key nonce pt aad"
begin

lemma dec_inject:
  assumes "dec key nonce ct aad = Ok pt" and "dec key nonce ct' aad = Ok pt"
  shows "ct = ct'"
  using dec_seal [OF assms(1)] dec_seal [OF assms(2)] by simp

end

lemma AESCCM_no_panic: "AESCCMEncrypt key nonce pt aad \<noteq> Panic" "AESCCMDecrypt key nonce ct aad \<noteq> Panic"
  by (simp_all add: AESCCMEncrypt_def AESCCMDecrypt_def Let_def case_prod_beta)

interpretation ccm: aead AESCCMEncrypt AESCCMDecrypt ccm_seal
  by unfold_locales (auto simp: AESCCMEncrypt_seal AESCCMDecrypt_seal length_ccm_seal AESCCM_no_panic)

subsection \<open>Properties\<close>

text \<open>
  C5 CCM round trip: with a 16-byte key, a 13-byte nonce and at most 65535 bytes of plaintext,
  encryption succeeds, adds 16 bytes, and decryption with the same key, nonce and associated data
  returns the plaintext.
\<close>

theorem ccm_roundtrip:
  assumes "length key = 16" and "length nonce = 13" and "length pt \<le> 65535"
  shows "\<exists>ct. AESCCMEncrypt key nonce pt aad = Ok ct \<and> length ct = length pt + 16 \<and>
     AESCCMDecrypt key nonce ct aad = Ok pt"
  using ccm.enc_ok [OF assms, of aad] ccm.enc_length ccm.dec_enc by blast

theorem ccm_roundtrip_witness:
  "\<exists>ct. AESCCMEncrypt (replicate 16 7) (replicate 13 1) [1, 2, 3] [9] = Ok ct \<and>
     length ct = length [1, 2, 3 :: byte] + 16 \<and> AESCCMDecrypt (replicate 16 7) (replicate 13 1) ct [9] = Ok [1, 2, 3]"
  by (rule ccm_roundtrip) simp_all

text \<open>
  C6 CCM authenticity: decryption accepts, for a key of 16 bytes and a nonce of 13, exactly the output
  of the encryption of its result, so for a key, nonce and associated data every plaintext has one
  accepted ciphertext, 16 bytes longer; and it never panics.  Up to 65535 bytes of plaintext this is
  what \<^verbatim>\<open>AESCCMEncrypt\<close> returns; longer ones \<^verbatim>\<open>AESCCMEncrypt\<close> refuses, while
  \<^verbatim>\<open>AESCCMDecrypt\<close>, which has no such check, accepts what the unchecked encryption would give.
\<close>

theorem ccm_accepts_only_sealed:
  "AESCCMDecrypt key nonce ct aad \<noteq> Panic \<and>
   (AESCCMDecrypt key nonce ct aad = Ok pt \<longleftrightarrow>
     length key = 16 \<and> length nonce = 13 \<and> ct = ccm_seal key nonce pt aad) \<and>
   (length key = 16 \<and> length nonce = 13 \<longrightarrow>
     (if length pt \<le> 65535 then AESCCMEncrypt key nonce pt aad = Ok (ccm_seal key nonce pt aad)
      else AESCCMEncrypt key nonce pt aad = Err (Errorf ''crypto: plaintext too long for AES-CCM''))) \<and>
   length (ccm_seal key nonce pt aad) = length pt + 16"
proof (intro conjI impI)
  show "AESCCMDecrypt key nonce ct aad = Ok pt \<longleftrightarrow>
      length key = 16 \<and> length nonce = 13 \<and> ct = ccm_seal key nonce pt aad"
    by (rule AESCCMDecrypt_seal)
  assume "length key = 16 \<and> length nonce = 13"
  then show "if length pt \<le> 65535 then AESCCMEncrypt key nonce pt aad = Ok (ccm_seal key nonce pt aad)
      else AESCCMEncrypt key nonce pt aad = Err (Errorf ''crypto: plaintext too long for AES-CCM'')"
    by (auto simp: AESCCMEncrypt_seal) (simp add: AESCCMEncrypt_def const_defs)
qed (rule AESCCM_no_panic length_ccm_seal)+

theorem ccm_accepts_only_sealed_witness:
  "AESCCMDecrypt (replicate 16 7) (replicate 13 1) (ccm_seal (replicate 16 7) (replicate 13 1) [1, 2] []) [] = Ok [1, 2] \<and>
   AESCCMEncrypt (replicate 16 7) (replicate 13 1) [1, 2] [] = Ok (ccm_seal (replicate 16 7) (replicate 13 1) [1, 2] [])"
  using ccm_accepts_only_sealed [of "replicate 16 7" "replicate 13 1" "ccm_seal (replicate 16 7) (replicate 13 1) [1, 2] []" "[]" "[1, 2]"]
  by simp

end
