(* ===== verification/Session.thy ===== *)
theory Session
  imports Prelude
begin

text \<open>
  \<^verbatim>\<open>internal/protocol/session.go\<close>: sessions, their outgoing message counter, the replay window over
  the peer's counters, and the table that allocates session identifiers.  The replay window is a
  high-water mark with a 32-bit bitmap; its specification is the set of accepted counters, and the
  contract between the two is the locale \<open>replay_filter\<close>.  A session is a value here: the table's
  pointers are the keys of its map.
\<close>

subsection \<open>Sessions\<close>

type_synonym SessionType = int

definition SessionUnsecured :: SessionType where [const_defs]: "SessionUnsecured = 0"
definition SessionPASE :: SessionType where [const_defs]: "SessionPASE = 1"
definition SessionCASE :: SessionType where [const_defs]: "SessionCASE = 2"

definition SessionType_String :: "SessionType \<Rightarrow> string" where
  "SessionType_String st =
     (if st = SessionUnsecured then ''Unsecured''
      else if st = SessionPASE then ''PASE''
      else if st = SessionCASE then ''CASE''
      else ''Unknown'')"

record peerMessageCounter =
  maxSeen :: u32
  initiated :: bool
  bitmap :: u32

definition zero_peer_counter :: peerMessageCounter where
  "zero_peer_counter = \<lparr>maxSeen = 0, initiated = False, bitmap = 0\<rparr>"

text \<open>A nil key is \<open>None\<close>: the codec tests the keys against nil.\<close>

record Session =
  ID :: u16
  PeerSessionID :: u16
  Type :: SessionType
  LocalNodeID :: u64
  PeerNodeID :: u64
  EncryptKey :: "byte list option"
  DecryptKey :: "byte list option"
  AttestationChallenge :: "byte list"
  localCounter :: u32
  peerCounter :: peerMessageCounter

text \<open>The atomic \<^verbatim>\<open>Add(1) - 1\<close>: both operations wrap.\<close>

definition NextMessageCounter :: "Session \<Rightarrow> u32 \<times> Session" where
  "NextMessageCounter s =
     (let s = s\<lparr>localCounter := localCounter s + 1\<rparr> in (localCounter s - 1, s))"

subsection \<open>The replay window\<close>

definition windowSize :: u32 where [const_defs]: "windowSize = 32"

definition validate :: "peerMessageCounter \<Rightarrow> u32 \<Rightarrow> err option \<times> peerMessageCounter" where
  "validate pc counter =
     (if \<not> initiated pc then
        (None, pc\<lparr>maxSeen := counter, initiated := True, bitmap := 1\<rparr>)
      else if counter > maxSeen pc then
        (let diff = counter - maxSeen pc;
             pc = (if diff \<ge> windowSize then pc\<lparr>bitmap := 0\<rparr>
                   else pc\<lparr>bitmap := push_bit (unat diff) (bitmap pc)\<rparr>);
             pc = pc\<lparr>bitmap := bitmap pc OR 1\<rparr>
         in (None, pc\<lparr>maxSeen := counter\<rparr>))
      else
        (let diff = maxSeen pc - counter in
         if diff \<ge> windowSize then
           (Some (Errorf (''protocol: message counter '' @ fmt_d (unat counter) @ '' too old (max seen ''
              @ fmt_d (unat (maxSeen pc)) @ '')'')), pc)
         else
           (let bit = push_bit (unat diff) (1 :: u32) in
            if bitmap pc AND bit \<noteq> 0 then
              (Some (Errorf (''protocol: duplicate message counter '' @ fmt_d (unat counter))), pc)
            else (None, pc\<lparr>bitmap := bitmap pc OR bit\<rparr>))))"

definition ValidatePeerCounter :: "Session \<Rightarrow> u32 \<Rightarrow> err option \<times> Session" where
  "ValidatePeerCounter s counter =
     (let (e, pc) = validate (peerCounter s) counter in (e, s\<lparr>peerCounter := pc\<rparr>))"

text \<open>
  The specification keeps the set of all counters accepted so far: a counter is accepted if it is
  the first, a new maximum, or a new one less than 32 below the maximum.
\<close>

definition accepts :: "nat set \<Rightarrow> nat \<Rightarrow> bool" where
  "accepts S c \<longleftrightarrow> S = {} \<or> c > Max S \<or> (Max S - c < 32 \<and> c \<notin> S)"

definition window_rel :: "peerMessageCounter \<Rightarrow> nat set \<Rightarrow> bool" where
  "window_rel pc S \<longleftrightarrow> finite S \<and> (initiated pc \<longleftrightarrow> S \<noteq> {}) \<and>
     (initiated pc \<longrightarrow> Max S = unat (maxSeen pc) \<and>
       (\<forall>i < 32. bit (bitmap pc) i \<longleftrightarrow> i \<le> unat (maxSeen pc) \<and> unat (maxSeen pc) - i \<in> S))"

lemma window_rel_init: "window_rel zero_peer_counter {}"
  by (simp add: window_rel_def zero_peer_counter_def)

lemma validate_first:
  assumes "\<not> initiated pc" and "window_rel pc S"
  shows "fst (validate pc c) = None" and "window_rel (snd (validate pc c)) {unat c}"
  using assms by (auto simp: validate_def window_rel_def bit_simps)

lemma unat_diff: "(b :: u32) \<le> a \<Longrightarrow> unat (a - b) = unat a - unat b"
  by (simp add: unat_sub)

lemma validate_advance:
  assumes "initiated pc" and "c > maxSeen pc" and "window_rel pc S"
  shows "fst (validate pc c) = None" and "window_rel (snd (validate pc c)) (insert (unat c) S)"
proof -
  let ?m = "unat (maxSeen pc)"
  have S: "finite S" "S \<noteq> {}" "Max S = ?m"
    and b: "\<And>i. i < 32 \<Longrightarrow> bit (bitmap pc) i \<longleftrightarrow> i \<le> ?m \<and> ?m - i \<in> S"
    using assms by (auto simp: window_rel_def)
  have c: "?m < unat c" using assms(2) by (simp add: word_less_nat_alt)
  have d: "unat (c - maxSeen pc) = unat c - ?m" using assms(2) by (simp add: unat_diff)
  have mx: "Max (insert (unat c) S) = unat c" using S c by (simp add: max_def)
  have top: "x \<le> ?m" if "x \<in> S" for x using S that by (metis Max_ge)
  have dw: "c - maxSeen pc \<ge> windowSize \<longleftrightarrow> 32 \<le> unat c - ?m"
    by (simp add: windowSize_def word_le_nat_alt d)
  let ?b = "(if 32 \<le> unat c - ?m then 0 else push_bit (unat c - ?m) (bitmap pc)) OR 1 :: u32"
  have v: "validate pc c = (None, pc\<lparr>bitmap := ?b, maxSeen := c\<rparr>)"
    using assms(1,2) by (simp add: validate_def Let_def dw d)
  have "bit ?b i \<longleftrightarrow> i \<le> unat c \<and> (unat c - i = unat c \<or> unat c - i \<in> S)" if "i < 32" for i
  proof (cases "i < unat c - ?m")
    case True
    then have "unat c - i \<notin> S" using top [of "unat c - i"] c by auto
    with True c that show ?thesis by (auto simp: bit_simps)
  next
    case False
    then have "bit ?b i \<longleftrightarrow> bit (bitmap pc) (i - (unat c - ?m))" using c that by (auto simp: bit_simps)
    also have "\<dots> \<longleftrightarrow> i - (unat c - ?m) \<le> ?m \<and> ?m - (i - (unat c - ?m)) \<in> S" using that by (simp add: b)
    also have "\<dots> \<longleftrightarrow> i \<le> unat c \<and> unat c - i \<in> S" using False c by auto
    finally show ?thesis using False c by auto
  qed
  then show "fst (validate pc c) = None" "window_rel (snd (validate pc c)) (insert (unat c) S)"
    using S assms(1) mx unfolding v by (simp_all add: window_rel_def)
qed

lemma and_bit_u32: "(b :: u32) AND 2 ^ n = 0 \<longleftrightarrow> \<not> bit b n"
  by (rule and_exp_eq_0_iff_not_bit)

lemma validate_below:
  assumes "initiated pc" and "\<not> c > maxSeen pc" and "window_rel pc S"
  shows "fst (validate pc c) = None \<longleftrightarrow> accepts S (unat c)"
    and "window_rel (snd (validate pc c)) (if accepts S (unat c) then insert (unat c) S else S)"
proof -
  let ?m = "unat (maxSeen pc)"
  have S: "finite S" "S \<noteq> {}" "Max S = ?m"
    and b: "\<And>i. i < 32 \<Longrightarrow> bit (bitmap pc) i \<longleftrightarrow> i \<le> ?m \<and> ?m - i \<in> S"
    using assms by (auto simp: window_rel_def)
  have c: "unat c \<le> ?m" using assms(2) by (simp add: word_less_nat_alt)
  then have d: "unat (maxSeen pc - c) = ?m - unat c" by (simp add: unat_diff word_le_nat_alt)
  have dw: "maxSeen pc - c \<ge> windowSize \<longleftrightarrow> 32 \<le> ?m - unat c"
    by (simp add: windowSize_def word_le_nat_alt d)
  have acc: "accepts S (unat c) \<longleftrightarrow> ?m - unat c < 32 \<and> unat c \<notin> S"
    using S c by (auto simp: accepts_def)
  have seen: "bit (bitmap pc) (?m - unat c) \<longleftrightarrow> unat c \<in> S" if "?m - unat c < 32"
    using b [OF that] c by simp
  have v: "fst (validate pc c) = None \<longleftrightarrow> ?m - unat c < 32 \<and> \<not> bit (bitmap pc) (?m - unat c)"
    "snd (validate pc c) = (if ?m - unat c < 32 \<and> \<not> bit (bitmap pc) (?m - unat c)
       then pc\<lparr>bitmap := bitmap pc OR push_bit (?m - unat c) 1\<rparr> else pc)"
    using assms(1,2) by (auto simp: validate_def Let_def dw d and_bit_u32)
  show "fst (validate pc c) = None \<longleftrightarrow> accepts S (unat c)"
    using acc seen by (auto simp: v)
  show "window_rel (snd (validate pc c)) (if accepts S (unat c) then insert (unat c) S else S)"
  proof (cases "accepts S (unat c)")
    case True
    with acc have lt: "?m - unat c < 32" by simp
    have "Max (insert (unat c) S) = ?m" using S c by (simp add: max_def)
    moreover have "bit (bitmap pc OR push_bit (?m - unat c) 1) i \<longleftrightarrow>
        i \<le> ?m \<and> (?m - i = unat c \<or> ?m - i \<in> S)" if "i < 32" for i
      using b [OF that] c that by (auto simp: bit_simps)
    ultimately show ?thesis
      using True seen acc lt S assms(1) by (simp add: v window_rel_def)
  next
    case False
    with acc seen assms(3) show ?thesis by (auto simp: v)
  qed
qed

text \<open>Every call simulates one step of the specification.\<close>

lemma validate_refines:
  assumes "window_rel pc S"
  shows "fst (validate pc c) = None \<longleftrightarrow> accepts S (unat c)"
    and "window_rel (snd (validate pc c)) (if accepts S (unat c) then insert (unat c) S else S)"
proof -
  consider "\<not> initiated pc" | "initiated pc" "c > maxSeen pc" | "initiated pc" "\<not> c > maxSeen pc" by blast
  then have "(fst (validate pc c) = None \<longleftrightarrow> accepts S (unat c)) \<and>
    window_rel (snd (validate pc c)) (if accepts S (unat c) then insert (unat c) S else S)"
  proof cases
    case 1
    with assms have "S = {}" by (simp add: window_rel_def)
    with validate_first [OF 1 assms] show ?thesis by (simp add: accepts_def)
  next
    case 2
    then have "accepts S (unat c)" using assms by (auto simp: accepts_def window_rel_def word_less_nat_alt)
    with validate_advance [OF 2 assms] show ?thesis by simp
  next
    case 3
    from validate_below [OF 3 assms] show ?thesis by simp
  qed
  then show "fst (validate pc c) = None \<longleftrightarrow> accepts S (unat c)"
    and "window_rel (snd (validate pc c)) (if accepts S (unat c) then insert (unat c) S else S)" by simp_all
qed

subsection \<open>The contract of a replay filter\<close>

text \<open>
  A filter over any state that simulates the set specification.  What it accepts over a run is
  what the specification accepts, so it never accepts a counter twice.
\<close>

fun accepted :: "('s \<Rightarrow> u32 \<Rightarrow> err option \<times> 's) \<Rightarrow> 's \<Rightarrow> u32 list \<Rightarrow> u32 list" where
  "accepted f s [] = []"
| "accepted f s (c # cs) =
     (case f s c of (None, s') \<Rightarrow> c # accepted f s' cs | (Some _, s') \<Rightarrow> accepted f s' cs)"

fun spec_accepted :: "nat set \<Rightarrow> u32 list \<Rightarrow> u32 list" where
  "spec_accepted S [] = []"
| "spec_accepted S (c # cs) =
     (if accepts S (unat c) then c # spec_accepted (insert (unat c) S) cs else spec_accepted S cs)"

lemma accepts_fresh: "finite S \<Longrightarrow> accepts S c \<Longrightarrow> c \<notin> S"
  by (auto simp: accepts_def dest: Max_ge)

lemma spec_accepted_distinct:
  "finite S \<Longrightarrow> distinct (spec_accepted S cs) \<and> (\<forall>c \<in> set (spec_accepted S cs). unat c \<notin> S)"
proof (induction cs arbitrary: S)
  case (Cons c cs)
  from Cons.IH [of S] Cons.IH [of "insert (unat c) S"] Cons.prems accepts_fresh [of S "unat c"]
  show ?case by auto
qed simp

locale replay_filter =
  fixes step :: "'s \<Rightarrow> u32 \<Rightarrow> err option \<times> 's" and rel :: "'s \<Rightarrow> nat set \<Rightarrow> bool"
  assumes rel_finite: "rel s S \<Longrightarrow> finite S"
    and step_decides: "rel s S \<Longrightarrow> fst (step s c) = None \<longleftrightarrow> accepts S (unat c)"
    and step_tracks: "rel s S \<Longrightarrow> rel (snd (step s c)) (if accepts S (unat c) then insert (unat c) S else S)"
begin

lemma accepted_spec: "rel s S \<Longrightarrow> accepted step s cs = spec_accepted S cs"
proof (induction cs arbitrary: s S)
  case (Cons c cs)
  from step_decides [OF Cons.prems, of c] step_tracks [OF Cons.prems, of c] Cons.IH
  show ?case by (auto split: prod.splits option.splits)
qed simp

lemma accepted_distinct: "rel s S \<Longrightarrow> distinct (accepted step s cs)"
  using spec_accepted_distinct [OF rel_finite, of s S cs] by (simp add: accepted_spec)

end

interpretation window: replay_filter validate window_rel
proof
  show "finite S" if "window_rel s S" for s S using that by (simp add: window_rel_def)
qed (erule validate_refines)+

text \<open>A session with its window meets the same contract.\<close>

interpretation session_window: replay_filter ValidatePeerCounter "\<lambda>s. window_rel (peerCounter s)"
proof
  show "finite S" if "window_rel (peerCounter s) S" for s S using that by (simp add: window_rel_def)
qed (simp_all add: ValidatePeerCounter_def case_prod_beta validate_refines del: if_split)

subsection \<open>The session table\<close>

record SessionTable =
  sessions :: "u16 \<rightharpoonup> Session"
  nextID :: u16

definition NewSessionTable :: SessionTable where
  "NewSessionTable = \<lparr>sessions = Map.empty, nextID = 1\<rparr>"

text \<open>
  A new session has zero fields except those given; \<open>rnd\<close> is what \<^verbatim>\<open>rand.Read\<close> delivers for the
  4-byte buffer, \<open>None\<close> if it fails.
\<close>

definition new_session :: "u16 \<Rightarrow> SessionType \<Rightarrow> byte list option \<Rightarrow> Session" where
  "new_session i ty rnd =
     \<lparr>ID = i, PeerSessionID = 0, Type = ty, LocalNodeID = 0, PeerNodeID = 0, EncryptKey = None,
      DecryptKey = None, AttestationChallenge = [],
      localCounter = (case rnd of Some buf \<Rightarrow> le_get buf | None \<Rightarrow> 0),
      peerCounter = zero_peer_counter\<rparr>"

definition UnsecuredSession :: "SessionTable \<Rightarrow> byte list option \<Rightarrow> Session \<times> SessionTable" where
  "UnsecuredSession st rnd =
     (case sessions st 0 of
        Some s \<Rightarrow> (s, st)
      | None \<Rightarrow>
          let s = new_session 0 SessionUnsecured rnd
          in (s, st\<lparr>sessions := (sessions st)(0 \<mapsto> s)\<rparr>))"

text \<open>
  The search of \<^verbatim>\<open>CreateSession\<close>: an endless loop in the code, left when a free identifier is found
  or the search is back where it started.  \<open>None\<close> outside would be a loop that does not end.
\<close>

partial_function (option) search_id ::
  "(u16 \<rightharpoonup> Session) \<Rightarrow> u16 \<Rightarrow> u16 \<Rightarrow> (u16 option \<times> u16) option" where
  "search_id m startID next =
     (let i = next;
          next = next + 1;
          next = (if next = 0 then 1 else next)
      in if m i = None then Some (Some i, next)
         else if next = startID then Some (None, next)
         else search_id m startID next)"

definition CreateSession ::
  "SessionTable \<Rightarrow> SessionType \<Rightarrow> byte list option \<Rightarrow> (Session res \<times> SessionTable) option" where
  "CreateSession st sessionType rnd =
     map_option (\<lambda>(found, next).
       case found of
         Some i \<Rightarrow>
           let s = new_session i sessionType rnd
           in (Ok s, st\<lparr>sessions := (sessions st)(i \<mapsto> s), nextID := next\<rparr>)
       | None \<Rightarrow> (Err (Errorf ''protocol: session table full''), st\<lparr>nextID := next\<rparr>))
     (search_id (sessions st) (nextID st) (nextID st))"

definition GetSession :: "SessionTable \<Rightarrow> u16 \<Rightarrow> Session option" where
  "GetSession st i = sessions st i"

definition RemoveSession :: "SessionTable \<Rightarrow> u16 \<Rightarrow> SessionTable" where
  "RemoveSession st i = st\<lparr>sessions := (sessions st)(i := None)\<rparr>"

definition Session_Count :: "SessionTable \<Rightarrow> nat" where
  "Session_Count st = card (dom (sessions st))"

text \<open>The identifiers from \<open>start\<close> on, in the order the search visits them: 0 is skipped.\<close>

definition nth_id :: "u16 \<Rightarrow> nat \<Rightarrow> u16" where
  "nth_id start k = word_of_nat ((unat start - 1 + k) mod 65535 + 1)"

lemma unat_nth_id: "unat (nth_id start k) = (unat start - 1 + k) mod 65535 + 1"
proof -
  have "(unat start - 1 + k) mod 65535 < 65535" by (rule mod_less_divisor) simp
  then show ?thesis unfolding nth_id_def by (subst unat_word_of_nat_id) auto
qed

lemma nth_id_nonzero: "nth_id start k \<noteq> 0"
  by (metis unat_nth_id unat_0 add_is_0 one_neq_zero)

lemma u16_bounds: "start \<noteq> (0 :: u16) \<Longrightarrow> 0 < unat start \<and> unat start \<le> 65535"
proof -
  have "unat start < 2 ^ LENGTH(16)" by (rule unsigned_less)
  then show "start \<noteq> 0 \<Longrightarrow> ?thesis" by (simp add: unat_gt_0)
qed

lemma nth_id_0: "start \<noteq> 0 \<Longrightarrow> nth_id start 0 = start"
  using u16_bounds [of start]
  by (intro word_unat_eq_iff [THEN iffD2], cases "unat start") (simp_all add: unat_nth_id)

lemma nth_id_Suc:
  "nth_id start (Suc k) = (if nth_id start k + 1 = 0 then 1 else nth_id start k + 1)"
proof -
  let ?r = "(unat start - 1 + k) mod 65535"
  have r: "?r < 65535" by simp
  have "unat (nth_id start k + 1) = (?r + 2) mod 65536"
    by (simp add: unat_word_ariths unat_nth_id)
  then have "unat (nth_id start k + 1) = (if ?r = 65534 then 0 else ?r + 2)" using r by simp
  moreover have "(unat start - 1 + Suc k) mod 65535 = (if ?r = 65534 then 0 else Suc ?r)"
    by (simp add: mod_Suc)
  ultimately show ?thesis
    by (intro word_unat_eq_iff [THEN iffD2]) (auto simp: unat_nth_id unat_eq_zero [symmetric] split: if_splits)
qed

lemma nth_id_cycle:
  assumes "start \<noteq> 0" and "0 < k" and "k \<le> 65535"
  shows "nth_id start k = start \<longleftrightarrow> k = 65535"
proof -
  from u16_bounds [OF assms(1)] obtain s where s: "unat start = Suc s" "s < 65535" by (cases "unat start") auto
  have "nth_id start k = start \<longleftrightarrow> (s + k) mod 65535 = s"
    by (simp add: word_unat_eq_iff unat_nth_id s)
  also have "\<dots> \<longleftrightarrow> k = 65535"
  proof (cases "s + k < 65535")
    case True
    then show ?thesis using assms by simp
  next
    case False
    then have "(s + k) mod 65535 = s + k - 65535" using s assms by (simp add: mod_if)
    then show ?thesis using s assms False by auto
  qed
  finally show ?thesis .
qed

lemma nth_id_onto:
  assumes "start \<noteq> 0" and "i \<noteq> 0"
  shows "\<exists>k < 65535. nth_id start k = i"
proof -
  have s: "0 < unat start" "unat start \<le> 65535" and i: "0 < unat i" "unat i \<le> 65535"
    using u16_bounds assms by auto
  show ?thesis
  proof (cases "unat start \<le> unat i")
    case True
    with s i show ?thesis
      by (intro exI [of _ "unat i - unat start"]) (auto simp: word_unat_eq_iff unat_nth_id)
  next
    case False
    then have "(unat start - 1 + (65535 + unat i - unat start)) mod 65535 = unat i - 1"
      using s i by (simp add: mod_if)
    with s i False show ?thesis
      by (intro exI [of _ "65535 + unat i - unat start"]) (auto simp: word_unat_eq_iff unat_nth_id)
  qed
qed

lemma search_id_visits:
  assumes "start \<noteq> 0" and "k < 65535"
  shows "(\<exists>j < 65535. k \<le> j \<and> m (nth_id start j) = None \<and>
       search_id m start (nth_id start k) = Some (Some (nth_id start j), nth_id start (Suc j))) \<or>
     (\<forall>j. k \<le> j \<longrightarrow> j < 65535 \<longrightarrow> m (nth_id start j) \<noteq> None) \<and>
       search_id m start (nth_id start k) = Some (None, start)"
  using assms(2)
proof (induction "65535 - k" arbitrary: k rule: less_induct)
  case less
  have step: "search_id m start (nth_id start k) =
      (if m (nth_id start k) = None then Some (Some (nth_id start k), nth_id start (Suc k))
       else if nth_id start (Suc k) = start then Some (None, nth_id start (Suc k))
       else search_id m start (nth_id start (Suc k)))"
    by (subst search_id.simps) (simp add: Let_def nth_id_Suc)
  consider "m (nth_id start k) = None" | "m (nth_id start k) \<noteq> None" "Suc k = 65535"
    | "m (nth_id start k) \<noteq> None" "Suc k < 65535" using less.prems by linarith
  then show ?case
  proof cases
    case 1
    with step less.prems show ?thesis by auto
  next
    case 2
    then have "\<forall>j. k \<le> j \<longrightarrow> j < 65535 \<longrightarrow> j = k" by auto
    with 2(1) have "\<forall>j. k \<le> j \<longrightarrow> j < 65535 \<longrightarrow> m (nth_id start j) \<noteq> None" by metis
    moreover have "search_id m start (nth_id start k) = Some (None, start)"
      using 2 step nth_id_cycle [OF assms(1), of "Suc k"] by simp
    ultimately show ?thesis by blast
  next
    case 3
    with step nth_id_cycle [OF assms(1), of "Suc k"]
    have s: "search_id m start (nth_id start k) = search_id m start (nth_id start (Suc k))" by simp
    have "65535 - Suc k < 65535 - k" using 3 by simp
    from less.hyps [OF this 3(2)] show ?thesis
    proof
      assume "\<exists>j < 65535. Suc k \<le> j \<and> m (nth_id start j) = None \<and>
        search_id m start (nth_id start (Suc k)) = Some (Some (nth_id start j), nth_id start (Suc j))"
      then show ?thesis unfolding s by (meson Suc_leD)
    next
      assume "(\<forall>j. Suc k \<le> j \<longrightarrow> j < 65535 \<longrightarrow> m (nth_id start j) \<noteq> None) \<and>
        search_id m start (nth_id start (Suc k)) = Some (None, start)"
      then show ?thesis unfolding s using 3(1) by (metis Suc_leI le_less)
    qed
  qed
qed

lemma search_id_total:
  assumes "start \<noteq> 0"
  obtains (found) i nx where "search_id m start start = Some (Some i, nx)" "i \<noteq> 0" "m i = None" "nx \<noteq> 0"
  | (full) "search_id m start start = Some (None, start)" "\<forall>i. i \<noteq> 0 \<longrightarrow> m i \<noteq> None"
proof -
  have v: "(\<exists>j < 65535. m (nth_id start j) = None \<and>
       search_id m start start = Some (Some (nth_id start j), nth_id start (Suc j))) \<or>
     (\<forall>j < 65535. m (nth_id start j) \<noteq> None) \<and> search_id m start start = Some (None, start)"
    using search_id_visits [OF assms, of 0 m] by (simp add: nth_id_0 [OF assms])
  show thesis
  proof (cases "\<forall>j < 65535. m (nth_id start j) \<noteq> None")
    case True
    have "\<forall>i. i \<noteq> 0 \<longrightarrow> m i \<noteq> None" using True nth_id_onto [OF assms] by metis
    moreover have "search_id m start start = Some (None, start)" using v True by blast
    ultimately show thesis by (rule full [rotated])
  next
    case False
    with v show thesis using found nth_id_nonzero by blast
  qed
qed

text \<open>
  The table's invariant: the search starts at a non-zero identifier, and every session carries the
  identifier it is filed under; only the unsecured session has identifier 0.
\<close>

definition table_ok :: "SessionTable \<Rightarrow> bool" where
  "table_ok st \<longleftrightarrow> nextID st \<noteq> 0 \<and> (\<forall>i s. sessions st i = Some s \<longrightarrow> ID s = i)"

lemma ID_new_session [simp]: "ID (new_session i ty rnd) = i"
  by (simp add: new_session_def)

lemma table_ok_steps:
  "table_ok NewSessionTable"
  "table_ok st \<Longrightarrow> table_ok (snd (UnsecuredSession st rnd))"
  "table_ok st \<Longrightarrow> CreateSession st ty rnd = Some (r, st') \<Longrightarrow> table_ok st'"
  "table_ok st \<Longrightarrow> table_ok (RemoveSession st i)"
proof -
  show "table_ok NewSessionTable" by (simp add: table_ok_def NewSessionTable_def)
  show "table_ok st \<Longrightarrow> table_ok (snd (UnsecuredSession st rnd))"
    by (auto simp: table_ok_def UnsecuredSession_def Let_def split: option.splits)
  show "table_ok st \<Longrightarrow> table_ok (RemoveSession st i)"
    by (simp add: table_ok_def RemoveSession_def)
  assume ok: "table_ok st" and c: "CreateSession st ty rnd = Some (r, st')"
  then have "nextID st \<noteq> 0" by (simp add: table_ok_def)
  then show "table_ok st'"
    by (cases rule: search_id_total [where m = "sessions st"])
      (use ok c in \<open>auto simp: table_ok_def CreateSession_def Let_def split: if_splits\<close>)
qed

subsection \<open>Properties\<close>

text \<open>
  C7 No replay: over any run of received counters, a session's window accepts no counter twice; what
  it accepts is exactly what the set specification accepts.
\<close>

theorem no_counter_accepted_twice:
  "distinct (accepted ValidatePeerCounter (new_session i ty rnd) cs) \<and>
   accepted ValidatePeerCounter (new_session i ty rnd) cs = spec_accepted {} cs"
proof -
  have "window_rel (peerCounter (new_session i ty rnd)) {}"
    using window_rel_init by (simp add: new_session_def)
  then show ?thesis using session_window.accepted_distinct session_window.accepted_spec by blast
qed

definition run_window :: "u32 list \<Rightarrow> peerMessageCounter" where
  "run_window cs = foldl (\<lambda>pc c. snd (validate pc c)) zero_peer_counter cs"

definition accepted_set :: "u32 list \<Rightarrow> nat set" where
  "accepted_set cs = unat ` set (accepted validate zero_peer_counter cs)"

lemma run_window_rel:
  "window_rel pc S \<Longrightarrow>
    window_rel (foldl (\<lambda>pc c. snd (validate pc c)) pc cs) (S \<union> unat ` set (accepted validate pc cs))"
proof (induction cs arbitrary: pc S)
  case (Cons c cs)
  obtain e pc' where v: "validate pc c = (e, pc')" by (cases "validate pc c")
  from validate_refines [OF Cons.prems, of c] Cons.IH [of pc' S] Cons.IH [of pc' "insert (unat c) S"] v
  show ?case by (cases e) (auto split: if_splits)
qed simp

text \<open>
  Window decision: after any run, a counter is accepted exactly when no counter was accepted
  before, it exceeds all accepted ones, or it is a new one less than 32 below the largest.
\<close>

theorem window_accepts_exactly:
  "fst (validate (run_window cs) c) = None \<longleftrightarrow>
     accepted_set cs = {} \<or> Max (accepted_set cs) < unat c \<or>
     (Max (accepted_set cs) - unat c < 32 \<and> unat c \<notin> accepted_set cs)"
  using validate_refines(1) [OF run_window_rel [OF window_rel_init, of cs]]
  by (simp add: run_window_def accepted_set_def accepts_def)

text \<open>
  C8 Session allocation: on every table reachable by its operations, \<^verbatim>\<open>CreateSession\<close> returns; it
  allocates a non-zero identifier that no session has, leaves the other sessions alone and keeps the
  table's invariant, and it fails exactly when all 65535 non-zero identifiers are in use.
\<close>

theorem create_session_total:
  assumes "table_ok st"
  shows "\<exists>r st'. CreateSession st ty rnd = Some (r, st') \<and> table_ok st' \<and>
     (case r of
        Ok s \<Rightarrow> ID s \<noteq> 0 \<and> GetSession st (ID s) = None \<and> Type s = ty \<and>
          sessions st' = (sessions st)(ID s \<mapsto> s)
      | Err e \<Rightarrow> (\<forall>i. i \<noteq> 0 \<longrightarrow> GetSession st i \<noteq> None) \<and> sessions st' = sessions st
      | Panic \<Rightarrow> False)"
proof -
  have "nextID st \<noteq> 0" using assms by (simp add: table_ok_def)
  then have "\<exists>r st'. CreateSession st ty rnd = Some (r, st') \<and>
     (case r of
        Ok s \<Rightarrow> ID s \<noteq> 0 \<and> GetSession st (ID s) = None \<and> Type s = ty \<and>
          sessions st' = (sessions st)(ID s \<mapsto> s)
      | Err e \<Rightarrow> (\<forall>i. i \<noteq> 0 \<longrightarrow> GetSession st i \<noteq> None) \<and> sessions st' = sessions st
      | Panic \<Rightarrow> False)"
    by (cases rule: search_id_total [where m = "sessions st"])
      (auto simp: CreateSession_def GetSession_def new_session_def Let_def)
  then show ?thesis using table_ok_steps(3) [OF assms] by blast
qed

theorem create_session_total_witness:
  "\<exists>r st'. CreateSession NewSessionTable SessionPASE None = Some (r, st') \<and> table_ok st' \<and>
     (case r of
        Ok s \<Rightarrow> ID s \<noteq> 0 \<and> GetSession NewSessionTable (ID s) = None \<and> Type s = SessionPASE \<and>
          sessions st' = (sessions NewSessionTable)(ID s \<mapsto> s)
      | Err e \<Rightarrow> (\<forall>i. i \<noteq> 0 \<longrightarrow> GetSession NewSessionTable i \<noteq> None) \<and> sessions st' = sessions NewSessionTable
      | Panic \<Rightarrow> False)"
  by (rule create_session_total [OF table_ok_steps(1)])

end
