(* ===== verification/Msg_Codec.thy ===== *)
theory Msg_Codec
  imports Msg_Header Aes_Ccm Session
begin

text \<open>
  \<^verbatim>\<open>internal/protocol/codec.go\<close>: a message is its header, in clear, followed by the protocol header
  and payload, encrypted with AES-CCM on a secured session with the header as associated data and a
  nonce built from the header.  The codec's lemmas are proved once over the contract \<open>aead\<close> of
  authenticated encryption and then read off for AES-CCM.
\<close>

text \<open>
  The nonce buffer has 13 bytes, which the three fields fill exactly.
\<close>

definition buildNonce :: "byte \<Rightarrow> u32 \<Rightarrow> u64 \<Rightarrow> byte list" where
  "buildNonce securityFlags messageCounter sourceNodeID =
     [securityFlags] @ le_put 4 messageCounter @ le_put 8 sourceNodeID"

text \<open>
  \<open>Codec_Encode\<close> and \<open>Codec_Decode\<close> take \<^verbatim>\<open>crypto.AESCCMEncrypt\<close> and \<^verbatim>\<open>crypto.AESCCMDecrypt\<close> as
  arguments; a nil session is \<open>None\<close>.
\<close>

type_synonym aead_fun = "byte list \<Rightarrow> byte list \<Rightarrow> byte list \<Rightarrow> byte list \<Rightarrow> byte list res"

definition secured :: "Session option \<Rightarrow> (Session \<Rightarrow> byte list option) \<Rightarrow> (Session \<times> byte list) option" where
  "secured session key =
     (case session of
        None \<Rightarrow> None
      | Some s \<Rightarrow> if Type s \<noteq> SessionUnsecured then map_option (Pair s) (key s) else None)"

definition Codec_Encode :: "aead_fun \<Rightarrow> Message \<Rightarrow> Session option \<Rightarrow> byte list res" where
  "Codec_Encode enc msg session =
     bind_res (wrap_res ''protocol: encode protocol header'' (EncodeProtocolHeader (Protocol msg))) (\<lambda>protoBytes.
     let plaintext = protoBytes @ Payload msg in
     bind_res (wrap_res ''protocol: encode message header'' (EncodeMessageHeader (Header msg))) (\<lambda>headerBytes.
     bind_res
       (case secured session EncryptKey of
          Some (s, key) \<Rightarrow>
            let nonceNodeID = (if \<not> HasSourceNodeID (Header msg) then LocalNodeID s else SourceNodeID (Header msg));
                nonce = buildNonce (SecurityFlags (Header msg)) (MessageCounter (Header msg)) nonceNodeID
            in wrap_res ''protocol: encrypt payload'' (enc key nonce plaintext headerBytes)
        | None \<Rightarrow> Ok plaintext)
       (\<lambda>payloadBytes. Ok (headerBytes @ payloadBytes))))"

definition Codec_Decode :: "aead_fun \<Rightarrow> byte list \<Rightarrow> Session option \<Rightarrow> Message res" where
  "Codec_Decode dec data session =
     bind_res (wrap_res ''protocol: decode message header'' (DecodeMessageHeader data)) (\<lambda>(header, headerLen).
     let encPayload = drop headerLen data;
         headerBytes = take headerLen data in
     bind_res
       (case secured session DecryptKey of
          Some (s, key) \<Rightarrow>
            let nonceNodeID = (if \<not> HasSourceNodeID header then PeerNodeID s else SourceNodeID header);
                nonce = buildNonce (SecurityFlags header) (MessageCounter header) nonceNodeID
            in wrap_res ''protocol: decrypt payload'' (dec key nonce encPayload headerBytes)
        | None \<Rightarrow> Ok encPayload)
       (\<lambda>plaintext.
          bind_res (wrap_res ''protocol: decode protocol header'' (DecodeProtocolHeader plaintext))
            (\<lambda>(proto, protoLen).
               Ok \<lparr>Header = header, Protocol = proto, Payload = drop protoLen plaintext\<rparr>)))"

abbreviation Encode :: "Message \<Rightarrow> Session option \<Rightarrow> byte list res" where
  "Encode \<equiv> Codec_Encode AESCCMEncrypt"

abbreviation Decode :: "byte list \<Rightarrow> Session option \<Rightarrow> Message res" where
  "Decode \<equiv> Codec_Decode AESCCMDecrypt"


lemma bind_res_Panic_iff: "bind_res m f = Panic \<longleftrightarrow> m = Panic \<or> (\<exists>a. m = Ok a \<and> f a = Panic)"
  by (cases m) auto

lemma length_buildNonce [simp]: "length (buildNonce f c n) = 13"
  by (simp add: buildNonce_def)

lemma buildNonce_inject: "buildNonce f c n = buildNonce f' c' n' \<longleftrightarrow> f = f' \<and> c = c' \<and> n = n'"
  by (simp add: buildNonce_def append_eq_append_conv le_put_inject)

definition norm_message :: "Message \<Rightarrow> Message" where
  "norm_message m = m\<lparr>Header := norm_header (Header m), Protocol := norm_protocol (Protocol m)\<rparr>"

definition wire_plaintext :: "Message \<Rightarrow> byte list" where
  "wire_plaintext m = ph_bytes (Protocol m) @ Payload m"

text \<open>Two ends of one secured session: one end's encryption key is the other's decryption key.\<close>

definition paired :: "Session \<Rightarrow> Session \<Rightarrow> bool" where
  "paired s r \<longleftrightarrow> Type s \<noteq> SessionUnsecured \<and> Type r \<noteq> SessionUnsecured \<and>
     (\<exists>key. length key = 16 \<and> EncryptKey s = Some key \<and> DecryptKey r = Some key) \<and>
     LocalNodeID s = PeerNodeID r"

lemma norm_header_fields [simp]:
  "HasSourceNodeID (norm_header h) = HasSourceNodeID h"
  "SecurityFlags (norm_header h) = SecurityFlags h"
  "MessageCounter (norm_header h) = MessageCounter h"
  "HasSourceNodeID h \<Longrightarrow> SourceNodeID (norm_header h) = SourceNodeID h"
  by (simp_all add: norm_header_def)

lemma Codec_Decode_plain:
  assumes "flags_consistent (Protocol m)"
  shows "bind_res (DecodeProtocolHeader (wire_plaintext m)) (\<lambda>(proto, protoLen).
       Ok \<lparr>Header = norm_header (Header m), Protocol = proto, Payload = drop protoLen (wire_plaintext m)\<rparr>)
     = Ok (norm_message m)"
  using DecodeProtocolHeader_ph_bytes [OF assms]
  by (simp add: wire_plaintext_def norm_message_def)

text \<open>What the other end makes of a message's plaintext, whatever the flags of the message.\<close>

definition plain_decoded :: "Message \<Rightarrow> Message res" where
  "plain_decoded m =
     bind_res (wrap_res ''protocol: decode protocol header'' (DecodeProtocolHeader (wire_plaintext m))) (\<lambda>(proto, n).
       Ok \<lparr>Header = norm_header (Header m), Protocol = proto, Payload = drop n (wire_plaintext m)\<rparr>)"

lemma plain_decoded_consistent: "flags_consistent (Protocol m) \<Longrightarrow> plain_decoded m = Ok (norm_message m)"
  using Codec_Decode_plain [of m] by (auto simp: plain_decoded_def bind_res_Ok_iff)

text \<open>
  A protocol header with the acknowledgement flag but no counter, and a vendor flag that matches: the
  peer takes the first four bytes of the payload for the counter, or refuses the message when the
  payload is shorter.
\<close>

definition stale_ack :: "ProtocolHeader \<Rightarrow> bool" where
  "stale_ack p \<longleftrightarrow> ExchangeFlags p AND ExFlagACK \<noteq> 0 \<and> \<not> HasAckCounter p \<and>
     (HasVendorID p \<or> ExchangeFlags p AND ExFlagVendor = 0)"

lemma DecodeProtocolHeader_stale_short:
  assumes "stale_ack p" and "length payload < 4"
  shows "\<exists>e. DecodeProtocolHeader (ph_bytes p @ payload) = Err e"
proof -
  have flags: "ph_flags p AND ExFlagVendor = 0 \<longleftrightarrow> \<not> HasVendorID p" "ph_flags p AND ExFlagACK \<noteq> 0"
    "(ph_bytes p @ payload) ! 0 = ph_flags p" "\<not> HasAckCounter p"
    using assms by (auto simp: stale_ack_def ph_bytes_def ph_flags_def const_defs bit.conj_disj_distrib2)
  show ?thesis
    using assms(2) unfolding DecodeProtocolHeader_def length_append length_ph_bytes Let_def flags(3)
    by (simp add: flags)
qed

lemma plain_decoded_stale:
  assumes "stale_ack (Protocol m)"
  shows "if 4 \<le> length (Payload m)
     then \<exists>m'. plain_decoded m = Ok m' \<and> Payload m' = drop 4 (Payload m) \<and> HasAckCounter (Protocol m') \<and>
       AckMessageCounter (Protocol m') = le_get (take 4 (Payload m))
     else \<exists>e. plain_decoded m = Err e"
proof (cases "4 \<le> length (Payload m)")
  case True
  have s: "ExchangeFlags (Protocol m) AND ExFlagACK \<noteq> 0" "\<not> HasAckCounter (Protocol m)"
      "HasVendorID (Protocol m) \<or> ExchangeFlags (Protocol m) AND ExFlagVendor = 0"
    using assms by (auto simp: stale_ack_def)
  from stale_ack_flag_eats_payload [OF s True] True show ?thesis
    by (auto simp: plain_decoded_def wire_plaintext_def EncodeProtocolHeader_bytes)
next
  case False
  with DecodeProtocolHeader_stale_short [OF assms, of "Payload m"] show ?thesis
    by (auto simp: plain_decoded_def wire_plaintext_def)
qed

context aead
begin

lemma codec_transports:
  assumes "paired s r" and "length (wire_plaintext m) \<le> 65535"
  shows "\<exists>data. Codec_Encode enc m (Some s) = Ok data \<and> Codec_Decode dec data (Some r) = plain_decoded m"
proof -
  obtain key where key: "length key = 16" "EncryptKey s = Some key" "DecryptKey r = Some key"
    and sec: "Type s \<noteq> SessionUnsecured" "Type r \<noteq> SessionUnsecured"
    and node: "LocalNodeID s = PeerNodeID r"
    using assms(1) by (auto simp: paired_def)
  define nonce where "nonce = buildNonce (SecurityFlags (Header m)) (MessageCounter (Header m))
    (if \<not> HasSourceNodeID (Header m) then LocalNodeID s else SourceNodeID (Header m))"
  obtain ct where ct: "enc key nonce (wire_plaintext m) (mh_bytes (Header m)) = Ok ct"
    using enc_ok [OF key(1) length_buildNonce assms(2)] unfolding nonce_def by blast
  have "Codec_Encode enc m (Some s) = Ok (mh_bytes (Header m) @ ct)"
    using ct key sec
    by (simp add: Codec_Encode_def EncodeProtocolHeader_bytes EncodeMessageHeader_bytes secured_def
        nonce_def wire_plaintext_def Let_def)
  moreover have "Codec_Decode dec (mh_bytes (Header m) @ ct) (Some r) = plain_decoded m"
    using dec_enc [OF ct] key sec node
    by (auto simp: Codec_Decode_def DecodeMessageHeader_mh_bytes secured_def nonce_def Let_def plain_decoded_def)
  ultimately show ?thesis by blast
qed

lemma codec_roundtrip:
  assumes "paired s r" and "flags_consistent (Protocol m)" and "length (wire_plaintext m) \<le> 65535"
  shows "\<exists>data. Codec_Encode enc m (Some s) = Ok data \<and>
     Codec_Decode dec data (Some r) = Ok (norm_message m)"
  using codec_transports [OF assms(1,3)] plain_decoded_consistent [OF assms(2)] by simp

lemma decode_only_sealed:
  assumes "Codec_Decode dec data (Some r) = Ok m" and "Type r \<noteq> SessionUnsecured"
    and "DecryptKey r = Some key"
  shows "\<exists>n pt k. DecodeMessageHeader data = Ok (Header m, n) \<and>
     drop n data = seal key (buildNonce (SecurityFlags (Header m)) (MessageCounter (Header m))
         (if \<not> HasSourceNodeID (Header m) then PeerNodeID r else SourceNodeID (Header m))) pt (take n data) \<and>
     (length pt \<le> 65535 \<longrightarrow> enc key (buildNonce (SecurityFlags (Header m)) (MessageCounter (Header m))
         (if \<not> HasSourceNodeID (Header m) then PeerNodeID r else SourceNodeID (Header m))) pt (take n data)
       = Ok (drop n data)) \<and>
     DecodeProtocolHeader pt = Ok (Protocol m, k) \<and> Payload m = drop k pt"
proof -
  obtain h n pt proto k where h: "DecodeMessageHeader data = Ok (h, n)"
    and d: "dec key (buildNonce (SecurityFlags h) (MessageCounter h)
         (if \<not> HasSourceNodeID h then PeerNodeID r else SourceNodeID h)) (drop n data) (take n data) = Ok pt"
    and p: "DecodeProtocolHeader pt = Ok (proto, k)"
    and m: "m = \<lparr>Header = h, Protocol = proto, Payload = drop k pt\<rparr>"
    using assms(1-3)
    by (auto simp: Codec_Decode_def secured_def Let_def bind_res_Ok_iff simp del: if_not_P if_P split del: if_split)
  have m': "Header m = h" "Protocol m = proto" "Payload m = drop k pt" using m by simp_all
  show ?thesis unfolding m' using dec_seal [OF d] enc_dec [OF d] h p by blast
qed

lemma decode_no_panic: "Codec_Decode dec data session \<noteq> Panic"
  using no_panic DecodeMessageHeader_no_panic DecodeProtocolHeader_no_panic
  by (auto simp: Codec_Decode_def Let_def bind_res_Panic_iff split: option.splits)

end

subsection \<open>Counters and nonces\<close>

primrec next_counters :: "nat \<Rightarrow> Session \<Rightarrow> u32 list" where
  "next_counters 0 s = []"
| "next_counters (Suc n) s = (let (c, s') = NextMessageCounter s in c # next_counters n s')"

lemma next_counters_eq: "next_counters n s = map (\<lambda>i. localCounter s + word_of_nat i) [0..<n]"
proof (induction n arbitrary: s)
  case (Suc n)
  have "map (\<lambda>i. localCounter s + word_of_nat i) [0..<Suc n]
      = localCounter s # map (\<lambda>i. localCounter s + word_of_nat (Suc i)) [0..<n]"
    by (simp add: upt_conv_Cons map_Suc_upt [symmetric] del: upt_Suc)
  then show ?case by (simp add: NextMessageCounter_def Suc Let_def add.assoc)
qed simp

lemma next_counters_distinct: "n \<le> 2 ^ 32 \<Longrightarrow> distinct (next_counters n s)"
  by (auto simp: next_counters_eq distinct_map inj_on_def word_of_nat_eq_iff take_bit_nat_eq_self)

subsection \<open>Properties\<close>

definition sample_sender :: Session where
  "sample_sender = (new_session 1 SessionCASE (Some [9, 0, 0, 0]))\<lparr>LocalNodeID := 42, PeerNodeID := 43,
     EncryptKey := Some (replicate 16 7), DecryptKey := Some (replicate 16 8)\<rparr>"

definition sample_receiver :: Session where
  "sample_receiver = (new_session 2 SessionCASE None)\<lparr>LocalNodeID := 43, PeerNodeID := 42,
     EncryptKey := Some (replicate 16 8), DecryptKey := Some (replicate 16 7)\<rparr>"

definition sample_message :: Message where
  "sample_message = \<lparr>Header = zero_header\<lparr>SessionID := 2, MessageCounter := 9\<rparr>,
     Protocol = sample_protocol, Payload = [0x15, 0x18]\<rparr>"

lemma sample_session_facts:
  "paired sample_sender sample_receiver"
  "flags_consistent (Protocol sample_message)"
  "length (wire_plaintext sample_message) \<le> 65535"
  by (simp_all add: paired_def sample_sender_def sample_receiver_def new_session_def sample_message_def
      flags_consistent_def sample_protocol_def wire_plaintext_def ph_bytes_def const_defs)

text \<open>
  C9 Secured transport: what one end of a secured session encodes, with a protocol header and payload
  of up to 65535 bytes, the other end decodes, and what it gets is the header that was sent and what
  the protocol decoder makes of the bytes that were encrypted.  If the flags of the protocol header
  announce only fields it carries, that is the message itself, its flags recomputed and its absent
  fields zero; a message with the acknowledgement flag but no counter reaches the peer without the
  first four bytes of its payload, taken for the counter, or is refused when the payload is shorter.
\<close>

theorem secured_message_roundtrip:
  assumes "paired s r" and "length (wire_plaintext m) \<le> 65535"
  shows "\<exists>data. Encode m (Some s) = Ok data \<and> Decode data (Some r) = plain_decoded m \<and>
    (flags_consistent (Protocol m) \<longrightarrow> Decode data (Some r) = Ok (norm_message m)) \<and>
    (stale_ack (Protocol m) \<longrightarrow>
     (if 4 \<le> length (Payload m)
      then \<exists>m'. Decode data (Some r) = Ok m' \<and> Payload m' = drop 4 (Payload m) \<and> HasAckCounter (Protocol m') \<and>
        AckMessageCounter (Protocol m') = le_get (take 4 (Payload m))
      else \<exists>e. Decode data (Some r) = Err e))"
  using ccm.codec_transports [OF assms] plain_decoded_consistent [of m] plain_decoded_stale [of m] by metis

theorem secured_message_roundtrip_witness:
  "\<exists>data. Encode sample_message (Some sample_sender) = Ok data \<and>
     Decode data (Some sample_receiver) = Ok (norm_message sample_message)"
  using secured_message_roundtrip [OF sample_session_facts(1,3)] sample_session_facts(2) by blast

text \<open>
  C10 Secured decoding accepts only sealed messages: an accepted datagram is its header followed by
  exactly the sealed form, under the session's key, the nonce of the header and the header as
  associated data, of a plaintext that parses to the returned protocol header and payload; and no
  datagram makes the decoder panic.  The sealed form of up to 65535 bytes is what \<^verbatim>\<open>AESCCMEncrypt\<close>
  returns; longer plaintexts, which only a datagram of more than 65535 bytes can bring, are sealed
  without its length check.
\<close>

theorem secured_decode_only_sealed:
  assumes "Type r \<noteq> SessionUnsecured" and "DecryptKey r = Some key"
  shows "Decode data (Some r) \<noteq> Panic \<and>
    (\<forall>m. Decode data (Some r) = Ok m \<longrightarrow>
      (\<exists>n pt k nonce. DecodeMessageHeader data = Ok (Header m, n) \<and>
         nonce = buildNonce (SecurityFlags (Header m)) (MessageCounter (Header m))
           (if \<not> HasSourceNodeID (Header m) then PeerNodeID r else SourceNodeID (Header m)) \<and>
         drop n data = ccm_seal key nonce pt (take n data) \<and>
         (length pt \<le> 65535 \<longrightarrow> AESCCMEncrypt key nonce pt (take n data) = Ok (drop n data)) \<and>
         DecodeProtocolHeader pt = Ok (Protocol m, k) \<and> Payload m = drop k pt))"
  using ccm.decode_no_panic ccm.decode_only_sealed [OF _ assms, of data] by blast

lemma sample_accepted: "\<exists>data. Decode data (Some sample_receiver) = Ok (norm_message sample_message)"
  using ccm.codec_roundtrip [OF sample_session_facts] by blast

theorem secured_decode_only_sealed_witness:
  "\<exists>data n pt k nonce. DecodeMessageHeader data = Ok (Header (norm_message sample_message), n) \<and>
     drop n data = ccm_seal (replicate 16 7) nonce pt (take n data) \<and>
     DecodeProtocolHeader pt = Ok (Protocol (norm_message sample_message), k) \<and>
     Payload (norm_message sample_message) = drop k pt"
proof -
  from sample_accepted obtain data where d: "Decode data (Some sample_receiver) = Ok (norm_message sample_message)" by blast
  have "Type sample_receiver \<noteq> SessionUnsecured" "DecryptKey sample_receiver = Some (replicate 16 7)"
    by (simp_all add: sample_receiver_def new_session_def const_defs)
  from secured_decode_only_sealed [OF this, of data] d show ?thesis by blast
qed

text \<open>
  C11 Nonces do not repeat: the nonces that a session builds for its next up to 2 to the 32 messages
  are pairwise different, whatever its random initial counter; only a full wrap of the counter repeats one.
\<close>

theorem nonces_never_repeat:
  assumes "n \<le> 2 ^ 32"
  shows "distinct (map (\<lambda>c. buildNonce f c node) (next_counters n s))"
  using next_counters_distinct [OF assms] by (simp add: distinct_map inj_on_def buildNonce_inject)

theorem nonces_never_repeat_witness:
  "distinct (map (\<lambda>c. buildNonce 0 c 42) (next_counters (2 ^ 32) sample_sender))"
  by (rule nonces_never_repeat) simp

text \<open>
  Unsecured round trip: without a session, on the unsecured session, or without keys, the message
  travels in clear and decoding gives it back.
\<close>

theorem unsecured_message_roundtrip:
  assumes "secured s EncryptKey = None" and "secured r DecryptKey = None"
    and "flags_consistent (Protocol m)"
  shows "\<exists>data. Encode m s = Ok data \<and> data = mh_bytes (Header m) @ ph_bytes (Protocol m) @ Payload m \<and>
     Decode data r = Ok (norm_message m)"
  using assms(1,2) Codec_Decode_plain [OF assms(3)]
  by (auto simp: Codec_Encode_def Codec_Decode_def EncodeProtocolHeader_bytes EncodeMessageHeader_bytes
      DecodeMessageHeader_mh_bytes wire_plaintext_def bind_res_Ok_iff)

theorem unsecured_message_roundtrip_witness:
  "\<exists>data. Encode sample_message None = Ok data \<and>
     data = mh_bytes (Header sample_message) @ ph_bytes (Protocol sample_message) @ Payload sample_message \<and>
     Decode data None = Ok (norm_message sample_message)"
  using unsecured_message_roundtrip [of None None sample_message] sample_session_facts(2)
  by (simp add: secured_def)

end
