(* ===== verification/Mrp.thy ===== *)
theory Mrp
  imports Prelude
begin

text \<open>
  \<^verbatim>\<open>internal/transport/mrp.go\<close>: retransmission of datagrams until they are acknowledged.  Each part of a
  method that runs under the lock is a function; timers, callers and the channel operations outside
  the lock are interleaved by a step relation.
\<close>

subsection \<open>State\<close>

type_synonym net_addr = string

text \<open>Durations in milliseconds.\<close>

definition DefaultIdleRetransmitTimeout :: int where "DefaultIdleRetransmitTimeout = 500"
definition DefaultActiveRetransmitTimeout :: int where "DefaultActiveRetransmitTimeout = 300"
definition DefaultMaxRetransmits :: int where "DefaultMaxRetransmits = 4"

record MRPConfig =
  IdleRetransmitTimeout :: int
  ActiveRetransmitTimeout :: int
  MaxRetransmits :: int

definition DefaultMRPConfig :: MRPConfig where
  "DefaultMRPConfig = \<lparr>IdleRetransmitTimeout = DefaultIdleRetransmitTimeout,
     ActiveRetransmitTimeout = DefaultActiveRetransmitTimeout, MaxRetransmits = DefaultMaxRetransmits\<rparr>"

text \<open>
  A timer carries the arguments of the callback it was created with and, while it runs, its duration;
  a channel is closed or not.
\<close>

record pendingMessage =
  pm_data :: "byte list"
  pm_addr :: net_addr
  pm_retries :: int
  pm_callback :: "u32 \<times> int"
  pm_timer :: "int option"
  pm_acked :: bool
  pm_exchangeID :: u16

text \<open>The messages live in a heap; the table holds their positions.\<close>

record MRP =
  mrp_config :: MRPConfig
  mrp_pending :: "u32 \<rightharpoonup> nat"
  mrp_closed :: bool
  mrp_heap :: "pendingMessage list"

definition NewMRP :: "MRPConfig \<Rightarrow> MRP" where
  "NewMRP config = \<lparr>mrp_config = config, mrp_pending = Map.empty, mrp_closed = False, mrp_heap = []\<rparr>"

definition set_message :: "nat \<Rightarrow> (pendingMessage \<Rightarrow> pendingMessage) \<Rightarrow> MRP \<Rightarrow> MRP" where
  "set_message i f m = m\<lparr>mrp_heap := (mrp_heap m)[i := f (mrp_heap m ! i)]\<rparr>"

definition forget :: "u32 \<Rightarrow> MRP \<Rightarrow> MRP" where
  "forget counter m = m\<lparr>mrp_pending := (mrp_pending m)(counter := None)\<rparr>"

subsection \<open>Methods\<close>

record send_args =
  sa_msg :: "byte list"
  sa_addr :: net_addr
  sa_messageCounter :: u32
  sa_exchangeID :: u16
  sa_exchangeActive :: bool

definition retransmit_timeout :: "MRPConfig \<Rightarrow> bool \<Rightarrow> int" where
  "retransmit_timeout config exchangeActive =
     (if exchangeActive then ActiveRetransmitTimeout config else IdleRetransmitTimeout config)"

text \<open>The part of \<^verbatim>\<open>SendReliable\<close> between the first transmission and the wait.\<close>

definition register_message :: "send_args \<Rightarrow> MRP \<Rightarrow> MRP" where
  "register_message a m =
     (let timeout = retransmit_timeout (mrp_config m) (sa_exchangeActive a) in
      m\<lparr>mrp_pending := (mrp_pending m)(sa_messageCounter a \<mapsto> length (mrp_heap m)),
        mrp_heap := mrp_heap m @ [\<lparr>pm_data = sa_msg a, pm_addr = sa_addr a, pm_retries = 0,
          pm_callback = (sa_messageCounter a, timeout), pm_timer = Some timeout, pm_acked = False,
          pm_exchangeID = sa_exchangeID a\<rparr>]\<rparr>)"

text \<open>What a method does after it has released the lock.\<close>

datatype mrp_task = Send_data nat "byte list" net_addr | Close_acked nat

definition retransmit :: "u32 \<Rightarrow> int \<Rightarrow> MRP \<Rightarrow> MRP \<times> mrp_task option" where
  "retransmit messageCounter timeout m =
     (case mrp_pending m messageCounter of
        None \<Rightarrow> (m, None)
      | Some i \<Rightarrow>
          let m = set_message i (\<lambda>pm. pm\<lparr>pm_retries := pm_retries pm + 1\<rparr>) m in
          if pm_retries (mrp_heap m ! i) > MaxRetransmits (mrp_config m)
          then (forget messageCounter m, Some (Close_acked i))
          else (set_message i (\<lambda>pm. pm\<lparr>pm_timer := Some timeout\<rparr>) m,
                Some (Send_data i (pm_data (mrp_heap m ! i)) (pm_addr (mrp_heap m ! i)))))"

text \<open>The result is whether a message was found.\<close>

definition HandleACK :: "u32 \<Rightarrow> MRP \<Rightarrow> MRP \<times> mrp_task option \<times> bool" where
  "HandleACK ackMessageCounter m =
     (case mrp_pending m ackMessageCounter of
        None \<Rightarrow> (m, None, False)
      | Some i \<Rightarrow> (forget ackMessageCounter (set_message i (\<lambda>pm. pm\<lparr>pm_timer := None\<rparr>) m), Some (Close_acked i), True))"

definition removePending :: "u32 \<Rightarrow> MRP \<Rightarrow> MRP" where
  "removePending messageCounter m =
     (case mrp_pending m messageCounter of
        None \<Rightarrow> m
      | Some i \<Rightarrow> forget messageCounter (set_message i (\<lambda>pm. pm\<lparr>pm_timer := None\<rparr>) m))"

definition PendingCount :: "MRP \<Rightarrow> nat" where "PendingCount m = card (dom (mrp_pending m))"

text \<open>The part of \<^verbatim>\<open>Close\<close> under the lock, after it has closed the channel.\<close>

definition clear_pending :: "MRP \<Rightarrow> MRP" where
  "clear_pending m = m\<lparr>mrp_pending := Map.empty,
     mrp_heap := map (\<lambda>i. if i \<in> ran (mrp_pending m) then (mrp_heap m ! i)\<lparr>pm_timer := None\<rparr> else mrp_heap m ! i)
       [0..<length (mrp_heap m)]\<rparr>"

text \<open>The whole of it; because of \<^verbatim>\<open>closeOnce\<close> a second call does nothing.\<close>

definition MRP_Close :: "MRP \<Rightarrow> MRP" where
  "MRP_Close m = (if mrp_closed m then m else clear_pending (m\<lparr>mrp_closed := True\<rparr>))"

text \<open>
  The wait of \<^verbatim>\<open>SendReliable\<close>: the outcomes its \<^verbatim>\<open>select\<close> may choose, for the message it registered, and
  the error of each.
\<close>

inductive returns :: "MRP \<Rightarrow> bool \<Rightarrow> nat \<Rightarrow> u32 \<Rightarrow> err option \<Rightarrow> MRP \<Rightarrow> bool" where
  on_acked: "pm_acked (mrp_heap m ! i) \<Longrightarrow> returns m ctx_done i counter None m"
| on_context: "ctx_done \<Longrightarrow> returns m ctx_done i counter (Some (Sentinel ''context'')) (removePending counter m)"
| on_closed: "mrp_closed m \<Longrightarrow>
    returns m ctx_done i counter (Some (Errorf ''transport: MRP closed'')) (removePending counter m)"

inductive_simps returns_nil: "returns m ctx_done i counter None m'"

subsection \<open>The running layer\<close>

text \<open>
  Callers that have sent and not yet registered, callbacks that wait for the lock, tasks left to do
  outside it, callers that wait, the retransmissions made, the messages an acknowledgement was
  accepted for, the results of finished calls, whether a
  channel was closed twice, and whether \<^verbatim>\<open>Close\<close> is between its two parts.  A first transmission that
  fails leaves no trace.
\<close>

record mrp_world =
  w_mrp :: MRP
  w_sending :: "send_args list"
  w_callbacks :: "(u32 \<times> int) list"
  w_tasks :: "mrp_task list"
  w_waiting :: "(nat \<times> u32) set"
  w_resent :: "nat list"
  w_handled :: "nat set"
  w_returned :: "(nat \<times> err option) set"
  w_panicked :: bool
  w_clearing :: bool

definition mrp_start :: "MRPConfig \<Rightarrow> mrp_world" where
  "mrp_start config = \<lparr>w_mrp = NewMRP config, w_sending = [], w_callbacks = [], w_tasks = [], w_waiting = {},
     w_resent = [], w_handled = {}, w_returned = {}, w_panicked = False, w_clearing = False\<rparr>"

text \<open>
  Steps in any order; with \<open>fresh\<close>, no message is registered under a counter that another call
  waits for.
\<close>

definition the_list :: "'a option \<Rightarrow> 'a list" where "the_list x = (case x of None \<Rightarrow> [] | Some y \<Rightarrow> [y])"

inductive mrp_step :: "bool \<Rightarrow> mrp_world \<Rightarrow> mrp_world \<Rightarrow> bool" for fresh where
  sent: "mrp_step fresh w (w\<lparr>w_sending := w_sending w @ [a]\<rparr>)"
| registered: "w_sending w = xs @ a # ys \<Longrightarrow> (fresh \<Longrightarrow> sa_messageCounter a \<notin> snd ` w_waiting w) \<Longrightarrow>
    mrp_step fresh w (w\<lparr>w_sending := xs @ ys, w_mrp := register_message a (w_mrp w),
      w_waiting := insert (length (mrp_heap (w_mrp w)), sa_messageCounter a) (w_waiting w)\<rparr>)"
| fires: "i < length (mrp_heap (w_mrp w)) \<Longrightarrow> pm_timer (mrp_heap (w_mrp w) ! i) = Some d \<Longrightarrow>
    mrp_step fresh w (w\<lparr>w_mrp := set_message i (\<lambda>pm. pm\<lparr>pm_timer := None\<rparr>) (w_mrp w),
      w_callbacks := w_callbacks w @ [pm_callback (mrp_heap (w_mrp w) ! i)]\<rparr>)"
| retransmits: "w_callbacks w = xs @ (counter, timeout) # ys \<Longrightarrow> retransmit counter timeout (w_mrp w) = (m, t) \<Longrightarrow>
    mrp_step fresh w (w\<lparr>w_callbacks := xs @ ys, w_mrp := m, w_tasks := w_tasks w @ the_list t\<rparr>)"
| acknowledged: "HandleACK counter (w_mrp w) = (m, t, found) \<Longrightarrow>
    mrp_step fresh w (w\<lparr>w_mrp := m, w_tasks := w_tasks w @ the_list t,
      w_handled := w_handled w \<union> {i. t = Some (Close_acked i)}\<rparr>)"
| resent: "w_tasks w = xs @ Send_data i data addr # ys \<Longrightarrow>
    mrp_step fresh w (w\<lparr>w_tasks := xs @ ys, w_resent := w_resent w @ [i]\<rparr>)"
| closes_channel: "w_tasks w = xs @ Close_acked i # ys \<Longrightarrow>
    mrp_step fresh w (w\<lparr>w_tasks := xs @ ys, w_mrp := set_message i (\<lambda>pm. pm\<lparr>pm_acked := True\<rparr>) (w_mrp w),
      w_panicked := w_panicked w \<or> pm_acked (mrp_heap (w_mrp w) ! i)\<rparr>)"
| call_returns: "(i, counter) \<in> w_waiting w \<Longrightarrow> returns (w_mrp w) ctx_done i counter e m \<Longrightarrow>
    mrp_step fresh w (w\<lparr>w_mrp := m, w_waiting := w_waiting w - {(i, counter)}, w_returned := insert (i, e) (w_returned w)\<rparr>)"
| is_closed: "\<not> mrp_closed (w_mrp w) \<Longrightarrow>
    mrp_step fresh w (w\<lparr>w_mrp := (w_mrp w)\<lparr>mrp_closed := True\<rparr>, w_clearing := True\<rparr>)"
| is_cleared: "w_clearing w \<Longrightarrow>
    mrp_step fresh w (w\<lparr>w_mrp := clear_pending (w_mrp w), w_clearing := False\<rparr>)"

inductive_cases mrp_stepE: "mrp_step fresh w w'"

subsection \<open>Invariant\<close>

definition closing :: "nat \<Rightarrow> mrp_task list \<Rightarrow> nat" where
  "closing i ts = length (filter (\<lambda>t. t = Close_acked i) ts)"

definition resending :: "nat \<Rightarrow> mrp_task list \<Rightarrow> nat" where
  "resending i ts = length (filter (\<lambda>t. \<exists>d a. t = Send_data i d a) ts)"

lemma tasks_simps [simp]:
  "closing i [] = 0" "closing i (ts @ us) = closing i ts + closing i us"
  "closing i (Close_acked j # ts) = (if i = j then Suc (closing i ts) else closing i ts)"
  "closing i (Send_data j d a # ts) = closing i ts"
  "resending i [] = 0" "resending i (ts @ us) = resending i ts + resending i us"
  "resending i (Close_acked j # ts) = resending i ts"
  "resending i (Send_data j d a # ts) = (if i = j then Suc (resending i ts) else resending i ts)"
  by (auto simp: closing_def resending_def)

text \<open>The transmissions of a message after the first, done or about to be done.\<close>

definition retransmissions :: "nat \<Rightarrow> mrp_world \<Rightarrow> nat" where
  "retransmissions i w = count_list (w_resent w) i + resending i (w_tasks w)"

text \<open>An acknowledgement was accepted for the message, or its retransmissions are used up.\<close>

definition settled :: "nat \<Rightarrow> mrp_world \<Rightarrow> bool" where
  "settled i w \<longleftrightarrow> i \<in> w_handled w \<or>
     MaxRetransmits (mrp_config (w_mrp w)) < pm_retries (mrp_heap (w_mrp w) ! i)"

definition message_ok :: "mrp_world \<Rightarrow> nat \<Rightarrow> bool" where
  "message_ok w i \<longleftrightarrow>
     (let pm = mrp_heap (w_mrp w) ! i; limit = MaxRetransmits (mrp_config (w_mrp w));
          pending = (mrp_pending (w_mrp w) (fst (pm_callback pm)) = Some i) in
      closing i (w_tasks w) + (if pm_acked pm then 1 else 0) + (if pending then 1 else 0) \<le> 1 \<and>
      0 \<le> pm_retries pm \<and> (pending \<longrightarrow> pm_retries pm \<le> max 0 limit) \<and>
      int (retransmissions i w) = min (pm_retries pm) (max 0 limit) \<and>
      (0 < closing i (w_tasks w) \<or> pm_acked pm \<longrightarrow> settled i w))"

definition mrp_ok :: "mrp_world \<Rightarrow> bool" where
  "mrp_ok w \<longleftrightarrow>
     (let n = length (mrp_heap (w_mrp w)) in
      (\<forall>c i. mrp_pending (w_mrp w) c = Some i \<longrightarrow> i < n \<and> fst (pm_callback (mrp_heap (w_mrp w) ! i)) = c) \<and>
      (\<forall>i < n. message_ok w i) \<and>
      (\<forall>i \<ge> n. closing i (w_tasks w) = 0 \<and> retransmissions i w = 0) \<and>
      (\<forall>(i, c) \<in> w_waiting w. i < n) \<and>
      (\<forall>(i, e) \<in> w_returned w. i < n \<and> (e = None \<longrightarrow> settled i w)) \<and> \<not> w_panicked w)"

lemma set_message_simps [simp]:
  "mrp_config (set_message i f m) = mrp_config m" "mrp_pending (set_message i f m) = mrp_pending m"
  "mrp_closed (set_message i f m) = mrp_closed m" "length (mrp_heap (set_message i f m)) = length (mrp_heap m)"
  by (simp_all add: set_message_def)

lemma nth_set_message:
  "i < length (mrp_heap m) \<Longrightarrow> mrp_heap (set_message j f m) ! i = (if i = j then f (mrp_heap m ! i) else mrp_heap m ! i)"
  by (auto simp: set_message_def nth_list_update)

lemma forget_simps [simp]:
  "mrp_config (forget c m) = mrp_config m" "mrp_heap (forget c m) = mrp_heap m" "mrp_closed (forget c m) = mrp_closed m"
  "mrp_pending (forget c m) = (mrp_pending m)(c := None)"
  by (simp_all add: forget_def)

lemma same_timer [simp]: "\<exists>d. pm = pm\<lparr>pm_timer := d\<rparr>"
  by (rule exI [of _ "pm_timer pm"]) simp

lemmas mrp_inv_defs = mrp_ok_def message_ok_def settled_def retransmissions_def Let_def

lemma mrp_okI:
  assumes "\<And>c i. mrp_pending (w_mrp w) c = Some i \<Longrightarrow>
      i < length (mrp_heap (w_mrp w)) \<and> fst (pm_callback (mrp_heap (w_mrp w) ! i)) = c"
    and "\<And>i. i < length (mrp_heap (w_mrp w)) \<Longrightarrow> message_ok w i"
    and "\<And>i. length (mrp_heap (w_mrp w)) \<le> i \<Longrightarrow> closing i (w_tasks w) = 0 \<and> retransmissions i w = 0"
    and "\<And>i c. (i, c) \<in> w_waiting w \<Longrightarrow> i < length (mrp_heap (w_mrp w))"
    and "\<And>i e. (i, e) \<in> w_returned w \<Longrightarrow> i < length (mrp_heap (w_mrp w)) \<and> (e = None \<longrightarrow> settled i w)"
    and "\<not> w_panicked w"
  shows "mrp_ok w"
  using assms unfolding mrp_ok_def Let_def by blast

lemma mrp_okD:
  assumes "mrp_ok w"
  shows "mrp_pending (w_mrp w) c = Some i \<Longrightarrow> i < length (mrp_heap (w_mrp w))"
    and "mrp_pending (w_mrp w) c = Some i \<Longrightarrow> fst (pm_callback (mrp_heap (w_mrp w) ! i)) = c"
    and "i < length (mrp_heap (w_mrp w)) \<Longrightarrow> message_ok w i"
    and "length (mrp_heap (w_mrp w)) \<le> i \<Longrightarrow> closing i (w_tasks w) = 0"
    and "length (mrp_heap (w_mrp w)) \<le> i \<Longrightarrow> retransmissions i w = 0"
    and "(i, c) \<in> w_waiting w \<Longrightarrow> i < length (mrp_heap (w_mrp w))"
    and "(i, e) \<in> w_returned w \<Longrightarrow> i < length (mrp_heap (w_mrp w))"
    and "(i, None) \<in> w_returned w \<Longrightarrow> settled i w"
    and "\<not> w_panicked w"
  using assms unfolding mrp_ok_def Let_def by blast+

lemma mrp_start_ok: "mrp_ok (mrp_start config)"
  by (simp add: mrp_inv_defs mrp_start_def NewMRP_def)

text \<open>Stopping or starting timers and forgetting messages keeps the invariant.\<close>

lemma ok_timer:
  assumes ok: "mrp_ok w" and "mrp_config m = mrp_config (w_mrp w)" and len: "length (mrp_heap m) = length (mrp_heap (w_mrp w))"
    and heap: "\<And>i. i < length (mrp_heap m) \<Longrightarrow> \<exists>d. mrp_heap m ! i = (mrp_heap (w_mrp w) ! i)\<lparr>pm_timer := d\<rparr>"
    and sub: "\<And>c i. mrp_pending m c = Some i \<Longrightarrow> mrp_pending (w_mrp w) c = Some i"
  shows "mrp_ok (w\<lparr>w_mrp := m\<rparr>)"
proof -
  have h: "pm_retries (mrp_heap m ! i) = pm_retries (mrp_heap (w_mrp w) ! i)"
      "pm_callback (mrp_heap m ! i) = pm_callback (mrp_heap (w_mrp w) ! i)"
      "pm_acked (mrp_heap m ! i) = pm_acked (mrp_heap (w_mrp w) ! i)" if "i < length (mrp_heap (w_mrp w))" for i
    using heap [of i] that len by auto
  have s: "settled i w \<Longrightarrow> i < length (mrp_heap (w_mrp w)) \<Longrightarrow> settled i (w\<lparr>w_mrp := m\<rparr>)" for i
    using h [of i] assms(2) by (simp add: settled_def)
  show ?thesis
  proof (rule mrp_okI)
    fix i assume "i < length (mrp_heap (w_mrp (w\<lparr>w_mrp := m\<rparr>)))"
    then have i: "i < length (mrp_heap (w_mrp w))" using len by simp
    then show "message_ok (w\<lparr>w_mrp := m\<rparr>) i"
      using h [OF i] sub [of "fst (pm_callback (mrp_heap (w_mrp w) ! i))" i] assms(2) mrp_okD(3) [OF ok i]
      by (auto simp: message_ok_def settled_def retransmissions_def Let_def split: if_splits)
  next
    fix c i assume "mrp_pending (w_mrp (w\<lparr>w_mrp := m\<rparr>)) c = Some i"
    then have p: "mrp_pending (w_mrp w) c = Some i" using sub by simp
    then show "i < length (mrp_heap (w_mrp (w\<lparr>w_mrp := m\<rparr>))) \<and> fst (pm_callback (mrp_heap (w_mrp (w\<lparr>w_mrp := m\<rparr>)) ! i)) = c"
      using mrp_okD(1,2) [OF ok p] h(2) [of i] len by simp
  next
    fix i e assume "(i, e) \<in> w_returned (w\<lparr>w_mrp := m\<rparr>)"
    then show "i < length (mrp_heap (w_mrp (w\<lparr>w_mrp := m\<rparr>))) \<and> (e = None \<longrightarrow> settled i (w\<lparr>w_mrp := m\<rparr>))"
      using mrp_okD(7,8) [OF ok] s len by fastforce
  qed (use mrp_okD(4,5,6,9) [OF ok] len in \<open>auto simp: retransmissions_def\<close>)
qed

lemma ok_register:
  assumes ok: "mrp_ok w"
  shows "mrp_ok (w\<lparr>w_mrp := register_message a (w_mrp w),
    w_waiting := insert (length (mrp_heap (w_mrp w)), sa_messageCounter a) (w_waiting w)\<rparr>)" (is "mrp_ok ?w")
proof (rule mrp_okI)
  let ?n = "length (mrp_heap (w_mrp w))"
  have s: "settled i w \<Longrightarrow> i < ?n \<Longrightarrow> settled i ?w" for i
    by (auto simp: settled_def register_message_def nth_append Let_def)
  note d = mrp_okD [OF ok]
  show "message_ok ?w i" if "i < length (mrp_heap (w_mrp ?w))" for i
  proof (cases "i = ?n")
    case True
    with d(4,5) [of i] show ?thesis
      by (simp add: message_ok_def retransmissions_def register_message_def Let_def)
  next
    case False
    then have i: "i < ?n" using that by (simp add: register_message_def Let_def)
    with d(3) [OF i] False show ?thesis
      by (auto simp: message_ok_def settled_def retransmissions_def Let_def register_message_def nth_append split: if_splits)
  qed
  show "i < length (mrp_heap (w_mrp ?w)) \<and> (e = None \<longrightarrow> settled i ?w)" if "(i, e) \<in> w_returned ?w" for i e
    using that d(7,8) s by (fastforce simp: register_message_def Let_def)
  show "i < length (mrp_heap (w_mrp ?w)) \<and> fst (pm_callback (mrp_heap (w_mrp ?w) ! i)) = c"
    if "mrp_pending (w_mrp ?w) c = Some i" for c i
    using that d(1,2) by (fastforce simp: register_message_def Let_def nth_append split: if_splits)
  show "closing i (w_tasks ?w) = 0 \<and> retransmissions i ?w = 0" if "length (mrp_heap (w_mrp ?w)) \<le> i" for i
    using that d(4,5) [of i] by (simp add: retransmissions_def register_message_def Let_def)
  show "i < length (mrp_heap (w_mrp ?w))" if "(i, c) \<in> w_waiting ?w" for i c
    using that d(6) [of i c] by (auto simp: register_message_def Let_def)
qed (simp add: mrp_okD(9) [OF ok])

text \<open>A message taken out of the table: a task to close its channel, once.\<close>

lemma ok_take:
  assumes ok: "mrp_ok w" and p: "mrp_pending (w_mrp w) c = Some i"
    and r: "r = 0 \<or> r = 1 \<and> MaxRetransmits (mrp_config (w_mrp w)) < pm_retries (mrp_heap (w_mrp w) ! i) + r"
    and fin: "i \<in> hs \<or> MaxRetransmits (mrp_config (w_mrp w)) < pm_retries (mrp_heap (w_mrp w) ! i) + r"
  shows "mrp_ok (w\<lparr>w_mrp := forget c (set_message i (\<lambda>pm. pm\<lparr>pm_retries := pm_retries pm + r, pm_timer := f pm\<rparr>) (w_mrp w)),
    w_tasks := w_tasks w @ [Close_acked i], w_handled := w_handled w \<union> hs\<rparr>)" (is "mrp_ok ?w")
proof (rule mrp_okI)
  note d = mrp_okD [OF ok]
  let ?n = "length (mrp_heap (w_mrp w))"
  have i: "i < ?n" "fst (pm_callback (mrp_heap (w_mrp w) ! i)) = c" using d(1,2) [OF p] by simp_all
  have s: "settled j ?w" if "j < ?n" "settled j w \<or> j = i" for j
    using that fin r by (auto simp: settled_def nth_set_message)
  show "message_ok ?w j" if "j < length (mrp_heap (w_mrp ?w))" for j
  proof -
    have j: "j < ?n" using that by simp
    show ?thesis using d(3) [OF j] s [OF j] i p r j
      by (cases "j = i") (auto simp: message_ok_def retransmissions_def Let_def nth_set_message split: if_splits)
  qed
  show "j < length (mrp_heap (w_mrp ?w)) \<and> fst (pm_callback (mrp_heap (w_mrp ?w) ! j)) = c'"
    if "mrp_pending (w_mrp ?w) c' = Some j" for c' j
    using that d(1,2) [of c' j] by (auto simp: nth_set_message split: if_splits)
  show "j < length (mrp_heap (w_mrp ?w)) \<and> (e = None \<longrightarrow> settled j ?w)" if "(j, e) \<in> w_returned ?w" for j e
    using that d(7,8) [of j] s [of j] by auto
qed (use mrp_okD(4,5,6,9) [OF ok] mrp_okD(1) [OF ok p] in \<open>auto simp: retransmissions_def\<close>)

text \<open>A message retransmitted once more.\<close>

lemma ok_retransmit:
  assumes ok: "mrp_ok w" and p: "mrp_pending (w_mrp w) c = Some i"
    and few: "pm_retries (mrp_heap (w_mrp w) ! i) + 1 \<le> MaxRetransmits (mrp_config (w_mrp w))"
  shows "mrp_ok (w\<lparr>w_mrp := set_message i (\<lambda>pm. pm\<lparr>pm_retries := pm_retries pm + 1, pm_timer := f pm\<rparr>) (w_mrp w),
    w_tasks := w_tasks w @ [Send_data i data addr]\<rparr>)" (is "mrp_ok ?w")
proof (rule mrp_okI)
  note d = mrp_okD [OF ok]
  let ?n = "length (mrp_heap (w_mrp w))"
  have i: "i < ?n" "fst (pm_callback (mrp_heap (w_mrp w) ! i)) = c" using d(1,2) [OF p] by simp_all
  have s: "settled j ?w" if "j < ?n" "settled j w" for j
    using that by (auto simp: settled_def nth_set_message)
  show "message_ok ?w j" if "j < length (mrp_heap (w_mrp ?w))" for j
  proof -
    have j: "j < ?n" using that by simp
    show ?thesis using d(3) [OF j] s [OF j] i p few j
      by (cases "j = i") (auto simp: message_ok_def retransmissions_def Let_def nth_set_message split: if_splits)
  qed
  show "j < length (mrp_heap (w_mrp ?w)) \<and> fst (pm_callback (mrp_heap (w_mrp ?w) ! j)) = c'"
    if "mrp_pending (w_mrp ?w) c' = Some j" for c' j
    using that d(1,2) [of c' j] by (auto simp: nth_set_message)
  show "j < length (mrp_heap (w_mrp ?w)) \<and> (e = None \<longrightarrow> settled j ?w)" if "(j, e) \<in> w_returned ?w" for j e
    using that d(7,8) [of j] s [of j] by auto
qed (use mrp_okD(4,5,6,9) [OF ok] mrp_okD(1) [OF ok p] in \<open>auto simp: retransmissions_def\<close>)

lemma ok_resent:
  assumes ok: "mrp_ok w" and t: "w_tasks w = xs @ Send_data i data addr # ys"
  shows "mrp_ok (w\<lparr>w_tasks := xs @ ys, w_resent := w_resent w @ [i]\<rparr>)" (is "mrp_ok ?w")
proof -
  have "retransmissions j ?w = retransmissions j w" "closing j (w_tasks ?w) = closing j (w_tasks w)" "settled j ?w = settled j w" for j
    using t by (simp_all add: retransmissions_def settled_def)
  then have "message_ok ?w = message_ok w" by (simp add: message_ok_def fun_eq_iff)
  then show ?thesis
    using ok t by (auto simp: mrp_ok_def Let_def retransmissions_def settled_def)
qed

lemma ok_close_channel:
  assumes ok: "mrp_ok w" and t: "w_tasks w = xs @ Close_acked i # ys"
  shows "mrp_ok (w\<lparr>w_tasks := xs @ ys, w_mrp := set_message i (\<lambda>pm. pm\<lparr>pm_acked := True\<rparr>) (w_mrp w),
    w_panicked := w_panicked w \<or> pm_acked (mrp_heap (w_mrp w) ! i)\<rparr>)" (is "mrp_ok ?w")
proof (rule mrp_okI)
  note d = mrp_okD [OF ok]
  let ?n = "length (mrp_heap (w_mrp w))"
  have i: "i < ?n" using d(4) [of i] t by (cases "i < ?n") auto
  have a: "\<not> pm_acked (mrp_heap (w_mrp w) ! i)" "settled i w"
    using d(3) [OF i] t by (auto simp: message_ok_def Let_def split: if_splits)
  have s: "settled j ?w" if "j < ?n" "settled j w" for j
    using that by (auto simp: settled_def nth_set_message)
  show "message_ok ?w j" if "j < length (mrp_heap (w_mrp ?w))" for j
  proof -
    have j: "j < ?n" using that by simp
    show ?thesis using d(3) [OF j] s [OF j] a t j i
      by (cases "j = i") (auto simp: message_ok_def retransmissions_def Let_def nth_set_message split: if_splits)
  qed
  show "j < length (mrp_heap (w_mrp ?w)) \<and> fst (pm_callback (mrp_heap (w_mrp ?w) ! j)) = c'"
    if "mrp_pending (w_mrp ?w) c' = Some j" for c' j
    using that d(1,2) [of c' j] by (auto simp: nth_set_message)
  show "j < length (mrp_heap (w_mrp ?w)) \<and> (e = None \<longrightarrow> settled j ?w)" if "(j, e) \<in> w_returned ?w" for j e
    using that d(7,8) [of j] s [of j] by auto
  show "\<not> w_panicked ?w" using a(1) d(9) by simp
  show "closing j (w_tasks ?w) = 0 \<and> retransmissions j ?w = 0" if "length (mrp_heap (w_mrp ?w)) \<le> j" for j
    using that d(4,5) [of j] t by (auto simp: retransmissions_def split: if_splits)
qed (use mrp_okD(6) [OF ok] in auto)

text \<open>Callers that have not registered and callbacks that wait do not matter.\<close>

lemma ok_frame:
  assumes "mrp_ok w" and "w_mrp w' = w_mrp w" "w_tasks w' = w_tasks w" "w_waiting w' = w_waiting w" "w_resent w' = w_resent w"
    and "w_handled w' = w_handled w" "w_returned w' = w_returned w" "w_panicked w' = w_panicked w"
  shows "mrp_ok w'"
proof -
  have s: "settled j w' = settled j w" "retransmissions j w' = retransmissions j w" for j
    using assms(2-) by (simp_all add: settled_def retransmissions_def)
  then have "message_ok w' = message_ok w" using assms(2-) by (simp add: message_ok_def fun_eq_iff)
  then show ?thesis using assms s by (simp add: mrp_ok_def Let_def)
qed

lemma set_message_twice: "set_message i f (set_message i g m) = set_message i (f \<circ> g) m"
  by (cases "i < length (mrp_heap m)") (simp_all add: set_message_def list_update_beyond)

lemma forget_set: "forget c (set_message i f m) = set_message i f (forget c m)"
  by (simp add: set_message_def forget_def)

lemma retransmit_cases:
  assumes "retransmit c d m = (m', t)" and "\<forall>i. mrp_pending m c = Some i \<longrightarrow> i < length (mrp_heap m)"
  obtains "mrp_pending m c = None" "m' = m" "t = None"
  | i where "mrp_pending m c = Some i" "MaxRetransmits (mrp_config m) < pm_retries (mrp_heap m ! i) + 1"
      "m' = forget c (set_message i (\<lambda>pm. pm\<lparr>pm_retries := pm_retries pm + 1\<rparr>) m)" "t = Some (Close_acked i)"
  | i where "mrp_pending m c = Some i" "pm_retries (mrp_heap m ! i) + 1 \<le> MaxRetransmits (mrp_config m)"
      "m' = set_message i (\<lambda>pm. pm\<lparr>pm_retries := pm_retries pm + 1, pm_timer := Some d\<rparr>) m"
      "t = Some (Send_data i (pm_data (mrp_heap m ! i)) (pm_addr (mrp_heap m ! i)))"
proof (cases "mrp_pending m c")
  case None
  with assms(1) have "m' = m" "t = None" by (simp_all add: retransmit_def)
  with None show ?thesis by (rule that(1))
next
  case (Some i)
  with assms(2) have i: "i < length (mrp_heap m)" by blast
  show ?thesis
  proof (cases "MaxRetransmits (mrp_config m) < pm_retries (mrp_heap m ! i) + 1")
    case True
    show ?thesis by (rule that(2) [OF Some True]) (use assms(1) Some i True in \<open>simp_all add: retransmit_def Let_def nth_set_message\<close>)
  next
    case False
    then have few: "pm_retries (mrp_heap m ! i) + 1 \<le> MaxRetransmits (mrp_config m)" by simp
    show ?thesis by (rule that(3) [OF Some few])
      (use assms(1) Some i False in \<open>simp_all add: retransmit_def Let_def nth_set_message set_message_twice o_def\<close>)
  qed
qed

lemma ok_return:
  assumes "mrp_ok w" and "X \<subseteq> w_waiting w" and "i < length (mrp_heap (w_mrp w))" and "e = None \<Longrightarrow> settled i w"
  shows "mrp_ok (w\<lparr>w_waiting := X, w_returned := insert (i, e) (w_returned w)\<rparr>)" (is "mrp_ok ?w")
proof (rule mrp_okI)
  note d = mrp_okD [OF assms(1)]
  have s: "settled j ?w = settled j w" "retransmissions j ?w = retransmissions j w" for j
    by (simp_all add: settled_def retransmissions_def)
  then have "message_ok ?w = message_ok w" by (simp add: message_ok_def fun_eq_iff)
  then show "message_ok ?w j" if "j < length (mrp_heap (w_mrp ?w))" for j using that d(3) by simp
  show "j < length (mrp_heap (w_mrp ?w)) \<and> (e = None \<longrightarrow> settled j ?w)" if "(j, e) \<in> w_returned ?w" for j e
    using that d(7,8) [of j] assms(3,4) s by auto
  show "j < length (mrp_heap (w_mrp ?w)) \<and> fst (pm_callback (mrp_heap (w_mrp ?w) ! j)) = c"
    if "mrp_pending (w_mrp ?w) c = Some j" for c j
    using that d(1,2) by simp
  show "closing j (w_tasks ?w) = 0 \<and> retransmissions j ?w = 0" if "length (mrp_heap (w_mrp ?w)) \<le> j" for j
    using that d(4,5) s by simp
qed (use mrp_okD(6,9) [OF assms(1)] assms(2) in auto)

text \<open>Every step keeps the invariant and the configuration.\<close>

lemma mrp_step_ok:
  assumes "mrp_step fresh w w'" and ok: "mrp_ok w"
  shows "mrp_ok w' \<and> mrp_config (w_mrp w') = mrp_config (w_mrp w)"
  using assms(1)
proof cases
  case (sent a)
  then show ?thesis using ok_frame [OF ok, of w'] by simp
next
  case (registered xs a ys)
  then have "mrp_ok w'" by (intro ok_frame [OF ok_register [OF ok, of a]]) simp_all
  then show ?thesis using registered by (simp add: register_message_def Let_def)
next
  case (fires i d)
  have "mrp_ok (w\<lparr>w_mrp := set_message i (\<lambda>pm. pm\<lparr>pm_timer := None\<rparr>) (w_mrp w)\<rparr>)"
    by (rule ok_timer [OF ok]) (auto simp: nth_set_message)
  from ok_frame [OF this, of w'] show ?thesis using fires by simp
next
  case (retransmits xs c d ys m t)
  have bound: "\<forall>i. mrp_pending (w_mrp w) c = Some i \<longrightarrow> i < length (mrp_heap (w_mrp w))"
    using mrp_okD(1) [OF ok] by blast
  show ?thesis
  proof (cases rule: retransmit_cases [OF retransmits(3) bound])
    case 1
    then show ?thesis using ok_frame [OF ok, of w'] retransmits by (simp add: the_list_def)
  next
    case (2 i)
    have "mrp_ok (w\<lparr>w_mrp := m, w_tasks := w_tasks w @ [Close_acked i]\<rparr>)"
      using ok_take [OF ok 2(1), of 1 "{}" pm_timer] 2(2,3) by simp
    from ok_frame [OF this, of w'] show ?thesis using retransmits 2 by (simp add: the_list_def)
  next
    case (3 i)
    have "mrp_ok (w\<lparr>w_mrp := m, w_tasks := w_tasks w @ the_list t\<rparr>)"
      using ok_retransmit [where f = "\<lambda>_. Some d", OF ok 3(1,2)] 3(3,4) by (simp add: the_list_def)
    from ok_frame [OF this, of w'] show ?thesis using retransmits 3 by simp
  qed
next
  case (acknowledged c m t found)
  show ?thesis
  proof (cases "mrp_pending (w_mrp w) c")
    case None
    then show ?thesis using acknowledged ok_frame [OF ok, of w'] by (simp add: HandleACK_def the_list_def)
  next
    case (Some i)
    have "mrp_ok (w\<lparr>w_mrp := m, w_tasks := w_tasks w @ [Close_acked i], w_handled := w_handled w \<union> {i}\<rparr>)"
      using ok_take [OF ok Some, of 0 "{i}" "\<lambda>_. None"] acknowledged(2) Some by (simp add: HandleACK_def)
    then show ?thesis using acknowledged Some by (auto simp: HandleACK_def the_list_def)
  qed
next
  case (resent xs i data addr ys)
  then show ?thesis using ok_resent [OF ok resent(2)] by simp
next
  case (closes_channel xs i ys)
  then show ?thesis using ok_close_channel [OF ok closes_channel(2)] by simp
next
  case (call_returns i c ctx e m)
  have m: "m = w_mrp w \<or> m = removePending c (w_mrp w)" "e = None \<Longrightarrow> m = w_mrp w \<and> pm_acked (mrp_heap m ! i)"
    using call_returns(3) by (auto elim: returns.cases)
  have ok1: "mrp_ok (w\<lparr>w_mrp := m\<rparr>)"
    by (rule ok_timer [OF ok]) (use m(1) in \<open>auto simp: removePending_def nth_set_message split: option.splits if_splits\<close>)
  have i: "i < length (mrp_heap (w_mrp w))" by (rule mrp_okD(6) [OF ok call_returns(2)])
  have set: "settled i (w\<lparr>w_mrp := m\<rparr>)" if "e = None"
    using m(2) [OF that] mrp_okD(3) [OF ok i] by (auto simp: message_ok_def settled_def Let_def)
  have len: "length (mrp_heap m) = length (mrp_heap (w_mrp w))" "mrp_config m = mrp_config (w_mrp w)"
    using m(1) by (auto simp: removePending_def split: option.splits)
  have "w_waiting w - {(i, c)} \<subseteq> w_waiting (w\<lparr>w_mrp := m\<rparr>)" by auto
  from ok_return [OF ok1 this _ set] have "mrp_ok w'" using i len call_returns(1) by simp
  then show ?thesis using call_returns(1) len by simp
next
  case is_closed
  have "mrp_ok (w\<lparr>w_mrp := (w_mrp w)\<lparr>mrp_closed := True\<rparr>\<rparr>)"
    by (rule ok_timer [OF ok]) simp_all
  from ok_frame [OF this, of w'] show ?thesis using is_closed by simp
next
  case is_cleared
  have "mrp_ok (w\<lparr>w_mrp := clear_pending (w_mrp w)\<rparr>)"
    by (rule ok_timer [OF ok]) (auto simp: clear_pending_def)
  from ok_frame [OF this, of w'] show ?thesis using is_cleared by (simp add: clear_pending_def)
qed

subsection \<open>Calls come to an end\<close>

text \<open>
  What a waiting call waits for: its channel, closed or about to be; or its message is in the table
  and its timer runs or has fired.
\<close>

definition served :: "mrp_world \<Rightarrow> nat \<Rightarrow> u32 \<Rightarrow> bool" where
  "served w i c \<longleftrightarrow> mrp_closed (w_mrp w) \<or> pm_acked (mrp_heap (w_mrp w) ! i) \<or> 0 < closing i (w_tasks w) \<or>
     (mrp_pending (w_mrp w) c = Some i \<and>
      (pm_timer (mrp_heap (w_mrp w) ! i) \<noteq> None \<or> c \<in> fst ` set (w_callbacks w)))"

definition mrp_live :: "mrp_world \<Rightarrow> bool" where
  "mrp_live w \<longleftrightarrow> (w_clearing w \<longrightarrow> mrp_closed (w_mrp w)) \<and> (\<forall>(i, c) \<in> w_waiting w. served w i c \<and> (\<forall>j. (j, c) \<in> w_waiting w \<longrightarrow> j = i))"

lemma mrp_liveI:
  assumes "\<And>i c. (i, c) \<in> w_waiting w \<Longrightarrow> served w i c"
    and "\<And>i j c. (i, c) \<in> w_waiting w \<Longrightarrow> (j, c) \<in> w_waiting w \<Longrightarrow> j = i"
    and "w_clearing w \<Longrightarrow> mrp_closed (w_mrp w)"
  shows "mrp_live w"
  using assms unfolding mrp_live_def by blast

lemma mrp_liveD:
  assumes "mrp_live w" and "(i, c) \<in> w_waiting w"
  shows "served w i c" and "(j, c) \<in> w_waiting w \<Longrightarrow> j = i"
  using assms unfolding mrp_live_def by blast+

lemma removePending_other:
  assumes ok: "mrp_ok w" and "c \<noteq> c0" and i: "i < length (mrp_heap (w_mrp w))"
  shows "mrp_closed (removePending c0 (w_mrp w)) = mrp_closed (w_mrp w)"
    and "mrp_pending (removePending c0 (w_mrp w)) c = mrp_pending (w_mrp w) c"
    and "pm_acked (mrp_heap (removePending c0 (w_mrp w)) ! i) = pm_acked (mrp_heap (w_mrp w) ! i)"
    and "mrp_pending (w_mrp w) c = Some i \<Longrightarrow>
      pm_timer (mrp_heap (removePending c0 (w_mrp w)) ! i) = pm_timer (mrp_heap (w_mrp w) ! i)"
proof -
  have "j \<noteq> i" if "mrp_pending (w_mrp w) c = Some i" "mrp_pending (w_mrp w) c0 = Some j" for j
    using that mrp_okD(2) [OF ok] assms(2) by metis
  then show "mrp_pending (w_mrp w) c = Some i \<Longrightarrow>
      pm_timer (mrp_heap (removePending c0 (w_mrp w)) ! i) = pm_timer (mrp_heap (w_mrp w) ! i)"
    using i by (auto simp: removePending_def nth_set_message split: option.split)
qed (use assms in \<open>auto simp: removePending_def nth_set_message split: option.split\<close>)

lemma retransmit_closed: "retransmit c d m = (m', t) \<Longrightarrow> mrp_closed m' = mrp_closed m"
  by (auto simp: retransmit_def Let_def split: option.splits if_splits)

lemma mrp_step_live:
  assumes "mrp_step True w w'" and ok: "mrp_ok w" and live: "mrp_live w"
  shows "mrp_live w'"
proof -
  note L = mrp_liveD [OF live]
  have C: "w_clearing w \<longrightarrow> mrp_closed (w_mrp w)" using live by (simp add: mrp_live_def)
  have len: "i < length (mrp_heap (w_mrp w))" if "(i, c) \<in> w_waiting w" for i c by (rule mrp_okD(6) [OF ok that])
  from assms(1) show ?thesis
  proof cases
    case (sent a)
    with L C show ?thesis by (auto simp: served_def intro!: mrp_liveI)
  next
    case (registered xs a ys)
    have fresh: "(i, sa_messageCounter a) \<notin> w_waiting w" for i using registered(3) by (auto simp: image_iff)
    show ?thesis
    proof (rule mrp_liveI)
      fix i c assume "(i, c) \<in> w_waiting w'"
      then show "served w' i c"
        using L(1) [of i c] len [of i c] fresh registered(1)
        by (auto simp: served_def register_message_def Let_def nth_append)
    next
      fix i j c assume "(i, c) \<in> w_waiting w'" "(j, c) \<in> w_waiting w'"
      then show "j = i" using L(2) [of i c j] fresh registered(1) by auto
    qed (use C registered(1) in \<open>simp add: register_message_def Let_def\<close>)
  next
    case (fires k d)
    show ?thesis
    proof (rule mrp_liveI)
      fix i c assume w: "(i, c) \<in> w_waiting w'"
      then show "served w' i c"
        using L(1) [of i c] len [of i c] mrp_okD(2) [OF ok, of c i] fires(1)
        by (cases "i = k") (auto simp: served_def nth_set_message)
    qed (use L C fires in auto)
  next
    case (retransmits xs k d ys m t)
    have bound: "\<forall>i. mrp_pending (w_mrp w) k = Some i \<longrightarrow> i < length (mrp_heap (w_mrp w))"
      using mrp_okD(1) [OF ok] by blast
    show ?thesis
    proof (rule mrp_liveI)
      fix i c assume w': "(i, c) \<in> w_waiting w'"
      then have w: "(i, c) \<in> w_waiting w" using retransmits(1) by simp
      have cb: "c \<in> fst ` set (w_callbacks w) \<Longrightarrow> c \<noteq> k \<Longrightarrow> c \<in> fst ` set (xs @ ys)" using retransmits(2) by auto
      show "served w' i c"
      proof (cases rule: retransmit_cases [OF retransmits(3) bound])
        case 1
        with L(1) [OF w] cb show ?thesis unfolding retransmits(1)
          by (cases "c = k") (auto simp: served_def the_list_def)
      next
        case (2 j)
        then have "j \<noteq> i" if "c \<noteq> k" "mrp_pending (w_mrp w) c = Some i" using that mrp_okD(2) [OF ok] by metis
        with 2 L(1) [OF w] cb len [OF w] show ?thesis unfolding retransmits(1)
          by (cases "c = k") (auto simp: served_def the_list_def nth_set_message split: if_splits)
      next
        case (3 j)
        then have "j \<noteq> i" if "c \<noteq> k" "mrp_pending (w_mrp w) c = Some i" using that mrp_okD(2) [OF ok] by metis
        with 3 L(1) [OF w] cb len [OF w] show ?thesis unfolding retransmits(1)
          by (cases "c = k") (auto simp: served_def the_list_def nth_set_message split: if_splits)
      qed
    qed (use L C retransmits(1) in \<open>auto simp: retransmit_closed [OF retransmits(3)]\<close>)
  next
    case (acknowledged k m t found)
    show ?thesis
    proof (rule mrp_liveI)
      fix i c assume w': "(i, c) \<in> w_waiting w'"
      then have w: "(i, c) \<in> w_waiting w" using acknowledged(1) by simp
      have "j \<noteq> i" if "c \<noteq> k" "mrp_pending (w_mrp w) c = Some i" "mrp_pending (w_mrp w) k = Some j" for j
        using that mrp_okD(2) [OF ok] by metis
      then show "served w' i c" using L(1) [OF w] len [OF w] acknowledged
        by (cases "mrp_pending (w_mrp w) k") (auto simp: served_def HandleACK_def the_list_def nth_set_message split: if_splits)
    qed (use L C acknowledged in \<open>auto simp: HandleACK_def split: option.splits\<close>)
  next
    case (resent xs k data addr ys)
    with L C show ?thesis by (auto simp: served_def intro!: mrp_liveI)
  next
    case (closes_channel xs k ys)
    show ?thesis
    proof (rule mrp_liveI)
      fix i c assume w': "(i, c) \<in> w_waiting w'"
      then have w: "(i, c) \<in> w_waiting w" using closes_channel(1) by simp
      then show "served w' i c" using L(1) [OF w] len [OF w] closes_channel
        by (cases "i = k") (auto simp: served_def nth_set_message)
    qed (use L C closes_channel in auto)
  next
    case (call_returns k c0 ctx e m)
    have m: "m = w_mrp w \<or> m = removePending c0 (w_mrp w)" using call_returns(3) by (auto elim: returns.cases)
    show ?thesis
    proof (rule mrp_liveI)
      fix i c assume w': "(i, c) \<in> w_waiting w'"
      then have w: "(i, c) \<in> w_waiting w" and ne: "(i, c) \<noteq> (k, c0)" using call_returns(1) by simp_all
      have c: "c \<noteq> c0" using L(2) [OF w, of k] call_returns(2) ne by blast
      have "mrp_closed m = mrp_closed (w_mrp w)" "mrp_pending m c = mrp_pending (w_mrp w) c"
        "pm_acked (mrp_heap m ! i) = pm_acked (mrp_heap (w_mrp w) ! i)"
        "mrp_pending (w_mrp w) c = Some i \<Longrightarrow> pm_timer (mrp_heap m ! i) = pm_timer (mrp_heap (w_mrp w) ! i)"
        using m by (elim disjE; simp add: removePending_other [OF ok c len [OF w]])+
      with L(1) [OF w] show "served w' i c" unfolding call_returns(1) by (auto simp: served_def)
    qed (use L C call_returns m in \<open>auto simp: removePending_def split: option.splits\<close>)
  next
    case is_closed
    with L C show ?thesis by (auto simp: served_def intro!: mrp_liveI)
  next
    case is_cleared
    have "mrp_closed (w_mrp w)" using C is_cleared(2) by simp
    with is_cleared L C show ?thesis by (auto simp: served_def clear_pending_def intro!: mrp_liveI)
  qed
qed

lemma mrp_run:
  assumes "(mrp_step fresh)\<^sup>*\<^sup>* (mrp_start config) w"
  shows "mrp_ok w" and "mrp_config (w_mrp w) = config" and "fresh \<Longrightarrow> mrp_live w"
proof -
  from assms have "mrp_ok w \<and> mrp_config (w_mrp w) = config \<and> (fresh \<longrightarrow> mrp_live w)"
  proof (induction rule: rtranclp_induct)
    case base
    show ?case by (simp add: mrp_start_ok mrp_live_def) (simp add: mrp_start_def NewMRP_def)
  next
    case (step v w)
    then show ?case using mrp_step_ok [OF step(2)] mrp_step_live [of v w] by (cases fresh) auto
  qed
  then show "mrp_ok w" "mrp_config (w_mrp w) = config" "fresh \<Longrightarrow> mrp_live w" by blast+
qed

text \<open>
  A call returns without any further help: its timer fires and its message is retransmitted until the
  limit is reached.
\<close>

definition has_returned :: "nat \<Rightarrow> mrp_world \<Rightarrow> bool" where
  "has_returned i w \<longleftrightarrow> (\<exists>e. (i, e) \<in> w_returned w)"

definition can_return :: "nat \<Rightarrow> mrp_world \<Rightarrow> bool" where
  "can_return i w \<longleftrightarrow> (\<exists>w'. (mrp_step True)\<^sup>*\<^sup>* w w' \<and> has_returned i w')"

lemma can_return_refl: "has_returned i w \<Longrightarrow> can_return i w"
  unfolding can_return_def by blast

lemma can_return_step: "mrp_step True w v \<Longrightarrow> can_return i v \<Longrightarrow> can_return i w"
  unfolding can_return_def by (meson converse_rtranclp_into_rtranclp)

lemma can_return_now:
  assumes "(i, c) \<in> w_waiting w" and "mrp_closed (w_mrp w) \<or> pm_acked (mrp_heap (w_mrp w) ! i)"
  shows "can_return i w"
proof -
  obtain e m where "returns (w_mrp w) False i c e m" using assms(2) by (blast intro: returns.intros)
  from mrp_step.call_returns [OF assms(1) this, of True] have "mrp_step True w (w\<lparr>w_mrp := m,
    w_waiting := w_waiting w - {(i, c)}, w_returned := insert (i, e) (w_returned w)\<rparr>)" .
  then show ?thesis by (rule can_return_step [OF _ can_return_refl]) (auto simp: has_returned_def)
qed

lemma can_return_closing:
  assumes ok: "mrp_ok w" and w: "(i, c) \<in> w_waiting w" and "0 < closing i (w_tasks w)"
  shows "can_return i w"
proof -
  have "Close_acked i \<in> set (w_tasks w)" using assms(3) by (auto simp: closing_def filter_empty_conv)
  then obtain xs ys where t: "w_tasks w = xs @ Close_acked i # ys" by (meson split_list)
  show ?thesis
    by (rule can_return_step [OF mrp_step.closes_channel [OF t]], rule can_return_now [of _ c])
      (use w mrp_okD(6) [OF ok w] in \<open>simp_all add: nth_set_message\<close>)
qed

lemma waiting_can_return:
  assumes "mrp_ok w" and "mrp_live w" and "(i, c) \<in> w_waiting w"
  shows "can_return i w"
  using assms
proof (induction "nat (MaxRetransmits (mrp_config (w_mrp w)) - pm_retries (mrp_heap (w_mrp w) ! i))" arbitrary: w rule: less_induct)
  case less
  note ok = less.prems(1) and live = less.prems(2) and w = less.prems(3)
  have fired: "can_return i v"
    if ok: "mrp_ok v" and live: "mrp_live v" and w: "(i, c) \<in> w_waiting v" and p: "mrp_pending (w_mrp v) c = Some i"
      and cb: "c \<in> fst ` set (w_callbacks v)"
      and same: "mrp_config (w_mrp v) = mrp_config (w_mrp w)" "pm_retries (mrp_heap (w_mrp v) ! i) = pm_retries (mrp_heap (w_mrp w) ! i)" for v
  proof -
    obtain d xs ys where cb: "w_callbacks v = xs @ (c, d) # ys" using cb by (auto dest: split_list)
    obtain m t where r: "retransmit c d (w_mrp v) = (m, t)" by fastforce
    let ?v = "v\<lparr>w_callbacks := xs @ ys, w_mrp := m, w_tasks := w_tasks v @ the_list t\<rparr>"
    have st: "mrp_step True v ?v" by (rule mrp_step.retransmits [OF cb r])
    have w': "(i, c) \<in> w_waiting ?v" using w by simp
    have ok': "mrp_ok ?v" "mrp_live ?v" using mrp_step_ok [OF st ok] mrp_step_live [OF st ok live] by simp_all
    have bound: "\<forall>i. mrp_pending (w_mrp v) c = Some i \<longrightarrow> i < length (mrp_heap (w_mrp v))"
      using mrp_okD(1) [OF ok] by blast
    have "can_return i ?v"
    proof (cases rule: retransmit_cases [OF r bound])
      case 1
      with p show ?thesis by simp
    next
      case (2 j)
      with p have "0 < closing i (w_tasks ?v)" by (simp add: the_list_def)
      then show ?thesis by (rule can_return_closing [OF ok'(1) w'])
    next
      case (3 j)
      have j: "j = i" using 3(1) p by simp
      show ?thesis
        by (rule less.hyps [OF _ ok' w'])
          (use 3(2,3) j same mrp_okD(6) [OF ok w] in \<open>simp add: nth_set_message\<close>)
    qed
    then show ?thesis by (rule can_return_step [OF st])
  qed
  from mrp_liveD(1) [OF live w] consider "mrp_closed (w_mrp w) \<or> pm_acked (mrp_heap (w_mrp w) ! i)"
    | "0 < closing i (w_tasks w)" | "mrp_pending (w_mrp w) c = Some i" "c \<in> fst ` set (w_callbacks w)"
    | d where "mrp_pending (w_mrp w) c = Some i" "pm_timer (mrp_heap (w_mrp w) ! i) = Some d"
    unfolding served_def by (cases "pm_timer (mrp_heap (w_mrp w) ! i)") auto
  then show ?case
  proof cases
    case 1
    then show ?thesis by (rule can_return_now [OF w])
  next
    case 2
    then show ?thesis by (rule can_return_closing [OF ok w])
  next
    case 3
    then show ?thesis by (intro fired [OF ok live w]) simp_all
  next
    case (4 d)
    have len: "i < length (mrp_heap (w_mrp w))" by (rule mrp_okD(6) [OF ok w])
    let ?v = "w\<lparr>w_mrp := set_message i (\<lambda>pm. pm\<lparr>pm_timer := None\<rparr>) (w_mrp w),
      w_callbacks := w_callbacks w @ [pm_callback (mrp_heap (w_mrp w) ! i)]\<rparr>"
    have st: "mrp_step True w ?v" by (rule mrp_step.fires [OF len 4(2)])
    have "can_return i ?v"
      by (rule fired) (use mrp_step_ok [OF st ok] mrp_step_live [OF st ok live] w 4 len mrp_okD(2) [OF ok 4(1)]
        in \<open>simp_all add: nth_set_message\<close>)
    then show ?thesis by (rule can_return_step [OF st])
  qed
qed

subsection \<open>Properties\<close>

text \<open>
  C15 Whatever the order in which calls, timers, acknowledgements and the closing of the layer
  interleave: no channel is closed twice, which would panic; no message is retransmitted more often
  than the configuration allows; a call reports success only for a message whose acknowledgement was
  accepted or whose retransmissions were used up; and, as long as no two waiting calls use the same
  counter, every waiting call can return without an acknowledgement, a cancellation or a close.
\<close>

theorem mrp_safe_and_live:
  assumes "(mrp_step fresh)\<^sup>*\<^sup>* (mrp_start config) w"
  shows "\<not> w_panicked w \<and> (\<forall>i. int (retransmissions i w) \<le> max 0 (MaxRetransmits config)) \<and>
    (\<forall>i. (i, None) \<in> w_returned w \<longrightarrow> settled i w) \<and>
    (fresh \<longrightarrow> (\<forall>i c. (i, c) \<in> w_waiting w \<longrightarrow> can_return i w))"
proof (intro conjI allI impI)
  note run = mrp_run [OF assms]
  show "\<not> w_panicked w" by (rule mrp_okD(9) [OF run(1)])
  show "int (retransmissions i w) \<le> max 0 (MaxRetransmits config)" for i
    using mrp_okD(3,5) [OF run(1), of i] run(2)
    by (cases "i < length (mrp_heap (w_mrp w))") (auto simp: message_ok_def Let_def)
  show "settled i w" if "(i, None) \<in> w_returned w" for i by (rule mrp_okD(8) [OF run(1) that])
  show "can_return i w" if "fresh" "(i, c) \<in> w_waiting w" for i c
    by (rule waiting_can_return [OF run(1) run(3) [OF that(1)] that(2)])
qed

definition sample_send :: send_args where
  "sample_send = \<lparr>sa_msg = [1, 2, 3], sa_addr = ''peer'', sa_messageCounter = 7, sa_exchangeID = 1, sa_exchangeActive = True\<rparr>"

text \<open>A message sent and registered, and its first \<open>k\<close> timeouts.\<close>

definition after_timeouts :: "MRPConfig \<Rightarrow> send_args \<Rightarrow> nat \<Rightarrow> mrp_world" where
  "after_timeouts config a k =
     (let d = retransmit_timeout config (sa_exchangeActive a) in
      (mrp_start config)\<lparr>w_mrp := (NewMRP config)\<lparr>mrp_pending := [sa_messageCounter a \<mapsto> 0],
          mrp_heap := [\<lparr>pm_data = sa_msg a, pm_addr = sa_addr a, pm_retries = int k,
            pm_callback = (sa_messageCounter a, d), pm_timer = Some d, pm_acked = False, pm_exchangeID = sa_exchangeID a\<rparr>]\<rparr>,
        w_waiting := {(0, sa_messageCounter a)}, w_resent := replicate k 0\<rparr>)"

lemma reach_registered: "(mrp_step True)\<^sup>*\<^sup>* (mrp_start config) (after_timeouts config a 0)"
proof -
  have "mrp_step True (mrp_start config) ((mrp_start config)\<lparr>w_sending := w_sending (mrp_start config) @ [a]\<rparr>)"
    by (rule mrp_step.sent)
  moreover have "mrp_step True ((mrp_start config)\<lparr>w_sending := w_sending (mrp_start config) @ [a]\<rparr>) (after_timeouts config a 0)"
    using mrp_step.registered [of "(mrp_start config)\<lparr>w_sending := [a]\<rparr>" "[]" a "[]" True]
    by (simp add: mrp_start_def after_timeouts_def register_message_def NewMRP_def Let_def)
  ultimately show ?thesis by (meson rtranclp.rtrancl_into_rtrancl rtranclp.rtrancl_refl)
qed

theorem mrp_safe_and_live_witness: "can_return 0 (after_timeouts DefaultMRPConfig sample_send 0)"
  using mrp_safe_and_live [OF reach_registered [of DefaultMRPConfig sample_send]]
  by (simp add: after_timeouts_def Let_def)

lemma run3:
  "mrp_step f a b \<Longrightarrow> mrp_step f b c \<Longrightarrow> mrp_step f c d \<Longrightarrow> (mrp_step f)\<^sup>*\<^sup>* a d"
  by (meson rtranclp.rtrancl_into_rtrancl rtranclp.rtrancl_refl)

lemma timeout_step:
  assumes "int k + 1 \<le> MaxRetransmits config"
  shows "(mrp_step True)\<^sup>*\<^sup>* (after_timeouts config a k) (after_timeouts config a (Suc k))"
proof -
  let ?w = "after_timeouts config a k" and ?d = "retransmit_timeout config (sa_exchangeActive a)"
  let ?m1 = "set_message 0 (\<lambda>pm. pm\<lparr>pm_timer := None\<rparr>) (w_mrp ?w)"
  let ?w1 = "?w\<lparr>w_mrp := ?m1, w_callbacks := w_callbacks ?w @ [pm_callback (mrp_heap (w_mrp ?w) ! 0)]\<rparr>"
  let ?m2 = "set_message 0 (\<lambda>pm. pm\<lparr>pm_retries := pm_retries pm + 1, pm_timer := Some ?d\<rparr>) ?m1"
  let ?t = "Send_data 0 (sa_msg a) (sa_addr a)"
  let ?w2 = "?w1\<lparr>w_callbacks := [] @ [], w_mrp := ?m2, w_tasks := w_tasks ?w1 @ the_list (Some ?t)\<rparr>"
  let ?w3 = "?w2\<lparr>w_tasks := [] @ [], w_resent := w_resent ?w2 @ [0]\<rparr>"
  have s1: "mrp_step True ?w ?w1"
    by (rule mrp_step.fires [of 0 _ ?d]) (simp_all add: after_timeouts_def Let_def)
  have s2: "mrp_step True ?w1 ?w2"
    using assms
    by (intro mrp_step.retransmits [of _ _ "sa_messageCounter a" ?d])
      (simp_all add: after_timeouts_def Let_def mrp_start_def retransmit_def set_message_def NewMRP_def)
  have s3: "mrp_step True ?w2 ?w3"
    by (rule mrp_step.resent [of _ _ 0 "sa_msg a" "sa_addr a"])
      (simp add: after_timeouts_def Let_def mrp_start_def the_list_def)
  have "(mrp_step True)\<^sup>*\<^sup>* ?w ?w3" by (rule run3 [OF s1 s2 s3])
  moreover have "?w3 = after_timeouts config a (Suc k)"
    by (simp add: after_timeouts_def Let_def mrp_start_def set_message_def NewMRP_def replicate_append_same)
  ultimately show ?thesis by (simp only:)
qed

lemma reach_timeouts:
  "int k \<le> MaxRetransmits config \<Longrightarrow> (mrp_step True)\<^sup>*\<^sup>* (mrp_start config) (after_timeouts config a k)"
proof (induction k)
  case (Suc k)
  then show ?case using timeout_step [of k config a] by (auto intro: rtranclp_trans)
qed (simp add: reach_registered)

text \<open>
  Every message, once it is registered, may be retransmitted to the limit without an acknowledgement
  and its caller be told of success.
\<close>

definition after_giving_up :: "MRPConfig \<Rightarrow> send_args \<Rightarrow> mrp_world" where
  "after_giving_up config a =
     (let k = nat (MaxRetransmits config); w = after_timeouts config a k in
      w\<lparr>w_mrp := (w_mrp w)\<lparr>mrp_pending := Map.empty,
          mrp_heap := [(mrp_heap (w_mrp w) ! 0)\<lparr>pm_retries := int k + 1, pm_timer := None, pm_acked := True\<rparr>]\<rparr>,
        w_waiting := {}, w_returned := {(0, None)}\<rparr>)"

lemma reach_giving_up:
  assumes "0 \<le> MaxRetransmits config"
  shows "(mrp_step True)\<^sup>*\<^sup>* (mrp_start config) (after_giving_up config a)"
proof -
  let ?k = "nat (MaxRetransmits config)" and ?d = "retransmit_timeout config (sa_exchangeActive a)" and ?c = "sa_messageCounter a"
  let ?w = "after_timeouts config a ?k"
  let ?m1 = "set_message 0 (\<lambda>pm. pm\<lparr>pm_timer := None\<rparr>) (w_mrp ?w)"
  let ?w1 = "?w\<lparr>w_mrp := ?m1, w_callbacks := w_callbacks ?w @ [pm_callback (mrp_heap (w_mrp ?w) ! 0)]\<rparr>"
  let ?m2 = "forget ?c (set_message 0 (\<lambda>pm. pm\<lparr>pm_retries := pm_retries pm + 1\<rparr>) ?m1)"
  let ?w2 = "?w1\<lparr>w_callbacks := [] @ [], w_mrp := ?m2, w_tasks := w_tasks ?w1 @ the_list (Some (Close_acked 0))\<rparr>"
  let ?m3 = "set_message 0 (\<lambda>pm. pm\<lparr>pm_acked := True\<rparr>) (w_mrp ?w2)"
  let ?w3 = "?w2\<lparr>w_tasks := [] @ [], w_mrp := ?m3, w_panicked := w_panicked ?w2 \<or> pm_acked (mrp_heap (w_mrp ?w2) ! 0)\<rparr>"
  let ?w4 = "?w3\<lparr>w_mrp := ?m3, w_waiting := w_waiting ?w3 - {(0, ?c)}, w_returned := insert (0, None) (w_returned ?w3)\<rparr>"
  have s0: "(mrp_step True)\<^sup>*\<^sup>* (mrp_start config) ?w" by (rule reach_timeouts) (use assms in simp)
  have s1: "mrp_step True ?w ?w1"
    by (rule mrp_step.fires [of 0 _ ?d]) (simp_all add: after_timeouts_def Let_def)
  have s2: "mrp_step True ?w1 ?w2"
    using assms
    by (intro mrp_step.retransmits [of _ _ ?c ?d])
      (simp_all add: after_timeouts_def Let_def mrp_start_def retransmit_def set_message_def NewMRP_def)
  have s3: "mrp_step True ?w2 ?w3"
    by (rule mrp_step.closes_channel) (simp add: after_timeouts_def Let_def mrp_start_def the_list_def)
  have s4: "mrp_step True ?w3 ?w4"
    by (rule mrp_step.call_returns [where ctx_done = False])
      (simp_all add: after_timeouts_def Let_def mrp_start_def returns_nil nth_set_message)
  have "(mrp_step True)\<^sup>*\<^sup>* (mrp_start config) ?w4"
    using s0 run3 [OF s1 s2 s3] s4 by (meson rtranclp_trans rtranclp.rtrancl_into_rtrancl)
  moreover have "?w4 = after_giving_up config a"
    using assms by (simp add: after_giving_up_def after_timeouts_def Let_def mrp_start_def NewMRP_def set_message_def forget_def)
  ultimately show ?thesis by (simp only:)
qed

text \<open>
  C16 Success without an acknowledgement: a call of \<^verbatim>\<open>SendReliable\<close> that returns without an error for a
  message whose acknowledgement was never accepted does so only after the message was retransmitted
  exactly as often as the configuration allows (the last transmission may still be under way), in
  every interleaving; and it does happen: for every configuration that allows a retransmission or
  none, and whatever the message, there is a run in which nothing was acknowledged, the message was
  transmitted again exactly that often, nothing is left pending, and the call has returned no error.
\<close>

theorem mrp_lost_message_succeeds:
  assumes "0 \<le> MaxRetransmits config"
  shows "(\<forall>fresh w i. (mrp_step fresh)\<^sup>*\<^sup>* (mrp_start config) w \<and> (i, None) \<in> w_returned w \<and> i \<notin> w_handled w \<longrightarrow>
      int (retransmissions i w) = MaxRetransmits config) \<and>
    (\<forall>a :: send_args. \<exists>w. (mrp_step True)\<^sup>*\<^sup>* (mrp_start config) w \<and> map pm_data (mrp_heap (w_mrp w)) = [sa_msg a] \<and> w_handled w = {} \<and>
      w_resent w = replicate (nat (MaxRetransmits config)) 0 \<and> w_returned w = {(0, None)} \<and> PendingCount (w_mrp w) = 0)"
proof (intro conjI allI impI)
  show "int (retransmissions i w) = MaxRetransmits config"
    if r: "(mrp_step fresh)\<^sup>*\<^sup>* (mrp_start config) w \<and> (i, None) \<in> w_returned w \<and> i \<notin> w_handled w" for fresh w i
  proof -
    from r have run: "(mrp_step fresh)\<^sup>*\<^sup>* (mrp_start config) w" by blast
    note ok = mrp_run [OF run]
    have "message_ok w i" using mrp_okD(3,7) [OF ok(1)] r by blast
    moreover have "settled i w" using mrp_okD(8) [OF ok(1)] r by blast
    ultimately show ?thesis using r assms ok(2) by (auto simp: message_ok_def settled_def Let_def)
  qed
  show "\<exists>w. (mrp_step True)\<^sup>*\<^sup>* (mrp_start config) w \<and> map pm_data (mrp_heap (w_mrp w)) = [sa_msg a] \<and> w_handled w = {} \<and>
      w_resent w = replicate (nat (MaxRetransmits config)) 0 \<and> w_returned w = {(0, None)} \<and> PendingCount (w_mrp w) = 0" for a :: send_args
    using reach_giving_up [OF assms, of a]
    by (intro exI [of _ "after_giving_up config a"])
      (simp add: after_giving_up_def after_timeouts_def Let_def mrp_start_def PendingCount_def)
qed

theorem mrp_lost_message_succeeds_witness:
  "\<exists>w. (mrp_step True)\<^sup>*\<^sup>* (mrp_start DefaultMRPConfig) w \<and> w_handled w = {} \<and>
    w_resent w = [0, 0, 0, 0] \<and> w_returned w = {(0, None)} \<and> PendingCount (w_mrp w) = 0"
  using mrp_lost_message_succeeds [of DefaultMRPConfig]
  by (auto simp: DefaultMRPConfig_def DefaultMaxRetransmits_def numeral_eq_Suc)

end
