(* ===== verification/Btp.thy ===== *)
theory Btp
  imports Prelude
begin

text \<open>
  The BLE transport protocol engine of \<^verbatim>\<open>internal/transport/btp.go\<close>: the handshake messages, the
  segmentation of outgoing messages, the reassembly of incoming segments and the window of
  unacknowledged segments.  A session is a record; each method runs under its mutex and is a
  function on it.  Sequence numbers and window counts are bytes and wrap.
\<close>

subsection \<open>Constants and handshake\<close>

definition btpFlagBegin :: byte where [const_defs]: "btpFlagBegin = 0x01"
definition btpFlagContinue :: byte where [const_defs]: "btpFlagContinue = 0x02"
definition btpFlagEnd :: byte where [const_defs]: "btpFlagEnd = 0x04"
definition btpFlagAck :: byte where [const_defs]: "btpFlagAck = 0x08"
definition btpCapsMagic1 :: byte where [const_defs]: "btpCapsMagic1 = 0x65"
definition btpCapsMagic2 :: byte where [const_defs]: "btpCapsMagic2 = 0x6C"
definition btpCurrentVersion :: byte where [const_defs]: "btpCurrentVersion = 4"
definition btpDefaultWindowSize :: byte where [const_defs]: "btpDefaultWindowSize = 6"
definition btpDefaultATTMTU :: u16 where [const_defs]: "btpDefaultATTMTU = 247"
definition btpGATTOverhead :: u16 where [const_defs]: "btpGATTOverhead = 3"
definition btpMinSegmentSize :: u16 where [const_defs]: "btpMinSegmentSize = 20"
definition btpDefaultSegmentSize :: u16 where
  [const_defs]: "btpDefaultSegmentSize = btpDefaultATTMTU - btpGATTOverhead"
definition btpCapsRequestLen :: nat where [const_defs]: "btpCapsRequestLen = 9"
definition btpCapsResponseLen :: nat where [const_defs]: "btpCapsResponseLen = 6"
definition btpMaxVersionSlots :: nat where [const_defs]: "btpMaxVersionSlots = 8"
definition btpMessageBufferSize :: nat where [const_defs]: "btpMessageBufferSize = 8"

definition isBTPCapabilitiesMessage :: "byte list \<Rightarrow> bool" where
  "isBTPCapabilitiesMessage data \<longleftrightarrow>
     length data \<ge> 2 \<and> data ! 0 = btpCapsMagic1 \<and> data ! 1 = btpCapsMagic2"

text \<open>One turn of the loop that packs version numbers into nibbles.\<close>

definition put_version :: "byte list \<Rightarrow> nat \<Rightarrow> byte list \<Rightarrow> byte list" where
  "put_version versions i out =
     (let byteIdx = 2 + i div 2 in
      if i mod 2 = 0 then out[byteIdx := out ! byteIdx OR (versions ! i AND 0x0F)]
      else out[byteIdx := out ! byteIdx OR push_bit 4 (versions ! i AND 0x0F)])"

definition btpHandshakeRequest :: "byte list \<Rightarrow> u16 \<Rightarrow> byte \<Rightarrow> byte list" where
  "btpHandshakeRequest versions attMTU windowSize =
     (let out = replicate btpCapsRequestLen 0;
          out = out[0 := btpCapsMagic1, 1 := btpCapsMagic2];
          out = fold (put_version versions) [0..<min btpMaxVersionSlots (length versions)] out
      in take 6 out @ le_put 2 attMTU @ [windowSize])"

definition parseBTPHandshakeResponse :: "byte list \<Rightarrow> (byte \<times> u16 \<times> byte) res" where
  "parseBTPHandshakeResponse data =
     (if length data < btpCapsResponseLen then
        Err (Errorf (''btp: handshake response too short: '' @ fmt_d (length data) @ '' bytes (want ''
          @ fmt_d btpCapsResponseLen @ '')''))
      else if data ! 0 \<noteq> btpCapsMagic1 \<or> data ! 1 \<noteq> btpCapsMagic2 then
        Err (Errorf (''btp: handshake response bad magic (0x'' @ fmt_02X (data ! 0) @ '' 0x'' @ fmt_02X (data ! 1)
          @ '', want 0x'' @ fmt_02X btpCapsMagic1 @ '' 0x'' @ fmt_02X btpCapsMagic2 @ '')''))
      else
        let version = data ! 2 AND 0x0F;
            fragmentSize = le_get (take 2 (drop 3 data));
            windowSize = data ! 5
        in if fragmentSize = 0 then Err (Errorf ''btp: negotiated fragment size is 0'')
           else if windowSize = 0 then Err (Errorf ''btp: negotiated window size is 0'')
           else Ok (version, fragmentSize, windowSize))"

subsection \<open>The session\<close>

record btpSession =
  segmentSize :: u16
  btp_version :: byte
  btp_windowSize :: byte
  localSeq :: byte
  txInflight :: byte
  hasPendingAck :: bool
  pendingAck :: byte
  rxBuf :: "byte list"
  rxExpected :: u16
  rxActive :: bool
  messages :: "byte list list"
  btp_closed :: bool

definition newBTPSession :: btpSession where
  "newBTPSession = \<lparr>segmentSize = btpDefaultSegmentSize, btp_version = btpCurrentVersion,
     btp_windowSize = btpDefaultWindowSize, localSeq = 0, txInflight = 0, hasPendingAck = False,
     pendingAck = 0, rxBuf = [], rxExpected = 0, rxActive = False, messages = [], btp_closed = False\<rparr>"

definition initHandshakeFromResponse :: "byte \<Rightarrow> u16 \<Rightarrow> byte \<Rightarrow> btpSession \<Rightarrow> btpSession" where
  "initHandshakeFromResponse version fragmentSize windowSize s =
     s\<lparr>btp_version := version,
       segmentSize := (if fragmentSize < btpMinSegmentSize then btpMinSegmentSize else fragmentSize),
       btp_windowSize := windowSize\<rparr>"

definition initHandshake :: "byte \<Rightarrow> u16 \<Rightarrow> byte \<Rightarrow> btpSession \<Rightarrow> btpSession" where
  "initHandshake version attMTU windowSize s =
     (let seg = attMTU - btpGATTOverhead;
          seg = (if seg < btpMinSegmentSize then btpMinSegmentSize else seg)
      in initHandshakeFromResponse version seg windowSize s)"

definition closeSession :: "btpSession \<Rightarrow> btpSession" where
  "closeSession s = s\<lparr>btp_closed := True\<rparr>"

subsection \<open>Sending\<close>

definition buildSegment :: "byte list \<Rightarrow> bool \<Rightarrow> bool \<Rightarrow> u16 \<Rightarrow> btpSession \<Rightarrow> byte list \<times> btpSession" where
  "buildSegment payload beginSeg endSeg msgLen s =
     (let flags = 0;
          flags = (if beginSeg then flags OR btpFlagBegin else flags OR btpFlagContinue);
          flags = (if endSeg then flags OR btpFlagEnd else flags);
          piggy = (hasPendingAck s \<and> beginSeg);
          flags = (if piggy then flags OR btpFlagAck else flags);
          buf = [flags];
          buf = (if piggy then buf @ [pendingAck s] else buf);
          s = (if piggy then s\<lparr>hasPendingAck := False\<rparr> else s);
          buf = buf @ [localSeq s];
          s = s\<lparr>localSeq := localSeq s + 1\<rparr>;
          buf = (if beginSeg then buf @ le_put 2 msgLen else buf)
      in (buf @ payload, s))"

text \<open>The bytes a segment has besides its payload, as the loop of \<^verbatim>\<open>segment\<close> computes them.\<close>

definition overhead :: "bool \<Rightarrow> btpSession \<Rightarrow> nat" where
  "overhead isFirst s =
     1 + 1 + (if isFirst \<and> hasPendingAck s then 1 else 0) + (if isFirst then 2 else 0)"

definition maxPayload :: "bool \<Rightarrow> btpSession \<Rightarrow> nat" where
  "maxPayload isFirst s =
     (let m = int (unat (segmentSize s)) - int (overhead isFirst s) in if m < 1 then 1 else nat m)"

lemma maxPayload_pos [simp]: "0 < maxPayload isFirst s"
  by (simp add: maxPayload_def Let_def)

text \<open>\<open>rest\<close> is what \<^verbatim>\<open>offset\<close> leaves of the message.\<close>

function segment_loop ::
  "byte list \<Rightarrow> bool \<Rightarrow> u16 \<Rightarrow> btpSession \<Rightarrow> byte list list \<times> btpSession" where
  "segment_loop rest isFirst totalLen s =
     (if rest = [] then ([], s)
      else
        let m = maxPayload isFirst s;
            isLast = (m \<ge> length rest);
            (seg, s) = buildSegment (take m rest) isFirst isLast totalLen s;
            (segs, s) = segment_loop (drop m rest) False totalLen s
        in (seg # segs, s))"
  by pat_completeness auto
termination by (relation "measure (\<lambda>(rest, _). length rest)") (auto simp: neq_Nil_conv Suc_le_eq)

declare segment_loop.simps [simp del]

definition segment :: "byte list \<Rightarrow> btpSession \<Rightarrow> byte list list \<times> btpSession" where
  "segment msg s =
     (let totalLen = word_of_nat (length msg) in
      if totalLen = 0 then (let (seg, s) = buildSegment [] True True totalLen s in ([seg], s))
      else segment_loop msg True totalLen s)"

definition standaloneAck :: "btpSession \<Rightarrow> byte list option \<times> btpSession" where
  "standaloneAck s =
     (if \<not> hasPendingAck s then (None, s)
      else (Some [btpFlagAck, pendingAck s, localSeq s],
            s\<lparr>localSeq := localSeq s + 1, hasPendingAck := False\<rparr>))"

definition rollbackStandaloneAck :: "byte \<Rightarrow> btpSession \<Rightarrow> btpSession" where
  "rollbackStandaloneAck ackNum s =
     s\<lparr>localSeq := localSeq s - 1, hasPendingAck := True, pendingAck := ackNum\<rparr>"

text \<open>One turn of the loop of \<^verbatim>\<open>waitCanSend\<close>: \<open>Blocked\<close> is \<^verbatim>\<open>cond.Wait\<close>.\<close>

definition waitCanSend :: "err option \<Rightarrow> btpSession \<Rightarrow> err option outcome" where
  "waitCanSend ctx s =
     (if btp_closed s then Returned (Some (Errorf ''btp: session closed''))
      else if ctx \<noteq> None then Returned ctx
      else if txInflight s < btp_windowSize s then Returned None
      else Blocked)"

definition markSent :: "btpSession \<Rightarrow> btpSession" where
  "markSent s = s\<lparr>txInflight := txInflight s + 1\<rparr>"

subsection \<open>Receiving\<close>

definition processAck :: "byte \<Rightarrow> btpSession \<Rightarrow> btpSession" where
  "processAck ackNum s =
     (if txInflight s = 0 then s
      else
        let oldest = localSeq s - txInflight s;
            newlyAcked = ackNum - oldest + 1;
            newlyAcked = (if newlyAcked > txInflight s then txInflight s else newlyAcked)
        in if newlyAcked > 0 then s\<lparr>txInflight := txInflight s - newlyAcked\<rparr> else s)"

text \<open>The delivery at the end of \<^verbatim>\<open>handleSegment\<close>.\<close>

definition deliver :: "bool \<Rightarrow> byte list \<Rightarrow> btpSession \<Rightarrow> err option outcome \<times> btpSession" where
  "deliver coin assembled s =
     (if length (messages s) < btpMessageBufferSize \<and> (\<not> btp_closed s \<or> coin) then
        (Returned None, s\<lparr>messages := messages s @ [assembled]\<rparr>)
      else if btp_closed s then (Returned (Some (Errorf ''btp: session closed during message delivery'')), s)
      else (Blocked, s))"

text \<open>
  The part of \<^verbatim>\<open>handleSegment\<close> after the sequence number; \<open>body\<close> is \<^verbatim>\<open>data[idx:]\<close> there.
\<close>

definition finish_segment ::
  "bool \<Rightarrow> byte \<Rightarrow> byte list \<Rightarrow> btpSession \<Rightarrow> err option outcome \<times> btpSession" where
  "finish_segment coin flags body s =
     (if flags AND btpFlagBegin = 0 \<and> flags AND btpFlagEnd = 0 \<and> body = [] then (Returned None, s)
      else if \<not> rxActive s then
        (Returned (Some (Errorf (''btp: received non-B segment (flags=0x'' @ fmt_02X flags
           @ '') with no active reassembly''))), s)
      else
        let s = s\<lparr>rxBuf := rxBuf s @ body\<rparr> in
        if flags AND btpFlagEnd = 0 then (Returned None, s)
        else
          let assembled = rxBuf s;
              s = s\<lparr>rxBuf := [], rxActive := False\<rparr>
          in if (word_of_nat (length assembled) :: u16) \<noteq> rxExpected s then
               (Returned (Some (Errorf (''btp: message length mismatch: reassembled '' @ fmt_d (length assembled)
                  @ '' bytes, header declared '' @ fmt_d (unat (rxExpected s))))), s)
             else deliver coin assembled s)"

definition handleSegment :: "bool \<Rightarrow> byte list \<Rightarrow> btpSession \<Rightarrow> err option outcome \<times> btpSession" where
  "handleSegment coin data s =
     (case data of
        [] \<Rightarrow> (Returned (Some (Errorf ''btp: received empty segment'')), s)
      | flags # data' \<Rightarrow>
          if isBTPCapabilitiesMessage data then
            (Returned (Some (Errorf ''btp: unexpected capabilities message in data path'')), s)
          else if flags AND btpFlagAck \<noteq> 0 \<and> data' = [] then
            (Returned (Some (Errorf ''btp: truncated segment: missing AckNum'')), s)
          else
            let s = (if flags AND btpFlagAck \<noteq> 0 then processAck (hd data') s else s);
                data'' = (if flags AND btpFlagAck \<noteq> 0 then tl data' else data')
            in case data'' of
                 [] \<Rightarrow> (Returned (Some (Errorf ''btp: truncated segment: missing SeqNum'')), s)
               | seqNum # body \<Rightarrow>
                   let s = s\<lparr>pendingAck := seqNum, hasPendingAck := True\<rparr> in
                   if flags AND btpFlagBegin \<noteq> 0 then
                     (if length body < 2 then
                        (Returned (Some (Errorf ''btp: truncated segment: missing MsgLen'')), s)
                      else if rxActive s then
                        (Returned (Some (Errorf ''btp: received B-segment while reassembly already in progress'')), s)
                      else finish_segment coin flags (drop 2 body)
                             (s\<lparr>rxBuf := [], rxExpected := le_get (take 2 body), rxActive := True\<rparr>))
                   else finish_segment coin flags body s)"

subsection \<open>What a segment carries\<close>

definition seg_flags :: "bool \<Rightarrow> bool \<Rightarrow> bool \<Rightarrow> byte" where
  "seg_flags b e piggy = (if b then btpFlagBegin else btpFlagContinue) OR (if e then btpFlagEnd else 0)
     OR (if piggy then btpFlagAck else 0)"

lemma seg_flags_bits [simp]:
  "seg_flags b e piggy AND btpFlagBegin = 0 \<longleftrightarrow> \<not> b"
  "seg_flags b e piggy AND btpFlagEnd = 0 \<longleftrightarrow> \<not> e"
  "seg_flags b e piggy AND btpFlagAck = 0 \<longleftrightarrow> \<not> piggy"
  "seg_flags b e piggy \<noteq> btpCapsMagic1"
  by (simp_all add: seg_flags_def const_defs)

lemma buildSegment_eq:
  "buildSegment payload b e n s =
     (let piggy = hasPendingAck s \<and> b in
      ([seg_flags b e piggy] @ (if piggy then [pendingAck s] else []) @ [localSeq s] @
         (if b then le_put 2 n else []) @ payload,
       s\<lparr>hasPendingAck := (hasPendingAck s \<and> \<not> b), localSeq := localSeq s + 1\<rparr>))"
  by (simp add: buildSegment_def seg_flags_def Let_def or.assoc)

lemma snd_buildSegment [simp]:
  "localSeq (snd (buildSegment payload b e n s)) = localSeq s + 1"
  "segmentSize (snd (buildSegment payload b e n s)) = segmentSize s"
  "hasPendingAck (snd (buildSegment payload True e n s)) = False"
  "txInflight (snd (buildSegment payload b e n s)) = txInflight s"
  by (simp_all add: buildSegment_eq Let_def)

lemma processAck_rx [simp]:
  "rxBuf (processAck a s) = rxBuf s" "rxExpected (processAck a s) = rxExpected s"
  "rxActive (processAck a s) = rxActive s" "messages (processAck a s) = messages s"
  "btp_closed (processAck a s) = btp_closed s"
  by (simp_all add: processAck_def Let_def)

text \<open>A receiver that is ready to take a message.\<close>

definition rx_room :: "btpSession \<Rightarrow> bool" where
  "rx_room r \<longleftrightarrow> \<not> btp_closed r \<and> length (messages r) < btpMessageBufferSize"

definition rx_holds :: "byte list \<Rightarrow> u16 \<Rightarrow> btpSession \<Rightarrow> bool" where
  "rx_holds pre n r \<longleftrightarrow> rxActive r \<and> rxBuf r = pre \<and> rxExpected r = n"

lemma handle_first:
  assumes "\<not> rxActive r"
  shows "\<exists>r'. handleSegment coin (fst (buildSegment p True e n s)) r = finish_segment coin (seg_flags True e (hasPendingAck s)) p r' \<and>
     rx_holds [] n r' \<and> messages r' = messages r \<and> btp_closed r' = btp_closed r"
  using assms
  by (auto simp: buildSegment_eq handleSegment_def isBTPCapabilitiesMessage_def rx_holds_def Let_def)

lemma handle_next:
  "\<exists>r'. handleSegment coin (fst (buildSegment p False e n s)) r = finish_segment coin (seg_flags False e False) p r' \<and>
     (rx_holds pre n r \<longrightarrow> rx_holds pre n r') \<and> messages r' = messages r \<and> btp_closed r' = btp_closed r"
  by (auto simp: buildSegment_eq handleSegment_def isBTPCapabilitiesMessage_def rx_holds_def Let_def)

lemma finish_more:
  assumes "rx_holds pre n r" and "b \<or> p \<noteq> []"
  shows "\<exists>r'. finish_segment coin (seg_flags b False k) p r = (Returned None, r') \<and> rx_holds (pre @ p) n r' \<and>
     messages r' = messages r \<and> btp_closed r' = btp_closed r"
  using assms by (auto simp: finish_segment_def rx_holds_def Let_def)

lemma finish_last:
  assumes "rx_holds pre n r" and "rx_room r" and "word_of_nat (length (pre @ p)) = n"
  shows "\<exists>r'. finish_segment coin (seg_flags b True k) p r = (Returned None, r') \<and> \<not> rxActive r' \<and>
     messages r' = messages r @ [pre @ p] \<and> btp_closed r' = btp_closed r"
  using assms by (auto simp: finish_segment_def rx_holds_def rx_room_def deliver_def Let_def)

subsection \<open>Reassembly\<close>

text \<open>A receiver taking segments in order; \<open>None\<close> as soon as one is refused or blocks.\<close>

fun receive_all :: "bool \<Rightarrow> byte list list \<Rightarrow> btpSession \<Rightarrow> btpSession option" where
  "receive_all coin [] r = Some r"
| "receive_all coin (seg # segs) r =
     (case handleSegment coin seg r of (Returned None, r') \<Rightarrow> receive_all coin segs r' | _ \<Rightarrow> None)"

lemma segment_loop_step:
  "rest \<noteq> [] \<Longrightarrow> segment_loop rest first n s =
     (let m = maxPayload first s; b = buildSegment (take m rest) first (m \<ge> length rest) n s;
          l = segment_loop (drop m rest) False n (snd b)
      in (fst b # fst l, snd l))"
  by (subst segment_loop.simps) (simp add: Let_def case_prod_beta)

lemma segment_loop_Nil: "segment_loop [] first n s = ([], s)"
  by (subst segment_loop.simps) simp

lemma receive_rest:
  assumes "rest \<noteq> []" and "rx_holds pre n r" and "rx_room r" and "word_of_nat (length (pre @ rest)) = n"
  shows "\<exists>r'. receive_all coin (fst (segment_loop rest False n s)) r = Some r' \<and> \<not> rxActive r' \<and>
     messages r' = messages r @ [pre @ rest]"
  using assms
proof (induction "length rest" arbitrary: rest pre s r rule: less_induct)
  case less
  let ?m = "maxPayload False s"
  let ?b = "buildSegment (take ?m rest) False (?m \<ge> length rest) n s"
  obtain r1 where r1: "handleSegment coin (fst ?b) r
      = finish_segment coin (seg_flags False (?m \<ge> length rest) False) (take ?m rest) r1"
    "rx_holds pre n r1" "messages r1 = messages r" "btp_closed r1 = btp_closed r"
    using handle_next [of coin "take ?m rest" "?m \<ge> length rest" n s r pre] less.prems(2) by blast
  have room1: "rx_room r1" using less.prems(3) r1 by (simp add: rx_room_def)
  show ?case
  proof (cases "?m \<ge> length rest")
    case True
    with finish_last [OF r1(2) room1 less.prems(4), of coin False] r1 obtain r2 where
      "handleSegment coin (fst ?b) r = (Returned None, r2)" "\<not> rxActive r2"
      "messages r2 = messages r @ [pre @ rest]" by auto
    with True less.prems(1) show ?thesis by (simp add: segment_loop_step segment_loop_Nil Let_def)
  next
    case False
    then have "take ?m rest \<noteq> []" using less.prems(1) by simp
    with finish_more [OF r1(2), of False "take ?m rest" coin False] r1 obtain r2 where
      r2: "handleSegment coin (fst ?b) r = (Returned None, r2)" "rx_holds (pre @ take ?m rest) n r2"
        "messages r2 = messages r" "btp_closed r2 = btp_closed r" using False by auto
    have "\<exists>r'. receive_all coin (fst (segment_loop (drop ?m rest) False n (snd ?b))) r2 = Some r' \<and>
        \<not> rxActive r' \<and> messages r' = messages r2 @ [(pre @ take ?m rest) @ drop ?m rest]"
    proof (rule less.hyps)
      show "length (drop ?m rest) < length rest" using less.prems(1) by simp
    qed (use False r2 less.prems in \<open>auto simp: rx_room_def\<close>)
    with r2 less.prems(1) show ?thesis by (simp add: segment_loop_step Let_def)
  qed
qed

lemma segment_received:
  assumes "msg = [] \<or> length msg mod 2 ^ 16 \<noteq> 0" and "\<not> rxActive r" and "rx_room r"
  shows "\<exists>r'. receive_all coin (fst (segment msg s)) r = Some r' \<and> \<not> rxActive r' \<and>
     messages r' = messages r @ [msg]"
proof -
  let ?n = "word_of_nat (length msg) :: u16"
  have n: "?n = 0 \<longleftrightarrow> msg = []"
    using assms(1) by (auto simp: unat_eq_zero [symmetric] unsigned_of_nat take_bit_eq_mod)
  define m where "m = maxPayload True s"
  define p where "p = take m msg"
  define e where "e \<longleftrightarrow> m \<ge> length msg"
  obtain r1 where r1: "handleSegment coin (fst (buildSegment p True e ?n s)) r
      = finish_segment coin (seg_flags True e (hasPendingAck s)) p r1"
    "rx_holds [] ?n r1" "messages r1 = messages r" "btp_closed r1 = btp_closed r"
    using handle_first [OF assms(2)] by blast
  have room1: "rx_room r1" using assms(3) r1 by (simp add: rx_room_def)
  have seg: "fst (segment msg s) = fst (buildSegment p True e ?n s) #
      fst (segment_loop (drop m msg) False ?n (snd (buildSegment p True e ?n s)))"
    by (cases "msg = []")
      (simp_all add: segment_def n segment_loop_step segment_loop_Nil p_def e_def m_def Let_def case_prod_beta)
  show ?thesis
  proof (cases e)
    case True
    then have p: "p = msg" by (simp add: e_def p_def)
    from finish_last [OF r1(2) room1, of p coin True "hasPendingAck s"] True r1 obtain r2 where
      "handleSegment coin (fst (buildSegment p True e ?n s)) r = (Returned None, r2)" "\<not> rxActive r2"
      "messages r2 = messages r @ [msg]" by (auto simp: p)
    with True seg show ?thesis by (simp add: e_def segment_loop_Nil)
  next
    case False
    with finish_more [OF r1(2), of True p coin "hasPendingAck s"] r1 obtain r2 where
      r2: "handleSegment coin (fst (buildSegment p True e ?n s)) r = (Returned None, r2)" "rx_holds p ?n r2"
        "messages r2 = messages r" "btp_closed r2 = btp_closed r" by auto
    have "drop m msg \<noteq> []" using False by (simp add: e_def)
    from receive_rest [OF this r2(2), of coin "snd (buildSegment p True e ?n s)"] r2 seg assms(3)
    show ?thesis by (simp add: rx_room_def p_def)
  qed
qed

subsection \<open>Sizes and sequence numbers\<close>

text \<open>The sequence number of a segment: behind the flags and the acknowledgment, if there is one.\<close>

definition seq_of :: "byte list \<Rightarrow> byte" where
  "seq_of seg = (if seg ! 0 AND btpFlagAck \<noteq> 0 then seg ! 2 else seg ! 1)"

lemma seq_of_buildSegment: "seq_of (fst (buildSegment p b e n s)) = localSeq s"
  by (auto simp: seq_of_def buildSegment_eq Let_def)

lemma length_buildSegment:
  "length (fst (buildSegment p b e n s)) = length p + overhead b s"
  by (auto simp: buildSegment_eq overhead_def Let_def)

lemma overhead_le: "overhead b s \<le> 5"
  by (simp add: overhead_def)

lemma maxPayload_fits:
  assumes "20 \<le> unat (segmentSize s)"
  shows "maxPayload b s + overhead b s = unat (segmentSize s)"
proof -
  have "maxPayload b s = nat (int (unat (segmentSize s)) - int (overhead b s))"
    using assms overhead_le [of b s] unfolding maxPayload_def Let_def by (subst if_not_P) linarith+
  then show ?thesis using assms overhead_le [of b s] by linarith
qed

lemma segment_loop_wire:
  assumes "20 \<le> unat (segmentSize s)"
  shows "(\<forall>i < length (fst (segment_loop rest b n s)).
       length (fst (segment_loop rest b n s) ! i) \<le> unat (segmentSize s) \<and>
       seq_of (fst (segment_loop rest b n s) ! i) = localSeq s + word_of_nat i) \<and>
     localSeq (snd (segment_loop rest b n s)) = localSeq s + word_of_nat (length (fst (segment_loop rest b n s))) \<and>
     txInflight (snd (segment_loop rest b n s)) = txInflight s"
  using assms
proof (induction "length rest" arbitrary: rest b s rule: less_induct)
  case less
  show ?case
  proof (cases "rest = []")
    case True
    then show ?thesis by (simp add: segment_loop_Nil)
  next
    case False
    let ?m = "maxPayload b s"
    let ?b = "buildSegment (take ?m rest) b (?m \<ge> length rest) n s"
    have "length (take ?m rest) + overhead b s \<le> unat (segmentSize s)"
      using maxPayload_fits [OF less.prems, of b] by (simp add: min_def)
    moreover have "length (drop ?m rest) < length rest" using False by simp
    from less.hyps [OF this, of "snd ?b" False] less.prems
    have IH: "(\<forall>i < length (fst (segment_loop (drop ?m rest) False n (snd ?b))).
       length (fst (segment_loop (drop ?m rest) False n (snd ?b)) ! i) \<le> unat (segmentSize s) \<and>
       seq_of (fst (segment_loop (drop ?m rest) False n (snd ?b)) ! i) = localSeq s + 1 + word_of_nat i)"
      "localSeq (snd (segment_loop (drop ?m rest) False n (snd ?b)))
        = localSeq s + 1 + word_of_nat (length (fst (segment_loop (drop ?m rest) False n (snd ?b))))"
      "txInflight (snd (segment_loop (drop ?m rest) False n (snd ?b))) = txInflight s"
      by simp_all
    ultimately show ?thesis
      using False
      by (auto simp: segment_loop_step Let_def nth_Cons length_buildSegment seq_of_buildSegment add.assoc
          split: nat.split)
  qed
qed

lemma segment_wire_facts:
  assumes "20 \<le> unat (segmentSize s)"
  shows "i < length (fst (segment msg s)) \<Longrightarrow> length (fst (segment msg s) ! i) \<le> unat (segmentSize s)"
    and "i < length (fst (segment msg s)) \<Longrightarrow> seq_of (fst (segment msg s) ! i) = localSeq s + word_of_nat i"
    and "localSeq (snd (segment msg s)) = localSeq s + word_of_nat (length (fst (segment msg s)))"
    and "txInflight (snd (segment msg s)) = txInflight s"
  using segment_loop_wire [OF assms, of msg True "word_of_nat (length msg)"] assms overhead_le [of True s]
  by (auto simp: segment_def Let_def case_prod_beta length_buildSegment seq_of_buildSegment split: if_splits)

subsection \<open>The window\<close>

lemma processAck_inflight:
  "unat (txInflight (processAck a s)) =
     (let k = unat (a - (localSeq s - txInflight s) + 1) in
      if unat (txInflight s) < k then 0 else unat (txInflight s) - k)"
proof -
  define k where "k = a - (localSeq s - txInflight s) + 1"
  have "processAck a s = (if txInflight s = 0 then s
     else let k = (if k > txInflight s then txInflight s else k)
       in if k > 0 then s\<lparr>txInflight := txInflight s - k\<rparr> else s)"
    by (simp add: processAck_def k_def Let_def)
  then show ?thesis unfolding k_def [symmetric]
    by (auto simp: Let_def word_less_nat_alt unat_sub word_le_nat_alt not_less unat_gt_0)
qed

lemma processAck_le: "txInflight (processAck a s) \<le> txInflight s"
  by (simp add: word_le_nat_alt processAck_inflight Let_def)

lemma handleSegment_cases:
  "\<exists>a. txInflight (snd (handleSegment coin data s)) = txInflight s \<or>
       txInflight (snd (handleSegment coin data s)) = txInflight (processAck a s)"
  "btp_windowSize (snd (handleSegment coin data s)) = btp_windowSize s"
  "segmentSize (snd (handleSegment coin data s)) = segmentSize s"
proof -
  have f: "txInflight (snd (finish_segment coin f b s)) = txInflight s"
    "btp_windowSize (snd (finish_segment coin f b s)) = btp_windowSize s"
    "segmentSize (snd (finish_segment coin f b s)) = segmentSize s" for f b s
    by (simp_all add: finish_segment_def deliver_def Let_def)
  have p: "btp_windowSize (processAck a s) = btp_windowSize s" "segmentSize (processAck a s) = segmentSize s" for a
    by (simp_all add: processAck_def Let_def)
  show "\<exists>a. txInflight (snd (handleSegment coin data s)) = txInflight s \<or>
       txInflight (snd (handleSegment coin data s)) = txInflight (processAck a s)"
    "btp_windowSize (snd (handleSegment coin data s)) = btp_windowSize s"
    "segmentSize (snd (handleSegment coin data s)) = segmentSize s"
    by (auto simp: handleSegment_def f p Let_def split: list.split)
qed

text \<open>
  The runs of a session between handshakes: the sender of \<^verbatim>\<open>BLEConn.Send\<close>, which holds a lock over
  its segments, alternates between \<^verbatim>\<open>waitCanSend\<close> and \<^verbatim>\<open>markSent\<close> (\<open>ready\<close> says that it is between
  the two), while segments arrive and standalone acknowledgments are made at any time.
\<close>

inductive btp_step :: "btpSession \<times> bool \<Rightarrow> btpSession \<times> bool \<Rightarrow> bool" where
  btp_segment: "btp_step (s, r) (snd (segment msg s), r)"
| btp_wait: "waitCanSend ctx s = Returned None \<Longrightarrow> btp_step (s, False) (s, True)"
| btp_mark: "btp_step (s, True) (markSent s, False)"
| btp_receive: "btp_step (s, r) (snd (handleSegment coin data s), r)"
| btp_ack: "btp_step (s, r) (snd (standaloneAck s), r)"
| btp_rollback: "btp_step (s, r) (rollbackStandaloneAck a s, r)"
| btp_close: "btp_step (s, r) (closeSession s, r)"
| btp_deliver: "messages s = m # ms \<Longrightarrow> btp_step (s, r) (s\<lparr>messages := ms\<rparr>, r)"

inductive_simps btp_step_simps: "btp_step (s, r) st"

definition window_ok :: "btpSession \<times> bool \<Rightarrow> bool" where
  "window_ok st = (case st of (s, r) \<Rightarrow>
     txInflight s \<le> btp_windowSize s \<and> (r \<longrightarrow> txInflight s < btp_windowSize s))"

lemma segment_window [simp]:
  "txInflight (snd (segment msg s)) = txInflight s"
  "btp_windowSize (snd (segment msg s)) = btp_windowSize s"
proof -
  have "txInflight (snd (segment_loop rest b n s)) = txInflight s \<and>
      btp_windowSize (snd (segment_loop rest b n s)) = btp_windowSize s" for rest b n
  proof (induction "length rest" arbitrary: rest b s rule: less_induct)
    case less
    show ?case
    proof (cases "rest = []")
      case False
      then have "length (drop (maxPayload b s) rest) < length rest" by simp
      from less.hyps [OF this] False show ?thesis
        by (simp add: segment_loop_step Let_def buildSegment_eq)
    qed (simp add: segment_loop_Nil)
  qed
  then show "txInflight (snd (segment msg s)) = txInflight s"
    "btp_windowSize (snd (segment msg s)) = btp_windowSize s"
    by (simp_all add: segment_def Let_def case_prod_beta buildSegment_eq)
qed

lemma window_ok_step:
  assumes "btp_step st st'" and "window_ok st"
  shows "window_ok st'"
  using assms
proof (induction rule: btp_step.induct)
  case (btp_mark s)
  then have "txInflight s < btp_windowSize s" by (simp add: window_ok_def)
  then show ?case by (simp add: window_ok_def markSent_def inc_le)
next
  case (btp_receive s r coin data)
  obtain a where "txInflight (snd (handleSegment coin data s)) = txInflight s \<or>
       txInflight (snd (handleSegment coin data s)) = txInflight (processAck a s)"
    using handleSegment_cases(1) by blast
  with processAck_le [of a s] have "txInflight (snd (handleSegment coin data s)) \<le> txInflight s" by auto
  with btp_receive show ?case by (auto simp: window_ok_def handleSegment_cases)
qed (auto simp: window_ok_def waitCanSend_def standaloneAck_def rollbackStandaloneAck_def closeSession_def
    split: if_splits)

subsection \<open>Properties\<close>

text \<open>
  C17 Segmentation and reassembly: a message of any length that is not a positive multiple of 65536 is
  cut into segments that a receiver with room and no reassembly in progress accepts one by one and
  delivers as exactly that message, whatever acknowledgments the segments carry.
\<close>

theorem segments_reassemble:
  assumes "msg = [] \<or> length msg mod 2 ^ 16 \<noteq> 0" and "\<not> rxActive r" and "\<not> btp_closed r"
    and "length (messages r) < btpMessageBufferSize"
  shows "\<exists>r'. receive_all coin (fst (segment msg s)) r = Some r' \<and> \<not> rxActive r' \<and>
     messages r' = messages r @ [msg]"
  by (rule segment_received) (use assms in \<open>simp_all add: rx_room_def\<close>)

theorem segments_reassemble_witness:
  "\<exists>r'. receive_all True (fst (segment (replicate 1000 7) newBTPSession)) newBTPSession = Some r' \<and>
     \<not> rxActive r' \<and> messages r' = messages newBTPSession @ [replicate 1000 7]"
  by (rule segments_reassemble) (simp_all add: newBTPSession_def const_defs)

text \<open>
  Segments on the wire: with a segment size of at least the floor of 20 bytes, no segment is
  larger than the segment size, and the segments carry consecutive sequence numbers, modulo 256, from
  the session's next one.
\<close>

theorem segments_fit_and_count:
  assumes "20 \<le> unat (segmentSize s)" and "segment msg s = (segs, s')"
  shows "(\<forall>i < length segs. length (segs ! i) \<le> unat (segmentSize s) \<and>
       seq_of (segs ! i) = localSeq s + word_of_nat i) \<and>
     localSeq s' = localSeq s + word_of_nat (length segs)"
  using segment_wire_facts [OF assms(1), where msg = msg] assms(2) by auto

theorem segments_fit_and_count_witness:
  "localSeq (snd (segment (replicate 500 1) newBTPSession))
     = localSeq newBTPSession + word_of_nat (length (fst (segment (replicate 500 1) newBTPSession)))"
  using segments_fit_and_count [of newBTPSession "replicate 500 1"]
  by (simp add: newBTPSession_def const_defs)

text \<open>The count of unacknowledged segments that the session keeps never exceeds the window, in any run.\<close>

lemma tx_window_respected:
  assumes "btp_step\<^sup>*\<^sup>* (initHandshakeFromResponse v f w newBTPSession, False) st"
  shows "window_ok st"
  using assms
proof (induction rule: rtranclp_induct)
  case base
  show ?case by (simp add: window_ok_def initHandshakeFromResponse_def newBTPSession_def)
qed (rule window_ok_step)

text \<open>
  The state of a sender that has cut a message into segments and sent the first \<open>n\<close> of them, and
  what the arithmetic of \<^verbatim>\<open>processAck\<close> makes of an acknowledgement of the segment \<open>j\<close> among them.
\<close>

lemma markSent_many:
  "txInflight ((markSent ^^ k) s) = txInflight s + word_of_nat k" "localSeq ((markSent ^^ k) s) = localSeq s"
  "btp_closed ((markSent ^^ k) s) = btp_closed s" "btp_windowSize ((markSent ^^ k) s) = btp_windowSize s"
  by (induction k) (simp_all add: markSent_def algebra_simps)

lemma byte_distance:
  assumes "u \<le> j + 1 \<and> j < 255 \<or> j + 1 < u \<and> u \<le> 256"
  shows "unat (word_of_nat j - word_of_nat u + 1 :: byte) = (if u \<le> j + 1 then j + 1 - u else 256 + j + 1 - u)"
proof (cases "u \<le> j + 1")
  case True
  then have "(word_of_nat (j + 1 - u) :: byte) = word_of_nat (j + 1) - word_of_nat u" by (rule of_nat_diff)
  then have "word_of_nat j - word_of_nat u + 1 = (word_of_nat (j + 1 - u) :: byte)" by simp
  moreover have "unat (word_of_nat (j + 1 - u) :: byte) = j + 1 - u"
    using True assms by (intro unat_word_of_nat_id) auto
  ultimately show ?thesis using True by (simp only: if_True)
next
  case False
  then have "u \<le> 256 + j + 1" using assms by auto
  then have "(word_of_nat (256 + j + 1 - u) :: byte) = word_of_nat (256 + j + 1) - word_of_nat u" by (rule of_nat_diff)
  then have "word_of_nat j - word_of_nat u + 1 = (word_of_nat (256 + j + 1 - u) :: byte)" by simp
  moreover have "unat (word_of_nat (256 + j + 1 - u) :: byte) = 256 + j + 1 - u"
    using False assms by (intro unat_word_of_nat_id) auto
  ultimately show ?thesis using False by (simp only: if_False)
qed

lemma segment_closed [simp]: "btp_closed (snd (segment msg s)) = btp_closed s"
proof -
  have "btp_closed (snd (segment_loop rest b n s)) = btp_closed s" for rest b n
  proof (induction "length rest" arbitrary: rest b s rule: less_induct)
    case less
    show ?case
    proof (cases "rest = []")
      case False
      then have "length (drop (maxPayload b s) rest) < length rest" by simp
      from less.hyps [OF this] False show ?thesis
        by (simp add: segment_loop_step Let_def buildSegment_eq)
    qed (simp add: segment_loop_Nil)
  qed
  then show ?thesis by (simp add: segment_def Let_def case_prod_beta buildSegment_eq)
qed

definition small_session :: btpSession where
  "small_session = initHandshakeFromResponse 4 20 6 newBTPSession"

lemma small_session_segments: "length (fst (segment (replicate 80 7) small_session)) = 5"
  by code_simp

text \<open>
  C18 Acknowledgements and the window: with nothing in flight and a segment size of at least the floor of
  20, a message is cut into at most 256 segments, the first \<open>n\<close> are sent, and the
  peer acknowledges the one with index \<open>j\<close>, so \<open>n - (j + 1)\<close> are unacknowledged.  When the whole
  message has been sent, \<^verbatim>\<open>processAck\<close> leaves exactly that count.  When \<open>u\<close> segments are still to be
  sent, their numbers are already taken from \<^verbatim>\<open>localSeq\<close>, and the count is wrong: with \<open>u \<le> j + 1\<close> it is
  \<open>u\<close> too high, and with more it drops to zero, so \<^verbatim>\<open>waitCanSend\<close> lets a whole window of further
  segments through, while \<open>n - (j + 1)\<close> are still unacknowledged.
\<close>

theorem ack_accounting:
  assumes "segment msg s = (segs, s1)" and "txInflight s = 0" and "20 \<le> unat (segmentSize s)"
    and "j < n" and "n \<le> length segs" and "n \<le> 255" and "length segs \<le> 256" and "u = length segs - n"
    and "s2 = processAck (seq_of (segs ! j)) ((markSent ^^ n) s1)"
  shows "unat (txInflight s2) = (if u \<le> j + 1 then n - (j + 1) + u else 0) \<and>
    (j + 1 < u \<and> \<not> btp_closed s \<longrightarrow>
      (\<forall>k < unat (btp_windowSize s). waitCanSend None ((markSent ^^ k) s2) = Returned None))"
proof -
  let ?s = "(markSent ^^ n) s1"
  have s1: "s1 = snd (segment msg s)" "segs = fst (segment msg s)" using assms(1) by simp_all
  have n: "unat (word_of_nat n :: byte) = n" using assms(6) by (intro unat_word_of_nat_id) simp
  note wire = segment_wire_facts(2,3,4) [OF assms(3), where msg = msg, folded s1]
  have len: "n + u = length segs" using assms(5,8) by simp
  have f: "txInflight ?s = word_of_nat n" "localSeq ?s = localSeq s + word_of_nat (n + u)"
    using wire(2,3) by (simp_all only: markSent_many assms(2) len add_0_left)
  have q: "seq_of (segs ! j) = localSeq s + word_of_nat j" by (rule wire(1)) (use assms(4,5) in simp)
  have d: "seq_of (segs ! j) - (localSeq ?s - txInflight ?s) + 1 = word_of_nat j - word_of_nat u + 1"
    unfolding f q of_nat_add by simp
  have in_flight: "unat (txInflight s2) = (if u \<le> j + 1 then n - (j + 1) + u else 0)"
  proof -
    have k: "unat (seq_of (segs ! j) - (localSeq ?s - txInflight ?s) + 1) = (if u \<le> j + 1 then j + 1 - u else 256 + j + 1 - u)"
      unfolding d by (rule byte_distance) (use assms(4-8) in linarith)
    have "unat (txInflight s2) = (if n < (if u \<le> j + 1 then j + 1 - u else 256 + j + 1 - u) then 0
        else n - (if u \<le> j + 1 then j + 1 - u else 256 + j + 1 - u))"
      unfolding assms(9) processAck_inflight k unfolding f(1) n Let_def by (rule refl)
    then show ?thesis using assms(4) len assms(7) by (simp split: if_splits)
  qed
  have "waitCanSend None ((markSent ^^ k) s2) = Returned None"
    if "j + 1 < u" "\<not> btp_closed s" "k < unat (btp_windowSize s)" for k
  proof -
    have "txInflight s2 = 0" using in_flight that(1) by (simp add: unat_eq_zero)
    moreover have "(word_of_nat k :: byte) < btp_windowSize s"
    proof -
      have "unat (btp_windowSize s) < 2 ^ 8" using unsigned_less [of "btp_windowSize s"] by simp
      then have "unat (word_of_nat k :: byte) = k" using that(3) by (intro unat_word_of_nat_id) simp
      then show ?thesis using that(3) by (simp add: word_less_nat_alt)
    qed
    moreover have "btp_closed s2 = btp_closed s" "btp_windowSize s2 = btp_windowSize s"
      unfolding assms(9) by (simp_all add: processAck_def Let_def markSent_many s1)
    ultimately show ?thesis using that(2) by (simp add: waitCanSend_def markSent_many)
  qed
  with in_flight show ?thesis by blast
qed

theorem ack_accounting_witness:
  "let s2 = processAck (seq_of (fst (segment (replicate 80 7) small_session) ! 0))
       ((markSent ^^ 2) (snd (segment (replicate 80 7) small_session)))
   in unat (txInflight s2) = 0 \<and> waitCanSend None ((markSent ^^ 5) s2) = Returned None"
proof -
  let ?s2 = "processAck (seq_of (fst (segment (replicate 80 7) small_session) ! 0))
       ((markSent ^^ 2) (snd (segment (replicate 80 7) small_session)))"
  have f: "txInflight small_session = 0" "20 \<le> unat (segmentSize small_session)" "\<not> btp_closed small_session"
      "unat (btp_windowSize small_session) = 6"
    by (simp_all add: small_session_def initHandshakeFromResponse_def newBTPSession_def const_defs)
  have "unat (txInflight ?s2) = (if 3 \<le> 0 + (1::nat) then 2 - (0 + 1) + 3 else 0) \<and>
     (0 + 1 < (3::nat) \<and> \<not> btp_closed small_session \<longrightarrow>
       (\<forall>k < unat (btp_windowSize small_session). waitCanSend None ((markSent ^^ k) ?s2) = Returned None))"
    by (rule ack_accounting [OF prod.collapse [symmetric] f(1,2)]) (simp_all add: small_session_segments)
  with f show ?thesis by (simp add: Let_def)
qed

text \<open>
  Lost message: a non-empty message whose length is a multiple of 65536 has a declared length of 0:
  the sender emits the one segment of an empty message, and the receiver delivers that.
\<close>

theorem multiple_of_64k_sent_empty:
  assumes "length msg mod 2 ^ 16 = 0" and "\<not> rxActive r" and "\<not> btp_closed r"
    and "length (messages r) < btpMessageBufferSize"
  shows "segment msg s = segment [] s \<and>
     (\<exists>r'. receive_all coin (fst (segment msg s)) r = Some r' \<and> messages r' = messages r @ [[]])"
proof -
  have "(word_of_nat (length msg) :: u16) = 0"
    using assms(1) by (simp add: unat_eq_zero [symmetric] unsigned_of_nat take_bit_eq_mod)
  then have "segment msg s = segment [] s" by (simp add: segment_def)
  then show ?thesis using segment_received [of "[]" r coin s] assms by (auto simp: rx_room_def)
qed

theorem multiple_of_64k_sent_empty_witness:
  "segment (replicate 65536 7) newBTPSession = segment [] newBTPSession \<and>
     (\<exists>r'. receive_all True (fst (segment (replicate 65536 7) newBTPSession)) newBTPSession = Some r' \<and>
       messages r' = messages newBTPSession @ [[]])"
  by (rule multiple_of_64k_sent_empty) (simp_all add: newBTPSession_def const_defs)

text \<open>
  Negotiation: an accepted handshake response has a non-zero fragment and window size, and either way
  of installing parameters leaves a segment size of at least 20 bytes; from an ATT MTU below 3 the
  subtraction wraps, and the segment size becomes at least 65533.
\<close>

theorem handshake_segment_size:
  "(parseBTPHandshakeResponse data = Ok (v, f, w) \<longrightarrow>
      f \<noteq> 0 \<and> w \<noteq> 0 \<and> v < 16 \<and> segmentSize (initHandshakeFromResponse v f w s) = max 20 f) \<and>
   (3 \<le> mtu \<longrightarrow> segmentSize (initHandshake v mtu w s) = max 20 (mtu - 3)) \<and>
   (mtu < 3 \<longrightarrow> 65533 \<le> unat (segmentSize (initHandshake v mtu w s)))"
proof (intro conjI impI)
  assume p: "parseBTPHandshakeResponse data = Ok (v, f, w)"
  then have "v = data ! 2 AND 0x0F" by (auto simp: parseBTPHandshakeResponse_def Let_def split: if_splits)
  then have "v \<le> 0x0F" by (simp add: word_and_le1)
  then show "v < 16" by unat_arith
  show "f \<noteq> 0" "w \<noteq> 0" using p by (auto simp: parseBTPHandshakeResponse_def Let_def split: if_splits)
  show "segmentSize (initHandshakeFromResponse v f w s) = max 20 f"
    by (auto simp: initHandshakeFromResponse_def const_defs max_def)
next
  show "segmentSize (initHandshake v mtu w s) = max 20 (mtu - 3)"
    by (auto simp: initHandshake_def initHandshakeFromResponse_def const_defs max_def Let_def)
next
  assume "mtu < 3"
  then have "mtu = 0 \<or> mtu = 1 \<or> mtu = 2" by unat_arith
  then show "65533 \<le> unat (segmentSize (initHandshake v mtu w s))"
    by (auto simp: initHandshake_def initHandshakeFromResponse_def const_defs Let_def
        unsigned_minus_1_eq_mask mask_eq_exp_minus_1)
qed

theorem handshake_segment_size_witness:
  "parseBTPHandshakeResponse [0x65, 0x6C, 4, 100, 0, 6] = Ok (4, 100, 6) \<and>
   (100 :: u16) \<noteq> 0 \<and> segmentSize (initHandshakeFromResponse 4 100 6 newBTPSession) = max 20 100"
proof -
  have p: "parseBTPHandshakeResponse [0x65, 0x6C, 4, 100, 0, 6] = Ok (4, 100, 6)" by code_simp
  from handshake_segment_size [THEN conjunct1, rule_format, OF p] p show ?thesis by blast
qed

end
