(* ===== verification/Setup_Payload.thy ===== *)
theory Setup_Payload
  imports Prelude
begin

text \<open>
  \<^verbatim>\<open>internal/commissioning/payload.go\<close>: the setup payload of a device and its two textual forms, the QR
  code (88 bits in base 38) and the manual pairing code (decimal digits with a Verhoeff check digit).
  Strings are lists of characters, one per byte; the quoted character in an error message (\<^verbatim>\<open>%q\<close>) is
  left out of the message.
\<close>

record SetupPayload =
  sp_Version :: byte
  sp_VendorID :: u16
  sp_ProductID :: u16
  sp_CommissioningFlow :: byte
  sp_DiscoveryCapabilities :: byte
  sp_Discriminator :: u16
  sp_Passcode :: u32

definition FlowStandard :: byte where [const_defs]: "FlowStandard = 0"
definition FlowUserIntent :: byte where [const_defs]: "FlowUserIntent = 1"
definition FlowCustom :: byte where [const_defs]: "FlowCustom = 2"

definition zero_payload :: SetupPayload where
  "zero_payload = \<lparr>sp_Version = 0, sp_VendorID = 0, sp_ProductID = 0, sp_CommissioningFlow = 0,
     sp_DiscoveryCapabilities = 0, sp_Discriminator = 0, sp_Passcode = 0\<rparr>"

definition ShortDiscriminator :: "SetupPayload \<Rightarrow> byte" where
  "ShortDiscriminator p = ucast (drop_bit 8 (sp_Discriminator p))"

definition forbidden_passcodes :: "u32 list" where
  "forbidden_passcodes = [11111111, 22222222, 33333333, 44444444, 55555555, 66666666, 77777777, 88888888,
     99999999, 12345678, 87654321]"

definition validatePasscode :: "u32 \<Rightarrow> err option" where
  "validatePasscode passcode =
     (if passcode = 0 then Some (Errorf ''commissioning: passcode must not be 0'')
      else if passcode \<in> set forbidden_passcodes then
        Some (Errorf (''commissioning: passcode '' @ fmt_d (unat passcode) @ '' is not allowed''))
      else None)"

subsection \<open>Bit fields\<close>

text \<open>The loops run over the bits of the value; \<open>set_bit8\<close> is one turn that stores.\<close>

primrec writeBits_loop :: "nat \<Rightarrow> nat \<Rightarrow> u64 \<Rightarrow> byte list \<Rightarrow> byte list" where
  "writeBits_loop 0 offset v buf = buf"
| "writeBits_loop (Suc i) offset v buf =
     (let buf = writeBits_loop i offset v buf;
          bitIndex = offset + i;
          byteIndex = bitIndex div 8;
          bitPos = bitIndex mod 8
      in if v AND push_bit i 1 \<noteq> 0 then buf[byteIndex := buf ! byteIndex OR push_bit bitPos 1] else buf)"

definition writeBits :: "byte list \<Rightarrow> nat \<Rightarrow> nat \<Rightarrow> u64 \<Rightarrow> byte list" where
  "writeBits buf offset len v = writeBits_loop len offset v buf"

primrec readBits :: "byte list \<Rightarrow> nat \<Rightarrow> nat \<Rightarrow> u64" where
  "readBits buf offset 0 = 0"
| "readBits buf offset (Suc i) =
     (let v = readBits buf offset i;
          bitIndex = offset + i;
          byteIndex = bitIndex div 8;
          bitPos = bitIndex mod 8
      in if buf ! byteIndex AND push_bit bitPos 1 \<noteq> 0 then v OR push_bit i 1 else v)"

subsection \<open>Base 38\<close>

definition base38Charset :: string where
  "base38Charset = ''0123456789ABCDEFGHIJKLMNOPQRSTUVWXYZ-.''"

text \<open>\<open>emit38 n val\<close> is the loop that appends \<open>n\<close> characters.\<close>

primrec emit38 :: "nat \<Rightarrow> u32 \<Rightarrow> string" where
  "emit38 0 val = []"
| "emit38 (Suc n) val = base38Charset ! unat (val mod 38) # emit38 n (val div 38)"

function base38Encode :: "byte list \<Rightarrow> string" where
  "base38Encode [] = []"
| "base38Encode [a] = emit38 2 (ucast a)"
| "base38Encode [a, b] = emit38 4 (ucast a OR push_bit 8 (ucast b))"
| "base38Encode (a # b # c # rest) =
     emit38 5 (ucast a OR push_bit 8 (ucast b) OR push_bit 16 (ucast c)) @ base38Encode rest"
  by pat_completeness auto
termination by (relation "measure length") auto

definition charMap :: "char \<Rightarrow> u32 option" where
  "charMap = map_of (zip base38Charset (map word_of_nat [0..<length base38Charset]))"

text \<open>The loop over the characters of a chunk starts with the last one.\<close>

primrec read38 :: "string \<Rightarrow> u32 res" where
  "read38 [] = Ok 0"
| "read38 (c # cs) =
     bind_res (read38 cs) (\<lambda>val.
       case charMap c of
         None \<Rightarrow> Err (Errorf ''invalid base38 character'')
       | Some v \<Rightarrow> Ok (val * 38 + v))"

function base38Decode :: "string \<Rightarrow> byte list res" where
  "base38Decode s =
     (let remaining = length s in
      if remaining = 0 then Ok []
      else if remaining \<ge> 5 then
        bind_res (read38 (take 5 s)) (\<lambda>val.
        bind_res (base38Decode (drop 5 s)) (\<lambda>result.
          Ok ([ucast val, ucast (drop_bit 8 val), ucast (drop_bit 16 val)] @ result)))
      else if remaining \<ge> 4 then
        bind_res (read38 (take 4 s)) (\<lambda>val. Ok [ucast val, ucast (drop_bit 8 val)])
      else if remaining \<ge> 2 then
        bind_res (read38 (take 2 s)) (\<lambda>val.
        bind_res (base38Decode (drop 2 s)) (\<lambda>result. Ok ([ucast val] @ result)))
      else Err (Errorf ''invalid base38 string length''))"
  by pat_completeness auto
termination by (relation "measure length") auto

declare base38Decode.simps [simp del]

subsection \<open>QR codes\<close>

definition payload_fields :: "SetupPayload \<Rightarrow> (nat \<times> nat \<times> u64) list" where
  "payload_fields p =
     [(0, 3, ucast (sp_Version p)), (3, 16, ucast (sp_VendorID p)), (19, 16, ucast (sp_ProductID p)),
      (35, 2, ucast (sp_CommissioningFlow p)), (37, 8, ucast (sp_DiscoveryCapabilities p)),
      (45, 12, ucast (sp_Discriminator p)), (57, 27, ucast (sp_Passcode p))]"

definition QRCode :: "SetupPayload \<Rightarrow> string res" where
  "QRCode p =
     (if sp_Passcode p > 0x7FFFFFF then
        Err (Errorf (''commissioning: passcode '' @ fmt_d (unat (sp_Passcode p)) @ '' exceeds 27 bits''))
      else if sp_Discriminator p > 0xFFF then
        Err (Errorf (''commissioning: discriminator '' @ fmt_d (unat (sp_Discriminator p)) @ '' exceeds 12 bits''))
      else
        let bits = fold (\<lambda>(off, len, v) buf. writeBits buf off len v) (payload_fields p) (replicate 11 0)
        in Ok (''MT:'' @ base38Encode bits))"

definition ParseQRCode :: "string \<Rightarrow> SetupPayload res" where
  "ParseQRCode code =
     (if \<not> prefix ''MT:'' code then Err (Errorf ''commissioning: QR code must start with \"MT:\"'')
      else
        case base38Decode (drop 3 code) of
          Err e \<Rightarrow> Err (Errorw ''commissioning: decoding QR code base38'' e)
        | Panic \<Rightarrow> Panic
        | Ok bits \<Rightarrow>
            let bits = (if length bits < 11 then bits @ replicate (11 - length bits) 0 else bits);
                p = \<lparr>sp_Version = ucast (readBits bits 0 3), sp_VendorID = ucast (readBits bits 3 16),
                  sp_ProductID = ucast (readBits bits 19 16), sp_CommissioningFlow = ucast (readBits bits 35 2),
                  sp_DiscoveryCapabilities = ucast (readBits bits 37 8),
                  sp_Discriminator = ucast (readBits bits 45 12), sp_Passcode = ucast (readBits bits 57 27)\<rparr>
            in case validatePasscode (sp_Passcode p) of Some e \<Rightarrow> Err e | None \<Rightarrow> Ok p)"

subsection \<open>The Verhoeff check digit\<close>

definition verhoeffD :: "nat list list" where
  "verhoeffD =
    [[0, 1, 2, 3, 4, 5, 6, 7, 8, 9],
     [1, 2, 3, 4, 0, 6, 7, 8, 9, 5],
     [2, 3, 4, 0, 1, 7, 8, 9, 5, 6],
     [3, 4, 0, 1, 2, 8, 9, 5, 6, 7],
     [4, 0, 1, 2, 3, 9, 5, 6, 7, 8],
     [5, 9, 8, 7, 6, 0, 4, 3, 2, 1],
     [6, 5, 9, 8, 7, 1, 0, 4, 3, 2],
     [7, 6, 5, 9, 8, 2, 1, 0, 4, 3],
     [8, 7, 6, 5, 9, 3, 2, 1, 0, 4],
     [9, 8, 7, 6, 5, 4, 3, 2, 1, 0]]"

definition verhoeffInv :: "nat list" where
  "verhoeffInv = [0, 4, 3, 2, 1, 5, 6, 7, 8, 9]"

definition verhoeffP :: "nat list list" where
  "verhoeffP =
    [[0, 1, 2, 3, 4, 5, 6, 7, 8, 9],
     [1, 5, 7, 6, 2, 8, 3, 0, 9, 4],
     [5, 8, 0, 3, 7, 9, 6, 1, 4, 2],
     [8, 9, 1, 6, 0, 4, 3, 5, 2, 7],
     [9, 4, 5, 3, 1, 2, 6, 8, 7, 0],
     [4, 2, 8, 6, 5, 7, 3, 9, 0, 1],
     [2, 7, 9, 3, 8, 0, 6, 4, 1, 5],
     [7, 0, 4, 6, 9, 1, 3, 2, 5, 8]]"

definition digit_of :: "char \<Rightarrow> nat" where
  "digit_of c = of_char c - 48"

text \<open>The loop of both functions, from position \<open>i\<close> on, over digits from the right.\<close>

fun verhoeff_loop :: "nat \<Rightarrow> nat \<Rightarrow> string \<Rightarrow> nat" where
  "verhoeff_loop i c [] = c"
| "verhoeff_loop i c (ch # digits) =
     verhoeff_loop (i + 1) (verhoeffD ! c ! (verhoeffP ! (i mod 8) ! digit_of ch)) digits"

definition verhoeffGenerate :: "string \<Rightarrow> nat" where
  "verhoeffGenerate s = verhoeffInv ! verhoeff_loop 1 0 (rev s)"

definition verhoeffValidate :: "string \<Rightarrow> bool" where
  "verhoeffValidate s \<longleftrightarrow> verhoeff_loop 0 0 (rev s) = 0"

subsection \<open>Manual pairing codes\<close>

text \<open>\<^verbatim>\<open>%0nd\<close>.\<close>

definition fmt_0d :: "nat \<Rightarrow> nat \<Rightarrow> string" where
  "fmt_0d n k = replicate (n - length (fmt_d k)) CHR ''0'' @ fmt_d k"

definition parseDecimal :: "string \<Rightarrow> u32" where
  "parseDecimal s = foldl (\<lambda>val c. val * 10 + word_of_nat (digit_of c)) 0 s"

definition ManualPairingCode :: "SetupPayload \<Rightarrow> string res" where
  "ManualPairingCode p =
     (if sp_Passcode p > 0x7FFFFFF then
        Err (Errorf (''commissioning: passcode '' @ fmt_d (unat (sp_Passcode p)) @ '' exceeds 27 bits''))
      else
        let shortDisc = ShortDiscriminator p;
            vidPIDPresent = (if sp_CommissioningFlow p = FlowCustom then 1 else 0) :: byte;
            digit1 = push_bit 2 vidPIDPresent OR drop_bit 2 shortDisc;
            chunk2 = push_bit 14 (ucast (shortDisc AND 0x03)) OR (sp_Passcode p AND 0x3FFF);
            chunk3 = drop_bit 14 (sp_Passcode p) AND 0x1FFF;
            code = fmt_d (unat digit1) @ fmt_0d 5 (unat chunk2) @ fmt_0d 4 (unat chunk3);
            code = (if vidPIDPresent = 1
                    then code @ fmt_0d 5 (unat (sp_VendorID p)) @ fmt_0d 5 (unat (sp_ProductID p)) else code);
            check = verhoeffGenerate code
        in Ok (code @ fmt_d check))"

definition is_digit :: "char \<Rightarrow> bool" where
  "is_digit c \<longleftrightarrow> 48 \<le> (of_char c :: nat) \<and> (of_char c :: nat) \<le> 57"

text \<open>\<^verbatim>\<open>code[i:j]\<close>, which panics if \<open>j\<close> exceeds the length.\<close>

definition substr :: "nat \<Rightarrow> nat \<Rightarrow> string \<Rightarrow> string res" where
  "substr i j s = (if i \<le> j \<and> j \<le> length s then Ok (take (j - i) (drop i s)) else Panic)"

definition ParseManualPairingCode :: "string \<Rightarrow> SetupPayload res" where
  "ParseManualPairingCode code0 =
     (let code = filter (\<lambda>c. c \<noteq> CHR '' '') (filter (\<lambda>c. c \<noteq> CHR ''-'') code0) in
      if length code \<noteq> 11 \<and> length code \<noteq> 21 then
        Err (Errorf (''commissioning: manual pairing code must be 11 or 21 digits, got '' @ fmt_d (length code)))
      else if \<not> list_all is_digit code then
        Err (Errorf (''commissioning: invalid character at position '' @ fmt_d (length (takeWhile is_digit code))))
      else if \<not> verhoeffValidate code then Err (Errorf ''commissioning: invalid check digit'')
      else
        let digit1 = word_of_nat (digit_of (code ! 0)) :: byte;
            vidPIDPresent = drop_bit 2 digit1 AND 0x01;
            shortDiscHigh = digit1 AND 0x03
        in bind_res (substr 1 6 code) (\<lambda>s2. bind_res (substr 6 10 code) (\<lambda>s3.
           let chunk2 = parseDecimal s2;
               chunk3 = parseDecimal s3;
               shortDiscLow = ucast (drop_bit 14 chunk2 AND 0x03);
               shortDisc = push_bit 2 shortDiscHigh OR shortDiscLow;
               passcode = push_bit 14 chunk3 OR (chunk2 AND 0x3FFF);
               p = zero_payload\<lparr>sp_Discriminator := push_bit 8 (ucast shortDisc), sp_Passcode := passcode\<rparr>
           in bind_res
                (if vidPIDPresent = 1 then
                   bind_res (substr 10 15 code) (\<lambda>vid. bind_res (substr 15 20 code) (\<lambda>pid.
                     Ok (p\<lparr>sp_CommissioningFlow := FlowCustom, sp_VendorID := ucast (parseDecimal vid),
                           sp_ProductID := ucast (parseDecimal pid)\<rparr>)))
                 else Ok p)
                (\<lambda>p. case validatePasscode (sp_Passcode p) of Some e \<Rightarrow> Err e | None \<Rightarrow> Ok p))))"

subsection \<open>Bit fields are read back\<close>

abbreviation bit_at :: "byte list \<Rightarrow> nat \<Rightarrow> bool" where
  "bit_at buf k \<equiv> bit (buf ! (k div 8)) (k mod 8)"

lemma and_bit_iff: "(w :: 'a::len word) AND 2 ^ i = 0 \<longleftrightarrow> \<not> bit w i"
  by (rule and_exp_eq_0_iff_not_bit)

lemma div_mod_8_eq: "(k div 8 = j div 8 \<and> k mod 8 = j mod 8) \<longleftrightarrow> k = (j :: nat)"
  by (metis div_mult_mod_eq)

lemma length_writeBits [simp]: "length (writeBits buf off n v) = length buf"
proof -
  have "length (writeBits_loop n off v buf) = length buf" by (induction n) (simp_all add: Let_def)
  then show ?thesis by (simp add: writeBits_def)
qed

lemma bit_writeBits:
  assumes "off + n \<le> 8 * length buf" and "k < 8 * length buf"
  shows "bit_at (writeBits buf off n v) k \<longleftrightarrow> bit_at buf k \<or> (off \<le> k \<and> k < off + n \<and> bit v (k - off))"
  using assms(1)
proof (induction n)
  case (Suc i)
  let ?b = "writeBits buf off i v" and ?j = "off + i"
  have j: "?j div 8 < length buf" using Suc.prems by auto
  have "bit_at (?b[?j div 8 := ?b ! (?j div 8) OR push_bit (?j mod 8) 1]) k \<longleftrightarrow> bit_at ?b k \<or> k = ?j"
    using j by (auto simp: nth_list_update bit_simps div_mod_8_eq [of k ?j, symmetric])
  then have "bit_at (writeBits buf off (Suc i) v) k \<longleftrightarrow> bit_at ?b k \<or> (bit v i \<and> k = ?j)"
    by (simp add: Let_def and_bit_iff writeBits_def)
  then show ?case using Suc by (cases "k = ?j") auto
qed (auto simp: writeBits_def)

lemma bit_readBits:
  "n \<le> 64 \<Longrightarrow> bit (readBits buf off n) i \<longleftrightarrow> i < n \<and> bit_at buf (off + i)"
  by (induction n) (auto simp: Let_def and_bit_iff bit_simps less_Suc_eq)

lemma fold_writeBits:
  assumes "\<forall>(off, n, v) \<in> set fs. off + n \<le> 8 * length buf" and "k < 8 * length buf"
  shows "length (fold (\<lambda>(off, n, v) buf. writeBits buf off n v) fs buf) = length buf \<and>
    (bit_at (fold (\<lambda>(off, n, v) buf. writeBits buf off n v) fs buf) k \<longleftrightarrow>
        bit_at buf k \<or> (\<exists>(off, n, v) \<in> set fs. off \<le> k \<and> k < off + n \<and> bit v (k - off)))"
  using assms
proof (induction fs arbitrary: buf)
  case (Cons f fs)
  obtain off n v where f: "f = (off, n, v)" by (cases f)
  from Cons.IH [of "writeBits buf off n v"] Cons.prems f bit_writeBits [of off n buf k v]
  show ?case by auto
qed simp

subsection \<open>Base 38 is read back\<close>

lemma length_emit38 [simp]: "length (emit38 n v) = n"
  by (induction n arbitrary: v) auto

lemma charMap_inverse: "k < 38 \<Longrightarrow> charMap (base38Charset ! k) = Some (word_of_nat k)"
proof -
  have "list_all (\<lambda>k. charMap (base38Charset ! k) = Some (word_of_nat k)) [0..<38]"
    by code_simp
  then show "k < 38 \<Longrightarrow> ?thesis" by (simp add: list_all_iff)
qed

lemma read38_emit38:
  "unat v < 38 ^ n \<Longrightarrow> read38 (emit38 n v) = Ok v"
proof (induction n arbitrary: v)
  case 0
  then show ?case by (simp add: unat_eq_zero)
next
  case (Suc n)
  have "unat (v div 38) < 38 ^ n" using Suc.prems by (simp add: unat_div less_mult_imp_div_less mult.commute)
  moreover have "unat (v mod 38) = unat v mod 38" "word_of_nat (unat v mod 38) = v mod 38"
    by (simp add: unat_mod) (simp add: word_arith_nat_mod [of v 38])
  then have "charMap (base38Charset ! unat (v mod 38)) = Some (v mod 38)"
    using charMap_inverse [of "unat v mod 38"] by (simp only: mod_less_divisor zero_less_numeral simp_thms)
  ultimately show ?case using Suc.IH div_mult_mod_eq [of v 38] by simp
qed

lemma chunk_bounds:
  "unat (ucast a :: u32) < 38 ^ 2" 
  "unat (ucast a OR push_bit 8 (ucast b) :: u32) < 38 ^ 4"
  "unat (ucast a OR push_bit 8 (ucast b) OR push_bit 16 (ucast c) :: u32) < 38 ^ 5"
  for a b c :: byte
proof -
  have bnd: "unat w < 2 ^ n" if "take_bit n w = w" for w :: u32 and n
    using that by (metis take_bit_nat_less_exp unsigned_take_bit_eq)
  have "take_bit 8 (ucast a :: u32) = ucast a"
    "take_bit 16 (ucast a OR push_bit 8 (ucast b) :: u32) = ucast a OR push_bit 8 (ucast b)"
    "take_bit 24 (ucast a OR push_bit 8 (ucast b) OR push_bit 16 (ucast c) :: u32)
       = ucast a OR push_bit 8 (ucast b) OR push_bit 16 (ucast c)"
    by (rule bit_eqI; auto simp: bit_simps dest: bit_imp_le_length)+
  from this [THEN bnd] show
    "unat (ucast a :: u32) < 38 ^ 2" 
    "unat (ucast a OR push_bit 8 (ucast b) :: u32) < 38 ^ 4"
    "unat (ucast a OR push_bit 8 (ucast b) OR push_bit 16 (ucast c) :: u32) < 38 ^ 5"
    by simp_all
qed

lemma chunk_bytes:
  "ucast (ucast a OR push_bit 8 (ucast b) :: u32) = a"
  "ucast (drop_bit 8 (ucast a OR push_bit 8 (ucast b) :: u32)) = b"
  "ucast (ucast a OR push_bit 8 (ucast b) OR push_bit 16 (ucast c) :: u32) = a"
  "ucast (drop_bit 8 (ucast a OR push_bit 8 (ucast b) OR push_bit 16 (ucast c) :: u32)) = b"
  "ucast (drop_bit 16 (ucast a OR push_bit 8 (ucast b) OR push_bit 16 (ucast c) :: u32)) = c"
  "ucast (ucast a :: u32) = a"
  for a b c :: byte
  by (rule bit_eqI; auto simp: bit_simps dest: bit_imp_le_length)+

lemmas read38_chunks = chunk_bounds [THEN read38_emit38]

lemma base38_inverse: "base38Decode (base38Encode data) = Ok data"
  by (induction data rule: base38Encode.induct)
    (simp_all add: base38Decode.simps [of "emit38 n v @ s" for n v s] base38Decode.simps [of "emit38 n v" for n v]
      base38Decode.simps [of "[]"] read38_chunks chunk_bytes
      del: emit38.simps drop_bit_or)

subsection \<open>The QR round trip\<close>

definition qr_bits :: "SetupPayload \<Rightarrow> byte list" where
  "qr_bits p = fold (\<lambda>(off, len, v) buf. writeBits buf off len v) (payload_fields p) (replicate 11 0)"

lemma length_qr_bits: "length (qr_bits p) = 11"
proof -
  have "length (fold (\<lambda>(off, len, v) buf. writeBits buf off len v) fs buf) = length buf" for fs buf
    by (induction fs arbitrary: buf) (simp_all add: case_prod_beta)
  then show ?thesis by (simp add: qr_bits_def)
qed

lemma bit_qr_bits:
  assumes "k < 88"
  shows "bit_at (qr_bits p) k \<longleftrightarrow> (\<exists>(off, n, v) \<in> set (payload_fields p). off \<le> k \<and> k < off + n \<and> bit v (k - off))"
  using fold_writeBits [of "payload_fields p" "replicate 11 0" k] assms
  by (simp add: qr_bits_def payload_fields_def)

lemma read_field:
  "readBits (qr_bits p) 0 3 = take_bit 3 (ucast (sp_Version p))"
  "readBits (qr_bits p) 3 16 = take_bit 16 (ucast (sp_VendorID p))"
  "readBits (qr_bits p) 19 16 = take_bit 16 (ucast (sp_ProductID p))"
  "readBits (qr_bits p) 35 2 = take_bit 2 (ucast (sp_CommissioningFlow p))"
  "readBits (qr_bits p) 37 8 = take_bit 8 (ucast (sp_DiscoveryCapabilities p))"
  "readBits (qr_bits p) 45 12 = take_bit 12 (ucast (sp_Discriminator p))"
  "readBits (qr_bits p) 57 27 = take_bit 27 (ucast (sp_Passcode p))"
  by (rule bit_eqI; auto simp: bit_readBits bit_qr_bits payload_fields_def bit_take_bit_iff)+

lemma ucast_take_bit:
  "unat (w :: 'a::len word) < 2 ^ n \<Longrightarrow> LENGTH('a) \<le> LENGTH('b) \<Longrightarrow>
    ucast (take_bit n (ucast w :: 'b::len word)) = w"
proof -
  assume "unat w < 2 ^ n" and len: "LENGTH('a) \<le> LENGTH('b)"
  then have "take_bit n w = w"
    by (intro word_unat_eq_iff [THEN iffD2]) (simp add: unsigned_take_bit_eq take_bit_nat_eq_self)
  then have "bit w i \<Longrightarrow> i < n" for i by (metis bit_take_bit_iff)
  with len show "ucast (take_bit n (ucast w :: 'b word)) = w"
    by (intro bit_eqI) (auto simp: bit_simps dest: bit_imp_le_length)
qed

lemma QRCode_ok:
  assumes "unat (sp_Discriminator p) < 2 ^ 12" and "unat (sp_Passcode p) < 2 ^ 27"
  shows "QRCode p = Ok (''MT:'' @ base38Encode (qr_bits p))"
proof -
  have "\<not> sp_Passcode p > 0x7FFFFFF" "\<not> sp_Discriminator p > 0xFFF"
    using assms by (simp_all add: word_less_nat_alt)
  then show ?thesis by (simp add: QRCode_def qr_bits_def)
qed

lemma byte_small: "unat (b :: byte) < 2 ^ 8"
proof -
  have "unat b < 2 ^ LENGTH(8)" by (rule unsigned_less)
  then show ?thesis by simp
qed

lemma u16_small: "unat (h :: u16) < 2 ^ 16"
proof -
  have "unat h < 2 ^ LENGTH(16)" by (rule unsigned_less)
  then show ?thesis by simp
qed

lemma ParseQRCode_ok:
  assumes "unat (sp_Version p) < 2 ^ 3" and "unat (sp_CommissioningFlow p) < 2 ^ 2"
    and "unat (sp_Discriminator p) < 2 ^ 12" and "unat (sp_Passcode p) < 2 ^ 27"
    and "validatePasscode (sp_Passcode p) = None"
  shows "ParseQRCode (''MT:'' @ base38Encode (qr_bits p)) = Ok p"
proof -
  have "ucast (readBits (qr_bits p) 0 3) = sp_Version p" "ucast (readBits (qr_bits p) 3 16) = sp_VendorID p"
    "ucast (readBits (qr_bits p) 19 16) = sp_ProductID p" "ucast (readBits (qr_bits p) 35 2) = sp_CommissioningFlow p"
    "ucast (readBits (qr_bits p) 37 8) = sp_DiscoveryCapabilities p"
    "ucast (readBits (qr_bits p) 45 12) = sp_Discriminator p" "ucast (readBits (qr_bits p) 57 27) = sp_Passcode p"
    unfolding read_field using assms byte_small u16_small by (intro ucast_take_bit; simp)+
  then show ?thesis
    using assms(5) by (simp add: ParseQRCode_def base38_inverse length_qr_bits Let_def)
qed

end
