(* ===== verification/Setup_Check.thy ===== *)
theory Setup_Check
  imports Setup_Payload
begin

text \<open>
  The Verhoeff check digit: its multiplication table is a group, its permutations are injective, and
  so it validates what it generates and detects any one wrong digit and any swap of neighbours.
\<close>

subsection \<open>The Verhoeff tables form a group code\<close>

lemma verhoeff_tables:
  "list_all (\<lambda>a. list_all (\<lambda>b. verhoeffD ! a ! b < 10) [0..<10]) [0..<10]"
  "list_all (\<lambda>a. distinct (verhoeffD ! a)) [0..<10]"
  "list_all (\<lambda>b. distinct (map (\<lambda>a. verhoeffD ! a ! b) [0..<10])) [0..<10]"
  "list_all (\<lambda>a. list_all (\<lambda>b. list_all (\<lambda>c. verhoeffD ! (verhoeffD ! a ! b) ! c = verhoeffD ! a ! (verhoeffD ! b ! c))
     [0..<10]) [0..<10]) [0..<10]"
  "list_all (\<lambda>c. verhoeffInv ! c < 10 \<and> verhoeffD ! (verhoeffInv ! c) ! c = 0 \<and> verhoeffD ! 0 ! c = c \<and>
     verhoeffD ! c ! 0 = c \<and> verhoeffP ! 0 ! c = c) [0..<10]"
  "list_all (\<lambda>i. distinct (verhoeffP ! i) \<and> list_all (\<lambda>d. verhoeffP ! i ! d < 10) [0..<10]) [0..<8]"
  "list_all (\<lambda>i. list_all (\<lambda>a. list_all (\<lambda>b. a = b \<or>
     verhoeffD ! (verhoeffP ! i ! a) ! (verhoeffP ! ((i + 1) mod 8) ! b) \<noteq>
     verhoeffD ! (verhoeffP ! i ! b) ! (verhoeffP ! ((i + 1) mod 8) ! a)) [0..<10]) [0..<10]) [0..<8]"
  by code_simp+

lemma length_verhoeff [simp]:
  "a < 10 \<Longrightarrow> length (verhoeffD ! a) = 10" "i < 8 \<Longrightarrow> length (verhoeffP ! i) = 10"
proof -
  have "list_all (\<lambda>r. length r = 10) verhoeffD" "length verhoeffD = 10"
    "list_all (\<lambda>r. length r = 10) verhoeffP" "length verhoeffP = 8"
    by (simp_all add: verhoeffD_def verhoeffP_def)
  then show "a < 10 \<Longrightarrow> length (verhoeffD ! a) = 10" "i < 8 \<Longrightarrow> length (verhoeffP ! i) = 10"
    by (simp_all add: list_all_length)
qed

lemma verhoeffD_less: "a < 10 \<Longrightarrow> b < 10 \<Longrightarrow> verhoeffD ! a ! b < 10"
  using verhoeff_tables(1) by (simp add: list_all_iff)

lemma verhoeffP_less: "d < 10 \<Longrightarrow> verhoeffP ! (i mod 8) ! d < 10"
  using verhoeff_tables(6) by (simp add: list_all_iff)

lemma verhoeffD_right: "a < 10 \<Longrightarrow> b < 10 \<Longrightarrow> c < 10 \<Longrightarrow> verhoeffD ! a ! b = verhoeffD ! a ! c \<longleftrightarrow> b = c"
  using verhoeff_tables(2) by (simp add: list_all_iff nth_eq_iff_index_eq)

lemma verhoeffD_left: "a < 10 \<Longrightarrow> b < 10 \<Longrightarrow> c < 10 \<Longrightarrow> verhoeffD ! a ! c = verhoeffD ! b ! c \<longleftrightarrow> a = b"
  using verhoeff_tables(3) by (auto simp: list_all_iff distinct_map inj_on_def)

lemma verhoeffD_assoc:
  "a < 10 \<Longrightarrow> b < 10 \<Longrightarrow> c < 10 \<Longrightarrow> verhoeffD ! (verhoeffD ! a ! b) ! c = verhoeffD ! a ! (verhoeffD ! b ! c)"
  using verhoeff_tables(4) by (simp add: list_all_iff)

lemma verhoeffP_inj: "a < 10 \<Longrightarrow> b < 10 \<Longrightarrow> verhoeffP ! (i mod 8) ! a = verhoeffP ! (i mod 8) ! b \<longleftrightarrow> a = b"
  using verhoeff_tables(6) by (simp add: list_all_iff nth_eq_iff_index_eq)

lemma verhoeff_units:
  assumes "c < 10"
  shows "verhoeffInv ! c < 10" and "verhoeffD ! (verhoeffInv ! c) ! c = 0" and "verhoeffD ! 0 ! c = c"
    and "verhoeffD ! c ! 0 = c" and "verhoeffP ! 0 ! c = c"
  using verhoeff_tables(5) assms by (simp_all add: list_all_iff)

lemma verhoeff_swap:
  assumes "a < 10" and "b < 10" and "a \<noteq> b"
  shows "verhoeffD ! (verhoeffP ! (i mod 8) ! a) ! (verhoeffP ! ((i + 1) mod 8) ! b) \<noteq>
     verhoeffD ! (verhoeffP ! (i mod 8) ! b) ! (verhoeffP ! ((i + 1) mod 8) ! a)"
proof -
  have "\<forall>i < 8. \<forall>a < 10. \<forall>b < 10. a = b \<or>
     verhoeffD ! (verhoeffP ! i ! a) ! (verhoeffP ! ((i + 1) mod 8) ! b) \<noteq>
     verhoeffD ! (verhoeffP ! i ! b) ! (verhoeffP ! ((i + 1) mod 8) ! a)"
    using verhoeff_tables(7) by (simp add: list_all_iff)
  moreover have "i mod 8 < 8" "(i mod 8 + 1) mod 8 = (i + 1) mod 8" by (simp_all add: mod_Suc_eq)
  ultimately show ?thesis using assms by metis
qed

lemma digit_less: "is_digit c \<Longrightarrow> digit_of c < 10"
  by (auto simp: is_digit_def digit_of_def)

lemma digit_of_inject: "is_digit c \<Longrightarrow> is_digit d \<Longrightarrow> digit_of c = digit_of d \<longleftrightarrow> c = d"
  by (auto simp: is_digit_def digit_of_def) (metis char_of_char diff_diff_cancel le_add_diff_inverse2)

lemma verhoeff_loop_append:
  "verhoeff_loop i c (xs @ ys) = verhoeff_loop (i + length xs) (verhoeff_loop i c xs) ys"
  by (induction xs arbitrary: i c) simp_all

lemma verhoeff_loop_less:
  "c < 10 \<Longrightarrow> list_all is_digit xs \<Longrightarrow> verhoeff_loop i c xs < 10"
  by (induction xs arbitrary: i c) (simp_all add: verhoeffD_less verhoeffP_less digit_less)

lemma verhoeff_loop_shift:
  "a < 10 \<Longrightarrow> c < 10 \<Longrightarrow> list_all is_digit xs \<Longrightarrow>
    verhoeff_loop i (verhoeffD ! a ! c) xs = verhoeffD ! a ! verhoeff_loop i c xs"
proof (induction xs arbitrary: i c)
  case (Cons x xs)
  let ?p = "verhoeffP ! (i mod 8) ! digit_of x"
  have p: "?p < 10" using Cons.prems by (simp add: verhoeffP_less digit_less)
  have "verhoeffD ! (verhoeffD ! a ! c) ! ?p = verhoeffD ! a ! (verhoeffD ! c ! ?p)"
    by (rule verhoeffD_assoc) (use Cons.prems p in simp_all)
  moreover have "verhoeffD ! c ! ?p < 10" by (rule verhoeffD_less) (use Cons.prems p in simp_all)
  ultimately show ?case using Cons.IH [of "verhoeffD ! c ! ?p" "i + 1"] Cons.prems by simp
qed simp

lemma verhoeff_loop_inj:
  assumes "c < 10" and "d < 10" and "list_all is_digit xs"
  shows "verhoeff_loop i c xs = verhoeff_loop i d xs \<longleftrightarrow> c = d"
proof -
  have "verhoeff_loop i c xs = verhoeffD ! c ! verhoeff_loop i 0 xs"
    "verhoeff_loop i d xs = verhoeffD ! d ! verhoeff_loop i 0 xs"
    using verhoeff_loop_shift [of c 0 xs i] verhoeff_loop_shift [of d 0 xs i] assms
    by (simp_all add: verhoeff_units)
  moreover have "verhoeff_loop i 0 xs < 10" by (rule verhoeff_loop_less) (use assms in simp_all)
  ultimately show ?thesis using assms(1,2) by (simp only: verhoeffD_left)
qed

definition digit_char :: "nat \<Rightarrow> char" where
  "digit_char d = char_of (48 + d)"

lemma digit_of_char: "d < 10 \<Longrightarrow> digit_of (digit_char d) = d \<and> is_digit (digit_char d)"
  by (simp add: digit_of_def digit_char_def is_digit_def)

lemma verhoeffGenerate_less: "list_all is_digit s \<Longrightarrow> verhoeffGenerate s < 10"
  by (simp add: verhoeffGenerate_def verhoeff_units(1) verhoeff_loop_less list_all_rev)

lemma verhoeff_generate_validates:
  assumes "list_all is_digit s"
  shows "verhoeffValidate (s @ [digit_char (verhoeffGenerate s)])"
proof -
  have r: "list_all is_digit (rev s)" using assms by (simp add: list_all_rev)
  let ?x = "verhoeff_loop 1 0 (rev s)"
  have x: "?x < 10" by (rule verhoeff_loop_less) (use r in simp_all)
  have "verhoeff_loop 0 0 (digit_char (verhoeffInv ! ?x) # rev s) = verhoeff_loop 1 (verhoeffInv ! ?x) (rev s)"
    using x by (simp add: digit_of_char verhoeff_units)
  also have "\<dots> = verhoeffD ! (verhoeffInv ! ?x) ! ?x"
    using verhoeff_loop_shift [of "verhoeffInv ! ?x" 0 "rev s" 1] x r by (simp add: verhoeff_units)
  finally show ?thesis using x by (simp add: verhoeffValidate_def verhoeffGenerate_def verhoeff_units)
qed

lemma verhoeff_detects_substitution:
  assumes "list_all is_digit (u @ [a] @ v)" and "is_digit b" and "a \<noteq> b"
    and "verhoeffValidate (u @ [a] @ v)"
  shows "\<not> verhoeffValidate (u @ [b] @ v)"
proof -
  let ?c = "verhoeff_loop 0 0 (rev v)" and ?n = "length v"
  have d: "list_all is_digit (rev v)" "list_all is_digit (rev u)" "is_digit a" using assms(1) by (simp_all add: list_all_rev)
  have c: "?c < 10" by (rule verhoeff_loop_less) (use d in simp_all)
  have "verhoeffD ! ?c ! (verhoeffP ! (?n mod 8) ! digit_of a) \<noteq> verhoeffD ! ?c ! (verhoeffP ! (?n mod 8) ! digit_of b)"
    using assms(2,3) d(3) c by (simp add: verhoeffD_right verhoeffP_less verhoeffP_inj digit_less digit_of_inject)
  moreover have "verhoeffD ! ?c ! (verhoeffP ! (?n mod 8) ! digit_of x) < 10" if "is_digit x" for x
    using that c by (simp add: verhoeffD_less verhoeffP_less digit_less)
  ultimately have "verhoeff_loop (?n + 1) (verhoeffD ! ?c ! (verhoeffP ! (?n mod 8) ! digit_of a)) (rev u) \<noteq>
      verhoeff_loop (?n + 1) (verhoeffD ! ?c ! (verhoeffP ! (?n mod 8) ! digit_of b)) (rev u)"
    using d(2,3) assms(2) by (subst verhoeff_loop_inj) simp_all
  then show ?thesis using assms(4) by (auto simp: verhoeffValidate_def verhoeff_loop_append)
qed

lemma verhoeff_detects_transposition:
  assumes "list_all is_digit (u @ [a, b] @ v)" and "a \<noteq> b" and "verhoeffValidate (u @ [a, b] @ v)"
  shows "\<not> verhoeffValidate (u @ [b, a] @ v)"
proof -
  let ?c = "verhoeff_loop 0 0 (rev v)" and ?n = "length v"
  let ?p = "\<lambda>i x. verhoeffP ! (i mod 8) ! digit_of x"
  have d: "list_all is_digit (rev v)" "list_all is_digit (rev u)" "is_digit a" "is_digit b"
    using assms(1) by (simp_all add: list_all_rev)
  have c: "?c < 10" by (rule verhoeff_loop_less) (use d in simp_all)
  have p: "?p i x < 10" if "is_digit x" for i x using that by (simp add: verhoeffP_less digit_less)
  have "verhoeffD ! (?p ?n b) ! (?p (?n + 1) a) \<noteq> verhoeffD ! (?p ?n a) ! (?p (?n + 1) b)"
    using verhoeff_swap [of "digit_of b" "digit_of a" ?n] d assms(2) by (auto simp: digit_less digit_of_inject)
  then have "verhoeffD ! (verhoeffD ! ?c ! ?p ?n b) ! ?p (?n + 1) a \<noteq> verhoeffD ! (verhoeffD ! ?c ! ?p ?n a) ! ?p (?n + 1) b"
    using c d p by (simp add: verhoeffD_assoc verhoeffD_right verhoeffD_less)
  moreover have "verhoeffD ! (verhoeffD ! ?c ! ?p ?n x) ! ?p (?n + 1) y < 10" if "is_digit x" "is_digit y" for x y
    using that c p by (simp add: verhoeffD_less)
  ultimately have "verhoeff_loop (?n + 2) (verhoeffD ! (verhoeffD ! ?c ! ?p ?n b) ! ?p (?n + 1) a) (rev u) \<noteq>
      verhoeff_loop (?n + 2) (verhoeffD ! (verhoeffD ! ?c ! ?p ?n a) ! ?p (?n + 1) b) (rev u)"
    using d by (subst verhoeff_loop_inj) simp_all
  then show ?thesis using assms(3) by (auto simp: verhoeffValidate_def verhoeff_loop_append)
qed

end
