(* ===== verification/Setup_Manual.thy ===== *)
theory Setup_Manual
  imports Setup_Check
begin

text \<open>
  The manual pairing code: its decimal fields, what it keeps of a payload, and the properties of
  both codes.
\<close>

subsection \<open>Decimal fields\<close>

lemma fmt_d_unfold: "fmt_d n = (if n < 10 then [digit_char n] else fmt_d (n div 10) @ [digit_char (n mod 10)])"
  by (subst fmt_d.simps) (simp add: digit_char_def)

lemma fmt_d_digits: "list_all is_digit (fmt_d n)"
proof (induction n rule: fmt_d.induct)
  case (1 n)
  then show ?case by (subst fmt_d_unfold) (simp add: digit_of_char)
qed

lemma fmt_0d_digits: "list_all is_digit (fmt_0d n k)"
  using fmt_d_digits [of k] by (auto simp: fmt_0d_def list_all_iff is_digit_def)

lemma length_fmt_d: "k < 10 ^ Suc n \<Longrightarrow> length (fmt_d k) \<le> Suc n"
proof (induction n arbitrary: k)
  case 0
  then show ?case by (subst fmt_d_unfold) simp
next
  case (Suc n)
  have "k div 10 < 10 ^ Suc n" using Suc.prems by (simp add: less_mult_imp_div_less)
  with Suc.IH show ?case by (subst fmt_d_unfold) simp
qed

lemma length_fmt_0d: "k < 10 ^ n \<Longrightarrow> 0 < n \<Longrightarrow> length (fmt_0d n k) = n"
  using length_fmt_d [of k "n - 1"] by (simp add: fmt_0d_def)

lemma parseDecimal_snoc: "parseDecimal (s @ [c]) = parseDecimal s * 10 + word_of_nat (digit_of c)"
  by (simp add: parseDecimal_def)

lemma parseDecimal_fmt_d: "parseDecimal (fmt_d k) = word_of_nat k"
proof (induction k rule: fmt_d.induct)
  case (1 n)
  show ?case
  proof (cases "n < 10")
    case True
    then show ?thesis by (subst fmt_d_unfold) (simp add: parseDecimal_def digit_of_char)
  next
    case False
    then have "parseDecimal (fmt_d n) = word_of_nat (n div 10) * 10 + word_of_nat (n mod 10)"
      using 1 by (subst fmt_d_unfold) (simp add: parseDecimal_snoc digit_of_char)
    also have "\<dots> = word_of_nat (n div 10 * 10 + n mod 10)"
      by (simp only: of_nat_add of_nat_mult of_nat_numeral)
    finally show ?thesis by (simp only: div_mult_mod_eq)
  qed
qed

lemma parseDecimal_fmt_0d: "parseDecimal (fmt_0d n k) = word_of_nat k"
proof -
  have "foldl (\<lambda>val c. val * 10 + word_of_nat (digit_of c)) (0 :: u32) (replicate m CHR ''0'') = 0" for m
    by (induction m) (simp_all add: digit_of_def)
  with parseDecimal_fmt_d [of k] show ?thesis by (simp add: parseDecimal_def fmt_0d_def)
qed

subsection \<open>The manual code round trip\<close>

lemma unat_bound: "take_bit n w = w \<Longrightarrow> unat (w :: 'a::len word) < 2 ^ n"
  by (metis take_bit_nat_less_exp unsigned_take_bit_eq)

lemma small_take_bit: "unat (w :: 'a::len word) < 2 ^ n \<Longrightarrow> take_bit n w = w"
  by (intro word_unat_eq_iff [THEN iffD2]) (simp add: unsigned_take_bit_eq take_bit_nat_eq_self)

lemma small_bit: "unat (w :: 'a::len word) < 2 ^ n \<Longrightarrow> bit w i \<Longrightarrow> i < n"
  using small_take_bit [of w n] by (metis bit_take_bit_iff)

lemma masks:
  "(w :: u32) AND 0x3FFF = take_bit 14 w" "(w :: u32) AND 0x1FFF = take_bit 13 w" "(w :: u32) AND 3 = take_bit 2 w"
  "(b :: byte) AND 3 = take_bit 2 b" "(b :: byte) AND 1 = take_bit 1 b"
  by (simp_all add: take_bit_eq_mask mask_eq_exp_minus_1)

lemma ShortDiscriminator_bit:
  "unat (sp_Discriminator p) < 2 ^ 12 \<Longrightarrow> bit (ShortDiscriminator p) i \<longleftrightarrow> i < 4 \<and> bit (sp_Discriminator p) (8 + i)"
  using small_bit [of "sp_Discriminator p" 12 "8 + i"] by (auto simp: ShortDiscriminator_def bit_simps)

definition code_digit1 :: "bool \<Rightarrow> SetupPayload \<Rightarrow> byte" where
  "code_digit1 custom p = push_bit 2 (if custom then 1 else 0) OR drop_bit 2 (ShortDiscriminator p)"

definition code_chunk2 :: "SetupPayload \<Rightarrow> u32" where
  "code_chunk2 p = push_bit 14 (ucast (ShortDiscriminator p AND 0x03)) OR (sp_Passcode p AND 0x3FFF)"

definition code_chunk3 :: "SetupPayload \<Rightarrow> u32" where
  "code_chunk3 p = drop_bit 14 (sp_Passcode p) AND 0x1FFF"

lemma code_fields:
  assumes "unat (sp_Discriminator p) < 2 ^ 12" and "unat (sp_Passcode p) < 2 ^ 27"
  shows "unat (code_digit1 c p) < 2 ^ 3" and "unat (code_chunk2 p) < 2 ^ 16" and "unat (code_chunk3 p) < 2 ^ 13"
    and "drop_bit 2 (code_digit1 c p) AND 0x01 = (if c then 1 else 0)"
    and "push_bit 8 (ucast (push_bit 2 (code_digit1 c p AND 0x03) OR ucast (drop_bit 14 (code_chunk2 p) AND 0x03)))
      = sp_Discriminator p AND 0xF00"
    and "push_bit 14 (code_chunk3 p) OR (code_chunk2 p AND 0x3FFF) = sp_Passcode p"
proof -
  note sd = ShortDiscriminator_bit [OF assms(1)]
  note pc = small_bit [OF assms(2)]
  have bits: "bit (code_digit1 c p) i \<longleftrightarrow> (c \<and> i = 2) \<or> i < 2 \<and> bit (sp_Discriminator p) (10 + i)" for i
    by (auto simp: code_digit1_def bit_simps sd add.commute [of i] dest: bit_imp_le_length)
  show "unat (code_digit1 c p) < 2 ^ 3"
    by (intro unat_bound bit_eqI) (auto simp: bit_simps bits)
  have "bit (drop_bit 2 (code_digit1 c p) AND 0x01) i \<longleftrightarrow> i = 0 \<and> c" for i
    using bits [of 2] by (cases "i = 0") (simp_all add: bit_simps del: bit_0)
  then show "drop_bit 2 (code_digit1 c p) AND 0x01 = (if c then 1 else 0)"
    by (intro bit_eqI) (simp add: bit_1_iff del: bit_0)
  have bits2: "bit (code_chunk2 p) i \<longleftrightarrow> i < 14 \<and> bit (sp_Passcode p) i \<or>
      14 \<le> i \<and> i < 16 \<and> bit (sp_Discriminator p) (i - 6)" for i
    by (auto simp: code_chunk2_def masks bit_simps sd dest: bit_imp_le_length)
  show "unat (code_chunk2 p) < 2 ^ 16"
    by (intro unat_bound bit_eqI) (auto simp: bit_simps bits2)
  show "unat (code_chunk3 p) < 2 ^ 13"
    by (intro unat_bound bit_eqI) (auto simp: bit_simps code_chunk3_def masks)
  show "push_bit 14 (code_chunk3 p) OR (code_chunk2 p AND 0x3FFF) = sp_Passcode p"
    unfolding masks by (intro bit_eqI) (auto simp: bit_simps bits2 code_chunk3_def masks dest: pc)
  show "push_bit 8 (ucast (push_bit 2 (code_digit1 c p AND 0x03) OR ucast (drop_bit 14 (code_chunk2 p) AND 0x03)))
      = sp_Discriminator p AND 0xF00"
  proof (rule bit_eqI)
    have f00: "(0xF00 :: u16) = push_bit 8 (mask 4)" by (simp add: mask_eq_exp_minus_1)
    fix n
    show "bit (push_bit 8 (ucast (push_bit 2 (code_digit1 c p AND 0x03) OR ucast (drop_bit 14 (code_chunk2 p) AND 0x03))) :: u16) n
        = bit (sp_Discriminator p AND 0xF00) n"
      unfolding f00 masks
      by (cases "n < 8"; cases "n < 10"; cases "n < 12") (auto simp: bit_simps bits bits2 dest: bit_imp_le_length)
  qed
qed

text \<open>The digits of a manual code before its check digit.\<close>

definition code_body :: "SetupPayload \<Rightarrow> string" where
  "code_body p =
     (let custom = (sp_CommissioningFlow p = FlowCustom) in
      [digit_char (unat (code_digit1 custom p))] @ fmt_0d 5 (unat (code_chunk2 p)) @ fmt_0d 4 (unat (code_chunk3 p)) @
      (if custom then fmt_0d 5 (unat (sp_VendorID p)) @ fmt_0d 5 (unat (sp_ProductID p)) else []))"

definition code_string :: "SetupPayload \<Rightarrow> string" where
  "code_string p = code_body p @ [digit_char (verhoeffGenerate (code_body p))]"

lemma code_body_digits:
  assumes "unat (sp_Discriminator p) < 2 ^ 12" and "unat (sp_Passcode p) < 2 ^ 27"
  shows "list_all is_digit (code_body p)"
proof -
  have "is_digit (digit_char (unat (code_digit1 c p)))" for c
    by (rule digit_of_char [THEN conjunct2]) (use code_fields(1) [OF assms, of c] in simp)
  then show ?thesis using fmt_0d_digits by (simp add: code_body_def Let_def)
qed

lemma ManualPairingCode_ok:
  assumes "unat (sp_Discriminator p) < 2 ^ 12" and "unat (sp_Passcode p) < 2 ^ 27"
  shows "ManualPairingCode p = Ok (code_string p)"
proof -
  have "\<not> sp_Passcode p > 0x7FFFFFF" using assms(2) by (simp add: word_less_nat_alt)
  then have mpc: "ManualPairingCode p = (let code = fmt_d (unat (code_digit1 (sp_CommissioningFlow p = FlowCustom) p)) @
       fmt_0d 5 (unat (code_chunk2 p)) @ fmt_0d 4 (unat (code_chunk3 p)) @
       (if sp_CommissioningFlow p = FlowCustom
        then fmt_0d 5 (unat (sp_VendorID p)) @ fmt_0d 5 (unat (sp_ProductID p)) else [])
     in Ok (code @ fmt_d (verhoeffGenerate code)))"
    by (simp add: ManualPairingCode_def Let_def code_digit1_def code_chunk2_def code_chunk3_def)
  have "fmt_d (unat (code_digit1 c p)) = [digit_char (unat (code_digit1 c p))]" for c
    using code_fields(1) [OF assms, of c] by (subst fmt_d_unfold) simp
  then have body: "fmt_d (unat (code_digit1 (sp_CommissioningFlow p = FlowCustom) p)) @
       fmt_0d 5 (unat (code_chunk2 p)) @ fmt_0d 4 (unat (code_chunk3 p)) @
       (if sp_CommissioningFlow p = FlowCustom
        then fmt_0d 5 (unat (sp_VendorID p)) @ fmt_0d 5 (unat (sp_ProductID p)) else []) = code_body p"
    by (simp add: code_body_def Let_def)
  have "fmt_d (verhoeffGenerate (code_body p)) = [digit_char (verhoeffGenerate (code_body p))]"
    using verhoeffGenerate_less [OF code_body_digits [OF assms]] by (subst fmt_d_unfold) simp
  then show ?thesis unfolding mpc body Let_def code_string_def by simp
qed

text \<open>What a manual code keeps of a payload.\<close>

definition manual_view :: "SetupPayload \<Rightarrow> SetupPayload" where
  "manual_view p =
     (let q = zero_payload\<lparr>sp_Discriminator := sp_Discriminator p AND 0xF00, sp_Passcode := sp_Passcode p\<rparr>
      in if sp_CommissioningFlow p = FlowCustom
         then q\<lparr>sp_CommissioningFlow := FlowCustom, sp_VendorID := sp_VendorID p, sp_ProductID := sp_ProductID p\<rparr>
         else q)"

lemma digit_no_separator: "list_all is_digit s \<Longrightarrow>
    filter (\<lambda>c. c \<noteq> CHR '' '') (filter (\<lambda>c. c \<noteq> CHR ''-'') s) = s"
  by (induction s) (auto simp: is_digit_def)

lemma ParseManualPairingCode_ok:
  assumes "unat (sp_Discriminator p) < 2 ^ 12" and "unat (sp_Passcode p) < 2 ^ 27"
    and "validatePasscode (sp_Passcode p) = None"
  shows "ParseManualPairingCode (code_string p) = Ok (manual_view p)"
proof -
  define custom where "custom \<longleftrightarrow> sp_CommissioningFlow p = FlowCustom"
  note f = code_fields(1,4,5) [OF assms(1,2), where c = custom] code_fields(2,3,6) [OF assms(1,2)]
  define d1 where "d1 = digit_char (unat (code_digit1 custom p))"
  define s2 where "s2 = fmt_0d 5 (unat (code_chunk2 p))"
  define s3 where "s3 = fmt_0d 4 (unat (code_chunk3 p))"
  define sv where "sv = fmt_0d 5 (unat (sp_VendorID p))"
  define sp where "sp = fmt_0d 5 (unat (sp_ProductID p))"
  define ck where "ck = digit_char (verhoeffGenerate (code_body p))"
  have u: "unat (sp_VendorID p) < 10 ^ 5" "unat (sp_ProductID p) < 10 ^ 5"
    using u16_small [of "sp_VendorID p"] u16_small [of "sp_ProductID p"] by simp_all
  have len: "length s2 = 5" "length s3 = 4" "length sv = 5" "length sp = 5"
    unfolding s2_def s3_def sv_def sp_def using f(4,5) u by (intro length_fmt_0d; simp)+
  have code: "code_string p = d1 # s2 @ s3 @ (if custom then sv @ sp else []) @ [ck]"
    by (simp add: code_string_def code_body_def custom_def d1_def s2_def s3_def sv_def sp_def ck_def Let_def)
  note body = code_body_digits [OF assms(1,2)]
  have digits: "list_all is_digit (code_string p)"
    using body verhoeffGenerate_less [OF body] by (simp add: code_string_def digit_of_char)
  have valid: "verhoeffValidate (code_string p)"
    unfolding code_string_def by (rule verhoeff_generate_validates [OF body])
  have d: "word_of_nat (digit_of d1) = code_digit1 custom p"
    using f(1) by (simp add: d1_def digit_of_char)
  have parse: "parseDecimal s2 = code_chunk2 p" "parseDecimal s3 = code_chunk3 p"
    "parseDecimal sv = ucast (sp_VendorID p)" "parseDecimal sp = ucast (sp_ProductID p)"
    by (simp_all add: s2_def s3_def sv_def sp_def parseDecimal_fmt_0d)
  have sub: "substr 1 6 (code_string p) = Ok s2" "substr 6 10 (code_string p) = Ok s3"
    "custom \<Longrightarrow> substr 10 15 (code_string p) = Ok sv" "custom \<Longrightarrow> substr 15 20 (code_string p) = Ok sp"
    "code_string p ! 0 = d1" "length (code_string p) = (if custom then 21 else 11)"
    using len by (simp_all add: code substr_def)
  have view: "manual_view p = (let q = zero_payload\<lparr>sp_Discriminator := sp_Discriminator p AND 0xF00, sp_Passcode := sp_Passcode p\<rparr>
      in if custom then q\<lparr>sp_CommissioningFlow := FlowCustom, sp_VendorID := sp_VendorID p, sp_ProductID := sp_ProductID p\<rparr>
         else q)"
    by (simp add: manual_view_def custom_def)
  have up: "ucast (ucast v :: u32) = v" for v :: u16
    by (rule bit_eqI) (auto simp: bit_simps)
  show ?thesis
    unfolding ParseManualPairingCode_def Let_def digit_no_separator [OF digits] sub(1,2,5) d bind_res.simps parse f view
    using digits valid sub(3,4,6) by (cases custom) (simp_all add: parse assms(3) up)
qed

subsection \<open>Properties\<close>

definition sample_payload :: SetupPayload where
  "sample_payload = \<lparr>sp_Version = 0, sp_VendorID = 0xFFF1, sp_ProductID = 0x8000, sp_CommissioningFlow = 2,
     sp_DiscoveryCapabilities = 4, sp_Discriminator = 0xF00, sp_Passcode = 20202021\<rparr>"

lemma sample_payload_ok:
  "unat (sp_Version sample_payload) < 2 ^ 3" "unat (sp_CommissioningFlow sample_payload) < 2 ^ 2"
  "unat (sp_Discriminator sample_payload) < 2 ^ 12" "unat (sp_Passcode sample_payload) < 2 ^ 27"
  "validatePasscode (sp_Passcode sample_payload) = None"
  by (simp_all add: sample_payload_def validatePasscode_def forbidden_passcodes_def)

text \<open>
  C37 QR round trip: a payload whose fields fit their bit fields (3-bit version, 2-bit flow, 12-bit
  discriminator, 27-bit passcode) and whose passcode is allowed is encoded, and parsing the code gives
  exactly this payload.
\<close>

theorem qr_code_roundtrip:
  assumes "unat (sp_Version p) < 2 ^ 3" and "unat (sp_CommissioningFlow p) < 2 ^ 2"
    and "unat (sp_Discriminator p) < 2 ^ 12" and "unat (sp_Passcode p) < 2 ^ 27"
    and "validatePasscode (sp_Passcode p) = None"
  shows "\<exists>code. QRCode p = Ok code \<and> ParseQRCode code = Ok p"
  using QRCode_ok [OF assms(3,4)] ParseQRCode_ok [OF assms] by blast

theorem qr_code_roundtrip_witness:
  "\<exists>code. QRCode sample_payload = Ok code \<and> ParseQRCode code = Ok sample_payload"
  by (rule qr_code_roundtrip) (rule sample_payload_ok)+

text \<open>
  C38 Manual code round trip: a payload with a 12-bit discriminator and an allowed 27-bit passcode gets a
  code of 11 digits, 21 with the custom flow, and parsing it returns the passcode, the upper four bits
  of the discriminator and, with the custom flow only, the flow and the vendor and product identifiers.
\<close>

theorem manual_code_roundtrip:
  assumes "unat (sp_Discriminator p) < 2 ^ 12" and "unat (sp_Passcode p) < 2 ^ 27"
    and "validatePasscode (sp_Passcode p) = None"
  shows "\<exists>code. ManualPairingCode p = Ok code \<and> list_all is_digit code \<and>
     ParseManualPairingCode code = Ok (manual_view p)"
  using ManualPairingCode_ok [OF assms(1,2)] ParseManualPairingCode_ok [OF assms]
    code_body_digits [OF assms(1,2)] verhoeffGenerate_less [OF code_body_digits [OF assms(1,2)]]
  by (simp add: code_string_def digit_of_char)

theorem manual_code_roundtrip_witness:
  "\<exists>code. ManualPairingCode sample_payload = Ok code \<and> list_all is_digit code \<and>
     ParseManualPairingCode code = Ok (manual_view sample_payload)"
  by (rule manual_code_roundtrip) (rule sample_payload_ok)+

text \<open>
  C39 Check digit: if a manual code has a valid check digit, then changing any one digit or swapping any
  two different neighbouring digits gives a code that is refused for its check digit.
\<close>

theorem check_digit_detects_errors:
  assumes "length code = 11 \<or> length code = 21" and "list_all is_digit code" and "verhoeffValidate code"
    and "(\<exists>u a b v. code = u @ [a] @ v \<and> code' = u @ [b] @ v \<and> is_digit b \<and> a \<noteq> b) \<or>
      (\<exists>u a b v. code = u @ [a, b] @ v \<and> code' = u @ [b, a] @ v \<and> a \<noteq> b)"
  shows "ParseManualPairingCode code' = Err (Errorf ''commissioning: invalid check digit'')"
proof -
  have "\<not> verhoeffValidate code'" "list_all is_digit code'" "length code' = length code"
    using assms(2-4) verhoeff_detects_substitution verhoeff_detects_transposition by auto
  then show ?thesis
    unfolding ParseManualPairingCode_def Let_def using assms(1) by (auto simp: digit_no_separator simp del: filter_filter)
qed

definition sample_code :: string where
  "sample_code = ''4000000000'' @ [digit_char (verhoeffGenerate ''4000000000'')]"

lemma sample_code_ok: "length sample_code = 11" "list_all is_digit sample_code" "verhoeffValidate sample_code"
proof -
  have d: "list_all is_digit ''4000000000''" by (simp add: is_digit_def)
  show "length sample_code = 11" by (simp add: sample_code_def)
  show "list_all is_digit sample_code"
    using d verhoeffGenerate_less [OF d] by (simp add: sample_code_def digit_of_char)
  show "verhoeffValidate sample_code"
    unfolding sample_code_def by (rule verhoeff_generate_validates [OF d])
qed

theorem check_digit_detects_errors_witness:
  "ParseManualPairingCode (''5000000000'' @ [digit_char (verhoeffGenerate ''4000000000'')])
     = Err (Errorf ''commissioning: invalid check digit'')"
proof (rule check_digit_detects_errors [of sample_code])
  let ?v = "''000000000'' @ [digit_char (verhoeffGenerate ''4000000000'')]"
  have "sample_code = [] @ [CHR ''4''] @ ?v \<and>
      ''5000000000'' @ [digit_char (verhoeffGenerate ''4000000000'')] = [] @ [CHR ''5''] @ ?v \<and>
      is_digit (CHR ''5'') \<and> CHR ''4'' \<noteq> CHR ''5''"
    by (simp add: sample_code_def is_digit_def)
  then show "(\<exists>u a b v. sample_code = u @ [a] @ v \<and>
      ''5000000000'' @ [digit_char (verhoeffGenerate ''4000000000'')] = u @ [b] @ v \<and> is_digit b \<and> a \<noteq> b) \<or>
    (\<exists>u a b v. sample_code = u @ [a, b] @ v \<and>
      ''5000000000'' @ [digit_char (verhoeffGenerate ''4000000000'')] = u @ [b, a] @ v \<and> a \<noteq> b)"
    by blast
qed (simp_all add: sample_code_ok)

text \<open>
  Short code with identifiers announced: an 11-digit code with a valid check digit whose first digit
  is 4 to 7 announces vendor and product identifiers it does not have, and parsing it panics.
\<close>

theorem short_custom_code_panics:
  assumes "length code = 11" and "list_all is_digit code" and "verhoeffValidate code"
    and "4 \<le> digit_of (code ! 0)" and "digit_of (code ! 0) \<le> 7"
  shows "ParseManualPairingCode code = Panic"
proof -
  have "digit_of (code ! 0) = 4 \<or> digit_of (code ! 0) = 5 \<or> digit_of (code ! 0) = 6 \<or> digit_of (code ! 0) = 7"
    using assms(4,5) by auto
  then have "drop_bit 2 (word_of_nat (digit_of (code ! 0)) :: byte) AND 0x01 = 1" by auto
  then show ?thesis
    unfolding ParseManualPairingCode_def Let_def digit_no_separator [OF assms(2)]
    using assms(1-3) by (simp add: substr_def)
qed

theorem short_custom_code_panics_witness:
  "ParseManualPairingCode sample_code = Panic"
  by (rule short_custom_code_panics) (simp_all add: sample_code_ok, simp_all add: sample_code_def digit_of_def)

end
