(* ===== verification/Store_Types.thy ===== *)
theory Store_Types
  imports Prelude "HOL-Library.Monad_Syntax"
begin

text \<open>
  \<^verbatim>\<open>internal/store/types.go\<close>: the records the store keeps, and the JSON documents the struct tags
  give them (\<^verbatim>\<open>encoding/json\<close> on these types, \<^verbatim>\<open>omitempty\<close> included).  A Go string is a list of
  bytes.  A nil and an empty slice are the same list here, except for the attribute cache of a
  cluster reference, where the code tells ``never read'' from ``empty''.

  The text of a document (its printing and parsing), the RFC 3339 text of a time and the base64 text
  of a byte slice are formats of the standard library that the code only passes through; they are the
  parameter \<open>text_formats\<close> with the laws \<open>text_laws\<close>.
\<close>

subsection \<open>The records\<close>

text \<open>
  An instant and a zone, whose offset counts minutes: RFC 3339 has no finer one, so
  times with an offset that has seconds are left out.
\<close>

record Time =
  t_sec :: int
  t_nsec :: nat
  t_offset :: int

definition zero_Time :: Time where "zero_Time = \<lparr>t_sec = - 62135596800, t_nsec = 0, t_offset = 0\<rparr>"

record Fabric =
  fab_ID :: u64
  fab_Label :: "byte list"
  fab_RootCertPEM :: "byte list"
  fab_ICACertPEM :: "byte list"
  fab_PrivateKeyPEM :: "byte list"
  fab_VendorID :: u16
  fab_FabricIndex :: byte
  fab_CreatedAt :: Time

record DeviceType =
  dt_ID :: u32
  dt_Revision :: u16

record ClusterRef =
  cr_ID :: u32
  cr_Name :: "byte list"
  cr_Side :: "byte list"
  cr_Attributes :: "u32 list option"

record Endpoint =
  ept_ID :: u16
  ept_DeviceTypes :: "DeviceType list"
  ept_Clusters :: "ClusterRef list"

record Node =
  node_ID :: u64
  node_FabricID :: u64
  node_Name :: "byte list"
  node_VendorID :: u16
  node_ProductID :: u16
  node_SpecificationVersion :: u32
  node_SoftwareVersion :: u32
  node_SerialNumber :: "byte list"
  node_Endpoints :: "Endpoint list"
  node_LastAddress :: "byte list"
  node_LastSeen :: Time

record ResumptionInfo =
  ri_PeerNodeID :: u64
  ri_ResumptionID :: "byte list"
  ri_SharedSecret :: "byte list"
  ri_CASESessionParams :: "byte list"

definition bytes_of_string :: "string \<Rightarrow> byte list" where
  "bytes_of_string s = map of_char s"

definition IsServer :: "ClusterRef \<Rightarrow> bool" where
  "IsServer c = (cr_Side c = bytes_of_string ''server'' \<or> cr_Side c = [])"

subsection \<open>Documents\<close>

datatype json =
    JNull | JNum int | JStr "byte list" | JArr "json list" | JObj "(string \<times> json) list"

record text_formats =
  print_json :: "json \<Rightarrow> byte list"
  parse_json :: "byte list \<Rightarrow> json option"
  print_time :: "Time \<Rightarrow> byte list option"
  parse_time :: "byte list \<Rightarrow> Time option"
  print_base64 :: "byte list \<Rightarrow> byte list"
  parse_base64 :: "byte list \<Rightarrow> byte list option"

text \<open>
  \<^verbatim>\<open>utf8.Valid\<close>: the well-formed byte sequences.  \<^verbatim>\<open>json.Marshal\<close> replaces the bytes of other
  strings, so the laws below only speak of documents whose strings are valid.
\<close>

definition cont :: "byte \<Rightarrow> bool" where "cont b = (0x80 \<le> b \<and> b \<le> 0xBF)"

fun utf8_Valid :: "byte list \<Rightarrow> bool" where
  "utf8_Valid [] = True"
| "utf8_Valid (b # bs) =
     (if b < 0x80 then utf8_Valid bs
      else case bs of
        [] \<Rightarrow> False
      | c # cs \<Rightarrow>
          if 0xC2 \<le> b \<and> b \<le> 0xDF then cont c \<and> utf8_Valid cs
          else case cs of
            [] \<Rightarrow> False
          | d # ds \<Rightarrow>
              if 0xE0 \<le> b \<and> b \<le> 0xEF then
                (if b = 0xE0 then 0xA0 else 0x80) \<le> c \<and> c \<le> (if b = 0xED then 0x9F else 0xBF)
                \<and> cont d \<and> utf8_Valid ds
              else case ds of
                [] \<Rightarrow> False
              | e # es \<Rightarrow>
                  0xF0 \<le> b \<and> b \<le> 0xF4
                  \<and> (if b = 0xF0 then 0x90 else 0x80) \<le> c \<and> c \<le> (if b = 0xF4 then 0x8F else 0xBF)
                  \<and> cont d \<and> cont e \<and> utf8_Valid es)"

fun json_Valid :: "json \<Rightarrow> bool" where
  "json_Valid JNull = True"
| "json_Valid (JNum n) = True"
| "json_Valid (JStr s) = utf8_Valid s"
| "json_Valid (JArr js) = (\<forall>j \<in> set js. json_Valid j)"
| "json_Valid (JObj fs) = (\<forall>(k, j) \<in> set fs. json_Valid j)"

definition text_laws :: "text_formats \<Rightarrow> bool" where
  "text_laws T =
     ((\<forall>j. json_Valid j \<longrightarrow> parse_json T (print_json T j) = Some j) \<and>
      (\<forall>t s. print_time T t = Some s \<longrightarrow> utf8_Valid s \<and> parse_time T s = Some t) \<and>
      (\<forall>bs. utf8_Valid (print_base64 T bs) \<and> parse_base64 T (print_base64 T bs) = Some bs))"

subsection \<open>Encoding the structs\<close>

definition enc_u :: "'a::len word \<Rightarrow> json" where "enc_u w = JNum (uint w)"

definition enc_time :: "text_formats \<Rightarrow> Time \<Rightarrow> json option" where
  "enc_time T t = map_option JStr (print_time T t)"

definition omit :: "bool \<Rightarrow> string \<Rightarrow> json \<Rightarrow> (string \<times> json) list" where
  "omit e k j = (if e then [] else [(k, j)])"

definition enc_fabric :: "text_formats \<Rightarrow> Fabric \<Rightarrow> json option" where
  "enc_fabric T f = do {
     t \<leftarrow> enc_time T (fab_CreatedAt f);
     Some (JObj [(''id'', enc_u (fab_ID f)), (''label'', JStr (fab_Label f)),
       (''root_cert_pem'', JStr (fab_RootCertPEM f)), (''ica_cert_pem'', JStr (fab_ICACertPEM f)),
       (''private_key_pem'', JStr (fab_PrivateKeyPEM f)), (''vendor_id'', enc_u (fab_VendorID f)),
       (''fabric_index'', enc_u (fab_FabricIndex f)), (''created_at'', t)]) }"

definition enc_device_type :: "DeviceType \<Rightarrow> json" where
  "enc_device_type d = JObj [(''id'', enc_u (dt_ID d)), (''revision'', enc_u (dt_Revision d))]"

definition enc_cluster :: "ClusterRef \<Rightarrow> json" where
  "enc_cluster c = JObj ([(''id'', enc_u (cr_ID c)), (''name'', JStr (cr_Name c)), (''side'', JStr (cr_Side c))]
     @ (case cr_Attributes c of
          None \<Rightarrow> []
        | Some as \<Rightarrow> omit (as = []) ''attributes'' (JArr (map enc_u as))))"

definition enc_endpoint :: "Endpoint \<Rightarrow> json" where
  "enc_endpoint e = JObj [(''id'', enc_u (ept_ID e)),
     (''device_types'', JArr (map enc_device_type (ept_DeviceTypes e))),
     (''clusters'', JArr (map enc_cluster (ept_Clusters e)))]"

definition enc_node :: "text_formats \<Rightarrow> Node \<Rightarrow> json option" where
  "enc_node T n = do {
     t \<leftarrow> enc_time T (node_LastSeen n);
     Some (JObj ([(''id'', enc_u (node_ID n)), (''fabric_id'', enc_u (node_FabricID n)),
       (''name'', JStr (node_Name n)), (''vendor_id'', enc_u (node_VendorID n)),
       (''product_id'', enc_u (node_ProductID n))]
       @ omit (node_SpecificationVersion n = 0) ''specification_version'' (enc_u (node_SpecificationVersion n))
       @ omit (node_SoftwareVersion n = 0) ''software_version'' (enc_u (node_SoftwareVersion n))
       @ omit (node_SerialNumber n = []) ''serial_number'' (JStr (node_SerialNumber n))
       @ [(''endpoints'', JArr (map enc_endpoint (node_Endpoints n))),
          (''last_address'', JStr (node_LastAddress n)), (''last_seen'', t)])) }"

definition enc_bytes :: "text_formats \<Rightarrow> byte list \<Rightarrow> json" where
  "enc_bytes T bs = (if bs = [] then JNull else JStr (print_base64 T bs))"

definition enc_resumption :: "text_formats \<Rightarrow> ResumptionInfo \<Rightarrow> json" where
  "enc_resumption T r = JObj [(''peer_node_id'', enc_u (ri_PeerNodeID r)),
     (''resumption_id'', enc_bytes T (ri_ResumptionID r)), (''shared_secret'', enc_bytes T (ri_SharedSecret r)),
     (''case_session_params'', enc_bytes T (ri_CASESessionParams r))]"

subsection \<open>Decoding into the structs\<close>

text \<open>
  \<^verbatim>\<open>json.Unmarshal\<close> into a zero struct: a field that is absent or null keeps its zero value, a
  repeated key counts by its last occurrence, a value of another kind or out of range is an error.
\<close>

definition field :: "(json \<Rightarrow> 'a option) \<Rightarrow> 'a \<Rightarrow> string \<Rightarrow> (string \<times> json) list \<Rightarrow> 'a option" where
  "field dec z k fs = (case map_of (rev fs) k of None \<Rightarrow> Some z | Some j \<Rightarrow> if j = JNull then Some z else dec j)"

fun dec_u :: "json \<Rightarrow> 'a::len word option" where
  "dec_u (JNum n) = (if 0 \<le> n \<and> n < 2 ^ LENGTH('a) then Some (of_int n) else None)"
| "dec_u _ = None"

fun dec_str :: "json \<Rightarrow> byte list option" where
  "dec_str (JStr s) = Some s"
| "dec_str _ = None"

fun dec_time :: "text_formats \<Rightarrow> json \<Rightarrow> Time option" where
  "dec_time T (JStr s) = parse_time T s"
| "dec_time T _ = None"

fun dec_bytes :: "text_formats \<Rightarrow> json \<Rightarrow> byte list option" where
  "dec_bytes T (JStr s) = parse_base64 T s"
| "dec_bytes T _ = None"

fun dec_list :: "(json \<Rightarrow> 'a option) \<Rightarrow> json \<Rightarrow> 'a list option" where
  "dec_list dec (JArr js) = those (map dec js)"
| "dec_list dec _ = None"

fun obj :: "json \<Rightarrow> (string \<times> json) list option" where
  "obj (JObj fs) = Some fs"
| "obj _ = None"

definition dec_fabric :: "text_formats \<Rightarrow> json \<Rightarrow> Fabric option" where
  "dec_fabric T j = do {
     fs \<leftarrow> obj j;
     i \<leftarrow> field dec_u 0 ''id'' fs; l \<leftarrow> field dec_str [] ''label'' fs;
     r \<leftarrow> field dec_str [] ''root_cert_pem'' fs; ic \<leftarrow> field dec_str [] ''ica_cert_pem'' fs;
     p \<leftarrow> field dec_str [] ''private_key_pem'' fs; v \<leftarrow> field dec_u 0 ''vendor_id'' fs;
     x \<leftarrow> field dec_u 0 ''fabric_index'' fs; t \<leftarrow> field (dec_time T) zero_Time ''created_at'' fs;
     Some \<lparr>fab_ID = i, fab_Label = l, fab_RootCertPEM = r, fab_ICACertPEM = ic, fab_PrivateKeyPEM = p,
       fab_VendorID = v, fab_FabricIndex = x, fab_CreatedAt = t\<rparr> }"

definition dec_device_type :: "json \<Rightarrow> DeviceType option" where
  "dec_device_type j = do {
     fs \<leftarrow> obj j; i \<leftarrow> field dec_u 0 ''id'' fs; r \<leftarrow> field dec_u 0 ''revision'' fs;
     Some \<lparr>dt_ID = i, dt_Revision = r\<rparr> }"

definition dec_cluster :: "json \<Rightarrow> ClusterRef option" where
  "dec_cluster j = do {
     fs \<leftarrow> obj j; i \<leftarrow> field dec_u 0 ''id'' fs; n \<leftarrow> field dec_str [] ''name'' fs;
     s \<leftarrow> field dec_str [] ''side'' fs;
     as \<leftarrow> field (\<lambda>j. map_option Some (dec_list dec_u j)) None ''attributes'' fs;
     Some \<lparr>cr_ID = i, cr_Name = n, cr_Side = s, cr_Attributes = as\<rparr> }"

definition dec_endpoint :: "json \<Rightarrow> Endpoint option" where
  "dec_endpoint j = do {
     fs \<leftarrow> obj j; i \<leftarrow> field dec_u 0 ''id'' fs;
     ds \<leftarrow> field (dec_list dec_device_type) [] ''device_types'' fs;
     cs \<leftarrow> field (dec_list dec_cluster) [] ''clusters'' fs;
     Some \<lparr>ept_ID = i, ept_DeviceTypes = ds, ept_Clusters = cs\<rparr> }"

definition dec_node :: "text_formats \<Rightarrow> json \<Rightarrow> Node option" where
  "dec_node T j = do {
     fs \<leftarrow> obj j;
     i \<leftarrow> field dec_u 0 ''id'' fs; f \<leftarrow> field dec_u 0 ''fabric_id'' fs; n \<leftarrow> field dec_str [] ''name'' fs;
     v \<leftarrow> field dec_u 0 ''vendor_id'' fs; p \<leftarrow> field dec_u 0 ''product_id'' fs;
     sp \<leftarrow> field dec_u 0 ''specification_version'' fs; sw \<leftarrow> field dec_u 0 ''software_version'' fs;
     sn \<leftarrow> field dec_str [] ''serial_number'' fs; es \<leftarrow> field (dec_list dec_endpoint) [] ''endpoints'' fs;
     a \<leftarrow> field dec_str [] ''last_address'' fs; t \<leftarrow> field (dec_time T) zero_Time ''last_seen'' fs;
     Some \<lparr>node_ID = i, node_FabricID = f, node_Name = n, node_VendorID = v, node_ProductID = p,
       node_SpecificationVersion = sp, node_SoftwareVersion = sw, node_SerialNumber = sn,
       node_Endpoints = es, node_LastAddress = a, node_LastSeen = t\<rparr> }"

definition dec_resumption :: "text_formats \<Rightarrow> json \<Rightarrow> ResumptionInfo option" where
  "dec_resumption T j = do {
     fs \<leftarrow> obj j;
     p \<leftarrow> field dec_u 0 ''peer_node_id'' fs; r \<leftarrow> field (dec_bytes T) [] ''resumption_id'' fs;
     s \<leftarrow> field (dec_bytes T) [] ''shared_secret'' fs; c \<leftarrow> field (dec_bytes T) [] ''case_session_params'' fs;
     Some \<lparr>ri_PeerNodeID = p, ri_ResumptionID = r, ri_SharedSecret = s, ri_CASESessionParams = c\<rparr> }"

subsection \<open>Round trips\<close>

text \<open>\<open>collapse\<close> is what a round trip does to a node: an empty attribute cache becomes an absent one.\<close>

definition collapse_cluster :: "ClusterRef \<Rightarrow> ClusterRef" where
  "collapse_cluster c = (if cr_Attributes c = Some [] then c\<lparr>cr_Attributes := None\<rparr> else c)"

definition collapse_endpoint :: "Endpoint \<Rightarrow> Endpoint" where
  "collapse_endpoint e = e\<lparr>ept_Clusters := map collapse_cluster (ept_Clusters e)\<rparr>"

definition collapse :: "Node \<Rightarrow> Node" where
  "collapse n = n\<lparr>node_Endpoints := map collapse_endpoint (node_Endpoints n)\<rparr>"

lemma collapse_simps [simp]:
  "node_ID (collapse n) = node_ID n" "node_FabricID (collapse n) = node_FabricID n"
  by (simp_all add: collapse_def)

lemma those_map_Some: "(\<And>x. x \<in> set xs \<Longrightarrow> f x = Some (g x)) \<Longrightarrow> those (map f xs) = Some (map g xs)"
  by (induction xs) auto

lemma dec_u_enc_u [simp]: "dec_u (enc_u w) = Some w"
  using uint_lt2p [of w] by (simp add: enc_u_def)

lemma enc_u_not_null [simp]: "enc_u w \<noteq> JNull"
  by (simp add: enc_u_def)

lemmas dec_defs = field_def omit_def

lemma dec_u_list [simp]: "those (map (dec_u \<circ> enc_u) ws) = Some ws"
  using those_map_Some [of ws "dec_u \<circ> enc_u" id] by simp

lemma dec_enc_device_type [simp]: "dec_device_type (enc_device_type d) = Some d"
  by (simp add: dec_device_type_def enc_device_type_def dec_defs)

lemma dec_enc_cluster: "dec_cluster (enc_cluster c) = Some (collapse_cluster c)"
  by (cases "cr_Attributes c")
    (auto simp: dec_cluster_def enc_cluster_def collapse_cluster_def dec_defs)

lemma dec_enc_endpoint: "dec_endpoint (enc_endpoint e) = Some (collapse_endpoint e)"
  using those_map_Some [of "ept_DeviceTypes e" "dec_device_type \<circ> enc_device_type" id]
    those_map_Some [of "ept_Clusters e" "dec_cluster \<circ> enc_cluster" collapse_cluster]
  by (simp add: dec_endpoint_def enc_endpoint_def dec_defs collapse_endpoint_def dec_enc_cluster)

lemma dec_enc_time: "text_laws T \<Longrightarrow> enc_time T t = Some j \<Longrightarrow> \<exists>s. j = JStr s \<and> utf8_Valid s \<and> parse_time T s = Some t"
  by (auto simp: enc_time_def text_laws_def)

lemma dec_enc_fabric: "text_laws T \<Longrightarrow> enc_fabric T f = Some j \<Longrightarrow> dec_fabric T j = Some f"
  by (auto simp: enc_fabric_def dec_fabric_def dec_defs bind_eq_Some_conv dest!: dec_enc_time)

lemma dec_enc_node:
  assumes "text_laws T" and "enc_node T n = Some j"
  shows "dec_node T j = Some (collapse n)"
proof -
  have "those (map (dec_endpoint \<circ> enc_endpoint) (node_Endpoints n)) = Some (map collapse_endpoint (node_Endpoints n))"
    by (rule those_map_Some) (simp add: dec_enc_endpoint)
  with assms show ?thesis
    by (auto simp: enc_node_def dec_node_def dec_defs bind_eq_Some_conv collapse_def dest!: dec_enc_time)
qed

lemma dec_enc_bytes: "text_laws T \<Longrightarrow> field (dec_bytes T) [] k [(k, enc_bytes T bs)] = Some bs"
  by (simp add: enc_bytes_def dec_defs text_laws_def)

lemma dec_enc_resumption: "text_laws T \<Longrightarrow> dec_resumption T (enc_resumption T r) = Some r"
  by (simp add: dec_resumption_def enc_resumption_def dec_defs enc_bytes_def text_laws_def)

subsection \<open>What can be stored\<close>

definition fabric_Valid :: "text_formats \<Rightarrow> Fabric \<Rightarrow> bool" where
  "fabric_Valid T f = (case enc_fabric T f of None \<Rightarrow> False | Some j \<Rightarrow> json_Valid j)"

definition node_Valid :: "text_formats \<Rightarrow> Node \<Rightarrow> bool" where
  "node_Valid T n = (case enc_node T n of None \<Rightarrow> False | Some j \<Rightarrow> json_Valid j)"

lemma resumption_Valid: "text_laws T \<Longrightarrow> json_Valid (enc_resumption T r)"
  by (simp add: enc_resumption_def enc_bytes_def enc_u_def text_laws_def)

lemma parse_print: "text_laws T \<Longrightarrow> json_Valid j \<Longrightarrow> parse_json T (print_json T j) = Some j"
  by (simp add: text_laws_def)

end
