(* ===== verification/Store_Spec.thy ===== *)
theory Store_Spec
  imports Store_Types
begin

text \<open>
  \<^verbatim>\<open>internal/store/store.go\<close>: the interface \<^verbatim>\<open>Store\<close>.  The contract its comments state is given on an
  abstract view of a store (four finite maps): which answers a call may give, and the view after it.
  The locale \<open>store\<close> is the interface; both implementations interpret it.
\<close>

definition ErrNotFound :: err where "ErrNotFound = Sentinel ''not found''"

text \<open>\<^verbatim>\<open>sortNodesByID\<close>: \<^verbatim>\<open>sort.Slice\<close> by the numeric identifier.\<close>

definition sortNodesByID :: "Node list \<Rightarrow> Node list" where
  "sortNodesByID ns = sort_key node_ID ns"

definition fabric_not_found :: "u64 \<Rightarrow> err" where
  "fabric_not_found f = Errorw (''store: fabric '' @ fmt_d (unat f)) ErrNotFound"

definition node_not_found :: "u64 \<Rightarrow> u64 \<Rightarrow> err" where
  "node_not_found f n =
     Errorw (''store: node '' @ fmt_d (unat n) @ '' in fabric '' @ fmt_d (unat f)) ErrNotFound"

definition resumption_not_found :: "u64 \<Rightarrow> err" where
  "resumption_not_found p = Errorw (''store: resumption info for peer '' @ fmt_d (unat p)) ErrNotFound"

text \<open>The message quotes the key (\<^verbatim>\<open>%q\<close>); the quotation is left out.\<close>

definition key_not_found :: err where
  "key_not_found = Errorw ''store: key'' ErrNotFound"

definition nil_fabric :: err where "nil_fabric = Errorf ''store: fabric must not be nil''"

definition nil_node :: err where "nil_node = Errorf ''store: node must not be nil''"

definition nil_resumption :: err where "nil_resumption = Errorf ''store: resumption info must not be nil''"

subsection \<open>Calls, answers and the abstract view\<close>

text \<open>The calls of the interface; a pointer argument may be nil.\<close>

datatype cmd =
    SaveFabric "Fabric option" | GetFabric u64 | ListFabrics | DeleteFabric u64
  | SaveNode u64 "Node option" | GetNode u64 u64 | ListNodes u64 | DeleteNode u64 u64
  | SaveResumptionInfo "ResumptionInfo option" | GetResumptionInfo u64
  | SetKey "byte list" "byte list" | GetKey "byte list"

datatype reply =
    RDone | RErr err | RFabric Fabric | RFabrics "Fabric list" | RNode Node | RNodes "Node list"
  | RResumption ResumptionInfo | RValue "byte list"

record store_view =
  sv_fabrics :: "u64 \<rightharpoonup> Fabric"
  sv_nodes :: "u64 \<times> u64 \<rightharpoonup> Node"
  sv_resume :: "u64 \<rightharpoonup> ResumptionInfo"
  sv_kv :: "byte list \<rightharpoonup> byte list"

definition no_entries :: store_view where
  "no_entries = \<lparr>sv_fabrics = Map.empty, sv_nodes = Map.empty, sv_resume = Map.empty, sv_kv = Map.empty\<rparr>"

definition found :: "err \<Rightarrow> ('a \<Rightarrow> reply) \<Rightarrow> 'a option \<Rightarrow> reply" where
  "found e r x = (case x of None \<Rightarrow> RErr e | Some a \<Rightarrow> r a)"

definition given :: "err \<Rightarrow> 'a option \<Rightarrow> reply" where
  "given e x = (case x of None \<Rightarrow> RErr e | Some a \<Rightarrow> RDone)"

text \<open>
  The answers a call may give on a view.  \<^verbatim>\<open>ListFabrics\<close> promises no order, \<^verbatim>\<open>ListNodes\<close> ascending
  identifiers.
\<close>

fun answers :: "cmd \<Rightarrow> store_view \<Rightarrow> reply \<Rightarrow> bool" where
  "answers (SaveFabric f) v r = (r = given nil_fabric f)"
| "answers (GetFabric i) v r = (r = found (fabric_not_found i) RFabric (sv_fabrics v i))"
| "answers ListFabrics v r =
     (\<exists>fs. r = RFabrics fs \<and> distinct (map fab_ID fs) \<and> set fs = ran (sv_fabrics v))"
| "answers (DeleteFabric i) v r = (r = found (fabric_not_found i) (\<lambda>_. RDone) (sv_fabrics v i))"
| "answers (SaveNode i n) v r =
     (r = (if n = None then RErr nil_node else found (fabric_not_found i) (\<lambda>_. RDone) (sv_fabrics v i)))"
| "answers (GetNode i n) v r = (r = found (node_not_found i n) RNode (sv_nodes v (i, n)))"
| "answers (ListNodes i) v r =
     (if sv_fabrics v i = None then r = RErr (fabric_not_found i)
      else \<exists>ns. r = RNodes ns \<and> sorted (map node_ID ns) \<and> distinct (map node_ID ns)
             \<and> set ns = {m. \<exists>n. sv_nodes v (i, n) = Some m})"
| "answers (DeleteNode i n) v r = (r = found (node_not_found i n) (\<lambda>_. RDone) (sv_nodes v (i, n)))"
| "answers (SaveResumptionInfo x) v r = (r = given nil_resumption x)"
| "answers (GetResumptionInfo p) v r = (r = found (resumption_not_found p) RResumption (sv_resume v p))"
| "answers (SetKey k x) v r = (r = RDone)"
| "answers (GetKey k) v r = (r = found key_not_found RValue (sv_kv v k))"

text \<open>
  The view after a call; \<open>canon\<close> is what the store keeps of a node.
\<close>

fun updates :: "(Node \<Rightarrow> Node) \<Rightarrow> cmd \<Rightarrow> store_view \<Rightarrow> store_view" where
  "updates canon (SaveFabric (Some f)) v = v\<lparr>sv_fabrics := (sv_fabrics v)(fab_ID f \<mapsto> f)\<rparr>"
| "updates canon (DeleteFabric i) v =
     (if sv_fabrics v i = None then v
      else v\<lparr>sv_fabrics := (sv_fabrics v)(i := None),
             sv_nodes := (\<lambda>(j, n). if j = i then None else sv_nodes v (j, n))\<rparr>)"
| "updates canon (SaveNode i (Some n)) v =
     (if sv_fabrics v i = None then v
      else v\<lparr>sv_nodes := (sv_nodes v)((i, node_ID n) \<mapsto> canon (n\<lparr>node_FabricID := i\<rparr>))\<rparr>)"
| "updates canon (DeleteNode i n) v = v\<lparr>sv_nodes := (sv_nodes v)((i, n) := None)\<rparr>"
| "updates canon (SaveResumptionInfo (Some x)) v = v\<lparr>sv_resume := (sv_resume v)(ri_PeerNodeID x \<mapsto> x)\<rparr>"
| "updates canon (SetKey k x) v = v\<lparr>sv_kv := (sv_kv v)(k \<mapsto> x)\<rparr>"
| "updates canon _ v = v"

text \<open>
  The invariant of a view: entries are filed under their own identifiers, and nodes only under a
  fabric that exists.
\<close>

definition keeps_ids :: "(Node \<Rightarrow> Node) \<Rightarrow> bool" where
  "keeps_ids canon \<longleftrightarrow> (\<forall>n. node_ID (canon n) = node_ID n \<and> node_FabricID (canon n) = node_FabricID n)"

definition wf_view :: "store_view \<Rightarrow> bool" where
  "wf_view v \<longleftrightarrow>
     (\<forall>i f. sv_fabrics v i = Some f \<longrightarrow> fab_ID f = i) \<and>
     (\<forall>i n m. sv_nodes v (i, n) = Some m \<longrightarrow> node_ID m = n \<and> node_FabricID m = i \<and> sv_fabrics v i \<noteq> None)"

lemma wf_view_fabric: "wf_view v \<Longrightarrow> sv_fabrics v i = Some f \<Longrightarrow> fab_ID f = i"
  by (auto simp: wf_view_def)

lemma wf_view_node:
  "wf_view v \<Longrightarrow> sv_nodes v (i, n) = Some m \<Longrightarrow> node_ID m = n \<and> node_FabricID m = i \<and> sv_fabrics v i \<noteq> None"
  unfolding wf_view_def by blast

lemma wf_view_empty: "wf_view no_entries"
  by (simp add: wf_view_def no_entries_def)

lemma wf_view_updates:
  assumes "keeps_ids canon" and v: "wf_view v"
  shows "wf_view (updates canon c v)"
proof (cases "(canon, c, v)" rule: updates.cases)
  case (1 canon f v)
  then show ?thesis using v by (auto simp: wf_view_def)
next
  case (2 canon i v)
  then show ?thesis using v by (auto simp: wf_view_def)
next
  case (3 canon i n v)
  then show ?thesis using assms by (auto simp: wf_view_def keeps_ids_def)
qed (use v in \<open>auto simp: wf_view_def\<close>)

subsection \<open>Sequences of calls\<close>

fun run :: "(cmd \<Rightarrow> 's \<Rightarrow> reply \<times> 's) \<Rightarrow> cmd list \<Rightarrow> 's \<Rightarrow> reply list \<times> 's" where
  "run step [] s = ([], s)"
| "run step (c # cs) s = (let (r, s1) = step c s; (rs, s2) = run step cs s1 in (r # rs, s2))"

text \<open>The replies to a sequence of calls are answers the contract allows.\<close>

fun conforms :: "(Node \<Rightarrow> Node) \<Rightarrow> cmd list \<Rightarrow> store_view \<Rightarrow> reply list \<Rightarrow> bool" where
  "conforms canon [] v rs = (rs = [])"
| "conforms canon (c # cs) v rs =
     (case rs of [] \<Rightarrow> False | r # rs \<Rightarrow> answers c v r \<and> conforms canon cs (updates canon c v) rs)"

definition view_after :: "(Node \<Rightarrow> Node) \<Rightarrow> cmd list \<Rightarrow> store_view \<Rightarrow> store_view" where
  "view_after canon cs v = fold (updates canon) cs v"

subsection \<open>The interface\<close>

locale store =
  fixes step :: "cmd \<Rightarrow> 's \<Rightarrow> reply \<times> 's"
    and view :: "'s \<Rightarrow> store_view"
    and ok :: "'s \<Rightarrow> bool"
    and admits :: "cmd \<Rightarrow> bool"
    and canon :: "Node \<Rightarrow> Node"
  assumes canon_ids: "keeps_ids canon"
    and ok_view: "ok s \<Longrightarrow> wf_view (view s)"
    and step_ok: "ok s \<Longrightarrow> admits c \<Longrightarrow> ok (snd (step c s))"
    and step_answers: "ok s \<Longrightarrow> admits c \<Longrightarrow> answers c (view s) (fst (step c s))"
    and step_view: "ok s \<Longrightarrow> admits c \<Longrightarrow> view (snd (step c s)) = updates canon c (view s)"
begin

lemma run_refines:
  "ok s \<Longrightarrow> list_all admits cs \<Longrightarrow>
     ok (snd (run step cs s)) \<and> conforms canon cs (view s) (fst (run step cs s))
     \<and> view (snd (run step cs s)) = view_after canon cs (view s)"
proof (induction cs arbitrary: s)
  case Nil
  then show ?case by (simp add: view_after_def)
next
  case (Cons c cs)
  obtain r s1 where c: "step c s = (r, s1)" by fastforce
  obtain rs s2 where cs: "run step cs s1 = (rs, s2)" by fastforce
  have "ok s1" "answers c (view s) r" "view s1 = updates canon c (view s)"
    using Cons.prems c step_ok [of s c] step_answers [of s c] step_view [of s c] by simp_all
  with Cons.prems c cs Cons.IH [of s1] show ?case by (simp add: view_after_def)
qed

lemma saved_node_is_found:
  assumes "ok s" and "admits (SaveNode i (Some n))" and "admits (GetNode i (node_ID n))"
    and reply: "fst (step (SaveNode i (Some n)) s) = RDone"
  shows "fst (step (GetNode i (node_ID n)) (snd (step (SaveNode i (Some n)) s)))
    = RNode (canon (n\<lparr>node_FabricID := i\<rparr>))"
proof -
  obtain g where "sv_fabrics (view s) i = Some g"
    using step_answers [OF assms(1,2)] reply by (auto simp: found_def split: option.splits)
  then show ?thesis
    using step_answers [OF step_ok [OF assms(1,2)] assms(3)] step_view [OF assms(1,2)]
    by (simp add: found_def)
qed

lemma deleted_fabric_forgets_nodes:
  assumes "ok s" and "admits (DeleteFabric i)" and "admits (SaveFabric (Some f))" and "admits (GetNode i n)"
    and "fab_ID f = i" and reply: "fst (step (DeleteFabric i) s) = RDone"
  shows "fst (step (GetNode i n) (snd (step (SaveFabric (Some f)) (snd (step (DeleteFabric i) s)))))
    = RErr (node_not_found i n)"
proof -
  obtain g where "sv_fabrics (view s) i = Some g"
    using step_answers [OF assms(1,2)] reply by (auto simp: found_def split: option.splits)
  then show ?thesis
    using step_answers [OF step_ok [OF step_ok [OF assms(1,2)] assms(3)] assms(4)]
      step_view [OF step_ok [OF assms(1,2)] assms(3)] step_view [OF assms(1,2)]
    by (simp add: found_def)
qed

end

end
