(* ===== verification/Store_Memory.thy ===== *)
theory Store_Memory
  imports Store_Spec
begin

text \<open>
  \<^verbatim>\<open>internal/store/memory.go\<close>: the in-memory store, one map per kind of entry and a map of maps for
  the nodes.  Go visits the keys of a map in an order of the runtime's choice: \<open>ord\<close> makes it, and
  \<open>visits ord\<close> is what the language promises of it.  Entries are copied in and out by value; the
  arrays behind the slices of a node, which the shallow copy shares with the caller, are taken not to
  be written to.
\<close>

record MemoryStore =
  ms_fabrics :: "u64 \<rightharpoonup> Fabric"
  ms_nodes :: "u64 \<rightharpoonup> (u64 \<rightharpoonup> Node)"
  ms_resume :: "u64 \<rightharpoonup> ResumptionInfo"
  ms_kv :: "byte list \<rightharpoonup> byte list"
  ms_closed :: bool

definition visits :: "(u64 set \<Rightarrow> u64 list) \<Rightarrow> bool" where
  "visits ord \<longleftrightarrow> (\<forall>S. set (ord S) = S \<and> distinct (ord S))"

definition NewMemoryStore :: MemoryStore where
  "NewMemoryStore = \<lparr>ms_fabrics = Map.empty, ms_nodes = Map.empty, ms_resume = Map.empty,
     ms_kv = Map.empty, ms_closed = False\<rparr>"

subsection \<open>Operations\<close>

definition M_SaveFabric :: "Fabric option \<Rightarrow> MemoryStore \<Rightarrow> MemoryStore \<times> err option" where
  "M_SaveFabric fabric m =
     (case fabric of
        None \<Rightarrow> (m, Some nil_fabric)
      | Some cp \<Rightarrow> (m\<lparr>ms_fabrics := (ms_fabrics m)(fab_ID cp \<mapsto> cp)\<rparr>, None))"

definition M_GetFabric :: "u64 \<Rightarrow> MemoryStore \<Rightarrow> Fabric res" where
  "M_GetFabric fabricID m =
     (case ms_fabrics m fabricID of None \<Rightarrow> Err (fabric_not_found fabricID) | Some f \<Rightarrow> Ok f)"

definition M_ListFabrics :: "(u64 set \<Rightarrow> u64 list) \<Rightarrow> MemoryStore \<Rightarrow> Fabric list" where
  "M_ListFabrics ord m = map (\<lambda>i. the (ms_fabrics m i)) (ord (dom (ms_fabrics m)))"

definition M_DeleteFabric :: "u64 \<Rightarrow> MemoryStore \<Rightarrow> MemoryStore \<times> err option" where
  "M_DeleteFabric fabricID m =
     (if ms_fabrics m fabricID = None then (m, Some (fabric_not_found fabricID))
      else (m\<lparr>ms_fabrics := (ms_fabrics m)(fabricID := None), ms_nodes := (ms_nodes m)(fabricID := None)\<rparr>, None))"

definition M_SaveNode :: "u64 \<Rightarrow> Node option \<Rightarrow> MemoryStore \<Rightarrow> MemoryStore \<times> err option" where
  "M_SaveNode fabricID node m =
     (case node of
        None \<Rightarrow> (m, Some nil_node)
      | Some node \<Rightarrow>
          if ms_fabrics m fabricID = None then (m, Some (fabric_not_found fabricID))
          else
            let nodes = (case ms_nodes m fabricID of None \<Rightarrow> Map.empty | Some ns \<Rightarrow> ns);
                cp = node\<lparr>node_FabricID := fabricID\<rparr>
            in (m\<lparr>ms_nodes := (ms_nodes m)(fabricID \<mapsto> nodes(node_ID cp \<mapsto> cp))\<rparr>, None))"

definition M_GetNode :: "u64 \<Rightarrow> u64 \<Rightarrow> MemoryStore \<Rightarrow> Node res" where
  "M_GetNode fabricID nodeID m =
     (case ms_nodes m fabricID of
        None \<Rightarrow> Err (node_not_found fabricID nodeID)
      | Some nodes \<Rightarrow> (case nodes nodeID of None \<Rightarrow> Err (node_not_found fabricID nodeID) | Some n \<Rightarrow> Ok n))"

definition M_ListNodes :: "(u64 set \<Rightarrow> u64 list) \<Rightarrow> u64 \<Rightarrow> MemoryStore \<Rightarrow> Node list res" where
  "M_ListNodes ord fabricID m =
     (if ms_fabrics m fabricID = None then Err (fabric_not_found fabricID)
      else
        let nodes = (case ms_nodes m fabricID of None \<Rightarrow> Map.empty | Some ns \<Rightarrow> ns)
        in Ok (sortNodesByID (map (\<lambda>i. the (nodes i)) (ord (dom nodes)))))"

definition M_DeleteNode :: "u64 \<Rightarrow> u64 \<Rightarrow> MemoryStore \<Rightarrow> MemoryStore \<times> err option" where
  "M_DeleteNode fabricID nodeID m =
     (case ms_nodes m fabricID of
        None \<Rightarrow> (m, Some (node_not_found fabricID nodeID))
      | Some nodes \<Rightarrow>
          if nodes nodeID = None then (m, Some (node_not_found fabricID nodeID))
          else (m\<lparr>ms_nodes := (ms_nodes m)(fabricID \<mapsto> nodes(nodeID := None))\<rparr>, None))"

definition M_SaveResumptionInfo :: "ResumptionInfo option \<Rightarrow> MemoryStore \<Rightarrow> MemoryStore \<times> err option" where
  "M_SaveResumptionInfo info m =
     (case info of
        None \<Rightarrow> (m, Some nil_resumption)
      | Some cp \<Rightarrow> (m\<lparr>ms_resume := (ms_resume m)(ri_PeerNodeID cp \<mapsto> cp)\<rparr>, None))"

definition M_GetResumptionInfo :: "u64 \<Rightarrow> MemoryStore \<Rightarrow> ResumptionInfo res" where
  "M_GetResumptionInfo peer m =
     (case ms_resume m peer of None \<Rightarrow> Err (resumption_not_found peer) | Some info \<Rightarrow> Ok info)"

definition M_Set :: "byte list \<Rightarrow> byte list \<Rightarrow> MemoryStore \<Rightarrow> MemoryStore \<times> err option" where
  "M_Set key value m = (m\<lparr>ms_kv := (ms_kv m)(key \<mapsto> value)\<rparr>, None)"

definition M_Get :: "byte list \<Rightarrow> MemoryStore \<Rightarrow> byte list res" where
  "M_Get key m = (case ms_kv m key of None \<Rightarrow> Err key_not_found | Some v \<Rightarrow> Ok v)"

definition M_Close :: "MemoryStore \<Rightarrow> MemoryStore \<times> err option" where
  "M_Close m = (m\<lparr>ms_closed := True\<rparr>, None)"

subsection \<open>The calls of the interface\<close>

fun of_err :: "'s \<times> err option \<Rightarrow> reply \<times> 's" where
  "of_err (s, None) = (RDone, s)"
| "of_err (s, Some e) = (RErr e, s)"

fun of_res :: "('a \<Rightarrow> reply) \<Rightarrow> 's \<Rightarrow> 'a res \<Rightarrow> reply \<times> 's" where
  "of_res r s (Ok a) = (r a, s)"
| "of_res r s (Err e) = (RErr e, s)"
| "of_res r s Panic = (RErr (Errorf ''panic''), s)"

fun memory_step :: "(u64 set \<Rightarrow> u64 list) \<Rightarrow> cmd \<Rightarrow> MemoryStore \<Rightarrow> reply \<times> MemoryStore" where
  "memory_step ord (SaveFabric f) m = of_err (M_SaveFabric f m)"
| "memory_step ord (GetFabric i) m = of_res RFabric m (M_GetFabric i m)"
| "memory_step ord ListFabrics m = (RFabrics (M_ListFabrics ord m), m)"
| "memory_step ord (DeleteFabric i) m = of_err (M_DeleteFabric i m)"
| "memory_step ord (SaveNode i n) m = of_err (M_SaveNode i n m)"
| "memory_step ord (GetNode i n) m = of_res RNode m (M_GetNode i n m)"
| "memory_step ord (ListNodes i) m = of_res RNodes m (M_ListNodes ord i m)"
| "memory_step ord (DeleteNode i n) m = of_err (M_DeleteNode i n m)"
| "memory_step ord (SaveResumptionInfo x) m = of_err (M_SaveResumptionInfo x m)"
| "memory_step ord (GetResumptionInfo p) m = of_res RResumption m (M_GetResumptionInfo p m)"
| "memory_step ord (SetKey k x) m = of_err (M_Set k x m)"
| "memory_step ord (GetKey k) m = of_res RValue m (M_Get k m)"

definition memory_view :: "MemoryStore \<Rightarrow> store_view" where
  "memory_view m = \<lparr>sv_fabrics = ms_fabrics m,
     sv_nodes = (\<lambda>(i, n). case ms_nodes m i of None \<Rightarrow> None | Some ns \<Rightarrow> ns n),
     sv_resume = ms_resume m, sv_kv = ms_kv m\<rparr>"

text \<open>The invariant of the maps.\<close>

definition memory_ok :: "MemoryStore \<Rightarrow> bool" where
  "memory_ok m \<longleftrightarrow> wf_view (memory_view m)"

lemmas memory_defs = M_SaveFabric_def M_GetFabric_def M_DeleteFabric_def M_SaveNode_def M_GetNode_def
  M_DeleteNode_def M_SaveResumptionInfo_def M_GetResumptionInfo_def M_Set_def M_Get_def
  memory_view_def found_def given_def

subsection \<open>The contract holds\<close>

lemma sorted_distinct_strict:
  "distinct (map f xs) \<Longrightarrow> distinct (map f (sort_key f xs))"
  by (simp add: distinct_map)

lemma listed_entries:
  assumes "visits ord" and "\<And>i x. m i = Some x \<Longrightarrow> key x = i"
  defines "xs \<equiv> map (\<lambda>i. the (m i)) (ord (dom m))"
  shows "distinct (map key xs)" and "set xs = ran m"
proof -
  have o: "set (ord (dom m)) = dom m" "distinct (ord (dom m))" using assms(1) by (auto simp: visits_def)
  have "map key xs = map id (ord (dom m))"
    unfolding xs_def map_map by (rule map_cong [OF refl]) (use assms(2) o in auto)
  then show "distinct (map key xs)" using o by simp
  show "set xs = ran m" using o by (auto simp: xs_def ran_def intro: rev_image_eqI)
qed

lemma memory_step_view:
  assumes "memory_ok m"
  shows "memory_view (snd (memory_step ord c m)) = updates (\<lambda>n. n) c (memory_view m)"
proof (cases c)
  case (DeleteNode i n)
  then show ?thesis
    by (auto simp: memory_defs fun_eq_iff split: option.splits)
qed (auto simp: memory_defs M_ListNodes_def Let_def fun_eq_iff split: option.splits)

lemma memory_step_answers:
  assumes "visits ord" and ok: "memory_ok m"
  shows "answers c (memory_view m) (fst (memory_step ord c m))"
proof (cases c)
  case ListFabrics
  have ids: "\<And>i f. ms_fabrics m i = Some f \<Longrightarrow> fab_ID f = i"
    using ok by (auto simp: memory_ok_def wf_view_def memory_view_def)
  from listed_entries [OF assms(1), where m = "ms_fabrics m" and key = fab_ID, OF ids] ListFabrics
  show ?thesis by (simp add: M_ListFabrics_def memory_view_def)
next
  case (ListNodes i)
  let ?ns = "case ms_nodes m i of None \<Rightarrow> Map.empty | Some ns \<Rightarrow> ns"
  have view: "sv_nodes (memory_view m) (i, n) = ?ns n" for n
    by (simp add: memory_view_def split: option.splits)
  have "\<And>n x. ?ns n = Some x \<Longrightarrow> node_ID x = n"
    using ok view by (metis memory_ok_def wf_view_node)
  note l = listed_entries [OF assms(1), of ?ns node_ID, OF this]
  have "set (map (\<lambda>i. the (?ns i)) (ord (dom ?ns))) = {x. \<exists>n. sv_nodes (memory_view m) (i, n) = Some x}"
    using l(2) by (simp add: view ran_def)
  with l(1) ListNodes show ?thesis
    by (auto simp: M_ListNodes_def sortNodesByID_def memory_view_def Let_def sorted_distinct_strict
        simp del: distinct_map)
next
  case (SaveNode i n)
  then show ?thesis by (auto simp: memory_defs Let_def split: option.splits)
qed (auto simp: memory_defs split: option.splits)

lemma memory_store: "visits ord \<Longrightarrow> store (memory_step ord) memory_view memory_ok (\<lambda>c. True) (\<lambda>n. n)"
proof
  fix m c assume ord: "visits ord" and ok: "memory_ok m"
  show "memory_view (snd (memory_step ord c m)) = updates (\<lambda>n. n) c (memory_view m)"
    by (rule memory_step_view [OF ok])
  then show "memory_ok (snd (memory_step ord c m))"
    using ok by (simp add: memory_ok_def wf_view_updates keeps_ids_def)
  show "answers c (memory_view m) (fst (memory_step ord c m))"
    by (rule memory_step_answers [OF ord ok])
  show "wf_view (memory_view m)" using ok by (simp add: memory_ok_def)
qed (simp add: keeps_ids_def)

definition sorted_order :: "u64 set \<Rightarrow> u64 list" where "sorted_order S = sorted_list_of_set S"

lemma visits_sorted_order: "visits sorted_order"
  by (simp add: visits_def sorted_order_def)

interpretation memory: store "memory_step sorted_order" memory_view memory_ok "\<lambda>c. True" "\<lambda>n. n"
  by (rule memory_store [OF visits_sorted_order])

lemma memory_new: "memory_ok NewMemoryStore" "memory_view NewMemoryStore = no_entries"
  by (simp_all add: memory_ok_def memory_view_def NewMemoryStore_def no_entries_def wf_view_def fun_eq_iff)

end
