(* ===== verification/Store_Bolt.thy ===== *)
theory Store_Bolt
  imports Store_Memory
begin

text \<open>
  \<^verbatim>\<open>internal/store/bolt.go\<close>: the persistent store on a bbolt database.  bbolt is third-party code:
  its database state is a type variable, its calls are the parameter \<open>'db bolt\<close>, and \<open>bolt_laws\<close> is
  what its documentation promises of them on a set \<open>H\<close> of states in which the database is open and
  the disk accepts writes.  A bucket is named by its path from the root.
\<close>

type_synonym path = "byte list list"

record 'db bolt =
  bo_begin :: "'db \<Rightarrow> err option"
  bo_commit :: "'db \<Rightarrow> err option"
  bo_accepts :: "byte list \<Rightarrow> byte list \<Rightarrow> bool"
  bo_Bucket :: "'db \<Rightarrow> path \<Rightarrow> bool"
  bo_Get :: "'db \<Rightarrow> path \<Rightarrow> byte list \<Rightarrow> byte list option"
  bo_Put :: "'db \<Rightarrow> path \<Rightarrow> byte list \<Rightarrow> byte list \<Rightarrow> 'db \<times> err option"
  bo_Delete :: "'db \<Rightarrow> path \<Rightarrow> byte list \<Rightarrow> 'db \<times> err option"
  bo_CreateBucketIfNotExists :: "'db \<Rightarrow> path \<Rightarrow> 'db \<times> err option"
  bo_DeleteBucket :: "'db \<Rightarrow> path \<Rightarrow> 'db \<times> err option"
  bo_ForEach :: "'db \<Rightarrow> path \<Rightarrow> (byte list \<times> byte list) list"

text \<open>
  The documented behaviour: \<^verbatim>\<open>Put\<close> takes a key and a value within the size limits (and not an empty
  key) unless the key names a nested bucket, and changes that entry only; \<^verbatim>\<open>ForEach\<close> visits every
  entry once.
\<close>

definition put_law :: "'db bolt \<Rightarrow> ('db \<Rightarrow> bool) \<Rightarrow> 'db \<Rightarrow> bool" where
  "put_law B H db \<longleftrightarrow> (\<forall>p k v. bo_Bucket B db p \<and> \<not> bo_Bucket B db (p @ [k]) \<and> bo_accepts B k v \<longrightarrow>
     (\<exists>db'. bo_Put B db p k v = (db', None) \<and> H db' \<and> bo_Bucket B db' = bo_Bucket B db \<and>
        bo_Get B db' = (bo_Get B db)(p := (bo_Get B db p)(k := Some v))))"

definition delete_law :: "'db bolt \<Rightarrow> ('db \<Rightarrow> bool) \<Rightarrow> 'db \<Rightarrow> bool" where
  "delete_law B H db \<longleftrightarrow> (\<forall>p k. bo_Bucket B db p \<and> \<not> bo_Bucket B db (p @ [k]) \<longrightarrow>
     (\<exists>db'. bo_Delete B db p k = (db', None) \<and> H db' \<and> bo_Bucket B db' = bo_Bucket B db \<and>
        bo_Get B db' = (bo_Get B db)(p := (bo_Get B db p)(k := None))))"

text \<open>The name of a bucket is a key: not empty, and not too long.\<close>

definition bucket_name :: "byte list \<Rightarrow> bool" where
  "bucket_name k \<longleftrightarrow> k \<noteq> [] \<and> length k \<le> 32768"

definition create_law :: "'db bolt \<Rightarrow> ('db \<Rightarrow> bool) \<Rightarrow> 'db \<Rightarrow> bool" where
  "create_law B H db \<longleftrightarrow>
     (\<forall>p k. (p = [] \<or> bo_Bucket B db p) \<and> bucket_name k \<and> bo_Get B db p k = None \<longrightarrow>
        (\<exists>db'. bo_CreateBucketIfNotExists B db (p @ [k]) = (db', None) \<and> H db' \<and>
           bo_Bucket B db' = (bo_Bucket B db)(p @ [k] := True) \<and> bo_Get B db' = bo_Get B db))"

definition delete_bucket_law :: "'db bolt \<Rightarrow> ('db \<Rightarrow> bool) \<Rightarrow> 'db \<Rightarrow> bool" where
  "delete_bucket_law B H db \<longleftrightarrow> (\<forall>p. bo_Bucket B db p \<longrightarrow>
     (\<exists>db'. bo_DeleteBucket B db p = (db', None) \<and> H db' \<and>
        bo_Bucket B db' = (\<lambda>q. bo_Bucket B db q \<and> \<not> prefix p q) \<and>
        bo_Get B db' = (\<lambda>q. if prefix p q then Map.empty else bo_Get B db q)))"

definition for_each_law :: "'db bolt \<Rightarrow> 'db \<Rightarrow> bool" where
  "for_each_law B db \<longleftrightarrow> (\<forall>p. bo_Bucket B db p \<and> (\<forall>k. \<not> bo_Bucket B db (p @ [k])) \<longrightarrow>
     distinct (map fst (bo_ForEach B db p)) \<and>
     set (bo_ForEach B db p) = {(k, v). bo_Get B db p k = Some v})"

definition bolt_laws :: "'db bolt \<Rightarrow> ('db \<Rightarrow> bool) \<Rightarrow> bool" where
  "bolt_laws B H \<longleftrightarrow> (\<forall>db. H db \<longrightarrow>
     bo_begin B db = None \<and> bo_commit B db = None \<and>
     (\<forall>p k. \<not> bo_Bucket B db p \<longrightarrow> bo_Get B db p k = None) \<and>
     put_law B H db \<and> delete_law B H db \<and> create_law B H db \<and> delete_bucket_law B H db \<and>
     for_each_law B db)"

lemma bolt_lawsD:
  assumes "bolt_laws B H" and "H db"
  shows bo_begin: "bo_begin B db = None" and bo_commit: "bo_commit B db = None"
    and bo_missing: "\<not> bo_Bucket B db p \<Longrightarrow> bo_Get B db p k = None"
    and bo_put: "put_law B H db" and bo_delete: "delete_law B H db" and bo_create: "create_law B H db"
    and bo_delete_bucket: "delete_bucket_law B H db" and bo_for_each: "for_each_law B db"
  using assms by (simp_all add: bolt_laws_def)

lemma bo_Put:
  assumes "bolt_laws B H" and "H db" and "bo_Bucket B db p" and "\<not> bo_Bucket B db (p @ [k])" and "bo_accepts B k v"
  obtains db' where "bo_Put B db p k v = (db', None)" and "H db'" and "bo_Bucket B db' = bo_Bucket B db"
    and "bo_Get B db' = (bo_Get B db)(p := (bo_Get B db p)(k := Some v))"
  using bo_put [OF assms(1,2)] assms(3-) unfolding put_law_def by blast

lemma bo_Delete:
  assumes "bolt_laws B H" and "H db" and "bo_Bucket B db p" and "\<not> bo_Bucket B db (p @ [k])"
  obtains db' where "bo_Delete B db p k = (db', None)" and "H db'" and "bo_Bucket B db' = bo_Bucket B db"
    and "bo_Get B db' = (bo_Get B db)(p := (bo_Get B db p)(k := None))"
  using bo_delete [OF assms(1,2)] assms(3-) unfolding delete_law_def by blast

lemma bo_Create:
  assumes "bolt_laws B H" and "H db" and "p = [] \<or> bo_Bucket B db p" and "bucket_name k" and "bo_Get B db p k = None"
  obtains db' where "bo_CreateBucketIfNotExists B db (p @ [k]) = (db', None)" and "H db'"
    and "bo_Bucket B db' = (bo_Bucket B db)(p @ [k] := True)" and "bo_Get B db' = bo_Get B db"
  using bo_create [OF assms(1,2)] assms(3-) unfolding create_law_def by blast

lemma bo_DeleteBucket:
  assumes "bolt_laws B H" and "H db" and "bo_Bucket B db p"
  obtains db' where "bo_DeleteBucket B db p = (db', None)" and "H db'"
    and "bo_Bucket B db' = (\<lambda>q. bo_Bucket B db q \<and> \<not> prefix p q)"
    and "bo_Get B db' = (\<lambda>q. if prefix p q then Map.empty else bo_Get B db q)"
  using bo_delete_bucket [OF assms(1,2)] assms(3-) unfolding delete_bucket_law_def by blast

lemma bo_ForEach:
  assumes "bolt_laws B H" and "H db" and "bo_Bucket B db p" and "\<And>k. \<not> bo_Bucket B db (p @ [k])"
  shows "distinct (map fst (bo_ForEach B db p))"
    and "set (bo_ForEach B db p) = {(k, v). bo_Get B db p k = Some v}"
  using bo_for_each [OF assms(1,2)] assms(3-) unfolding for_each_law_def by blast+

text \<open>
  \<^verbatim>\<open>db.Update\<close> commits the changes of its function, unless it fails; \<^verbatim>\<open>db.View\<close> only reads.
\<close>

definition db_Update :: "'db bolt \<Rightarrow> ('db \<Rightarrow> 'db \<times> err option) \<Rightarrow> 'db \<Rightarrow> 'db \<times> err option" where
  "db_Update B fn db =
     (case bo_begin B db of
        Some e \<Rightarrow> (db, Some e)
      | None \<Rightarrow> (case fn db of
          (_, Some e) \<Rightarrow> (db, Some e)
        | (db', None) \<Rightarrow> (case bo_commit B db' of Some e \<Rightarrow> (db, Some e) | None \<Rightarrow> (db', None))))"

definition db_View :: "'db bolt \<Rightarrow> ('db \<Rightarrow> 'a res) \<Rightarrow> 'db \<Rightarrow> 'a res" where
  "db_View B fn db = (case bo_begin B db of Some e \<Rightarrow> Err e | None \<Rightarrow> fn db)"

lemma db_Update_ok:
  "bolt_laws B H \<Longrightarrow> H db \<Longrightarrow> fn db = (db', None) \<Longrightarrow> H db' \<Longrightarrow> db_Update B fn db = (db', None)"
  by (simp add: db_Update_def bo_begin bo_commit)

lemma db_Update_err:
  "bolt_laws B H \<Longrightarrow> H db \<Longrightarrow> fn db = (db', Some e) \<Longrightarrow> db_Update B fn db = (db, Some e)"
  by (simp add: db_Update_def bo_begin)

lemma db_View_ok: "bolt_laws B H \<Longrightarrow> H db \<Longrightarrow> db_View B fn db = fn db"
  by (simp add: db_View_def bo_begin)

subsection \<open>Keys and values\<close>

definition bucketFabrics :: "byte list" where "bucketFabrics = bytes_of_string ''fabrics''"

definition bucketNodes :: "byte list" where "bucketNodes = bytes_of_string ''nodes''"

definition bucketResumption :: "byte list" where "bucketResumption = bytes_of_string ''resumption''"

definition bucketKV :: "byte list" where "bucketKV = bytes_of_string ''kv''"

definition fabricKey :: "u64 \<Rightarrow> byte list" where
  "fabricKey i = bytes_of_string (fmt_d (unat i))"

lemma length_decimal: "n < 10 ^ Suc d \<Longrightarrow> length (fmt_d n) \<le> Suc d"
proof (induction d arbitrary: n)
  case (Suc d)
  then have "n div 10 < 10 ^ Suc d" by simp
  with Suc.IH show ?case by (subst fmt_d.simps) simp
qed (simp add: fmt_d.simps)

lemma bucket_name_fabricKey: "bucket_name (fabricKey i)"
proof -
  have "unat i < 2 ^ 64" using unsigned_less [of i] by simp
  then have "length (fmt_d (unat i)) \<le> Suc 19" by (intro length_decimal) simp
  moreover have "fmt_d n \<noteq> []" for n by (subst fmt_d.simps) simp
  ultimately show ?thesis by (simp add: bucket_name_def fabricKey_def bytes_of_string_def)
qed

definition nodeKey :: "u64 \<Rightarrow> byte list" where
  "nodeKey i = bytes_of_string (fmt_d (unat i))"

text \<open>The error values of \<^verbatim>\<open>encoding/json\<close>.\<close>

definition json_Marshal_error :: err where "json_Marshal_error = Sentinel ''json: cannot marshal''"

definition json_Unmarshal_error :: err where "json_Unmarshal_error = Sentinel ''json: cannot unmarshal''"

definition json_Marshal :: "text_formats \<Rightarrow> json option \<Rightarrow> byte list option" where
  "json_Marshal T j = map_option (print_json T) j"

definition json_Unmarshal :: "text_formats \<Rightarrow> (json \<Rightarrow> 'a option) \<Rightarrow> byte list \<Rightarrow> 'a res" where
  "json_Unmarshal T dec d =
     (case Option.bind (parse_json T d) dec of None \<Rightarrow> Err json_Unmarshal_error | Some x \<Rightarrow> Ok x)"

subsection \<open>Operations\<close>

text \<open>\<^verbatim>\<open>newBoltStore\<close> on the opened database: the top-level buckets.\<close>

fun create_buckets :: "'db bolt \<Rightarrow> byte list list \<Rightarrow> 'db \<Rightarrow> 'db \<times> err option" where
  "create_buckets B [] db = (db, None)"
| "create_buckets B (b # bs) db = and_then (bo_CreateBucketIfNotExists B db [b]) (create_buckets B bs)"

definition newBoltStore :: "'db bolt \<Rightarrow> 'db \<Rightarrow> 'db \<times> err option" where
  "newBoltStore B db =
     wrap_err ''store: init buckets''
       (db_Update B (create_buckets B [bucketFabrics, bucketNodes, bucketResumption, bucketKV]) db)"

definition B_SaveFabric :: "'db bolt \<Rightarrow> text_formats \<Rightarrow> Fabric option \<Rightarrow> 'db \<Rightarrow> 'db \<times> err option" where
  "B_SaveFabric B T fabric db =
     (case fabric of
        None \<Rightarrow> (db, Some nil_fabric)
      | Some f \<Rightarrow> (case json_Marshal T (enc_fabric T f) of
          Some data \<Rightarrow> db_Update B (\<lambda>db. bo_Put B db [bucketFabrics] (fabricKey (fab_ID f)) data) db
        | None \<Rightarrow> (db, Some (Errorw ''store: marshal fabric'' json_Marshal_error))))"

definition B_GetFabric :: "'db bolt \<Rightarrow> text_formats \<Rightarrow> u64 \<Rightarrow> 'db \<Rightarrow> Fabric res" where
  "B_GetFabric B T fabricID db = db_View B (\<lambda>db.
     case bo_Get B db [bucketFabrics] (fabricKey fabricID) of
       None \<Rightarrow> Err (fabric_not_found fabricID)
     | Some data \<Rightarrow> json_Unmarshal T (dec_fabric T) data) db"

text \<open>The loop of the two listing operations.\<close>

fun decode_all :: "string \<Rightarrow> text_formats \<Rightarrow> (json \<Rightarrow> 'a option) \<Rightarrow> (byte list \<times> byte list) list \<Rightarrow> 'a list res" where
  "decode_all what T dec [] = Ok []"
| "decode_all what T dec ((k, v) # kvs) =
     (case json_Unmarshal T dec v of
        Ok f \<Rightarrow> bind_res (decode_all what T dec kvs) (\<lambda>out. Ok (f # out))
      | Err e \<Rightarrow> Err (Errorw what e)
      | Panic \<Rightarrow> Panic)"

definition B_ListFabrics :: "'db bolt \<Rightarrow> text_formats \<Rightarrow> 'db \<Rightarrow> Fabric list res" where
  "B_ListFabrics B T db = db_View B (\<lambda>db.
     decode_all ''store: unmarshal fabric'' T (dec_fabric T) (bo_ForEach B db [bucketFabrics])) db"

definition B_DeleteFabric :: "'db bolt \<Rightarrow> u64 \<Rightarrow> 'db \<Rightarrow> 'db \<times> err option" where
  "B_DeleteFabric B fabricID db = db_Update B (\<lambda>db.
     let key = fabricKey fabricID in
     if bo_Get B db [bucketFabrics] key = None then (db, Some (fabric_not_found fabricID))
     else and_then (bo_Delete B db [bucketFabrics] key)
       (\<lambda>db. if bo_Bucket B db [bucketNodes, key] then bo_DeleteBucket B db [bucketNodes, key] else (db, None))) db"

text \<open>The first component is the caller's node, whose fabric identifier is overwritten.\<close>

definition B_SaveNode ::
  "'db bolt \<Rightarrow> text_formats \<Rightarrow> u64 \<Rightarrow> Node option \<Rightarrow> 'db \<Rightarrow> Node option \<times> ('db \<times> err option)" where
  "B_SaveNode B T fabricID node db =
     (case node of
        None \<Rightarrow> (None, (db, Some nil_node))
      | Some n \<Rightarrow>
          let n = n\<lparr>node_FabricID := fabricID\<rparr> in
          (Some n,
           case json_Marshal T (enc_node T n) of
             Some data \<Rightarrow> db_Update B (\<lambda>db.
               if bo_Get B db [bucketFabrics] (fabricKey fabricID) = None then (db, Some (fabric_not_found fabricID))
               else and_then
                 (wrap_err ''store: create node sub-bucket'' (bo_CreateBucketIfNotExists B db [bucketNodes, fabricKey fabricID]))
                 (\<lambda>db. bo_Put B db [bucketNodes, fabricKey fabricID] (nodeKey (node_ID n)) data)) db
           | None \<Rightarrow> (db, Some (Errorw ''store: marshal node'' json_Marshal_error))))"

definition B_GetNode :: "'db bolt \<Rightarrow> text_formats \<Rightarrow> u64 \<Rightarrow> u64 \<Rightarrow> 'db \<Rightarrow> Node res" where
  "B_GetNode B T fabricID nodeID db = db_View B (\<lambda>db.
     if \<not> bo_Bucket B db [bucketNodes, fabricKey fabricID] then Err (node_not_found fabricID nodeID)
     else case bo_Get B db [bucketNodes, fabricKey fabricID] (nodeKey nodeID) of
       None \<Rightarrow> Err (node_not_found fabricID nodeID)
     | Some data \<Rightarrow> json_Unmarshal T (dec_node T) data) db"

definition B_ListNodes :: "'db bolt \<Rightarrow> text_formats \<Rightarrow> u64 \<Rightarrow> 'db \<Rightarrow> Node list res" where
  "B_ListNodes B T fabricID db =
     bind_res (db_View B (\<lambda>db.
       if bo_Get B db [bucketFabrics] (fabricKey fabricID) = None then Err (fabric_not_found fabricID)
       else if \<not> bo_Bucket B db [bucketNodes, fabricKey fabricID] then Ok []
       else decode_all ''store: unmarshal node'' T (dec_node T) (bo_ForEach B db [bucketNodes, fabricKey fabricID])) db)
     (\<lambda>out. Ok (sortNodesByID out))"

definition B_DeleteNode :: "'db bolt \<Rightarrow> u64 \<Rightarrow> u64 \<Rightarrow> 'db \<Rightarrow> 'db \<times> err option" where
  "B_DeleteNode B fabricID nodeID db = db_Update B (\<lambda>db.
     if \<not> bo_Bucket B db [bucketNodes, fabricKey fabricID] then (db, Some (node_not_found fabricID nodeID))
     else if bo_Get B db [bucketNodes, fabricKey fabricID] (nodeKey nodeID) = None
     then (db, Some (node_not_found fabricID nodeID))
     else bo_Delete B db [bucketNodes, fabricKey fabricID] (nodeKey nodeID)) db"

definition B_SaveResumptionInfo ::
  "'db bolt \<Rightarrow> text_formats \<Rightarrow> ResumptionInfo option \<Rightarrow> 'db \<Rightarrow> 'db \<times> err option" where
  "B_SaveResumptionInfo B T info db =
     (case info of
        None \<Rightarrow> (db, Some nil_resumption)
      | Some r \<Rightarrow> (case json_Marshal T (Some (enc_resumption T r)) of
          Some data \<Rightarrow> db_Update B (\<lambda>db. bo_Put B db [bucketResumption] (fabricKey (ri_PeerNodeID r)) data) db
        | None \<Rightarrow> (db, Some (Errorw ''store: marshal resumption info'' json_Marshal_error))))"

definition B_GetResumptionInfo :: "'db bolt \<Rightarrow> text_formats \<Rightarrow> u64 \<Rightarrow> 'db \<Rightarrow> ResumptionInfo res" where
  "B_GetResumptionInfo B T peer db = db_View B (\<lambda>db.
     case bo_Get B db [bucketResumption] (fabricKey peer) of
       None \<Rightarrow> Err (resumption_not_found peer)
     | Some data \<Rightarrow> json_Unmarshal T (dec_resumption T) data) db"

definition B_Set :: "'db bolt \<Rightarrow> byte list \<Rightarrow> byte list \<Rightarrow> 'db \<Rightarrow> 'db \<times> err option" where
  "B_Set B key value db = db_Update B (\<lambda>db. bo_Put B db [bucketKV] key value) db"

definition B_Get :: "'db bolt \<Rightarrow> byte list \<Rightarrow> 'db \<Rightarrow> byte list res" where
  "B_Get B key db = db_View B (\<lambda>db.
     case bo_Get B db [bucketKV] key of None \<Rightarrow> Err key_not_found | Some data \<Rightarrow> Ok data) db"

fun bolt_step :: "'db bolt \<Rightarrow> text_formats \<Rightarrow> cmd \<Rightarrow> 'db \<Rightarrow> reply \<times> 'db" where
  "bolt_step B T (SaveFabric f) db = of_err (B_SaveFabric B T f db)"
| "bolt_step B T (GetFabric i) db = of_res RFabric db (B_GetFabric B T i db)"
| "bolt_step B T ListFabrics db = of_res RFabrics db (B_ListFabrics B T db)"
| "bolt_step B T (DeleteFabric i) db = of_err (B_DeleteFabric B i db)"
| "bolt_step B T (SaveNode i n) db = of_err (snd (B_SaveNode B T i n db))"
| "bolt_step B T (GetNode i n) db = of_res RNode db (B_GetNode B T i n db)"
| "bolt_step B T (ListNodes i) db = of_res RNodes db (B_ListNodes B T i db)"
| "bolt_step B T (DeleteNode i n) db = of_err (B_DeleteNode B i n db)"
| "bolt_step B T (SaveResumptionInfo x) db = of_err (B_SaveResumptionInfo B T x db)"
| "bolt_step B T (GetResumptionInfo p) db = of_res RResumption db (B_GetResumptionInfo B T p db)"
| "bolt_step B T (SetKey k x) db = of_err (B_Set B k x db)"
| "bolt_step B T (GetKey k) db = of_res RValue db (B_Get B k db)"

end
