(* ===== verification/Store_Refine.thy ===== *)
theory Store_Refine
  imports Store_Bolt
begin

text \<open>
  The bolt store meets the contract of \<^verbatim>\<open>Store\<close>: the invariant of the bucket tree, the view of a
  database, the simulation of each operation, and the interpretation of the interface under the laws
  of the database and of the text formats.
\<close>

subsection \<open>Keys\<close>

definition decimal :: "string \<Rightarrow> nat" where
  "decimal s = foldl (\<lambda>n c. 10 * n + (of_char c - 48)) 0 s"

lemma decimal_fmt_d: "decimal (fmt_d n) = n"
proof (induction n rule: fmt_d.induct)
  case (1 n)
  then show ?case by (subst fmt_d.simps) (auto simp: decimal_def)
qed

lemma fmt_d_not_Nil [simp]: "fmt_d n \<noteq> []"
  by (subst fmt_d.simps) simp

lemma inj_bytes_of_string: "inj bytes_of_string"
proof (rule injI)
  fix s t assume "bytes_of_string s = bytes_of_string t"
  moreover have "inj (of_char :: char \<Rightarrow> byte)"
  proof (rule injI)
    fix c d assume "(of_char c :: byte) = of_char d"
    then have "(of_nat (of_char c) :: byte) = of_nat (of_char d)" by (simp only: of_nat_of_char)
    then have "unat (of_nat (of_char c) :: byte) = unat (of_nat (of_char d) :: byte)" by simp
    then have "(of_char c :: nat) mod 256 = of_char d mod 256" by (simp only: unsigned_of_nat take_bit_eq_mod) simp
    then show "c = d" by simp
  qed
  ultimately show "s = t" by (simp add: bytes_of_string_def inj_map_eq_map)
qed

lemma bytes_of_string_eq [simp]: "bytes_of_string s = bytes_of_string t \<longleftrightarrow> s = t"
  by (rule inj_eq [OF inj_bytes_of_string])

lemma bytes_of_string_Nil [simp]: "bytes_of_string s = [] \<longleftrightarrow> s = []"
  by (simp add: bytes_of_string_def)

lemma fabricKey_eq [simp]: "fabricKey i = fabricKey j \<longleftrightarrow> i = j"
  by (metis bytes_of_string_eq decimal_fmt_d fabricKey_def unsigned_word_eqI)

lemma nodeKey_fabricKey [simp]: "nodeKey i = fabricKey i"
  by (simp add: nodeKey_def fabricKey_def)

lemma fabricKey_not_Nil [simp]: "fabricKey i \<noteq> []"
  by (simp add: fabricKey_def)

lemma buckets_distinct [simp]:
  "bucketFabrics \<noteq> bucketNodes" "bucketFabrics \<noteq> bucketResumption" "bucketFabrics \<noteq> bucketKV"
  "bucketNodes \<noteq> bucketFabrics" "bucketNodes \<noteq> bucketResumption" "bucketNodes \<noteq> bucketKV"
  "bucketResumption \<noteq> bucketFabrics" "bucketResumption \<noteq> bucketNodes" "bucketResumption \<noteq> bucketKV"
  "bucketKV \<noteq> bucketFabrics" "bucketKV \<noteq> bucketNodes" "bucketKV \<noteq> bucketResumption"
  "bucketFabrics \<noteq> []" "bucketNodes \<noteq> []" "bucketResumption \<noteq> []" "bucketKV \<noteq> []"
  by (simp_all add: bucketFabrics_def bucketNodes_def bucketResumption_def bucketKV_def)


subsection \<open>The bucket tree: invariant and view\<close>

type_synonym entries = "path \<Rightarrow> byte list \<Rightarrow> byte list option"

definition entry :: "text_formats \<Rightarrow> (json \<Rightarrow> 'a option) \<Rightarrow> byte list \<Rightarrow> 'a option" where
  "entry T dec d = Option.bind (parse_json T d) dec"

definition bucket_path :: "path \<Rightarrow> bool" where
  "bucket_path p \<longleftrightarrow> p \<in> {[bucketFabrics], [bucketNodes], [bucketResumption], [bucketKV]} \<or>
     (\<exists>i. p = [bucketNodes, fabricKey i])"

definition tree_ok :: "text_formats \<Rightarrow> (path \<Rightarrow> bool) \<Rightarrow> entries \<Rightarrow> bool" where
  "tree_ok T b g \<longleftrightarrow>
     (b [bucketFabrics] \<and> b [bucketNodes] \<and> b [bucketResumption] \<and> b [bucketKV]) \<and>
     (\<forall>p. b p \<longrightarrow> bucket_path p) \<and>
     (\<forall>i. b [bucketNodes, fabricKey i] \<longrightarrow> g [bucketFabrics] (fabricKey i) \<noteq> None) \<and>
     (\<forall>p k. \<not> b p \<longrightarrow> g p k = None) \<and>
     (\<forall>k. g [bucketNodes] k = None) \<and>
     (\<forall>k d. g [bucketFabrics] k = Some d \<longrightarrow>
        (\<exists>f. entry T (dec_fabric T) d = Some f \<and> k = fabricKey (fab_ID f))) \<and>
     (\<forall>i k d. g [bucketNodes, fabricKey i] k = Some d \<longrightarrow>
        (\<exists>n. entry T (dec_node T) d = Some n \<and> k = fabricKey (node_ID n) \<and> node_FabricID n = i)) \<and>
     (\<forall>k d. g [bucketResumption] k = Some d \<longrightarrow> (\<exists>r. entry T (dec_resumption T) d = Some r))"

definition tree_view :: "text_formats \<Rightarrow> entries \<Rightarrow> store_view" where
  "tree_view T g = \<lparr>
     sv_fabrics = (\<lambda>i. Option.bind (g [bucketFabrics] (fabricKey i)) (entry T (dec_fabric T))),
     sv_nodes = (\<lambda>(i, n). Option.bind (g [bucketNodes, fabricKey i] (fabricKey n)) (entry T (dec_node T))),
     sv_resume = (\<lambda>p. Option.bind (g [bucketResumption] (fabricKey p)) (entry T (dec_resumption T))),
     sv_kv = g [bucketKV]\<rparr>"

lemma tree_okD:
  assumes "tree_ok T b g"
  shows tree_tops: "b [bucketFabrics]" "b [bucketNodes]" "b [bucketResumption]" "b [bucketKV]"
    and tree_shape: "b p \<Longrightarrow> bucket_path p"
    and sub_bucket: "b [bucketNodes, fabricKey i] \<Longrightarrow> g [bucketFabrics] (fabricKey i) \<noteq> None"
    and tree_missing: "\<not> b p \<Longrightarrow> g p k = None"
    and tree_plain: "g [bucketNodes] k = None"
    and tree_fabric: "g [bucketFabrics] k = Some d \<Longrightarrow>
        \<exists>f. entry T (dec_fabric T) d = Some f \<and> k = fabricKey (fab_ID f)"
    and tree_node: "g [bucketNodes, fabricKey i] k = Some d \<Longrightarrow>
        \<exists>n. entry T (dec_node T) d = Some n \<and> k = fabricKey (node_ID n) \<and> node_FabricID n = i"
    and tree_resumption: "g [bucketResumption] k = Some d \<Longrightarrow> \<exists>r. entry T (dec_resumption T) d = Some r"
  using assms unfolding tree_ok_def by blast+

lemma bucket_path_simps [simp]:
  "\<not> bucket_path [bucketFabrics, k]" "\<not> bucket_path [bucketResumption, k]" "\<not> bucket_path [bucketKV, k]"
  "\<not> bucket_path [bucketNodes, k, l]" "bucket_path [bucketNodes, fabricKey i]"
  by (auto simp: bucket_path_def)

lemma no_sub_bucket:
  assumes "tree_ok T b g"
  shows "\<not> b [bucketFabrics, k]" "\<not> b [bucketResumption, k]" "\<not> b [bucketKV, k]" "\<not> b [bucketNodes, k, l]"
  using tree_shape [OF assms] bucket_path_simps by blast+

lemma view_fabric_None: "tree_ok T b g \<Longrightarrow> sv_fabrics (tree_view T g) i = None \<longleftrightarrow> g [bucketFabrics] (fabricKey i) = None"
  by (cases "g [bucketFabrics] (fabricKey i)") (auto simp: tree_view_def dest: tree_fabric)

lemma view_node_None:
  "tree_ok T b g \<Longrightarrow> sv_nodes (tree_view T g) (i, n) = None \<longleftrightarrow> g [bucketNodes, fabricKey i] (fabricKey n) = None"
  by (cases "g [bucketNodes, fabricKey i] (fabricKey n)") (auto simp: tree_view_def dest: tree_node)

lemma tree_wf_view:
  assumes ok: "tree_ok T b g"
  shows "wf_view (tree_view T g)"
  unfolding wf_view_def
proof (intro conjI allI impI)
  fix i f assume "sv_fabrics (tree_view T g) i = Some f"
  with tree_fabric [OF ok] show "fab_ID f = i"
    by (fastforce simp: tree_view_def bind_eq_Some_conv)
next
  fix i n m assume m: "sv_nodes (tree_view T g) (i, n) = Some m"
  then obtain d where d: "g [bucketNodes, fabricKey i] (fabricKey n) = Some d" "entry T (dec_node T) d = Some m"
    by (auto simp: tree_view_def bind_eq_Some_conv)
  from tree_node [OF ok d(1)] d(2) show "node_ID m = n" "node_FabricID m = i" by auto
  have "b [bucketNodes, fabricKey i]" using tree_missing [OF ok] d(1) by fastforce
  then show "sv_fabrics (tree_view T g) i \<noteq> None" using sub_bucket [OF ok] view_fabric_None [OF ok] by blast
qed

subsection \<open>Changes of the tree\<close>

lemma tree_put_fabric:
  assumes ok: "tree_ok T b g" and d: "entry T (dec_fabric T) d = Some f"
  defines "g' \<equiv> g([bucketFabrics] := (g [bucketFabrics])(fabricKey (fab_ID f) := Some d))"
  shows "tree_ok T b g' \<and> tree_view T g' = updates canon (SaveFabric (Some f)) (tree_view T g)"
proof
  show "tree_ok T b g'" using ok d unfolding tree_ok_def g'_def by (intro conjI allI impI) (auto split: if_splits)
  show "tree_view T g' = updates canon (SaveFabric (Some f)) (tree_view T g)"
    using d by (simp add: tree_view_def g'_def fun_eq_iff)
qed

lemma tree_put_node:
  assumes ok: "tree_ok T b g" and d: "entry T (dec_node T) d = Some (canon (n\<lparr>node_FabricID := i\<rparr>))"
    and canon: "keeps_ids canon" and f: "g [bucketFabrics] (fabricKey i) \<noteq> None"
  defines "g' \<equiv> g([bucketNodes, fabricKey i] := (g [bucketNodes, fabricKey i])(fabricKey (node_ID n) := Some d))"
  shows "tree_ok T (b([bucketNodes, fabricKey i] := True)) g'
    \<and> tree_view T g' = updates canon (SaveNode i (Some n)) (tree_view T g)"
proof
  show "tree_ok T (b([bucketNodes, fabricKey i] := True)) g'"
    using ok d f canon unfolding tree_ok_def g'_def keeps_ids_def
    by (intro conjI allI impI) (auto split: if_splits)
  show "tree_view T g' = updates canon (SaveNode i (Some n)) (tree_view T g)"
    using d f view_fabric_None [OF ok, of i] by (auto simp: tree_view_def g'_def fun_eq_iff)
qed

lemma tree_put_resumption:
  assumes ok: "tree_ok T b g" and d: "entry T (dec_resumption T) d = Some r"
  defines "g' \<equiv> g([bucketResumption] := (g [bucketResumption])(fabricKey (ri_PeerNodeID r) := Some d))"
  shows "tree_ok T b g' \<and> tree_view T g' = updates canon (SaveResumptionInfo (Some r)) (tree_view T g)"
proof
  show "tree_ok T b g'" using ok d unfolding tree_ok_def g'_def by (intro conjI allI impI) (auto split: if_splits)
  show "tree_view T g' = updates canon (SaveResumptionInfo (Some r)) (tree_view T g)"
    using d by (simp add: tree_view_def g'_def fun_eq_iff)
qed

lemma tree_put_kv:
  fixes k x :: "byte list" and i n :: u64
  assumes ok: "tree_ok T b g"
  defines "g' \<equiv> g([bucketKV] := (g [bucketKV])(k := Some x))"
  shows "tree_ok T b g' \<and> tree_view T g' = updates canon (SetKey k x) (tree_view T g)"
proof
  show "tree_ok T b g'" using ok unfolding tree_ok_def g'_def by (intro conjI allI impI) (auto split: if_splits)
  show "tree_view T g' = updates canon (SetKey k x) (tree_view T g)" by (simp add: tree_view_def g'_def fun_eq_iff)
qed

lemma tree_delete_node:
  fixes k x :: "byte list" and i n :: u64
  assumes ok: "tree_ok T b g"
  defines "g' \<equiv> g([bucketNodes, fabricKey i] := (g [bucketNodes, fabricKey i])(fabricKey n := None))"
  shows "tree_ok T b g' \<and> tree_view T g' = updates canon (DeleteNode i n) (tree_view T g)"
proof
  show "tree_ok T b g'" using ok unfolding tree_ok_def g'_def by (intro conjI allI impI) (auto split: if_splits)
  show "tree_view T g' = updates canon (DeleteNode i n) (tree_view T g)" by (auto simp: tree_view_def g'_def fun_eq_iff)
qed

text \<open>Deleting a fabric: its entry, then the sub-bucket of its nodes.\<close>

lemma tree_delete_fabric:
  assumes ok: "tree_ok T b g" and f: "g [bucketFabrics] (fabricKey i) \<noteq> None"
  defines "g' \<equiv> \<lambda>q. if prefix [bucketNodes, fabricKey i] q then Map.empty
      else (g([bucketFabrics] := (g [bucketFabrics])(fabricKey i := None))) q"
  shows "tree_ok T (\<lambda>q. b q \<and> \<not> prefix [bucketNodes, fabricKey i] q) g'
    \<and> tree_view T g' = updates canon (DeleteFabric i) (tree_view T g)"
proof
  show "tree_ok T (\<lambda>q. b q \<and> \<not> prefix [bucketNodes, fabricKey i] q) g'"
    using ok unfolding tree_ok_def g'_def by (intro conjI allI impI) (auto split: if_splits)
  show "tree_view T g' = updates canon (DeleteFabric i) (tree_view T g)"
    using f view_fabric_None [OF ok, of i] by (auto simp: tree_view_def g'_def fun_eq_iff)
qed

lemma tree_delete_lone_fabric:
  assumes ok: "tree_ok T b g" and f: "g [bucketFabrics] (fabricKey i) \<noteq> None"
    and nb: "\<not> b [bucketNodes, fabricKey i]"
  defines "g' \<equiv> g([bucketFabrics] := (g [bucketFabrics])(fabricKey i := None))"
  shows "tree_ok T b g' \<and> tree_view T g' = updates canon (DeleteFabric i) (tree_view T g)"
proof
  show "tree_ok T b g'" using ok nb unfolding tree_ok_def g'_def
    by (intro conjI allI impI) (auto split: if_splits)
  show "tree_view T g' = updates canon (DeleteFabric i) (tree_view T g)"
    using f view_fabric_None [OF ok, of i] tree_missing [OF ok nb]
    by (auto simp: tree_view_def g'_def fun_eq_iff)
qed


subsection \<open>The operations\<close>

definition bolt_ok :: "'db bolt \<Rightarrow> ('db \<Rightarrow> bool) \<Rightarrow> text_formats \<Rightarrow> 'db \<Rightarrow> bool" where
  "bolt_ok B H T db \<longleftrightarrow> H db \<and> tree_ok T (bo_Bucket B db) (bo_Get B db)"

definition bolt_view :: "'db bolt \<Rightarrow> text_formats \<Rightarrow> 'db \<Rightarrow> store_view" where
  "bolt_view B T db = tree_view T (bo_Get B db)"

text \<open>
  The calls a database can carry out: the entry can be encoded, all its strings are valid UTF-8, and
  key and value are within the database's limits.
\<close>

definition accepts_doc :: "'db bolt \<Rightarrow> text_formats \<Rightarrow> byte list \<Rightarrow> json option \<Rightarrow> bool" where
  "accepts_doc B T key j =
     (case j of None \<Rightarrow> False | Some j \<Rightarrow> json_Valid j \<and> bo_accepts B key (print_json T j))"

fun bolt_admits :: "'db bolt \<Rightarrow> text_formats \<Rightarrow> cmd \<Rightarrow> bool" where
  "bolt_admits B T (SaveFabric (Some f)) = accepts_doc B T (fabricKey (fab_ID f)) (enc_fabric T f)"
| "bolt_admits B T (SaveNode i (Some n)) =
     accepts_doc B T (nodeKey (node_ID n)) (enc_node T (n\<lparr>node_FabricID := i\<rparr>))"
| "bolt_admits B T (SaveResumptionInfo (Some r)) =
     accepts_doc B T (fabricKey (ri_PeerNodeID r)) (Some (enc_resumption T r))"
| "bolt_admits B T (SetKey k x) = bo_accepts B k x"
| "bolt_admits B T _ = True"

definition meets :: "'db bolt \<Rightarrow> ('db \<Rightarrow> bool) \<Rightarrow> text_formats \<Rightarrow> cmd \<Rightarrow> 'db \<Rightarrow> reply \<times> 'db \<Rightarrow> bool" where
  "meets B H T c db out \<longleftrightarrow> bolt_ok B H T (snd out) \<and> answers c (bolt_view B T db) (fst out)
     \<and> bolt_view B T (snd out) = updates collapse c (bolt_view B T db)"

lemma json_Unmarshal_entry:
  "json_Unmarshal T dec d = (case entry T dec d of None \<Rightarrow> Err json_Unmarshal_error | Some x \<Rightarrow> Ok x)"
  by (simp add: json_Unmarshal_def entry_def)

lemma keeps_ids_collapse: "keeps_ids collapse"
  by (simp add: keeps_ids_def)

lemma entry_print:
  "text_laws T \<Longrightarrow> json_Valid j \<Longrightarrow> dec j = Some x \<Longrightarrow> entry T dec (print_json T j) = Some x"
  by (simp add: entry_def parse_print)

lemma accepts_docE:
  assumes "accepts_doc B T key jo"
  obtains j where "jo = Some j" and "json_Valid j" and "bo_accepts B key (print_json T j)"
  using assms by (auto simp: accepts_doc_def split: option.splits)

lemma SaveFabric_meets:
  assumes L: "bolt_laws B H" and T: "text_laws T" and ok: "bolt_ok B H T db"
    and ad: "bolt_admits B T (SaveFabric (Some f))"
  shows "meets B H T (SaveFabric (Some f)) db (bolt_step B T (SaveFabric (Some f)) db)"
proof -
  have H: "H db" and t: "tree_ok T (bo_Bucket B db) (bo_Get B db)" using ok by (auto simp: bolt_ok_def)
  obtain j where j: "enc_fabric T f = Some j" "json_Valid j" "bo_accepts B (fabricKey (fab_ID f)) (print_json T j)"
    using ad by (auto elim: accepts_docE)
  have e: "entry T (dec_fabric T) (print_json T j) = Some f"
    by (rule entry_print [OF T]) (rule j(2), rule dec_enc_fabric [OF T j(1)])
  obtain db' where p: "bo_Put B db [bucketFabrics] (fabricKey (fab_ID f)) (print_json T j) = (db', None)" "H db'"
      "bo_Bucket B db' = bo_Bucket B db"
      "bo_Get B db' = (bo_Get B db)([bucketFabrics] := (bo_Get B db [bucketFabrics])(fabricKey (fab_ID f) := Some (print_json T j)))"
    using bo_Put [OF L H _ _ j(3), of "[bucketFabrics]"] tree_tops(1) [OF t] no_sub_bucket(1) [OF t] by auto
  have "db_Update B (\<lambda>db. bo_Put B db [bucketFabrics] (fabricKey (fab_ID f)) (print_json T j)) db = (db', None)"
    by (rule db_Update_ok [OF L H]) (rule p)+
  then have s: "bolt_step B T (SaveFabric (Some f)) db = (RDone, db')"
    using j(1) by (simp add: B_SaveFabric_def json_Marshal_def)
  show ?thesis
    using tree_put_fabric [OF t e] p unfolding meets_def s by (simp add: bolt_ok_def bolt_view_def given_def)
qed

lemma SaveResumptionInfo_meets:
  assumes L: "bolt_laws B H" and T: "text_laws T" and ok: "bolt_ok B H T db"
    and ad: "bolt_admits B T (SaveResumptionInfo (Some r))"
  shows "meets B H T (SaveResumptionInfo (Some r)) db (bolt_step B T (SaveResumptionInfo (Some r)) db)"
proof -
  let ?k = "fabricKey (ri_PeerNodeID r)" and ?d = "print_json T (enc_resumption T r)"
  have H: "H db" and t: "tree_ok T (bo_Bucket B db) (bo_Get B db)" using ok by (auto simp: bolt_ok_def)
  have a: "bo_accepts B ?k ?d" using ad by (auto elim: accepts_docE)
  have e: "entry T (dec_resumption T) ?d = Some r"
    by (rule entry_print [OF T]) (rule resumption_Valid [OF T], rule dec_enc_resumption [OF T])
  obtain db' where p: "bo_Put B db [bucketResumption] ?k ?d = (db', None)" "H db'"
      "bo_Bucket B db' = bo_Bucket B db"
      "bo_Get B db' = (bo_Get B db)([bucketResumption] := (bo_Get B db [bucketResumption])(?k := Some ?d))"
    using bo_Put [OF L H _ _ a, of "[bucketResumption]"] tree_tops(3) [OF t] no_sub_bucket(2) [OF t] by auto
  have "db_Update B (\<lambda>db. bo_Put B db [bucketResumption] ?k ?d) db = (db', None)"
    by (rule db_Update_ok [OF L H]) (rule p)+
  then have s: "bolt_step B T (SaveResumptionInfo (Some r)) db = (RDone, db')"
    by (simp add: B_SaveResumptionInfo_def json_Marshal_def)
  show ?thesis
    using tree_put_resumption [OF t e] p unfolding meets_def s by (simp add: bolt_ok_def bolt_view_def given_def)
qed

lemma SetKey_meets:
  assumes L: "bolt_laws B H" and ok: "bolt_ok B H T db" and ad: "bolt_admits B T (SetKey k x)"
  shows "meets B H T (SetKey k x) db (bolt_step B T (SetKey k x) db)"
proof -
  have H: "H db" and t: "tree_ok T (bo_Bucket B db) (bo_Get B db)" using ok by (auto simp: bolt_ok_def)
  obtain db' where p: "bo_Put B db [bucketKV] k x = (db', None)" "H db'" "bo_Bucket B db' = bo_Bucket B db"
      "bo_Get B db' = (bo_Get B db)([bucketKV] := (bo_Get B db [bucketKV])(k := Some x))"
    using bo_Put [OF L H _ _, of "[bucketKV]" k x] ad tree_tops(4) [OF t] no_sub_bucket(3) [OF t] by auto
  have "db_Update B (\<lambda>db. bo_Put B db [bucketKV] k x) db = (db', None)" by (rule db_Update_ok [OF L H]) (rule p)+
  then have "bolt_step B T (SetKey k x) db = (RDone, db')" by (simp add: B_Set_def)
  then show ?thesis
    using tree_put_kv [OF t] p unfolding meets_def by (simp add: bolt_ok_def bolt_view_def)
qed

lemma SaveNode_meets:
  assumes L: "bolt_laws B H" and T: "text_laws T" and ok: "bolt_ok B H T db"
    and ad: "bolt_admits B T (SaveNode i (Some n))"
  shows "meets B H T (SaveNode i (Some n)) db (bolt_step B T (SaveNode i (Some n)) db)"
proof -
  let ?n = "n\<lparr>node_FabricID := i\<rparr>" and ?p = "[bucketNodes, fabricKey i]" and ?k = "fabricKey (node_ID n)"
  have H: "H db" and t: "tree_ok T (bo_Bucket B db) (bo_Get B db)" using ok by (auto simp: bolt_ok_def)
  obtain j where j: "enc_node T ?n = Some j" "json_Valid j" "bo_accepts B ?k (print_json T j)"
    using ad by (auto elim: accepts_docE)
  have e: "entry T (dec_node T) (print_json T j) = Some (collapse ?n)"
    by (rule entry_print [OF T]) (rule j(2), rule dec_enc_node [OF T j(1)])
  let ?body = "\<lambda>db. if bo_Get B db [bucketFabrics] (fabricKey i) = None then (db, Some (fabric_not_found i))
     else and_then (wrap_err ''store: create node sub-bucket'' (bo_CreateBucketIfNotExists B db ?p))
       (\<lambda>db. bo_Put B db ?p (nodeKey (node_ID ?n)) (print_json T j))"
  have s: "bolt_step B T (SaveNode i (Some n)) db = of_err (db_Update B ?body db)"
    using j(1) by (simp add: B_SaveNode_def json_Marshal_def Let_def)
  show ?thesis
  proof (cases "bo_Get B db [bucketFabrics] (fabricKey i) = None")
    case True
    then have "db_Update B ?body db = (db, Some (fabric_not_found i))" by (intro db_Update_err [OF L H]) simp
    then show ?thesis using True ok view_fabric_None [OF t, of i] unfolding meets_def s
      by (simp add: bolt_view_def found_def)
  next
    case False
    obtain db1 where c: "bo_CreateBucketIfNotExists B db ?p = (db1, None)" "H db1"
        "bo_Bucket B db1 = (bo_Bucket B db)(?p := True)" "bo_Get B db1 = bo_Get B db"
      using bo_Create [OF L H, of "[bucketNodes]" "fabricKey i"] bucket_name_fabricKey [of i] tree_tops(2) [OF t] tree_plain [OF t] by auto
    obtain db2 where p: "bo_Put B db1 ?p ?k (print_json T j) = (db2, None)" "H db2"
        "bo_Bucket B db2 = bo_Bucket B db1"
        "bo_Get B db2 = (bo_Get B db1)(?p := (bo_Get B db1 ?p)(?k := Some (print_json T j)))"
      using bo_Put [OF L c(2) _ _ j(3), of ?p] c(3) no_sub_bucket(4) [OF t] by auto
    have "db_Update B ?body db = (db2, None)" using False c(1) p(1,2) by (intro db_Update_ok [OF L H]) simp_all
    moreover obtain f where "sv_fabrics (bolt_view B T db) i = Some f"
      using False view_fabric_None [OF t, of i] by (auto simp: bolt_view_def)
    ultimately show ?thesis
      using tree_put_node [OF t e keeps_ids_collapse False] c p unfolding meets_def s
      by (simp add: bolt_ok_def bolt_view_def found_def)
  qed
qed


lemma DeleteFabric_meets:
  assumes L: "bolt_laws B H" and ok: "bolt_ok B H T db"
  shows "meets B H T (DeleteFabric i) db (bolt_step B T (DeleteFabric i) db)"
proof -
  let ?key = "fabricKey i"
  let ?body = "\<lambda>db. if bo_Get B db [bucketFabrics] ?key = None then (db, Some (fabric_not_found i))
     else and_then (bo_Delete B db [bucketFabrics] ?key)
       (\<lambda>db. if bo_Bucket B db [bucketNodes, ?key] then bo_DeleteBucket B db [bucketNodes, ?key] else (db, None))"
  have H: "H db" and t: "tree_ok T (bo_Bucket B db) (bo_Get B db)" using ok by (auto simp: bolt_ok_def)
  have s: "bolt_step B T (DeleteFabric i) db = of_err (db_Update B ?body db)" by (simp add: B_DeleteFabric_def Let_def)
  show ?thesis
  proof (cases "bo_Get B db [bucketFabrics] ?key = None")
    case True
    then have "db_Update B ?body db = (db, Some (fabric_not_found i))" by (intro db_Update_err [OF L H]) simp
    then show ?thesis using True ok view_fabric_None [OF t, of i] unfolding meets_def s
      by (simp add: bolt_view_def found_def)
  next
    case False
    then obtain f where f: "sv_fabrics (bolt_view B T db) i = Some f"
      using view_fabric_None [OF t, of i] by (auto simp: bolt_view_def)
    obtain db1 where d: "bo_Delete B db [bucketFabrics] ?key = (db1, None)" "H db1"
        "bo_Bucket B db1 = bo_Bucket B db"
        "bo_Get B db1 = (bo_Get B db)([bucketFabrics] := (bo_Get B db [bucketFabrics])(?key := None))"
      using bo_Delete [OF L H, of "[bucketFabrics]" ?key] tree_tops(1) [OF t] no_sub_bucket(1) [OF t] by auto
    show ?thesis
    proof (cases "bo_Bucket B db [bucketNodes, ?key]")
      case nb: False
      have "db_Update B ?body db = (db1, None)" using False d nb by (intro db_Update_ok [OF L H]) simp_all
      with tree_delete_lone_fabric [OF t False nb] d f show ?thesis
        unfolding meets_def s by (simp add: bolt_ok_def bolt_view_def found_def)
    next
      case True
      obtain db2 where e: "bo_DeleteBucket B db1 [bucketNodes, ?key] = (db2, None)" "H db2"
          "bo_Bucket B db2 = (\<lambda>q. bo_Bucket B db1 q \<and> \<not> prefix [bucketNodes, ?key] q)"
          "bo_Get B db2 = (\<lambda>q. if prefix [bucketNodes, ?key] q then Map.empty else bo_Get B db1 q)"
        using bo_DeleteBucket [OF L d(2), of "[bucketNodes, ?key]"] True d(3) by auto
      have "db_Update B ?body db = (db2, None)" using False d e True by (intro db_Update_ok [OF L H]) simp_all
      moreover have "tree_ok T (bo_Bucket B db2) (bo_Get B db2)
          \<and> tree_view T (bo_Get B db2) = updates collapse (DeleteFabric i) (tree_view T (bo_Get B db))"
        using tree_delete_fabric [OF t False, of collapse] unfolding e(3,4) d(3,4) by blast
      ultimately show ?thesis using f e(2)
        unfolding meets_def s by (simp add: bolt_ok_def bolt_view_def found_def)
    qed
  qed
qed

lemma DeleteNode_meets:
  assumes L: "bolt_laws B H" and ok: "bolt_ok B H T db"
  shows "meets B H T (DeleteNode i n) db (bolt_step B T (DeleteNode i n) db)"
proof -
  let ?p = "[bucketNodes, fabricKey i]" and ?k = "fabricKey n"
  let ?body = "\<lambda>db. if \<not> bo_Bucket B db ?p then (db, Some (node_not_found i n))
     else if bo_Get B db ?p (nodeKey n) = None then (db, Some (node_not_found i n))
     else bo_Delete B db ?p (nodeKey n)"
  have H: "H db" and t: "tree_ok T (bo_Bucket B db) (bo_Get B db)" using ok by (auto simp: bolt_ok_def)
  have s: "bolt_step B T (DeleteNode i n) db = of_err (db_Update B ?body db)" by (simp add: B_DeleteNode_def)
  have view: "sv_nodes (bolt_view B T db) (i, n) = None \<longleftrightarrow> bo_Get B db ?p ?k = None"
    using view_node_None [OF t] by (simp add: bolt_view_def)
  show ?thesis
  proof (cases "bo_Get B db ?p ?k = None")
    case True
    then have "db_Update B ?body db = (db, Some (node_not_found i n))"
      by (intro db_Update_err [OF L H, where db' = db]) simp
    moreover have "updates collapse (DeleteNode i n) (bolt_view B T db) = bolt_view B T db"
      using True view by (cases "bolt_view B T db") auto
    ultimately show ?thesis using True ok view unfolding meets_def s by (simp add: found_def)
  next
    case False
    have b: "bo_Bucket B db ?p" by (rule ccontr) (use False tree_missing [OF t, of ?p ?k] in simp)
    obtain db1 where d: "bo_Delete B db ?p ?k = (db1, None)" "H db1" "bo_Bucket B db1 = bo_Bucket B db"
        "bo_Get B db1 = (bo_Get B db)(?p := (bo_Get B db ?p)(?k := None))"
      using bo_Delete [OF L H b, of ?k] no_sub_bucket(4) [OF t] by auto
    have "db_Update B ?body db = (db1, None)" using False d b by (intro db_Update_ok [OF L H]) simp_all
    moreover obtain m where "sv_nodes (bolt_view B T db) (i, n) = Some m" using False view by auto
    ultimately show ?thesis using tree_delete_node [OF t, of i n] d unfolding meets_def s
      by (simp add: bolt_ok_def bolt_view_def found_def)
  qed
qed

subsection \<open>Reading\<close>

lemma decode_all_Ok:
  "(\<And>k d. (k, d) \<in> set kvs \<Longrightarrow> entry T dec d = Some (g d)) \<Longrightarrow>
     decode_all what T dec kvs = Ok (map (\<lambda>(k, d). g d) kvs)"
proof (induction kvs)
  case (Cons kv kvs)
  obtain k d where kv: "kv = (k, d)" by fastforce
  with Cons.prems [of k d] have "entry T dec d = Some (g d)" by simp
  moreover have "decode_all what T dec kvs = Ok (map (\<lambda>(k, d). g d) kvs)"
    by (rule Cons.IH) (use Cons.prems in auto)
  ultimately show ?case using kv by (simp add: json_Unmarshal_entry)
qed simp

lemma listing:
  assumes kvs: "distinct (map fst kvs)" "set kvs = {(k, d). m k = Some d}"
    and dec: "\<And>k d. m k = Some d \<Longrightarrow> \<exists>x. entry T dec d = Some x \<and> k = fabricKey (key x)"
  obtains xs where "decode_all what T dec kvs = Ok xs" and "distinct (map key xs)"
    and "set xs = {x. \<exists>i. Option.bind (m (fabricKey i)) (entry T dec) = Some x}"
proof
  let ?g = "\<lambda>d. the (entry T dec d)"
  let ?xs = "map (\<lambda>(k, d). ?g d) kvs"
  show "decode_all what T dec kvs = Ok ?xs" by (rule decode_all_Ok) (use kvs(2) dec in fastforce)
  have "map (fabricKey \<circ> key) ?xs = map fst kvs"
    unfolding map_map by (rule map_cong [OF refl]) (use kvs(2) dec in fastforce)
  then show "distinct (map key ?xs)" using kvs(1) by (metis distinct_map map_map)
  show "set ?xs = {x. \<exists>i. Option.bind (m (fabricKey i)) (entry T dec) = Some x}"
  proof (intro set_eqI iffI)
    fix x assume "x \<in> set ?xs"
    then obtain k d where "m k = Some d" "x = ?g d" using kvs(2) by auto
    moreover from dec [OF \<open>m k = Some d\<close>] obtain y where "entry T dec d = Some y" "k = fabricKey (key y)" by blast
    ultimately show "x \<in> {x. \<exists>i. Option.bind (m (fabricKey i)) (entry T dec) = Some x}"
      by (auto intro!: exI [of _ "key y"])
  next
    fix x assume "x \<in> {x. \<exists>i. Option.bind (m (fabricKey i)) (entry T dec) = Some x}"
    then obtain i d where "m (fabricKey i) = Some d" "entry T dec d = Some x" by (auto simp: bind_eq_Some_conv)
    then show "x \<in> set ?xs" using kvs(2) by (force intro!: image_eqI [of _ _ "(fabricKey i, d)"])
  qed
qed

lemma ListFabrics_meets:
  assumes L: "bolt_laws B H" and ok: "bolt_ok B H T db"
  shows "meets B H T ListFabrics db (bolt_step B T ListFabrics db)"
proof -
  have H: "H db" and t: "tree_ok T (bo_Bucket B db) (bo_Get B db)" using ok by (auto simp: bolt_ok_def)
  have nb: "\<And>k. \<not> bo_Bucket B db ([bucketFabrics] @ [k])" using no_sub_bucket(1) [OF t] by simp
  obtain fs where fs: "decode_all ''store: unmarshal fabric'' T (dec_fabric T) (bo_ForEach B db [bucketFabrics]) = Ok fs"
      "distinct (map fab_ID fs)"
      "set fs = {x. \<exists>i. Option.bind (bo_Get B db [bucketFabrics] (fabricKey i)) (entry T (dec_fabric T)) = Some x}"
    using listing [OF bo_ForEach [OF L H tree_tops(1) [OF t] nb] tree_fabric [OF t]] by blast
  then show ?thesis using ok
    by (simp add: meets_def B_ListFabrics_def db_View_ok [OF L H] bolt_view_def tree_view_def ran_def)
qed

lemma ListNodes_meets:
  assumes L: "bolt_laws B H" and ok: "bolt_ok B H T db"
  shows "meets B H T (ListNodes i) db (bolt_step B T (ListNodes i) db)"
proof -
  let ?p = "[bucketNodes, fabricKey i]"
  have H: "H db" and t: "tree_ok T (bo_Bucket B db) (bo_Get B db)" using ok by (auto simp: bolt_ok_def)
  have view: "sv_fabrics (bolt_view B T db) i = None \<longleftrightarrow> bo_Get B db [bucketFabrics] (fabricKey i) = None"
    using view_fabric_None [OF t] by (simp add: bolt_view_def)
  have nodes: "{m. \<exists>n. sv_nodes (bolt_view B T db) (i, n) = Some m}
      = {x. \<exists>n. Option.bind (bo_Get B db ?p (fabricKey n)) (entry T (dec_node T)) = Some x}"
    by (simp add: bolt_view_def tree_view_def)
  consider "bo_Get B db [bucketFabrics] (fabricKey i) = None"
    | "bo_Get B db [bucketFabrics] (fabricKey i) \<noteq> None" "\<not> bo_Bucket B db ?p"
    | "bo_Get B db [bucketFabrics] (fabricKey i) \<noteq> None" "bo_Bucket B db ?p" by blast
  then show ?thesis
  proof cases
    case 1
    then show ?thesis using ok view by (simp add: meets_def B_ListNodes_def db_View_ok [OF L H])
  next
    case 2
    then have "{m. \<exists>n. sv_nodes (bolt_view B T db) (i, n) = Some m} = {}"
      unfolding nodes using tree_missing [OF t, of ?p] by simp
    then show ?thesis using 2 ok view
      by (simp add: meets_def B_ListNodes_def db_View_ok [OF L H] sortNodesByID_def)
  next
    case 3
    have nb: "\<And>k. \<not> bo_Bucket B db (?p @ [k])" using no_sub_bucket(4) [OF t] by simp
    have dec: "\<And>k d. bo_Get B db ?p k = Some d \<Longrightarrow> \<exists>x. entry T (dec_node T) d = Some x \<and> k = fabricKey (node_ID x)"
      using tree_node [OF t] by blast
    obtain ns where ns: "decode_all ''store: unmarshal node'' T (dec_node T) (bo_ForEach B db ?p) = Ok ns"
        "distinct (map node_ID ns)"
        "set ns = {x. \<exists>n. Option.bind (bo_Get B db ?p (fabricKey n)) (entry T (dec_node T)) = Some x}"
      using listing [OF bo_ForEach [OF L H 3(2) nb] dec] by blast
    then show ?thesis using 3 ok view unfolding meets_def answers.simps nodes
      by (simp add: B_ListNodes_def db_View_ok [OF L H] sortNodesByID_def sorted_distinct_strict del: distinct_map)
  qed
qed

lemma bolt_reads_meet:
  assumes L: "bolt_laws B H" and ok: "bolt_ok B H T db"
  shows "meets B H T (GetFabric i) db (bolt_step B T (GetFabric i) db)"
    and "meets B H T (GetNode i n) db (bolt_step B T (GetNode i n) db)"
    and "meets B H T (GetResumptionInfo i) db (bolt_step B T (GetResumptionInfo i) db)"
    and "meets B H T (GetKey k) db (bolt_step B T (GetKey k) db)"
proof -
  have H: "H db" and t: "tree_ok T (bo_Bucket B db) (bo_Get B db)" using ok by (auto simp: bolt_ok_def)
  note d = meets_def db_View_ok [OF L H] bolt_view_def tree_view_def found_def json_Unmarshal_entry
  show "meets B H T (GetFabric i) db (bolt_step B T (GetFabric i) db)"
    using ok tree_fabric [OF t] by (fastforce simp: d B_GetFabric_def split: option.splits)
  show "meets B H T (GetResumptionInfo i) db (bolt_step B T (GetResumptionInfo i) db)"
    using ok tree_resumption [OF t] by (fastforce simp: d B_GetResumptionInfo_def split: option.splits)
  show "meets B H T (GetKey k) db (bolt_step B T (GetKey k) db)"
    using ok by (auto simp: d B_Get_def split: option.splits)
  show "meets B H T (GetNode i n) db (bolt_step B T (GetNode i n) db)"
    using ok tree_node [OF t] tree_missing [OF t, of "[bucketNodes, fabricKey i]" "fabricKey n"]
    by (fastforce simp: d B_GetNode_def split: option.splits)
qed

lemma bolt_nil_meets:
  assumes "bolt_ok B H T db"
  shows "meets B H T (SaveFabric None) db (bolt_step B T (SaveFabric None) db)"
    and "meets B H T (SaveNode i None) db (bolt_step B T (SaveNode i None) db)"
    and "meets B H T (SaveResumptionInfo None) db (bolt_step B T (SaveResumptionInfo None) db)"
  using assms by (simp_all add: meets_def B_SaveFabric_def B_SaveNode_def B_SaveResumptionInfo_def given_def)

lemma bolt_step_meets:
  assumes "bolt_laws B H" and "text_laws T" and "bolt_ok B H T db" and "bolt_admits B T c"
  shows "meets B H T c db (bolt_step B T c db)"
proof (cases c)
  case (SaveFabric f)
  then show ?thesis using assms by (cases f) (simp_all only: SaveFabric_meets bolt_nil_meets)
next
  case (SaveNode i n)
  then show ?thesis using assms by (cases n) (simp_all only: SaveNode_meets bolt_nil_meets)
next
  case (SaveResumptionInfo r)
  then show ?thesis using assms by (cases r) (simp_all only: SaveResumptionInfo_meets bolt_nil_meets)
next
  case (SetKey k x)
  then show ?thesis using assms by (simp only: SetKey_meets)
qed (use assms(1,3) in \<open>simp_all only: DeleteFabric_meets DeleteNode_meets ListFabrics_meets ListNodes_meets
       bolt_reads_meet\<close>)

lemma bolt_store:
  assumes "bolt_laws B H" and "text_laws T"
  shows "store (bolt_step B T) (bolt_view B T) (bolt_ok B H T) (bolt_admits B T) collapse"
proof
  fix db c assume ok: "bolt_ok B H T db" and ad: "bolt_admits B T c"
  have "meets B H T c db (bolt_step B T c db)" by (rule bolt_step_meets [OF assms ok ad])
  then show "bolt_ok B H T (snd (bolt_step B T c db))"
    "answers c (bolt_view B T db) (fst (bolt_step B T c db))"
    "bolt_view B T (snd (bolt_step B T c db)) = updates collapse c (bolt_view B T db)"
    by (simp_all add: meets_def)
qed (auto simp: keeps_ids_collapse bolt_ok_def bolt_view_def intro: tree_wf_view)

end
