(* ===== verification/Stores.thy ===== *)
theory Stores
  imports Store_Refine "HOL-Library.Countable"
begin

text \<open>
  The properties of the two stores: each meets the contract of the interface over every sequence of
  calls, the persistent one also across a restart, and the two give the same answers.  An instance of
  the database and of the text formats shows that the laws can hold.
\<close>

subsection \<open>Opening a database\<close>

lemma create_buckets_ok:
  assumes L: "bolt_laws B H"
  shows "H db \<Longrightarrow> \<not> bo_Bucket B db [] \<Longrightarrow> list_all bucket_name bs \<Longrightarrow>
    \<exists>db'. create_buckets B bs db = (db', None) \<and> H db' \<and>
      bo_Bucket B db' = (\<lambda>p. bo_Bucket B db p \<or> p \<in> (\<lambda>b. [b]) ` set bs) \<and> bo_Get B db' = bo_Get B db"
proof (induction bs arbitrary: db)
  case Nil
  then show ?case by simp
next
  case (Cons b bs)
  have "bo_Get B db [] b = None" using bo_missing [OF L Cons.prems(1,2)] .
  then obtain db1 where d: "bo_CreateBucketIfNotExists B db ([] @ [b]) = (db1, None)" "H db1"
      "bo_Bucket B db1 = (bo_Bucket B db)([] @ [b] := True)" "bo_Get B db1 = bo_Get B db"
    using bo_Create [OF L Cons.prems(1), of "[]" b] Cons.prems(3) by auto
  then have "\<not> bo_Bucket B db1 []" using Cons.prems(2) by simp
  from Cons.IH [OF d(2) this] Cons.prems(3) obtain db' where
    "create_buckets B bs db1 = (db', None)" "H db'" "bo_Get B db' = bo_Get B db1"
    "bo_Bucket B db' = (\<lambda>p. bo_Bucket B db1 p \<or> p \<in> (\<lambda>b. [b]) ` set bs)" by auto
  with d show ?case by (auto simp: fun_eq_iff)
qed

definition fresh_db :: "'db bolt \<Rightarrow> 'db \<Rightarrow> bool" where
  "fresh_db B db \<longleftrightarrow> (\<forall>p. \<not> bo_Bucket B db p)"

definition top_buckets :: "byte list list" where
  "top_buckets = [bucketFabrics, bucketNodes, bucketResumption, bucketKV]"

lemma newBoltStore_ok:
  assumes L: "bolt_laws B H" and H: "H db" and nb: "\<not> bo_Bucket B db []"
  shows "\<exists>db'. newBoltStore B db = (db', None) \<and> H db' \<and>
      bo_Bucket B db' = (\<lambda>p. bo_Bucket B db p \<or> p \<in> (\<lambda>b. [b]) ` set top_buckets) \<and> bo_Get B db' = bo_Get B db"
proof -
  have "list_all bucket_name top_buckets"
    by (simp add: top_buckets_def bucket_name_def bytes_of_string_def bucketFabrics_def bucketNodes_def bucketResumption_def bucketKV_def)
  from create_buckets_ok [OF L H nb this] obtain db' where
    d: "create_buckets B top_buckets db = (db', None)" "H db'" and
    rest: "bo_Bucket B db' = (\<lambda>p. bo_Bucket B db p \<or> p \<in> (\<lambda>b. [b]) ` set top_buckets)" "bo_Get B db' = bo_Get B db"
    by blast
  have "db_Update B (create_buckets B top_buckets) db = (db', None)" by (rule db_Update_ok [OF L H]) (rule d)+
  then have "newBoltStore B db = (db', None)" by (simp add: newBoltStore_def top_buckets_def)
  with d(2) rest show ?thesis by blast
qed

lemma newBoltStore_fresh:
  assumes L: "bolt_laws B H" and H: "H db" and "fresh_db B db"
  obtains db' where "newBoltStore B db = (db', None)" and "bolt_ok B H T db'" and "bolt_view B T db' = no_entries"
proof -
  have nb: "\<And>p. \<not> bo_Bucket B db p" using assms(3) by (simp add: fresh_db_def)
  obtain db' where d: "newBoltStore B db = (db', None)" "H db'"
      "bo_Bucket B db' = (\<lambda>p. p \<in> (\<lambda>b. [b]) ` set top_buckets)" "bo_Get B db' = bo_Get B db"
    using newBoltStore_ok [OF L H nb] nb by auto
  have g: "bo_Get B db' = (\<lambda>p k. None)" using bo_missing [OF L H nb] d(4) by (simp add: fun_eq_iff)
  have "bolt_ok B H T db'" using d(2,3) g by (auto simp: bolt_ok_def tree_ok_def top_buckets_def bucket_path_def)
  moreover have "bolt_view B T db' = no_entries"
    using g by (auto simp: bolt_view_def tree_view_def no_entries_def fun_eq_iff)
  ultimately show ?thesis using d(1) that by blast
qed

lemma newBoltStore_again:
  assumes L: "bolt_laws B H" and ok: "bolt_ok B H T db"
  obtains db' where "newBoltStore B db = (db', None)" and "bolt_ok B H T db'" and "bolt_view B T db' = bolt_view B T db"
proof -
  have H: "H db" and t: "tree_ok T (bo_Bucket B db) (bo_Get B db)" using ok by (auto simp: bolt_ok_def)
  have nb: "\<not> bo_Bucket B db []" using tree_shape [OF t, of "[]"] by (auto simp: bucket_path_def)
  obtain db' where d: "newBoltStore B db = (db', None)" "H db'" "bo_Get B db' = bo_Get B db"
      "bo_Bucket B db' = (\<lambda>p. bo_Bucket B db p \<or> p \<in> (\<lambda>b. [b]) ` set top_buckets)"
    using newBoltStore_ok [OF L H nb] by blast
  moreover have "bo_Bucket B db' = bo_Bucket B db"
    using d(4) tree_tops [OF t] by (auto simp: top_buckets_def fun_eq_iff)
  ultimately show ?thesis using t that by (simp add: bolt_ok_def bolt_view_def)
qed

subsection \<open>Determinacy of the contract\<close>

text \<open>Two answers that may only differ in the order of the listed fabrics.\<close>

fun same_reply :: "reply \<Rightarrow> reply \<Rightarrow> bool" where
  "same_reply (RFabrics fs) r = (\<exists>gs. r = RFabrics gs \<and> distinct fs \<and> distinct gs \<and> set fs = set gs)"
| "same_reply r s = (r = s)"

lemma same_reply_refl [intro]: "(\<And>fs. r \<noteq> RFabrics fs) \<Longrightarrow> same_reply r r"
  by (cases r) auto

lemma found_not_fabrics: "(\<And>x fs. h x \<noteq> RFabrics fs) \<Longrightarrow> found e h x \<noteq> RFabrics fs"
  by (auto simp: found_def split: option.splits)

lemma answers_determined:
  assumes "wf_view v" and "answers c v r" and "answers c v s"
  shows "same_reply r s"
proof (cases c)
  case ListFabrics
  then show ?thesis using assms by (auto simp: distinct_map)
next
  case (ListNodes i)
  show ?thesis
  proof (cases "sv_fabrics v i")
    case None
    then show ?thesis using assms ListNodes by simp
  next
    case (Some f)
    then obtain ms ns where m: "r = RNodes ms" "sorted (map node_ID ms)" "distinct (map node_ID ms)"
        and n: "s = RNodes ns" "sorted (map node_ID ns)" "distinct (map node_ID ns)"
        and eq: "set ms = set ns" "set ns = {m. \<exists>n. sv_nodes v (i, n) = Some m}"
      using assms(2,3) ListNodes by auto
    have "inj_on node_ID (set ms \<union> set ns)"
      using m(3) eq(1) by (simp add: distinct_map)
    then have "ms = ns" using m n eq(1) map_sorted_distinct_set_unique by blast
    then show ?thesis using m n by simp
  qed
qed (use assms(2,3) in \<open>auto simp: given_def intro!: same_reply_refl found_not_fabrics split: option.splits\<close>)

lemma conforms_determined:
  "wf_view v \<Longrightarrow> keeps_ids canon \<Longrightarrow> conforms canon cs v rs \<Longrightarrow> conforms canon cs v ss \<Longrightarrow>
     list_all2 same_reply rs ss"
proof (induction cs arbitrary: v rs ss)
  case (Cons c cs)
  from Cons.prems obtain r rs' s ss' where l: "rs = r # rs'" "ss = s # ss'" by (cases rs; cases ss) auto
  have "wf_view (updates canon c v)" by (rule wf_view_updates) (use Cons.prems in auto)
  then have "list_all2 same_reply rs' ss'" using Cons.IH Cons.prems l by simp
  moreover have "same_reply r s" by (rule answers_determined) (use Cons.prems l in auto)
  ultimately show ?case using l by simp
qed simp

text \<open>Without an empty attribute cache, a round trip through JSON changes no node.\<close>

fun exact_cmd :: "cmd \<Rightarrow> bool" where
  "exact_cmd (SaveNode i (Some n)) = (collapse n = n)"
| "exact_cmd _ = True"

lemma updates_exact:
  assumes "exact_cmd c"
  shows "updates collapse c v = updates (\<lambda>n. n) c v"
proof (cases c)
  case (SaveFabric f)
  then show ?thesis by (cases f) simp_all
next
  case (SaveNode i n)
  show ?thesis
  proof (cases n)
    case (Some m)
    then have "collapse m = m" using assms SaveNode by simp
    then have "collapse (m\<lparr>node_FabricID := i\<rparr>) = m\<lparr>node_FabricID := i\<rparr>"
      by (cases m) (simp add: collapse_def)
    then show ?thesis using SaveNode Some by simp
  qed (use SaveNode in simp)
next
  case (SaveResumptionInfo r)
  then show ?thesis by (cases r) simp_all
qed simp_all

lemma conforms_exact:
  "list_all exact_cmd cs \<Longrightarrow> conforms collapse cs v rs = conforms (\<lambda>n. n) cs v rs"
  by (induction cs arbitrary: v rs) (auto simp: updates_exact split: list.splits)

subsection \<open>The properties\<close>

text \<open>
  C34 The in-memory store meets the contract of \<^verbatim>\<open>Store\<close>: whatever order the runtime visits the keys
  of a map in, every sequence of calls on a new store gets answers the contract allows, the store's
  maps end in the contract's state, and nodes only ever exist under a fabric that exists and are
  filed under their own identifiers.
\<close>

theorem memory_store_refines:
  assumes "visits ord"
  shows "conforms (\<lambda>n. n) cs no_entries (fst (run (memory_step ord) cs NewMemoryStore)) \<and>
    memory_view (snd (run (memory_step ord) cs NewMemoryStore)) = view_after (\<lambda>n. n) cs no_entries \<and>
    wf_view (view_after (\<lambda>n. n) cs no_entries)"
proof -
  have "list_all (\<lambda>c. True) cs" by (simp add: list_all_iff)
  from store.run_refines [OF memory_store [OF assms] memory_new(1) this]
  show ?thesis unfolding memory_ok_def memory_new(2) by metis
qed

definition sample_time :: Time where "sample_time = \<lparr>t_sec = 1767225600, t_nsec = 0, t_offset = 0\<rparr>"

definition sample_fabric :: Fabric where
  "sample_fabric = \<lparr>fab_ID = 1, fab_Label = bytes_of_string ''home'', fab_RootCertPEM = [], fab_ICACertPEM = [],
     fab_PrivateKeyPEM = [], fab_VendorID = 0xFFF1, fab_FabricIndex = 1, fab_CreatedAt = sample_time\<rparr>"

definition sample_node :: Node where
  "sample_node = \<lparr>node_ID = 7, node_FabricID = 0, node_Name = bytes_of_string ''lamp'', node_VendorID = 0xFFF1,
     node_ProductID = 0x8000, node_SpecificationVersion = 0, node_SoftwareVersion = 2, node_SerialNumber = [],
     node_Endpoints = [\<lparr>ept_ID = 1, ept_DeviceTypes = [\<lparr>dt_ID = 256, dt_Revision = 3\<rparr>],
       ept_Clusters = [\<lparr>cr_ID = 6, cr_Name = bytes_of_string ''OnOff'', cr_Side = bytes_of_string ''server'',
         cr_Attributes = Some [0]\<rparr>]\<rparr>],
     node_LastAddress = [], node_LastSeen = sample_time\<rparr>"

definition sample_cmds :: "cmd list" where
  "sample_cmds = [SaveNode 1 (Some sample_node), SaveFabric (Some sample_fabric), SaveNode 1 (Some sample_node),
     GetNode 1 7, DeleteFabric 1, SaveFabric (Some sample_fabric), GetNode 1 7]"

lemma sample_replies:
  "fst (run (memory_step sorted_order) sample_cmds NewMemoryStore) =
     [RErr (fabric_not_found 1), RDone, RDone, RNode (sample_node\<lparr>node_FabricID := 1\<rparr>), RDone, RDone,
      RErr (node_not_found 1 7)]"
  by (simp add: sample_cmds_def NewMemoryStore_def memory_defs Let_def sample_fabric_def sample_node_def)

theorem memory_store_refines_witness:
  "conforms (\<lambda>n. n) sample_cmds no_entries
     [RErr (fabric_not_found 1), RDone, RDone, RNode (sample_node\<lparr>node_FabricID := 1\<rparr>), RDone, RDone,
      RErr (node_not_found 1 7)] \<and>
   wf_view (view_after (\<lambda>n. n) sample_cmds no_entries)"
  using memory_store_refines [OF visits_sorted_order, of sample_cmds] unfolding sample_replies by blast

text \<open>
  C35 The persistent store meets the same contract on any database with the documented behaviour of
  bbolt: after \<^verbatim>\<open>NewBoltStore\<close> on an empty database, every sequence of calls the database can carry
  out gets the answers the contract allows, and after closing and opening the database again the
  store has exactly the entries the contract says; of a node an empty attribute cache is kept as an
  absent one.
\<close>

theorem bolt_store_refines:
  assumes "bolt_laws B H" and "text_laws T" and "H db" and "fresh_db B db" and "list_all (bolt_admits B T) cs"
  shows "\<exists>db1 db2. newBoltStore B db = (db1, None) \<and>
    conforms collapse cs no_entries (fst (run (bolt_step B T) cs db1)) \<and>
    newBoltStore B (snd (run (bolt_step B T) cs db1)) = (db2, None) \<and>
    bolt_view B T db2 = view_after collapse cs no_entries"
proof -
  obtain db1 where d: "newBoltStore B db = (db1, None)" "bolt_ok B H T db1" "bolt_view B T db1 = no_entries"
    by (rule newBoltStore_fresh [OF assms(1,3,4)])
  note r = store.run_refines [OF bolt_store [OF assms(1,2)] d(2) assms(5)]
  then obtain db2 where "newBoltStore B (snd (run (bolt_step B T) cs db1)) = (db2, None)"
      "bolt_view B T db2 = bolt_view B T (snd (run (bolt_step B T) cs db1))"
    using newBoltStore_again [OF assms(1)] by metis
  with d r show ?thesis by (metis)
qed

text \<open>
  C36 The two stores are interchangeable: from their empty states, any sequence of calls the database
  can carry out gets the same replies from both (listed fabrics up to order), as long as no saved
  node has an attribute cache that is empty but not absent.
\<close>

theorem stores_agree:
  assumes "bolt_laws B H" and "text_laws T" and "H db" and "fresh_db B db" and "list_all (bolt_admits B T) cs"
    and "list_all exact_cmd cs" and "visits ord" and "newBoltStore B db = (db1, None)"
  shows "list_all2 same_reply (fst (run (bolt_step B T) cs db1)) (fst (run (memory_step ord) cs NewMemoryStore))"
proof -
  have ok: "bolt_ok B H T db1" and v: "bolt_view B T db1 = no_entries"
    using newBoltStore_fresh [OF assms(1,3,4), of T] assms(8) by auto
  have bolt: "conforms (\<lambda>n. n) cs no_entries (fst (run (bolt_step B T) cs db1))"
    using store.run_refines [OF bolt_store [OF assms(1,2)] ok assms(5)] assms(6)
    by (simp add: v conforms_exact)
  have "list_all (\<lambda>c. True) cs" by (simp add: list_all_iff)
  from store.run_refines [OF memory_store [OF assms(7)] memory_new(1) this]
  have "conforms (\<lambda>n. n) cs no_entries (fst (run (memory_step ord) cs NewMemoryStore))"
    by (simp add: memory_new)
  from conforms_determined [OF wf_view_empty _ bolt this] show ?thesis by (simp add: keeps_ids_def)
qed

subsection \<open>The laws can hold\<close>

text \<open>
  A database kept as lists of buckets and entries, and text formats that number the documents.
\<close>

type_synonym refdb = "path list \<times> ((path \<times> byte list) \<times> byte list) list"

fun ref_Bucket :: "refdb \<Rightarrow> path \<Rightarrow> bool" where
  "ref_Bucket (bs, es) p = (p \<in> set bs)"

fun ref_Get :: "refdb \<Rightarrow> path \<Rightarrow> byte list \<Rightarrow> byte list option" where
  "ref_Get (bs, es) p k = map_of es (p, k)"

definition ref_accepts :: "byte list \<Rightarrow> byte list \<Rightarrow> bool" where
  "ref_accepts k v \<longleftrightarrow> k \<noteq> [] \<and> length k \<le> 32768"

fun ref_Put :: "refdb \<Rightarrow> path \<Rightarrow> byte list \<Rightarrow> byte list \<Rightarrow> refdb \<times> err option" where
  "ref_Put (bs, es) p k v =
     (if p \<in> set bs \<and> p @ [k] \<notin> set bs \<and> ref_accepts k v
      then ((bs, ((p, k), v) # filter (\<lambda>e. fst e \<noteq> (p, k)) es), None)
      else ((bs, es), Some (Errorf ''put'')))"

fun ref_Delete :: "refdb \<Rightarrow> path \<Rightarrow> byte list \<Rightarrow> refdb \<times> err option" where
  "ref_Delete (bs, es) p k =
     (if p @ [k] \<in> set bs then ((bs, es), Some (Errorf ''delete''))
      else ((bs, filter (\<lambda>e. fst e \<noteq> (p, k)) es), None))"

fun ref_Create :: "refdb \<Rightarrow> path \<Rightarrow> refdb \<times> err option" where
  "ref_Create (bs, es) p = ((p # bs, es), None)"

fun ref_DeleteBucket :: "refdb \<Rightarrow> path \<Rightarrow> refdb \<times> err option" where
  "ref_DeleteBucket (bs, es) p =
     ((filter (\<lambda>q. \<not> prefix p q) bs, filter (\<lambda>e. \<not> prefix p (fst (fst e))) es), None)"

fun ref_ForEach :: "refdb \<Rightarrow> path \<Rightarrow> (byte list \<times> byte list) list" where
  "ref_ForEach (bs, es) p = map (\<lambda>e. (snd (fst e), snd e)) (filter (\<lambda>e. fst (fst e) = p) es)"

definition ref_bolt :: "refdb bolt" where
  "ref_bolt = \<lparr>bo_begin = (\<lambda>_. None), bo_commit = (\<lambda>_. None), bo_accepts = ref_accepts, bo_Bucket = ref_Bucket,
     bo_Get = ref_Get, bo_Put = ref_Put, bo_Delete = ref_Delete, bo_CreateBucketIfNotExists = ref_Create,
     bo_DeleteBucket = ref_DeleteBucket, bo_ForEach = ref_ForEach\<rparr>"

fun ref_ok :: "refdb \<Rightarrow> bool" where
  "ref_ok (bs, es) = (distinct (map fst es) \<and> (\<forall>e \<in> set es. fst (fst e) \<in> set bs))"

lemma map_of_filter_key: "map_of (filter (\<lambda>e. fst e \<noteq> k) es) = (map_of es)(k := None)"
  by (induction es) (auto simp: fun_eq_iff)

lemma map_of_filter_prefix:
  "map_of (filter (\<lambda>e. \<not> P (fst (fst e))) es) (p, k) = (if P p then None else map_of es (p, k))"
  by (induction es) auto

lemma ref_bolt_laws: "bolt_laws ref_bolt ref_ok"
  unfolding bolt_laws_def
proof (intro allI impI conjI)
  fix db assume ok: "ref_ok db"
  obtain bs es where db: "db = (bs, es)" by fastforce
  show "bo_begin ref_bolt db = None" "bo_commit ref_bolt db = None" by (simp_all add: ref_bolt_def)
  show "bo_Get ref_bolt db p k = None" if "\<not> bo_Bucket ref_bolt db p" for p k
    using that ok db by (auto simp: ref_bolt_def map_of_eq_None_iff)
  show "put_law ref_bolt ref_ok db"
    using ok db by (auto simp: put_law_def ref_bolt_def fun_eq_iff map_of_filter_key distinct_map_filter)
  show "delete_law ref_bolt ref_ok db"
    using ok db by (auto simp: delete_law_def ref_bolt_def fun_eq_iff map_of_filter_key distinct_map_filter)
  show "create_law ref_bolt ref_ok db"
    using ok db by (auto simp: create_law_def ref_bolt_def fun_eq_iff)
  show "delete_bucket_law ref_bolt ref_ok db"
    using ok db by (auto simp: delete_bucket_law_def ref_bolt_def fun_eq_iff map_of_filter_prefix distinct_map_filter)
  have "distinct (map fst (ref_ForEach db p))" for p
    using ok db by (fastforce simp: distinct_map inj_on_def)
  moreover have "set (ref_ForEach db p) = {(k, v). ref_Get db p k = Some v}" for p
    using ok db by (force simp: image_def)
  ultimately show "for_each_law ref_bolt db" by (simp add: for_each_law_def ref_bolt_def)
qed

instance json :: countable
  by countable_datatype

definition ref_code :: "'a::countable \<Rightarrow> byte list" where
  "ref_code x = replicate (to_nat x) 0"

definition ref_decode :: "byte list \<Rightarrow> 'a::countable" where
  "ref_decode bs = from_nat (length bs)"

definition ref_text :: text_formats where
  "ref_text = \<lparr>print_json = ref_code, parse_json = (\<lambda>bs. Some (ref_decode bs)),
     print_time = (\<lambda>t. Some (ref_code (t_sec t, t_nsec t, t_offset t))),
     parse_time = (\<lambda>bs. let (s, n, z) = ref_decode bs in Some \<lparr>t_sec = s, t_nsec = n, t_offset = z\<rparr>),
     print_base64 = (\<lambda>bs. ref_code (map unat bs)), parse_base64 = (\<lambda>bs. Some (map of_nat (ref_decode bs)))\<rparr>"

lemma ref_decode_code [simp]: "ref_decode (ref_code x) = x"
  by (simp add: ref_decode_def ref_code_def)

lemma utf8_ref_code [simp]: "utf8_Valid (ref_code x)"
proof -
  have "utf8_Valid (replicate n 0)" for n by (induction n) auto
  then show ?thesis by (simp add: ref_code_def)
qed

lemma ref_text_laws: "text_laws ref_text"
  by (auto simp: text_laws_def ref_text_def comp_def)

lemma sample_utf8:
  "utf8_Valid (bytes_of_string ''home'')" "utf8_Valid (bytes_of_string ''lamp'')"
  "utf8_Valid (bytes_of_string ''OnOff'')" "utf8_Valid (bytes_of_string ''server'')"
  by (simp_all add: bytes_of_string_def of_char_def)

lemma ref_accepts_keys: "ref_accepts (fabricKey 1) v" "ref_accepts (fabricKey 7) v"
  by (simp_all add: ref_accepts_def fabricKey_def bytes_of_string_def fmt_d.simps)

lemma sample_admits: "list_all (bolt_admits ref_bolt ref_text) sample_cmds"
proof -
  have "enc_time ref_text t = Some (JStr (ref_code (t_sec t, t_nsec t, t_offset t)))" for t
    by (simp add: enc_time_def ref_text_def)
  then show ?thesis
    by (simp add: sample_cmds_def accepts_doc_def enc_fabric_def enc_node_def sample_fabric_def sample_node_def
        enc_endpoint_def enc_cluster_def enc_device_type_def enc_u_def omit_def sample_utf8 ref_bolt_def
        ref_accepts_keys)
qed

lemma fresh_ref: "fresh_db ref_bolt ([], [])"
  by (simp add: fresh_db_def ref_bolt_def)

theorem bolt_store_refines_witness:
  "\<exists>db1 db2. newBoltStore ref_bolt ([], []) = (db1, None) \<and>
    conforms collapse sample_cmds no_entries (fst (run (bolt_step ref_bolt ref_text) sample_cmds db1)) \<and>
    newBoltStore ref_bolt (snd (run (bolt_step ref_bolt ref_text) sample_cmds db1)) = (db2, None) \<and>
    bolt_view ref_bolt ref_text db2 = view_after collapse sample_cmds no_entries"
  using bolt_store_refines [OF ref_bolt_laws ref_text_laws _ fresh_ref sample_admits] by simp

lemma sample_exact: "list_all exact_cmd sample_cmds"
  by (simp add: sample_cmds_def sample_node_def collapse_def collapse_endpoint_def collapse_cluster_def)

lemma ref_opened:
  "newBoltStore ref_bolt ([], []) = (([[bucketKV], [bucketResumption], [bucketNodes], [bucketFabrics]], []), None)"
  by (simp add: newBoltStore_def ref_bolt_def db_Update_def)

theorem stores_agree_witness:
  "list_all2 same_reply
     (fst (run (bolt_step ref_bolt ref_text) sample_cmds
       ([[bucketKV], [bucketResumption], [bucketNodes], [bucketFabrics]], [])))
     [RErr (fabric_not_found 1), RDone, RDone, RNode (sample_node\<lparr>node_FabricID := 1\<rparr>), RDone, RDone,
      RErr (node_not_found 1 7)]"
  using stores_agree [OF ref_bolt_laws ref_text_laws _ fresh_ref sample_admits sample_exact visits_sorted_order ref_opened]
  unfolding sample_replies by simp

end
