(* ===== verification/Im_Types.thy ===== *)
theory Im_Types
  imports Tlv_Reflection "HOL-Library.Monad_Syntax"
begin

text \<open>
  The data of \<^verbatim>\<open>internal/interaction\<close>: the opcodes and status codes (\<^verbatim>\<open>status.go\<close>), the paths
  (\<^verbatim>\<open>path.go\<close>) and the messages (\<^verbatim>\<open>read.go\<close>, \<^verbatim>\<open>write.go\<close>, \<^verbatim>\<open>invoke.go\<close>, \<^verbatim>\<open>subscribe.go\<close>), each as a
  record with its \<open>gv_\<close> function, the Go value with the struct tags that \<^verbatim>\<open>tlv.Marshal\<close> sees, and,
  for the messages a client receives, its \<open>of_\<close> function, which reads the record off a decoded Go
  value.
\<close>

subsection \<open>Opcodes and status codes\<close>

definition ProtocolID_IM :: u16 where [const_defs]: "ProtocolID_IM = 0x0001"

definition OpcodeStatusResponse :: byte where [const_defs]: "OpcodeStatusResponse = 0x01"

definition OpcodeReadRequest :: byte where [const_defs]: "OpcodeReadRequest = 0x02"

definition OpcodeSubscribeRequest :: byte where [const_defs]: "OpcodeSubscribeRequest = 0x03"

definition OpcodeSubscribeResponse :: byte where [const_defs]: "OpcodeSubscribeResponse = 0x04"

definition OpcodeReportData :: byte where [const_defs]: "OpcodeReportData = 0x05"

definition OpcodeWriteRequest :: byte where [const_defs]: "OpcodeWriteRequest = 0x06"

definition OpcodeWriteResponse :: byte where [const_defs]: "OpcodeWriteResponse = 0x07"

definition OpcodeInvokeRequest :: byte where [const_defs]: "OpcodeInvokeRequest = 0x08"

definition OpcodeInvokeResponse :: byte where [const_defs]: "OpcodeInvokeResponse = 0x09"

definition OpcodeTimedRequest :: byte where [const_defs]: "OpcodeTimedRequest = 0x0A"

definition StatusSuccess :: byte where [const_defs]: "StatusSuccess = 0x00"

definition StatusFailure :: byte where [const_defs]: "StatusFailure = 0x01"

definition StatusInvalidSubscription :: byte where [const_defs]: "StatusInvalidSubscription = 0x7D"

definition StatusUnsupportedAccess :: byte where [const_defs]: "StatusUnsupportedAccess = 0x7E"

definition StatusUnsupportedEndpoint :: byte where [const_defs]: "StatusUnsupportedEndpoint = 0x7F"

definition StatusInvalidAction :: byte where [const_defs]: "StatusInvalidAction = 0x80"

definition StatusUnsupportedCommand :: byte where [const_defs]: "StatusUnsupportedCommand = 0x81"

definition StatusInvalidCommand :: byte where [const_defs]: "StatusInvalidCommand = 0x85"

definition StatusUnsupportedAttribute :: byte where [const_defs]: "StatusUnsupportedAttribute = 0x86"

definition StatusConstraintError :: byte where [const_defs]: "StatusConstraintError = 0x87"

definition StatusUnsupportedWrite :: byte where [const_defs]: "StatusUnsupportedWrite = 0x88"

definition StatusResourceExhausted :: byte where [const_defs]: "StatusResourceExhausted = 0x89"

definition StatusNotFound :: byte where [const_defs]: "StatusNotFound = 0x8B"

definition StatusUnreportableAttribute :: byte where [const_defs]: "StatusUnreportableAttribute = 0x8C"

definition StatusInvalidDataType :: byte where [const_defs]: "StatusInvalidDataType = 0x8D"

definition StatusUnsupportedRead :: byte where [const_defs]: "StatusUnsupportedRead = 0x8F"

definition StatusDataVersionMismatch :: byte where [const_defs]: "StatusDataVersionMismatch = 0x92"

definition StatusTimeout :: byte where [const_defs]: "StatusTimeout = 0x94"

definition StatusBusy :: byte where [const_defs]: "StatusBusy = 0x9C"

definition StatusAccessRestricted :: byte where [const_defs]: "StatusAccessRestricted = 0x9D"

definition StatusUnsupportedCluster :: byte where [const_defs]: "StatusUnsupportedCluster = 0xC3"

definition StatusNoUpstreamSubscription :: byte where [const_defs]: "StatusNoUpstreamSubscription = 0xC5"

definition StatusNeedsTimedInteraction :: byte where [const_defs]: "StatusNeedsTimedInteraction = 0xC6"

definition StatusUnsupportedEvent :: byte where [const_defs]: "StatusUnsupportedEvent = 0xC7"

definition StatusPathsExhausted :: byte where [const_defs]: "StatusPathsExhausted = 0xC8"

definition StatusTimedRequestMismatch :: byte where [const_defs]: "StatusTimedRequestMismatch = 0xC9"

definition StatusFailsafeRequired :: byte where [const_defs]: "StatusFailsafeRequired = 0xCA"

definition StatusInvalidInState :: byte where [const_defs]: "StatusInvalidInState = 0xCB"

definition StatusNoCommandResponse :: byte where [const_defs]: "StatusNoCommandResponse = 0xCC"

definition StatusDynamicConstraintError :: byte where [const_defs]: "StatusDynamicConstraintError = 0xCF"

definition StatusAlreadyExists :: byte where [const_defs]: "StatusAlreadyExists = 0xD0"

definition StatusInvalidTransportType :: byte where [const_defs]: "StatusInvalidTransportType = 0xD1"

definition statusNames :: "(byte \<times> string) list" where
  "statusNames =
     [(StatusSuccess, ''SUCCESS''),
      (StatusFailure, ''FAILURE''),
      (StatusInvalidSubscription, ''INVALID_SUBSCRIPTION''),
      (StatusUnsupportedAccess, ''UNSUPPORTED_ACCESS''),
      (StatusUnsupportedEndpoint, ''UNSUPPORTED_ENDPOINT''),
      (StatusInvalidAction, ''INVALID_ACTION''),
      (StatusUnsupportedCommand, ''UNSUPPORTED_COMMAND''),
      (StatusInvalidCommand, ''INVALID_COMMAND''),
      (StatusUnsupportedAttribute, ''UNSUPPORTED_ATTRIBUTE''),
      (StatusConstraintError, ''CONSTRAINT_ERROR''),
      (StatusUnsupportedWrite, ''UNSUPPORTED_WRITE''),
      (StatusResourceExhausted, ''RESOURCE_EXHAUSTED''),
      (StatusNotFound, ''NOT_FOUND''),
      (StatusUnreportableAttribute, ''UNREPORTABLE_ATTRIBUTE''),
      (StatusInvalidDataType, ''INVALID_DATA_TYPE''),
      (StatusUnsupportedRead, ''UNSUPPORTED_READ''),
      (StatusDataVersionMismatch, ''DATA_VERSION_MISMATCH''),
      (StatusTimeout, ''TIMEOUT''),
      (StatusBusy, ''BUSY''),
      (StatusAccessRestricted, ''ACCESS_RESTRICTED''),
      (StatusUnsupportedCluster, ''UNSUPPORTED_CLUSTER''),
      (StatusNoUpstreamSubscription, ''NO_UPSTREAM_SUBSCRIPTION''),
      (StatusNeedsTimedInteraction, ''NEEDS_TIMED_INTERACTION''),
      (StatusUnsupportedEvent, ''UNSUPPORTED_EVENT''),
      (StatusPathsExhausted, ''PATHS_EXHAUSTED''),
      (StatusTimedRequestMismatch, ''TIMED_REQUEST_MISMATCH''),
      (StatusFailsafeRequired, ''FAILSAFE_REQUIRED''),
      (StatusInvalidInState, ''INVALID_IN_STATE''),
      (StatusNoCommandResponse, ''NO_COMMAND_RESPONSE''),
      (StatusDynamicConstraintError, ''DYNAMIC_CONSTRAINT_ERROR''),
      (StatusAlreadyExists, ''ALREADY_EXISTS''),
      (StatusInvalidTransportType, ''INVALID_TRANSPORT_TYPE'')]"

definition StatusCode_String :: "byte \<Rightarrow> string" where
  "StatusCode_String s = (case map_of statusNames s of Some name \<Rightarrow> name | None \<Rightarrow> ''UNKNOWN'')"

definition FormatStatus :: "byte \<Rightarrow> byte option \<Rightarrow> string" where
  "FormatStatus code clusterCode =
     StatusCode_String code @ '' (0x'' @ fmt_02X code @ '')'' @
     (case clusterCode of None \<Rightarrow> '''' | Some c \<Rightarrow> '', cluster status 0x'' @ fmt_02X c)"

text \<open>
  The errors of the package: those of the layers below, a status as a typed error, a status with a
  message of its own, and a wrapping one.
\<close>

datatype im_err =
    IErr err | StatusError byte "byte option" | WrappedStatus string im_err | IErrorw string im_err

definition NewStatusError :: "byte \<Rightarrow> byte option \<Rightarrow> im_err" where
  "NewStatusError code cluster = StatusError code cluster"

definition WrapStatus :: "string \<Rightarrow> im_err \<Rightarrow> im_err" where
  "WrapStatus msg se = WrappedStatus msg se"

text \<open>\<^verbatim>\<open>errors.As\<close> for \<^verbatim>\<open>*StatusError\<close>: the first status in the chain.\<close>

fun as_status :: "im_err \<Rightarrow> (byte \<times> byte option) option" where
  "as_status (StatusError code cluster) = Some (code, cluster)"
| "as_status (WrappedStatus msg e) = as_status e"
| "as_status (IErrorw msg e) = as_status e"
| "as_status (IErr e) = None"

definition IsStatus :: "im_err \<Rightarrow> byte \<Rightarrow> bool" where
  "IsStatus e code = (case as_status e of None \<Rightarrow> False | Some (c, _) \<Rightarrow> c = code)"

subsection \<open>Go values of the field types\<close>

definition g_u :: "nat \<Rightarrow> 'a::len word \<Rightarrow> goval" where "g_u n w = GUint n (ucast w)"

definition g_ptr :: "gotype \<Rightarrow> ('a \<Rightarrow> goval) \<Rightarrow> 'a option \<Rightarrow> goval" where
  "g_ptr t f x = GPtr t (map_option f x)"

fun o_u :: "goval \<Rightarrow> 'a::len word option" where
  "o_u (GUint n x) = Some (ucast x)"
| "o_u _ = None"

fun o_bool :: "goval \<Rightarrow> bool option" where
  "o_bool (GBool b) = Some b"
| "o_bool _ = None"

fun o_bytes :: "goval \<Rightarrow> byte list option" where
  "o_bytes (GBytes b) = Some b"
| "o_bytes _ = None"

fun o_ptr :: "(goval \<Rightarrow> 'a option) \<Rightarrow> goval \<Rightarrow> 'a option option" where
  "o_ptr f (GPtr t None) = Some None"
| "o_ptr f (GPtr t (Some v)) = map_option Some (f v)"
| "o_ptr f _ = None"

fun o_slice :: "(goval \<Rightarrow> 'a option) \<Rightarrow> goval \<Rightarrow> 'a list option" where
  "o_slice f (GSlice t vs) = those (map f vs)"
| "o_slice f _ = None"

fun o_fields :: "goval \<Rightarrow> goval list" where
  "o_fields (GStruct n fs) = map (\<lambda>(name, tag, v). v) fs"
| "o_fields _ = []"

text \<open>\<^verbatim>\<open>tlv.Optional\<close> over a type.\<close>

datatype 'a tri = Absent | Null | Present 'a

fun g_tri :: "nat \<Rightarrow> 'a::len word tri \<Rightarrow> goval" where
  "g_tri n Absent = zero (KOptional (KUint n))"
| "g_tri n Null = OptionalNull (KUint n)"
| "g_tri n (Present w) = OptionalValue (g_u n w)"

fun o_tri :: "goval \<Rightarrow> 'a::len word tri option" where
  "o_tri (GOptional t st v) =
     (if st = optionalAbsent then Some Absent else if st = optionalNull then Some Null
      else map_option Present (o_u v))"
| "o_tri _ = None"

subsection \<open>Paths\<close>

record AttributePath =
  ap_EnableTagCompression :: "bool option"
  ap_NodeID :: "u64 option"
  ap_EndpointID :: "u16 option"
  ap_ClusterID :: "u32 option"
  ap_AttributeID :: "u32 option"
  ap_ListIndex :: "u16 tri"

definition T_AttributePath :: gotype where
  "T_AttributePath = KStruct ''AttributePath''
     [(''EnableTagCompression'', ''0,bool'', KPtr KBool), (''NodeID'', ''1,uint'', KPtr (KUint 64)),
      (''EndpointID'', ''2,uint'', KPtr (KUint 16)), (''ClusterID'', ''3,uint'', KPtr (KUint 32)),
      (''AttributeID'', ''4,uint'', KPtr (KUint 32)), (''ListIndex'', ''5,uint'', KOptional (KUint 16))]"

definition gv_AttributePath :: "AttributePath \<Rightarrow> goval" where
  "gv_AttributePath p = GStruct ''AttributePath''
     [(''EnableTagCompression'', ''0,bool'', g_ptr KBool GBool (ap_EnableTagCompression p)),
      (''NodeID'', ''1,uint'', g_ptr (KUint 64) (g_u 64) (ap_NodeID p)),
      (''EndpointID'', ''2,uint'', g_ptr (KUint 16) (g_u 16) (ap_EndpointID p)),
      (''ClusterID'', ''3,uint'', g_ptr (KUint 32) (g_u 32) (ap_ClusterID p)),
      (''AttributeID'', ''4,uint'', g_ptr (KUint 32) (g_u 32) (ap_AttributeID p)),
      (''ListIndex'', ''5,uint'', g_tri 16 (ap_ListIndex p))]"

definition of_AttributePath :: "goval \<Rightarrow> AttributePath option" where
  "of_AttributePath v = (case o_fields v of
     [a, b, c, d, e, f] \<Rightarrow> do {
       a \<leftarrow> o_ptr o_bool a; b \<leftarrow> o_ptr o_u b; c \<leftarrow> o_ptr o_u c; d \<leftarrow> o_ptr o_u d; e \<leftarrow> o_ptr o_u e; f \<leftarrow> o_tri f;
       Some \<lparr>ap_EnableTagCompression = a, ap_NodeID = b, ap_EndpointID = c, ap_ClusterID = d,
         ap_AttributeID = e, ap_ListIndex = f\<rparr> }
   | _ \<Rightarrow> None)"

definition NewAttributePath :: "u16 \<Rightarrow> u32 \<Rightarrow> u32 \<Rightarrow> AttributePath" where
  "NewAttributePath endpoint cluster attribute =
     \<lparr>ap_EnableTagCompression = None, ap_NodeID = None, ap_EndpointID = Some endpoint,
       ap_ClusterID = Some cluster, ap_AttributeID = Some attribute, ap_ListIndex = Absent\<rparr>"

definition NewWildcardAttributePath :: "u16 \<Rightarrow> u32 \<Rightarrow> AttributePath" where
  "NewWildcardAttributePath endpoint cluster =
     \<lparr>ap_EnableTagCompression = None, ap_NodeID = None, ap_EndpointID = Some endpoint,
       ap_ClusterID = Some cluster, ap_AttributeID = None, ap_ListIndex = Absent\<rparr>"

record EventPath =
  evp_NodeID :: "u64 option"
  evp_EndpointID :: "u16 option"
  evp_ClusterID :: "u32 option"
  evp_EventID :: "u32 option"
  evp_IsUrgent :: "bool option"

definition T_EventPath :: gotype where
  "T_EventPath = KStruct ''EventPath''
     [(''NodeID'', ''1,uint'', KPtr (KUint 64)), (''EndpointID'', ''2,uint'', KPtr (KUint 16)),
      (''ClusterID'', ''3,uint'', KPtr (KUint 32)), (''EventID'', ''4,uint'', KPtr (KUint 32)),
      (''IsUrgent'', ''5,bool'', KPtr KBool)]"

definition gv_EventPath :: "EventPath \<Rightarrow> goval" where
  "gv_EventPath p = GStruct ''EventPath''
     [(''NodeID'', ''1,uint'', g_ptr (KUint 64) (g_u 64) (evp_NodeID p)),
      (''EndpointID'', ''2,uint'', g_ptr (KUint 16) (g_u 16) (evp_EndpointID p)),
      (''ClusterID'', ''3,uint'', g_ptr (KUint 32) (g_u 32) (evp_ClusterID p)),
      (''EventID'', ''4,uint'', g_ptr (KUint 32) (g_u 32) (evp_EventID p)),
      (''IsUrgent'', ''5,bool'', g_ptr KBool GBool (evp_IsUrgent p))]"

record CommandPath =
  cp_EndpointID :: u16
  cp_ClusterID :: u32
  cp_CommandID :: u32

definition T_CommandPath :: gotype where
  "T_CommandPath = KStruct ''CommandPath''
     [(''EndpointID'', ''0,uint'', KUint 16), (''ClusterID'', ''1,uint'', KUint 32), (''CommandID'', ''2,uint'', KUint 32)]"

definition gv_CommandPath :: "CommandPath \<Rightarrow> goval" where
  "gv_CommandPath p = GStruct ''CommandPath''
     [(''EndpointID'', ''0,uint'', g_u 16 (cp_EndpointID p)), (''ClusterID'', ''1,uint'', g_u 32 (cp_ClusterID p)),
      (''CommandID'', ''2,uint'', g_u 32 (cp_CommandID p))]"

definition of_CommandPath :: "goval \<Rightarrow> CommandPath option" where
  "of_CommandPath v = (case o_fields v of
     [a, b, c] \<Rightarrow> do {
       a \<leftarrow> o_u a; b \<leftarrow> o_u b; c \<leftarrow> o_u c;
       Some \<lparr>cp_EndpointID = a, cp_ClusterID = b, cp_CommandID = c\<rparr> }
   | _ \<Rightarrow> None)"

definition NewCommandPath :: "u16 \<Rightarrow> u32 \<Rightarrow> u32 \<Rightarrow> CommandPath" where
  "NewCommandPath endpoint cluster command =
     \<lparr>cp_EndpointID = endpoint, cp_ClusterID = cluster, cp_CommandID = command\<rparr>"

subsection \<open>Status blocks\<close>

record StatusIB =
  si_Status :: byte
  si_ClusterStatus :: "byte option"

definition T_StatusIB :: gotype where
  "T_StatusIB = KStruct ''StatusIB'' [(''Status'', ''0,uint'', KUint 8), (''ClusterStatus'', ''1,uint'', KPtr (KUint 8))]"

definition gv_StatusIB :: "StatusIB \<Rightarrow> goval" where
  "gv_StatusIB s = GStruct ''StatusIB''
     [(''Status'', ''0,uint'', g_u 8 (si_Status s)), (''ClusterStatus'', ''1,uint'', g_ptr (KUint 8) (g_u 8) (si_ClusterStatus s))]"

definition of_StatusIB :: "goval \<Rightarrow> StatusIB option" where
  "of_StatusIB v = (case o_fields v of
     [a, b] \<Rightarrow> do { a \<leftarrow> o_u a; b \<leftarrow> o_ptr o_u b; Some \<lparr>si_Status = a, si_ClusterStatus = b\<rparr> }
   | _ \<Rightarrow> None)"

definition statusFromIB :: "StatusIB \<Rightarrow> im_err option" where
  "statusFromIB ib =
     (if si_Status ib = StatusSuccess then None else Some (StatusError (si_Status ib) (si_ClusterStatus ib)))"

definition statusFromCode :: "byte \<Rightarrow> im_err option" where
  "statusFromCode code = (if code = StatusSuccess then None else Some (StatusError code None))"

definition gv_StatusResponseMessage :: "byte \<Rightarrow> goval" where
  "gv_StatusResponseMessage s = GStruct ''StatusResponseMessage'' [(''Status'', ''0,uint'', g_u 8 s)]"

definition of_StatusResponseMessage :: "goval \<Rightarrow> byte option" where
  "of_StatusResponseMessage v = (case o_fields v of [a] \<Rightarrow> o_u a | _ \<Rightarrow> None)"

subsection \<open>Reports\<close>

record AttributeStatus =
  as_Path :: AttributePath
  as_Status :: StatusIB

definition T_AttributeStatus :: gotype where
  "T_AttributeStatus = KStruct ''AttributeStatus''
     [(''Path'', ''0,liststruct'', T_AttributePath), (''Status'', ''1,struct'', T_StatusIB)]"

definition gv_AttributeStatus :: "AttributeStatus \<Rightarrow> goval" where
  "gv_AttributeStatus s = GStruct ''AttributeStatus''
     [(''Path'', ''0,liststruct'', gv_AttributePath (as_Path s)), (''Status'', ''1,struct'', gv_StatusIB (as_Status s))]"

definition of_AttributeStatus :: "goval \<Rightarrow> AttributeStatus option" where
  "of_AttributeStatus v = (case o_fields v of
     [a, b] \<Rightarrow> do { a \<leftarrow> of_AttributePath a; b \<leftarrow> of_StatusIB b; Some \<lparr>as_Path = a, as_Status = b\<rparr> }
   | _ \<Rightarrow> None)"

record AttributeData =
  ad_DataVersion :: u32
  ad_Path :: AttributePath
  ad_Data :: "byte list"

definition T_AttributeData :: gotype where
  "T_AttributeData = KStruct ''AttributeData''
     [(''DataVersion'', ''0,uint'', KUint 32), (''Path'', ''1,liststruct'', T_AttributePath), (''Data'', ''2,rawtlv'', KBytes)]"

definition gv_AttributeData :: "AttributeData \<Rightarrow> goval" where
  "gv_AttributeData d = GStruct ''AttributeData''
     [(''DataVersion'', ''0,uint'', g_u 32 (ad_DataVersion d)), (''Path'', ''1,liststruct'', gv_AttributePath (ad_Path d)),
      (''Data'', ''2,rawtlv'', GBytes (ad_Data d))]"

definition of_AttributeData :: "goval \<Rightarrow> AttributeData option" where
  "of_AttributeData v = (case o_fields v of
     [a, b, c] \<Rightarrow> do {
       a \<leftarrow> o_u a; b \<leftarrow> of_AttributePath b; c \<leftarrow> o_bytes c;
       Some \<lparr>ad_DataVersion = a, ad_Path = b, ad_Data = c\<rparr> }
   | _ \<Rightarrow> None)"

record AttributeReport =
  ar_Status :: "AttributeStatus option"
  ar_Data :: "AttributeData option"

definition T_AttributeReport :: gotype where
  "T_AttributeReport = KStruct ''AttributeReport''
     [(''Status'', ''0,struct'', KPtr T_AttributeStatus), (''Data'', ''1,struct'', KPtr T_AttributeData)]"

definition gv_AttributeReport :: "AttributeReport \<Rightarrow> goval" where
  "gv_AttributeReport r = GStruct ''AttributeReport''
     [(''Status'', ''0,struct'', g_ptr T_AttributeStatus gv_AttributeStatus (ar_Status r)),
      (''Data'', ''1,struct'', g_ptr T_AttributeData gv_AttributeData (ar_Data r))]"

definition of_AttributeReport :: "goval \<Rightarrow> AttributeReport option" where
  "of_AttributeReport v = (case o_fields v of
     [a, b] \<Rightarrow> do {
       a \<leftarrow> o_ptr of_AttributeStatus a; b \<leftarrow> o_ptr of_AttributeData b; Some \<lparr>ar_Status = a, ar_Data = b\<rparr> }
   | _ \<Rightarrow> None)"

record ReportData =
  rd_SubscriptionID :: "u32 option"
  rd_AttributeReports :: "AttributeReport list"
  rd_MoreChunkedMessages :: "bool option"
  rd_SuppressResponse :: "bool option"

definition gv_ReportData :: "ReportData \<Rightarrow> goval" where
  "gv_ReportData r = GStruct ''ReportData''
     [(''SubscriptionID'', ''0,uint'', g_ptr (KUint 32) (g_u 32) (rd_SubscriptionID r)),
      (''AttributeReports'', ''1,array'', GSlice T_AttributeReport (map gv_AttributeReport (rd_AttributeReports r))),
      (''MoreChunkedMessages'', ''3,bool'', g_ptr KBool GBool (rd_MoreChunkedMessages r)),
      (''SuppressResponse'', ''4,bool'', g_ptr KBool GBool (rd_SuppressResponse r))]"

definition of_ReportData :: "goval \<Rightarrow> ReportData option" where
  "of_ReportData v = (case o_fields v of
     [a, b, c, d] \<Rightarrow> do {
       a \<leftarrow> o_ptr o_u a; b \<leftarrow> o_slice of_AttributeReport b; c \<leftarrow> o_ptr o_bool c; d \<leftarrow> o_ptr o_bool d;
       Some \<lparr>rd_SubscriptionID = a, rd_AttributeReports = b, rd_MoreChunkedMessages = c, rd_SuppressResponse = d\<rparr> }
   | _ \<Rightarrow> None)"

subsection \<open>Requests and responses\<close>

record ReadRequest =
  rr_AttributeRequests :: "AttributePath list"
  rr_EventRequests :: "EventPath list"
  rr_FabricFiltered :: bool

definition gv_ReadRequest :: "ReadRequest \<Rightarrow> goval" where
  "gv_ReadRequest r = GStruct ''ReadRequest''
     [(''AttributeRequests'', ''0,listarray'', GSlice T_AttributePath (map gv_AttributePath (rr_AttributeRequests r))),
      (''EventRequests'', ''1,listarray'', GSlice T_EventPath (map gv_EventPath (rr_EventRequests r))),
      (''FabricFiltered'', ''3,bool'', GBool (rr_FabricFiltered r))]"

record AttributeWrite =
  aw_DataVersion :: "u32 option"
  aw_Path :: AttributePath
  aw_Data :: "byte list"

definition T_AttributeWrite :: gotype where
  "T_AttributeWrite = KStruct ''AttributeWrite''
     [(''DataVersion'', ''0,uint'', KPtr (KUint 32)), (''Path'', ''1,liststruct'', T_AttributePath), (''Data'', ''2,rawtlv'', KBytes)]"

definition gv_AttributeWrite :: "AttributeWrite \<Rightarrow> goval" where
  "gv_AttributeWrite d = GStruct ''AttributeWrite''
     [(''DataVersion'', ''0,uint'', g_ptr (KUint 32) (g_u 32) (aw_DataVersion d)),
      (''Path'', ''1,liststruct'', gv_AttributePath (aw_Path d)), (''Data'', ''2,rawtlv'', GBytes (aw_Data d))]"

record WriteRequest =
  wr_SuppressResponse :: bool
  wr_TimedRequest :: bool
  wr_WriteRequests :: "AttributeWrite list"
  wr_MoreChunkedMessages :: "bool option"

definition gv_WriteRequest :: "WriteRequest \<Rightarrow> goval" where
  "gv_WriteRequest r = GStruct ''WriteRequest''
     [(''SuppressResponse'', ''0,bool'', GBool (wr_SuppressResponse r)), (''TimedRequest'', ''1,bool'', GBool (wr_TimedRequest r)),
      (''WriteRequests'', ''2,array'', GSlice T_AttributeWrite (map gv_AttributeWrite (wr_WriteRequests r))),
      (''MoreChunkedMessages'', ''3,bool'', g_ptr KBool GBool (wr_MoreChunkedMessages r))]"

definition gv_WriteResponse :: "AttributeStatus list \<Rightarrow> goval" where
  "gv_WriteResponse rs = GStruct ''WriteResponse''
     [(''WriteResponses'', ''0,array'', GSlice T_AttributeStatus (map gv_AttributeStatus rs))]"

definition of_WriteResponse :: "goval \<Rightarrow> AttributeStatus list option" where
  "of_WriteResponse v = (case o_fields v of [a] \<Rightarrow> o_slice of_AttributeStatus a | _ \<Rightarrow> None)"

record CommandDataIB =
  cd_Path :: CommandPath
  cd_Fields :: "byte list"

definition T_CommandDataIB :: gotype where
  "T_CommandDataIB = KStruct ''CommandDataIB''
     [(''Path'', ''0,liststruct'', T_CommandPath), (''Fields'', ''1,rawstruct'', KBytes)]"

definition gv_CommandDataIB :: "CommandDataIB \<Rightarrow> goval" where
  "gv_CommandDataIB c = GStruct ''CommandDataIB''
     [(''Path'', ''0,liststruct'', gv_CommandPath (cd_Path c)), (''Fields'', ''1,rawstruct'', GBytes (cd_Fields c))]"

definition of_CommandDataIB :: "goval \<Rightarrow> CommandDataIB option" where
  "of_CommandDataIB v = (case o_fields v of
     [a, b] \<Rightarrow> do { a \<leftarrow> of_CommandPath a; b \<leftarrow> o_bytes b; Some \<lparr>cd_Path = a, cd_Fields = b\<rparr> }
   | _ \<Rightarrow> None)"

record InvokeRequest =
  ir_SuppressResponse :: bool
  ir_TimedRequest :: bool
  ir_InvokeRequests :: "CommandDataIB list"

definition gv_InvokeRequest :: "InvokeRequest \<Rightarrow> goval" where
  "gv_InvokeRequest r = GStruct ''InvokeRequest''
     [(''SuppressResponse'', ''0,bool'', GBool (ir_SuppressResponse r)), (''TimedRequest'', ''1,bool'', GBool (ir_TimedRequest r)),
      (''InvokeRequests'', ''2,array'', GSlice T_CommandDataIB (map gv_CommandDataIB (ir_InvokeRequests r)))]"

record CommandStatusIB =
  cs_Path :: CommandPath
  cs_Status :: StatusIB

definition T_CommandStatusIB :: gotype where
  "T_CommandStatusIB = KStruct ''CommandStatusIB''
     [(''Path'', ''0,liststruct'', T_CommandPath), (''Status'', ''1,struct'', T_StatusIB)]"

definition gv_CommandStatusIB :: "CommandStatusIB \<Rightarrow> goval" where
  "gv_CommandStatusIB s = GStruct ''CommandStatusIB''
     [(''Path'', ''0,liststruct'', gv_CommandPath (cs_Path s)), (''Status'', ''1,struct'', gv_StatusIB (cs_Status s))]"

definition of_CommandStatusIB :: "goval \<Rightarrow> CommandStatusIB option" where
  "of_CommandStatusIB v = (case o_fields v of
     [a, b] \<Rightarrow> do { a \<leftarrow> of_CommandPath a; b \<leftarrow> of_StatusIB b; Some \<lparr>cs_Path = a, cs_Status = b\<rparr> }
   | _ \<Rightarrow> None)"

record InvokeResponseIB =
  irb_Command :: "CommandDataIB option"
  irb_Status :: "CommandStatusIB option"

definition T_InvokeResponseIB :: gotype where
  "T_InvokeResponseIB = KStruct ''InvokeResponseIB''
     [(''Command'', ''0,struct'', KPtr T_CommandDataIB), (''Status'', ''1,struct'', KPtr T_CommandStatusIB)]"

definition gv_InvokeResponseIB :: "InvokeResponseIB \<Rightarrow> goval" where
  "gv_InvokeResponseIB r = GStruct ''InvokeResponseIB''
     [(''Command'', ''0,struct'', g_ptr T_CommandDataIB gv_CommandDataIB (irb_Command r)),
      (''Status'', ''1,struct'', g_ptr T_CommandStatusIB gv_CommandStatusIB (irb_Status r))]"

definition of_InvokeResponseIB :: "goval \<Rightarrow> InvokeResponseIB option" where
  "of_InvokeResponseIB v = (case o_fields v of
     [a, b] \<Rightarrow> do {
       a \<leftarrow> o_ptr of_CommandDataIB a; b \<leftarrow> o_ptr of_CommandStatusIB b; Some \<lparr>irb_Command = a, irb_Status = b\<rparr> }
   | _ \<Rightarrow> None)"

record InvokeResponse =
  irs_SuppressResponse :: bool
  irs_InvokeResponses :: "InvokeResponseIB list"

definition gv_InvokeResponse :: "InvokeResponse \<Rightarrow> goval" where
  "gv_InvokeResponse r = GStruct ''InvokeResponse''
     [(''SuppressResponse'', ''0,bool'', GBool (irs_SuppressResponse r)),
      (''InvokeResponses'', ''1,array'', GSlice T_InvokeResponseIB (map gv_InvokeResponseIB (irs_InvokeResponses r)))]"

definition of_InvokeResponse :: "goval \<Rightarrow> InvokeResponse option" where
  "of_InvokeResponse v = (case o_fields v of
     [a, b] \<Rightarrow> do {
       a \<leftarrow> o_bool a; b \<leftarrow> o_slice of_InvokeResponseIB b;
       Some \<lparr>irs_SuppressResponse = a, irs_InvokeResponses = b\<rparr> }
   | _ \<Rightarrow> None)"

record SubscribeRequest =
  sr_KeepSubscriptions :: bool
  sr_MinIntervalFloor :: u16
  sr_MaxIntervalCeiling :: u16
  sr_AttributeRequests :: "AttributePath list"
  sr_EventRequests :: "EventPath list"
  sr_FabricFiltered :: bool

definition gv_SubscribeRequest :: "SubscribeRequest \<Rightarrow> goval" where
  "gv_SubscribeRequest r = GStruct ''SubscribeRequest''
     [(''KeepSubscriptions'', ''0,bool'', GBool (sr_KeepSubscriptions r)),
      (''MinIntervalFloor'', ''1,uint'', g_u 16 (sr_MinIntervalFloor r)),
      (''MaxIntervalCeiling'', ''2,uint'', g_u 16 (sr_MaxIntervalCeiling r)),
      (''AttributeRequests'', ''3,listarray'', GSlice T_AttributePath (map gv_AttributePath (sr_AttributeRequests r))),
      (''EventRequests'', ''4,listarray'', GSlice T_EventPath (map gv_EventPath (sr_EventRequests r))),
      (''FabricFiltered'', ''7,bool'', GBool (sr_FabricFiltered r))]"

record SubscribeResponse =
  ss_SubscriptionID :: u32
  ss_MaxInterval :: u16

definition gv_SubscribeResponse :: "SubscribeResponse \<Rightarrow> goval" where
  "gv_SubscribeResponse r = GStruct ''SubscribeResponse''
     [(''SubscriptionID'', ''0,uint'', g_u 32 (ss_SubscriptionID r)), (''MaxInterval'', ''2,uint'', g_u 16 (ss_MaxInterval r))]"

definition of_SubscribeResponse :: "goval \<Rightarrow> SubscribeResponse option" where
  "of_SubscribeResponse v = (case o_fields v of
     [a, b] \<Rightarrow> do { a \<leftarrow> o_u a; b \<leftarrow> o_u b; Some \<lparr>ss_SubscriptionID = a, ss_MaxInterval = b\<rparr> }
   | _ \<Rightarrow> None)"

definition gv_TimedRequestMessage :: "u16 \<Rightarrow> goval" where
  "gv_TimedRequestMessage t = GStruct ''TimedRequestMessage'' [(''Timeout'', ''0,uint'', g_u 16 t)]"

end
