(* ===== verification/Im_Wire.thy ===== *)
theory Im_Wire
  imports Im_Types
begin

text \<open>
  The messages of the interaction model on the wire: each record is read back from its Go value, and
  \<^verbatim>\<open>tlv.Marshal\<close> of the Go value is decoded to it by \<^verbatim>\<open>tlv.Unmarshal\<close>, unknown elements (such as the
  revision number that is added to every message) notwithstanding.
\<close>

named_theorems im_defs "the Go values and readers of the messages"

subsection \<open>Reading back\<close>

lemma o_u_g_u [simp]: "LENGTH('a::len) \<le> 64 \<Longrightarrow> o_u (g_u n (w :: 'a word)) = Some w"
  by (simp add: g_u_def ucast_ucast_small order.strict_trans2 [OF unsigned_less])

lemma o_ptr_g_ptr [simp]: "(\<And>y. x = Some y \<Longrightarrow> g (f y) = Some y) \<Longrightarrow> o_ptr g (g_ptr t f x) = Some x"
  by (cases x) (simp_all add: g_ptr_def)

lemma o_slice_map [simp]: "(\<And>x. x \<in> set xs \<Longrightarrow> g (f x) = Some x) \<Longrightarrow> o_slice g (GSlice t (map f xs)) = Some xs"
  by (induction xs) auto

lemma o_tri_g_tri [simp]: "LENGTH('a::len) \<le> 64 \<Longrightarrow> o_tri (g_tri n (x :: 'a word tri)) = Some x"
  by (cases x) (simp_all add: OptionalNull_def OptionalValue_def)

lemma of_gv [simp]:
  "of_AttributePath (gv_AttributePath p) = Some p"
  "of_CommandPath (gv_CommandPath cp) = Some cp"
  "of_StatusIB (gv_StatusIB s) = Some s"
  "of_StatusResponseMessage (gv_StatusResponseMessage c) = Some c"
  "of_SubscribeResponse (gv_SubscribeResponse sr) = Some sr"
  by (simp_all add: of_AttributePath_def gv_AttributePath_def of_CommandPath_def gv_CommandPath_def
      of_StatusIB_def gv_StatusIB_def of_StatusResponseMessage_def gv_StatusResponseMessage_def
      of_SubscribeResponse_def gv_SubscribeResponse_def)

lemma of_gv_compound [simp]:
  "of_AttributeStatus (gv_AttributeStatus as) = Some as"
  "of_AttributeData (gv_AttributeData ad) = Some ad"
  "of_CommandDataIB (gv_CommandDataIB cd) = Some cd"
  "of_CommandStatusIB (gv_CommandStatusIB cs) = Some cs"
  by (simp_all add: of_AttributeStatus_def gv_AttributeStatus_def of_AttributeData_def gv_AttributeData_def
      of_CommandDataIB_def gv_CommandDataIB_def of_CommandStatusIB_def gv_CommandStatusIB_def)

lemma of_gv_reports [simp]:
  "of_AttributeReport (gv_AttributeReport ar) = Some ar"
  "of_InvokeResponseIB (gv_InvokeResponseIB irb) = Some irb"
  by (simp_all add: of_AttributeReport_def gv_AttributeReport_def of_InvokeResponseIB_def gv_InvokeResponseIB_def)

lemma of_gv_messages [simp]:
  "of_ReportData (gv_ReportData rd) = Some rd"
  "of_InvokeResponse (gv_InvokeResponse ir) = Some ir"
  "of_WriteResponse (gv_WriteResponse ws) = Some ws"
  by (simp_all add: of_ReportData_def gv_ReportData_def of_InvokeResponse_def gv_InvokeResponse_def
      of_WriteResponse_def gv_WriteResponse_def del: o_slice.simps)

subsection \<open>Types\<close>

lemma typeof_g [simp]:
  "typeof (g_u n w) = KUint n" "typeof (g_ptr t f x) = KPtr t" "typeof (g_tri n y) = KOptional (KUint n)"
  by (simp_all add: g_u_def g_ptr_def) (cases y; simp add: OptionalNull_def OptionalValue_def g_u_def)

lemma typeof_gv [simp]:
  "typeof (gv_AttributePath p) = T_AttributePath" "typeof (gv_EventPath ep) = T_EventPath"
  "typeof (gv_CommandPath cp) = T_CommandPath" "typeof (gv_StatusIB s) = T_StatusIB"
  by (simp_all add: gv_AttributePath_def T_AttributePath_def gv_EventPath_def T_EventPath_def
      gv_CommandPath_def T_CommandPath_def gv_StatusIB_def T_StatusIB_def)

lemma typeof_gv_compound [simp]:
  "typeof (gv_AttributeStatus as) = T_AttributeStatus" "typeof (gv_AttributeData ad) = T_AttributeData"
  "typeof (gv_CommandDataIB cd) = T_CommandDataIB" "typeof (gv_CommandStatusIB cs) = T_CommandStatusIB"
  "typeof (gv_AttributeWrite aw) = T_AttributeWrite"
  by (simp_all add: gv_AttributeStatus_def T_AttributeStatus_def gv_AttributeData_def T_AttributeData_def
      gv_CommandDataIB_def T_CommandDataIB_def gv_CommandStatusIB_def T_CommandStatusIB_def
      gv_AttributeWrite_def T_AttributeWrite_def)

lemma typeof_gv_reports [simp]:
  "typeof (gv_AttributeReport ar) = T_AttributeReport" "typeof (gv_InvokeResponseIB irb) = T_InvokeResponseIB"
  by (simp_all add: gv_AttributeReport_def T_AttributeReport_def gv_InvokeResponseIB_def T_InvokeResponseIB_def)

subsection \<open>What the tags can carry\<close>

lemma im_entries [simp]:
  "field_entry (name, ''0,bool'', v) = Some (0, ''bool'')" "field_entry (name, ''1,bool'', v) = Some (1, ''bool'')"
  "field_entry (name, ''3,bool'', v) = Some (3, ''bool'')" "field_entry (name, ''4,bool'', v) = Some (4, ''bool'')"
  "field_entry (name, ''5,bool'', v) = Some (5, ''bool'')" "field_entry (name, ''7,bool'', v) = Some (7, ''bool'')"
  "field_entry (name, ''0,uint'', v) = Some (0, ''uint'')" "field_entry (name, ''1,uint'', v) = Some (1, ''uint'')"
  "field_entry (name, ''2,uint'', v) = Some (2, ''uint'')" "field_entry (name, ''3,uint'', v) = Some (3, ''uint'')"
  "field_entry (name, ''4,uint'', v) = Some (4, ''uint'')" "field_entry (name, ''5,uint'', v) = Some (5, ''uint'')"
  "field_entry (name, ''0,liststruct'', v) = Some (0, ''liststruct'')"
  "field_entry (name, ''1,liststruct'', v) = Some (1, ''liststruct'')"
  "field_entry (name, ''0,struct'', v) = Some (0, ''struct'')" "field_entry (name, ''1,struct'', v) = Some (1, ''struct'')"
  "field_entry (name, ''0,array'', v) = Some (0, ''array'')" "field_entry (name, ''1,array'', v) = Some (1, ''array'')"
  "field_entry (name, ''2,array'', v) = Some (2, ''array'')"
  "field_entry (name, ''0,listarray'', v) = Some (0, ''listarray'')"
  "field_entry (name, ''1,listarray'', v) = Some (1, ''listarray'')"
  "field_entry (name, ''3,listarray'', v) = Some (3, ''listarray'')"
  "field_entry (name, ''4,listarray'', v) = Some (4, ''listarray'')"
  "field_entry (name, ''1,rawstruct'', v) = Some (1, ''rawstruct'')"
  "field_entry (name, ''2,rawtlv'', v) = Some (2, ''rawtlv'')"
  by (simp_all add: field_entry.simps untagged_def parseTag_def ParseUint8_def of_char_def)

text \<open>A raw element is absent or one anonymous element other than null; a raw struct body is a
  sequence of elements.\<close>

definition raw_element :: "byte list \<Rightarrow> bool" where
  "raw_element bs \<longleftrightarrow> bs = [] \<or> (\<exists>t. wf_tlv t \<and> root_tag t = AnonymousTag \<and> not_null t \<and> bs = tlv_bytes t)"

definition raw_body :: "byte list \<Rightarrow> bool" where
  "raw_body bs \<longleftrightarrow> (\<exists>ts. wf_forest ts \<and> bs = forest_bytes ts)"

lemma wire_u [simp]: "LENGTH('a::len) \<le> n \<Longrightarrow> wire_value ''uint'' (g_u n (w :: 'a word))"
proof -
  assume "LENGTH('a) \<le> n"
  then have "take_bit n (ucast w :: u64) = ucast w"
    by (intro bit_eqI) (auto simp: bit_simps dest: bit_imp_le_length)
  then show ?thesis unfolding g_u_def by (rule W_uint)
qed

lemma wire_field_plain: "field_entry (name, tag, v) = Some (n, ty) \<Longrightarrow> wire_value ty v \<Longrightarrow> wire_field (name, tag, v)"
  by (rule F_plain)

lemma wire_field_ptr:
  assumes "field_entry (name, tag, g_ptr t f x) = Some (n, ty)" and "\<And>y. x = Some y \<Longrightarrow> wire_value ty (f y)"
    and "\<And>y. typeof (f y) = t" and "\<forall>u. t \<noteq> KOptional u"
  shows "wire_field (name, tag, g_ptr t f x)"
proof (cases x)
  case None
  with assms show ?thesis by (intro F_nil [of _ _ _ n ty t]) (auto simp: g_ptr_def)
next
  case (Some y)
  with assms show ?thesis by (intro F_pointer [of _ _ _ n ty "f y"]) (auto simp: g_ptr_def)
qed

lemma wire_field_tri:
  assumes "field_entry (name, tag, g_tri k (x :: 'a::len word tri)) = Some (n, ''uint'')" and "LENGTH('a) \<le> k"
  shows "wire_field (name, tag, g_tri k x)"
  using assms by (cases x) (auto intro: F_absent F_null F_present simp del: zero.simps)

lemma wire_field_raw:
  assumes "field_entry (name, tag, GBytes bs) = Some (n, ''rawtlv'')" and "raw_element bs"
  shows "wire_field (name, tag, GBytes bs)"
  using assms by (auto simp: raw_element_def intro: F_no_raw F_plain W_rawtlv)

lemma wire_field_body:
  assumes "field_entry (name, tag, GBytes bs) = Some (n, ''rawstruct'')" and "raw_body bs"
  shows "wire_field (name, tag, GBytes bs)"
  using assms by (auto simp: raw_body_def intro: F_plain W_rawstruct)

lemma wire_slice:
  assumes "ty = ''array'' \<or> ty = ''listarray''" and "\<And>x. typeof (f x) = t" and "t \<noteq> KUint 8"
    and "\<And>x. x \<in> set xs \<Longrightarrow> wire_value (elem_kind (ty = ''listarray'') (f x)) (f x)"
  shows "wire_value ty (GSlice t (map f xs))"
proof (rule W_slice)
  show "slice_tag ty" using assms(1) by (auto simp: slice_tag_def)
  have "ty \<noteq> ''listlist''" using assms(1) by auto
  then show "\<forall>v\<in>set (map f xs). wire_elem (ty = ''listarray'' \<or> ty = ''listlist'') t v"
    using E_value [OF assms(4)] assms(2) by auto
qed (rule assms(3))

lemmas wire_fields = wire_field_plain wire_field_ptr wire_field_tri wire_field_raw wire_field_body

lemma wire_AttributePath [simp]:
  "ty = ''struct'' \<or> ty = ''liststruct'' \<Longrightarrow> wire_value ty (gv_AttributePath p)"
  unfolding gv_AttributePath_def
  by (rule W_struct) (auto simp: tag_numbers_simps intro!: wire_field_ptr wire_field_tri W_bool)

lemma wire_EventPath [simp]: "ty = ''struct'' \<or> ty = ''liststruct'' \<Longrightarrow> wire_value ty (gv_EventPath p)"
  unfolding gv_EventPath_def
  by (rule W_struct) (auto simp: tag_numbers_simps intro!: wire_field_ptr W_bool)

lemma wire_CommandPath [simp]: "ty = ''struct'' \<or> ty = ''liststruct'' \<Longrightarrow> wire_value ty (gv_CommandPath p)"
  unfolding gv_CommandPath_def
  by (rule W_struct) (auto simp: tag_numbers_simps intro!: wire_field_plain)

lemma wire_StatusIB [simp]: "ty = ''struct'' \<or> ty = ''liststruct'' \<Longrightarrow> wire_value ty (gv_StatusIB s)"
  unfolding gv_StatusIB_def
  by (rule W_struct) (auto simp: tag_numbers_simps intro!: wire_field_ptr, auto intro: wire_field_plain)



lemma wire_AttributeStatus [simp]: "ty = ''struct'' \<or> ty = ''liststruct'' \<Longrightarrow> wire_value ty (gv_AttributeStatus s)"
  unfolding gv_AttributeStatus_def
  by (rule W_struct) (auto simp: tag_numbers_simps intro!: wire_field_plain)

lemma wire_AttributeData:
  "raw_element (ad_Data d) \<Longrightarrow> ty = ''struct'' \<or> ty = ''liststruct'' \<Longrightarrow> wire_value ty (gv_AttributeData d)"
  unfolding gv_AttributeData_def
  by (rule W_struct) (auto simp: tag_numbers_simps intro!: wire_field_raw, auto intro: wire_field_plain)

lemma wire_AttributeWrite:
  "raw_element (aw_Data d) \<Longrightarrow> ty = ''struct'' \<or> ty = ''liststruct'' \<Longrightarrow> wire_value ty (gv_AttributeWrite d)"
  unfolding gv_AttributeWrite_def
  by (rule W_struct) (auto simp: tag_numbers_simps intro!: wire_field_raw wire_field_ptr, auto intro: wire_field_plain)

lemma wire_CommandDataIB:
  "raw_body (cd_Fields c) \<Longrightarrow> ty = ''struct'' \<or> ty = ''liststruct'' \<Longrightarrow> wire_value ty (gv_CommandDataIB c)"
  unfolding gv_CommandDataIB_def
  by (rule W_struct) (auto simp: tag_numbers_simps intro!: wire_field_body, auto intro: wire_field_plain)

lemma wire_CommandStatusIB [simp]: "ty = ''struct'' \<or> ty = ''liststruct'' \<Longrightarrow> wire_value ty (gv_CommandStatusIB s)"
  unfolding gv_CommandStatusIB_def
  by (rule W_struct) (auto simp: tag_numbers_simps intro!: wire_field_plain)


subsection \<open>Messages\<close>

lemma T_not_optional [simp]:
  "T_AttributeStatus \<noteq> KOptional u" "T_AttributeData \<noteq> KOptional u"
  "T_CommandDataIB \<noteq> KOptional u" "T_CommandStatusIB \<noteq> KOptional u"
  by (simp_all add: T_AttributeStatus_def T_AttributeData_def T_CommandDataIB_def T_CommandStatusIB_def)

text \<open>What the raw parts of a message must be for its tags to carry it.\<close>

definition report_raw :: "AttributeReport \<Rightarrow> bool" where
  "report_raw r \<longleftrightarrow> (case ar_Data r of None \<Rightarrow> True | Some d \<Rightarrow> raw_element (ad_Data d))"

definition invoke_raw :: "InvokeResponseIB \<Rightarrow> bool" where
  "invoke_raw r \<longleftrightarrow> (case irb_Command r of None \<Rightarrow> True | Some c \<Rightarrow> raw_body (cd_Fields c))"

lemma wire_AttributeReport:
  "report_raw r \<Longrightarrow> ty = ''struct'' \<or> ty = ''liststruct'' \<Longrightarrow> wire_value ty (gv_AttributeReport r)"
  unfolding gv_AttributeReport_def
  by (rule W_struct)
    (auto simp: tag_numbers_simps report_raw_def
      intro!: wire_field_ptr [where t = T_AttributeStatus] wire_field_ptr [where t = T_AttributeData] wire_AttributeData)

lemma wire_InvokeResponseIB:
  "invoke_raw r \<Longrightarrow> ty = ''struct'' \<or> ty = ''liststruct'' \<Longrightarrow> wire_value ty (gv_InvokeResponseIB r)"
  unfolding gv_InvokeResponseIB_def
  by (rule W_struct)
    (auto simp: tag_numbers_simps invoke_raw_def
      intro!: wire_field_ptr [where t = T_CommandDataIB] wire_field_ptr [where t = T_CommandStatusIB] wire_CommandDataIB)

lemma elem_kind_gv [simp]:
  "elem_kind b (gv_AttributePath p) = (if b then ''liststruct'' else ''struct'')"
  "elem_kind b (gv_EventPath ep) = (if b then ''liststruct'' else ''struct'')"
  "elem_kind b (gv_AttributeReport ar) = (if b then ''liststruct'' else ''struct'')"
  "elem_kind b (gv_AttributeStatus as) = (if b then ''liststruct'' else ''struct'')"
  "elem_kind b (gv_AttributeWrite aw) = (if b then ''liststruct'' else ''struct'')"
  "elem_kind b (gv_CommandDataIB cd) = (if b then ''liststruct'' else ''struct'')"
  "elem_kind b (gv_InvokeResponseIB irb) = (if b then ''liststruct'' else ''struct'')"
  by (simp_all add: gv_AttributePath_def gv_EventPath_def gv_AttributeReport_def gv_AttributeStatus_def
      gv_AttributeWrite_def gv_CommandDataIB_def gv_InvokeResponseIB_def)

lemma T_not_uint [simp]:
  "T_AttributePath \<noteq> KUint n" "T_EventPath \<noteq> KUint n" "T_AttributeReport \<noteq> KUint n"
  "T_AttributeStatus \<noteq> KUint n" "T_AttributeWrite \<noteq> KUint n" "T_CommandDataIB \<noteq> KUint n"
  "T_InvokeResponseIB \<noteq> KUint n"
  by (simp_all add: T_AttributePath_def T_EventPath_def T_AttributeReport_def T_AttributeStatus_def
      T_AttributeWrite_def T_CommandDataIB_def T_InvokeResponseIB_def)

text \<open>A message: a struct whose tags can carry its fields, none of them numbered 255.\<close>

definition wire_message :: "goval \<Rightarrow> bool" where
  "wire_message v \<longleftrightarrow> (\<exists>n fs. v = GStruct n fs \<and> distinct (tag_numbers fs) \<and> 255 \<notin> set (tag_numbers fs) \<and>
     (\<forall>f \<in> set fs. wire_field f))"

lemma wire_messageI:
  "distinct (tag_numbers fs) \<Longrightarrow> 255 \<notin> set (tag_numbers fs) \<Longrightarrow> (\<forall>f \<in> set fs. wire_field f) \<Longrightarrow>
    wire_message (GStruct n fs)"
  by (auto simp: wire_message_def)

lemma wire_ReportData:
  "(\<And>r. r \<in> set (rd_AttributeReports rd) \<Longrightarrow> report_raw r) \<Longrightarrow> wire_message (gv_ReportData rd)"
  unfolding gv_ReportData_def
  by (rule wire_messageI)
    (auto simp: tag_numbers_simps intro!: wire_field_ptr W_bool,
     auto intro!: wire_field_plain wire_slice wire_AttributeReport)

lemma wire_requests [simp]:
  "wire_message (gv_ReadRequest rr)" "wire_message (gv_SubscribeRequest sr)"
  unfolding gv_ReadRequest_def gv_SubscribeRequest_def
  by (rule wire_messageI; auto simp: tag_numbers_simps intro!: wire_field_plain wire_slice W_bool)+

lemma wire_WriteRequest:
  "(\<And>x. x \<in> set (wr_WriteRequests wr) \<Longrightarrow> raw_element (aw_Data x)) \<Longrightarrow> wire_message (gv_WriteRequest wr)"
  unfolding gv_WriteRequest_def
  by (rule wire_messageI)
    (auto simp: tag_numbers_simps intro!: wire_field_ptr W_bool,
     auto intro!: wire_field_plain wire_slice wire_AttributeWrite W_bool)

lemma wire_InvokeRequest:
  "(\<And>x. x \<in> set (ir_InvokeRequests ir) \<Longrightarrow> raw_body (cd_Fields x)) \<Longrightarrow> wire_message (gv_InvokeRequest ir)"
  unfolding gv_InvokeRequest_def
  by (rule wire_messageI) (auto simp: tag_numbers_simps intro!: wire_field_plain wire_slice wire_CommandDataIB W_bool)

lemma wire_responses [simp]:
  "wire_message (gv_WriteResponse ws)" "wire_message (gv_SubscribeResponse ss)"
  "wire_message (gv_StatusResponseMessage c)" "wire_message (gv_TimedRequestMessage t)"
  unfolding gv_WriteResponse_def gv_SubscribeResponse_def gv_StatusResponseMessage_def gv_TimedRequestMessage_def
  by (rule wire_messageI; auto simp: tag_numbers_simps intro!: wire_field_plain wire_slice)+

lemma wire_InvokeResponse:
  "(\<And>r. r \<in> set (irs_InvokeResponses ir) \<Longrightarrow> invoke_raw r) \<Longrightarrow> wire_message (gv_InvokeResponse ir)"
  unfolding gv_InvokeResponse_def
  by (rule wire_messageI) (auto simp: tag_numbers_simps intro!: wire_field_plain wire_slice wire_InvokeResponseIB W_bool)

subsection \<open>Encoding and decoding a message\<close>

text \<open>\<^verbatim>\<open>var x T; err := tlv.Unmarshal(payload, &x)\<close>.\<close>

definition decode_msg :: "gotype \<Rightarrow> (goval \<Rightarrow> 'a option) \<Rightarrow> byte list \<Rightarrow> 'a res" where
  "decode_msg T reader payload =
     (case Unmarshal payload (GPtr T (Some (zero T))) of
        (Ok _, GPtr _ (Some v)) \<Rightarrow> (case reader v of Some x \<Rightarrow> Ok x | None \<Rightarrow> Panic)
      | (Err e, _) \<Rightarrow> Err e
      | _ \<Rightarrow> Panic)"

text \<open>The revision number, inserted before the end marker of the outer struct.\<close>

definition add_revision :: "byte list \<Rightarrow> byte list" where
  "add_revision data =
     (if data \<noteq> [] \<and> last data = TypeEndOfContainer
      then butlast data @ [0x24, 0xFF, 0x0B] @ [TypeEndOfContainer] else data)"

definition revision :: Tlv where "revision = Leaf (ContextTag 255) (VUint64 11)"

lemma revision_bytes: "tlv_bytes revision = [0x24, 0xFF, 0x0B]"
  by code_simp

lemma wf_revision: "wf_tlv revision" "tag_number revision = 255"
  by (simp_all add: revision_def value_ok_def wf_tag_ContextTag tag_number_def)

lemma add_revision_tree:
  "add_revision (tlv_bytes (Node tag k ts)) = tlv_bytes (Node tag k (ts @ [revision]))"
  by (simp add: add_revision_def revision_bytes butlast_append)

lemma message_roundtrip:
  assumes "wire_message v" and "reader v = Some x" and "typeof v = T"
  shows "\<exists>ts. wf_forest ts \<and> Marshal v = Ok (tlv_bytes (Node AnonymousTag TypeStructure ts)) \<and>
    decode_msg T reader (tlv_bytes (Node AnonymousTag TypeStructure ts)) = Ok x \<and>
    decode_msg T reader (add_revision (tlv_bytes (Node AnonymousTag TypeStructure ts))) = Ok x"
proof -
  obtain n fs where v: "v = GStruct n fs" "distinct (tag_numbers fs)" "255 \<notin> set (tag_numbers fs)"
      "\<forall>f \<in> set fs. wire_field f"
    using assms(1) by (auto simp: wire_message_def)
  have fresh: "GPtr T (Some (zero T)) = fresh n fs" using assms(3) v(1) by (simp add: fresh_def del: zero.simps)
  obtain ts where ts: "wf_forest ts" "\<forall>t \<in> set ts. known fs t"
      "Marshal v = Ok (tlv_bytes (Node AnonymousTag TypeStructure ts))"
      "\<And>us rest. wf_forest us \<Longrightarrow> filter (known fs) us = ts \<Longrightarrow>
        Unmarshal (tlv_bytes (Node AnonymousTag TypeStructure us) @ rest) (fresh n fs) = (Ok (), filled n fs)"
    using marshal_unmarshal_known [OF v(2,4), of n] v(1) by blast
  have dec: "decode_msg T reader (tlv_bytes (Node AnonymousTag TypeStructure us)) = Ok x"
    if "wf_forest us" "filter (known fs) us = ts" for us
    using ts(4) [OF that, of "[]"] assms(2) v(1) by (simp add: decode_msg_def fresh filled_def)
  have "\<not> known fs revision" using v(3) by (simp add: known_def wf_revision)
  then have "filter (known fs) (ts @ [revision]) = ts" "filter (known fs) ts = ts"
    using ts(2) by (simp_all add: filter_id_conv)
  with dec ts(1,3) show ?thesis by (auto simp: add_revision_tree wf_revision simp del: tlv_bytes.simps)
qed

end
