(* ===== verification/Im_Reassemble.thy ===== *)
theory Im_Reassemble
  imports Im_Types
begin

text \<open>
  \<^verbatim>\<open>internal/interaction/reassemble.go\<close>: a list attribute that does not fit one report arrives as a
  report that replaces the whole list and one report per further item; \<^verbatim>\<open>reassembleListChunks\<close> merges
  them again.  The fold's state is the open group.
\<close>

record attrGroupKey =
  gk_endpoint :: u16
  gk_cluster :: u32
  gk_attribute :: u32

definition attributeReportKey :: "AttributeReport \<Rightarrow> attrGroupKey option" where
  "attributeReportKey r =
     (case ar_Data r of
        None \<Rightarrow> None
      | Some d \<Rightarrow>
          (case (ap_EndpointID (ad_Path d), ap_ClusterID (ad_Path d), ap_AttributeID (ad_Path d)) of
             (Some e, Some c, Some a) \<Rightarrow> Some \<lparr>gk_endpoint = e, gk_cluster = c, gk_attribute = a\<rparr>
           | _ \<Rightarrow> None))"

definition isListElement :: "byte list \<Rightarrow> bool" where
  "isListElement raw \<longleftrightarrow> length raw \<ge> 2 \<and> hd raw = TypeArray"

definition spliceListItems :: "byte list \<Rightarrow> byte list list \<Rightarrow> byte list option" where
  "spliceListItems base items =
     (if \<not> isListElement base then None
      else Some (hd base # butlast (tl base) @ concat items @ [TypeEndOfContainer]))"

definition report_data :: "AttributeReport \<Rightarrow> byte list" where
  "report_data r = (case ar_Data r of None \<Rightarrow> [] | Some d \<Rightarrow> ad_Data d)"

definition finalizeListGroup :: "AttributeReport \<Rightarrow> byte list list \<Rightarrow> AttributeReport" where
  "finalizeListGroup base appends =
     (if appends = [] then base
      else case spliceListItems (report_data base) appends of
        None \<Rightarrow> base
      | Some spliced \<Rightarrow> base\<lparr>ar_Data := map_option (\<lambda>d. d\<lparr>ad_Data := spliced\<rparr>) (ar_Data base)\<rparr>)"

record group =
  g_Key :: attrGroupKey
  g_Base :: AttributeReport
  g_isArray :: bool
  g_appends :: "byte list list"

text \<open>\<open>flush\<close> closes the open group, if there is one.\<close>

definition flush :: "group option \<Rightarrow> AttributeReport list \<Rightarrow> AttributeReport list" where
  "flush g merged =
     (case g of None \<Rightarrow> merged | Some g \<Rightarrow> merged @ [finalizeListGroup (g_Base g) (g_appends g)])"

definition is_append :: "AttributeReport \<Rightarrow> bool" where
  "is_append r = (case ar_Data r of None \<Rightarrow> False | Some d \<Rightarrow> ap_ListIndex (ad_Path d) = Null)"

fun reassemble_loop :: "AttributeReport list \<Rightarrow> group option \<Rightarrow> AttributeReport list \<Rightarrow> AttributeReport list" where
  "reassemble_loop [] g merged = flush g merged"
| "reassemble_loop (r # rs) g merged =
     (case attributeReportKey r of
        None \<Rightarrow> reassemble_loop rs None (flush g merged @ [r])
      | Some key \<Rightarrow>
          if is_append r then
            (case g of
               Some h \<Rightarrow>
                 if g_isArray h \<and> key = g_Key h
                 then reassemble_loop rs (Some (h\<lparr>g_appends := g_appends h @ [report_data r]\<rparr>)) merged
                 else reassemble_loop rs None (flush g merged @ [r])
             | None \<Rightarrow> reassemble_loop rs None (merged @ [r]))
          else reassemble_loop rs
                 (Some \<lparr>g_Key = key, g_Base = r, g_isArray = isListElement (report_data r), g_appends = []\<rparr>)
                 (flush g merged))"

definition reassembleListChunks :: "AttributeReport list \<Rightarrow> AttributeReport list" where
  "reassembleListChunks reports = reassemble_loop reports None []"

subsection \<open>What a device sends\<close>

text \<open>
  A value to report: a failed path (or a report without a full path), a value sent whole, or a list
  of which the first items travel in the marker and the others in fragments of their own.
\<close>

datatype sent =
    Status AttributeReport | Whole AttributeReport | Chunked AttributeReport "Tlv list" "Tlv list"

definition with_data :: "AttributeReport \<Rightarrow> byte list \<Rightarrow> AttributeReport" where
  "with_data r bs = r\<lparr>ar_Data := map_option (\<lambda>d. d\<lparr>ad_Data := bs\<rparr>) (ar_Data r)\<rparr>"

definition as_append :: "AttributeReport \<Rightarrow> Tlv \<Rightarrow> AttributeReport" where
  "as_append r t = (with_data r (tlv_bytes t))\<lparr>ar_Data := map_option
     (\<lambda>d. d\<lparr>ad_Path := (ad_Path d)\<lparr>ap_ListIndex := Null\<rparr>, ad_Data := tlv_bytes t\<rparr>) (ar_Data r)\<rparr>"

fun fragments :: "sent \<Rightarrow> AttributeReport list" where
  "fragments (Status r) = [r]"
| "fragments (Whole r) = [r]"
| "fragments (Chunked r ts us) =
     with_data r (tlv_bytes (Node AnonymousTag TypeArray ts)) # map (as_append r) us"

text \<open>What the caller should see: one report, with the whole list.\<close>

fun whole :: "sent \<Rightarrow> AttributeReport" where
  "whole (Status r) = r"
| "whole (Whole r) = r"
| "whole (Chunked r ts us) = with_data r (tlv_bytes (Node AnonymousTag TypeArray (ts @ us)))"

fun proper :: "sent \<Rightarrow> bool" where
  "proper (Status r) = (attributeReportKey r = None)"
| "proper (Whole r) = (attributeReportKey r \<noteq> None \<and> \<not> is_append r)"
| "proper (Chunked r ts us) = (attributeReportKey r \<noteq> None \<and> \<not> is_append r)"

lemma key_with_data [simp]: "attributeReportKey (with_data r bs) = attributeReportKey r"
  by (simp add: attributeReportKey_def with_data_def option.case_eq_if option.map_sel)

lemma key_as_append [simp]: "attributeReportKey (as_append r t) = attributeReportKey r"
  by (cases "ar_Data r") (simp_all add: attributeReportKey_def with_data_def as_append_def)

lemma append_with_data [simp]: "is_append (with_data r bs) = is_append r"
  by (simp add: is_append_def with_data_def option.case_eq_if option.map_sel)

lemma key_has_data: "attributeReportKey r = Some k \<Longrightarrow> \<exists>d. ar_Data r = Some d"
  by (auto simp: attributeReportKey_def split: option.splits)

lemma append_as_append [simp]: "attributeReportKey r = Some k \<Longrightarrow> is_append (as_append r t)"
  by (drule key_has_data) (auto simp: is_append_def as_append_def)

lemma data_as_append [simp]: "attributeReportKey r = Some k \<Longrightarrow> report_data (as_append r t) = tlv_bytes t"
  by (drule key_has_data) (auto simp: report_data_def as_append_def)

lemma data_with_data [simp]: "attributeReportKey r = Some k \<Longrightarrow> report_data (with_data r bs) = bs"
  by (drule key_has_data) (auto simp: report_data_def with_data_def)

lemma with_data_twice [simp]: "with_data (with_data r bs) cs = with_data r cs"
  by (cases "ar_Data r") (simp_all add: with_data_def)

lemma array_bytes: "tlv_bytes (Node AnonymousTag TypeArray ts) = TypeArray # forest_bytes ts @ [TypeEndOfContainer]"
proof -
  have "head_bytes AnonymousTag TypeArray = [TypeArray]" by code_simp
  then show ?thesis by simp
qed

lemma isListElement_array [simp]: "isListElement (tlv_bytes (Node AnonymousTag TypeArray ts))"
  unfolding array_bytes by (simp add: isListElement_def)

lemma splice_array:
  "spliceListItems (tlv_bytes (Node AnonymousTag TypeArray ts)) (map tlv_bytes us)
     = Some (tlv_bytes (Node AnonymousTag TypeArray (ts @ us)))"
  unfolding spliceListItems_def using isListElement_array [of ts] unfolding array_bytes
  by (simp add: butlast_append)

lemma finalize_array:
  assumes "attributeReportKey r = Some k"
  shows "finalizeListGroup (with_data r (tlv_bytes (Node AnonymousTag TypeArray ts))) (map tlv_bytes us)
    = with_data r (tlv_bytes (Node AnonymousTag TypeArray (ts @ us)))"
proof (cases us)
  case (Cons u us')
  have "with_data r bs\<lparr>ar_Data := map_option (\<lambda>d. d\<lparr>ad_Data := cs\<rparr>) (ar_Data (with_data r bs))\<rparr> = with_data r cs" for bs cs
    by (cases "ar_Data r") (simp_all add: with_data_def)
  then show ?thesis
    using Cons splice_array [of ts us] data_with_data [OF assms] by (simp add: finalizeListGroup_def del: tlv_bytes.simps)
qed (simp add: finalizeListGroup_def)

lemma loop_appends:
  assumes "attributeReportKey r = Some k"
  shows "reassemble_loop (map (as_append r) us @ rs)
      (Some \<lparr>g_Key = k, g_Base = b, g_isArray = True, g_appends = as\<rparr>) merged
    = reassemble_loop rs (Some \<lparr>g_Key = k, g_Base = b, g_isArray = True, g_appends = as @ map tlv_bytes us\<rparr>) merged"
  using assms by (induction us arbitrary: as) simp_all

text \<open>The state of the loop between two values: \<open>settled\<close> when the open group is already whole.\<close>

lemma loop_fragments:
  assumes "list_all proper vs"
  shows "reassemble_loop (concat (map fragments vs)) g merged = flush g merged @ map whole vs"
  using assms
proof (induction vs arbitrary: g merged)
  case Nil
  then show ?case by (simp add: flush_def)
next
  case (Cons v vs)
  have IH: "reassemble_loop (concat (map fragments vs)) g merged = flush g merged @ map whole vs" for g merged
    using Cons by simp
  show ?case
  proof (cases v)
    case (Status r)
    then show ?thesis using Cons.prems by (simp add: IH flush_def)
  next
    case (Whole r)
    then show ?thesis using Cons.prems by (auto simp: IH flush_def finalizeListGroup_def)
  next
    case (Chunked r ts us)
    then obtain k where k: "attributeReportKey r = Some k" "\<not> is_append r" using Cons.prems by auto
    then show ?thesis using Chunked finalize_array [OF k(1), of ts us]
      by (simp add: loop_appends IH flush_def del: tlv_bytes.simps)
  qed
qed

lemma reassemble_fragments:
  "list_all proper vs \<Longrightarrow> reassembleListChunks (concat (map fragments vs)) = map whole vs"
  by (simp add: reassembleListChunks_def loop_fragments flush_def)

text \<open>No report is invented: every one of the output extends one of the input.\<close>

lemma finalize_same:
  "ar_Status (finalizeListGroup b as) = ar_Status b"
  "attributeReportKey (finalizeListGroup b as) = attributeReportKey b"
  by (auto simp: finalizeListGroup_def attributeReportKey_def split: option.splits)

lemma loop_keys:
  assumes "\<And>h. g = Some h \<Longrightarrow> attributeReportKey (g_Base h) = Some (g_Key h)"
  shows "set (map attributeReportKey (reassemble_loop rs g merged))
    = set (map attributeReportKey merged) \<union> (case g of None \<Rightarrow> {} | Some h \<Rightarrow> {Some (g_Key h)})
      \<union> set (map attributeReportKey rs)"
  using assms
proof (induction rs g merged rule: reassemble_loop.induct)
  case (1 g merged)
  then show ?case by (auto simp: flush_def finalize_same split: option.splits)
next
  case (2 r rs g merged)
  show ?case
  proof (cases "attributeReportKey r")
    case None
    then show ?thesis using 2 by (auto simp: flush_def finalize_same split: option.splits)
  next
    case (Some k)
    then show ?thesis using 2 by (cases g) (auto simp: flush_def finalize_same)
  qed
qed

end
