(* ===== verification/Exchange.thy ===== *)
theory Exchange
  imports Msg_Header Session
begin

text \<open>
  \<^verbatim>\<open>internal/protocol/exchange.go\<close>: exchanges, their bounded message queue, and the manager that
  creates, routes to and closes them.  The exchanges live in a heap, since the manager's map, the
  callers and a message handler in flight share them by pointer; an address is a position of the
  heap.  Sequential calls are functions; the lock-free middle of \<^verbatim>\<open>HandleMessage\<close> (after the look-up,
  before the send) is interleaved with closing in an inductive step relation.
\<close>

definition ErrExchangeClosed :: err where "ErrExchangeClosed = Sentinel ''exchange closed''"

record Exchange =
  ex_ID :: u16
  ex_Session :: Session
  ex_IsInitiator :: bool
  ex_SendFunc :: "(Message \<Rightarrow> err option) option"
  incoming :: "Message list"
  closed :: bool
  chan_closed :: bool

definition chan_capacity :: nat where [const_defs]: "chan_capacity = 8"

record exchangeKey =
  sessionID :: u16
  exchangeID :: u16
  isLocal :: bool

type_synonym addr = nat

record ExchangeManager =
  exchanges :: "exchangeKey \<rightharpoonup> addr"
  em_nextID :: u16
  DefaultSendFunc :: "(Message \<Rightarrow> err option) option"
  heap :: "Exchange list"

text \<open>
  In a \<^verbatim>\<open>select\<close> whose cases are both ready, \<open>coin\<close> makes the runtime's choice; \<open>ctx\<close> is the error
  of the context, once it is cancelled.
\<close>

subsection \<open>Operations of an exchange\<close>

definition Exchange_Send :: "Exchange \<Rightarrow> Message \<Rightarrow> err option \<times> Message" where
  "Exchange_Send e msg =
     (let msg = msg\<lparr>Protocol := (Protocol msg)\<lparr>ExchangeID := ex_ID e\<rparr>\<rparr>;
          msg = (if ex_IsInitiator e
                 then msg\<lparr>Protocol := (Protocol msg)\<lparr>ExchangeFlags := ExchangeFlags (Protocol msg) OR ExFlagInitiator\<rparr>\<rparr>
                 else msg);
          msg = msg\<lparr>Header := (Header msg)\<lparr>SessionID := ID (ex_Session e)\<rparr>\<rparr>
      in case ex_SendFunc e of None \<Rightarrow> (None, msg) | Some f \<Rightarrow> (f msg, msg))"

text \<open>A closed channel still delivers what is queued.\<close>

definition Exchange_Receive :: "err option \<Rightarrow> bool \<Rightarrow> Exchange \<Rightarrow> Message res outcome \<times> Exchange" where
  "Exchange_Receive ctx coin e =
     (if (incoming e \<noteq> [] \<or> chan_closed e) \<and> (ctx = None \<or> coin) then
        (case incoming e of
           [] \<Rightarrow> (Returned (Err (Errorw (''protocol: exchange '' @ fmt_d (unat (ex_ID e))) ErrExchangeClosed)), e)
         | m # ms \<Rightarrow> (Returned (Ok m), e\<lparr>incoming := ms\<rparr>))
      else case ctx of Some err \<Rightarrow> (Returned (Err err), e) | None \<Rightarrow> (Blocked, e))"

definition Exchange_Close :: "Exchange \<Rightarrow> Exchange" where
  "Exchange_Close e = (if \<not> closed e then e\<lparr>closed := True, chan_closed := True\<rparr> else e)"

text \<open>The \<^verbatim>\<open>select\<close> of \<^verbatim>\<open>HandleMessage\<close>: a send on a closed channel panics.\<close>

definition chan_send :: "err option \<Rightarrow> bool \<Rightarrow> Exchange \<Rightarrow> Message \<Rightarrow> err option outcome \<times> Exchange" where
  "chan_send ctx coin e msg =
     (if (chan_closed e \<or> length (incoming e) < chan_capacity) \<and> (ctx = None \<or> coin) then
        (if chan_closed e then (Panicked, e)
         else (Returned None, e\<lparr>incoming := incoming e @ [msg]\<rparr>))
      else case ctx of Some err \<Rightarrow> (Returned (Some err), e) | None \<Rightarrow> (Blocked, e))"

subsection \<open>Operations of the manager\<close>

definition NewExchangeManager :: "(Message \<Rightarrow> err option) option \<Rightarrow> ExchangeManager" where
  "NewExchangeManager f = \<lparr>exchanges = Map.empty, em_nextID = 0, DefaultSendFunc = f, heap = []\<rparr>"

definition mk_exchange :: "u16 \<Rightarrow> Session \<Rightarrow> bool \<Rightarrow> (Message \<Rightarrow> err option) option \<Rightarrow> Exchange" where
  "mk_exchange i s init f = \<lparr>ex_ID = i, ex_Session = s, ex_IsInitiator = init, ex_SendFunc = f,
     incoming = [], closed = False, chan_closed = False\<rparr>"

definition key_of :: "Exchange \<Rightarrow> exchangeKey" where
  "key_of e = \<lparr>sessionID = ID (ex_Session e), exchangeID = ex_ID e, isLocal = ex_IsInitiator e\<rparr>"

definition add_exchange :: "Exchange \<Rightarrow> ExchangeManager \<Rightarrow> addr \<times> ExchangeManager" where
  "add_exchange e em =
     (length (heap em), em\<lparr>exchanges := (exchanges em)(key_of e \<mapsto> length (heap em)), heap := heap em @ [e]\<rparr>)"

definition NewExchange :: "err option \<Rightarrow> Session \<Rightarrow> ExchangeManager \<Rightarrow> addr res \<times> ExchangeManager" where
  "NewExchange ctx session em =
     (case ctx of
        Some err \<Rightarrow> (Err err, em)
      | None \<Rightarrow>
          let i = em_nextID em;
              em = em\<lparr>em_nextID := em_nextID em + 1\<rparr>;
              (a, em) = add_exchange (mk_exchange i session True (DefaultSendFunc em)) em
          in (Ok a, em))"

definition msg_key :: "Message \<Rightarrow> exchangeKey" where
  "msg_key msg = \<lparr>sessionID = SessionID (Header msg), exchangeID = ExchangeID (Protocol msg),
     isLocal = (\<not> IsInitiator (Protocol msg))\<rparr>"

definition on_heap ::
  "addr \<Rightarrow> (Exchange \<Rightarrow> 'a \<times> Exchange) \<Rightarrow> ExchangeManager \<Rightarrow> 'a \<times> ExchangeManager" where
  "on_heap a f em = (let (x, e) = f (heap em ! a) in (x, em\<lparr>heap := (heap em)[a := e]\<rparr>))"

text \<open>
  The part of \<^verbatim>\<open>HandleMessage\<close> for an exchange that exists, in its two steps: the closed check, which
  either answers or lets the call go on, and the send.
\<close>

definition check_closed :: "addr \<Rightarrow> ExchangeManager \<Rightarrow> err option" where
  "check_closed a em =
     (if closed (heap em ! a)
      then Some (Errorw (''protocol: exchange '' @ fmt_d (unat (ex_ID (heap em ! a)))) ErrExchangeClosed)
      else None)"

definition session_for :: "u16 \<Rightarrow> Session" where
  "session_for i = new_session i SessionUnsecured None"

text \<open>
  \<open>handler\<close> is the \<^verbatim>\<open>OnUnhandled\<close> callback: any change of the manager and an error.
\<close>

definition HandleMessage ::
  "(addr \<Rightarrow> Message \<Rightarrow> ExchangeManager \<Rightarrow> err option \<times> ExchangeManager) option \<Rightarrow> err option \<Rightarrow> bool \<Rightarrow>
    Message \<Rightarrow> ExchangeManager \<Rightarrow> err option outcome \<times> ExchangeManager" where
  "HandleMessage handler ctx coin msg em =
     (case exchanges em (msg_key msg) of
        Some a \<Rightarrow>
          (case check_closed a em of
             Some err \<Rightarrow> (Returned (Some err), em)
           | None \<Rightarrow> on_heap a (\<lambda>e. chan_send ctx coin e msg) em)
      | None \<Rightarrow>
          if \<not> IsInitiator (Protocol msg) then
            (Returned (Some (Errorf (''protocol: no exchange found for session=''
               @ fmt_d (unat (SessionID (Header msg))) @ '' exchange='' @ fmt_d (unat (ExchangeID (Protocol msg)))))), em)
          else
            let (a, em) = add_exchange
                  (mk_exchange (ExchangeID (Protocol msg)) (session_for (SessionID (Header msg))) False None) em
            in case handler of
                 None \<Rightarrow> (Returned None, em)
               | Some h \<Rightarrow>
                   (case on_heap a (\<lambda>e. chan_send ctx coin e msg) em of
                      (Returned None, em) \<Rightarrow> (let (err, em) = h a msg em in (Returned err, em))
                    | r \<Rightarrow> r))"

definition CloseExchange :: "addr \<Rightarrow> ExchangeManager \<Rightarrow> ExchangeManager" where
  "CloseExchange a em =
     (let e = heap em ! a
      in em\<lparr>exchanges := (exchanges em)(key_of e := None), heap := (heap em)[a := Exchange_Close e]\<rparr>)"

text \<open>\<open>order\<close> is the order in which the runtime iterates over the map.\<close>

definition close_key :: "exchangeKey \<Rightarrow> ExchangeManager \<Rightarrow> ExchangeManager" where
  "close_key k em =
     (case exchanges em k of
        None \<Rightarrow> em
      | Some a \<Rightarrow> em\<lparr>heap := (heap em)[a := Exchange_Close (heap em ! a)], exchanges := (exchanges em)(k := None)\<rparr>)"

definition CloseAll :: "exchangeKey list \<Rightarrow> ExchangeManager \<Rightarrow> ExchangeManager" where
  "CloseAll order em = fold close_key order em"

definition Exchange_Count :: "ExchangeManager \<Rightarrow> nat" where
  "Exchange_Count em = card (dom (exchanges em))"

subsection \<open>The manager's invariant\<close>

text \<open>
  Every entry of the map points to an allocated exchange filed under its own key; the closed flag
  and the channel agree (between calls); no queue exceeds its capacity.
\<close>

definition exchange_ok :: "Exchange \<Rightarrow> bool" where
  "exchange_ok e \<longleftrightarrow> (closed e \<longleftrightarrow> chan_closed e) \<and> length (incoming e) \<le> chan_capacity"

definition em_ok :: "ExchangeManager \<Rightarrow> bool" where
  "em_ok em \<longleftrightarrow> list_all exchange_ok (heap em) \<and> finite (dom (exchanges em)) \<and>
     (\<forall>k a. exchanges em k = Some a \<longrightarrow> a < length (heap em) \<and> key_of (heap em ! a) = k)"

lemma exchange_ok_steps:
  "exchange_ok (mk_exchange i s init f)"
  "exchange_ok e \<Longrightarrow> exchange_ok (Exchange_Close e)"
  "exchange_ok e \<Longrightarrow> exchange_ok (snd (chan_send ctx coin e msg))"
  "exchange_ok e \<Longrightarrow> exchange_ok (snd (Exchange_Receive ctx coin e))"
  by (auto simp: exchange_ok_def mk_exchange_def Exchange_Close_def chan_send_def Exchange_Receive_def
      chan_capacity_def split: option.splits list.splits)

lemma key_of_steps [simp]:
  "key_of (Exchange_Close e) = key_of e"
  "key_of (snd (chan_send ctx coin e msg)) = key_of e"
  "key_of (snd (Exchange_Receive ctx coin e)) = key_of e"
  by (auto simp: key_of_def Exchange_Close_def chan_send_def Exchange_Receive_def
      split: option.splits list.splits)

lemma em_ok_heap_update:
  assumes "em_ok em" and "a < length (heap em) \<Longrightarrow> exchange_ok e" and "a < length (heap em) \<Longrightarrow> key_of e = key_of (heap em ! a)"
  shows "em_ok (em\<lparr>heap := (heap em)[a := e]\<rparr>)"
proof -
  have "key_of ((heap em)[a := e] ! b) = key_of (heap em ! b)" if "b < length (heap em)" for b
    using assms(3) that by (cases "a = b") simp_all
  moreover have "list_all exchange_ok ((heap em)[a := e])"
    using assms(1,2) by (cases "a < length (heap em)") (auto simp: em_ok_def list_all_length nth_list_update)
  ultimately show ?thesis using assms(1) by (simp add: em_ok_def)
qed

lemma exchange_ok_nth: "em_ok em \<Longrightarrow> a < length (heap em) \<Longrightarrow> exchange_ok (heap em ! a)"
  by (simp add: em_ok_def list_all_length)

lemma em_ok_on_heap:
  assumes "em_ok em" and "\<And>e. exchange_ok e \<Longrightarrow> exchange_ok (snd (f e))" and "\<And>e. key_of (snd (f e)) = key_of e"
  shows "em_ok (snd (on_heap a f em))"
  using em_ok_heap_update [OF assms(1), of a "snd (f (heap em ! a))"] assms exchange_ok_nth [OF assms(1)]
  by (simp add: on_heap_def case_prod_beta)

lemma em_ok_forget: "em_ok em \<Longrightarrow> em_ok (em\<lparr>exchanges := (exchanges em)(k := None)\<rparr>)"
  by (simp add: em_ok_def)

lemma em_ok_add:
  assumes "em_ok em" and "exchange_ok e"
  shows "em_ok (snd (add_exchange e em))"
  using assms by (auto simp: em_ok_def add_exchange_def nth_append less_Suc_eq)

lemma em_ok_NewExchangeManager: "em_ok (NewExchangeManager f)"
  by (simp add: em_ok_def NewExchangeManager_def)

lemma em_ok_NewExchange:
  assumes "em_ok em"
  shows "em_ok (snd (NewExchange ctx s em))"
proof -
  have "em_ok (em\<lparr>em_nextID := em_nextID em + 1\<rparr>)" using assms by (simp add: em_ok_def)
  from em_ok_add [OF this exchange_ok_steps(1)] show ?thesis
    using assms by (simp add: NewExchange_def Let_def case_prod_beta split: option.split)
qed

lemma em_ok_CloseExchange:
  assumes "em_ok em"
  shows "em_ok (CloseExchange a em)"
proof -
  have "em_ok (em\<lparr>heap := (heap em)[a := Exchange_Close (heap em ! a)]\<rparr>)"
    by (rule em_ok_heap_update [OF assms]) (simp_all add: exchange_ok_steps exchange_ok_nth assms)
  then show ?thesis by (simp add: CloseExchange_def Let_def em_ok_def)
qed

lemma em_ok_CloseAll: "em_ok em \<Longrightarrow> em_ok (CloseAll order em)"
  unfolding CloseAll_def
proof (induction order arbitrary: em)
  case (Cons k ks)
  have "em_ok (close_key k em)"
  proof (cases "exchanges em k")
    case (Some a)
    have "em_ok (em\<lparr>heap := (heap em)[a := Exchange_Close (heap em ! a)]\<rparr>)"
      by (rule em_ok_heap_update [OF Cons.prems]) (simp_all add: exchange_ok_steps exchange_ok_nth Cons.prems)
    from em_ok_forget [OF this, of k] Some show ?thesis by (simp add: close_key_def)
  qed (simp add: close_key_def Cons.prems)
  with Cons.IH show ?case by simp
qed simp

lemma em_ok_HandleMessage:
  assumes "em_ok em" and "\<And>h a m em. handler = Some h \<Longrightarrow> em_ok em \<Longrightarrow> em_ok (snd (h a m em))"
  shows "em_ok (snd (HandleMessage handler ctx coin msg em))"
proof -
  have send: "em_ok (snd (on_heap a (\<lambda>e. chan_send ctx coin e msg) em))" if "em_ok em" for a em
    by (rule em_ok_on_heap [OF that]) (simp_all add: exchange_ok_steps)
  show ?thesis
  proof (cases "exchanges em (msg_key msg)")
    case (Some a)
    with assms(1) send show ?thesis by (simp add: HandleMessage_def split: option.split)
  next
    case None
    define em1 where "em1 = add_exchange (mk_exchange (ExchangeID (Protocol msg))
      (session_for (SessionID (Header msg))) False None) em"
    have ok1: "em_ok (snd em1)" unfolding em1_def by (rule em_ok_add [OF assms(1) exchange_ok_steps(1)])
    obtain r em2 where s: "on_heap (fst em1) (\<lambda>e. chan_send ctx coin e msg) (snd em1) = (r, em2)"
      by fastforce
    with send [OF ok1, of "fst em1"] have ok2: "em_ok em2" by simp
    show ?thesis
      using None assms(2) ok1 ok2 s unfolding HandleMessage_def em1_def [symmetric]
      by (auto simp: case_prod_beta assms(1) split: option.splits outcome.splits)
  qed
qed

subsection \<open>Runs of the manager\<close>

text \<open>The sequential calls, each run to its end; receiving and closing use an exchange's own methods.\<close>

inductive em_step :: "ExchangeManager \<Rightarrow> ExchangeManager \<Rightarrow> bool" where
  step_new: "em_step em (snd (NewExchange ctx s em))"
| step_handle: "em_step em (snd (HandleMessage None ctx coin msg em))"
| step_receive: "em_step em (snd (on_heap a (Exchange_Receive ctx coin) em))"
| step_close: "em_step em (snd (on_heap a (\<lambda>e. ((), Exchange_Close e)) em))"
| step_close_exchange: "em_step em (CloseExchange a em)"
| step_close_all: "em_step em (CloseAll order em)"

lemma em_step_ok: "em_step em em' \<Longrightarrow> em_ok em \<Longrightarrow> em_ok em'"
  by (induction rule: em_step.induct)
    (auto intro!: em_ok_NewExchange em_ok_HandleMessage em_ok_on_heap em_ok_CloseExchange em_ok_CloseAll
      simp: exchange_ok_steps)

lemma em_reach_ok: "em_step\<^sup>*\<^sup>* em em' \<Longrightarrow> em_ok em \<Longrightarrow> em_ok em'"
  by (induction rule: rtranclp_induct) (auto dest: em_step_ok)

text \<open>
  The same manager with message handlers in flight: a handler that has found its exchange open
  (\<open>conc_lookup\<close>) sends later (\<open>conc_send\<close>), and another goroutine may close in between.  With
  \<open>polite\<close>, an exchange is only closed while no handler is about to send to it.  The last component
  of a state says whether a goroutine has panicked.
\<close>

type_synonym conc_state = "ExchangeManager \<times> (addr \<times> Message) list \<times> bool"

inductive conc_step :: "bool \<Rightarrow> conc_state \<Rightarrow> conc_state \<Rightarrow> bool" for polite where
  conc_new: "conc_step polite (em, fl, p) (snd (NewExchange ctx s em), fl, p)"
| conc_lookup: "exchanges em (msg_key msg) = Some a \<Longrightarrow> check_closed a em = None \<Longrightarrow>
    conc_step polite (em, fl, p) (em, (a, msg) # fl, p)"
| conc_send: "on_heap a (\<lambda>e. chan_send ctx coin e msg) em = (r, em') \<Longrightarrow>
    conc_step polite (em, fl @ (a, msg) # fl', p) (em', fl @ fl', p \<or> r = Panicked)"
| conc_receive: "conc_step polite (em, fl, p) (snd (on_heap a (Exchange_Receive ctx coin) em), fl, p)"
| conc_close: "polite \<longrightarrow> a \<notin> fst ` set fl \<Longrightarrow> conc_step polite (em, fl, p) (CloseExchange a em, fl, p)"

inductive_cases conc_stepE: "conc_step polite (em, fl, p) st"

definition conc_ok :: "conc_state \<Rightarrow> bool" where
  "conc_ok st = (case st of (em, fl, p) \<Rightarrow> em_ok em \<and> \<not> p \<and>
     (\<forall>(a, msg) \<in> set fl. a < length (heap em) \<and> \<not> chan_closed (heap em ! a)))"

lemma heap_NewExchange: "\<exists>es. heap (snd (NewExchange ctx s em)) = heap em @ es"
  by (cases ctx) (auto simp: NewExchange_def add_exchange_def Let_def)

lemma chan_closed_steps [simp]:
  "chan_closed (snd (chan_send ctx coin e msg)) = chan_closed e"
  "chan_closed (snd (Exchange_Receive ctx coin e)) = chan_closed e"
  by (auto simp: chan_send_def Exchange_Receive_def split: option.splits list.splits)

lemma heap_on_heap: "heap (snd (on_heap a f em)) = (heap em)[a := snd (f (heap em ! a))]"
  by (simp add: on_heap_def case_prod_beta)

lemma chan_closed_on_heap:
  assumes "\<And>e. chan_closed (snd (f e)) = chan_closed e" and "b < length (heap em)"
  shows "chan_closed (heap (snd (on_heap a f em)) ! b) = chan_closed (heap em ! b)"
  using assms by (cases "a = b") (simp_all add: heap_on_heap)

lemma chan_send_open: "\<not> chan_closed e \<Longrightarrow> fst (chan_send ctx coin e msg) \<noteq> Panicked"
  by (simp add: chan_send_def split: option.split)

lemma conc_ok_step:
  assumes "conc_step True st st'" and "conc_ok st"
  shows "conc_ok st'"
  using assms
proof (induction rule: conc_step.induct)
  case (conc_new em fl p ctx s)
  then have "em_ok (snd (NewExchange ctx s em))" by (auto simp: conc_ok_def intro: em_ok_NewExchange)
  moreover obtain es where "heap (snd (NewExchange ctx s em)) = heap em @ es" using heap_NewExchange by blast
  ultimately show ?case using conc_new by (fastforce simp: conc_ok_def nth_append)
next
  case (conc_lookup em msg a fl p)
  then show ?case
    using exchange_ok_nth [of em a] by (auto simp: conc_ok_def check_closed_def em_ok_def exchange_ok_def split: if_splits)
next
  case (conc_send a ctx coin msg em r em' fl fl' p)
  have em': "em' = snd (on_heap a (\<lambda>e. chan_send ctx coin e msg) em)" using conc_send(1) by simp
  have "em_ok em'" unfolding em'
    by (rule em_ok_on_heap) (use conc_send(2) in \<open>simp_all add: conc_ok_def exchange_ok_steps\<close>)
  moreover have "r \<noteq> Panicked"
    using conc_send chan_send_open [of "heap em ! a" ctx coin msg]
    by (auto simp: conc_ok_def on_heap_def case_prod_beta)
  moreover have "length (heap em') = length (heap em)" by (simp add: em' heap_on_heap)
  moreover have "chan_closed (heap em' ! b) = chan_closed (heap em ! b)" if "b < length (heap em)" for b
    unfolding em' using that by (intro chan_closed_on_heap) simp_all
  ultimately show ?case using conc_send(2) by (auto simp: conc_ok_def)
next
  case (conc_receive em fl p a ctx coin)
  let ?em = "snd (on_heap a (Exchange_Receive ctx coin) em)"
  have "em_ok ?em"
    by (rule em_ok_on_heap) (use conc_receive in \<open>simp_all add: conc_ok_def exchange_ok_steps\<close>)
  moreover have "chan_closed (heap ?em ! b) = chan_closed (heap em ! b)" if "b < length (heap em)" for b
    using that by (intro chan_closed_on_heap) simp_all
  moreover have "length (heap ?em) = length (heap em)" by (simp add: heap_on_heap)
  ultimately show ?case using conc_receive by (auto simp: conc_ok_def)
next
  case (conc_close a fl em p)
  have "heap (CloseExchange a em) ! b = heap em ! b" if "b \<noteq> a" for b
    using that by (simp add: CloseExchange_def Let_def)
  moreover have "length (heap (CloseExchange a em)) = length (heap em)" by (simp add: CloseExchange_def Let_def)
  ultimately show ?case using conc_close
    by (fastforce simp: conc_ok_def intro: em_ok_CloseExchange)
qed

subsection \<open>Routing and closing\<close>

lemma HandleMessage_no_panic:
  assumes "em_ok em"
  shows "fst (HandleMessage None ctx coin msg em) \<noteq> Panicked"
proof (cases "exchanges em (msg_key msg)")
  case (Some a)
  with assms have "a < length (heap em)" by (auto simp: em_ok_def)
  from exchange_ok_nth [OF assms this] Some chan_send_open [of "heap em ! a" ctx coin msg]
  show ?thesis
    by (auto simp: HandleMessage_def check_closed_def exchange_ok_def on_heap_def case_prod_beta)
qed (simp add: HandleMessage_def case_prod_beta)

lemma close_key_effect:
  assumes "em_ok em"
  shows "exchanges (close_key k' em) k = (if k = k' then None else exchanges em k)"
    and "heap (close_key k' em) ! a =
      (if exchanges em k' = Some a then Exchange_Close (heap em ! a) else heap em ! a)"
    and "em_ok (close_key k' em)"
  using assms em_ok_CloseAll [OF assms, of "[k']"]
  by (auto simp: close_key_def em_ok_def [of em] CloseAll_def split: option.splits)

lemma CloseAll_exchanges:
  "em_ok em \<Longrightarrow> exchanges (CloseAll order em) k = (if k \<in> set order then None else exchanges em k)"
  unfolding CloseAll_def
  by (induction order arbitrary: em) (auto simp: close_key_effect)

lemma CloseAll_heap:
  "em_ok em \<Longrightarrow> heap (CloseAll order em) ! a =
     (if \<exists>k \<in> set order. exchanges em k = Some a then Exchange_Close (heap em ! a) else heap em ! a)"
  unfolding CloseAll_def
proof (induction order arbitrary: em)
  case (Cons k' ks)
  note eff = close_key_effect [OF Cons.prems]
  show ?case
  proof (cases "exchanges em k' = Some a")
    case True
    have "k = k'" if "exchanges em k = Some a" for k
      using that True Cons.prems unfolding em_ok_def by metis
    then have "\<not> (\<exists>k \<in> set ks. exchanges (close_key k' em) k = Some a)" by (auto simp: eff split: if_splits)
    with True Cons.IH [OF eff(3)] show ?thesis by (simp add: eff(2))
  next
    case False
    then have "(\<exists>k \<in> set ks. exchanges (close_key k' em) k = Some a) \<longleftrightarrow> (\<exists>k \<in> set ks. exchanges em k = Some a)"
      by (auto simp: eff)
    with False Cons.IH [OF eff(3)] show ?thesis by (simp add: eff(2))
  qed
qed simp

lemma Receive_after_Close: "exchange_ok e \<Longrightarrow> fst (Exchange_Receive ctx coin (Exchange_Close e)) \<noteq> Blocked"
  by (auto simp: Exchange_Receive_def Exchange_Close_def exchange_ok_def split: list.splits option.splits)

subsection \<open>Properties\<close>

definition sample_incoming :: Message where
  "sample_incoming = \<lparr>Header = zero_header\<lparr>SessionID := 1\<rparr>,
     Protocol = \<lparr>ExchangeFlags = 0, ProtocolOpcode = 1, ExchangeID = 0, ProtocolID = 0, VendorID = 0,
       HasVendorID = False, AckMessageCounter = 0, HasAckCounter = False\<rparr>, Payload = []\<rparr>"

definition sample_manager :: ExchangeManager where
  "sample_manager = snd (NewExchange None (session_for 1) (NewExchangeManager None))"

lemma sample_manager_ok: "em_ok sample_manager"
  by (simp add: sample_manager_def em_ok_NewExchange em_ok_NewExchangeManager)

lemma sample_manager_entry:
  "exchanges sample_manager (msg_key sample_incoming) = Some 0" "length (heap sample_manager) = 1"
  "closed (heap sample_manager ! 0) = False" "chan_closed (heap sample_manager ! 0) = False"
  "incoming (heap sample_manager ! 0) = []" "key_of (heap sample_manager ! 0) = msg_key sample_incoming"
  by (simp_all add: sample_manager_def NewExchange_def NewExchangeManager_def add_exchange_def mk_exchange_def
      key_of_def msg_key_def sample_incoming_def session_for_def new_session_def IsInitiator_def const_defs)

text \<open>
  C12 Manager invariant: after any sequence of calls (creating, handling, receiving, closing one or all
  exchanges) every entry of the map points to an exchange filed under its own session, identifier
  and role, no queue exceeds its 8 messages, and handling any message does not panic.
\<close>

theorem exchange_manager_invariant:
  assumes "em_step\<^sup>*\<^sup>* (NewExchangeManager f) em"
  shows "em_ok em \<and> fst (HandleMessage None ctx coin msg em) \<noteq> Panicked"
  using em_reach_ok [OF assms em_ok_NewExchangeManager] HandleMessage_no_panic by blast

theorem exchange_manager_invariant_witness:
  "em_ok sample_manager \<and> fst (HandleMessage None None True sample_incoming sample_manager) \<noteq> Panicked"
  unfolding sample_manager_def
  by (rule exchange_manager_invariant [of None]) (rule r_into_rtranclp, rule step_new)

text \<open>
  C13 Routing: a message for a managed exchange goes to that exchange only: the others are unchanged,
  and when the call succeeds it is appended to the queue; without one, a message from a responder is
  refused and one from an initiator gets a fresh exchange filed under its key.
\<close>

theorem handle_message_routes:
  assumes "em_ok em" and "HandleMessage None ctx coin msg em = (r, em')"
  shows "(\<forall>b < length (heap em). exchanges em (msg_key msg) \<noteq> Some b \<longrightarrow> heap em' ! b = heap em ! b) \<and>
     (case exchanges em (msg_key msg) of
        Some a \<Rightarrow> exchanges em' = exchanges em \<and>
          (r = Returned None \<longrightarrow> incoming (heap em' ! a) = incoming (heap em ! a) @ [msg])
      | None \<Rightarrow>
          (if IsInitiator (Protocol msg) then
             r = Returned None \<and> exchanges em' = (exchanges em)(msg_key msg \<mapsto> length (heap em)) \<and>
             key_of (heap em' ! length (heap em)) = msg_key msg
           else (\<exists>e. r = Returned (Some e)) \<and> em' = em))"
proof (cases "exchanges em (msg_key msg)")
  case None
  with assms(2) show ?thesis
    by (auto simp: HandleMessage_def add_exchange_def key_of_def mk_exchange_def msg_key_def session_for_def
        new_session_def nth_append split: if_splits)
next
  case (Some a)
  with assms(1) have a: "a < length (heap em)" by (auto simp: em_ok_def)
  have send: "incoming (snd (chan_send ctx coin e msg)) = incoming e @ [msg]"
    if "fst (chan_send ctx coin e msg) = Returned None" for e
    using that by (auto simp: chan_send_def split: if_splits option.splits)
  from Some a assms(2) send show ?thesis
    by (auto simp: HandleMessage_def on_heap_def case_prod_beta check_closed_def split: if_splits)
qed

theorem handle_message_routes_witness:
  "incoming (heap (snd (HandleMessage None None True sample_incoming sample_manager)) ! 0) = [sample_incoming]"
proof -
  have "fst (HandleMessage None None True sample_incoming sample_manager) = Returned None"
    using sample_manager_entry
    by (simp add: HandleMessage_def check_closed_def on_heap_def chan_send_def const_defs case_prod_beta)
  with handle_message_routes [OF sample_manager_ok
      prod.collapse [of "HandleMessage None None True sample_incoming sample_manager", symmetric]]
    sample_manager_entry
  show ?thesis by simp
qed

text \<open>
  C14 Losing the connection: \<^verbatim>\<open>CloseAll\<close> empties the map whatever the iteration order, closes exactly
  the managed exchanges, and a goroutine receiving on one of them does not block any more.
\<close>

theorem close_all_unblocks:
  assumes "em_ok em" and "set order = dom (exchanges em)"
  shows "exchanges (CloseAll order em) = Map.empty \<and>
     (\<forall>k a. exchanges em k = Some a \<longrightarrow>
        closed (heap (CloseAll order em) ! a) \<and>
        fst (Exchange_Receive ctx coin (heap (CloseAll order em) ! a)) \<noteq> Blocked) \<and>
     (\<forall>a. a \<notin> ran (exchanges em) \<longrightarrow> heap (CloseAll order em) ! a = heap em ! a)"
proof -
  have h: "heap (CloseAll order em) ! a
      = (if a \<in> ran (exchanges em) then Exchange_Close (heap em ! a) else heap em ! a)" for a
    using CloseAll_heap [OF assms(1), of order a] assms(2) by (auto simp: ran_def)
  have "exchanges (CloseAll order em) = Map.empty"
    using CloseAll_exchanges [OF assms(1), of order] assms(2) by (auto simp: fun_eq_iff domIff)
  moreover have "closed (Exchange_Close (heap em ! a)) \<and>
      fst (Exchange_Receive ctx coin (Exchange_Close (heap em ! a))) \<noteq> Blocked"
    if "exchanges em k = Some a" for k a
    using that assms(1) Receive_after_Close [OF exchange_ok_nth [OF assms(1), of a]]
    by (auto simp: em_ok_def Exchange_Close_def)
  ultimately show ?thesis by (auto simp: h intro: ranI)
qed

theorem close_all_unblocks_witness:
  "exchanges (CloseAll [msg_key sample_incoming] sample_manager) = Map.empty \<and>
   closed (heap (CloseAll [msg_key sample_incoming] sample_manager) ! 0) \<and>
   fst (Exchange_Receive None False (heap (CloseAll [msg_key sample_incoming] sample_manager) ! 0)) \<noteq> Blocked"
proof -
  have "set [msg_key sample_incoming] = dom (exchanges sample_manager)"
    by (simp add: sample_manager_def NewExchange_def NewExchangeManager_def add_exchange_def mk_exchange_def
      key_of_def msg_key_def sample_incoming_def session_for_def new_session_def IsInitiator_def const_defs)
  from close_all_unblocks [OF sample_manager_ok this] sample_manager_entry(1) show ?thesis by blast
qed

text \<open>
  Closing races with handling: if exchanges are only closed while no handler is between its closed
  check and its send, no goroutine ever panics; without that restriction there is a run in which the
  handler sends on the closed channel and panics.
\<close>

theorem close_handle_race:
  "(\<forall>em fl p. (conc_step True)\<^sup>*\<^sup>* (NewExchangeManager f, [], False) (em, fl, p) \<longrightarrow> \<not> p) \<and>
   (\<exists>em fl. (conc_step False)\<^sup>*\<^sup>* (NewExchangeManager f, [], False) (em, fl, True))"
proof
  have "conc_ok st" if "(conc_step True)\<^sup>*\<^sup>* (NewExchangeManager f, [], False) st" for st
    using that
    by (induction rule: rtranclp_induct)
      (auto dest: conc_ok_step simp: conc_ok_def [of "(NewExchangeManager f, [], False)"] em_ok_NewExchangeManager)
  then show "\<forall>em fl p. (conc_step True)\<^sup>*\<^sup>* (NewExchangeManager f, [], False) (em, fl, p) \<longrightarrow> \<not> p"
    by (fastforce simp: conc_ok_def)
  let ?em = "snd (NewExchange None (session_for 1) (NewExchangeManager f))"
  let ?closed = "CloseExchange 0 ?em"
  have e: "exchanges ?em (msg_key sample_incoming) = Some 0" "check_closed 0 ?em = None"
    "length (heap ?em) = 1"
    by (simp_all add: NewExchange_def NewExchangeManager_def add_exchange_def mk_exchange_def check_closed_def
      key_of_def msg_key_def sample_incoming_def session_for_def new_session_def IsInitiator_def const_defs)
  have s: "on_heap 0 (\<lambda>e. chan_send None True e sample_incoming) ?closed = (Panicked, ?closed)"
    using e by (simp add: on_heap_def chan_send_def CloseExchange_def Exchange_Close_def Let_def check_closed_def
        split: if_splits)
  have "(conc_step False)\<^sup>*\<^sup>* (NewExchangeManager f, [], False) (?em, [], False)"
    by (intro r_into_rtranclp conc_new)
  moreover have "conc_step False (?em, [], False) (?em, [(0, sample_incoming)], False)"
    using e by (intro conc_lookup)
  moreover have "conc_step False (?em, [(0, sample_incoming)], False) (?closed, [(0, sample_incoming)], False)"
    by (rule conc_close) simp
  moreover have "conc_step False (?closed, [(0, sample_incoming)], False) (?closed, [], True)"
    using conc_send [OF s, of False "[]" "[]" False] by simp
  ultimately show "\<exists>em fl. (conc_step False)\<^sup>*\<^sup>* (NewExchangeManager f, [], False) (em, fl, True)"
    by (meson rtranclp.rtrancl_into_rtrancl)
qed

theorem close_handle_race_witness:
  "fst (on_heap 0 (\<lambda>e. chan_send None True e sample_incoming) sample_manager) \<noteq> Panicked"
proof -
  obtain r em' where s: "on_heap 0 (\<lambda>e. chan_send None True e sample_incoming) sample_manager = (r, em')"
    by fastforce
  have "(conc_step True)\<^sup>*\<^sup>* (NewExchangeManager None, [], False) (sample_manager, [], False)"
    unfolding sample_manager_def by (intro r_into_rtranclp conc_new)
  moreover have "conc_step True (sample_manager, [], False) (sample_manager, [(0, sample_incoming)], False)"
    using sample_manager_entry by (intro conc_lookup) (simp_all add: check_closed_def)
  moreover have "conc_step True (sample_manager, [(0, sample_incoming)], False) (em', [], r = Panicked)"
    using conc_send [OF s, of True "[]" "[]" False] by simp
  ultimately have "(conc_step True)\<^sup>*\<^sup>* (NewExchangeManager None, [], False) (em', [], r = Panicked)"
    by (meson rtranclp.rtrancl_into_rtrancl)
  with close_handle_race [of None, THEN conjunct1] s show ?thesis by auto
qed

text \<open>
  Identifier wrap: when the 16-bit identifier comes round to a live exchange of the same session,
  \<^verbatim>\<open>NewExchange\<close> replaces its map entry: the old exchange stays open but gets no more messages and is
  missed by \<^verbatim>\<open>CloseAll\<close>, and closing it removes the new exchange's entry while that one stays open.
\<close>

theorem new_exchange_orphans:
  assumes "em_ok em"
    and "exchanges em \<lparr>sessionID = ID s, exchangeID = em_nextID em, isLocal = True\<rparr> = Some a"
    and "NewExchange None s em = (Ok b, em')"
  shows "a \<noteq> b \<and> heap em' ! a = heap em ! a \<and> a \<notin> ran (exchanges em') \<and>
     exchanges em' (key_of (heap em ! a)) = Some b \<and>
     exchanges (CloseExchange a em') (key_of (heap em' ! b)) = None \<and>
     \<not> closed (heap (CloseExchange a em') ! b)"
proof -
  let ?k = "\<lparr>sessionID = ID s, exchangeID = em_nextID em, isLocal = True\<rparr>"
  let ?e = "mk_exchange (em_nextID em) s True (DefaultSendFunc em)"
  have a: "a < length (heap em)" "key_of (heap em ! a) = ?k" using assms(1,2) by (auto simp: em_ok_def)
  have k: "key_of ?e = ?k" by (simp add: key_of_def mk_exchange_def)
  have b: "b = length (heap em)" and h: "heap em' = heap em @ [?e]"
    and ex: "exchanges em' = (exchanges em)(?k \<mapsto> length (heap em))"
    using assms(3) k by (auto simp: NewExchange_def add_exchange_def Let_def)
  have "\<forall>k'. exchanges em k' = Some a \<longrightarrow> k' = ?k" using a assms(1) unfolding em_ok_def by metis
  then have ran: "a \<notin> ran (exchanges em')" using a(1) by (auto simp: ex ran_def)
  have ab: "a \<noteq> b" and hp: "heap em' ! a = heap em ! a" "heap em' ! b = ?e"
    using a(1) by (simp_all add: h b nth_append)
  have c: "exchanges (CloseExchange a em') ?k = None" "heap (CloseExchange a em') ! b = ?e"
    unfolding CloseExchange_def Let_def hp(1) a(2) using ab hp(2) by simp_all
  show ?thesis
  proof (intro conjI)
    show "exchanges em' (key_of (heap em ! a)) = Some b" unfolding a(2) by (simp add: ex b)
    show "exchanges (CloseExchange a em') (key_of (heap em' ! b)) = None" unfolding hp(2) k by (rule c)
    show "\<not> closed (heap (CloseExchange a em') ! b)" unfolding c(2) by (simp add: mk_exchange_def)
  qed (fact ab hp ran)+
qed

theorem new_exchange_orphans_witness:
  "\<exists>(em :: ExchangeManager) b em'. (0 :: nat) \<noteq> b \<and> heap em' ! 0 = heap em ! 0 \<and> 0 \<notin> ran (exchanges em') \<and>
     exchanges em' (key_of (heap em ! 0)) = Some b \<and>
     exchanges (CloseExchange 0 em') (key_of (heap em' ! b)) = None \<and>
     \<not> closed (heap (CloseExchange 0 em') ! b)"
proof -
  let ?em = "sample_manager\<lparr>em_nextID := 0\<rparr>"
  obtain b em' where n: "NewExchange None (session_for 1) ?em = (Ok b, em')"
    by (simp add: NewExchange_def add_exchange_def Let_def)
  have ok: "em_ok ?em" using sample_manager_ok by (simp add: em_ok_def)
  have ent: "exchanges ?em \<lparr>sessionID = ID (session_for 1), exchangeID = em_nextID ?em, isLocal = True\<rparr> = Some 0"
    using sample_manager_entry(1)
    by (simp add: msg_key_def sample_incoming_def session_for_def IsInitiator_def)
  show ?thesis by (intro exI) (rule new_exchange_orphans [OF ok ent n])
qed

end
