(* ===== verification/Im_Client.thy ===== *)
theory Im_Client
  imports Im_Wire Im_Reassemble Exchange
begin

text \<open>
  \<^verbatim>\<open>internal/interaction/client.go\<close>: the client's operations.  An operation runs on an exchange of the
  manager; the messages (or errors) its successive calls of \<^verbatim>\<open>exchange.Receive\<close> return are the inbox,
  the messages it hands to \<^verbatim>\<open>exchange.Send\<close> the outbox.  An operation returns, fails, waits for a
  message that the inbox does not have, or panics.
\<close>

datatype 'a im = Val 'a | Fail im_err | Waiting | Crashed

record io_state =
  inbox :: "Message res list"
  outbox :: "Message list"

type_synonym 'a io = "io_state \<Rightarrow> 'a im \<times> io_state"

definition io_return :: "'a \<Rightarrow> 'a io" where "io_return x s = (Val x, s)"

definition io_fail :: "im_err \<Rightarrow> 'a io" where "io_fail e s = (Fail e, s)"

definition io_bind :: "'a io \<Rightarrow> ('a \<Rightarrow> 'b io) \<Rightarrow> 'b io" where
  "io_bind m k s =
     (case m s of
        (Val x, s) \<Rightarrow> k x s
      | (Fail e, s) \<Rightarrow> (Fail e, s)
      | (Waiting, s) \<Rightarrow> (Waiting, s)
      | (Crashed, s) \<Rightarrow> (Crashed, s))"

definition io_wrap :: "string \<Rightarrow> 'a io \<Rightarrow> 'a io" where
  "io_wrap what m s = (case m s of (Fail e, s) \<Rightarrow> (Fail (IErrorw what e), s) | r \<Rightarrow> r)"

fun of_result :: "'a res \<Rightarrow> 'a im" where
  "of_result (Ok x) = Val x"
| "of_result (Err e) = Fail (IErr e)"
| "of_result Panic = Crashed"

definition io_of :: "'a res \<Rightarrow> 'a io" where "io_of r s = (of_result r, s)"

definition io_check :: "im_err option \<Rightarrow> unit io" where
  "io_check e = (case e of None \<Rightarrow> io_return () | Some e \<Rightarrow> io_fail e)"

fun io_Receive :: "Message io" where
  "io_Receive s =
     (case inbox s of
        [] \<Rightarrow> (Waiting, s)
      | r # ms \<Rightarrow> (of_result r, s\<lparr>inbox := ms\<rparr>))"

declare io_Receive.simps [simp del]

lemmas io_defs = io_return_def io_fail_def io_bind_def io_wrap_def io_of_def io_check_def io_Receive.simps

subsection \<open>Sending and checking messages\<close>

definition im_message :: "byte \<Rightarrow> byte list \<Rightarrow> bool \<Rightarrow> u32 \<Rightarrow> Message" where
  "im_message opcode data ack ackCounter =
     \<lparr>Header = \<lparr>Flags = 0, SessionID = 0, SecurityFlags = 0, MessageCounter = 0, SourceNodeID = 0,
        HasSourceNodeID = False, DestinationNodeID = 0, HasDestinationNodeID = False,
        DestinationGroupID = 0, HasDestinationGroupID = False\<rparr>,
      Protocol = \<lparr>ExchangeFlags = (if ack then ExFlagReliable OR ExFlagACK else ExFlagReliable),
        ProtocolOpcode = opcode, ExchangeID = 0, ProtocolID = ProtocolID_IM, VendorID = 0, HasVendorID = False,
        AckMessageCounter = (if ack then ackCounter else 0), HasAckCounter = ack\<rparr>,
      Payload = data\<rparr>"

definition sendIMMessageWithACK :: "Exchange \<Rightarrow> byte \<Rightarrow> goval \<Rightarrow> bool \<Rightarrow> u32 \<Rightarrow> unit io" where
  "sendIMMessageWithACK ex opcode payload ack ackCounter =
     io_bind (io_wrap ''marshaling IM payload'' (io_of (Marshal payload)))
       (\<lambda>data s. case Exchange_Send ex (im_message opcode (add_revision data) ack ackCounter) of
          (e, m) \<Rightarrow> io_check (map_option IErr e) (s\<lparr>outbox := outbox s @ [m]\<rparr>))"

definition sendIMMessage :: "Exchange \<Rightarrow> byte \<Rightarrow> goval \<Rightarrow> unit io" where
  "sendIMMessage ex opcode payload = sendIMMessageWithACK ex opcode payload False 0"

definition opcode_of :: "Message \<Rightarrow> byte" where "opcode_of msg = ProtocolOpcode (Protocol msg)"

definition T_StatusResponseMessage :: gotype where
  "T_StatusResponseMessage = KStruct ''StatusResponseMessage'' [(''Status'', ''0,uint'', KUint 8)]"

definition T_ReportData :: gotype where
  "T_ReportData = KStruct ''ReportData''
     [(''SubscriptionID'', ''0,uint'', KPtr (KUint 32)), (''AttributeReports'', ''1,array'', KSlice T_AttributeReport),
      (''MoreChunkedMessages'', ''3,bool'', KPtr KBool), (''SuppressResponse'', ''4,bool'', KPtr KBool)]"

definition T_WriteResponse :: gotype where
  "T_WriteResponse = KStruct ''WriteResponse'' [(''WriteResponses'', ''0,array'', KSlice T_AttributeStatus)]"

definition T_InvokeResponse :: gotype where
  "T_InvokeResponse = KStruct ''InvokeResponse''
     [(''SuppressResponse'', ''0,bool'', KBool), (''InvokeResponses'', ''1,array'', KSlice T_InvokeResponseIB)]"

definition T_SubscribeResponse :: gotype where
  "T_SubscribeResponse = KStruct ''SubscribeResponse''
     [(''SubscriptionID'', ''0,uint'', KUint 32), (''MaxInterval'', ''2,uint'', KUint 16)]"

definition decode_status :: "byte list \<Rightarrow> byte res" where
  "decode_status = decode_msg T_StatusResponseMessage of_StatusResponseMessage"

definition decode_report :: "byte list \<Rightarrow> ReportData res" where
  "decode_report = decode_msg T_ReportData of_ReportData"

definition checkStatusResponse :: "Message \<Rightarrow> unit io" where
  "checkStatusResponse msg =
     (if opcode_of msg \<noteq> OpcodeStatusResponse then io_return ()
      else io_bind (io_wrap ''interaction: decoding status response'' (io_of (decode_status (Payload msg))))
        (\<lambda>c. io_check (statusFromCode c)))"

definition unexpected :: "byte \<Rightarrow> string \<Rightarrow> byte \<Rightarrow> im_err" where
  "unexpected got want opcode = IErr (Errorf (''interaction: unexpected opcode 0x'' @ fmt_02X got @ '', want ''
     @ want @ '' (0x'' @ fmt_02X opcode @ '')''))"

definition want_opcode :: "Message \<Rightarrow> string \<Rightarrow> byte \<Rightarrow> unit io" where
  "want_opcode msg want opcode =
     (if opcode_of msg \<noteq> opcode then io_fail (unexpected (opcode_of msg) want opcode) else io_return ())"

text \<open>An operation on an exchange of its own, which is closed when the operation is over.\<close>

definition with_exchange ::
  "err option \<Rightarrow> Session \<Rightarrow> (Exchange \<Rightarrow> 'a io) \<Rightarrow> io_state \<times> ExchangeManager \<Rightarrow> 'a im \<times> io_state \<times> ExchangeManager" where
  "with_exchange ctx session body st =
     (case NewExchange ctx session (snd st) of
        (Ok a, em) \<Rightarrow>
          (case body (heap em ! a) (fst st) of
             (Waiting, s) \<Rightarrow> (Waiting, s, em)
           | (r, s) \<Rightarrow> (r, s, CloseExchange a em))
      | (Err e, em) \<Rightarrow> (Fail (IErrorw ''interaction: creating exchange'' (IErr e)), fst st, em)
      | (Panic, em) \<Rightarrow> (Crashed, fst st, em))"

subsection \<open>Exchanges that send without an error\<close>

definition quiet :: "(Message \<Rightarrow> err option) option \<Rightarrow> bool" where
  "quiet f \<longleftrightarrow> (case f of None \<Rightarrow> True | Some f \<Rightarrow> \<forall>m. f m = None)"

text \<open>The message an exchange puts its identifiers on.\<close>

definition stamped :: "Exchange \<Rightarrow> Message \<Rightarrow> Message" where
  "stamped ex m = snd (Exchange_Send ex m)"

lemma Exchange_Send_quiet: "quiet (ex_SendFunc ex) \<Longrightarrow> Exchange_Send ex m = (None, stamped ex m)"
  by (auto simp: quiet_def stamped_def Exchange_Send_def Let_def split: option.splits)

lemma stamped_simps [simp]:
  "Payload (stamped ex m) = Payload m" "opcode_of (stamped ex m) = opcode_of m"
  "ProtocolID (Protocol (stamped ex m)) = ProtocolID (Protocol m)"
  "ExchangeID (Protocol (stamped ex m)) = ex_ID ex"
  "SessionID (Header (stamped ex m)) = ID (ex_Session ex)"
  "HasAckCounter (Protocol (stamped ex m)) = HasAckCounter (Protocol m)"
  "AckMessageCounter (Protocol (stamped ex m)) = AckMessageCounter (Protocol m)"
  by (simp_all add: stamped_def Exchange_Send_def Let_def opcode_of_def split: option.splits)

subsection \<open>Read\<close>

definition status_ok :: goval where "status_ok = gv_StatusResponseMessage StatusSuccess"

definition more_chunks :: "ReportData \<Rightarrow> bool" where
  "more_chunks report \<longleftrightarrow> rd_MoreChunkedMessages report = Some True"

text \<open>One pass of the loop up to the decoded report.\<close>

definition read_report :: "string \<Rightarrow> Message \<Rightarrow> ReportData io" where
  "read_report what msg =
     io_bind (checkStatusResponse msg) (\<lambda>_.
     io_bind (want_opcode msg ''ReportData'' OpcodeReportData) (\<lambda>_.
     io_wrap what (io_of (decode_report (Payload msg)))))"

text \<open>The loop consumes a message in each pass; its recursion is over the inbox.\<close>

fun read_loop :: "Exchange \<Rightarrow> AttributeReport list \<Rightarrow> Message res list \<Rightarrow> Message list \<Rightarrow> AttributeReport list im \<times> io_state" where
  "read_loop ex acc [] out = (Waiting, \<lparr>inbox = [], outbox = out\<rparr>)"
| "read_loop ex acc (r # ms) out =
     (case io_bind (io_wrap ''interaction: receiving response'' (io_of r))
             (read_report ''interaction: decoding report data'') \<lparr>inbox = ms, outbox = out\<rparr> of
        (Val report, s) \<Rightarrow>
          (let acc = acc @ rd_AttributeReports report in
           if \<not> more_chunks report then (Val acc, s)
           else case io_wrap ''interaction: sending chunk ack'' (sendIMMessage ex OpcodeStatusResponse status_ok) s of
               (Val _, s) \<Rightarrow> read_loop ex acc ms (outbox s)
             | (Fail e, s) \<Rightarrow> (Fail e, s)
             | (Waiting, s) \<Rightarrow> (Waiting, s)
             | (Crashed, s) \<Rightarrow> (Crashed, s))
      | (Fail e, s) \<Rightarrow> (Fail e, s)
      | (Waiting, s) \<Rightarrow> (Waiting, s)
      | (Crashed, s) \<Rightarrow> (Crashed, s))"

declare read_loop.simps(2) [simp del]

definition read_request :: "AttributePath list \<Rightarrow> goval" where
  "read_request paths =
     gv_ReadRequest \<lparr>rr_AttributeRequests = paths, rr_EventRequests = [], rr_FabricFiltered = True\<rparr>"

definition read_body :: "AttributePath list \<Rightarrow> Exchange \<Rightarrow> AttributeReport list io" where
  "read_body paths ex =
     io_bind (io_wrap ''interaction: sending read request'' (sendIMMessage ex OpcodeReadRequest (read_request paths)))
       (\<lambda>_. io_bind (\<lambda>s. read_loop ex [] (inbox s) (outbox s)) (\<lambda>reports. io_return (reassembleListChunks reports)))"

definition Client_Read where
  "Client_Read ctx session paths = with_exchange ctx session (read_body paths)"

subsection \<open>Write\<close>

definition write_request :: "AttributeWrite list \<Rightarrow> goval" where
  "write_request ws = gv_WriteRequest \<lparr>wr_SuppressResponse = False, wr_TimedRequest = False,
     wr_WriteRequests = ws, wr_MoreChunkedMessages = None\<rparr>"

definition write_body :: "AttributeWrite list \<Rightarrow> Exchange \<Rightarrow> AttributeStatus list io" where
  "write_body ws ex =
     io_bind (io_wrap ''interaction: sending write request'' (sendIMMessage ex OpcodeWriteRequest (write_request ws))) (\<lambda>_.
     io_bind (io_wrap ''interaction: receiving response'' io_Receive) (\<lambda>msg.
     io_bind (checkStatusResponse msg) (\<lambda>_.
     io_bind (want_opcode msg ''WriteResponse'' OpcodeWriteResponse) (\<lambda>_.
     io_wrap ''interaction: decoding write response''
       (io_of (decode_msg T_WriteResponse of_WriteResponse (Payload msg)))))))"

definition Client_Write where
  "Client_Write ctx session ws = with_exchange ctx session (write_body ws)"

subsection \<open>Invoke\<close>

text \<open>
  The timed prologue: \<^verbatim>\<open>Some counter\<close> is the message whose acknowledgement the request carries.
\<close>

definition timed_prologue :: "u16 \<Rightarrow> Exchange \<Rightarrow> u32 option io" where
  "timed_prologue timedMs ex =
     (if timedMs = 0 then io_return None
      else
        io_bind (io_wrap ''interaction: sending timed request''
          (sendIMMessage ex OpcodeTimedRequest (gv_TimedRequestMessage timedMs))) (\<lambda>_.
        io_bind (io_wrap ''interaction: receiving timed response'' io_Receive) (\<lambda>timedResp.
        io_bind (io_wrap ''interaction: timed request rejected'' (checkStatusResponse timedResp)) (\<lambda>_.
        io_return (Some (MessageCounter (Header timedResp)))))))"

definition invoke_request :: "CommandPath \<Rightarrow> byte list \<Rightarrow> bool \<Rightarrow> goval" where
  "invoke_request path args timed = gv_InvokeRequest \<lparr>ir_SuppressResponse = False, ir_TimedRequest = timed,
     ir_InvokeRequests = [\<lparr>cd_Path = path, cd_Fields = args\<rparr>]\<rparr>"

definition invoke_body :: "CommandPath \<Rightarrow> byte list \<Rightarrow> u16 \<Rightarrow> Exchange \<Rightarrow> InvokeResponseIB io" where
  "invoke_body path args timedMs ex =
     io_bind (timed_prologue timedMs ex) (\<lambda>ack.
     io_bind (io_wrap ''interaction: sending invoke request''
       (sendIMMessageWithACK ex OpcodeInvokeRequest (invoke_request path args (timedMs > 0))
          (ack \<noteq> None) (case ack of None \<Rightarrow> 0 | Some c \<Rightarrow> c))) (\<lambda>_.
     io_bind (io_wrap ''interaction: receiving response'' io_Receive) (\<lambda>msg.
     io_bind (checkStatusResponse msg) (\<lambda>_.
     io_bind (want_opcode msg ''InvokeResponse'' OpcodeInvokeResponse) (\<lambda>_.
     io_bind (io_wrap ''interaction: decoding invoke response''
       (io_of (decode_msg T_InvokeResponse of_InvokeResponse (Payload msg)))) (\<lambda>resp.
     (case irs_InvokeResponses resp of
        [] \<Rightarrow> io_fail (IErr (Errorf ''interaction: invoke response contains no results''))
      | r # _ \<Rightarrow> io_return r)))))))"

definition invokeInternal where
  "invokeInternal ctx session path args timedMs = with_exchange ctx session (invoke_body path args timedMs)"

definition Client_Invoke where
  "Client_Invoke ctx session path args = invokeInternal ctx session path args 0"

definition Client_InvokeTimed where
  "Client_InvokeTimed ctx session path args timeoutMs = invokeInternal ctx session path args timeoutMs"

end
