(* ===== verification/Im_Subscribe.thy ===== *)
theory Im_Subscribe
  imports Im_Client
begin

text \<open>
  \<^verbatim>\<open>Client.Subscribe\<close> of \<^verbatim>\<open>internal/interaction/client.go\<close>: the establishment, which leaves the
  exchange open when it succeeds, and the goroutine that receives the ongoing reports, as the batches
  and the error it delivers to the caller's channels.
\<close>

fun splitAttributeReports :: "AttributeReport list \<Rightarrow> im_err + AttributeReport list" where
  "splitAttributeReports [] = Inr []"
| "splitAttributeReports (r # rs) =
     (case ar_Status r of
        Some st \<Rightarrow>
          (case statusFromIB (as_Status st) of
             Some e \<Rightarrow> Inl e
           | None \<Rightarrow> splitAttributeReports rs)
      | None \<Rightarrow>
          if ar_Data r = None then splitAttributeReports rs
          else (case splitAttributeReports rs of Inl e \<Rightarrow> Inl e | Inr ds \<Rightarrow> Inr (r # ds)))"

definition subscribe_request :: "AttributePath list \<Rightarrow> u16 \<Rightarrow> u16 \<Rightarrow> goval" where
  "subscribe_request paths minInterval maxInterval =
     gv_SubscribeRequest \<lparr>sr_KeepSubscriptions = True, sr_MinIntervalFloor = minInterval,
       sr_MaxIntervalCeiling = maxInterval, sr_AttributeRequests = paths, sr_EventRequests = [], sr_FabricFiltered = True\<rparr>"

fun priming_loop ::
  "Exchange \<Rightarrow> AttributeReport list \<Rightarrow> Message res list \<Rightarrow> Message list \<Rightarrow> AttributeReport list im \<times> io_state" where
  "priming_loop ex acc [] out = (Waiting, \<lparr>inbox = [], outbox = out\<rparr>)"
| "priming_loop ex acc (r # ms) out =
     (case io_bind (io_wrap ''interaction: receiving priming report'' (io_of r))
             (read_report ''interaction: decoding priming report'') \<lparr>inbox = ms, outbox = out\<rparr> of
        (Val report, s) \<Rightarrow>
          (let acc = acc @ rd_AttributeReports report in
           case io_wrap ''interaction: acknowledging priming report'' (sendIMMessage ex OpcodeStatusResponse status_ok) s of
             (Val _, s) \<Rightarrow> if \<not> more_chunks report then (Val acc, s) else priming_loop ex acc ms (outbox s)
           | (Fail e, s) \<Rightarrow> (Fail e, s)
           | (Waiting, s) \<Rightarrow> (Waiting, s)
           | (Crashed, s) \<Rightarrow> (Crashed, s))
      | (Fail e, s) \<Rightarrow> (Fail e, s)
      | (Waiting, s) \<Rightarrow> (Waiting, s)
      | (Crashed, s) \<Rightarrow> (Crashed, s))"

declare priming_loop.simps(2) [simp del]

record Subscription =
  sub_ID :: u32
  sub_MaxInterval :: u16
  sub_Priming :: "AttributeReport list"

definition subscribe_body :: "AttributePath list \<Rightarrow> u16 \<Rightarrow> u16 \<Rightarrow> Exchange \<Rightarrow> Subscription io" where
  "subscribe_body paths minInterval maxInterval ex =
     io_bind (io_wrap ''interaction: sending subscribe request''
       (sendIMMessage ex OpcodeSubscribeRequest (subscribe_request paths minInterval maxInterval))) (\<lambda>_.
     io_bind (\<lambda>s. priming_loop ex [] (inbox s) (outbox s)) (\<lambda>primingReports.
     case splitAttributeReports primingReports of
       Inl e \<Rightarrow> io_fail e
     | Inr primingData \<Rightarrow>
         io_bind (io_wrap ''interaction: receiving subscribe response'' io_Receive) (\<lambda>msg.
         io_bind (want_opcode msg ''SubscribeResponse'' OpcodeSubscribeResponse) (\<lambda>_.
         io_bind (io_wrap ''interaction: decoding subscribe response''
           (io_of (decode_msg T_SubscribeResponse of_SubscribeResponse (Payload msg)))) (\<lambda>subResp.
         io_return \<lparr>sub_ID = ss_SubscriptionID subResp, sub_MaxInterval = ss_MaxInterval subResp,
           sub_Priming = primingData\<rparr>)))))"

text \<open>Every failure closes the exchange; success leaves it to the goroutine.\<close>

definition Client_Subscribe ::
  "err option \<Rightarrow> Session \<Rightarrow> AttributePath list \<Rightarrow> u16 \<Rightarrow> u16 \<Rightarrow> io_state \<times> ExchangeManager \<Rightarrow>
    Subscription im \<times> io_state \<times> ExchangeManager" where
  "Client_Subscribe ctx session paths minInterval maxInterval st =
     (case NewExchange ctx session (snd st) of
        (Ok a, em) \<Rightarrow>
          (case subscribe_body paths minInterval maxInterval (heap em ! a) (fst st) of
             (Fail e, s) \<Rightarrow> (Fail e, s, CloseExchange a em)
           | (r, s) \<Rightarrow> (r, s, em))
      | (Err e, em) \<Rightarrow> (Fail (IErrorw ''interaction: creating exchange'' (IErr e)), fst st, em)
      | (Panic, em) \<Rightarrow> (Crashed, fst st, em))"

subsection \<open>The ongoing reports\<close>

text \<open>
  What the goroutine has delivered: the batches, in order, an error, and whether it has returned (and
  so closed the channels and the exchange).  \<open>cancelled\<close> tells whether the caller had cancelled the
  subscription when \<^verbatim>\<open>Receive\<close> failed.
\<close>

record delivery =
  dl_batches :: "AttributeReport list list"
  dl_error :: "im_err option"
  dl_ended :: bool
  dl_crashed :: bool
  dl_outbox :: "Message list"

definition stop :: "delivery \<Rightarrow> im_err option \<Rightarrow> delivery" where
  "stop d e = d\<lparr>dl_error := e, dl_ended := True\<rparr>"

definition crash :: "delivery \<Rightarrow> delivery" where
  "crash d = d\<lparr>dl_ended := True, dl_crashed := True\<rparr>"

fun ongoing :: "Exchange \<Rightarrow> bool \<Rightarrow> AttributeReport list \<Rightarrow> Message res list \<Rightarrow> delivery \<Rightarrow> delivery" where
  "ongoing ex cancelled accumulated [] d = d"
| "ongoing ex cancelled accumulated (Panic # ms) d = crash d"
| "ongoing ex cancelled accumulated (Err e # ms) d =
     stop d (if cancelled then None else Some (IErrorw ''interaction: receiving subscription report'' (IErr e)))"
| "ongoing ex cancelled accumulated (Ok msg # ms) d =
     (if opcode_of msg = OpcodeStatusResponse then
        (case decode_status (Payload msg) of
           Ok c \<Rightarrow> (case statusFromCode c of Some e \<Rightarrow> stop d (Some e) | None \<Rightarrow> ongoing ex cancelled accumulated ms d)
         | Err _ \<Rightarrow> ongoing ex cancelled accumulated ms d
         | Panic \<Rightarrow> crash d)
      else if opcode_of msg \<noteq> OpcodeReportData then ongoing ex cancelled accumulated ms d
      else case decode_report (Payload msg) of
        Err e \<Rightarrow> stop d (Some (IErrorw ''interaction: decoding subscription report'' (IErr e)))
      | Panic \<Rightarrow> crash d
      | Ok report \<Rightarrow>
          let accumulated = accumulated @ rd_AttributeReports report in
          (case sendIMMessage ex OpcodeStatusResponse status_ok \<lparr>inbox = [], outbox = dl_outbox d\<rparr> of
             (Fail e, s) \<Rightarrow> stop (d\<lparr>dl_outbox := outbox s\<rparr>) (Some (IErrorw ''interaction: acknowledging subscription report'' e))
           | (Val _, s) \<Rightarrow>
               let d = d\<lparr>dl_outbox := outbox s\<rparr> in
               if more_chunks report then ongoing ex cancelled accumulated ms d
               else (case splitAttributeReports accumulated of
                   Inl e \<Rightarrow> stop d (Some e)
                 | Inr ds \<Rightarrow> ongoing ex cancelled [] ms
                     (if ds = [] then d else d\<lparr>dl_batches := dl_batches d @ [ds]\<rparr>))
           | (_, s) \<Rightarrow> crash d))"

declare ongoing.simps(4) [simp del]

end
