(* ===== verification/Interaction.thy ===== *)
theory Interaction
  imports Im_Subscribe
begin

text \<open>
  The properties of the interaction model client: what it puts on the wire, what a chunked read
  returns, when it gives its exchange back, how a timed invoke starts, and what a subscription
  delivers.
\<close>

subsection \<open>Sending\<close>

lemma im_message_simps [simp]:
  "Payload (im_message op data ack c) = data" "opcode_of (im_message op data ack c) = op"
  "ProtocolID (Protocol (im_message op data ack c)) = ProtocolID_IM"
  "HasAckCounter (Protocol (im_message op data ack c)) = ack"
  "AckMessageCounter (Protocol (im_message op data ack c)) = (if ack then c else 0)"
  by (simp_all add: im_message_def opcode_of_def)

lemma send_message:
  assumes "quiet (ex_SendFunc ex)" and "wire_message v"
  obtains ts where "wf_forest ts" and "Marshal v = Ok (tlv_bytes (Node AnonymousTag TypeStructure ts))"
    and "\<And>op ack c s. sendIMMessageWithACK ex op v ack c s = (Val (), s\<lparr>outbox := outbox s @
      [stamped ex (im_message op (tlv_bytes (Node AnonymousTag TypeStructure (ts @ [revision]))) ack c)]\<rparr>)"
    and "\<And>reader x. reader v = Some x \<Longrightarrow>
      decode_msg (typeof v) reader (tlv_bytes (Node AnonymousTag TypeStructure (ts @ [revision]))) = Ok x"
proof -
  obtain ts where ts: "wf_forest ts" "Marshal v = Ok (tlv_bytes (Node AnonymousTag TypeStructure ts))"
    using message_roundtrip [OF assms(2), of Some v] by blast
  have "sendIMMessageWithACK ex op v ack c s = (Val (), s\<lparr>outbox := outbox s @
      [stamped ex (im_message op (tlv_bytes (Node AnonymousTag TypeStructure (ts @ [revision]))) ack c)]\<rparr>)"
    for op ack c s
    using ts(2) Exchange_Send_quiet [OF assms(1)]
    by (simp add: sendIMMessageWithACK_def io_defs add_revision_tree del: tlv_bytes.simps)
  moreover have "decode_msg (typeof v) reader (tlv_bytes (Node AnonymousTag TypeStructure (ts @ [revision]))) = Ok x"
    if x: "reader v = Some x" for reader x
  proof -
    obtain us where "Marshal v = Ok (tlv_bytes (Node AnonymousTag TypeStructure us))"
      "decode_msg (typeof v) reader (add_revision (tlv_bytes (Node AnonymousTag TypeStructure us))) = Ok x"
      using message_roundtrip [of v reader x, OF assms(2) x refl] by blast
    then have "decode_msg (typeof v) reader (add_revision (tlv_bytes (Node AnonymousTag TypeStructure ts))) = Ok x"
      using ts(2) by simp
    then show ?thesis unfolding add_revision_tree .
  qed
  ultimately show ?thesis using ts that by blast
qed

lemma send_sends:
  assumes "quiet (ex_SendFunc ex)" and "wire_message v"
  obtains m where "opcode_of m = op" and "\<And>s. sendIMMessage ex op v s = (Val (), s\<lparr>outbox := outbox s @ [m]\<rparr>)"
  using send_message [OF assms] unfolding sendIMMessage_def by (metis im_message_simps(2) stamped_simps(2))

lemma wire_status_ok [simp]: "wire_message status_ok"
  by (simp add: status_ok_def)

lemma wire_read_request [simp]: "wire_message (read_request paths)"
  by (simp add: read_request_def)

subsection \<open>Reading in chunks\<close>

text \<open>A message that carries the given report, in whatever encoding.\<close>

definition carries :: "Message \<Rightarrow> ReportData \<Rightarrow> bool" where
  "carries m rd \<longleftrightarrow> opcode_of m = OpcodeReportData \<and> decode_report (Payload m) = Ok rd"

fun chunked :: "ReportData list \<Rightarrow> bool" where
  "chunked [] = False"
| "chunked [r] = (\<not> more_chunks r)"
| "chunked (r # rs) = (more_chunks r \<and> chunked rs)"

lemma read_report_carries:
  "carries m rd \<Longrightarrow> io_bind (io_wrap what (io_of (Ok m))) (read_report what') s = (Val rd, s)"
  by (simp add: carries_def read_report_def checkStatusResponse_def want_opcode_def io_defs const_defs)

lemma read_loop_chunks:
  assumes "list_all2 carries msgs rds" and "chunked rds" and q: "quiet (ex_SendFunc ex)"
  shows "\<exists>out'. read_loop ex acc (map Ok msgs @ rest) out =
      (Val (acc @ concat (map rd_AttributeReports rds)), \<lparr>inbox = rest, outbox = out @ out'\<rparr>) \<and>
    map opcode_of out' = replicate (length rds - 1) OpcodeStatusResponse"
  using assms(1,2)
proof (induction msgs rds arbitrary: acc out rule: list_all2_induct)
  case Nil
  then show ?case by simp
next
  case (Cons m msgs rd rds)
  note r = read_report_carries [OF Cons.hyps(1)]
  show ?case
  proof (cases rds)
    case Nil
    then show ?thesis using Cons.prems Cons.hyps(2) by (simp add: read_loop.simps(2) r)
  next
    case (Cons rd2 rds2)
    then have more: "more_chunks rd" "chunked rds" using Cons.prems by auto
    obtain a where a: "opcode_of a = OpcodeStatusResponse"
        "\<And>s. sendIMMessage ex OpcodeStatusResponse status_ok s = (Val (), s\<lparr>outbox := outbox s @ [a]\<rparr>)"
      using send_sends [OF q wire_status_ok] by metis
    obtain out' where "read_loop ex (acc @ rd_AttributeReports rd) (map Ok msgs @ rest) (out @ [a]) =
        (Val ((acc @ rd_AttributeReports rd) @ concat (map rd_AttributeReports rds)),
          \<lparr>inbox = rest, outbox = (out @ [a]) @ out'\<rparr>)"
      "map opcode_of out' = replicate (length rds - 1) OpcodeStatusResponse"
      using Cons.IH more(2) by blast
    then show ?thesis using more(1) a Cons
      by (intro exI [of _ "a # out'"]) (simp add: read_loop.simps(2) r io_wrap_def)
  qed
qed

subsection \<open>The exchange of a request\<close>

text \<open>The exchange that the next call of \<^verbatim>\<open>NewExchange\<close> files, and what giving it back means.\<close>

definition next_key :: "Session \<Rightarrow> ExchangeManager \<Rightarrow> exchangeKey" where
  "next_key session em = \<lparr>sessionID = ID session, exchangeID = em_nextID em, isLocal = True\<rparr>"

definition released :: "Session \<Rightarrow> ExchangeManager \<Rightarrow> ExchangeManager \<Rightarrow> bool" where
  "released session em em' \<longleftrightarrow> exchanges em' = (exchanges em)(next_key session em := None) \<and>
     chan_closed (heap em' ! length (heap em)) \<and> take (length (heap em)) (heap em') = heap em"

lemma NewExchange_None:
  "NewExchange None session em = (Ok (length (heap em)), em\<lparr>em_nextID := em_nextID em + 1,
     exchanges := (exchanges em)(next_key session em \<mapsto> length (heap em)),
     heap := heap em @ [mk_exchange (em_nextID em) session True (DefaultSendFunc em)]\<rparr>)"
  by (simp add: NewExchange_def add_exchange_def Let_def next_key_def key_of_def mk_exchange_def)

lemma released_Close:
  assumes "NewExchange None session em = (Ok a, em1)"
  shows "released session em (CloseExchange a em1)"
  using assms unfolding NewExchange_None
  by (auto simp: released_def CloseExchange_def Let_def key_of_def mk_exchange_def next_key_def
      Exchange_Close_def nth_append)

lemma with_exchange_released:
  "with_exchange None session body (s, em) = (r, s', em') \<Longrightarrow> r \<noteq> Waiting \<Longrightarrow> released session em em'"
  using released_Close [OF NewExchange_None]
  by (auto simp: with_exchange_def NewExchange_None split: prod.splits im.splits)

definition gives_back :: "Session \<Rightarrow> ExchangeManager \<Rightarrow> 'a im \<times> io_state \<times> ExchangeManager \<Rightarrow> bool" where
  "gives_back session em out \<longleftrightarrow> fst out \<noteq> Waiting \<longrightarrow> released session em (snd (snd out))"

lemma with_exchange_gives_back: "gives_back session em (with_exchange None session body (s, em))"
  using with_exchange_released unfolding gives_back_def by (metis prod.collapse)

lemma new_exchange_at [simp]:
  "heap (snd (NewExchange None session em)) ! length (heap em) = mk_exchange (em_nextID em) session True (DefaultSendFunc em)"
  by (simp add: NewExchange_None)

lemma SendFunc_mk [simp]: "ex_SendFunc (mk_exchange i s b f) = f"
  by (simp add: mk_exchange_def)

lemma Client_Read_chunks:
  assumes q: "quiet (DefaultSendFunc em)" and "list_all2 carries msgs rds" and "chunked rds"
  shows "\<exists>s' em'. Client_Read None session paths (\<lparr>inbox = map Ok msgs, outbox = []\<rparr>, em)
      = (Val (reassembleListChunks (concat (map rd_AttributeReports rds))), s', em') \<and>
    map opcode_of (outbox s') = OpcodeReadRequest # replicate (length rds - 1) OpcodeStatusResponse \<and>
    released session em em'"
proof -
  let ?ex = "mk_exchange (em_nextID em) session True (DefaultSendFunc em)"
  have qx: "quiet (ex_SendFunc ?ex)" using q by simp
  obtain m where m: "opcode_of m = OpcodeReadRequest"
      "\<And>s. sendIMMessage ?ex OpcodeReadRequest (read_request paths) s = (Val (), s\<lparr>outbox := outbox s @ [m]\<rparr>)"
    using send_sends [OF qx wire_read_request] by metis
  obtain out' where out: "read_loop ?ex [] (map Ok msgs) [m] =
      (Val (concat (map rd_AttributeReports rds)), \<lparr>inbox = [], outbox = m # out'\<rparr>)"
      "map opcode_of out' = replicate (length rds - 1) OpcodeStatusResponse"
    using read_loop_chunks [OF assms(2,3) qx, of "[]" "[]" "[m]"] by auto
  have "read_body paths ?ex \<lparr>inbox = map Ok msgs, outbox = []\<rparr>
      = (Val (reassembleListChunks (concat (map rd_AttributeReports rds))), \<lparr>inbox = [], outbox = m # out'\<rparr>)"
    by (simp add: read_body_def io_defs m(2) out(1))
  then have "Client_Read None session paths (\<lparr>inbox = map Ok msgs, outbox = []\<rparr>, em)
      = (Val (reassembleListChunks (concat (map rd_AttributeReports rds))), \<lparr>inbox = [], outbox = m # out'\<rparr>,
         CloseExchange (length (heap em)) (snd (NewExchange None session em)))"
    by (simp add: Client_Read_def with_exchange_def NewExchange_None)
  then show ?thesis using m(1) out(2) released_Close [OF NewExchange_None, of session em]
    by (simp add: NewExchange_None)
qed


subsection \<open>Subscriptions\<close>

definition plain_report :: "AttributeReport \<Rightarrow> bool" where
  "plain_report r \<longleftrightarrow> ar_Status r = None \<and> ar_Data r \<noteq> None"

lemma split_plain: "list_all plain_report rs \<Longrightarrow> splitAttributeReports rs = Inr rs"
  by (induction rs) (auto simp: plain_report_def)

lemma split_error:
  assumes "\<exists>r \<in> set rs. \<exists>st. ar_Status r = Some st \<and> si_Status (as_Status st) \<noteq> StatusSuccess"
  shows "\<exists>c cc. splitAttributeReports rs = Inl (StatusError c cc) \<and> c \<noteq> StatusSuccess"
  using assms by (induction rs) (fastforce simp: statusFromIB_def split: option.splits sum.splits)+

lemma ongoing_chunks:
  assumes "list_all2 carries msgs rds" and "chunked rds" and q: "quiet (ex_SendFunc ex)"
    and "list_all plain_report (acc @ concat (map rd_AttributeReports rds))"
    and "acc @ concat (map rd_AttributeReports rds) \<noteq> []"
  shows "\<exists>out'. ongoing ex c acc (map Ok msgs @ rest) d = ongoing ex c [] rest
      (d\<lparr>dl_outbox := dl_outbox d @ out', dl_batches := dl_batches d @ [acc @ concat (map rd_AttributeReports rds)]\<rparr>) \<and>
    map opcode_of out' = replicate (length rds) OpcodeStatusResponse"
  using assms(1,2,4,5)
proof (induction msgs rds arbitrary: acc d rule: list_all2_induct)
  case Nil
  then show ?case by simp
next
  case (Cons m msgs rd rds)
  have o: "opcode_of m = OpcodeReportData" "opcode_of m \<noteq> OpcodeStatusResponse" "decode_report (Payload m) = Ok rd"
    using Cons.hyps(1) by (auto simp: carries_def const_defs)
  obtain a where a: "opcode_of a = OpcodeStatusResponse"
      "\<And>s. sendIMMessage ex OpcodeStatusResponse status_ok s = (Val (), s\<lparr>outbox := outbox s @ [a]\<rparr>)"
    using send_sends [OF q wire_status_ok] by metis
  show ?case
  proof (cases rds)
    case Nil
    then show ?thesis using Cons.prems Cons.hyps(2) o a split_plain [of "acc @ rd_AttributeReports rd"]
      by (intro exI [of _ "[a]"]) (auto simp: ongoing.simps(4) Let_def)
  next
    case (Cons rd2 rds2)
    then have more: "more_chunks rd" "chunked rds" using Cons.prems by auto
    obtain out' where "ongoing ex c (acc @ rd_AttributeReports rd) (map Ok msgs @ rest) (d\<lparr>dl_outbox := dl_outbox d @ [a]\<rparr>)
      = ongoing ex c [] rest (d\<lparr>dl_outbox := (dl_outbox d @ [a]) @ out',
          dl_batches := dl_batches d @ [(acc @ rd_AttributeReports rd) @ concat (map rd_AttributeReports rds)]\<rparr>)"
      "map opcode_of out' = replicate (length rds) OpcodeStatusResponse"
      using Cons.IH [of "acc @ rd_AttributeReports rd" "d\<lparr>dl_outbox := dl_outbox d @ [a]\<rparr>"] more(2) Cons.prems(2,3)
      by auto
    then show ?thesis using more(1) o a
      by (intro exI [of _ "a # out'"]) (simp add: ongoing.simps(4) Let_def)
  qed
qed

subsection \<open>Samples\<close>

definition report_payload :: "ReportData \<Rightarrow> byte list" where
  "report_payload rd = (case Marshal (gv_ReportData rd) of Ok bs \<Rightarrow> bs | _ \<Rightarrow> [])"

lemma typeof_messages [simp]:
  "typeof (gv_ReportData rd) = T_ReportData"
  "typeof (gv_StatusResponseMessage c) = T_StatusResponseMessage"
  "typeof (gv_InvokeResponse ir) = T_InvokeResponse"
  by (simp_all add: gv_ReportData_def T_ReportData_def gv_StatusResponseMessage_def T_StatusResponseMessage_def
      gv_InvokeResponse_def T_InvokeResponse_def)

lemma decode_report_payload: "wire_message (gv_ReportData rd) \<Longrightarrow> decode_report (report_payload rd) = Ok rd"
  using message_roundtrip [of "gv_ReportData rd" of_ReportData rd T_ReportData]
  by (auto simp: decode_report_def report_payload_def)

definition device_message :: "byte \<Rightarrow> byte list \<Rightarrow> Message" where
  "device_message op payload = im_message op payload False 0"

lemma carries_device_message:
  "wire_message (gv_ReportData rd) \<Longrightarrow> carries (device_message OpcodeReportData (report_payload rd)) rd"
  by (simp add: carries_def device_message_def decode_report_payload)

definition sample_report :: AttributeReport where
  "sample_report = \<lparr>ar_Status = None, ar_Data = Some \<lparr>ad_DataVersion = 1,
     ad_Path = NewAttributePath 1 0x1D 3, ad_Data = []\<rparr>\<rparr>"

definition item :: "u64 \<Rightarrow> Tlv" where "item n = Leaf AnonymousTag (VUint64 n)"

definition sample_sent :: "sent list" where
  "sample_sent = [Chunked sample_report [item 1] [item 2, item 70000]]"

definition sample_rd :: "bool \<Rightarrow> AttributeReport list \<Rightarrow> ReportData" where
  "sample_rd chunk rs = \<lparr>rd_SubscriptionID = None, rd_AttributeReports = rs,
     rd_MoreChunkedMessages = (if chunk then Some True else None), rd_SuppressResponse = None\<rparr>"

definition sample_rds :: "ReportData list" where
  "sample_rds =
     [sample_rd True [with_data sample_report (tlv_bytes (Node AnonymousTag TypeArray [item 1])), as_append sample_report (item 2)],
      sample_rd False [as_append sample_report (item 70000)]]"

definition sample_msgs :: "Message list" where
  "sample_msgs = map (\<lambda>rd. device_message OpcodeReportData (report_payload rd)) sample_rds"

lemma wf_item: "wf_tlv (item n)" "root_tag (item n) = AnonymousTag" "not_null (item n)"
  by (simp_all add: item_def value_ok_def wf_tag_AnonymousTag not_null_def)

lemma raw_item: "raw_element (tlv_bytes (item n))"
  using wf_item by (auto simp: raw_element_def)

lemma raw_array: "(\<forall>t \<in> set ts. wf_tlv t) \<Longrightarrow> raw_element (tlv_bytes (Node AnonymousTag TypeArray ts))"
  unfolding raw_element_def by (auto simp: wf_tag_AnonymousTag not_null_def simp del: tlv_bytes.simps
      intro!: exI [of _ "Node AnonymousTag TypeArray ts"])

lemma sample_raw:
  "report_raw (as_append sample_report (item n))"
  "report_raw (with_data sample_report (tlv_bytes (Node AnonymousTag TypeArray [item n])))"
  using raw_item raw_array [of "[item n]"] wf_item
  by (simp_all add: report_raw_def as_append_def with_data_def sample_report_def del: tlv_bytes.simps)

lemma sample_carries: "list_all2 carries sample_msgs sample_rds"
proof -
  have "\<forall>rd \<in> set sample_rds. wire_message (gv_ReportData rd)"
    by (auto simp: sample_rds_def sample_rd_def sample_raw intro!: wire_ReportData simp del: tlv_bytes.simps)
  then show ?thesis
    by (auto simp: sample_msgs_def list_all2_conv_all_nth carries_device_message)
qed

lemma sample_chunked: "chunked sample_rds"
  by (simp add: sample_rds_def sample_rd_def more_chunks_def)

lemma sample_concat: "concat (map rd_AttributeReports sample_rds) = concat (map fragments sample_sent)"
  by (simp add: sample_rds_def sample_rd_def sample_sent_def del: tlv_bytes.simps)

lemma sample_proper: "list_all proper sample_sent"
  by (simp add: sample_sent_def sample_report_def attributeReportKey_def is_append_def NewAttributePath_def)

definition sample_em :: ExchangeManager where "sample_em = NewExchangeManager None"

definition sample_session :: Session where "sample_session = new_session 5 SessionUnsecured None"

lemma sample_quiet: "quiet (DefaultSendFunc sample_em)"
  by (simp add: quiet_def sample_em_def NewExchangeManager_def)


lemma sample_timed:
  "quiet (ex_SendFunc (mk_exchange 1 sample_session True None))"
  by (simp add: quiet_def)

definition status_payload :: "byte \<Rightarrow> byte list" where
  "status_payload c = (case Marshal (gv_StatusResponseMessage c) of Ok bs \<Rightarrow> bs | _ \<Rightarrow> [])"

lemma decode_status_payload: "decode_status (status_payload c) = Ok c"
  using message_roundtrip [of "gv_StatusResponseMessage c" of_StatusResponseMessage c T_StatusResponseMessage]
  by (auto simp: decode_status_def status_payload_def)

subsection \<open>The properties\<close>

text \<open>
  C31 Requests on the wire: every message of the client whose raw parts are TLV is handed to the
  exchange as one interaction-model message of the right opcode, stamped with the exchange and the
  session, the acknowledgement piggybacked if asked for, whose payload is the marshalled structure
  with the revision number as its last element, and a decoder of the structure gets the request back.
\<close>

theorem request_on_the_wire:
  assumes "quiet (ex_SendFunc ex)" and "wire_message v" and "reader v = Some x"
  shows "\<exists>m ts. sendIMMessageWithACK ex op v ack c s = (Val (), s\<lparr>outbox := outbox s @ [m]\<rparr>) \<and>
    Marshal v = Ok (tlv_bytes (Node AnonymousTag TypeStructure ts)) \<and>
    Payload m = tlv_bytes (Node AnonymousTag TypeStructure (ts @ [Leaf (ContextTag 255) (VUint64 11)])) \<and>
    decode_msg (typeof v) reader (Payload m) = Ok x \<and>
    ProtocolOpcode (Protocol m) = op \<and> ProtocolID (Protocol m) = 1 \<and> ExchangeID (Protocol m) = ex_ID ex \<and>
    SessionID (Header m) = ID (ex_Session ex) \<and> HasAckCounter (Protocol m) = ack \<and>
    (ack \<longrightarrow> AckMessageCounter (Protocol m) = c)"
proof -
  obtain ts where ts: "Marshal v = Ok (tlv_bytes (Node AnonymousTag TypeStructure ts))"
    and send: "\<And>op ack c s. sendIMMessageWithACK ex op v ack c s = (Val (), s\<lparr>outbox := outbox s @
      [stamped ex (im_message op (tlv_bytes (Node AnonymousTag TypeStructure (ts @ [revision]))) ack c)]\<rparr>)"
    and dec: "decode_msg (typeof v) reader (tlv_bytes (Node AnonymousTag TypeStructure (ts @ [revision]))) = Ok x"
    using send_message [OF assms(1,2)] assms(3) by metis
  let ?m = "stamped ex (im_message op (tlv_bytes (Node AnonymousTag TypeStructure (ts @ [revision]))) ack c)"
  show ?thesis
    by (rule exI [of _ ?m], rule exI [of _ ts])
      (simp add: ts send dec revision_def [symmetric] opcode_of_def [symmetric] ProtocolID_IM_def
        del: tlv_bytes.simps)
qed

theorem request_on_the_wire_witness:
  "\<exists>m ts. sendIMMessageWithACK (mk_exchange 1 sample_session True None) OpcodeStatusResponse
       (gv_StatusResponseMessage 0x9C) True 77 \<lparr>inbox = [], outbox = []\<rparr> = (Val (), \<lparr>inbox = [], outbox = [m]\<rparr>) \<and>
    Payload m = tlv_bytes (Node AnonymousTag TypeStructure (ts @ [Leaf (ContextTag 255) (VUint64 11)])) \<and>
    decode_msg T_StatusResponseMessage of_StatusResponseMessage (Payload m) = Ok 0x9C \<and>
    AckMessageCounter (Protocol m) = 77"
  using request_on_the_wire [OF sample_timed wire_responses(3), of of_StatusResponseMessage "0x9C" "0x9C"
      OpcodeStatusResponse True 77 "\<lparr>inbox = [], outbox = []\<rparr>"]
  by (auto simp del: tlv_bytes.simps)

text \<open>
  C30 A chunked read: when a device answers a read with any number of report messages, all but the last
  announcing more, whose reports are the fragments of the values it has (failed paths, values sent
  whole, lists cut into a first part and single items), the client acknowledges every message but the
  last, returns exactly one report per value, in order, every list whole again, and gives its
  exchange back.
\<close>

theorem read_returns_whole_values:
  assumes "quiet (DefaultSendFunc em)" and "list_all2 carries msgs rds" and "chunked rds"
    and "concat (map rd_AttributeReports rds) = concat (map fragments vs)" and "list_all proper vs"
  shows "\<exists>s' em'. Client_Read None session paths (\<lparr>inbox = map Ok msgs, outbox = []\<rparr>, em)
      = (Val (map whole vs), s', em') \<and>
    map opcode_of (outbox s') = OpcodeReadRequest # replicate (length rds - 1) OpcodeStatusResponse \<and>
    released session em em'"
  using Client_Read_chunks [OF assms(1-3), of session paths] reassemble_fragments [OF assms(5)] assms(4) by simp

theorem read_returns_whole_values_witness:
  "\<exists>s' em'. Client_Read None sample_session [NewAttributePath 1 0x1D 3]
      (\<lparr>inbox = map Ok sample_msgs, outbox = []\<rparr>, sample_em)
      = (Val [with_data sample_report (tlv_bytes (Node AnonymousTag TypeArray [item 1, item 2, item 70000]))], s', em') \<and>
    map opcode_of (outbox s') = [OpcodeReadRequest, OpcodeStatusResponse] \<and> released sample_session sample_em em'"
  using read_returns_whole_values [OF sample_quiet sample_carries sample_chunked sample_concat sample_proper,
      of sample_session "[NewAttributePath 1 0x1D 3]"]
  by (simp add: sample_sent_def sample_rds_def del: tlv_bytes.simps)

text \<open>
  C32 No exchange is leaked: a read, a write and an invoke (timed or not) that end in any way but
  waiting for a message, with a result, an error or a panic, have closed their exchange and removed
  it from the manager, and touched no other; a subscription does so when it fails.
\<close>

theorem requests_release_exchange:
  "gives_back session em (Client_Read None session paths (s, em)) \<and>
   gives_back session em (Client_Write None session ws (s, em)) \<and>
   gives_back session em (invokeInternal None session path args timedMs (s, em)) \<and>
   (case Client_Subscribe None session paths lo hi (s, em) of
      (Fail e, s', em') \<Rightarrow> released session em em'
    | _ \<Rightarrow> True)"
  using released_Close [OF NewExchange_None, of session em]
  by (auto simp: Client_Read_def Client_Write_def invokeInternal_def with_exchange_gives_back
      Client_Subscribe_def NewExchange_None split: prod.splits im.splits)

lemma send_timed:
  assumes "quiet (ex_SendFunc ex)"
  obtains m where "opcode_of m = OpcodeTimedRequest"
    and "\<And>s. sendIMMessage ex OpcodeTimedRequest (gv_TimedRequestMessage t) s = (Val (), s\<lparr>outbox := outbox s @ [m]\<rparr>)"
  using send_sends [OF assms wire_responses(4)] by metis

text \<open>
  A timed invoke: when the device answers the timed request with a status other than success, the
  invoke fails with that status and no invoke request is sent; but an answer that is not a status
  response at all is taken for an acceptance, and the invoke request, acknowledging it, follows.
\<close>

theorem timed_invoke_prologue:
  assumes "quiet (ex_SendFunc ex)" and "timedMs \<noteq> 0"
    and "opcode_of refusal = OpcodeStatusResponse" and "decode_status (Payload refusal) = Ok code" and "code \<noteq> StatusSuccess"
    and "opcode_of other \<noteq> OpcodeStatusResponse" and "raw_body args"
  shows "(\<exists>m. invoke_body path args timedMs ex \<lparr>inbox = [Ok refusal], outbox = []\<rparr>
        = (Fail (IErrorw ''interaction: timed request rejected'' (StatusError code None)), \<lparr>inbox = [], outbox = [m]\<rparr>) \<and>
      opcode_of m = OpcodeTimedRequest) \<and>
    (\<exists>m1 m2. invoke_body path args timedMs ex \<lparr>inbox = [Ok other], outbox = []\<rparr>
        = (Waiting, \<lparr>inbox = [], outbox = [m1, m2]\<rparr>) \<and>
      map opcode_of [m1, m2] = [OpcodeTimedRequest, OpcodeInvokeRequest] \<and>
      AckMessageCounter (Protocol m2) = MessageCounter (Header other))"
proof -
  obtain m where m: "opcode_of m = OpcodeTimedRequest"
      "\<And>s. sendIMMessage ex OpcodeTimedRequest (gv_TimedRequestMessage timedMs) s = (Val (), s\<lparr>outbox := outbox s @ [m]\<rparr>)"
    using send_timed [OF assms(1)] by metis
  have "wire_message (invoke_request path args (0 < timedMs))"
    unfolding invoke_request_def by (rule wire_InvokeRequest) (simp add: assms(7))
  from send_message [OF assms(1) this] obtain bs where
    send: "\<And>op ack c s. sendIMMessageWithACK ex op (invoke_request path args (0 < timedMs)) ack c s
      = (Val (), s\<lparr>outbox := outbox s @ [stamped ex (im_message op bs ack c)]\<rparr>)" by metis
  have "invoke_body path args timedMs ex \<lparr>inbox = [Ok refusal], outbox = []\<rparr>
      = (Fail (IErrorw ''interaction: timed request rejected'' (StatusError code None)), \<lparr>inbox = [], outbox = [m]\<rparr>)"
    using assms(2-5) m
    by (simp add: invoke_body_def timed_prologue_def io_defs checkStatusResponse_def statusFromCode_def)
  moreover have "invoke_body path args timedMs ex \<lparr>inbox = [Ok other], outbox = []\<rparr>
      = (Waiting, \<lparr>inbox = [], outbox = [m,
          stamped ex (im_message OpcodeInvokeRequest bs True (MessageCounter (Header other)))]\<rparr>)"
    using assms(2,6) m by (simp add: invoke_body_def timed_prologue_def io_defs checkStatusResponse_def send)
  ultimately show ?thesis using m(1) by auto
qed

theorem timed_invoke_prologue_witness:
  "(\<exists>m. invoke_body (NewCommandPath 1 6 1) [] 5000 (mk_exchange 1 sample_session True None)
        \<lparr>inbox = [Ok (device_message OpcodeStatusResponse (status_payload 0x9C))], outbox = []\<rparr>
        = (Fail (IErrorw ''interaction: timed request rejected'' (StatusError 0x9C None)), \<lparr>inbox = [], outbox = [m]\<rparr>)) \<and>
   (\<exists>m1 m2. invoke_body (NewCommandPath 1 6 1) [] 5000 (mk_exchange 1 sample_session True None)
        \<lparr>inbox = [Ok (device_message OpcodeReportData [])], outbox = []\<rparr>
        = (Waiting, \<lparr>inbox = [], outbox = [m1, m2]\<rparr>) \<and> opcode_of m2 = OpcodeInvokeRequest)"
proof -
  have "raw_body []" by (auto simp: raw_body_def intro: exI [of _ "[]"])
  then show ?thesis
    using timed_invoke_prologue [of "mk_exchange 1 sample_session True None" 5000
        "device_message OpcodeStatusResponse (status_payload 0x9C)" "0x9C" "device_message OpcodeReportData []" "[]"
        "NewCommandPath 1 6 1"] sample_timed
    by (auto simp: device_message_def decode_status_payload const_defs)
qed

text \<open>
  C33 What a subscription delivers: reports that arrive in chunks are acknowledged message by message
  and delivered as one batch, in order; but the fragments of a list reach the caller as they are,
  where a read would have put the list together.
\<close>

theorem subscription_delivers_fragments:
  assumes "quiet (ex_SendFunc ex)" and "list_all2 carries msgs rds" and "chunked rds"
    and "concat (map rd_AttributeReports rds) = concat (map fragments vs)"
    and "list_all plain_report (concat (map fragments vs))" and "vs \<noteq> []"
  shows "\<exists>out'. ongoing ex False [] (map Ok msgs) d
      = d\<lparr>dl_outbox := dl_outbox d @ out', dl_batches := dl_batches d @ [concat (map fragments vs)]\<rparr> \<and>
    map opcode_of out' = replicate (length rds) OpcodeStatusResponse"
proof -
  have "fragments v \<noteq> []" for v by (cases v) simp_all
  then have "concat (map fragments vs) \<noteq> []" using assms(6) by (cases vs) auto
  then show ?thesis
    using ongoing_chunks [OF assms(2,3,1), of "[]" False "[]" d] assms(4,5) by simp
qed

definition idle :: delivery where
  "idle = \<lparr>dl_batches = [], dl_error = None, dl_ended = False, dl_crashed = False, dl_outbox = []\<rparr>"

theorem subscription_delivers_fragments_witness:
  "dl_batches (ongoing (mk_exchange 1 sample_session True None) False [] (map Ok sample_msgs) idle)
     = [[with_data sample_report (tlv_bytes (Node AnonymousTag TypeArray [item 1])),
         as_append sample_report (item 2), as_append sample_report (item 70000)]]"
proof -
  have "list_all plain_report (concat (map fragments sample_sent))"
    by (simp add: sample_sent_def plain_report_def with_data_def as_append_def sample_report_def del: tlv_bytes.simps)
  from subscription_delivers_fragments [OF sample_timed sample_carries sample_chunked sample_concat this, of idle]
  show ?thesis by (auto simp: sample_sent_def idle_def simp del: tlv_bytes.simps)
qed

end
