(* ===== verification/Tlv_Calls.thy ===== *)
theory Tlv_Calls
  imports Tlv_Canonical
begin

text \<open>
  Methods of the TLV writer as calls that may fail, as the encoders of certificates and commands chain
  them, and which of them cannot fail.
\<close>

text \<open>A method of the writer as a call, and the calls of a list in order.\<close>

definition put :: "(Writer \<Rightarrow> Writer \<times> err option) \<Rightarrow> (Writer, unit) call" where
  "put f w = (case f w of (w, None) \<Rightarrow> (Ok (), w) | (w, Some e) \<Rightarrow> (Err e, w))"

definition call_then :: "('s, unit) call \<Rightarrow> ('s, 'a) call \<Rightarrow> ('s, 'a) call" where
  "call_then m k = call_bind m (\<lambda>_. k)"

primrec call_seq :: "('s, unit) call list \<Rightarrow> ('s, unit) call" where
  "call_seq [] = call_return ()"
| "call_seq (m # ms) = call_then m (call_seq ms)"

text \<open>A container, opened, filled and closed; an error in between leaves it open.\<close>

definition container :: "(Writer \<Rightarrow> Writer \<times> err option) \<Rightarrow> (Writer, unit) call \<Rightarrow> (Writer, unit) call" where
  "container start inner = call_then (put start) (call_then inner (put EndContainer))"

definition call_wrap :: "string \<Rightarrow> ('s, 'a) call \<Rightarrow> ('s, 'a) call" where
  "call_wrap what m s = wrap_st what (m s)"

definition putOctets :: "byte \<Rightarrow> byte list \<Rightarrow> (Writer, unit) call" where
  "putOctets tag bs = put (\<lambda>w. PutOctetString w (ContextTag tag) bs)"

definition putUint :: "byte \<Rightarrow> u64 \<Rightarrow> (Writer, unit) call" where
  "putUint tag v = put (\<lambda>w. PutUnsignedInt w (ContextTag tag) v)"

lemma context_tag [simp]:
  "t_Type (ContextTag n) \<in> set tag_types" "t_TagNum (ContextTag n) = ucast n" "t_Type AnonymousTag \<in> set tag_types"
  "t_Type AnonymousTag \<noteq> TagContextSpecific" "wf_tag AnonymousTag"
  using wf_tag_ContextTag [of n] by (simp_all add: wf_tag_def ContextTag_def AnonymousTag_def zero_tag_def tag_types_def const_defs)

lemma finished_Ok:
  assumes "fst (call_then m (\<lambda>w. (Ok (Bytes w), w)) w) = Ok bytes"
  obtains w' where "m w = (Ok (), w')" and "Bytes w' = bytes"
proof (cases "m w")
  case (Pair r w')
  with assms show ?thesis by (cases r) (auto simp: call_then_def call_bind_def intro: that)
qed

lemma finished: "m w = (Ok x, w') \<Longrightarrow> fst (call_then m (\<lambda>w. (Ok (Bytes w), w)) w) = Ok (Bytes w')"
  by (simp add: call_then_def call_bind_def)

text \<open>A call that succeeds on every writer and only appends.\<close>

definition proceeds :: "(Writer, 'a) call \<Rightarrow> bool" where
  "proceeds m \<longleftrightarrow> (\<forall>w. \<exists>x bs. m w = (Ok x, w\<lparr>w_buf := w_buf w @ bs\<rparr>))"

lemma proceedsD:
  assumes "proceeds m" obtains x bs where "m w = (Ok x, w\<lparr>w_buf := w_buf w @ bs\<rparr>)"
  using assms unfolding proceeds_def by blast

lemma proceeds_bind:
  assumes "proceeds m" and "\<And>x. proceeds (k x)"
  shows "proceeds (call_bind m k)"
  unfolding proceeds_def
proof
  fix w
  obtain x bs where m: "m w = (Ok x, w\<lparr>w_buf := w_buf w @ bs\<rparr>)" by (rule proceedsD [OF assms(1)])
  obtain y cs where "k x (w\<lparr>w_buf := w_buf w @ bs\<rparr>) = (Ok y, w\<lparr>w_buf := w_buf w @ bs @ cs\<rparr>)"
    using assms(2) [of x, unfolded proceeds_def, rule_format, of "w\<lparr>w_buf := w_buf w @ bs\<rparr>"] by auto
  with m show "\<exists>y cs. call_bind m k w = (Ok y, w\<lparr>w_buf := w_buf w @ cs\<rparr>)" by (auto simp: call_bind_def)
qed

lemma proceeds_then: "proceeds m \<Longrightarrow> proceeds k \<Longrightarrow> proceeds (call_then m k)"
  unfolding call_then_def by (rule proceeds_bind)

lemma proceeds_pure [simp]: "proceeds (call_return x)" "proceeds (\<lambda>w. (Ok y, w))" "proceeds (call_of what (Ok y))"
  by (auto simp: proceeds_def call_return_def call_of_def intro: exI [of _ "[]"])

lemma proceeds_seq: "(\<And>m. m \<in> set ms \<Longrightarrow> proceeds m) \<Longrightarrow> proceeds (call_seq ms)"
  by (induction ms) (auto intro!: proceeds_then)

lemma proceeds_wrap: "proceeds m \<Longrightarrow> proceeds (call_wrap what m)"
  unfolding proceeds_def call_wrap_def by (metis wrap_st_Ok_iff)

lemma proceeds_put: "(\<And>w. f w = emits w bs) \<Longrightarrow> proceeds (put f)"
  by (auto simp: proceeds_def put_def emits_def)

lemma proceeds_container:
  assumes "\<And>w. start w = emits (w\<lparr>w_containers := w_containers w @ [k]\<rparr>) bs" and "proceeds inner"
  shows "proceeds (container start inner)"
  unfolding proceeds_def
proof
  fix w
  obtain x cs where "inner (w\<lparr>w_containers := w_containers w @ [k], w_buf := w_buf w @ bs\<rparr>) =
      (Ok x, w\<lparr>w_containers := w_containers w @ [k], w_buf := w_buf w @ bs @ cs\<rparr>)"
    using assms(2) [unfolded proceeds_def, rule_format, of "w\<lparr>w_containers := w_containers w @ [k], w_buf := w_buf w @ bs\<rparr>"]
    by auto
  then show "\<exists>x cs. container start inner w = (Ok x, w\<lparr>w_buf := w_buf w @ cs\<rparr>)"
    by (auto simp: container_def call_then_def call_bind_def put_def assms(1) emits_def EndContainer_emits)
qed

lemma proceeds_writes [simp]:
  "proceeds (putOctets n bs)" "proceeds (putUint n v)" "proceeds (put (\<lambda>w. PutBool w (ContextTag n) b))"
  "proceeds (put (\<lambda>w. PutUnsignedInt w AnonymousTag v))"
  unfolding putOctets_def putUint_def
  by (rule proceeds_put [OF PutOctetString_emits] proceeds_put [OF PutUnsignedInt_emits]
      proceeds_put [of "\<lambda>w. PutBool w (ContextTag n) b", OF put_value_emits [of _ _ "VBool b", unfolded put_value.simps]];
      simp)+

end
