(* ===== verification/Network.thy ===== *)
theory Network
  imports Prelude
begin

text \<open>
  \<^verbatim>\<open>internal/commissioning/network.go\<close>: the credentials of the networks a device may join, and the two
  readers of a Thread operational dataset.  Texts of errors leave out advice and the operands other
  than lengths.
\<close>

subsection \<open>Credentials\<close>

type_synonym NetworkType = int

definition NetworkEthernet :: NetworkType where "NetworkEthernet = 0"
definition NetworkWiFi :: NetworkType where "NetworkWiFi = 1"
definition NetworkThread :: NetworkType where "NetworkThread = 2"

lemmas network_types [const_defs] = NetworkEthernet_def NetworkWiFi_def NetworkThread_def

definition NetworkType_String :: "NetworkType \<Rightarrow> string" where
  "NetworkType_String t =
     (if t = NetworkEthernet then ''Ethernet'' else if t = NetworkWiFi then ''WiFi''
      else if t = NetworkThread then ''Thread'' else ''Unknown'')"

text \<open>Strings of the user are byte strings.\<close>

record WiFiCredentials =
  wf_SSID :: "byte list"
  wf_Password :: "byte list"

record NetworkCredentials =
  nc_Type :: NetworkType
  nc_WiFi :: "WiFiCredentials option"
  nc_Thread :: "byte list option"

definition NewWiFiCredentials :: "byte list \<Rightarrow> byte list \<Rightarrow> NetworkCredentials" where
  "NewWiFiCredentials ssid password =
     \<lparr>nc_Type = NetworkWiFi, nc_WiFi = Some \<lparr>wf_SSID = ssid, wf_Password = password\<rparr>, nc_Thread = None\<rparr>"

definition NewThreadCredentials :: "byte list \<Rightarrow> NetworkCredentials" where
  "NewThreadCredentials dataset = \<lparr>nc_Type = NetworkThread, nc_WiFi = None, nc_Thread = Some dataset\<rparr>"

definition NewEthernetCredentials :: NetworkCredentials where
  "NewEthernetCredentials = \<lparr>nc_Type = NetworkEthernet, nc_WiFi = None, nc_Thread = None\<rparr>"

subsection \<open>Thread datasets\<close>

definition threadTLVChannel :: byte where "threadTLVChannel = 0x00"
definition threadTLVExtendedPANID :: byte where "threadTLVExtendedPANID = 0x02"
definition threadTLVNetworkKey :: byte where "threadTLVNetworkKey = 0x05"
definition threadTLVNetworkName :: byte where "threadTLVNetworkName = 0x03"
definition threadTLVPANID :: byte where "threadTLVPANID = 0x01"

definition minThreadDatasetLen :: nat where "minThreadDatasetLen = 50"

lemmas thread_consts [const_defs] = threadTLVChannel_def threadTLVExtendedPANID_def threadTLVNetworkKey_def
  threadTLVNetworkName_def threadTLVPANID_def minThreadDatasetLen_def

definition requiredThreadTLVTypes :: "(byte \<times> string) list" where
  "requiredThreadTLVTypes = [(threadTLVChannel, ''Channel''), (threadTLVExtendedPANID, ''Extended PAN ID''),
     (threadTLVNetworkKey, ''Network Key''), (threadTLVNetworkName, ''Network Name''), (threadTLVPANID, ''PAN ID'')]"

text \<open>The types that are present; a length that runs past the end is not noticed.\<close>

function present_types :: "byte list \<Rightarrow> byte list" where
  "present_types (t # l # rest) = t # present_types (drop (unat l) rest)"
| "present_types [t] = []"
| "present_types [] = []"
  by pat_completeness auto
termination by (relation "measure length") auto

definition ValidateThreadDataset :: "byte list \<Rightarrow> err option" where
  "ValidateThreadDataset dataset =
     (if length dataset < minThreadDatasetLen
      then Some (Errorf (''Thread operational dataset is too short ('' @ fmt_d (length dataset) @ '' bytes, minimum 50)''))
      else
        let missing = [n. (i, n) \<leftarrow> requiredThreadTLVTypes, i \<notin> set (present_types dataset)] in
        if missing \<noteq> [] then Some (Errorf (''Thread operational dataset is missing required fields: '' @ concat missing))
        else None)"

function ExtractExtendedPANID :: "byte list \<Rightarrow> byte list res" where
  "ExtractExtendedPANID (t # l # rest) =
     (if unat l > length rest then Err (Errorf ''Thread dataset TLV truncated'')
      else if t = threadTLVExtendedPANID then
        (if l \<noteq> 8 then Err (Errorf (''Thread Extended PAN ID has unexpected length '' @ fmt_d (unat l) @ '' (expected 8)''))
         else Ok (take 8 rest))
      else ExtractExtendedPANID (drop (unat l) rest))"
| "ExtractExtendedPANID [t] = Err (Errorf ''Thread operational dataset does not contain an Extended PAN ID'')"
| "ExtractExtendedPANID [] = Err (Errorf ''Thread operational dataset does not contain an Extended PAN ID'')"
  by pat_completeness auto
termination by (relation "measure length") auto

subsection \<open>Reading a dataset\<close>

text \<open>A dataset as a list of types with their values.\<close>

definition dataset_bytes :: "(byte \<times> byte list) list \<Rightarrow> byte list" where
  "dataset_bytes ds = concat (map (\<lambda>(t, v). t # word_of_nat (length v) # v) ds)"

definition dataset_ok :: "(byte \<times> byte list) list \<Rightarrow> bool" where
  "dataset_ok ds \<longleftrightarrow> (\<forall>(t, v) \<in> set ds. length v < 256)"

lemma dataset_Cons [simp]:
  "dataset_bytes [] = []" "dataset_bytes ((t, v) # ds) = t # word_of_nat (length v) # v @ dataset_bytes ds"
  "dataset_ok []" "dataset_ok ((t, v) # ds) \<longleftrightarrow> length v < 256 \<and> dataset_ok ds"
  by (simp_all add: dataset_bytes_def dataset_ok_def)

lemma unat_length_byte: "length v < 256 \<Longrightarrow> unat (word_of_nat (length v) :: byte) = length v"
  by (simp add: unat_word_of_nat_id)

lemma present_types_dataset: "dataset_ok ds \<Longrightarrow> present_types (dataset_bytes ds) = map fst ds"
  by (induction ds) (auto simp: unat_length_byte)

text \<open>
  C29 A well-formed Thread dataset of at least 50 bytes is accepted exactly if it has the five required
  entries, and its extended PAN identifier, the first entry of that type, is read back exactly if it
  is eight bytes long.  An accepted dataset whose identifier has another length is refused only when
  the device is told to connect.
\<close>

theorem thread_dataset_read:
  assumes "dataset_ok ds" and "50 \<le> length (dataset_bytes ds)"
  shows "(ValidateThreadDataset (dataset_bytes ds) = None \<longleftrightarrow> {0, 1, 2, 3, 5} \<subseteq> fst ` set ds) \<and>
    (\<forall>v. ExtractExtendedPANID (dataset_bytes ds) = Ok v \<longleftrightarrow> map_of ds 2 = Some v \<and> length v = 8)"
proof
  show "ValidateThreadDataset (dataset_bytes ds) = None \<longleftrightarrow> {0, 1, 2, 3, 5} \<subseteq> fst ` set ds"
    using assms by (auto simp: ValidateThreadDataset_def present_types_dataset requiredThreadTLVTypes_def const_defs)
  show "\<forall>v. ExtractExtendedPANID (dataset_bytes ds) = Ok v \<longleftrightarrow> map_of ds 2 = Some v \<and> length v = 8"
    using assms(1)
  proof (induction ds)
    case (Cons d ds)
    obtain t v where d: "d = (t, v)" by (cases d)
    have "word_of_nat (length v) = (8 :: byte) \<longleftrightarrow> length v = 8" if "length v < 256"
      using unat_length_byte [OF that] by (simp add: word_unat_eq_iff)
    with Cons d show ?case by (auto simp: unat_length_byte const_defs)
  qed simp
qed

definition sample_dataset :: "(byte \<times> byte list) list" where
  "sample_dataset = [(0x0E, replicate 8 1), (0, [0, 0, 15]), (2, [1, 2, 3, 4, 5, 6, 7, 8]), (5, replicate 16 7),
     (3, [72, 111, 109, 101]), (1, [18, 52])]"

theorem thread_dataset_read_witness:
  "ValidateThreadDataset (dataset_bytes sample_dataset) = None \<and>
   ExtractExtendedPANID (dataset_bytes sample_dataset) = Ok [1, 2, 3, 4, 5, 6, 7, 8]"
  using thread_dataset_read [of sample_dataset] by (simp add: sample_dataset_def)

end
