(* ===== verification/Commission_Wire.thy ===== *)
theory Commission_Wire
  imports Tlv_Calls Im_Wire Setup_Payload Network
begin

text \<open>
  The encoders of the commands of \<^verbatim>\<open>internal/commissioning/flow.go\<close>, its readers of attributes, and its
  checks of responses.
\<close>

subsection \<open>Commands\<close>

definition encoded :: "(Writer, unit) call \<Rightarrow> byte list res" where
  "encoded m = fst (call_then m (\<lambda>w. (Ok (Bytes w), w)) NewWriter)"

definition encodeArmFailsafe :: "u16 \<Rightarrow> byte list res" where
  "encodeArmFailsafe seconds = encoded (call_seq [putUint 0 (ucast seconds), putUint 1 0])"

text \<open>A nil \<^verbatim>\<open>icac\<close> is \<open>None\<close>.\<close>

definition encodeAddNOC :: "byte list \<Rightarrow> byte list option \<Rightarrow> byte list \<Rightarrow> u64 \<Rightarrow> byte list res" where
  "encodeAddNOC noc icac ipk adminSubject = encoded (call_seq
     [putOctets 0 noc,
      (case icac of None \<Rightarrow> call_return () | Some c \<Rightarrow> putOctets 1 c),
      putOctets 2 ipk,
      putUint 3 adminSubject,
      putUint 4 0xFFF1])"

definition encodeWiFiNetwork :: "byte list \<Rightarrow> byte list \<Rightarrow> byte list res" where
  "encodeWiFiNetwork ssid password = encoded (call_seq [putOctets 0 ssid, putOctets 1 password])"

definition encodeOctetStringField :: "byte \<Rightarrow> byte list \<Rightarrow> byte list res" where
  "encodeOctetStringField tag data = encoded (putOctets tag data)"

definition encodeUintField :: "byte \<Rightarrow> u64 \<Rightarrow> byte list res" where
  "encodeUintField tag val = encoded (putUint tag val)"

subsection \<open>Attributes\<close>

text \<open>The first element of the data; anything that cannot be read is the default.\<close>

definition first_value :: "byte list \<Rightarrow> Value res" where
  "first_value data =
     (if data = [] then Err (Errorf ''empty'')
      else case Next (NewReader data) of
          (Ok _, r) \<Rightarrow> Ok (Reader_Value r)
        | (Err e, _) \<Rightarrow> Err e
        | (Panic, _) \<Rightarrow> Panic)"

definition decodeTLVString :: "byte list \<Rightarrow> byte list res" where
  "decodeTLVString data = (case first_value data of Panic \<Rightarrow> Panic | Ok (VString s) \<Rightarrow> Ok s | _ \<Rightarrow> Ok [])"

definition decodeTLVUint32 :: "byte list \<Rightarrow> u32 res" where
  "decodeTLVUint32 data = (case first_value data of Panic \<Rightarrow> Panic | Ok (VUint64 v) \<Rightarrow> Ok (ucast v) | _ \<Rightarrow> Ok 0)"

definition decodeTLVBool :: "byte list \<Rightarrow> bool res" where
  "decodeTLVBool data = (case first_value data of Panic \<Rightarrow> Panic | Ok (VBool b) \<Rightarrow> Ok b | _ \<Rightarrow> Ok False)"

definition decodeTLVUint16 :: "byte list \<Rightarrow> u16 res" where
  "decodeTLVUint16 data = (case first_value data of Panic \<Rightarrow> Panic | Ok (VUint64 v) \<Rightarrow> Ok (ucast v) | _ \<Rightarrow> Ok 0)"

lemma Next_shrinks: "length (r_src (snd (Next r))) \<le> length (r_src r)"
proof (cases "r_done r \<or> r_src r = []")
  case True
  then show ?thesis by (auto simp: Next_def ReadFull_def)
next
  case False
  then obtain b s where src: "r_src r = b # s" and d: "\<not> r_done r" by (cases "r_src r") auto
  obtain x s1 where t: "decodeTag s (b AND tagTypeMask) = (x, s1)" by fastforce
  have l: "length s1 \<le> length s"
    using suffix_length_le [OF decodeTag_suffix [of s "b AND tagTypeMask"]] t by simp
  obtain y s2 where v: "readValue s1 (b AND elementTypeMask) = (y, s2)" by fastforce
  have l2: "length s2 \<le> length s1"
    using suffix_length_le [OF suffix_readValue [of s1 "b AND elementTypeMask"]] v by simp
  have n: "Next r = bind_st (wrap_st ''decoding tag'' (x, s1))
      (\<lambda>tag s. if b AND elementTypeMask = TypeEndOfContainer then
           (if r_containers r = [] then (Err (Errorw ''unexpected end of container'' ErrContainerMismatch), r\<lparr>r_src := s\<rparr>)
            else (Ok (), r\<lparr>r_src := s, r_containers := butlast (r_containers r),
              r_elem := \<lparr>e_Tag = tag, e_Type = b AND elementTypeMask, e_Value = VNil\<rparr>\<rparr>))
         else if is_container (b AND elementTypeMask) then
           (Ok (), r\<lparr>r_src := s, r_containers := r_containers r @ [b AND elementTypeMask],
              r_elem := \<lparr>e_Tag = tag, e_Type = b AND elementTypeMask, e_Value = VNil\<rparr>\<rparr>)
         else bind_st (wrap_st (''reading value for '' @ ElementType_String (b AND elementTypeMask)) (readValue s (b AND elementTypeMask)))
           (\<lambda>val s. (Ok (), r\<lparr>r_src := s, r_elem := \<lparr>e_Tag = tag, e_Type = b AND elementTypeMask, e_Value = val\<rparr>\<rparr>))
           (\<lambda>s. r\<lparr>r_src := s\<rparr>)) (\<lambda>s. r\<lparr>r_src := s\<rparr>)"
    using d src t by (simp add: Next_def ReadFull_def Let_def)
  show ?thesis
    by (cases x; cases y) (use n l l2 v src in simp_all)
qed

text \<open>The numbers of an array: elements of another type are skipped, and so is what follows an error.\<close>

function read_uints :: "Reader \<Rightarrow> u64 list res" where
  "read_uints r =
     (case Next r of
        (Err e, _) \<Rightarrow> Ok []
      | (Panic, _) \<Rightarrow> Panic
      | (Ok _, r') \<Rightarrow>
          if Reader_Type r' = TypeEndOfContainer then Ok []
          else bind_res (read_uints r') (\<lambda>vs. Ok (case Reader_Value r' of VUint64 v \<Rightarrow> v # vs | _ \<Rightarrow> vs)))"
  by pat_completeness auto
termination by (relation "measure (\<lambda>r. length (r_src r))") (auto simp: Next_consumes)

declare read_uints.simps [simp del]

text \<open>A list of elements of an array, read by \<open>f\<close>; data that is not an array is no list.\<close>

definition decode_array :: "(Reader \<Rightarrow> 'a list res) \<Rightarrow> byte list \<Rightarrow> 'a list res" where
  "decode_array f data =
     (if data = [] then Ok []
      else case Next (NewReader data) of
          (Err e, _) \<Rightarrow> Ok []
        | (Panic, _) \<Rightarrow> Panic
        | (Ok _, r) \<Rightarrow> if Reader_Type r \<noteq> TypeArray then Ok [] else f r)"

definition decodeTLVUint16Array :: "byte list \<Rightarrow> u16 list res" where
  "decodeTLVUint16Array = decode_array (\<lambda>r. bind_res (read_uints r) (\<lambda>vs. Ok (map ucast vs)))"

definition decodeTLVUint32Array :: "byte list \<Rightarrow> u32 list res" where
  "decodeTLVUint32Array = decode_array (\<lambda>r. bind_res (read_uints r) (\<lambda>vs. Ok (map ucast vs)))"

record DeviceTypeInfo =
  dti_ID :: u32
  dti_Revision :: u16

text \<open>The fields of one structure, and where the reader stands after it.\<close>

function read_device_type :: "DeviceTypeInfo \<Rightarrow> Reader \<Rightarrow> DeviceTypeInfo res \<times> Reader" where
  "read_device_type dt r =
     (case Next r of
        (Err e, r') \<Rightarrow> (Ok dt, r')
      | (Panic, r') \<Rightarrow> (Panic, r')
      | (Ok _, r') \<Rightarrow>
          if Reader_Type r' = TypeEndOfContainer then (Ok dt, r')
          else read_device_type
            (case Reader_Value r' of
               VUint64 v \<Rightarrow>
                 if TagValue r' = ContextTag 0 then dt\<lparr>dti_ID := ucast v\<rparr>
                 else if TagValue r' = ContextTag 1 then dt\<lparr>dti_Revision := ucast v\<rparr>
                 else dt
             | _ \<Rightarrow> dt) r')"
  by pat_completeness auto
termination by (relation "measure (\<lambda>(dt, r). length (r_src r))") (auto simp: Next_consumes)

declare read_device_type.simps [simp del]

lemma read_device_type_shrinks: "length (r_src (snd (read_device_type dt r))) \<le> length (r_src r)"
proof (induction dt r rule: read_device_type.induct)
  case (1 dt r)
  show ?case using 1 Next_shrinks [of r] Next_consumes [of r]
    by (subst read_device_type.simps) (fastforce split: prod.split res.split)
qed

lemma read_device_type_less:
  "(Ok u, r') = Next r \<Longrightarrow> (x, r'') = read_device_type dt r' \<Longrightarrow> length (r_src r'') < length (r_src r)"
  using Next_consumes [of r r'] read_device_type_shrinks [of dt r'] by (metis le_less_trans snd_conv old.unit.exhaust)

function read_device_types :: "Reader \<Rightarrow> DeviceTypeInfo list res" where
  "read_device_types r =
     (case Next r of
        (Err e, _) \<Rightarrow> Ok []
      | (Panic, _) \<Rightarrow> Panic
      | (Ok _, r') \<Rightarrow>
          if Reader_Type r' = TypeEndOfContainer then Ok []
          else if Reader_Type r' \<noteq> TypeStructure then read_device_types r'
          else
            let (dt, r'') = read_device_type \<lparr>dti_ID = 0, dti_Revision = 0\<rparr> r' in
            bind_res dt (\<lambda>dt. bind_res (read_device_types r'') (\<lambda>dts. Ok (dt # dts))))"
  by pat_completeness auto
termination
  by (relation "measure (\<lambda>r. length (r_src r))") (auto simp: Next_consumes read_device_type_less)

declare read_device_types.simps [simp del]

definition decodeDeviceTypeList :: "byte list \<Rightarrow> DeviceTypeInfo list res" where
  "decodeDeviceTypeList = decode_array read_device_types"

subsection \<open>Responses\<close>

fun o_string :: "goval \<Rightarrow> byte list option" where
  "o_string (GString s) = Some s"
| "o_string _ = None"

definition text_of :: "byte list \<Rightarrow> string" where "text_of s = map (\<lambda>b. char_of (unat b)) s"

text \<open>\<^verbatim>\<open>msg\<close> and, if there is one, the text of the device.\<close>

definition with_debug :: "string \<Rightarrow> byte list \<Rightarrow> err" where
  "with_debug msg debugText = Errorf (if debugText \<noteq> [] then msg @ '': '' @ text_of debugText else msg)"

definition T_nocResponse :: gotype where
  "T_nocResponse = KStruct ''nocResponse''
     [(''StatusCode'', ''0,uint'', KUint 8), (''FabricIndex'', ''1,uint'', KUint 8), (''DebugText'', ''2,utf8'', KString)]"

definition of_nocResponse :: "goval \<Rightarrow> (byte \<times> byte list) option" where
  "of_nocResponse v = (case o_fields v of
     [a, b, c] \<Rightarrow> do { a \<leftarrow> o_u a; c \<leftarrow> o_string c; Some (a, c) }
   | _ \<Rightarrow> None)"

text \<open>A response that cannot be parsed counts as a success.\<close>

definition checkNOCResponse :: "byte list \<Rightarrow> unit res" where
  "checkNOCResponse resp =
     (if resp = [] then Ok ()
      else case decode_msg T_nocResponse of_nocResponse (WrapStruct resp) of
          Panic \<Rightarrow> Panic
        | Err _ \<Rightarrow> Ok ()
        | Ok (code, debugText) \<Rightarrow>
            if code \<noteq> 0 then Err (with_debug (''AddNOC returned error code '' @ fmt_d (unat code)) debugText)
            else Ok ())"

definition T_errorResponse :: gotype where
  "T_errorResponse = KStruct ''errorResponse'' [(''ErrorCode'', ''0,uint'', KUint 8), (''DebugText'', ''1,utf8'', KString)]"

definition of_errorResponse :: "goval \<Rightarrow> (byte \<times> byte list) option" where
  "of_errorResponse v = (case o_fields v of
     [a, b] \<Rightarrow> do { a \<leftarrow> o_u a; b \<leftarrow> o_string b; Some (a, b) }
   | _ \<Rightarrow> None)"

definition checkCommandErrorCode :: "byte list \<Rightarrow> string \<Rightarrow> unit res" where
  "checkCommandErrorCode resp commandName =
     (if resp = [] then Ok ()
      else case decode_msg T_errorResponse of_errorResponse (WrapStruct resp) of
          Panic \<Rightarrow> Panic
        | Err _ \<Rightarrow> Ok ()
        | Ok (code, debugText) \<Rightarrow>
            if code \<noteq> 0 then Err (with_debug (commandName @ '' returned error code '' @ fmt_d (unat code)) debugText)
            else Ok ())"

definition networkingStatusName :: "u64 \<Rightarrow> string" where
  "networkingStatusName status =
     (if status = 0 then ''Success'' else if status = 1 then ''OutOfRange'' else if status = 2 then ''BoundsExceeded''
      else if status = 3 then ''NetworkIDNotFound'' else if status = 4 then ''DuplicateNetworkID''
      else if status = 5 then ''NetworkNotFound'' else if status = 6 then ''RegulatoryError''
      else if status = 7 then ''AuthFailure'' else if status = 8 then ''UnsupportedSecurity''
      else if status = 9 then ''OtherConnectionFailure'' else if status = 10 then ''IPV6Failed''
      else if status = 11 then ''IPBindFailed'' else if status = 12 then ''UnknownError''
      else ''Unknown('' @ fmt_d (unat status) @ '')'')"

text \<open>One element of the response of a network command: the status and the text seen so far.\<close>

definition network_element :: "Element \<Rightarrow> u64 option \<times> byte list \<Rightarrow> u64 option \<times> byte list" where
  "network_element elem st =
     (if t_Type (e_Tag elem) \<noteq> TagContextSpecific then st
      else if t_TagNum (e_Tag elem) = 0 then (case e_Value elem of VUint64 v \<Rightarrow> (Some v, snd st) | _ \<Rightarrow> st)
      else if t_TagNum (e_Tag elem) = 1 then (case e_Value elem of VString s \<Rightarrow> (fst st, s) | _ \<Rightarrow> st)
      else st)"

function network_fields :: "Reader \<Rightarrow> u64 option \<times> byte list \<Rightarrow> (u64 option \<times> byte list) res" where
  "network_fields r st =
     (case Next r of
        (Err e, _) \<Rightarrow> Ok st
      | (Panic, _) \<Rightarrow> Panic
      | (Ok _, r') \<Rightarrow> network_fields r' (network_element (r_elem r') st))"
  by pat_completeness auto
termination by (relation "measure (\<lambda>(r, st). length (r_src r))") (auto simp: Next_consumes)

declare network_fields.simps [simp del]

definition checkNetworkResponse :: "byte list \<Rightarrow> string \<Rightarrow> unit res" where
  "checkNetworkResponse resp commandName =
     (if resp = [] then Ok ()
      else bind_res (network_fields (NewReader resp) (None, [])) (\<lambda>(status, debugText).
        case status of
          None \<Rightarrow> Ok ()
        | Some s \<Rightarrow>
            if s \<noteq> 0 then Err (with_debug (commandName @ '' failed: '' @ networkingStatusName s @ '' (status '' @ fmt_d (unat s) @ '')'') debugText)
            else Ok ()))"

end
