(* ===== verification/Crypto_Keys.thy ===== *)
theory Crypto_Keys
  imports Sha256
begin

text \<open>
  \<^verbatim>\<open>internal/crypto/keys.go\<close>, \<^verbatim>\<open>hkdf.go\<close> and \<^verbatim>\<open>pbkdf2.go\<close>.  The curve arithmetic of \<^verbatim>\<open>crypto/elliptic\<close>,
  the signature scheme of \<^verbatim>\<open>crypto/ecdsa\<close>, the key derivations of \<^verbatim>\<open>golang.org/x/crypto\<close> and the parser of
  \<^verbatim>\<open>crypto/x509\<close> are operations of a record, with the laws the program relies on.
\<close>

subsection \<open>Big integers\<close>

text \<open>\<^verbatim>\<open>SetBytes\<close>, \<^verbatim>\<open>Bytes\<close> and \<^verbatim>\<open>FillBytes\<close> of \<^verbatim>\<open>math/big\<close>; the last panics when the value does not fit.\<close>

definition big_SetBytes :: "byte list \<Rightarrow> int" where
  "big_SetBytes bs = foldl (\<lambda>n b. 256 * n + uint b) 0 bs"

function nat_bytes :: "nat \<Rightarrow> byte list" where
  "nat_bytes n = (if n = 0 then [] else nat_bytes (n div 256) @ [word_of_nat n])"
  by pat_completeness auto
termination by (relation "measure id") auto

declare nat_bytes.simps [simp del]

definition int_Bytes :: "int \<Rightarrow> byte list" where "int_Bytes x = nat_bytes (nat \<bar>x\<bar>)"

definition left_pad :: "nat \<Rightarrow> byte list \<Rightarrow> byte list" where
  "left_pad n b = replicate (n - length b) 0 @ b"

definition FillBytes :: "nat \<Rightarrow> int \<Rightarrow> byte list res" where
  "FillBytes n x = (if length (int_Bytes x) \<le> n then Ok (left_pad n (int_Bytes x)) else Panic)"

definition zeroPad :: "byte list \<Rightarrow> nat \<Rightarrow> byte list" where
  "zeroPad b n = (if length b \<ge> n then b else left_pad n b)"

lemma big_SetBytes_Nil [simp]: "big_SetBytes [] = 0"
  by (simp add: big_SetBytes_def)

lemma big_SetBytes_snoc [simp]: "big_SetBytes (bs @ [b]) = 256 * big_SetBytes bs + uint b"
  by (simp add: big_SetBytes_def)

lemma big_SetBytes_zeros [simp]: "big_SetBytes (replicate n 0 @ bs) = big_SetBytes bs"
  by (simp add: big_SetBytes_def) (induction n; simp)

lemma big_SetBytes_nonneg [simp]: "0 \<le> big_SetBytes bs"
  by (induction bs rule: rev_induct) simp_all

lemma big_SetBytes_nat_bytes [simp]: "big_SetBytes (nat_bytes n) = int n"
proof (induction n rule: nat_bytes.induct)
  case (1 n)
  have "uint (word_of_nat n :: byte) = int (n mod 256)"
    by (simp add: unsigned_of_nat take_bit_eq_mod zmod_int)
  moreover have "256 * int (n div 256) + int (n mod 256) = int n"
    by (metis mult_div_mod_eq of_nat_add of_nat_mult of_nat_numeral)
  ultimately show ?case using 1 by (subst nat_bytes.simps) (simp del: of_nat_mod)
qed

lemma length_nat_bytes: "n < 256 ^ k \<Longrightarrow> length (nat_bytes n) \<le> k"
proof (induction n arbitrary: k rule: nat_bytes.induct)
  case (1 n)
  show ?case
  proof (cases k)
    case 0
    with 1 show ?thesis by (simp add: nat_bytes.simps)
  next
    case (Suc j)
    with 1 show ?thesis by (subst nat_bytes.simps) (simp add: less_mult_imp_div_less mult.commute)
  qed
qed

lemma big_SetBytes_int_Bytes [simp]: "0 \<le> x \<Longrightarrow> big_SetBytes (int_Bytes x) = x"
  by (simp add: int_Bytes_def)

lemma length_int_Bytes: "\<bar>x\<bar> < 256 ^ k \<Longrightarrow> length (int_Bytes x) \<le> k"
  unfolding int_Bytes_def by (rule length_nat_bytes) (simp add: nat_less_iff)

lemma big_SetBytes_left_pad [simp]: "big_SetBytes (left_pad n b) = big_SetBytes b"
  by (simp add: left_pad_def)

lemma length_left_pad: "length b \<le> n \<Longrightarrow> length (left_pad n b) = n"
  by (simp add: left_pad_def)

lemma FillBytes_fits:
  assumes "0 \<le> x" and "x < 256 ^ n"
  obtains b where "FillBytes n x = Ok b" and "length b = n" and "big_SetBytes b = x"
  using assms length_int_Bytes [of x n] by (simp add: FillBytes_def length_left_pad)

lemma digit_unique:
  "256 * a + x = 256 * b + (y :: int) \<Longrightarrow> x < 256 \<Longrightarrow> y < 256 \<Longrightarrow> 0 \<le> x \<Longrightarrow> 0 \<le> y \<Longrightarrow> x = y \<and> a = b"
proof -
  assume eq: "256 * a + x = 256 * b + y" and "x < 256" "y < 256" "0 \<le> x" "0 \<le> y"
  then have "(256 * a + x) div 256 = a" "(256 * b + y) div 256 = b" by simp_all
  with eq show ?thesis by simp
qed

lemma big_SetBytes_inject: "length a = length b \<Longrightarrow> big_SetBytes a = big_SetBytes b \<Longrightarrow> a = b"
proof (induction a arbitrary: b rule: rev_induct)
  case (snoc x a)
  then obtain y b' where b: "b = b' @ [y]" by (cases b rule: rev_cases) auto
  have "256 * big_SetBytes a + uint x = 256 * big_SetBytes b' + uint y" using snoc.prems b by simp
  moreover have "uint x < 256" "uint y < 256" "0 \<le> uint x" "0 \<le> uint y"
    using uint_lt2p [of x] uint_lt2p [of y] by simp_all
  ultimately have eq: "uint x = uint y \<and> big_SetBytes a = big_SetBytes b'" by (rule digit_unique)
  then have "x = y" by (metis word_of_int_uint)
  then show ?case using snoc eq b by simp
qed simp

lemma zeroPad_fits:
  "0 \<le> x \<Longrightarrow> x < 256 ^ n \<Longrightarrow> length (zeroPad (int_Bytes x) n) = n \<and> big_SetBytes (zeroPad (int_Bytes x) n) = x"
  using length_int_Bytes [of x n] by (auto simp: zeroPad_def length_left_pad)

subsection \<open>Operations of other packages\<close>

type_synonym point = "int \<times> int"

text \<open>What the program reads of an \<^verbatim>\<open>x509.Certificate\<close>; the key is \<open>None\<close> if it is not an ECDSA key.\<close>

record Certificate =
  ct_SerialNumber :: int
  ct_Issuer :: "(string \<times> string option) list"
  ct_Subject :: "(string \<times> string option) list"
  ct_NotBefore :: int
  ct_NotAfter :: int
  ct_PublicKey :: "point option"
  ct_BasicConstraintsValid :: bool
  ct_IsCA :: bool
  ct_MaxPathLen :: int
  ct_KeyUsage :: u64
  ct_ExtKeyUsage :: "int list"
  ct_SubjectKeyId :: "byte list"
  ct_AuthorityKeyId :: "byte list"
  ct_Signature :: "byte list"

record suite =
  P256_P :: int
  P256_N :: int
  IsOnCurve :: "point \<Rightarrow> bool"
  raw_Add :: "point \<Rightarrow> point \<Rightarrow> point"
  raw_ScalarMult :: "point \<Rightarrow> byte list \<Rightarrow> point"
  P256_G :: point
  UnmarshalCompressed :: "byte list \<Rightarrow> point option"
  ecdsa_Sign :: "int \<Rightarrow> byte list \<Rightarrow> byte list \<Rightarrow> (int \<times> int) res"
  ecdsa_Verify :: "point \<Rightarrow> byte list \<Rightarrow> int \<times> int \<Rightarrow> bool"
  hkdf_Read :: "byte list \<Rightarrow> byte list \<Rightarrow> byte list \<Rightarrow> nat \<Rightarrow> byte list res"
  pbkdf2_Key :: "byte list \<Rightarrow> byte list \<Rightarrow> int \<Rightarrow> nat \<Rightarrow> byte list"
  x509_ParseCertificate :: "byte list \<Rightarrow> Certificate res"
  asn1_Signature :: "byte list \<Rightarrow> (int \<times> int) res"

text \<open>
  The point at infinity has the coordinates zero, which are not on the curve; arithmetic on
  coordinates of no point panics.
\<close>

definition valid_point :: "suite \<Rightarrow> point \<Rightarrow> bool" where
  "valid_point S q \<longleftrightarrow> q = (0, 0) \<or> IsOnCurve S q"

definition curve_Add :: "suite \<Rightarrow> point \<Rightarrow> point \<Rightarrow> point res" where
  "curve_Add S p q = (if valid_point S p \<and> valid_point S q then Ok (raw_Add S p q) else Panic)"

definition curve_ScalarMult :: "suite \<Rightarrow> point \<Rightarrow> byte list \<Rightarrow> point res" where
  "curve_ScalarMult S p k = (if valid_point S p then Ok (raw_ScalarMult S p k) else Panic)"

definition curve_ScalarBaseMult :: "suite \<Rightarrow> byte list \<Rightarrow> point" where
  "curve_ScalarBaseMult S k = raw_ScalarMult S (P256_G S) k"

text \<open>
  The laws of the curve: its points are the multiples \<open>pt a\<close> of the base point, counted modulo the
  order \<open>N\<close>, which is prime; addition and multiplication act on the multiples, and the opposite of a
  point has the opposite second coordinate modulo \<open>P\<close>.
\<close>

definition curve_laws :: "suite \<Rightarrow> (int \<Rightarrow> point) \<Rightarrow> bool" where
  "curve_laws S pt \<longleftrightarrow>
     1 < P256_N S \<and> P256_N S \<le> 256 ^ 32 \<and> P256_P S \<le> 256 ^ 32 \<and>
     (\<forall>a b. P256_N S dvd a * b \<longrightarrow> P256_N S dvd a \<or> P256_N S dvd b) \<and>
     (\<forall>a b. pt a = pt b \<longleftrightarrow> P256_N S dvd a - b) \<and>
     pt 0 = (0, 0) \<and> P256_G S = pt 1 \<and>
     (\<forall>q. IsOnCurve S q \<longleftrightarrow> (\<exists>a. \<not> P256_N S dvd a \<and> q = pt a)) \<and>
     (\<forall>a. 0 \<le> fst (pt a) \<and> fst (pt a) < P256_P S \<and> 0 \<le> snd (pt a) \<and> snd (pt a) < P256_P S) \<and>
     (\<forall>a. \<not> P256_N S dvd a \<longrightarrow> pt (- a) = (fst (pt a), P256_P S - snd (pt a))) \<and>
     (\<forall>a b. raw_Add S (pt a) (pt b) = pt (a + b)) \<and>
     (\<forall>a k. raw_ScalarMult S (pt a) k = pt (a * big_SetBytes k))"

text \<open>Signatures verify, and their components fit in 32 bytes each.\<close>

definition ecdsa_laws :: "suite \<Rightarrow> bool" where
  "ecdsa_laws S \<longleftrightarrow> (\<forall>d hash rnd r s. ecdsa_Sign S d hash rnd = Ok (r, s) \<longrightarrow>
     0 < r \<and> r < 256 ^ 32 \<and> 0 < s \<and> s < 256 ^ 32 \<and>
     ecdsa_Verify S (curve_ScalarBaseMult S (int_Bytes d)) hash (r, s))"

definition kdf_laws :: "suite \<Rightarrow> bool" where
  "kdf_laws S \<longleftrightarrow>
     (\<forall>ikm salt info n. n \<le> 255 * 32 \<longrightarrow> (\<exists>out. hkdf_Read S ikm salt info n = Ok out \<and> length out = n)) \<and>
     (\<forall>pw salt iter n. length (pbkdf2_Key S pw salt iter n) = n)"

subsection \<open>Key derivation\<close>

definition HKDFSHA256 :: "suite \<Rightarrow> byte list \<Rightarrow> byte list \<Rightarrow> byte list \<Rightarrow> nat \<Rightarrow> byte list res" where
  "HKDFSHA256 S ikm salt info n = wrap_res ''crypto: HKDF'' (hkdf_Read S ikm salt info n)"

definition ascii :: "string \<Rightarrow> byte list" where "ascii s = map of_char s"

definition CompressedFabricID :: "suite \<Rightarrow> byte list \<Rightarrow> u64 \<Rightarrow> byte list res" where
  "CompressedFabricID S rootPubKey fabricID =
     (if length rootPubKey \<noteq> 65 \<or> rootPubKey ! 0 \<noteq> 0x04
      then Err (Errorf ''crypto: root public key must be 65-byte uncompressed SEC1'')
      else HKDFSHA256 S (drop 1 rootPubKey) (be_put 8 fabricID) (ascii ''CompressedFabric'') 8)"

definition DeriveGroupOperationalKey :: "suite \<Rightarrow> byte list \<Rightarrow> byte list \<Rightarrow> byte list res" where
  "DeriveGroupOperationalKey S epochKey compressedFabricID =
     HKDFSHA256 S epochKey compressedFabricID (ascii ''GroupKey v1.0'') 16"

definition PBKDF2SHA256 :: "suite \<Rightarrow> byte list \<Rightarrow> byte list \<Rightarrow> int \<Rightarrow> nat \<Rightarrow> byte list" where
  "PBKDF2SHA256 S password salt iterations keyLen = pbkdf2_Key S password salt iterations keyLen"

text \<open>The scalars \<open>w0\<close> and \<open>w1\<close> of a passcode, as integers below the order.\<close>

definition passcode_bytes :: "u32 \<Rightarrow> byte list" where
  "passcode_bytes passcode = [ucast passcode, ucast (drop_bit 8 passcode), ucast (drop_bit 16 passcode),
     ucast (drop_bit 24 passcode)]"

definition DeriveSPAKE2PValues :: "suite \<Rightarrow> u32 \<Rightarrow> byte list \<Rightarrow> int \<Rightarrow> (byte list \<times> byte list) res" where
  "DeriveSPAKE2PValues S passcode salt iterations =
     (if iterations < 1000
      then Err (Errorf (''crypto: PBKDF2 iterations too low: '' @ fmt_d (nat iterations)))
      else
        let ws = PBKDF2SHA256 S (passcode_bytes passcode) salt iterations 80;
            w0 = big_SetBytes (take 40 ws) mod P256_N S;
            w1 = big_SetBytes (take 40 (drop 40 ws)) mod P256_N S
        in Ok (zeroPad (int_Bytes w0) 32, zeroPad (int_Bytes w1) 32))"

subsection \<open>Keys\<close>

record PrivateKey =
  pk_D :: int
  pk_Public :: point

text \<open>A fresh key from a random scalar.\<close>

definition GenerateKeyPair :: "suite \<Rightarrow> int res \<Rightarrow> PrivateKey res" where
  "GenerateKeyPair S rnd =
     bind_res (wrap_res ''crypto: generate P-256 key'' rnd)
       (\<lambda>d. Ok \<lparr>pk_D = d, pk_Public = curve_ScalarBaseMult S (int_Bytes d)\<rparr>)"

definition PublicKeyToUncompressed :: "point \<Rightarrow> byte list res" where
  "PublicKeyToUncompressed pub =
     bind_res (FillBytes 32 (fst pub)) (\<lambda>x. bind_res (FillBytes 32 (snd pub)) (\<lambda>y. Ok (4 # x @ y)))"

definition PublicKeyFromUncompressed :: "suite \<Rightarrow> byte list \<Rightarrow> point res" where
  "PublicKeyFromUncompressed S data =
     (if length data \<noteq> 65 \<or> data ! 0 \<noteq> 4
      then Err (Errorf ''crypto: invalid uncompressed P-256 point'')
      else
        let x = big_SetBytes (take 32 (drop 1 data)); y = big_SetBytes (drop 33 data) in
        if \<not> IsOnCurve S (x, y) then Err (Errorf ''crypto: invalid uncompressed P-256 point'')
        else Ok (x, y))"

text \<open>The checks of the conversions to \<^verbatim>\<open>crypto/ecdh\<close> and of its exchange.\<close>

definition ECDH_private :: "suite \<Rightarrow> PrivateKey \<Rightarrow> int res" where
  "ECDH_private S key =
     (if length (int_Bytes (pk_D key)) > 32 then Err (Errorf ''ecdsa: invalid private key'')
      else if pk_D key \<le> 0 \<or> pk_D key \<ge> P256_N S then Err (Errorf ''crypto/ecdh: invalid private key'')
      else Ok (pk_D key))"

definition ECDH_public :: "suite \<Rightarrow> point \<Rightarrow> point res" where
  "ECDH_public S pub = (if \<not> IsOnCurve S pub then Err (Errorf ''ecdsa: invalid public key'') else Ok pub)"

definition ECDH_exchange :: "suite \<Rightarrow> int \<Rightarrow> point \<Rightarrow> byte list res" where
  "ECDH_exchange S d pub =
     (let z = raw_ScalarMult S pub (int_Bytes d) in
      if z = (0, 0) then Err (Errorf ''crypto/ecdh: invalid public key'') else FillBytes 32 (fst z))"

definition ECDH :: "suite \<Rightarrow> PrivateKey \<Rightarrow> point \<Rightarrow> byte list res" where
  "ECDH S privKey pubKey =
     bind_res (wrap_res ''crypto: convert private key for ECDH'' (ECDH_private S privKey)) (\<lambda>d.
     bind_res (wrap_res ''crypto: convert public key for ECDH'' (ECDH_public S pubKey)) (\<lambda>q.
     wrap_res ''crypto: ECDH exchange'' (ECDH_exchange S d q)))"

text \<open>Raw signatures; \<^verbatim>\<open>raw[32-len(rBytes):32]\<close> panics for a component longer than 32 bytes.\<close>

definition raw_signature :: "int \<Rightarrow> int \<Rightarrow> byte list res" where
  "raw_signature r s =
     (if length (int_Bytes r) > 32 \<or> length (int_Bytes s) > 32 then Panic
      else Ok (left_pad 32 (int_Bytes r) @ left_pad 32 (int_Bytes s)))"

definition SignECDSARaw :: "suite \<Rightarrow> byte list \<Rightarrow> PrivateKey \<Rightarrow> byte list \<Rightarrow> byte list res" where
  "SignECDSARaw S rnd privKey msg =
     bind_res (wrap_res ''crypto: ECDSA sign'' (ecdsa_Sign S (pk_D privKey) (Sum256 msg) rnd))
       (\<lambda>(r, s). raw_signature r s)"

definition VerifyECDSARaw :: "suite \<Rightarrow> point \<Rightarrow> byte list \<Rightarrow> byte list \<Rightarrow> bool" where
  "VerifyECDSARaw S pubKey msg sig =
     (if length sig \<noteq> 64 then False
      else ecdsa_Verify S pubKey (Sum256 msg) (big_SetBytes (take 32 sig), big_SetBytes (drop 32 sig)))"

definition PrivateKeyToBytes :: "PrivateKey \<Rightarrow> byte list" where
  "PrivateKeyToBytes privKey =
     (let b = int_Bytes (pk_D privKey) in if length b < 32 then left_pad 32 b else b)"

definition PrivateKeyFromBytes :: "suite \<Rightarrow> byte list \<Rightarrow> PrivateKey res" where
  "PrivateKeyFromBytes S scalar =
     (let d = big_SetBytes scalar in
      if d = 0 \<or> d \<ge> P256_N S then Err (Errorf ''crypto: private scalar out of range'')
      else Ok \<lparr>pk_D = d, pk_Public = curve_ScalarBaseMult S scalar\<rparr>)"

definition ExtractPublicKey :: "suite \<Rightarrow> byte list \<Rightarrow> point res" where
  "ExtractPublicKey S certDER =
     bind_res (wrap_res ''crypto: parse certificate'' (x509_ParseCertificate S certDER))
       (\<lambda>cert. case ct_PublicKey cert of None \<Rightarrow> Err (Errorf ''crypto: certificate key is not ECDSA'') | Some q \<Rightarrow> Ok q)"

subsection \<open>What the laws give\<close>

lemma curve_facts:
  assumes "curve_laws S pt"
  shows "1 < P256_N S" "P256_N S \<le> 256 ^ 32" "P256_P S \<le> 256 ^ 32"
    and "pt a = pt b \<longleftrightarrow> P256_N S dvd a - b" and "pt 0 = (0, 0)" and "P256_G S = pt 1"
    and "IsOnCurve S (pt a) \<longleftrightarrow> \<not> P256_N S dvd a"
    and "raw_Add S (pt a) (pt b) = pt (a + b)" and "raw_ScalarMult S (pt a) k = pt (a * big_SetBytes k)"
    and "\<not> P256_N S dvd a \<Longrightarrow> pt (- a) = (fst (pt a), P256_P S - snd (pt a))"
    and "IsOnCurve S q \<Longrightarrow> \<exists>a. q = pt a"
proof -
  show "IsOnCurve S (pt a) \<longleftrightarrow> \<not> P256_N S dvd a"
  proof
    assume "IsOnCurve S (pt a)"
    then obtain b where b: "\<not> P256_N S dvd b" "pt a = pt b"
      using assms unfolding curve_laws_def by blast
    then have "P256_N S dvd a - b" using assms unfolding curve_laws_def by blast
    with b(1) show "\<not> P256_N S dvd a" by (metis dvd_diff_right_iff diff_diff_eq2 dvd_diff add_diff_cancel_left')
  next
    assume "\<not> P256_N S dvd a"
    then show "IsOnCurve S (pt a)" using assms unfolding curve_laws_def by blast
  qed
qed (use assms in \<open>unfold curve_laws_def, blast+\<close>)

lemma pt_infinity: "curve_laws S pt \<Longrightarrow> pt a = (0, 0) \<longleftrightarrow> P256_N S dvd a"
  using curve_facts(4) [of S pt a 0] by (simp add: curve_facts(5))

lemma pt_valid [simp]: "curve_laws S pt \<Longrightarrow> valid_point S (pt a)"
  by (cases "P256_N S dvd a") (simp_all add: valid_point_def curve_facts(7) pt_infinity)

lemma pt_coordinates:
  assumes "curve_laws S pt"
  shows "0 \<le> fst (pt a)" "fst (pt a) < 256 ^ 32" "0 \<le> snd (pt a)" "snd (pt a) < 256 ^ 32"
proof -
  have "0 \<le> fst (pt a) \<and> fst (pt a) < P256_P S \<and> 0 \<le> snd (pt a) \<and> snd (pt a) < P256_P S"
    using assms by (simp only: curve_laws_def)
  with curve_facts(3) [OF assms]
  show "0 \<le> fst (pt a)" "fst (pt a) < 256 ^ 32" "0 \<le> snd (pt a)" "snd (pt a) < 256 ^ 32" by linarith+
qed

lemma order_prime: "curve_laws S pt \<Longrightarrow> P256_N S dvd a * b \<longleftrightarrow> P256_N S dvd a \<or> P256_N S dvd b"
  unfolding curve_laws_def by (meson dvd_mult dvd_mult2)

lemma not_order_dvd: "curve_laws S pt \<Longrightarrow> 0 < a \<Longrightarrow> a < P256_N S \<Longrightarrow> \<not> P256_N S dvd a"
  by (simp add: zdvd_not_zless)

text \<open>Points of the curve are encoded in 65 bytes and read back.\<close>

lemma point_encoding:
  assumes "curve_laws S pt"
  obtains b where "PublicKeyToUncompressed (pt a) = Ok b" and "length b = 65"
    and "\<not> P256_N S dvd a \<Longrightarrow> PublicKeyFromUncompressed S b = Ok (pt a)"
    and "P256_N S dvd a \<Longrightarrow> PublicKeyFromUncompressed S b = Err (Errorf ''crypto: invalid uncompressed P-256 point'')"
    and "take 1 b = [4]" and "big_SetBytes (take 32 (drop 1 b)) = fst (pt a)" and "big_SetBytes (drop 33 b) = snd (pt a)"
proof -
  obtain x where x: "FillBytes 32 (fst (pt a)) = Ok x" "length x = 32" "big_SetBytes x = fst (pt a)"
    by (rule FillBytes_fits [OF pt_coordinates(1,2) [OF assms]])
  obtain y where y: "FillBytes 32 (snd (pt a)) = Ok y" "length y = 32" "big_SetBytes y = snd (pt a)"
    by (rule FillBytes_fits [OF pt_coordinates(3,4) [OF assms]])
  show ?thesis
  proof (rule that)
    show "PublicKeyToUncompressed (pt a) = Ok (4 # x @ y)" using x y by (simp add: PublicKeyToUncompressed_def)
  qed (use x y curve_facts(7) [OF assms] in \<open>simp_all add: PublicKeyFromUncompressed_def\<close>)
qed

lemma base_mult: "curve_laws S pt \<Longrightarrow> curve_ScalarBaseMult S k = pt (big_SetBytes k)"
  by (simp add: curve_ScalarBaseMult_def curve_facts(6,9))

text \<open>A key pair of the program.\<close>

definition key_ok :: "suite \<Rightarrow> PrivateKey \<Rightarrow> bool" where
  "key_ok S key \<longleftrightarrow> 0 < pk_D key \<and> pk_D key < P256_N S \<and>
     pk_Public key = curve_ScalarBaseMult S (int_Bytes (pk_D key))"

lemma key_ok_public:
  assumes "curve_laws S pt" and "key_ok S key"
  shows "pk_Public key = pt (pk_D key)" and "\<not> P256_N S dvd pk_D key"
  using assms base_mult [OF assms(1)] not_order_dvd [OF assms(1)] by (simp_all add: key_ok_def)

lemma ECDH_pt:
  assumes "curve_laws S pt" and "key_ok S key" and "\<not> P256_N S dvd a"
  obtains s where "ECDH S key (pt a) = Ok s" and "length s = 32" and "big_SetBytes s = fst (pt (a * pk_D key))"
proof -
  obtain s where s: "FillBytes 32 (fst (pt (a * pk_D key))) = Ok s" "length s = 32"
      "big_SetBytes s = fst (pt (a * pk_D key))"
    by (rule FillBytes_fits [OF pt_coordinates(1,2) [OF assms(1)]])
  have d: "0 < pk_D key" "pk_D key < P256_N S" using assms(2) by (simp_all add: key_ok_def)
  have "\<bar>pk_D key\<bar> < 256 ^ 32" using d curve_facts(2) [OF assms(1)] by linarith
  then have len: "length (int_Bytes (pk_D key)) \<le> 32" by (rule length_int_Bytes)
  have "\<not> P256_N S dvd a * pk_D key" using assms d by (simp add: order_prime [OF assms(1)] not_order_dvd)
  with len d s assms have "ECDH S key (pt a) = Ok s"
    by (simp add: ECDH_def ECDH_private_def ECDH_public_def ECDH_exchange_def Let_def curve_facts(7,9) pt_infinity)
  with s show ?thesis by (intro that)
qed

text \<open>Both ends compute the same secret.\<close>

lemma ECDH_agree:
  assumes "curve_laws S pt" and "key_ok S k" and "key_ok S k'"
  obtains s where "ECDH S k (pk_Public k') = Ok s" and "ECDH S k' (pk_Public k) = Ok s" and "length s = 32"
proof -
  obtain s where s: "ECDH S k (pt (pk_D k')) = Ok s" "length s = 32" "big_SetBytes s = fst (pt (pk_D k' * pk_D k))"
    by (rule ECDH_pt [OF assms(1,2) key_ok_public(2) [OF assms(1,3)]])
  obtain s' where s': "ECDH S k' (pt (pk_D k)) = Ok s'" "length s' = 32" "big_SetBytes s' = fst (pt (pk_D k * pk_D k'))"
    by (rule ECDH_pt [OF assms(1,3) key_ok_public(2) [OF assms(1,2)]])
  have "s = s'" by (rule big_SetBytes_inject) (use s s' in \<open>simp_all add: mult.commute\<close>)
  with s s' show ?thesis using that key_ok_public(1) [OF assms(1)] assms(2,3) by simp
qed

lemma sign_verify:
  assumes "ecdsa_laws S" and "pk_Public key = curve_ScalarBaseMult S (int_Bytes (pk_D key))"
    and "ecdsa_Sign S (pk_D key) (Sum256 msg) rnd = Ok (r, s)"
  obtains sig where "SignECDSARaw S rnd key msg = Ok sig" and "length sig = 64"
    and "VerifyECDSARaw S (pk_Public key) msg sig"
proof -
  have l: "0 < r" "r < 256 ^ 32" "0 < s" "s < 256 ^ 32"
      "ecdsa_Verify S (curve_ScalarBaseMult S (int_Bytes (pk_D key))) (Sum256 msg) (r, s)"
    using assms(1,3) unfolding ecdsa_laws_def by blast+
  have len: "length (int_Bytes r) \<le> 32" "length (int_Bytes s) \<le> 32"
    using l by (simp_all add: length_int_Bytes)
  then have "SignECDSARaw S rnd key msg = Ok (left_pad 32 (int_Bytes r) @ left_pad 32 (int_Bytes s))"
    using assms(3) by (simp add: SignECDSARaw_def raw_signature_def)
  moreover have "VerifyECDSARaw S (pk_Public key) msg (left_pad 32 (int_Bytes r) @ left_pad 32 (int_Bytes s))"
    using l len assms(2) by (simp add: VerifyECDSARaw_def length_left_pad)
  ultimately show ?thesis using that len by (simp add: length_left_pad)
qed

lemma HKDF_ok:
  assumes "kdf_laws S" and "n \<le> 255 * 32"
  obtains out where "HKDFSHA256 S ikm salt info n = Ok out" and "length out = n"
proof -
  from assms obtain out where "hkdf_Read S ikm salt info n = Ok out" "length out = n"
    unfolding kdf_laws_def by blast
  then show ?thesis using that by (simp add: HKDFSHA256_def)
qed

end
