(* ===== verification/Crypto_Spake.thy ===== *)
theory Crypto_Spake
  imports Crypto_Keys "HOL-Library.Char_ord"
begin

text \<open>
  \<^verbatim>\<open>internal/crypto/spake2p.go\<close>: SPAKE2+ on P-256.  The prover proves knowledge of the passcode to the
  verifier; both derive the same key and each checks the other's confirmation.
\<close>

subsection \<open>The points M and N, and the encoding of points\<close>

definition hexByte :: "char \<Rightarrow> byte res" where
  "hexByte c =
     (if CHR ''0'' \<le> c \<and> c \<le> CHR ''9'' then Ok (of_char c - of_char CHR ''0'')
      else if CHR ''a'' \<le> c \<and> c \<le> CHR ''f'' then Ok (of_char c - of_char CHR ''a'' + 10)
      else if CHR ''A'' \<le> c \<and> c \<le> CHR ''F'' then Ok (of_char c - of_char CHR ''A'' + 10)
      else Panic)"

text \<open>A trailing odd digit indexes the string out of range.\<close>

fun mustDecodeHex :: "string \<Rightarrow> byte list res" where
  "mustDecodeHex [] = Ok []"
| "mustDecodeHex [c] = Panic"
| "mustDecodeHex (c # d # s) =
     bind_res (hexByte c) (\<lambda>hi. bind_res (hexByte d) (\<lambda>lo. bind_res (mustDecodeHex s) (\<lambda>bs.
     Ok ((push_bit 4 hi OR lo) # bs))))"

definition spake_hexM :: string where
  "spake_hexM = ''02886e2f97ace46e55ba9dd7242579f2993b64e16ef3dcab95afd497333d8fa12f''"

definition spake_hexN :: string where
  "spake_hexN = ''03d8bbd6c639c62937b04d997f38c3770719c629d7014d49a24b4f98baa1292b49''"

definition spake_point :: "suite \<Rightarrow> string \<Rightarrow> point res" where
  "spake_point S hex = bind_res (mustDecodeHex hex)
     (\<lambda>bs. case UnmarshalCompressed S bs of None \<Rightarrow> Panic | Some q \<Rightarrow> Ok q)"

text \<open>The initialisation of the package panics if a point is not one of the curve.\<close>

definition spake2pM :: "suite \<Rightarrow> point res" where "spake2pM S = spake_point S spake_hexM"

definition spake2pN :: "suite \<Rightarrow> point res" where "spake2pN S = spake_point S spake_hexN"

definition marshalEC :: "point \<Rightarrow> byte list res" where
  "marshalEC q = bind_res (FillBytes 32 (fst q)) (\<lambda>x. bind_res (FillBytes 32 (snd q)) (\<lambda>y. Ok (4 # x @ y)))"

definition unmarshalEC :: "suite \<Rightarrow> byte list \<Rightarrow> point option" where
  "unmarshalEC S data =
     (if length data \<noteq> 65 \<or> data ! 0 \<noteq> 4 then None
      else
        let x = big_SetBytes (take 32 (drop 1 data)); y = big_SetBytes (drop 33 data) in
        if IsOnCurve S (x, y) then Some (x, y) else None)"

text \<open>\<open>q - k*B\<close>: the code negates the multiple by its second coordinate.\<close>

definition unblind :: "suite \<Rightarrow> point \<Rightarrow> int \<Rightarrow> point \<Rightarrow> point res" where
  "unblind S B w0 q =
     bind_res (curve_ScalarMult S B (int_Bytes w0)) (\<lambda>w0B. curve_Add S q (fst w0B, P256_P S - snd w0B))"

subsection \<open>The two sides\<close>

record SPAKE2PProver =
  pr_w0 :: int
  pr_w1 :: int
  pr_x :: "int option"
  pr_pA :: "byte list"

record SPAKE2PVerifier =
  ve_w0 :: int
  ve_L :: point
  ve_y :: "int option"
  ve_pB :: "byte list"

definition NewSPAKE2PProver :: "suite \<Rightarrow> byte list \<Rightarrow> byte list \<Rightarrow> SPAKE2PProver res" where
  "NewSPAKE2PProver S w0 w1 =
     (let n = P256_N S; w0Int = big_SetBytes w0; w1Int = big_SetBytes w1 in
      if w0Int = 0 \<or> w0Int \<ge> n then Err (Errorf ''crypto: SPAKE2+ w0 out of range'')
      else if w1Int = 0 \<or> w1Int \<ge> n then Err (Errorf ''crypto: SPAKE2+ w1 out of range'')
      else Ok \<lparr>pr_w0 = w0Int, pr_w1 = w1Int, pr_x = None, pr_pA = []\<rparr>)"

text \<open>\<^verbatim>\<open>rand.Int\<close> is an argument; a zero scalar becomes one.\<close>

definition share_scalar :: "int res \<Rightarrow> int res" where
  "share_scalar rnd = bind_res (wrap_res ''crypto: SPAKE2+ generate random'' rnd) (\<lambda>x. Ok (if x = 0 then 1 else x))"

definition blind :: "suite \<Rightarrow> point res \<Rightarrow> int \<Rightarrow> int \<Rightarrow> byte list res" where
  "blind S B w0 x =
     (let xG = curve_ScalarBaseMult S (int_Bytes x) in
      bind_res B (\<lambda>B. bind_res (curve_ScalarMult S B (int_Bytes w0)) (\<lambda>w0B.
      bind_res (curve_Add S xG w0B) marshalEC)))"

definition Prover_ComputePublicShare :: "suite \<Rightarrow> int res \<Rightarrow> SPAKE2PProver \<Rightarrow> (byte list \<times> SPAKE2PProver) res" where
  "Prover_ComputePublicShare S rnd p =
     bind_res (share_scalar rnd) (\<lambda>x. bind_res (blind S (spake2pM S) (pr_w0 p) x) (\<lambda>pA.
     Ok (pA, p\<lparr>pr_x := Some x, pr_pA := pA\<rparr>)))"

definition NewSPAKE2PVerifier :: "suite \<Rightarrow> byte list \<Rightarrow> byte list \<Rightarrow> SPAKE2PVerifier res" where
  "NewSPAKE2PVerifier S w0 L =
     (let w0Int = big_SetBytes w0 in
      if w0Int = 0 \<or> w0Int \<ge> P256_N S then Err (Errorf ''crypto: SPAKE2+ w0 out of range'')
      else case unmarshalEC S L of
          None \<Rightarrow> Err (Errorf ''crypto: SPAKE2+ invalid L point'')
        | Some l \<Rightarrow> Ok \<lparr>ve_w0 = w0Int, ve_L = l, ve_y = None, ve_pB = []\<rparr>)"

definition Verifier_ComputePublicShare ::
  "suite \<Rightarrow> int res \<Rightarrow> SPAKE2PVerifier \<Rightarrow> (byte list \<times> SPAKE2PVerifier) res" where
  "Verifier_ComputePublicShare S rnd v =
     bind_res (share_scalar rnd) (\<lambda>y. bind_res (blind S (spake2pN S) (ve_w0 v) y) (\<lambda>pB.
     Ok (pB, v\<lparr>ve_y := Some y, ve_pB := pB\<rparr>)))"

definition ComputeL :: "suite \<Rightarrow> byte list \<Rightarrow> byte list res" where
  "ComputeL S w1 = marshalEC (curve_ScalarBaseMult S w1)"

definition VerifyConfirmation :: "byte list \<Rightarrow> byte list \<Rightarrow> bool" where
  "VerifyConfirmation expected received \<longleftrightarrow> expected = received"

subsection \<open>The transcript and the keys\<close>

definition writeWithLength :: "byte list \<Rightarrow> byte list" where
  "writeWithLength data = le_put 8 (word_of_nat (length data) :: u64) @ data"

definition transcript :: "byte list list \<Rightarrow> byte list" where
  "transcript parts = Sum256 (concat (map writeWithLength parts))"

text \<open>The keys of a transcript hash: \<^verbatim>\<open>Ke\<close> and the two confirmations.\<close>

definition transcript_keys :: "suite \<Rightarrow> byte list \<Rightarrow> byte list \<Rightarrow> byte list \<Rightarrow> (byte list \<times> byte list \<times> byte list) res" where
  "transcript_keys S tt pA pB =
     bind_res (wrap_res ''crypto: SPAKE2+ derive confirmation keys''
         (HKDFSHA256 S (take 16 tt) [] (ascii ''ConfirmationKeys'') 32))
       (\<lambda>kc. Ok (drop 16 tt, hmac_sha256 (take 16 kc) pB, hmac_sha256 (drop 16 kc) pA))"

definition computeTranscriptAndKeys ::
  "suite \<Rightarrow> byte list \<Rightarrow> byte list \<Rightarrow> byte list \<Rightarrow> byte list \<Rightarrow> byte list \<Rightarrow> point \<Rightarrow> point \<Rightarrow> int \<Rightarrow>
     (byte list \<times> byte list \<times> byte list) res" where
  "computeTranscriptAndKeys S context idProver idVerifier pA pB Z V w0 =
     bind_res (bind_res (spake2pM S) marshalEC) (\<lambda>mBytes.
     bind_res (bind_res (spake2pN S) marshalEC) (\<lambda>nBytes.
     bind_res (marshalEC Z) (\<lambda>zBytes.
     bind_res (marshalEC V) (\<lambda>vBytes.
     transcript_keys S
       (transcript [context, idProver, idVerifier, mBytes, nBytes, pA, pB, zBytes, vBytes, zeroPad (int_Bytes w0) 32])
       pA pB))))"

text \<open>The result of the prover is \<open>(Ke, cA, cB)\<close>, that of the verifier \<open>(Ke, cB, cA)\<close>.\<close>

definition Prover_ComputeSecretAndConfirm ::
  "suite \<Rightarrow> SPAKE2PProver \<Rightarrow> byte list \<Rightarrow> byte list \<Rightarrow> byte list \<Rightarrow> byte list \<Rightarrow> (byte list \<times> byte list \<times> byte list) res" where
  "Prover_ComputeSecretAndConfirm S p context idProver idVerifier pB =
     (case unmarshalEC S pB of
        None \<Rightarrow> Err (Errorf ''crypto: SPAKE2+ invalid pB point'')
      | Some Y \<Rightarrow>
          bind_res (spake2pN S) (\<lambda>N. bind_res (unblind S N (pr_w0 p) Y) (\<lambda>tmp.
          case pr_x p of
            None \<Rightarrow> Panic
          | Some x \<Rightarrow>
              bind_res (curve_ScalarMult S tmp (int_Bytes x)) (\<lambda>Z.
              bind_res (curve_ScalarMult S tmp (int_Bytes (pr_w1 p))) (\<lambda>V.
              computeTranscriptAndKeys S context idProver idVerifier (pr_pA p) pB Z V (pr_w0 p))))))"

definition Verifier_ComputeSecretAndConfirm ::
  "suite \<Rightarrow> SPAKE2PVerifier \<Rightarrow> byte list \<Rightarrow> byte list \<Rightarrow> byte list \<Rightarrow> byte list \<Rightarrow> (byte list \<times> byte list \<times> byte list) res" where
  "Verifier_ComputeSecretAndConfirm S v context idProver idVerifier pA =
     (case unmarshalEC S pA of
        None \<Rightarrow> Err (Errorf ''crypto: SPAKE2+ invalid pA point'')
      | Some X \<Rightarrow>
          bind_res (spake2pM S) (\<lambda>M. bind_res (unblind S M (ve_w0 v) X) (\<lambda>tmp.
          case ve_y v of
            None \<Rightarrow> Panic
          | Some y \<Rightarrow>
              bind_res (curve_ScalarMult S tmp (int_Bytes y)) (\<lambda>Z.
              bind_res (curve_ScalarMult S (ve_L v) (int_Bytes y)) (\<lambda>V.
              bind_res (computeTranscriptAndKeys S context idProver idVerifier pA (ve_pB v) Z V (ve_w0 v))
                (\<lambda>(ke, innerCA, innerCB). Ok (ke, innerCB, innerCA)))))))"

subsection \<open>Agreement\<close>

text \<open>The law of \<^verbatim>\<open>elliptic.UnmarshalCompressed\<close> the package relies on.\<close>

definition spake_laws :: "suite \<Rightarrow> (int \<Rightarrow> point) \<Rightarrow> bool" where
  "spake_laws S pt \<longleftrightarrow> curve_laws S pt \<and> kdf_laws S \<and>
     (\<exists>m n. \<not> P256_N S dvd m \<and> \<not> P256_N S dvd n \<and> spake2pM S = Ok (pt m) \<and> spake2pN S = Ok (pt n))"

lemma marshalEC_eq: "marshalEC q = PublicKeyToUncompressed q"
  by (simp add: marshalEC_def PublicKeyToUncompressed_def)

lemma marshalEC_pt:
  assumes "curve_laws S pt"
  obtains b where "marshalEC (pt a) = Ok b" and "length b = 65"
    and "unmarshalEC S b = (if P256_N S dvd a then None else Some (pt a))"
proof -
  obtain b where b: "PublicKeyToUncompressed (pt a) = Ok b" "length b = 65" "take 1 b = [4]"
      "big_SetBytes (take 32 (drop 1 b)) = fst (pt a)" "big_SetBytes (drop 33 b) = snd (pt a)"
    by (rule point_encoding [OF assms])
  then have "b ! 0 = 4" by (cases b) auto
  with b have "unmarshalEC S b = (if P256_N S dvd a then None else Some (pt a))"
    by (simp add: unmarshalEC_def curve_facts(7) [OF assms])
  with b show ?thesis using that by (simp add: marshalEC_eq)
qed

text \<open>The multiple of the base point behind a share, and its removal.\<close>

lemma blind_pt:
  assumes "curve_laws S pt" and "B = Ok (pt m)" and "0 \<le> w0" and "0 \<le> x"
  shows "blind S B w0 x = marshalEC (pt (x + w0 * m))"
  using assms by (simp add: blind_def base_mult curve_ScalarMult_def curve_Add_def curve_facts(8,9) mult.commute)

lemma unblind_pt:
  assumes "curve_laws S pt" and "\<not> P256_N S dvd m" and "0 < w0" and "w0 < P256_N S"
  shows "unblind S (pt m) w0 (pt a) = Ok (pt (a - w0 * m))"
proof -
  have "\<not> P256_N S dvd m * w0" using assms by (simp add: order_prime not_order_dvd)
  then have "(fst (pt (m * w0)), P256_P S - snd (pt (m * w0))) = pt (- (m * w0))"
    using curve_facts(10) [OF assms(1)] by simp
  then show ?thesis
    using assms by (simp add: unblind_def curve_ScalarMult_def curve_Add_def curve_facts(8,9) mult.commute)
qed

lemma length_transcript [simp]: "length (transcript parts) = 32"
  by (simp add: transcript_def)

lemma transcript_keys_ok:
  assumes "kdf_laws S" and "length tt = 32"
  obtains ke cA cB where "transcript_keys S tt pA pB = Ok (ke, cA, cB)" and "length ke = 16"
    and "length cA = 32" and "length cB = 32"
proof -
  obtain kc where "HKDFSHA256 S (take 16 tt) [] (ascii ''ConfirmationKeys'') 32 = Ok kc" "length kc = 32"
    by (rule HKDF_ok [OF assms(1), of 32]) simp_all
  then show ?thesis using that [of "drop 16 tt"] assms(2) by (simp add: transcript_keys_def)
qed

lemma computeTranscriptAndKeys_ok:
  assumes L: "spake_laws S pt"
  obtains ke cA cB where "computeTranscriptAndKeys S context idP idV pA pB (pt z) (pt v) w0 = Ok (ke, cA, cB)"
    and "length ke = 16" and "length cA = 32" and "length cB = 32"
proof -
  have C: "curve_laws S pt" and K: "kdf_laws S" using L by (simp_all add: spake_laws_def)
  obtain m n where mn: "spake2pM S = Ok (pt m)" "spake2pN S = Ok (pt n)" using L by (auto simp: spake_laws_def)
  obtain bm where bm: "marshalEC (pt m) = Ok bm" by (rule marshalEC_pt [OF C])
  obtain bn where bn: "marshalEC (pt n) = Ok bn" by (rule marshalEC_pt [OF C])
  obtain bz where bz: "marshalEC (pt z) = Ok bz" by (rule marshalEC_pt [OF C])
  obtain bv where bv: "marshalEC (pt v) = Ok bv" by (rule marshalEC_pt [OF C])
  obtain ke cA cB where k: "transcript_keys S (transcript [context, idP, idV, bm, bn, pA, pB, bz, bv, zeroPad (int_Bytes w0) 32]) pA pB
      = Ok (ke, cA, cB)" "length ke = 16" "length cA = 32" "length cB = 32"
    by (rule transcript_keys_ok [OF K length_transcript])
  show ?thesis by (rule that [OF _ k(2-4)]) (simp add: computeTranscriptAndKeys_def mn bm bn bz bv k(1))
qed

text \<open>A share of a scalar is a point of the curve (it is the point at infinity for one scalar).\<close>

definition share_ok :: "suite \<Rightarrow> point res \<Rightarrow> int \<Rightarrow> int \<Rightarrow> bool" where
  "share_ok S B w0 x = (case blind S B w0 x of Ok b \<Rightarrow> unmarshalEC S b \<noteq> None | _ \<Rightarrow> False)"

lemma share_okE:
  assumes "curve_laws S pt" and "B = Ok (pt m)" and "0 \<le> w0" and "0 \<le> x" and "share_ok S B w0 x"
  obtains b where "blind S B w0 x = Ok b" and "length b = 65" and "unmarshalEC S b = Some (pt (x + w0 * m))"
proof -
  obtain b where b: "marshalEC (pt (x + w0 * m)) = Ok b" "length b = 65"
      "unmarshalEC S b = (if P256_N S dvd x + w0 * m then None else Some (pt (x + w0 * m)))"
    by (rule marshalEC_pt [OF assms(1)])
  with assms show ?thesis by (intro that) (auto simp: blind_pt share_ok_def split: if_splits)
qed

text \<open>Prover and verifier with the same secrets derive the same key and expect each other's confirmation.\<close>

lemma spake_agree:
  assumes L: "spake_laws S pt" and w0: "0 < w0" "w0 < P256_N S"
    and x: "0 \<le> x" "blind S (spake2pM S) w0 x = Ok pA" "share_ok S (spake2pM S) w0 x"
    and y: "0 \<le> y" "blind S (spake2pN S) w0 y = Ok pB" "share_ok S (spake2pN S) w0 y"
    and p: "p = \<lparr>pr_w0 = w0, pr_w1 = w1, pr_x = Some x, pr_pA = pA\<rparr>" "0 \<le> w1"
    and v: "v = \<lparr>ve_w0 = w0, ve_L = pt w1, ve_y = Some y, ve_pB = pB\<rparr>"
  obtains ke cA cB where "Prover_ComputeSecretAndConfirm S p context idP idV pB = Ok (ke, cA, cB)"
    and "Verifier_ComputeSecretAndConfirm S v context idP idV pA = Ok (ke, cB, cA)"
    and "length ke = 16" and "length cA = 32" and "length cB = 32"
proof -
  have C: "curve_laws S pt" using L by (simp add: spake_laws_def)
  obtain m n where mn: "\<not> P256_N S dvd m" "\<not> P256_N S dvd n" "spake2pM S = Ok (pt m)" "spake2pN S = Ok (pt n)"
    using L by (auto simp: spake_laws_def)
  have X: "unmarshalEC S pA = Some (pt (x + w0 * m))" using share_okE [OF C mn(3) _ x(1,3)] w0 x(2) by auto
  have Y: "unmarshalEC S pB = Some (pt (y + w0 * n))" using share_okE [OF C mn(4) _ y(1,3)] w0 y(2) by auto
  obtain ke cA cB where k: "computeTranscriptAndKeys S context idP idV pA pB (pt (x * y)) (pt (w1 * y)) w0 = Ok (ke, cA, cB)"
      "length ke = 16" "length cA = 32" "length cB = 32"
    by (rule computeTranscriptAndKeys_ok [OF L])
  show ?thesis
  proof (rule that [OF _ _ k(2-4)])
    show "Prover_ComputeSecretAndConfirm S p context idP idV pB = Ok (ke, cA, cB)"
      using C w0 x(1) p Y mn k(1)
      by (simp add: Prover_ComputeSecretAndConfirm_def unblind_pt curve_ScalarMult_def curve_facts(9) mult.commute)
    show "Verifier_ComputeSecretAndConfirm S v context idP idV pA = Ok (ke, cB, cA)"
      using C w0 y(1) v X mn k(1)
      by (simp add: Verifier_ComputeSecretAndConfirm_def unblind_pt curve_ScalarMult_def curve_facts(9) mult.commute)
  qed
qed

end
