(* ===== verification/Attestation.thy ===== *)
theory Attestation
  imports Crypto_Spake Setup_Payload
begin

text \<open>
  \<^verbatim>\<open>internal/commissioning/attestation.go\<close>, the check of a device's attestation certificates, and
  \<^verbatim>\<open>verifier.go\<close>, the passcode verifier of a commissioning window.
\<close>

subsection \<open>Attestation\<close>

record AttestationInfo =
  ai_Elements :: "byte list"
  ai_Signature :: "byte list"
  ai_Nonce :: "byte list"

record DACChain =
  dc_DAC :: "byte list"
  dc_PAI :: "byte list"
  dc_PAA :: "byte list"

record DeviceInfo =
  di_VendorID :: u16
  di_ProductID :: u16

text \<open>The interface \<^verbatim>\<open>AttestationValidator\<close>.\<close>

record AttestationValidator =
  av_ValidateDAC :: "DACChain \<Rightarrow> DeviceInfo res"
  av_ValidateAttestation :: "AttestationInfo \<Rightarrow> byte list \<Rightarrow> byte list \<Rightarrow> unit res"

text \<open>The operations of \<^verbatim>\<open>crypto/x509\<close> and \<^verbatim>\<open>crypto/ecdsa\<close> the validator uses besides those of the suite.\<close>

record x509_ops =
  CheckSignatureFrom :: "Certificate \<Rightarrow> Certificate \<Rightarrow> unit res"
  Certificate_Equal :: "Certificate \<Rightarrow> Certificate \<Rightarrow> bool"
  ecdsa_VerifyASN1 :: "point \<Rightarrow> byte list \<Rightarrow> byte list \<Rightarrow> bool"

definition ParseCertificate :: "suite \<Rightarrow> byte list \<Rightarrow> Certificate res" where
  "ParseCertificate S der = wrap_res ''crypto: parse certificate'' (x509_ParseCertificate S der)"

definition VerifyCertificateSignature :: "x509_ops \<Rightarrow> Certificate \<Rightarrow> Certificate \<Rightarrow> unit res" where
  "VerifyCertificateSignature X child parent =
     wrap_res ''crypto: verify certificate signature'' (CheckSignatureFrom X child parent)"

definition VerifyECDSA :: "x509_ops \<Rightarrow> point \<Rightarrow> byte list \<Rightarrow> byte list \<Rightarrow> bool" where
  "VerifyECDSA X pubKey msg sig = ecdsa_VerifyASN1 X pubKey (Sum256 msg) sig"

text \<open>\<^verbatim>\<open>DefaultAttestationValidator\<close> with its trusted roots.\<close>

definition ValidateDAC :: "suite \<Rightarrow> x509_ops \<Rightarrow> Certificate list \<Rightarrow> DACChain \<Rightarrow> DeviceInfo res" where
  "ValidateDAC S X trustedRoots chain =
     bind_res (wrap_res ''commissioning: parsing DAC'' (ParseCertificate S (dc_DAC chain))) (\<lambda>dac.
     bind_res (wrap_res ''commissioning: parsing PAI'' (ParseCertificate S (dc_PAI chain))) (\<lambda>pai.
     bind_res (wrap_res ''commissioning: parsing PAA'' (ParseCertificate S (dc_PAA chain))) (\<lambda>paa.
     bind_res (wrap_res ''commissioning: PAI not signed by PAA'' (VerifyCertificateSignature X pai paa)) (\<lambda>_.
     bind_res (wrap_res ''commissioning: DAC not signed by PAI'' (VerifyCertificateSignature X dac pai)) (\<lambda>_.
     if trustedRoots \<noteq> [] \<and> \<not> (\<exists>root \<in> set trustedRoots. Certificate_Equal X paa root)
     then Err (Errorf ''commissioning: PAA is not in the trusted root set'')
     else Ok \<lparr>di_VendorID = 0, di_ProductID = 0\<rparr>)))))"

definition ValidateAttestation :: "suite \<Rightarrow> x509_ops \<Rightarrow> AttestationInfo \<Rightarrow> byte list \<Rightarrow> byte list \<Rightarrow> unit res" where
  "ValidateAttestation S X info dacDER challenge =
     bind_res (wrap_res ''commissioning: extracting DAC public key'' (ExtractPublicKey S dacDER)) (\<lambda>pubKey.
     if \<not> VerifyECDSA X pubKey (ai_Elements info @ challenge) (ai_Signature info)
     then Err (Errorf ''commissioning: attestation signature verification failed'')
     else Ok ())"

definition DefaultAttestationValidator :: "suite \<Rightarrow> x509_ops \<Rightarrow> Certificate list \<Rightarrow> AttestationValidator" where
  "DefaultAttestationValidator S X trustedRoots =
     \<lparr>av_ValidateDAC = ValidateDAC S X trustedRoots, av_ValidateAttestation = ValidateAttestation S X\<rparr>"

subsection \<open>The passcode verifier\<close>

definition PAKEVerifierW0Size :: nat where "PAKEVerifierW0Size = 32"
definition PAKEVerifierLSize :: nat where "PAKEVerifierLSize = 65"
definition PAKEVerifierSize :: nat where "PAKEVerifierSize = 97"
definition MinIterations :: int where "MinIterations = 1000"
definition MaxIterations :: int where "MaxIterations = 100000"
definition MinSaltLength :: nat where "MinSaltLength = 16"
definition MaxSaltLength :: nat where "MaxSaltLength = 32"
definition MaxPasscode :: u32 where "MaxPasscode = 0x7FFFFFF"
definition MaxDiscriminator :: u16 where "MaxDiscriminator = 0xFFF"

lemmas verifier_consts [const_defs] = PAKEVerifierW0Size_def PAKEVerifierLSize_def PAKEVerifierSize_def
  MinIterations_def MaxIterations_def MinSaltLength_def MaxSaltLength_def MaxPasscode_def MaxDiscriminator_def

definition ValidatePasscode :: "u32 \<Rightarrow> err option" where
  "ValidatePasscode passcode =
     (if passcode > MaxPasscode then Some (Errorf (''commissioning: passcode '' @ fmt_d (unat passcode) @ '' exceeds 27 bits''))
      else validatePasscode passcode)"

definition salt_range_error :: "nat \<Rightarrow> err option" where
  "salt_range_error n =
     (if n < MinSaltLength \<or> n > MaxSaltLength
      then Some (Errorf (''commissioning: salt length '' @ fmt_d n @ '' outside [16,32]'')) else None)"

definition ComputePAKEVerifier :: "suite \<Rightarrow> u32 \<Rightarrow> byte list \<Rightarrow> int \<Rightarrow> byte list res" where
  "ComputePAKEVerifier S passcode salt iterations =
     (case ValidatePasscode passcode of
        Some e \<Rightarrow> Err e
      | None \<Rightarrow>
          case salt_range_error (length salt) of
            Some e \<Rightarrow> Err e
          | None \<Rightarrow>
              if iterations < MinIterations \<or> iterations > MaxIterations
              then Err (Errorf ''commissioning: iterations outside [1000,100000]'')
              else
                bind_res (wrap_res ''deriving SPAKE2+ values'' (DeriveSPAKE2PValues S passcode salt iterations)) (\<lambda>(w0, w1).
                bind_res (ComputeL S w1) (\<lambda>L.
                if length w0 \<noteq> PAKEVerifierW0Size then Err (Errorf ''commissioning: unexpected w0 size'')
                else if length L \<noteq> PAKEVerifierLSize then Err (Errorf ''commissioning: unexpected L size'')
                else Ok (w0 @ L))))"

text \<open>The outcomes of \<^verbatim>\<open>rand.Read\<close> are arguments; of the sixteen attempts at a passcode each takes one.\<close>

fun passcode_attempts :: "nat \<Rightarrow> byte list res list \<Rightarrow> u32 res" where
  "passcode_attempts 0 rnds = Err (Errorf ''commissioning: failed to generate random passcode'')"
| "passcode_attempts (Suc n) [] = Err (Errorf ''commissioning: failed to generate random passcode'')"
| "passcode_attempts (Suc n) (rnd # rnds) =
     bind_res (wrap_res ''commissioning: reading random passcode'' rnd) (\<lambda>buf.
     let candidate = be_get buf AND MaxPasscode in
     if ValidatePasscode candidate = None then Ok candidate else passcode_attempts n rnds)"

definition GenerateRandomPasscode :: "byte list res list \<Rightarrow> u32 res" where
  "GenerateRandomPasscode rnds = passcode_attempts 16 rnds"

definition GenerateRandomSalt :: "byte list res \<Rightarrow> int \<Rightarrow> byte list res" where
  "GenerateRandomSalt rnd n =
     (if n < int MinSaltLength \<or> n > int MaxSaltLength then Err (Errorf ''commissioning: salt length outside [16,32]'')
      else wrap_res ''commissioning: reading random salt'' rnd)"

definition GenerateRandomDiscriminator :: "byte list res \<Rightarrow> u16 res" where
  "GenerateRandomDiscriminator rnd =
     bind_res (wrap_res ''commissioning: reading random discriminator'' rnd) (\<lambda>buf. Ok (be_get buf AND MaxDiscriminator))"

end
