(* ===== verification/Conn.thy ===== *)
theory Conn
  imports Prelude
begin

text \<open>
  \<^verbatim>\<open>internal/transport/conn.go\<close> and \<^verbatim>\<open>udp.go\<close>: the connection a controller sends and receives
  through.  The socket is an argument: what writing to it returns, and which of the three events of
  the \<^verbatim>\<open>select\<close> in \<^verbatim>\<open>Receive\<close> comes first.
\<close>

definition ErrConnClosed :: err where "ErrConnClosed = Sentinel ''connection closed''"

text \<open>The addresses of the program: of a socket, in its printed form, and of a Bluetooth device.\<close>

datatype net_addr = UDPAddr string | BLEAddr string

definition maxMatterMessageSize :: nat where [const_defs]: "maxMatterMessageSize = 1280"

definition UDPConn_Send ::
  "err option \<Rightarrow> (byte list \<Rightarrow> string \<Rightarrow> err option) \<Rightarrow> byte list \<Rightarrow> net_addr \<Rightarrow> unit res" where
  "UDPConn_Send ctx WriteToUDP msg addr =
     (case ctx of
        Some e \<Rightarrow> Err e
      | None \<Rightarrow>
          (case addr of
             UDPAddr a \<Rightarrow>
               (case WriteToUDP msg a of Some e \<Rightarrow> Err (Errorw ''transport: UDP send'' e) | None \<Rightarrow> Ok ())
           | BLEAddr _ \<Rightarrow> Err (Errorf ''transport: expected *net.UDPAddr, got *transport.BLEAddr'')))"

text \<open>What ends the wait: a packet, which the buffer may cut, or the read's error; the context; the close.\<close>

datatype udp_event = Packet "byte list" string | ReadError err | CtxDone err | ConnClosed

fun UDPConn_Receive :: "udp_event \<Rightarrow> (byte list \<times> net_addr) res" where
  "UDPConn_Receive (Packet bs a) = Ok (take maxMatterMessageSize bs, UDPAddr a)"
| "UDPConn_Receive (ReadError e) = Err (Errorw ''transport: UDP receive'' e)"
| "UDPConn_Receive (CtxDone e) = Err e"
| "UDPConn_Receive ConnClosed = Err (Errorw ''transport'' ErrConnClosed)"

lemma udp_received_size: "UDPConn_Receive ev = Ok (data, addr) \<Longrightarrow> length data \<le> maxMatterMessageSize"
  by (cases ev) auto

lemma udp_closed_recognised: "\<exists>e. UDPConn_Receive ConnClosed = Err e \<and> errors_Is e ErrConnClosed"
  by (simp add: ErrConnClosed_def)

end
