(* ===== verification/Commission.thy ===== *)
theory Commission
  imports Commission_Wire Attestation Exchange Conn
begin

text \<open>
  \<^verbatim>\<open>internal/commissioning/flow.go\<close>: how a device is taken into a fabric.  The flow talks to the device
  and to the rest of the program through interfaces; an implementation of them is a record of
  functions of what has happened so far, and the flow is a call over the list of these events.
\<close>

subsection \<open>Steps\<close>

datatype CommissioningStep =
  StepParseSetupCode | StepDiscover | StepEstablishPASE | StepArmFailsafe | StepReadCommissioningInfo
| StepReadBasicInfo | StepAttestationRequest | StepValidateAttestation | StepCSRRequest | StepGenerateNOC
| StepAddTrustedRoot | StepAddNOC | StepNetworkSetup | StepNetworkConnect | StepEstablishCASE
| StepCommissioningComplete

text \<open>The constants are counted from zero in the order of their declaration.\<close>

fun step_number :: "CommissioningStep \<Rightarrow> nat" where
  "step_number StepParseSetupCode = 0"
| "step_number StepDiscover = 1"
| "step_number StepEstablishPASE = 2"
| "step_number StepArmFailsafe = 3"
| "step_number StepReadCommissioningInfo = 4"
| "step_number StepReadBasicInfo = 5"
| "step_number StepAttestationRequest = 6"
| "step_number StepValidateAttestation = 7"
| "step_number StepCSRRequest = 8"
| "step_number StepGenerateNOC = 9"
| "step_number StepAddTrustedRoot = 10"
| "step_number StepAddNOC = 11"
| "step_number StepNetworkSetup = 12"
| "step_number StepNetworkConnect = 13"
| "step_number StepEstablishCASE = 14"
| "step_number StepCommissioningComplete = 15"

definition all_steps :: "CommissioningStep list" where
  "all_steps = [StepParseSetupCode, StepDiscover, StepEstablishPASE, StepArmFailsafe, StepReadCommissioningInfo,
     StepReadBasicInfo, StepAttestationRequest, StepValidateAttestation, StepCSRRequest, StepGenerateNOC,
     StepAddTrustedRoot, StepAddNOC, StepNetworkSetup, StepNetworkConnect, StepEstablishCASE, StepCommissioningComplete]"

lemma nth_all_steps: "all_steps ! step_number a = a"
  by (cases a) (simp_all add: all_steps_def)

instantiation CommissioningStep :: linorder
begin

definition less_eq_CommissioningStep :: "CommissioningStep \<Rightarrow> CommissioningStep \<Rightarrow> bool" where
  "less_eq_CommissioningStep a b \<longleftrightarrow> step_number a \<le> step_number b"

definition less_CommissioningStep :: "CommissioningStep \<Rightarrow> CommissioningStep \<Rightarrow> bool" where
  "less_CommissioningStep a b \<longleftrightarrow> step_number a < step_number b"

instance
proof
  fix a b c :: CommissioningStep
  have inj: "a = b" if "step_number a = step_number b"
    using arg_cong [where f = "(!) all_steps", OF that] by (simp only: nth_all_steps)
  show "a = b" if "a \<le> b" "b \<le> a"
    by (rule inj) (use that in \<open>simp add: less_eq_CommissioningStep_def\<close>)
qed (auto simp: less_eq_CommissioningStep_def less_CommissioningStep_def)

end

lemma step_less: "a < b \<longleftrightarrow> step_number a < step_number b"
  by (simp add: less_CommissioningStep_def)

fun CommissioningStep_String :: "CommissioningStep \<Rightarrow> string" where
  "CommissioningStep_String StepParseSetupCode = ''ParseSetupCode''"
| "CommissioningStep_String StepDiscover = ''Discover''"
| "CommissioningStep_String StepEstablishPASE = ''EstablishPASE''"
| "CommissioningStep_String StepArmFailsafe = ''ArmFailsafe''"
| "CommissioningStep_String StepReadCommissioningInfo = ''ReadCommissioningInfo''"
| "CommissioningStep_String StepReadBasicInfo = ''ReadBasicInfo''"
| "CommissioningStep_String StepAttestationRequest = ''AttestationRequest''"
| "CommissioningStep_String StepValidateAttestation = ''ValidateAttestation''"
| "CommissioningStep_String StepCSRRequest = ''CSRRequest''"
| "CommissioningStep_String StepGenerateNOC = ''GenerateNOC''"
| "CommissioningStep_String StepAddTrustedRoot = ''AddTrustedRoot''"
| "CommissioningStep_String StepAddNOC = ''AddNOC''"
| "CommissioningStep_String StepNetworkSetup = ''NetworkSetup''"
| "CommissioningStep_String StepNetworkConnect = ''NetworkConnect''"
| "CommissioningStep_String StepEstablishCASE = ''EstablishCASE''"
| "CommissioningStep_String StepCommissioningComplete = ''CommissioningComplete''"

subsection \<open>Parameters, interfaces and events\<close>

record CommissioningParams =
  cp_SetupCode :: string
  cp_Passcode :: u32
  cp_Discriminator :: u16
  cp_NodeID :: u64
  cp_Network :: "NetworkCredentials option"
  cp_OnNetwork :: bool
  cp_FailsafeSeconds :: u16

text \<open>A session is a handle of the implementation.\<close>

type_synonym session_handle = nat

record issued_noc =
  is_noc :: "byte list"
  is_icac :: "byte list option"
  is_ipk :: "byte list"
  is_rootCert :: "byte list"
  is_adminSubject :: u64

datatype event =
  Progress CommissioningStep
| Discovered u16 byte "string res"
| PASE string u32 "session_handle res"
| CASE string u64 "session_handle res"
| SessionClosed session_handle
| Invoked session_handle u16 u32 u32 "byte list" "u16 option" "byte list res"
| AttributeRead session_handle u16 u32 u32 "byte list res"
| RandomRead "byte list res"
| NOCIssued "byte list" u64 "issued_noc res"
| Waited int

type_synonym history = "event list"

text \<open>
  The interfaces \<^verbatim>\<open>DeviceDiscoverer\<close>, \<^verbatim>\<open>SessionEstablisher\<close>, \<^verbatim>\<open>InteractionClient\<close> (a timed invocation
  has a timeout) and \<^verbatim>\<open>NOCIssuer\<close>, the random number generator, the cancellation of the context while
  the flow waits, and the overrides of the waiting times, in milliseconds, as the fields of
  \<^verbatim>\<open>Commissioner\<close>.
\<close>

record Commissioner =
  cm_Discover :: "history \<Rightarrow> u16 \<Rightarrow> byte \<Rightarrow> string res"
  cm_EstablishPASE :: "history \<Rightarrow> string \<Rightarrow> u32 \<Rightarrow> session_handle res"
  cm_EstablishCASE :: "history \<Rightarrow> string \<Rightarrow> u64 \<Rightarrow> session_handle res"
  cm_RemoteAddress :: "session_handle \<Rightarrow> string"
  cm_Invoke :: "history \<Rightarrow> session_handle \<Rightarrow> u16 \<Rightarrow> u32 \<Rightarrow> u32 \<Rightarrow> byte list \<Rightarrow> u16 option \<Rightarrow> byte list res"
  cm_ReadAttribute :: "history \<Rightarrow> session_handle \<Rightarrow> u16 \<Rightarrow> u32 \<Rightarrow> u32 \<Rightarrow> byte list res"
  cm_IssueNOC :: "history \<Rightarrow> byte list \<Rightarrow> u64 \<Rightarrow> issued_noc res"
  cm_Attestation :: "AttestationValidator option"
  cm_rand_Read :: "history \<Rightarrow> byte list res"
  cm_Cancelled :: "history \<Rightarrow> err option"
  BLEReconnectInitialWait :: int
  BLEReconnectRetryInterval :: int
  BLEReconnectMaxAttempts :: int
  CASEInitialWait :: int
  CASERetryInterval :: int

record EndpointInfo =
  ei_ID :: u16
  ei_DeviceTypes :: "DeviceTypeInfo list"
  ei_ServerClusters :: "u32 list"

record CommissioningResult =
  cr_VendorName :: "byte list"
  cr_VendorID :: u16
  cr_ProductName :: "byte list"
  cr_ProductID :: u16
  cr_SpecificationVersion :: u32
  cr_SoftwareVersion :: u32
  cr_SerialNumber :: "byte list"
  cr_Address :: string
  cr_Endpoints :: "EndpointInfo list"

subsection \<open>Calls\<close>

text \<open>A call of an interface and the event it leaves.\<close>

definition ask :: "(history \<Rightarrow> 'a res) \<Rightarrow> ('a res \<Rightarrow> event) \<Rightarrow> (history, 'a) call" where
  "ask f ev h = (f h, h @ [ev (f h)])"

definition note_event :: "event \<Rightarrow> (history, unit) call" where "note_event e h = (Ok (), h @ [e])"

text \<open>An error as a value, for the errors the flow handles itself.\<close>

definition call_try :: "('s, 'a) call \<Rightarrow> ('s, err + 'a) call" where
  "call_try m s = (case m s of (Ok x, s') \<Rightarrow> (Ok (Inr x), s') | (Err e, s') \<Rightarrow> (Ok (Inl e), s') | (Panic, s') \<Rightarrow> (Panic, s'))"

definition call_raise :: "err \<Rightarrow> ('s, 'a) call" where "call_raise e s = (Err e, s)"

definition call_res :: "'a res \<Rightarrow> ('s, 'a) call" where "call_res r s = (r, s)"

text \<open>\<^verbatim>\<open>defer session.Close()\<close> around the rest of a function, which also runs when it panics.\<close>

definition deferring_close :: "session_handle \<Rightarrow> (history, 'a) call \<Rightarrow> (history, 'a) call" where
  "deferring_close s m h = (case m h of (r, h') \<Rightarrow> (r, h' @ [SessionClosed s]))"

definition reportProgress :: "CommissioningStep \<Rightarrow> (history, unit) call" where
  "reportProgress step = note_event (Progress step)"

definition invoke :: "Commissioner \<Rightarrow> session_handle \<Rightarrow> u32 \<Rightarrow> u32 \<Rightarrow> byte list \<Rightarrow> u16 option \<Rightarrow> (history, byte list) call" where
  "invoke C s cluster command req timed =
     ask (\<lambda>h. cm_Invoke C h s 0 cluster command req timed) (Invoked s 0 cluster command req timed)"

definition read_attribute :: "Commissioner \<Rightarrow> session_handle \<Rightarrow> u16 \<Rightarrow> u32 \<Rightarrow> u32 \<Rightarrow> (history, byte list) call" where
  "read_attribute C s ep cluster attribute =
     ask (\<lambda>h. cm_ReadAttribute C h s ep cluster attribute) (AttributeRead s ep cluster attribute)"

definition establish_PASE :: "Commissioner \<Rightarrow> string \<Rightarrow> u32 \<Rightarrow> (history, session_handle) call" where
  "establish_PASE C addr passcode = ask (\<lambda>h. cm_EstablishPASE C h addr passcode) (PASE addr passcode)"

definition establish_CASE :: "Commissioner \<Rightarrow> string \<Rightarrow> u64 \<Rightarrow> (history, session_handle) call" where
  "establish_CASE C addr nodeID = ask (\<lambda>h. cm_EstablishCASE C h addr nodeID) (CASE addr nodeID)"

text \<open>The wait for a timer or the end of the context.\<close>

definition wait_for :: "Commissioner \<Rightarrow> int \<Rightarrow> (history, unit) call" where
  "wait_for C d h = (case cm_Cancelled C h of Some e \<Rightarrow> (Err e, h) | None \<Rightarrow> (Ok (), h @ [Waited d]))"

subsection \<open>Commands\<close>

definition armFailsafe :: "Commissioner \<Rightarrow> session_handle \<Rightarrow> u16 \<Rightarrow> (history, unit) call" where
  "armFailsafe C s seconds =
     call_bind (call_of ''encoding ArmFailSafe'' (encodeArmFailsafe seconds)) (\<lambda>req.
     call_bind (call_wrap ''invoking ArmFailSafe'' (invoke C s 0x0030 0x00 req None)) (\<lambda>resp.
     call_res (checkCommandErrorCode resp ''ArmFailSafe'')))"

text \<open>The elements and the signature of the answer are both the whole of it.\<close>

definition requestAttestation :: "Commissioner \<Rightarrow> session_handle \<Rightarrow> (history, AttestationInfo \<times> DACChain) call" where
  "requestAttestation C s =
     call_bind (call_wrap ''generating attestation nonce'' (ask (cm_rand_Read C) RandomRead)) (\<lambda>nonce.
     call_bind (call_of ''encoding AttestationRequest'' (encodeOctetStringField 0 nonce)) (\<lambda>attReq.
     call_bind (call_wrap ''invoking AttestationRequest'' (invoke C s 0x003E 0x00 attReq None)) (\<lambda>resp.
     call_bind (call_of ''encoding DAC request'' (encodeUintField 0 1)) (\<lambda>dacReq.
     call_bind (call_wrap ''requesting DAC'' (invoke C s 0x003E 0x02 dacReq None)) (\<lambda>dacResp.
     call_bind (call_of ''encoding PAI request'' (encodeUintField 0 2)) (\<lambda>paiReq.
     call_bind (call_wrap ''requesting PAI'' (invoke C s 0x003E 0x02 paiReq None)) (\<lambda>paiResp.
     call_return (\<lparr>ai_Elements = resp, ai_Signature = resp, ai_Nonce = nonce\<rparr>,
       \<lparr>dc_DAC = dacResp, dc_PAI = paiResp, dc_PAA = []\<rparr>))))))))"

definition requestCSR :: "Commissioner \<Rightarrow> session_handle \<Rightarrow> (history, byte list) call" where
  "requestCSR C s =
     call_bind (call_wrap ''generating CSR nonce'' (ask (cm_rand_Read C) RandomRead)) (\<lambda>nonce.
     call_bind (call_of ''encoding CSRRequest'' (encodeOctetStringField 0 nonce)) (\<lambda>csrReq.
     call_wrap ''invoking CSRRequest'' (invoke C s 0x003E 0x04 csrReq None)))"

definition addTrustedRoot :: "Commissioner \<Rightarrow> session_handle \<Rightarrow> byte list \<Rightarrow> (history, unit) call" where
  "addTrustedRoot C s rootCert =
     call_bind (call_of ''encoding AddTrustedRootCertificate'' (encodeOctetStringField 0 rootCert)) (\<lambda>req.
     call_bind (call_wrap ''invoking AddTrustedRootCertificate'' (invoke C s 0x003E 0x0B req (Some 10000))) (\<lambda>_.
     call_return ()))"

definition addNOC :: "Commissioner \<Rightarrow> session_handle \<Rightarrow> issued_noc \<Rightarrow> (history, unit) call" where
  "addNOC C s i =
     call_bind (call_of ''encoding AddNOC'' (encodeAddNOC (is_noc i) (is_icac i) (is_ipk i) (is_adminSubject i))) (\<lambda>req.
     call_bind (call_wrap ''invoking AddNOC'' (invoke C s 0x003E 0x06 req (Some 10000))) (\<lambda>resp.
     call_res (checkNOCResponse resp)))"

text \<open>Credentials of the announced type that are missing are a nil pointer.\<close>

definition setupNetwork :: "Commissioner \<Rightarrow> session_handle \<Rightarrow> NetworkCredentials \<Rightarrow> (history, unit) call" where
  "setupNetwork C s creds =
     (if nc_Type creds = NetworkWiFi then
        (case nc_WiFi creds of
           None \<Rightarrow> call_res Panic
         | Some wifi \<Rightarrow>
             call_bind (call_of ''encoding WiFi network'' (encodeWiFiNetwork (wf_SSID wifi) (wf_Password wifi))) (\<lambda>req.
             call_bind (call_wrap ''invoking AddOrUpdateWiFiNetwork'' (invoke C s 0x0031 0x02 req None)) (\<lambda>resp.
             call_res (checkNetworkResponse resp ''AddOrUpdateWiFiNetwork''))))
      else if nc_Type creds = NetworkThread then
        (case nc_Thread creds of
           None \<Rightarrow> call_res Panic
         | Some dataset \<Rightarrow>
             call_bind (call_of ''encoding Thread network'' (encodeOctetStringField 0 dataset)) (\<lambda>req.
             call_bind (call_wrap ''invoking AddOrUpdateThreadNetwork'' (invoke C s 0x0031 0x03 req None)) (\<lambda>resp.
             call_res (checkNetworkResponse resp ''AddOrUpdateThreadNetwork''))))
      else call_return ())"

definition network_id :: "NetworkCredentials \<Rightarrow> (history, byte list) call" where
  "network_id creds =
     (if nc_Type creds = NetworkWiFi then
        (case nc_WiFi creds of None \<Rightarrow> call_res Panic | Some wifi \<Rightarrow> call_return (wf_SSID wifi))
      else if nc_Type creds = NetworkThread then
        (case nc_Thread creds of
           None \<Rightarrow> call_res Panic
         | Some dataset \<Rightarrow> call_of ''extracting Extended PAN ID for ConnectNetwork'' (ExtractExtendedPANID dataset))
      else call_return [])"

definition connectNetwork :: "Commissioner \<Rightarrow> session_handle \<Rightarrow> NetworkCredentials \<Rightarrow> (history, unit) call" where
  "connectNetwork C s creds =
     call_bind (network_id creds) (\<lambda>networkID.
     call_bind (call_of ''encoding ConnectNetwork'' (encodeOctetStringField 0 networkID)) (\<lambda>req.
     call_bind (call_wrap ''invoking ConnectNetwork'' (invoke C s 0x0031 0x06 req None)) (\<lambda>resp.
     call_res (checkNetworkResponse resp ''ConnectNetwork''))))"

definition commissioningComplete :: "Commissioner \<Rightarrow> session_handle \<Rightarrow> (history, unit) call" where
  "commissioningComplete C s =
     call_bind (call_wrap ''invoking CommissioningComplete'' (invoke C s 0x0030 0x04 [] None)) (\<lambda>resp.
     call_res (checkCommandErrorCode resp ''CommissioningComplete''))"

subsection \<open>Reading the device's description\<close>

text \<open>An attribute that cannot be read keeps its default.\<close>

definition read_or :: "Commissioner \<Rightarrow> session_handle \<Rightarrow> u16 \<Rightarrow> u32 \<Rightarrow> u32 \<Rightarrow> (byte list \<Rightarrow> 'a res) \<Rightarrow> 'a \<Rightarrow> (history, 'a) call" where
  "read_or C s ep cluster attribute decode d =
     call_bind (call_try (read_attribute C s ep cluster attribute)) (\<lambda>r.
     case r of Inl _ \<Rightarrow> call_return d | Inr data \<Rightarrow> call_res (decode data))"

fun read_endpoints :: "Commissioner \<Rightarrow> session_handle \<Rightarrow> u16 list \<Rightarrow> (history, EndpointInfo list) call" where
  "read_endpoints C s [] = call_return []"
| "read_endpoints C s (ep # eps) =
     call_bind (read_or C s ep 0x001D 0x0000 decodeDeviceTypeList []) (\<lambda>types.
     call_bind (read_or C s ep 0x001D 0x0001 decodeTLVUint32Array []) (\<lambda>clusters.
     call_bind (read_endpoints C s eps) (\<lambda>rest.
     call_return (\<lparr>ei_ID = ep, ei_DeviceTypes = types, ei_ServerClusters = clusters\<rparr> # rest))))"

definition readDeviceInfo :: "Commissioner \<Rightarrow> session_handle \<Rightarrow> string \<Rightarrow> (history, CommissioningResult) call" where
  "readDeviceInfo C s address =
     call_bind (read_or C s 0 0x0028 0x0001 decodeTLVString []) (\<lambda>vendorName.
     call_bind (read_or C s 0 0x0028 0x0002 decodeTLVUint16 0) (\<lambda>vendorID.
     call_bind (read_or C s 0 0x0028 0x0003 decodeTLVString []) (\<lambda>productName.
     call_bind (read_or C s 0 0x0028 0x0004 decodeTLVUint16 0) (\<lambda>productID.
     call_bind (read_or C s 0 0x0028 0x0009 decodeTLVUint32 0) (\<lambda>softwareVersion.
     call_bind (read_or C s 0 0x0028 0x000F decodeTLVString []) (\<lambda>serialNumber.
     call_bind (read_or C s 0 0x0028 0x0015 decodeTLVUint32 0) (\<lambda>specVersion.
     call_bind (read_or C s 0 0x001D 0x0003 decodeTLVUint16Array []) (\<lambda>parts.
     call_bind (read_endpoints C s (0 # parts)) (\<lambda>endpoints.
     call_return \<lparr>cr_VendorName = vendorName, cr_VendorID = vendorID, cr_ProductName = productName,
       cr_ProductID = productID, cr_SpecificationVersion = specVersion, cr_SoftwareVersion = softwareVersion,
       cr_SerialNumber = serialNumber, cr_Address = address, cr_Endpoints = endpoints\<rparr>)))))))))"

subsection \<open>The flow\<close>

definition DeadlineExceeded :: err where "DeadlineExceeded = Sentinel ''context deadline exceeded''"

definition transport_died :: "err \<Rightarrow> bool" where
  "transport_died e \<longleftrightarrow> errors_Is e ErrConnClosed \<or> errors_Is e ErrExchangeClosed"

definition parseSetupCode :: "string \<Rightarrow> SetupPayload res" where
  "parseSetupCode code =
     (if length code > 3 \<and> take 3 code = ''MT:'' then ParseQRCode code else ParseManualPairingCode code)"

text \<open>The passcode, the discriminator and the transports to try.\<close>

definition setup_of :: "CommissioningParams \<Rightarrow> (history, u32 \<times> u16 \<times> byte) call" where
  "setup_of p =
     (if cp_Passcode p \<noteq> 0 then call_return (cp_Passcode p, cp_Discriminator p, 0)
      else
        call_bind (reportProgress StepParseSetupCode) (\<lambda>_.
        call_bind (call_of ''commissioning: parsing setup code'' (parseSetupCode (cp_SetupCode p))) (\<lambda>payload.
        call_return (sp_Passcode payload, sp_Discriminator payload, sp_DiscoveryCapabilities payload))))"

text \<open>A device that is not on the network yet must have an interface the flow can set up.\<close>

definition missing_credentials :: "u32 \<Rightarrow> err option" where
  "missing_credentials features =
     (let hasWiFi = features AND 0x01 \<noteq> 0; hasThread = features AND 0x02 \<noteq> 0; hasEthernet = features AND 0x04 \<noteq> 0 in
      if hasThread \<and> \<not> hasEthernet \<and> \<not> hasWiFi then Some (Errorf ''commissioning: device requires Thread network credentials'')
      else if hasWiFi \<and> \<not> hasEthernet \<and> \<not> hasThread then Some (Errorf ''commissioning: device requires WiFi network credentials'')
      else if (hasThread \<or> hasWiFi) \<and> \<not> hasEthernet
      then Some (Errorf ''commissioning: device requires network credentials (supports WiFi and Thread)'')
      else None)"

definition check_network :: "Commissioner \<Rightarrow> session_handle \<Rightarrow> CommissioningParams \<Rightarrow> (history, unit) call" where
  "check_network C s p =
     (if cp_Network p = None \<and> \<not> cp_OnNetwork p then
        call_bind (call_try (read_attribute C s 0 0x0031 0xFFFC)) (\<lambda>r.
        case r of
          Inl _ \<Rightarrow> call_return ()
        | Inr data \<Rightarrow>
            call_bind (call_res (decodeTLVUint32 data)) (\<lambda>features.
            case missing_credentials features of Some e \<Rightarrow> call_raise e | None \<Rightarrow> call_return ()))
      else call_return ())"

text \<open>Steps 4 and 5; steps 6 and 7.\<close>

definition prepare :: "Commissioner \<Rightarrow> session_handle \<Rightarrow> CommissioningParams \<Rightarrow> (history, unit) call" where
  "prepare C s p =
     call_bind (reportProgress StepArmFailsafe) (\<lambda>_.
     call_bind (call_wrap ''commissioning: arming failsafe'' (armFailsafe C s (cp_FailsafeSeconds p))) (\<lambda>_.
     call_bind (reportProgress StepReadCommissioningInfo) (\<lambda>_.
     call_bind (read_or C s 0 0x0030 0x0004 decodeTLVBool True) (\<lambda>supportsConcurrentConnection.
     call_bind (reportProgress StepReadBasicInfo) (\<lambda>_.
     call_bind (call_wrap ''commissioning: reading basic information'' (read_attribute C s 0 0x0028 0x0001)) (\<lambda>_.
     call_return ()))))))"

definition attest :: "Commissioner \<Rightarrow> session_handle \<Rightarrow> (history, unit) call" where
  "attest C s =
     call_bind (reportProgress StepAttestationRequest) (\<lambda>_.
     call_bind (call_wrap ''commissioning: requesting attestation'' (requestAttestation C s)) (\<lambda>(attestation, dacChain).
     call_bind (reportProgress StepValidateAttestation) (\<lambda>_.
     case cm_Attestation C of
       None \<Rightarrow> call_return ()
     | Some v \<Rightarrow>
         call_bind (call_of ''commissioning: validating DAC chain'' (av_ValidateDAC v dacChain)) (\<lambda>_.
         call_of ''commissioning: validating attestation''
           (av_ValidateAttestation v attestation (dc_DAC dacChain) (ai_Nonce attestation))))))"

text \<open>Steps 8 to 11; the result tells whether the transport died while the certificate was sent.\<close>

definition give_credentials :: "Commissioner \<Rightarrow> session_handle \<Rightarrow> u64 \<Rightarrow> (history, bool) call" where
  "give_credentials C s nodeID =
     call_bind (reportProgress StepCSRRequest) (\<lambda>_.
     call_bind (call_wrap ''commissioning: requesting CSR'' (requestCSR C s)) (\<lambda>csrResp.
     call_bind (reportProgress StepGenerateNOC) (\<lambda>_.
     call_bind (call_wrap ''commissioning: issuing NOC'' (ask (\<lambda>h. cm_IssueNOC C h csrResp nodeID) (NOCIssued csrResp nodeID))) (\<lambda>issued.
     call_bind (reportProgress StepAddTrustedRoot) (\<lambda>_.
     call_bind (call_wrap ''commissioning: adding trusted root'' (addTrustedRoot C s (is_rootCert issued))) (\<lambda>_.
     call_bind (reportProgress StepAddNOC) (\<lambda>_.
     call_bind (call_try (addNOC C s issued)) (\<lambda>r.
     case r of
       Inr _ \<Rightarrow> call_return False
     | Inl e \<Rightarrow>
         if transport_died e \<or> errors_Is e DeadlineExceeded then call_return True
         else call_raise (Errorw ''commissioning: adding NOC'' e)))))))))"

definition bleReconnectInitialWait :: int where "bleReconnectInitialWait = 3000"
definition bleReconnectMaxAttempts :: int where "bleReconnectMaxAttempts = 6"
definition bleReconnectRetryInterval :: int where "bleReconnectRetryInterval = 4000"

text \<open>\<open>n\<close> attempts are left.\<close>

fun reconnect_attempts :: "Commissioner \<Rightarrow> string \<Rightarrow> u32 \<Rightarrow> int \<Rightarrow> string \<Rightarrow> nat \<Rightarrow> err \<Rightarrow> (history, session_handle) call" where
  "reconnect_attempts C addr passcode interval failed 0 lastErr = call_raise (Errorw failed lastErr)"
| "reconnect_attempts C addr passcode interval failed (Suc n) lastErr =
     call_bind (call_try (establish_PASE C addr passcode)) (\<lambda>r.
     case r of
       Inr s \<Rightarrow> call_return s
     | Inl e \<Rightarrow>
         if n = 0 then reconnect_attempts C addr passcode interval failed n e
         else call_bind (wait_for C interval) (\<lambda>_. reconnect_attempts C addr passcode interval failed n e))"

definition reconnectPASEAfterAddNOC :: "Commissioner \<Rightarrow> string \<Rightarrow> u32 \<Rightarrow> (history, session_handle) call" where
  "reconnectPASEAfterAddNOC C addr passcode =
     (let initialWait = (if BLEReconnectInitialWait C \<noteq> 0 then BLEReconnectInitialWait C else bleReconnectInitialWait);
          retryInterval = (if BLEReconnectRetryInterval C \<noteq> 0 then BLEReconnectRetryInterval C else bleReconnectRetryInterval);
          maxAttempts = (if BLEReconnectMaxAttempts C > 0 then BLEReconnectMaxAttempts C else bleReconnectMaxAttempts)
      in call_bind (wait_for C initialWait) (\<lambda>_.
         reconnect_attempts C addr passcode retryInterval
           (''BLE reconnect after AddNOC failed after '' @ fmt_d (nat maxAttempts) @ '' attempts'') (nat maxAttempts)
           (Errorf ''nil'')))"

text \<open>Steps 12 and 13; the result tells whether the transport died.\<close>

definition provision :: "Commissioner \<Rightarrow> session_handle \<Rightarrow> NetworkCredentials \<Rightarrow> (history, bool) call" where
  "provision C s creds =
     call_bind (reportProgress StepNetworkSetup) (\<lambda>_.
     call_bind (call_try (setupNetwork C s creds)) (\<lambda>r.
     case r of
       Inl e \<Rightarrow>
         if transport_died e then call_return True else call_raise (Errorw ''commissioning: setting up network'' e)
     | Inr _ \<Rightarrow>
         call_bind (reportProgress StepNetworkConnect) (\<lambda>_.
         call_bind (call_try (connectNetwork C s creds)) (\<lambda>r.
         case r of
           Inl e \<Rightarrow>
             if transport_died e \<or> errors_Is e DeadlineExceeded then call_return True
             else call_raise (Errorw ''commissioning: connecting network'' e)
         | Inr _ \<Rightarrow> call_return False))))"

text \<open>The attempts at a CASE session, each after its wait.\<close>

fun case_attempts :: "Commissioner \<Rightarrow> string \<Rightarrow> u64 \<Rightarrow> string \<Rightarrow> int list \<Rightarrow> err \<Rightarrow> (history, session_handle) call" where
  "case_attempts C addr nodeID failed [] lastErr = call_raise (Errorw failed lastErr)"
| "case_attempts C addr nodeID failed (w # ws) lastErr =
     call_bind (wait_for C w) (\<lambda>_.
     call_bind (call_try (establish_CASE C addr nodeID)) (\<lambda>r.
     case r of Inr s \<Rightarrow> call_return s | Inl e \<Rightarrow> case_attempts C addr nodeID failed ws e))"

definition case_waits :: "Commissioner \<Rightarrow> bool \<Rightarrow> int list" where
  "case_waits C bleDropped =
     (let caseRetries = (if bleDropped then 1 else 3);
          initialWait = (if CASEInitialWait C \<noteq> 0 then CASEInitialWait C else if bleDropped then 0 else 2000);
          retryWait = (if CASERetryInterval C \<noteq> 0 then CASERetryInterval C else 5000)
      in initialWait # replicate (caseRetries - 1) retryWait)"

text \<open>Steps 14 and 15, and the latter with what follows over the new session.\<close>

definition complete :: "Commissioner \<Rightarrow> string \<Rightarrow> session_handle \<Rightarrow> (history, CommissioningResult) call" where
  "complete C addr s =
     call_bind (reportProgress StepCommissioningComplete) (\<lambda>_.
     call_bind (call_wrap ''commissioning: completing commissioning'' (commissioningComplete C s)) (\<lambda>_.
     readDeviceInfo C s (let ra = cm_RemoteAddress C s in if ra \<noteq> [] then ra else addr)))"

definition operate :: "Commissioner \<Rightarrow> string \<Rightarrow> u64 \<Rightarrow> bool \<Rightarrow> (history, CommissioningResult) call" where
  "operate C addr nodeID bleDropped =
     call_bind (reportProgress StepEstablishCASE) (\<lambda>_.
     call_bind (case_attempts C addr nodeID
       (if bleDropped then ''commissioning: BLE disconnected during commissioning and device not reachable on operational network''
        else ''commissioning: establishing CASE session'') (case_waits C bleDropped) (Errorf ''nil'')) (\<lambda>s.
     deferring_close s (complete C addr s)))"

text \<open>The network part and what follows, over the session that is left or a new one.\<close>

definition deliver ::
  "Commissioner \<Rightarrow> CommissioningParams \<Rightarrow> NetworkCredentials \<Rightarrow> string \<Rightarrow> session_handle \<Rightarrow> (history, CommissioningResult) call" where
  "deliver C p creds addr s = call_bind (provision C s creds) (operate C addr (cp_NodeID p))"

definition rearm ::
  "Commissioner \<Rightarrow> CommissioningParams \<Rightarrow> NetworkCredentials \<Rightarrow> string \<Rightarrow> session_handle \<Rightarrow> (history, CommissioningResult) call" where
  "rearm C p creds addr s =
     call_bind (call_try (armFailsafe C s 900)) (\<lambda>r.
     case r of
       Inl e \<Rightarrow> call_bind (note_event (SessionClosed s)) (\<lambda>_.
         call_raise (Errorw ''commissioning: re-arming failsafe after BLE reconnect'' e))
     | Inr _ \<Rightarrow> deliver C p creds addr s)"

definition join_network ::
  "Commissioner \<Rightarrow> session_handle \<Rightarrow> CommissioningParams \<Rightarrow> string \<Rightarrow> u32 \<Rightarrow> bool \<Rightarrow> (history, CommissioningResult) call" where
  "join_network C s p addr passcode bleDropped =
     (case cp_Network p of
        None \<Rightarrow> operate C addr (cp_NodeID p) bleDropped
      | Some creds \<Rightarrow>
          if nc_Type creds = NetworkEthernet then operate C addr (cp_NodeID p) bleDropped
          else if bleDropped then
            call_bind (call_wrap (''commissioning: BLE dropped during AddNOC and reconnect failed'')
              (reconnectPASEAfterAddNOC C addr passcode)) (\<lambda>s'.
            deferring_close s' (rearm C p creds addr s'))
          else deliver C p creds addr s)"

definition discard_credentials :: "CommissioningParams \<Rightarrow> CommissioningParams" where
  "discard_credentials p = (if cp_OnNetwork p \<and> cp_Network p \<noteq> None then p\<lparr>cp_Network := None\<rparr> else p)"

definition commission_over_pase ::
  "Commissioner \<Rightarrow> session_handle \<Rightarrow> CommissioningParams \<Rightarrow> string \<Rightarrow> u32 \<Rightarrow> (history, CommissioningResult) call" where
  "commission_over_pase C s p addr passcode =
     call_bind (prepare C s p) (\<lambda>_.
     let p = discard_credentials p in
     call_bind (check_network C s p) (\<lambda>_.
     call_bind (attest C s) (\<lambda>_.
     call_bind (give_credentials C s (cp_NodeID p)) (join_network C s p addr passcode))))"

text \<open>A device that was found over IP is on the network.\<close>

definition found_at :: "string \<Rightarrow> CommissioningParams \<Rightarrow> CommissioningParams" where
  "found_at addr p =
     (if \<not> cp_OnNetwork p \<and> \<not> prefix ''ble://'' addr then p\<lparr>cp_OnNetwork := True\<rparr> else p)"

definition commission_at ::
  "Commissioner \<Rightarrow> CommissioningParams \<Rightarrow> u32 \<Rightarrow> string \<Rightarrow> (history, CommissioningResult) call" where
  "commission_at C p passcode addr =
     call_bind (reportProgress StepEstablishPASE) (\<lambda>_.
     call_bind (call_wrap ''commissioning: establishing PASE session'' (establish_PASE C addr passcode)) (\<lambda>s.
     deferring_close s (commission_over_pase C s (found_at addr p) addr passcode)))"

definition Commission :: "Commissioner \<Rightarrow> CommissioningParams \<Rightarrow> (history, CommissioningResult) call" where
  "Commission C params =
     (let p = (if cp_FailsafeSeconds params = 0 then params\<lparr>cp_FailsafeSeconds := 180\<rparr> else params) in
      call_bind (setup_of p) (\<lambda>(passcode, discriminator, caps).
      call_bind (reportProgress StepDiscover) (\<lambda>_.
      call_bind (call_wrap ''commissioning: discovering device''
        (ask (\<lambda>h. cm_Discover C h discriminator caps) (Discovered discriminator caps)))
        (commission_at C p passcode))))"

end
