(* ===== verification/Commission_Trace.thy ===== *)
theory Commission_Trace
  imports Commission
begin

text \<open>
  What a part of the commissioning flow leaves in the history: rules for the calls of \<^verbatim>\<open>Commission\<close> that
  follow their structure, and the classes of events of the commands.
\<close>

subsection \<open>Traces\<close>

definition traced :: "(history \<Rightarrow> bool) \<Rightarrow> (history, 'a) call \<Rightarrow> bool" where
  "traced P m \<longleftrightarrow> (\<forall>h. \<exists>r es. m h = (r, h @ es) \<and> P es)"

lemma tracedE:
  assumes "traced P m" obtains r es where "m h = (r, h @ es)" and "P es"
  using assms unfolding traced_def by blast

lemma traced_mono: "traced P m \<Longrightarrow> (\<And>es. P es \<Longrightarrow> Q es) \<Longrightarrow> traced Q m"
  unfolding traced_def by blast

lemma traced_bind:
  assumes m: "traced P m" and k: "\<And>x. traced Q (k x)" and R: "\<And>es. P es \<Longrightarrow> R es"
    and app: "\<And>es fs. P es \<Longrightarrow> Q fs \<Longrightarrow> R (es @ fs)"
  shows "traced R (call_bind m k)"
  unfolding traced_def
proof
  fix h
  obtain r es where 1: "m h = (r, h @ es)" "P es" by (rule tracedE [OF m])
  show "\<exists>r es. call_bind m k h = (r, h @ es) \<and> R es"
  proof (cases r)
    case (Ok x)
    obtain r' fs where "k x (h @ es) = (r', (h @ es) @ fs)" "Q fs" by (rule tracedE [OF k])
    with 1 Ok app [of es fs] show ?thesis by (auto simp: call_bind_def)
  qed (use 1 R in \<open>auto simp: call_bind_def\<close>)
qed

lemma traced_wrap [simp]: "traced P (call_wrap what m) \<longleftrightarrow> traced P m"
proof -
  have "(\<exists>r es. call_wrap what m h = (r, h @ es) \<and> P es) \<longleftrightarrow> (\<exists>r es. m h = (r, h @ es) \<and> P es)" for h
    by (cases "m h"; cases "fst (m h)") (auto simp: call_wrap_def)
  then show ?thesis by (simp add: traced_def)
qed

lemma traced_try [simp]: "traced P (call_try m) \<longleftrightarrow> traced P m"
proof -
  have "(\<exists>r es. call_try m h = (r, h @ es) \<and> P es) \<longleftrightarrow> (\<exists>r es. m h = (r, h @ es) \<and> P es)" for h
    by (cases "m h"; cases "fst (m h)") (auto simp: call_try_def)
  then show ?thesis by (simp add: traced_def)
qed

lemma traced_pure [simp]:
  "traced P (call_return x) \<longleftrightarrow> P []" "traced P (call_of what r) \<longleftrightarrow> P []"
  "traced P (call_res r) \<longleftrightarrow> P []" "traced P (call_raise e) \<longleftrightarrow> P []"
  by (simp_all add: traced_def call_return_def call_of_def call_res_def call_raise_def)

lemma traced_event [simp]:
  "traced P (note_event e) \<longleftrightarrow> P [e]" "traced P (reportProgress a) \<longleftrightarrow> P [Progress a]"
  by (simp_all add: traced_def note_event_def reportProgress_def)

lemma traced_ask: "(\<And>h. P [ev (f h)]) \<Longrightarrow> traced P (ask f ev)"
  by (simp add: traced_def ask_def)

lemma traced_wait: "P [] \<Longrightarrow> P [Waited d] \<Longrightarrow> traced P (wait_for C d)"
  by (auto simp: traced_def wait_for_def split: option.split)

lemma traced_close: "traced P m \<Longrightarrow> (\<And>es. P es \<Longrightarrow> Q (es @ [SessionClosed s])) \<Longrightarrow> traced Q (deferring_close s m)"
proof -
  assume m: "traced P m" and Q: "\<And>es. P es \<Longrightarrow> Q (es @ [SessionClosed s])"
  have "\<exists>r es. deferring_close s m h = (r, h @ es) \<and> Q es" for h
    by (rule tracedE [OF m, of h]) (auto simp: deferring_close_def intro: Q)
  then show ?thesis by (simp add: traced_def)
qed

subsection \<open>Classes of events\<close>

text \<open>All events of a call are of one class.\<close>

definition leaves :: "(event \<Rightarrow> bool) \<Rightarrow> (history, 'a) call \<Rightarrow> bool" where
  "leaves E = traced (list_all E)"

named_theorems leaves_rules \<open>the structural rules of \<open>leaves\<close>\<close>

lemma leaves_bind [leaves_rules]: "leaves E m \<Longrightarrow> (\<And>x. leaves E (k x)) \<Longrightarrow> leaves E (call_bind m k)"
  unfolding leaves_def by (rule traced_bind [where P = "list_all E" and Q = "list_all E"]) auto

lemma leaves_pure [simp]:
  "leaves E (call_return x)" "leaves E (call_of what r)" "leaves E (call_res r)" "leaves E (call_raise e)"
  "leaves E (call_wrap what m) \<longleftrightarrow> leaves E m" "leaves E (call_try m) \<longleftrightarrow> leaves E m"
  "leaves E (reportProgress a) \<longleftrightarrow> E (Progress a)"
  by (simp_all add: leaves_def)

lemma leaves_ask [leaves_rules]: "(\<And>h. E (ev (f h))) \<Longrightarrow> leaves E (ask f ev)"
  by (simp add: leaves_def traced_ask)

lemma leaves_mono: "leaves E m \<Longrightarrow> (\<And>e. E e \<Longrightarrow> F e) \<Longrightarrow> leaves F m"
  unfolding leaves_def by (erule traced_mono) (auto simp: list.pred_set)

text \<open>The commands \<open>K\<close>, as clusters and numbers, and any reading over a session.\<close>

fun sends :: "session_handle \<Rightarrow> (u32 \<times> u32) set \<Rightarrow> event \<Rightarrow> bool" where
  "sends s K (Invoked s' ep cluster command req timed r) \<longleftrightarrow> s' = s \<and> (cluster, command) \<in> K"
| "sends s K (AttributeRead s' ep cluster attribute r) \<longleftrightarrow> s' = s"
| "sends s K (RandomRead r) \<longleftrightarrow> True"
| "sends s K e \<longleftrightarrow> False"

lemma leaves_invoke [simp]: "leaves (sends s K) (invoke C s cluster command req timed) \<longleftrightarrow> (cluster, command) \<in> K"
  by (auto simp: invoke_def leaves_def traced_def ask_def)

lemma leaves_read [simp]: "leaves (sends s K) (read_attribute C s ep cluster attribute)"
  "leaves (sends s K) (ask (cm_rand_Read C) RandomRead)"
  by (auto simp: read_attribute_def intro!: leaves_rules)

lemma leaves_read_or [simp]: "leaves (sends s K) (read_or C s ep cluster attribute decode d)"
  by (auto simp: read_or_def intro!: leaves_rules split: sum.split)

lemma leaves_armFailsafe [simp]: "leaves (sends s {(0x30, 0)}) (armFailsafe C s seconds)"
  by (auto simp: armFailsafe_def intro!: leaves_rules)

lemma leaves_requestAttestation [simp]: "leaves (sends s {(0x3E, 0), (0x3E, 2)}) (requestAttestation C s)"
  unfolding requestAttestation_def by (auto intro!: leaves_rules)

lemma leaves_requestCSR [simp]: "leaves (sends s {(0x3E, 4)}) (requestCSR C s)"
  unfolding requestCSR_def by (auto intro!: leaves_rules)

lemma leaves_addTrustedRoot [simp]: "leaves (sends s {(0x3E, 0x0B)}) (addTrustedRoot C s cert)"
  by (auto simp: addTrustedRoot_def intro!: leaves_rules)

lemma leaves_addNOC [simp]: "leaves (sends s {(0x3E, 6)}) (addNOC C s i)"
  by (auto simp: addNOC_def intro!: leaves_rules)

lemma leaves_setupNetwork [simp]: "leaves (sends s {(0x31, 2), (0x31, 3)}) (setupNetwork C s creds)"
  unfolding setupNetwork_def by (auto intro!: leaves_rules split: option.split)

lemma leaves_network_id [simp]: "leaves E (network_id creds)"
  by (auto simp: network_id_def split: option.split)

lemma leaves_connectNetwork [simp]: "leaves (sends s {(0x31, 6)}) (connectNetwork C s creds)"
  by (auto simp: connectNetwork_def intro!: leaves_rules)

lemma leaves_commissioningComplete [simp]: "leaves (sends s {(0x30, 4)}) (commissioningComplete C s)"
  by (auto simp: commissioningComplete_def intro!: leaves_rules)

lemma leaves_check_network [simp]: "leaves (sends s K) (check_network C s p)"
  unfolding check_network_def by (auto intro!: leaves_rules split: sum.split option.split)

lemma leaves_read_endpoints [simp]: "leaves (sends s K) (read_endpoints C s eps)"
  by (induction eps) (auto intro!: leaves_rules)

lemma leaves_readDeviceInfo [simp]: "leaves (sends s K) (readDeviceInfo C s a)"
  unfolding readDeviceInfo_def by (auto intro!: leaves_rules)

text \<open>Anything over a session but its opening and closing, and the events of no session.\<close>

fun works_on :: "session_handle \<Rightarrow> event \<Rightarrow> bool" where
  "works_on s (Progress a) \<longleftrightarrow> True"
| "works_on s (NOCIssued csr n r) \<longleftrightarrow> True"
| "works_on s e \<longleftrightarrow> sends s UNIV e"

lemma sends_works: "sends s K e \<Longrightarrow> works_on s e"
  by (cases e) auto

lemma leaves_works: "leaves (sends s K) m \<Longrightarrow> leaves (works_on s) m"
  by (erule leaves_mono) (rule sends_works)

lemmas works_rules = leaves_rules
  leaves_works [OF leaves_armFailsafe] leaves_works [OF leaves_requestAttestation] leaves_works [OF leaves_requestCSR]
  leaves_works [OF leaves_addTrustedRoot] leaves_works [OF leaves_addNOC] leaves_works [OF leaves_setupNetwork]
  leaves_works [OF leaves_connectNetwork] leaves_works [OF leaves_commissioningComplete]
  leaves_works [OF leaves_check_network] leaves_works [OF leaves_readDeviceInfo]
  leaves_works [OF leaves_read_or] leaves_works [OF leaves_read(1)]

lemma works_prepare: "leaves (works_on s) (prepare C s p)"
  unfolding prepare_def by (auto intro!: works_rules)

lemma works_attest: "leaves (works_on s) (attest C s)"
  unfolding attest_def by (auto intro!: works_rules split: option.split)

lemma works_give_credentials: "leaves (works_on s) (give_credentials C s n)"
  unfolding give_credentials_def by (auto intro!: works_rules split: sum.split)

lemma works_provision: "leaves (works_on s) (provision C s creds)"
  unfolding provision_def by (auto intro!: works_rules split: sum.split)

end
