(* ===== verification/Commissioning.thy ===== *)
theory Commissioning
  imports Commission_Trace
begin

text \<open>
  The properties of the commissioning flow, over the history it leaves whatever the device, the network
  and the rest of the program answer: sessions are released, steps are reported in order, attempts and
  waiting are bounded, and the commands come in the order that makes them safe.
\<close>

subsection \<open>Sessions\<close>

text \<open>The sessions that are open after a history; a use of one that is not open has no result.\<close>

fun run_sessions :: "session_handle set \<Rightarrow> history \<Rightarrow> session_handle set option" where
  "run_sessions S [] = Some S"
| "run_sessions S (PASE addr passcode (Ok s) # es) = run_sessions (insert s S) es"
| "run_sessions S (CASE addr nodeID (Ok s) # es) = run_sessions (insert s S) es"
| "run_sessions S (SessionClosed s # es) = run_sessions (S - {s}) es"
| "run_sessions S (Invoked s ep cluster command req timed r # es) = (if s \<in> S then run_sessions S es else None)"
| "run_sessions S (AttributeRead s ep cluster attribute r # es) = (if s \<in> S then run_sessions S es else None)"
| "run_sessions S (e # es) = run_sessions S es"

lemma run_sessions_append: "run_sessions S (es @ fs) = Option.bind (run_sessions S es) (\<lambda>S. run_sessions S fs)"
  by (induction S es rule: run_sessions.induct) auto

text \<open>A call that uses the sessions \<open>S\<close> and opens and closes nothing; one that may close some at its end.\<close>

definition steady :: "session_handle set \<Rightarrow> history \<Rightarrow> bool" where
  "steady S es \<longleftrightarrow> (\<forall>T. S \<subseteq> T \<longrightarrow> run_sessions T es = Some T)"

definition closing :: "session_handle set \<Rightarrow> history \<Rightarrow> bool" where
  "closing S es \<longleftrightarrow> (\<forall>T. S \<subseteq> T \<longrightarrow> (\<exists>T'. run_sessions T es = Some T' \<and> T' \<subseteq> T))"

lemma steady_works: "list_all (works_on s) es \<Longrightarrow> steady {s} es"
proof -
  have "run_sessions T es = Some T" if "list_all (works_on s) es" "s \<in> T" for T
    using that by (induction T es rule: run_sessions.induct) auto
  then show "list_all (works_on s) es \<Longrightarrow> steady {s} es" by (simp add: steady_def)
qed

lemma steady_append: "steady S es \<Longrightarrow> steady S fs \<Longrightarrow> steady S (es @ fs)"
  by (simp add: steady_def run_sessions_append)

lemma closing_append: "steady S es \<Longrightarrow> closing S fs \<Longrightarrow> closing S (es @ fs)"
  by (simp add: steady_def closing_def run_sessions_append)

lemma steady_closing: "steady S es \<Longrightarrow> closing S es" by (auto simp: steady_def closing_def)

lemma steady_mono: "steady S es \<Longrightarrow> S \<subseteq> S' \<Longrightarrow> steady S' es" by (auto simp: steady_def)

lemma closing_mono: "closing S es \<Longrightarrow> S \<subseteq> S' \<Longrightarrow> closing S' es"
  unfolding closing_def by (meson order_trans)

lemma closing_bind: "traced (steady S) m \<Longrightarrow> (\<And>x. traced (closing S) (k x)) \<Longrightarrow> traced (closing S) (call_bind m k)"
  by (rule traced_bind [where P = "steady S" and Q = "closing S"]) (auto intro: closing_append steady_closing)

lemma steady_bind: "traced (steady S) m \<Longrightarrow> (\<And>x. traced (steady S) (k x)) \<Longrightarrow> traced (steady S) (call_bind m k)"
  by (rule traced_bind [where P = "steady S" and Q = "steady S"]) (auto intro: steady_append)

lemma traced_works: "leaves (works_on s) m \<Longrightarrow> s \<in> S \<Longrightarrow> traced (steady S) m"
  unfolding leaves_def by (erule traced_mono) (rule steady_mono [OF steady_works], auto)

lemma steady_simps [simp]: "steady S []" "steady S [Progress a]" "steady S [Waited d]" "steady S [Discovered disc caps r]"
  "closing S []" "closing S [SessionClosed s]"
  by (auto simp: steady_def closing_def)

lemma closing_pure [simp]: "traced (closing S) (call_return x)" "traced (closing S) (call_raise e)"
  by simp_all

text \<open>A call whose result is a session it has opened, and the use of such a session.\<close>

definition opens :: "session_handle res \<Rightarrow> history \<Rightarrow> bool" where
  "opens r es \<longleftrightarrow> (\<forall>T. run_sessions T es = Some (case r of Ok s \<Rightarrow> insert s T | _ \<Rightarrow> T))"

definition acquires :: "(history, session_handle) call \<Rightarrow> bool" where
  "acquires m \<longleftrightarrow> (\<forall>h. \<exists>r es. m h = (r, h @ es) \<and> opens r es)"

lemma acquiresE:
  assumes "acquires m" obtains r es where "m h = (r, h @ es)" and "opens r es"
  using assms unfolding acquires_def by blast

lemma opens_append: "steady {} es \<Longrightarrow> opens r fs \<Longrightarrow> opens r (es @ fs)"
  by (simp add: opens_def steady_def run_sessions_append)

lemma opens_Err: "opens (Err e) es \<longleftrightarrow> steady {} es" "opens Panic es \<longleftrightarrow> steady {} es"
  by (auto simp: opens_def steady_def)

lemma acquires_establish: "acquires (establish_PASE C addr passcode)" "acquires (establish_CASE C addr nodeID)"
  by (auto simp: acquires_def opens_def establish_PASE_def establish_CASE_def ask_def split: res.split)

lemma acquires_raise: "acquires (call_raise e)" by (simp add: acquires_def opens_def call_raise_def)

lemma acquires_wrap:
  assumes "acquires m" shows "acquires (call_wrap what m)"
  unfolding acquires_def
proof
  fix h
  obtain r es where "m h = (r, h @ es)" "opens r es" by (rule acquiresE [OF assms])
  then show "\<exists>r es. call_wrap what m h = (r, h @ es) \<and> opens r es"
    by (cases r) (auto simp: call_wrap_def opens_Err)
qed

lemma acquires_after:
  assumes m: "traced (steady {}) m" and k: "\<And>x. acquires (k x)" shows "acquires (call_bind m k)"
  unfolding acquires_def
proof
  fix h
  obtain r es where 1: "m h = (r, h @ es)" "steady {} es" by (rule tracedE [OF m])
  show "\<exists>r es. call_bind m k h = (r, h @ es) \<and> opens r es"
  proof (cases r)
    case (Ok x)
    obtain r' fs where "k x (h @ es) = (r', (h @ es) @ fs)" "opens r' fs" by (rule acquiresE [OF k])
    with 1 Ok show ?thesis by (auto simp: call_bind_def opens_append)
  qed (use 1 in \<open>auto simp: call_bind_def opens_Err\<close>)
qed

lemma acquires_else:
  assumes m: "acquires m" and k: "\<And>e. acquires (k e)"
  shows "acquires (call_bind (call_try m) (\<lambda>r. case r of Inl e \<Rightarrow> k e | Inr s \<Rightarrow> call_return s))"
  unfolding acquires_def
proof
  fix h
  obtain r es where 1: "m h = (r, h @ es)" "opens r es" by (rule acquiresE [OF m])
  show "\<exists>r es. call_bind (call_try m) (\<lambda>r. case r of Inl e \<Rightarrow> k e | Inr s \<Rightarrow> call_return s) h = (r, h @ es) \<and> opens r es"
  proof (cases r)
    case (Err e)
    obtain r' fs where "k e (h @ es) = (r', (h @ es) @ fs)" "opens r' fs" by (rule acquiresE [OF k])
    with 1 Err show ?thesis by (auto simp: call_bind_def call_try_def opens_Err opens_append)
  qed (use 1 in \<open>auto simp: call_bind_def call_try_def call_return_def opens_Err\<close>)
qed

lemma closing_session:
  assumes m: "acquires m" and k: "\<And>s. traced (closing (insert s S)) (k s)"
  shows "traced (closing S) (call_bind m (\<lambda>s. deferring_close s (k s)))"
  unfolding traced_def
proof
  fix h
  obtain r es where 1: "m h = (r, h @ es)" "opens r es" by (rule acquiresE [OF m])
  show "\<exists>r es. call_bind m (\<lambda>s. deferring_close s (k s)) h = (r, h @ es) \<and> closing S es"
  proof (cases r)
    case (Ok s)
    obtain r' fs where 2: "k s (h @ es) = (r', (h @ es) @ fs)" "closing (insert s S) fs" by (rule tracedE [OF k])
    have "\<exists>T'. run_sessions T (es @ fs @ [SessionClosed s]) = Some T' \<and> T' \<subseteq> T" if "S \<subseteq> T" for T
    proof -
      obtain T' where "run_sessions (insert s T) fs = Some T'" "T' \<subseteq> insert s T"
        using 2(2) [unfolded closing_def, rule_format, of "insert s T"] \<open>S \<subseteq> T\<close> by auto
      moreover have "run_sessions T es = Some (insert s T)" using 1(2) Ok by (simp add: opens_def)
      ultimately show ?thesis by (auto simp: run_sessions_append)
    qed
    then have "closing S (es @ fs @ [SessionClosed s])" by (simp add: closing_def)
    with 1 2 Ok show ?thesis by (auto simp: call_bind_def deferring_close_def)
  qed (use 1 in \<open>auto simp: call_bind_def closing_def opens_def\<close>)
qed

lemma acquires_reconnect_attempts: "acquires (reconnect_attempts C addr passcode d failed n e)"
proof (induction n arbitrary: e)
  case (Suc n)
  then have "acquires (if n = 0 then reconnect_attempts C addr passcode d failed n e
      else call_bind (wait_for C d) (\<lambda>_. reconnect_attempts C addr passcode d failed n e))" for e
    by (auto intro!: acquires_after traced_wait)
  then show ?case by (simp only: reconnect_attempts.simps) (intro acquires_else acquires_establish)
qed (simp add: acquires_raise)

lemma acquires_reconnect: "acquires (reconnectPASEAfterAddNOC C addr passcode)"
  unfolding reconnectPASEAfterAddNOC_def Let_def
  by (intro acquires_after traced_wait acquires_reconnect_attempts) simp_all

lemma acquires_case_attempts: "acquires (case_attempts C addr nodeID failed ws e)"
proof (induction ws arbitrary: e)
  case (Cons w ws)
  then show ?case by (simp only: case_attempts.simps) (intro acquires_after acquires_else acquires_establish traced_wait steady_simps)
qed (simp add: acquires_raise)

lemmas steady_parts = traced_works [OF works_prepare] traced_works [OF works_attest]
  traced_works [OF works_give_credentials] traced_works [OF works_provision]
  traced_works [OF leaves_works [OF leaves_armFailsafe]] traced_works [OF leaves_works [OF leaves_commissioningComplete]]
  traced_works [OF leaves_works [OF leaves_readDeviceInfo]] traced_works [OF leaves_works [OF leaves_check_network]]

lemma closing_readDeviceInfo: "traced (closing (insert s S)) (readDeviceInfo C s a)"
  by (rule traced_mono [OF steady_parts(7) steady_closing]) (rule insertI1, assumption)

lemma closing_operate: "traced (closing S) (operate C addr nodeID d)"
proof -
  have "traced (closing (insert s S)) (complete C addr s)" for s
    unfolding complete_def by (auto intro!: closing_bind steady_parts closing_readDeviceInfo)
  then show ?thesis
    unfolding operate_def by (intro closing_bind closing_session acquires_case_attempts) simp_all
qed

lemma closing_deliver: "s \<in> S \<Longrightarrow> traced (closing S) (deliver C p creds addr s)"
  unfolding deliver_def by (auto intro!: closing_bind steady_parts closing_operate)

lemma closing_rearm:
  assumes "s \<in> S" shows "traced (closing S) (rearm C p creds addr s)"
proof -
  have 1: "traced (closing S) (call_bind (note_event (SessionClosed s)) (\<lambda>_. call_raise e))" for e
    by (simp add: traced_def call_bind_def note_event_def call_raise_def)
  have "traced (closing S) (case r of
        Inl e \<Rightarrow> call_bind (note_event (SessionClosed s)) (\<lambda>_.
          call_raise (Errorw ''commissioning: re-arming failsafe after BLE reconnect'' e))
      | Inr _ \<Rightarrow> deliver C p creds addr s)" for r :: "err + unit"
    by (cases r) (simp_all only: sum.case 1 closing_deliver [OF assms])
  then show ?thesis
    unfolding rearm_def by (intro closing_bind) (simp_all add: steady_parts assms)
qed

lemma closing_join: "s \<in> S \<Longrightarrow> traced (closing S) (join_network C s p addr passcode d)"
  unfolding join_network_def
  by (auto intro!: closing_operate closing_deliver closing_rearm closing_session acquires_wrap acquires_reconnect
      split: option.split)

lemma closing_over_pase: "traced (closing {s}) (commission_over_pase C s p addr passcode)"
  unfolding commission_over_pase_def Let_def
  by (intro closing_bind closing_join) (auto intro!: steady_parts)

lemma steady_setup_of: "traced (steady {}) (setup_of p)"
  unfolding setup_of_def by (auto intro!: steady_bind)

lemma closing_Commission: "traced (closing {}) (Commission C params)"
proof -
  have "traced (closing {}) (commission_at C p passcode addr)" for p passcode addr
    unfolding commission_at_def by (intro closing_bind closing_session acquires_wrap acquires_establish closing_over_pase) simp
  then show ?thesis
    unfolding Commission_def Let_def
    by (intro closing_bind steady_setup_of) (auto simp only: split_paired_all prod.case intro!: closing_bind traced_ask steady_simps
      simp: traced_wrap traced_event)
qed

text \<open>
  C24 Whatever happens, a commissioning uses only sessions it has opened and not yet closed, and every
  session it opened, for the passcode, the reconnection or the operational network, is closed in the end.
\<close>

theorem commission_releases_sessions: "run_sessions {} (snd (Commission C params [])) = Some {}"
proof -
  obtain r es where "Commission C params [] = (r, [] @ es)" "closing {} es" by (rule tracedE [OF closing_Commission])
  then show ?thesis unfolding closing_def by (metis append_Nil empty_subsetI snd_conv subset_empty)
qed

subsection \<open>Attempts and waiting\<close>

definition n_PASE :: "history \<Rightarrow> nat" where
  "n_PASE es = length (filter (\<lambda>e. case e of PASE _ _ _ \<Rightarrow> True | _ \<Rightarrow> False) es)"

definition n_CASE :: "history \<Rightarrow> nat" where
  "n_CASE es = length (filter (\<lambda>e. case e of CASE _ _ _ \<Rightarrow> True | _ \<Rightarrow> False) es)"

definition waited :: "history \<Rightarrow> int" where
  "waited es = sum_list (map (\<lambda>e. case e of Waited d \<Rightarrow> d | _ \<Rightarrow> 0) es)"

text \<open>The waits of a reconnection, and the most that all waits can add up to.\<close>

definition pase_waits :: "Commissioner \<Rightarrow> int list" where
  "pase_waits C =
     (let initialWait = (if BLEReconnectInitialWait C \<noteq> 0 then BLEReconnectInitialWait C else bleReconnectInitialWait);
          retryInterval = (if BLEReconnectRetryInterval C \<noteq> 0 then BLEReconnectRetryInterval C else bleReconnectRetryInterval);
          maxAttempts = (if BLEReconnectMaxAttempts C > 0 then BLEReconnectMaxAttempts C else bleReconnectMaxAttempts)
      in initialWait # replicate (nat maxAttempts - 1) retryInterval)"

definition wait_limit :: "Commissioner \<Rightarrow> int" where
  "wait_limit C = sum_list (map (max 0) (pase_waits C @ case_waits C False))"

definition costs :: "nat \<Rightarrow> nat \<Rightarrow> int \<Rightarrow> history \<Rightarrow> bool" where
  "costs i j w es \<longleftrightarrow> n_PASE es \<le> i \<and> n_CASE es \<le> j \<and> waited es \<le> w"

lemmas counts = n_PASE_def n_CASE_def waited_def costs_def

lemma costs_append: "costs i j w es \<Longrightarrow> costs i' j' w' fs \<Longrightarrow> costs (i + i') (j + j') (w + w') (es @ fs)"
  by (simp add: counts)

lemma costs_mono: "costs i j w es \<Longrightarrow> i \<le> i' \<Longrightarrow> j \<le> j' \<Longrightarrow> w \<le> w' \<Longrightarrow> costs i' j' w' es"
  by (simp add: costs_def)

lemma costs_bind:
  assumes "traced (costs i j w) m" and "\<And>x. traced (costs i' j' w') (k x)" and "0 \<le> w'"
  shows "traced (costs (i + i') (j + j') (w + w')) (call_bind m k)"
  by (rule traced_bind [where P = "costs i j w" and Q = "costs i' j' w'"])
    (use assms in \<open>auto intro: costs_append costs_mono\<close>)

text \<open>Parts that neither try nor wait.\<close>

lemma costs_first: "traced (costs 0 0 0) m \<Longrightarrow> (\<And>x. traced (costs i j w) (k x)) \<Longrightarrow> 0 \<le> w \<Longrightarrow> traced (costs i j w) (call_bind m k)"
  using costs_bind [of 0 0 0 m i j w k] by simp

lemma costs_works: "leaves (works_on s) m \<Longrightarrow> traced (costs 0 0 0) m"
proof -
  have "costs 0 0 0 es" if "list_all (works_on s) es" for es
    using that by (induction es) (auto simp: counts split: event.split)
  then show "leaves (works_on s) m \<Longrightarrow> traced (costs 0 0 0) m"
    unfolding leaves_def using traced_mono [of "list_all (works_on s)" m "costs 0 0 0"] by blast
qed

lemma costs_close: "traced (costs i j w) m \<Longrightarrow> traced (costs i j w) (deferring_close s m)"
  by (erule traced_close) (simp add: counts)

lemma costs_simps [simp]:
  "costs i j w [] \<longleftrightarrow> 0 \<le> w" "costs i j w [Progress a] \<longleftrightarrow> 0 \<le> w" "costs i j w [SessionClosed s] \<longleftrightarrow> 0 \<le> w"
  "costs i j w [Discovered disc caps r] \<longleftrightarrow> 0 \<le> w" "costs i j w [Waited d] \<longleftrightarrow> d \<le> w"
  "costs i j w [PASE addr passcode res] \<longleftrightarrow> 0 < i \<and> 0 \<le> w" "costs i j w [CASE addr nodeID res] \<longleftrightarrow> 0 < j \<and> 0 \<le> w"
  by (auto simp: counts)

lemma costs_establish: "traced (costs (Suc 0) 0 0) (establish_PASE C addr passcode)" "traced (costs 0 (Suc 0) 0) (establish_CASE C addr nodeID)"
  by (auto simp: establish_PASE_def establish_CASE_def intro!: traced_ask)

lemma costs_wait: "traced (costs 0 0 (max 0 d)) (wait_for C d)" by (rule traced_wait) auto

lemma costs_reconnect_attempts:
  "traced (costs n 0 (int (n - 1) * max 0 d)) (reconnect_attempts C addr passcode d failed n e)"
proof (induction n arbitrary: e)
  case (Suc n)
  have "traced (costs (Suc 0 + n) (0 + 0) (0 + int n * max 0 d)) (reconnect_attempts C addr passcode d failed (Suc n) e)"
    unfolding reconnect_attempts.simps
  proof (rule costs_bind)
    fix r :: "err + session_handle"
    have "traced (costs (0 + n) (0 + 0) (max 0 d + int (n - 1) * max 0 d))
        (call_bind (wait_for C d) (\<lambda>_. reconnect_attempts C addr passcode d failed n e))" for e
      by (rule costs_bind [OF costs_wait Suc.IH]) simp
    moreover have "max 0 d + int (n - 1) * max 0 d = int n * max 0 d" if "n \<noteq> 0"
      using that by (cases n) (simp_all add: algebra_simps)
    ultimately show "traced (costs n 0 (int n * max 0 d)) (case r of
          Inl e \<Rightarrow> if n = 0 then reconnect_attempts C addr passcode d failed n e
            else call_bind (wait_for C d) (\<lambda>_. reconnect_attempts C addr passcode d failed n e)
        | Inr s \<Rightarrow> call_return s)" for r
      by (auto split: sum.split)
  qed (simp_all add: costs_establish)
  then show ?case by simp
qed simp

lemma sum_list_replicate_max: "sum_list (map (max 0) (replicate n (d :: int))) = int n * max 0 d"
  by (induction n) (simp_all add: algebra_simps)

lemma costs_reconnect:
  "traced (costs (length (pase_waits C)) 0 (sum_list (map (max 0) (pase_waits C)))) (reconnectPASEAfterAddNOC C addr passcode)"
proof -
  define n where "n = nat (if BLEReconnectMaxAttempts C > 0 then BLEReconnectMaxAttempts C else bleReconnectMaxAttempts)"
  have "0 < n" by (auto simp: n_def bleReconnectMaxAttempts_def)
  define d where "d = (if BLEReconnectRetryInterval C \<noteq> 0 then BLEReconnectRetryInterval C else bleReconnectRetryInterval)"
  define i where "i = (if BLEReconnectInitialWait C \<noteq> 0 then BLEReconnectInitialWait C else bleReconnectInitialWait)"
  have "traced (costs (0 + n) (0 + 0) (max 0 i + int (n - 1) * max 0 d)) (reconnectPASEAfterAddNOC C addr passcode)"
    unfolding reconnectPASEAfterAddNOC_def Let_def n_def [symmetric] d_def [symmetric] i_def [symmetric]
    by (rule costs_bind [OF costs_wait costs_reconnect_attempts]) simp
  with \<open>0 < n\<close> show ?thesis
    unfolding pase_waits_def Let_def n_def [symmetric] d_def [symmetric] i_def [symmetric]
    by (simp add: sum_list_replicate_max of_nat_diff del: map_replicate)
qed

lemma costs_case_attempts: "traced (costs 0 (length ws) (sum_list (map (max 0) ws))) (case_attempts C addr nodeID failed ws e)"
proof (induction ws arbitrary: e)
  case (Cons w ws)
  have nonneg: "0 \<le> sum_list (map (max 0) ws)" by (rule sum_list_nonneg) auto
  have "traced (costs (0 + (0 + 0)) (0 + (Suc 0 + length ws)) (max 0 w + (0 + sum_list (map (max 0) ws))))
      (case_attempts C addr nodeID failed (w # ws) e)"
    unfolding case_attempts.simps
    by (intro costs_bind costs_wait) (auto simp: nonneg costs_establish Cons.IH split: sum.split)
  then show ?case by simp
qed simp

lemma sum_list_max_nonneg [simp]: "0 \<le> sum_list (map (max (0 :: int)) ws)"
  by (rule sum_list_nonneg) auto

lemma case_waits_le:
  "length (case_waits C d) \<le> 3"
  "sum_list (map (max 0) (case_waits C d)) \<le> sum_list (map (max 0) (case_waits C False))"
  by (auto simp: case_waits_def Let_def eval_nat_numeral)

abbreviation case_limit :: "Commissioner \<Rightarrow> int" where
  "case_limit C \<equiv> sum_list (map (max 0) (case_waits C False))"

lemma costs_operate: "traced (costs 0 3 (case_limit C)) (operate C addr nodeID d)"
proof -
  let ?n = "length (case_waits C d)" and ?w = "sum_list (map (max 0) (case_waits C d))"
  have "traced (costs (0 + 0) (?n + 0) (?w + 0))
      (call_bind (case_attempts C addr nodeID failed (case_waits C d) e) (\<lambda>s. deferring_close s (complete C addr s)))" for failed e
  proof (rule costs_bind [OF costs_case_attempts costs_close])
    show "traced (costs 0 0 0) (complete C addr s)" for s
      by (rule costs_works [of s]) (auto simp: complete_def intro!: works_rules)
  qed simp
  then have "traced (costs 0 ?n ?w) (operate C addr nodeID d)"
    unfolding operate_def by (auto intro: costs_first)
  then show ?thesis by (rule traced_mono) (auto intro: costs_mono [OF _ _ case_waits_le])
qed

lemma costs_deliver: "traced (costs 0 3 (case_limit C)) (deliver C p creds addr s)"
  unfolding deliver_def by (intro costs_first costs_works [OF works_provision] costs_operate) simp

lemma costs_rearm: "traced (costs 0 3 (case_limit C)) (rearm C p creds addr s)"
  unfolding rearm_def
  by (intro costs_first) (auto intro!: costs_works [OF leaves_works [OF leaves_armFailsafe]] costs_deliver costs_first split: sum.split)

lemma costs_join: "traced (costs (length (pase_waits C)) 3 (wait_limit C)) (join_network C s p addr passcode d)"
proof -
  let ?n = "length (pase_waits C)" and ?p = "sum_list (map (max 0) (pase_waits C))"
  have limit: "wait_limit C = ?p + case_limit C" by (simp add: wait_limit_def)
  have direct: "traced (costs ?n 3 (wait_limit C)) m" if "traced (costs 0 3 (case_limit C)) m" for m :: "(history, CommissioningResult) call"
    using that by (rule traced_mono) (rule costs_mono, auto simp: limit)
  have "traced (costs (?n + 0) (0 + 3) (?p + case_limit C)) (call_bind (call_wrap what (reconnectPASEAfterAddNOC C addr passcode))
      (\<lambda>s'. deferring_close s' (rearm C p creds addr s')))" for what creds
    by (rule costs_bind) (simp_all add: costs_reconnect costs_close costs_rearm)
  then show ?thesis
    unfolding join_network_def
    by (auto intro!: direct [unfolded limit] costs_operate costs_deliver simp: limit split: option.split)
qed

lemma wait_limit_nonneg [simp]: "0 \<le> wait_limit C"
  unfolding wait_limit_def by (rule sum_list_max_nonneg)

lemma costs_over_pase: "traced (costs (length (pase_waits C)) 3 (wait_limit C)) (commission_over_pase C s p addr passcode)"
  unfolding commission_over_pase_def Let_def
  by (intro costs_first costs_works [OF works_prepare] costs_works [OF works_attest] costs_works [OF works_give_credentials]
      costs_works [OF leaves_works [OF leaves_check_network]] costs_join) simp_all

lemma costs_Commission: "traced (costs (Suc (length (pase_waits C))) 3 (wait_limit C)) (Commission C params)"
proof -
  have parsing: "traced (costs 0 0 0) (setup_of p)" for p
    unfolding setup_of_def by (auto intro!: costs_first)
  have pase: "traced (costs (Suc 0 + length (pase_waits C)) (0 + 3) (0 + wait_limit C))
      (call_bind (call_wrap what (establish_PASE C addr passcode)) (\<lambda>s.
       deferring_close s (commission_over_pase C s p addr passcode)))" for p passcode addr what
    by (rule costs_bind) (simp_all add: costs_establish costs_close costs_over_pase)
  have "traced (costs (Suc (length (pase_waits C))) 3 (wait_limit C)) (commission_at C p passcode addr)" for p passcode addr
    unfolding commission_at_def by (rule costs_first, simp, rule pase [simplified]) simp
  then have "traced (costs (Suc (length (pase_waits C))) 3 (wait_limit C)) (call_bind (reportProgress StepDiscover) (\<lambda>_.
      call_bind (call_wrap ''commissioning: discovering device''
        (ask (\<lambda>h. cm_Discover C h discriminator caps) (Discovered discriminator caps))) (commission_at C p passcode)))"
    for p passcode discriminator caps
    by (intro costs_first) (auto intro!: traced_ask)
  then show ?thesis
    unfolding Commission_def Let_def
    by (intro costs_first parsing) (simp_all only: split_paired_all prod.case wait_limit_nonneg)
qed

text \<open>
  C26 A commissioning tries at most three times to reach the device on its network and at most once more
  than the configured attempts to reach it over BLE, and all its waits together stay below a limit that
  depends on the configuration only: 35 seconds if nothing is overridden.
\<close>

theorem commission_attempts_bounded:
  "n_CASE (snd (Commission C params [])) \<le> 3 \<and>
   n_PASE (snd (Commission C params [])) \<le>
     1 + nat (if BLEReconnectMaxAttempts C > 0 then BLEReconnectMaxAttempts C else bleReconnectMaxAttempts) \<and>
   waited (snd (Commission C params [])) \<le> wait_limit C \<and>
   wait_limit (C\<lparr>BLEReconnectInitialWait := 0, BLEReconnectRetryInterval := 0, BLEReconnectMaxAttempts := 0,
     CASEInitialWait := 0, CASERetryInterval := 0\<rparr>) = 35000"
proof -
  obtain r es where "Commission C params [] = (r, [] @ es)" "costs (Suc (length (pase_waits C))) 3 (wait_limit C) es"
    by (rule tracedE [OF costs_Commission])
  then show ?thesis
    by (auto simp: costs_def pase_waits_def wait_limit_def case_waits_def Let_def eval_nat_numeral
        bleReconnectInitialWait_def bleReconnectRetryInterval_def bleReconnectMaxAttempts_def split: if_splits)
qed

subsection \<open>The order of the steps\<close>

fun steps :: "history \<Rightarrow> CommissioningStep list" where
  "steps [] = []"
| "steps (Progress a # es) = a # steps es"
| "steps (e # es) = steps es"

lemma steps_append [simp]: "steps (es @ fs) = steps es @ steps fs"
  by (induction es rule: steps.induct) auto

definition stepping :: "nat \<Rightarrow> nat \<Rightarrow> history \<Rightarrow> bool" where
  "stepping a b es \<longleftrightarrow> sorted_wrt (<) (steps es) \<and> (\<forall>x \<in> set (steps es). a \<le> step_number x \<and> step_number x < b)"

lemma stepping_Nil [simp]: "stepping a b []" by (simp add: stepping_def)

definition quiet :: "(history, 'a) call \<Rightarrow> bool" where
  "quiet = traced (\<lambda>es. steps es = [])"

lemma quiet_sends: "leaves (sends s K) m \<Longrightarrow> quiet m"
proof -
  have "steps es = []" if "list_all (sends s K) es" for es
    using that by (induction es rule: steps.induct) auto
  then show "leaves (sends s K) m \<Longrightarrow> quiet m"
    unfolding leaves_def quiet_def using traced_mono [of "list_all (sends s K)" m "\<lambda>es. steps es = []"] by blast
qed

lemmas quiet_rules = quiet_sends [OF leaves_armFailsafe] quiet_sends [OF leaves_requestAttestation]
  quiet_sends [OF leaves_requestCSR] quiet_sends [OF leaves_addTrustedRoot] quiet_sends [OF leaves_addNOC]
  quiet_sends [OF leaves_setupNetwork] quiet_sends [OF leaves_connectNetwork] quiet_sends [OF leaves_commissioningComplete]
  quiet_sends [OF leaves_check_network] quiet_sends [OF leaves_readDeviceInfo] quiet_sends [OF leaves_read_or]
  quiet_sends [OF leaves_read(1)]

lemma quiet_simps [simp]: "quiet (call_wrap what m) \<longleftrightarrow> quiet m" "quiet (call_try m) \<longleftrightarrow> quiet m"
  "quiet (call_return x)" "quiet (call_of what r)" "quiet (call_raise e)"
  by (simp_all add: quiet_def)

lemma quiet_bind: "quiet m \<Longrightarrow> (\<And>x. quiet (k x)) \<Longrightarrow> quiet (call_bind m k)"
  unfolding quiet_def by (rule traced_bind [where P = "\<lambda>es. steps es = []" and Q = "\<lambda>es. steps es = []"]) auto

lemma quiet_ask: "(\<And>h. steps [ev (f h)] = []) \<Longrightarrow> quiet (ask f ev)"
  unfolding quiet_def by (rule traced_ask)

lemma quiet_wait: "quiet (wait_for C d)" unfolding quiet_def by (rule traced_wait) simp_all

lemma quiet_establish: "quiet (establish_PASE C addr passcode)" "quiet (establish_CASE C addr nodeID)"
  by (auto simp: establish_PASE_def establish_CASE_def intro!: quiet_ask)

lemma quiet_attempts: "quiet (reconnect_attempts C addr passcode d failed n e)" "quiet (case_attempts C addr nodeID failed ws e)"
  by (induction n arbitrary: e, auto intro!: quiet_bind quiet_wait quiet_establish split: sum.split)
    (induction ws arbitrary: e, auto intro!: quiet_bind quiet_wait quiet_establish split: sum.split)

lemma quiet_reconnect: "quiet (reconnectPASEAfterAddNOC C addr passcode)"
  by (auto simp: reconnectPASEAfterAddNOC_def Let_def intro!: quiet_bind quiet_wait quiet_attempts)

lemma stepping_quiet:
  "quiet m \<Longrightarrow> (\<And>x. traced (stepping a b) (k x)) \<Longrightarrow> traced (stepping a b) (call_bind m k)"
  unfolding quiet_def
  by (rule traced_bind [where P = "\<lambda>es. steps es = []" and Q = "stepping a b"]) (auto simp: stepping_def)

lemma stepping_report:
  "a \<le> step_number x \<Longrightarrow> step_number x < b \<Longrightarrow> (\<And>y. traced (stepping (Suc (step_number x)) b) (k y)) \<Longrightarrow>
   traced (stepping a b) (call_bind (reportProgress x) k)"
  by (rule traced_bind [where P = "(=) [Progress x]" and Q = "stepping (Suc (step_number x)) b"])
    (auto simp: stepping_def step_less Suc_le_eq)

lemma stepping_bind:
  "traced (stepping a b) m \<Longrightarrow> (\<And>x. traced (stepping b c) (k x)) \<Longrightarrow> a \<le> b \<Longrightarrow> b \<le> c \<Longrightarrow> traced (stepping a c) (call_bind m k)"
  by (rule traced_bind [where P = "stepping a b" and Q = "stepping b c"])
    (fastforce simp: stepping_def sorted_wrt_append step_less)+

lemma stepping_of_quiet: "quiet m \<Longrightarrow> traced (stepping a b) m"
  unfolding quiet_def by (erule traced_mono) (simp add: stepping_def)

lemma stepping_close: "traced (stepping a b) m \<Longrightarrow> traced (stepping a b) (deferring_close s m)"
  by (erule traced_close) (simp add: stepping_def)

lemma stepping_mono: "traced (stepping a b) m \<Longrightarrow> a' \<le> a \<Longrightarrow> traced (stepping a' b) m"
  by (erule traced_mono) (auto simp: stepping_def)

lemma stepping_prepare: "traced (stepping 3 6) (prepare C s p)"
  unfolding prepare_def
  by (intro stepping_report stepping_quiet) (simp_all add: quiet_rules stepping_of_quiet)

lemma stepping_attest: "traced (stepping 6 8) (attest C s)"
proof -
  have "traced (stepping (Suc (step_number StepAttestationRequest)) 8) (call_bind (reportProgress StepValidateAttestation) (\<lambda>_.
     case cm_Attestation C of
       None \<Rightarrow> call_return ()
     | Some v \<Rightarrow>
         call_bind (call_of ''commissioning: validating DAC chain'' (av_ValidateDAC v dacChain)) (\<lambda>_.
         call_of ''commissioning: validating attestation''
           (av_ValidateAttestation v attestation (dc_DAC dacChain) (ai_Nonce attestation)))))" for attestation dacChain
    by (rule stepping_report) (auto intro!: stepping_of_quiet quiet_bind split: option.split)
  then show ?thesis
    unfolding attest_def
    by (intro stepping_report stepping_quiet) (simp_all only: split_paired_all prod.case quiet_simps quiet_rules step_number.simps)
qed

lemma stepping_give_credentials: "traced (stepping 8 12) (give_credentials C s n)"
  unfolding give_credentials_def
  by (intro stepping_report stepping_quiet)
    (auto intro!: quiet_ask stepping_of_quiet simp: quiet_rules split: sum.split)

lemma stepping_provision: "traced (stepping 12 14) (provision C s creds)"
proof -
  have "traced (stepping 13 14) (call_bind (reportProgress StepNetworkConnect) (\<lambda>_.
         call_bind (call_try (connectNetwork C s creds)) (\<lambda>r.
         case r of
           Inl e \<Rightarrow>
             if transport_died e \<or> errors_Is e DeadlineExceeded then call_return True
             else call_raise (Errorw ''commissioning: connecting network'' e)
         | Inr _ \<Rightarrow> call_return False)))"
    by (intro stepping_report stepping_quiet) (auto intro!: stepping_of_quiet simp: quiet_rules split: sum.split)
  then show ?thesis
    unfolding provision_def
    by (intro stepping_report stepping_quiet) (auto intro!: stepping_of_quiet simp: quiet_rules split: sum.split)
qed

lemma stepping_operate: "traced (stepping 14 16) (operate C addr nodeID d)"
proof -
  have "traced (stepping 15 16) (complete C addr s)" for s
    unfolding complete_def by (intro stepping_report stepping_quiet) (auto intro!: stepping_of_quiet simp: quiet_rules)
  then show ?thesis
    unfolding operate_def by (intro stepping_report stepping_quiet stepping_close) (simp_all add: quiet_attempts)
qed

lemma stepping_deliver: "traced (stepping 12 16) (deliver C p creds addr s)"
  unfolding deliver_def by (rule stepping_bind [OF stepping_provision stepping_operate]) simp_all

lemma stepping_rearm: "traced (stepping 12 16) (rearm C p creds addr s)"
proof -
  have "quiet (call_bind (note_event (SessionClosed s)) (\<lambda>_. call_raise e))" for e :: err
    by (simp add: quiet_def traced_def call_bind_def note_event_def call_raise_def)
  then show ?thesis
    unfolding rearm_def
    by (intro stepping_quiet) (auto intro!: stepping_of_quiet stepping_deliver simp: quiet_rules split: sum.split)
qed

lemma stepping_join: "traced (stepping 12 16) (join_network C s p addr passcode d)"
  unfolding join_network_def
  by (auto intro!: stepping_mono [OF stepping_operate] stepping_deliver stepping_rearm stepping_quiet stepping_close
      simp: quiet_reconnect split: option.split)

lemma stepping_over_pase: "traced (stepping 3 16) (commission_over_pase C s p addr passcode)"
  unfolding commission_over_pase_def Let_def
  by (intro stepping_bind [OF stepping_prepare] stepping_quiet stepping_bind [OF stepping_attest]
      stepping_bind [OF stepping_give_credentials] stepping_join) (simp_all add: quiet_rules)

lemma stepping_Commission: "traced (stepping 0 16) (Commission C params)"
proof -
  have parsing: "traced (stepping 0 1) (setup_of p)" for p
    unfolding setup_of_def
    by (cases "cp_Passcode p = 0", simp_all) (rule stepping_report, simp_all add: stepping_of_quiet quiet_bind)
  have "traced (stepping (Suc (Suc 0)) 16) (commission_at C p passcode addr)" for p passcode addr
    unfolding commission_at_def
    by (intro stepping_report stepping_quiet stepping_close) (simp_all add: quiet_establish stepping_over_pase)
  then have "traced (stepping 1 16) (call_bind (reportProgress StepDiscover) (\<lambda>_.
      call_bind (call_wrap ''commissioning: discovering device''
        (ask (\<lambda>h. cm_Discover C h discriminator caps) (Discovered discriminator caps))) (commission_at C p passcode)))"
    for p passcode discriminator caps
    by (intro stepping_report stepping_quiet) (auto intro!: quiet_ask)
  then show ?thesis
    unfolding Commission_def Let_def
    by (intro stepping_bind [OF parsing]) (simp_all only: split_paired_all prod.case)
qed

text \<open>
  C27 A commissioning reports its steps in the order of their declaration, none twice and none out of
  order, whatever is skipped and wherever it stops.
\<close>

theorem commission_steps_increase: "sorted_wrt (<) (steps (snd (Commission C params [])))"
proof -
  obtain r es where "Commission C params [] = (r, [] @ es)" "stepping 0 16 es" by (rule tracedE [OF stepping_Commission])
  then show ?thesis by (simp add: stepping_def)
qed

end
