(* ===== verification/Commission_Order.thy ===== *)
theory Commission_Order
  imports Commission_Trace
begin

text \<open>
  What has happened when a command is sent.  A requirement \<open>G\<close> tells which event may follow which
  history; a rule for each way calls are composed shows that a call keeps to it, from a precondition to
  a postcondition of its result.
\<close>

subsection \<open>Requirements on the order of events\<close>

definition ordered :: "(history \<Rightarrow> event \<Rightarrow> bool) \<Rightarrow> history \<Rightarrow> bool" where
  "ordered G h \<longleftrightarrow> (\<forall>i < length h. G (take i h) (h ! i))"

lemma ordered_simps [simp]: "ordered G []" "ordered G (h @ [e]) \<longleftrightarrow> ordered G h \<and> G h e"
  by (auto simp: ordered_def nth_append less_Suc_eq)

lemma ordered_split: "ordered G (pre @ e # post) \<Longrightarrow> G pre e"
  unfolding ordered_def by (drule spec [of _ "length pre"]) simp

definition safe ::
  "(history \<Rightarrow> event \<Rightarrow> bool) \<Rightarrow> (history \<Rightarrow> bool) \<Rightarrow> (history, 'a) call \<Rightarrow> ('a \<Rightarrow> history \<Rightarrow> bool) \<Rightarrow> bool" where
  "safe G P m Q \<longleftrightarrow> (\<forall>h. ordered G h \<and> P h \<longrightarrow>
     ordered G (snd (m h)) \<and> (\<forall>x. fst (m h) = Ok x \<longrightarrow> Q x (snd (m h))))"

lemma safeD: "safe G P m Q \<Longrightarrow> ordered G h \<Longrightarrow> P h \<Longrightarrow> m h = (r, h') \<Longrightarrow> ordered G h' \<and> (\<forall>x. r = Ok x \<longrightarrow> Q x h')"
  unfolding safe_def by force

lemma safe_bind: "safe G P m Q \<Longrightarrow> (\<And>x. safe G (Q x) (k x) R) \<Longrightarrow> safe G P (call_bind m k) R"
proof -
  assume m: "safe G P m Q" and k: "\<And>x. safe G (Q x) (k x) R"
  have "ordered G (snd (call_bind m k h)) \<and> (\<forall>x. fst (call_bind m k h) = Ok x \<longrightarrow> R x (snd (call_bind m k h)))"
    if "ordered G h" "P h" for h
  proof -
    obtain r h' where mh: "m h = (r, h')" by fastforce
    note 1 = safeD [OF m that mh]
    show ?thesis
    proof (cases r)
      case (Ok x)
      obtain r' h'' where kh: "k x h' = (r', h'')" by fastforce
      show ?thesis using safeD [OF k _ _ kh] 1 mh Ok kh by (simp add: call_bind_def)
    qed (use 1 mh in \<open>simp_all add: call_bind_def\<close>)
  qed
  then show ?thesis by (simp add: safe_def)
qed

lemma safe_conseq: "safe G P m Q \<Longrightarrow> (\<And>h. P' h \<Longrightarrow> P h) \<Longrightarrow> (\<And>x h. Q x h \<Longrightarrow> Q' x h) \<Longrightarrow> safe G P' m Q'"
  unfolding safe_def by blast

lemma safe_pure:
  "(\<And>h. P h \<Longrightarrow> Q x h) \<Longrightarrow> safe G P (call_return x) Q"
  "(\<And>h x. P h \<Longrightarrow> r = Ok x \<Longrightarrow> Q x h) \<Longrightarrow> safe G P (call_of what r) Q"
  "(\<And>h x. P h \<Longrightarrow> r = Ok x \<Longrightarrow> Q x h) \<Longrightarrow> safe G P (call_res r) Q"
  "safe G P (call_raise e) Q"
  by (auto simp: safe_def call_return_def call_of_def call_res_def call_raise_def)

lemma safe_wrap: "safe G P m Q \<Longrightarrow> safe G P (call_wrap what m) Q"
  unfolding safe_def call_wrap_def by (metis snd_wrap_st wrap_st_Ok_iff prod.collapse fst_conv)

lemma safe_try:
  assumes m: "safe G P m (\<lambda>x. Q (Inr x))" and e: "\<And>h h' e. P h \<Longrightarrow> m h = (Err e, h') \<Longrightarrow> Q (Inl e) h'"
  shows "safe G P (call_try m) Q"
  unfolding safe_def
proof (intro allI impI)
  fix h assume h: "ordered G h \<and> P h"
  obtain r h' where mh: "m h = (r, h')" by fastforce
  with safeD [OF m _ _ mh] h e [of h]
  show "ordered G (snd (call_try m h)) \<and> (\<forall>x. fst (call_try m h) = Ok x \<longrightarrow> Q x (snd (call_try m h)))"
    by (cases r) (auto simp: call_try_def)
qed

lemma safe_ask: "(\<And>h. P h \<Longrightarrow> G h (ev (f h)) \<and> (\<forall>x. f h = Ok x \<longrightarrow> Q x (h @ [ev (f h)]))) \<Longrightarrow> safe G P (ask f ev) Q"
  by (simp add: safe_def ask_def)

text \<open>Facts about the past are kept by any event.\<close>

definition past :: "(history \<Rightarrow> bool) \<Rightarrow> bool" where
  "past P \<longleftrightarrow> (\<forall>h e. P h \<longrightarrow> P (h @ [e]))"

lemma pastD: "past P \<Longrightarrow> P h \<Longrightarrow> P (h @ es)"
  by (induction es rule: rev_induct) (auto simp: past_def simp flip: append_assoc)

lemma past_leaves: "leaves E m \<Longrightarrow> past P \<Longrightarrow> P h \<Longrightarrow> m h = (r, h') \<Longrightarrow> P h'"
  unfolding leaves_def by (erule tracedE [where h = h]) (auto intro: pastD)

lemma safe_leaves:
  assumes m: "leaves E m" and P: "past P" and G: "\<And>h e. P h \<Longrightarrow> E e \<Longrightarrow> G h e"
  shows "safe G P m (\<lambda>_. P)"
  unfolding safe_def
proof (intro allI impI)
  fix h assume h: "ordered G h \<and> P h"
  obtain r es where m: "m h = (r, h @ es)" and es: "list_all E es" using m unfolding leaves_def by (rule tracedE)
  have "ordered G (h @ es)" using es
  proof (induction es rule: rev_induct)
    case (snoc e es)
    with G [of "h @ es" e] pastD [OF P, of h es] h show ?case by (auto simp flip: append_assoc)
  qed (use h in simp)
  with m h pastD [OF P] show "ordered G (snd (m h)) \<and> (\<forall>x. fst (m h) = Ok x \<longrightarrow> P (snd (m h)))" by simp
qed

lemma safe_close: "safe G P m Q \<Longrightarrow> (\<And>h. G h (SessionClosed s)) \<Longrightarrow> (\<And>x. past (Q x)) \<Longrightarrow> safe G P (deferring_close s m) Q"
  unfolding safe_def deferring_close_def past_def by (fastforce split: prod.split)

subsection \<open>What a command of the flow requires\<close>

text \<open>The device has accepted a failsafe timer on this session.\<close>

definition armed :: "session_handle \<Rightarrow> history \<Rightarrow> bool" where
  "armed s h \<longleftrightarrow> (\<exists>seconds req resp. encodeArmFailsafe seconds = Ok req \<and>
     Invoked s 0 0x0030 0x00 req None (Ok resp) \<in> set h \<and> checkCommandErrorCode resp ''ArmFailSafe'' = Ok ())"

text \<open>What the device answered when it was asked for its attestation and its certificates.\<close>

definition answered :: "session_handle \<Rightarrow> AttestationInfo \<Rightarrow> DACChain \<Rightarrow> history \<Rightarrow> bool" where
  "answered s a d h \<longleftrightarrow> RandomRead (Ok (ai_Nonce a)) \<in> set h \<and>
     (\<exists>req. encodeOctetStringField 0 (ai_Nonce a) = Ok req \<and> Invoked s 0 0x003E 0x00 req None (Ok (ai_Elements a)) \<in> set h) \<and>
     (\<exists>req. encodeUintField 0 1 = Ok req \<and> Invoked s 0 0x003E 0x02 req None (Ok (dc_DAC d)) \<in> set h) \<and>
     (\<exists>req. encodeUintField 0 2 = Ok req \<and> Invoked s 0 0x003E 0x02 req None (Ok (dc_PAI d)) \<in> set h) \<and>
     ai_Signature a = ai_Elements a \<and> dc_PAA d = []"

definition attested :: "Commissioner \<Rightarrow> session_handle \<Rightarrow> history \<Rightarrow> bool" where
  "attested C s h \<longleftrightarrow> (\<exists>a d. answered s a d h \<and> (case cm_Attestation C of None \<Rightarrow> True
     | Some v \<Rightarrow> (\<exists>info. av_ValidateDAC v d = Ok info) \<and> av_ValidateAttestation v a (dc_DAC d) (ai_Nonce a) = Ok ()))"

text \<open>Credentials were issued for the device's own request, and it has the root certificate.\<close>

definition issued_for :: "session_handle \<Rightarrow> u64 \<Rightarrow> issued_noc \<Rightarrow> history \<Rightarrow> bool" where
  "issued_for s nodeID i h \<longleftrightarrow> (\<exists>csr req. Invoked s 0 0x003E 0x04 req None (Ok csr) \<in> set h \<and> NOCIssued csr nodeID (Ok i) \<in> set h)"

definition rooted :: "session_handle \<Rightarrow> issued_noc \<Rightarrow> history \<Rightarrow> bool" where
  "rooted s i h \<longleftrightarrow> (\<exists>req resp. encodeOctetStringField 0 (is_rootCert i) = Ok req \<and>
     Invoked s 0 0x003E 0x0B req (Some 10000) (Ok resp) \<in> set h)"

definition noc_sent :: "history \<Rightarrow> bool" where
  "noc_sent h \<longleftrightarrow> (\<exists>s req r. Invoked s 0 0x003E 0x06 req (Some 10000) r \<in> set h)"

definition operational :: "u64 \<Rightarrow> session_handle \<Rightarrow> history \<Rightarrow> bool" where
  "operational nodeID s h \<longleftrightarrow> (\<exists>addr. CASE addr nodeID (Ok s) \<in> set h)"

text \<open>
  A trusted root, a certificate and a network are sent over sessions with an armed failsafe; a trusted
  root to an attested device; a certificate if it was issued for the device's request and follows its
  root; a network after a certificate, and the end of commissioning after a certificate and over the
  operational network.
\<close>

fun requirement :: "Commissioner \<Rightarrow> u64 \<Rightarrow> history \<Rightarrow> event \<Rightarrow> bool" where
  "requirement C nodeID h (Invoked s ep cluster command req timed r) \<longleftrightarrow>
     (cluster = 0x003E \<and> command \<in> {0x06, 0x0B} \<longrightarrow> armed s h \<and> attested C s h) \<and>
     (cluster = 0x003E \<and> command = 0x06 \<longrightarrow> (\<exists>i. issued_for s nodeID i h \<and> rooted s i h \<and>
        encodeAddNOC (is_noc i) (is_icac i) (is_ipk i) (is_adminSubject i) = Ok req)) \<and>
     (cluster = 0x0031 \<longrightarrow> armed s h \<and> noc_sent h) \<and>
     (cluster = 0x0030 \<and> command = 0x04 \<longrightarrow> operational nodeID s h \<and> noc_sent h)"
| "requirement C nodeID h e \<longleftrightarrow> True"

definition finished_for :: "u64 \<Rightarrow> history \<Rightarrow> bool" where
  "finished_for nodeID h \<longleftrightarrow> (\<exists>s resp. operational nodeID s h \<and> Invoked s 0 0x0030 0x04 [] None (Ok resp) \<in> set h \<and>
     checkCommandErrorCode resp ''CommissioningComplete'' = Ok ())"

lemmas past_facts = armed_def answered_def attested_def issued_for_def rooted_def noc_sent_def operational_def finished_for_def

lemma past_simps [simp]:
  "past (armed s)" "past (answered s a d)" "past (issued_for s n i)" "past (rooted s i)" "past noc_sent"
  "past (operational n s)" "past (finished_for n)"
  by (force simp: past_def past_facts)+

lemma past_attested [simp]: "past (attested C s)"
proof -
  have "answered s a d (h @ [e])" if "answered s a d h" for a d h e
    using that past_simps(2) [of s a d] by (simp add: past_def)
  then show ?thesis unfolding past_def attested_def by blast
qed

lemma past_conj [simp]: "past P \<Longrightarrow> past Q \<Longrightarrow> past (\<lambda>h. P h \<and> Q h)" "past (\<lambda>h. True)"
  by (auto simp: past_def)

text \<open>What a call that succeeds has left.\<close>

lemma call_bind_Ok_iff: "call_bind m k h = (Ok y, h') \<longleftrightarrow> (\<exists>x h1. m h = (Ok x, h1) \<and> k x h1 = (Ok y, h'))"
  by (cases "m h"; cases "fst (m h)") (auto simp: call_bind_def)

lemma ask_iff: "ask f ev h = (r, h') \<longleftrightarrow> f h = r \<and> h' = h @ [ev r]" by (auto simp: ask_def)

lemma call_Ok_iff:
  "call_wrap what m h = (Ok x, h') \<longleftrightarrow> m h = (Ok x, h')" "call_of what r h = (Ok x, h') \<longleftrightarrow> r = Ok x \<and> h' = h"
  "call_res r h = (Ok x, h') \<longleftrightarrow> r = Ok x \<and> h' = h" "call_return y h = (Ok x, h') \<longleftrightarrow> x = y \<and> h' = h"
  by (auto simp: call_wrap_def wrap_st_Ok_iff call_of_def wrap_res_Ok_iff call_res_def call_return_def)

lemmas Ok_iffs = call_bind_Ok_iff call_Ok_iff ask_iff invoke_def

lemma armFailsafe_Ok: "armFailsafe C s seconds h = (Ok u, h') \<Longrightarrow> armed s h'"
  by (auto simp: armFailsafe_def Ok_iffs armed_def) blast

lemma requestAttestation_Ok: "requestAttestation C s h = (Ok (a, d), h') \<Longrightarrow> answered s a d h'"
  by (auto simp: requestAttestation_def Ok_iffs answered_def)

lemma requestCSR_Ok: "requestCSR C s h = (Ok csr, h') \<Longrightarrow> \<exists>req. Invoked s 0 0x003E 0x04 req None (Ok csr) \<in> set h'"
  by (auto simp: requestCSR_def Ok_iffs)

lemma addTrustedRoot_Ok: "addTrustedRoot C s (is_rootCert i) h = (Ok u, h') \<Longrightarrow> rooted s i h'"
  by (auto simp: addTrustedRoot_def Ok_iffs rooted_def)

lemma encoded_Ok: "proceeds m \<Longrightarrow> \<exists>bytes. encoded m = Ok bytes"
  by (erule proceedsD [where w = NewWriter]) (simp add: encoded_def call_then_def call_bind_def)

lemma encodeAddNOC_Ok: "\<exists>req. encodeAddNOC noc icac ipk adminSubject = Ok req"
  unfolding encodeAddNOC_def by (intro encoded_Ok proceeds_seq) (auto split: option.split)

lemma addNOC_sent: "addNOC C s i h = (r, h') \<Longrightarrow> noc_sent h'"
proof -
  obtain req where req: "encodeAddNOC (is_noc i) (is_icac i) (is_ipk i) (is_adminSubject i) = Ok req"
    using encodeAddNOC_Ok by blast
  have "snd (addNOC C s i h) = h @ [Invoked s 0 0x003E 0x06 req (Some 10000) (cm_Invoke C h s 0 0x003E 0x06 req (Some 10000))]"
    by (cases "cm_Invoke C h s 0 0x003E 0x06 req (Some 10000)")
      (simp_all add: addNOC_def call_bind_def call_of_def call_wrap_def invoke_def ask_def call_res_def req)
  then show "addNOC C s i h = (r, h') \<Longrightarrow> noc_sent h'" by (auto simp: noc_sent_def)
qed

subsection \<open>The flow keeps to the requirements\<close>

abbreviation keeps :: "Commissioner \<Rightarrow> u64 \<Rightarrow> (history \<Rightarrow> bool) \<Rightarrow> (history, 'a) call \<Rightarrow> ('a \<Rightarrow> history \<Rightarrow> bool) \<Rightarrow> bool" where
  "keeps C nodeID \<equiv> safe (requirement C nodeID)"

lemma safe_fact:
  assumes "safe G P m (\<lambda>_. P)" and "\<And>h h' x. m h = (Ok x, h') \<Longrightarrow> F x h'"
  shows "safe G P m (\<lambda>x h. P h \<and> F x h)"
  using assms(1) unfolding safe_def by (metis assms(2) prod.collapse)

lemma safe_also:
  assumes "safe G P m Q" and F: "\<And>h r h'. m h = (r, h') \<Longrightarrow> F h'"
  shows "safe G P m (\<lambda>x h. Q x h \<and> F h)"
proof -
  have "F (snd (m h))" for h by (rule F [of h "fst (m h)"]) simp
  with assms(1) show ?thesis unfolding safe_def by blast
qed

lemma keeps_harmless:
  assumes "leaves (sends s K) m" and "past P" and "K \<subseteq> {(0x30, 0), (0x3E, 0), (0x3E, 2), (0x3E, 4)}"
  shows "keeps C n P m (\<lambda>_. P)"
proof (rule safe_leaves [OF assms(1,2)])
  show "requirement C n h e" if "P h" and "sends s K e" for h e
    using assms(3) that(2) by (cases e) auto
qed

lemma keeps_report: "past P \<Longrightarrow> keeps C n P (reportProgress a) (\<lambda>_. P)"
  by (rule safe_leaves [where E = "(=) (Progress a)"]) auto

lemma keeps_wait: "past P \<Longrightarrow> keeps C n P (wait_for C d) (\<lambda>_. P)"
  by (rule safe_leaves [where E = "(=) (Waited d)"]) (auto simp: leaves_def intro!: traced_wait)

lemmas keeps_rules = safe_bind keeps_report keeps_harmless [OF leaves_read_or] keeps_harmless [OF leaves_read(1)]
  keeps_harmless [OF leaves_check_network]

lemma keeps_arm: "past P \<Longrightarrow> keeps C n P (armFailsafe C s seconds) (\<lambda>_ h. P h \<and> armed s h)"
  by (rule safe_fact [OF keeps_harmless [OF leaves_armFailsafe]]) (auto intro: armFailsafe_Ok)

lemma keeps_prepare: "keeps C n (\<lambda>_. True) (prepare C s p) (\<lambda>_. armed s)"
proof -
  have arm: "keeps C n (\<lambda>_. True) (armFailsafe C s seconds) (\<lambda>_. armed s)" for seconds
    by (rule safe_conseq [OF keeps_arm]) auto
  show ?thesis
    unfolding prepare_def
    by (rule safe_bind [OF keeps_report safe_bind [OF safe_wrap [OF arm] safe_bind [OF keeps_report safe_bind [OF
      keeps_harmless [OF leaves_read_or] safe_bind [OF keeps_report safe_bind [OF safe_wrap [OF
      keeps_harmless [OF leaves_read(1)]] safe_pure(1)]]]]]]) auto
qed

lemma keeps_attest: "keeps C n (armed s) (attest C s) (\<lambda>_ h. armed s h \<and> attested C s h)"
proof -
  let ?Q = "\<lambda>ad h. armed s h \<and> (case ad of (a, d) \<Rightarrow> answered s a d h)"
  have ask: "keeps C n (armed s) (requestAttestation C s) ?Q"
    by (rule safe_fact [OF keeps_harmless [OF leaves_requestAttestation]]) (auto dest: requestAttestation_Ok)
  have validate: "keeps C n (?Q (a, d)) (case cm_Attestation C of
         None \<Rightarrow> call_return ()
       | Some v \<Rightarrow>
           call_bind (call_of ''commissioning: validating DAC chain'' (av_ValidateDAC v d)) (\<lambda>_.
           call_of ''commissioning: validating attestation'' (av_ValidateAttestation v a (dc_DAC d) (ai_Nonce a))))
      (\<lambda>_ h. armed s h \<and> attested C s h)" for a d
  proof (cases "cm_Attestation C")
    case None
    then show ?thesis by (auto simp: attested_def intro!: safe_pure)
  next
    case (Some v)
    have "keeps C n (?Q (a, d)) (call_of ''commissioning: validating DAC chain'' (av_ValidateDAC v d))
        (\<lambda>_ h. ?Q (a, d) h \<and> (\<exists>info. av_ValidateDAC v d = Ok info))"
      by (rule safe_pure) auto
    moreover have "keeps C n (\<lambda>h. ?Q (a, d) h \<and> (\<exists>info. av_ValidateDAC v d = Ok info))
        (call_of ''commissioning: validating attestation'' (av_ValidateAttestation v a (dc_DAC d) (ai_Nonce a)))
        (\<lambda>_ h. armed s h \<and> attested C s h)"
      by (rule safe_pure) (auto simp: attested_def Some)
    ultimately show ?thesis by (simp add: Some safe_bind)
  qed
  show ?thesis
    unfolding attest_def
  proof (rule safe_bind [OF keeps_report safe_bind [OF safe_wrap [OF ask]]])
    fix ad :: "AttestationInfo \<times> DACChain"
    obtain a d where "ad = (a, d)" by fastforce
    then show "keeps C n (?Q ad) (case ad of (attestation, dacChain) \<Rightarrow>
        call_bind (reportProgress StepValidateAttestation) (\<lambda>_.
        case cm_Attestation C of
          None \<Rightarrow> call_return ()
        | Some v \<Rightarrow>
            call_bind (call_of ''commissioning: validating DAC chain'' (av_ValidateDAC v dacChain)) (\<lambda>_.
            call_of ''commissioning: validating attestation''
              (av_ValidateAttestation v attestation (dc_DAC dacChain) (ai_Nonce attestation)))))
        (\<lambda>_ h. armed s h \<and> attested C s h)"
      using validate [of a d] by (simp add: safe_bind [OF keeps_report])
  qed simp
qed

lemma keeps_addTrustedRoot:
  assumes "past P" and "\<And>h. P h \<Longrightarrow> armed s h \<and> attested C s h"
  shows "keeps C n P (addTrustedRoot C s (is_rootCert i)) (\<lambda>_ h. P h \<and> rooted s i h)"
proof (rule safe_fact [OF safe_leaves [OF leaves_addTrustedRoot]])
  show "requirement C n h e" if "P h" and "sends s {(0x3E, 0x0B)} e" for h e
    using assms(2) [OF that(1)] that(2) by (cases e) auto
qed (auto intro: assms addTrustedRoot_Ok)

lemma keeps_addNOC: "keeps C n (\<lambda>h. armed s h \<and> attested C s h \<and> issued_for s n i h \<and> rooted s i h) (addNOC C s i) (\<lambda>_. armed s)"
proof -
  let ?P = "\<lambda>h. armed s h \<and> attested C s h \<and> issued_for s n i h \<and> rooted s i h"
  have inv: "keeps C n (\<lambda>h. ?P h \<and> encodeAddNOC (is_noc i) (is_icac i) (is_ipk i) (is_adminSubject i) = Ok req)
      (invoke C s 0x003E 0x06 req (Some 10000)) (\<lambda>_. armed s)" for req
    unfolding invoke_def using past_simps(1) [of s] by (intro safe_ask) (auto simp: past_def)
  show ?thesis
    unfolding addNOC_def by (rule safe_bind [OF safe_pure(2) safe_bind [OF safe_wrap [OF inv] safe_pure(3)]]) auto
qed

lemma keeps_give_credentials:
  "keeps C n (\<lambda>h. armed s h \<and> attested C s h) (give_credentials C s n) (\<lambda>_ h. armed s h \<and> noc_sent h)"
proof -
  let ?P = "\<lambda>h. armed s h \<and> attested C s h"
  let ?csr = "\<lambda>csr h. \<exists>req. Invoked s 0 0x003E 0x04 req None (Ok csr) \<in> set h"
  have past_csr: "past (?csr csr)" for csr by (auto simp: past_def)
  have csr: "keeps C n ?P (requestCSR C s) (\<lambda>csr h. ?P h \<and> ?csr csr h)"
    by (rule safe_fact [OF keeps_harmless [OF leaves_requestCSR]]) (auto dest: requestCSR_Ok)
  have issue: "keeps C n (\<lambda>h. ?P h \<and> ?csr csr h) (ask (\<lambda>h. cm_IssueNOC C h csr n) (NOCIssued csr n))
      (\<lambda>i h. ?P h \<and> issued_for s n i h)" for csr
    using past_simps(1) [of s] past_attested [of C s] by (intro safe_ask) (auto simp: past_def issued_for_def)
  have sent: "keeps C n (\<lambda>h. (?P h \<and> issued_for s n i h) \<and> rooted s i h) (call_try (addNOC C s i))
      (\<lambda>_ h. armed s h \<and> noc_sent h)" for i
  proof (rule safe_try)
    show "keeps C n (\<lambda>h. (?P h \<and> issued_for s n i h) \<and> rooted s i h) (addNOC C s i) (\<lambda>_ h. armed s h \<and> noc_sent h)"
      by (rule safe_conseq [OF safe_also [OF keeps_addNOC [of C n s i], where F = noc_sent]]) (auto intro: addNOC_sent)
    show "armed s h' \<and> noc_sent h'" if "(?P h \<and> issued_for s n i h) \<and> rooted s i h" "addNOC C s i h = (Err e, h')" for h h' e
      using past_leaves [OF leaves_addNOC past_simps(1) _ that(2)] addNOC_sent [OF that(2)] that(1) by blast
  qed
  have done_: "keeps C n (\<lambda>h. armed s h \<and> noc_sent h) (case r of
       Inr _ \<Rightarrow> call_return False
     | Inl e \<Rightarrow>
         if transport_died e \<or> errors_Is e DeadlineExceeded then call_return True
         else call_raise (Errorw ''commissioning: adding NOC'' e)) (\<lambda>_ h. armed s h \<and> noc_sent h)" for r :: "err + unit"
    by (auto intro!: safe_pure split: sum.split)
  show ?thesis
    unfolding give_credentials_def
    by (rule safe_bind [OF keeps_report safe_bind [OF safe_wrap [OF csr] safe_bind [OF keeps_report safe_bind [OF safe_wrap [OF issue]
      safe_bind [OF keeps_report safe_bind [OF safe_wrap [OF keeps_addTrustedRoot] safe_bind [OF keeps_report
      safe_bind [OF sent done_]]]]]]]])
      (simp_all add: past_csr)
qed

lemma keeps_over_network:
  assumes "leaves (sends s K) m" and "K \<subseteq> {(0x31, 2), (0x31, 3), (0x31, 6)}"
  shows "keeps C n (\<lambda>h. armed s h \<and> noc_sent h) m (\<lambda>_ h. armed s h \<and> noc_sent h)"
proof (rule safe_leaves [OF assms(1)])
  show "requirement C n h e" if "armed s h \<and> noc_sent h" and "sends s K e" for h e
    using that assms(2) by (cases e) auto
qed simp

lemma keeps_try:
  "leaves E m \<Longrightarrow> past P \<Longrightarrow> safe G P m (\<lambda>_. P) \<Longrightarrow> safe G P (call_try m) (\<lambda>_. P)"
  by (rule safe_try) (auto intro: past_leaves)

lemma keeps_provision: "keeps C n (\<lambda>h. armed s h \<and> noc_sent h) (provision C s creds) (\<lambda>_. noc_sent)"
proof -
  let ?P = "\<lambda>h. armed s h \<and> noc_sent h"
  have connect: "keeps C n ?P (call_bind (reportProgress StepNetworkConnect) (\<lambda>_.
       call_bind (call_try (connectNetwork C s creds)) (\<lambda>r.
       case r of
         Inl e \<Rightarrow>
           if transport_died e \<or> errors_Is e DeadlineExceeded then call_return True
           else call_raise (Errorw ''commissioning: connecting network'' e)
       | Inr _ \<Rightarrow> call_return False))) (\<lambda>_. noc_sent)"
    by (rule safe_bind [OF keeps_report safe_bind [OF keeps_try [OF leaves_connectNetwork]]])
      (auto intro!: safe_pure keeps_over_network [OF leaves_connectNetwork] split: sum.split)
  show ?thesis
    unfolding provision_def
    by (rule safe_bind [OF keeps_report safe_bind [OF keeps_try [OF leaves_setupNetwork]]])
      (auto intro!: safe_pure connect keeps_over_network [OF leaves_setupNetwork] split: sum.split)
qed

lemma keeps_establish:
  "keeps C n P (establish_CASE C addr nodeID) (\<lambda>s h. True)" "past P \<Longrightarrow> keeps C n P (establish_PASE C addr passcode) (\<lambda>_. P)"
  by (auto simp: establish_CASE_def establish_PASE_def past_def intro!: safe_ask)

lemma keeps_CASE: "past P \<Longrightarrow> keeps C n P (establish_CASE C addr n) (\<lambda>s h. P h \<and> operational n s h)"
  unfolding establish_CASE_def by (rule safe_ask) (auto simp: operational_def past_def)

lemma keeps_case_attempts: "past P \<Longrightarrow> keeps C n P (case_attempts C addr n failed ws e) (\<lambda>s h. P h \<and> operational n s h)"
proof (induction ws arbitrary: e)
  case (Cons w ws)
  let ?Q = "\<lambda>r h. P h \<and> (case r of Inl e \<Rightarrow> True | Inr s \<Rightarrow> operational n s h)"
  have attempt: "keeps C n P (call_try (establish_CASE C addr n)) ?Q"
  proof (rule safe_try)
    show "?Q (Inl e) h'" if "P h" and "establish_CASE C addr n h = (Err e, h')" for h h' e
      using that Cons.prems by (auto simp: establish_CASE_def ask_iff past_def)
  qed (use keeps_CASE [OF Cons.prems] in simp)
  have rest: "keeps C n (?Q r) (case r of Inl e \<Rightarrow> case_attempts C addr n failed ws e | Inr s \<Rightarrow> call_return s)
      (\<lambda>s h. P h \<and> operational n s h)" for r
    using Cons by (cases r) (auto intro!: safe_pure)
  show ?case
    unfolding case_attempts.simps by (rule safe_bind [OF keeps_wait safe_bind [OF attempt rest]]) (rule Cons.prems)
qed (simp add: safe_pure)

lemma commissioningComplete_Ok:
  "commissioningComplete C s h = (Ok u, h') \<Longrightarrow> \<exists>resp. Invoked s 0 0x0030 0x04 [] None (Ok resp) \<in> set h' \<and>
     checkCommandErrorCode resp ''CommissioningComplete'' = Ok ()"
  by (auto simp: commissioningComplete_def Ok_iffs)

lemma keeps_complete: "keeps C n (\<lambda>h. noc_sent h \<and> operational n s h) (complete C addr s) (\<lambda>_. finished_for n)"
proof -
  let ?P = "\<lambda>h. noc_sent h \<and> operational n s h"
  have "keeps C n ?P (commissioningComplete C s) (\<lambda>_ h. ?P h \<and> (\<exists>resp. Invoked s 0 0x0030 0x04 [] None (Ok resp) \<in> set h \<and>
     checkCommandErrorCode resp ''CommissioningComplete'' = Ok ()))"
  proof (rule safe_fact [OF safe_leaves [OF leaves_commissioningComplete]])
    show "requirement C n h e" if "?P h" and "sends s {(0x30, 4)} e" for h e
      using that by (cases e) auto
  qed (simp, erule commissioningComplete_Ok)
  then have "keeps C n ?P (commissioningComplete C s) (\<lambda>_. finished_for n)"
    by (rule safe_conseq) (auto simp: finished_for_def)
  then show ?thesis
    unfolding complete_def
    by (rule safe_bind [OF keeps_report safe_bind [OF safe_wrap keeps_harmless [OF leaves_readDeviceInfo]], rotated]) auto
qed

lemma keeps_operate: "keeps C n noc_sent (operate C addr n d) (\<lambda>_. finished_for n)"
  unfolding operate_def
  by (rule safe_bind [OF keeps_report safe_bind [OF keeps_case_attempts safe_close [OF keeps_complete]]]) simp_all

lemma keeps_deliver: "keeps C (cp_NodeID p) (\<lambda>h. armed s h \<and> noc_sent h) (deliver C p creds addr s) (\<lambda>_. finished_for (cp_NodeID p))"
  unfolding deliver_def by (rule safe_bind [OF keeps_provision keeps_operate])

lemma keeps_rearm: "keeps C (cp_NodeID p) noc_sent (rearm C p creds addr s) (\<lambda>_. finished_for (cp_NodeID p))"
proof -
  let ?Q = "\<lambda>r h. noc_sent h \<and> (case r of Inl e \<Rightarrow> True | Inr _ \<Rightarrow> armed s h)"
  have arm: "keeps C (cp_NodeID p) noc_sent (call_try (armFailsafe C s 900)) ?Q"
  proof (rule safe_try)
    show "keeps C (cp_NodeID p) noc_sent (armFailsafe C s 900) (\<lambda>x. ?Q (Inr x))"
      using keeps_arm [of noc_sent C "cp_NodeID p" s] by simp
  qed (auto intro: past_leaves [OF leaves_armFailsafe past_simps(5)])
  have "keeps C (cp_NodeID p) (?Q r) (case r of
       Inl e \<Rightarrow> call_bind (note_event (SessionClosed s)) (\<lambda>_.
         call_raise (Errorw ''commissioning: re-arming failsafe after BLE reconnect'' e))
     | Inr _ \<Rightarrow> deliver C p creds addr s) (\<lambda>_. finished_for (cp_NodeID p))" for r :: "err + unit"
  proof (cases r)
    case (Inl e)
    then show ?thesis by (auto simp: safe_def call_bind_def note_event_def call_raise_def)
  next
    case (Inr u)
    with safe_conseq [OF keeps_deliver [of C p s creds addr]] show ?thesis by (simp add: conj_commute)
  qed
  then show ?thesis unfolding rearm_def by (intro safe_bind [OF arm])
qed

lemma leaves_reconnect: "leaves (\<lambda>e. case e of PASE _ _ _ \<Rightarrow> True | Waited _ \<Rightarrow> True | _ \<Rightarrow> False) (reconnectPASEAfterAddNOC C addr passcode)"
proof -
  let ?E = "\<lambda>e. case e of PASE _ _ _ \<Rightarrow> True | Waited _ \<Rightarrow> True | _ \<Rightarrow> False"
  have wait: "leaves ?E (wait_for C d)" for d by (auto simp: leaves_def intro!: traced_wait)
  have "leaves ?E (reconnect_attempts C addr passcode d failed n e)" for d failed n e
    by (induction n arbitrary: e) (auto simp: establish_PASE_def intro!: leaves_rules wait split: sum.split)
  then show ?thesis by (auto simp: reconnectPASEAfterAddNOC_def Let_def intro!: leaves_rules wait)
qed

lemma keeps_reconnect: "past P \<Longrightarrow> keeps C n P (reconnectPASEAfterAddNOC C addr passcode) (\<lambda>_. P)"
  by (rule safe_leaves [OF leaves_reconnect]) (auto split: event.splits)

lemma keeps_join:
  "keeps C (cp_NodeID p) (\<lambda>h. armed s h \<and> noc_sent h) (join_network C s p addr passcode d) (\<lambda>_. finished_for (cp_NodeID p))"
proof -
  have "keeps C (cp_NodeID p) (\<lambda>h. armed s h \<and> noc_sent h) (operate C addr (cp_NodeID p) d) (\<lambda>_. finished_for (cp_NodeID p))" for d
    by (rule safe_conseq [OF keeps_operate]) auto
  moreover have "keeps C (cp_NodeID p) (\<lambda>h. armed s h \<and> noc_sent h)
      (call_bind (call_wrap what (reconnectPASEAfterAddNOC C addr passcode)) (\<lambda>s'. deferring_close s' (rearm C p creds addr s')))
      (\<lambda>_. finished_for (cp_NodeID p))" for what creds
    by (rule safe_conseq [OF safe_bind [OF safe_wrap [OF keeps_reconnect] safe_close [OF keeps_rearm]]]) auto
  ultimately show ?thesis
    unfolding join_network_def by (simp add: keeps_deliver split: option.split)
qed

lemma keeps_over_pase:
  "keeps C (cp_NodeID p) (\<lambda>_. True) (commission_over_pase C s p addr passcode) (\<lambda>_. finished_for (cp_NodeID p))"
proof -
  have [simp]: "cp_NodeID (discard_credentials p) = cp_NodeID p" by (simp add: discard_credentials_def)
  show ?thesis
    unfolding commission_over_pase_def Let_def
    using keeps_join [of C "discard_credentials p" s addr passcode]
    by (intro safe_bind [OF keeps_prepare safe_bind [OF keeps_harmless [OF leaves_check_network] safe_bind [OF keeps_attest
      safe_bind [OF _ _]]]]) (auto intro: keeps_give_credentials)
qed

lemma keeps_Commission:
  "keeps C (cp_NodeID params) (\<lambda>_. True) (Commission C params) (\<lambda>_. finished_for (cp_NodeID params))"
proof -
  define p where "p = (if cp_FailsafeSeconds params = 0 then params\<lparr>cp_FailsafeSeconds := 180\<rparr> else params)"
  have node: "cp_NodeID (found_at addr p) = cp_NodeID params" for addr by (simp add: found_at_def p_def)
  let ?G = "keeps C (cp_NodeID params)"
  have parsing: "?G (\<lambda>_. True) (setup_of p) (\<lambda>_ _. True)"
    unfolding setup_of_def by (auto intro!: safe_pure safe_bind [OF keeps_report] safe_bind [OF safe_pure(2)])
  have at: "?G (\<lambda>_. True) (commission_at C p passcode addr) (\<lambda>_. finished_for (cp_NodeID params))" for passcode addr
    unfolding commission_at_def
    by (rule safe_bind [OF keeps_report safe_bind [OF safe_wrap [OF keeps_establish(2)] safe_close]])
      (use keeps_over_pase [of C "found_at addr p" _ addr passcode] in \<open>auto simp: node\<close>)
  have "?G (\<lambda>_. True) (call_bind (reportProgress StepDiscover) (\<lambda>_.
      call_bind (call_wrap ''commissioning: discovering device''
        (ask (\<lambda>h. cm_Discover C h discriminator caps) (Discovered discriminator caps))) (commission_at C p passcode)))
      (\<lambda>_. finished_for (cp_NodeID params))" for passcode discriminator caps
    by (rule safe_bind [OF keeps_report safe_bind [OF safe_wrap [OF safe_ask] at]]) auto
  then show ?thesis
    unfolding Commission_def p_def [symmetric] Let_def
    by (intro safe_bind [OF parsing]) (simp only: split_paired_all prod.case)
qed

lemma Commission_ordered:
  "ordered (requirement C (cp_NodeID params)) (snd (Commission C params []))"
  "fst (Commission C params []) = Ok x \<Longrightarrow> finished_for (cp_NodeID params) (snd (Commission C params []))"
  using keeps_Commission [of C params] unfolding safe_def by auto

text \<open>
  C23 In a commissioning every trusted root and operational certificate is sent over a session on which
  the device has accepted a failsafe timer, and only after the device was asked for its attestation and
  the validator, if there is one, accepted the answers; the certificate is the one issued for the
  request of that device under the identifier of the parameters and follows its root.  Networks are set
  up only after that certificate was sent, over an armed session, and commissioning is completed only
  over a session established with the new identity.  A commissioning that succeeds has completed over
  such a session, and the device has accepted.
\<close>

theorem commission_order:
  "ordered (requirement C (cp_NodeID params)) (snd (Commission C params [])) \<and>
   (\<forall>x. fst (Commission C params []) = Ok x \<longrightarrow> finished_for (cp_NodeID params) (snd (Commission C params [])))"
  using Commission_ordered [of C params] by blast

text \<open>Surroundings in which every answer is empty, and where no attribute can be read.\<close>

definition bare_commissioner :: Commissioner where
  "bare_commissioner = \<lparr>cm_Discover = (\<lambda>_ _ _. Ok ''10.0.0.7:5540''), cm_EstablishPASE = (\<lambda>_ _ _. Ok 1),
     cm_EstablishCASE = (\<lambda>_ _ _. Ok 2), cm_RemoteAddress = (\<lambda>_. []), cm_Invoke = (\<lambda>_ _ _ _ _ _ _. Ok []),
     cm_ReadAttribute = (\<lambda>_ _ _ _ attribute. if attribute = 1 then Ok [] else Err (Errorf ''unreadable'')),
     cm_IssueNOC = (\<lambda>_ _ _. Ok \<lparr>is_noc = [1], is_icac = None, is_ipk = [2], is_rootCert = [3], is_adminSubject = 1\<rparr>),
     cm_Attestation = None, cm_rand_Read = (\<lambda>_. Ok (replicate 32 0)), cm_Cancelled = (\<lambda>_. None),
     BLEReconnectInitialWait = 0, BLEReconnectRetryInterval = 0, BLEReconnectMaxAttempts = 0,
     CASEInitialWait = 0, CASERetryInterval = 0\<rparr>"

definition bare_params :: CommissioningParams where
  "bare_params = \<lparr>cp_SetupCode = [], cp_Passcode = 20202021, cp_Discriminator = 3840, cp_NodeID = 5,
     cp_Network = None, cp_OnNetwork = False, cp_FailsafeSeconds = 0\<rparr>"

text \<open>A call with the same result after every history.\<close>

definition returns :: "(history, 'a) call \<Rightarrow> 'a \<Rightarrow> bool" where
  "returns m x \<longleftrightarrow> (\<forall>h. fst (m h) = Ok x)"

lemma returns_bind: "returns m x \<Longrightarrow> returns (k x) y \<Longrightarrow> returns (call_bind m k) y"
proof -
  assume m: "returns m x" and k: "returns (k x) y"
  have "fst (call_bind m k h) = Ok y" for h
    using m [unfolded returns_def, rule_format, of h] k [unfolded returns_def]
    by (cases "m h") (simp add: call_bind_def)
  then show ?thesis by (simp add: returns_def)
qed

lemma returns_simps [simp]:
  "returns (call_return x) x" "returns (reportProgress a) ()" "returns (call_of what (Ok x)) x" "returns (call_res (Ok x)) x"
  "returns m x \<Longrightarrow> returns (call_wrap what m) x" "returns m x \<Longrightarrow> returns (deferring_close s m) x"
  by (auto simp: returns_def call_return_def reportProgress_def note_event_def call_of_def call_res_def call_wrap_def
      deferring_close_def wrap_st_Ok_iff prod_eq_iff split: prod.split) (metis wrap_st_Ok_iff prod.collapse fst_conv)

lemma returns_try: "returns m x \<Longrightarrow> returns (call_try m) (Inr x)"
proof -
  assume m: "returns m x"
  have "fst (call_try m h) = Ok (Inr x)" for h
    using m [unfolded returns_def, rule_format, of h] by (cases "m h") (simp add: call_try_def)
  then show ?thesis by (simp add: returns_def)
qed

lemma returns_bare [simp]:
  "returns (invoke bare_commissioner s cluster command req timed) []"
  "returns (ask (cm_rand_Read bare_commissioner) RandomRead) (replicate 32 0)"
  "returns (establish_PASE bare_commissioner addr passcode) 1" "returns (establish_CASE bare_commissioner addr n) 2"
  "returns (wait_for bare_commissioner d) ()"
  "returns (read_attribute bare_commissioner s ep cluster 1) []"
  "checkCommandErrorCode [] name = Ok ()" "checkNOCResponse [] = Ok ()"
  by (simp_all add: returns_def invoke_def ask_def establish_PASE_def establish_CASE_def wait_for_def read_attribute_def
      bare_commissioner_def checkCommandErrorCode_def checkNOCResponse_def)

lemmas returns_steps = returns_bind [OF returns_simps(2)] returns_bind [OF returns_simps(3)]
  returns_bind [OF returns_simps(5) [OF returns_bare(1)]] returns_bind [OF returns_simps(5) [OF returns_bare(2)]]

lemma encoders_Ok:
  "\<exists>req. encodeArmFailsafe seconds = Ok req" "\<exists>req. encodeOctetStringField tag data = Ok req"
  "\<exists>req. encodeUintField tag v = Ok req"
  by (auto simp: encodeArmFailsafe_def encodeOctetStringField_def encodeUintField_def simp del: call_seq.simps
      intro!: encoded_Ok proceeds_seq)

lemma bare_commands:
  "returns (armFailsafe bare_commissioner s seconds) ()" "returns (requestCSR bare_commissioner s) []"
  "returns (addTrustedRoot bare_commissioner s cert) ()" "returns (addNOC bare_commissioner s i) ()"
  "returns (commissioningComplete bare_commissioner s) ()"
  "returns (requestAttestation bare_commissioner s)
     (\<lparr>ai_Elements = [], ai_Signature = [], ai_Nonce = replicate 32 0\<rparr>, \<lparr>dc_DAC = [], dc_PAI = [], dc_PAA = []\<rparr>)"
proof -
  obtain arm nonce cert' noc dac pai where req: "encodeArmFailsafe seconds = Ok arm"
    "encodeOctetStringField 0 (replicate 32 0) = Ok nonce" "encodeOctetStringField 0 cert = Ok cert'"
    "encodeAddNOC (is_noc i) (is_icac i) (is_ipk i) (is_adminSubject i) = Ok noc"
    "encodeUintField 0 1 = Ok dac" "encodeUintField 0 2 = Ok pai"
    using encoders_Ok encodeAddNOC_Ok by metis
  show "returns (armFailsafe bare_commissioner s seconds) ()" "returns (requestCSR bare_commissioner s) []"
    "returns (addTrustedRoot bare_commissioner s cert) ()" "returns (addNOC bare_commissioner s i) ()"
    "returns (commissioningComplete bare_commissioner s) ()"
    "returns (requestAttestation bare_commissioner s)
       (\<lparr>ai_Elements = [], ai_Signature = [], ai_Nonce = replicate 32 0\<rparr>, \<lparr>dc_DAC = [], dc_PAI = [], dc_PAA = []\<rparr>)"
    unfolding armFailsafe_def requestCSR_def addTrustedRoot_def addNOC_def commissioningComplete_def requestAttestation_def
    by (rule returns_steps | simp add: req)+
qed

lemma bare_reads: "\<exists>x. returns (read_or bare_commissioner s ep cluster attribute decode d) x" if "attribute \<noteq> 1 \<or> (\<exists>x. decode [] = Ok x)"
proof (cases "attribute = 1")
  case True
  with that obtain x where "decode [] = Ok x" by auto
  then have "returns (read_or bare_commissioner s ep cluster attribute decode d) x"
    unfolding read_or_def True by (intro returns_bind [OF returns_try [OF returns_bare(6)]]) simp
  then show ?thesis by blast
next
  case False
  then have "returns (read_or bare_commissioner s ep cluster attribute decode d) d"
    by (simp add: read_or_def returns_def read_attribute_def ask_def call_try_def call_bind_def call_return_def bare_commissioner_def)
  then show ?thesis by blast
qed

lemma returns_read: "\<exists>x. returns m x \<Longrightarrow> (\<And>x. \<exists>y. returns (k x) y) \<Longrightarrow> \<exists>y. returns (call_bind m k) y"
  by (meson returns_bind)

lemma bare_info: "\<exists>x. returns (readDeviceInfo bare_commissioner s addr) x"
proof -
  have decoders: "decodeTLVString [] = Ok []" "decodeTLVUint32Array [] = Ok []" "decodeDeviceTypeList [] = Ok []"
    by (simp_all add: decodeTLVString_def first_value_def decodeTLVUint32Array_def decodeDeviceTypeList_def decode_array_def)
  have eps: "\<exists>x. returns (read_endpoints bare_commissioner s eps) x" for eps
  proof (induction eps)
    case (Cons ep eps)
    then show ?case
      unfolding read_endpoints.simps by (intro returns_read bare_reads) (auto simp: decoders intro: returns_simps(1))
  qed (auto intro: returns_simps(1))
  show ?thesis
    unfolding readDeviceInfo_def
    by (intro returns_read bare_reads eps) (auto simp: decoders simp del: read_endpoints.simps intro: returns_simps(1))
qed

lemma bare_operate: "\<exists>x. returns (operate bare_commissioner addr n d) x"
proof -
  have "returns (case_attempts bare_commissioner addr n failed (w # ws) e) 2" for failed w ws e
    unfolding case_attempts.simps
    by (rule returns_bind [OF returns_bare(5) returns_bind [OF returns_try [OF returns_bare(4)]]]) simp
  then have "\<exists>s. returns (case_attempts bare_commissioner addr n failed (case_waits bare_commissioner d) e) s" for failed e
    by (auto simp: case_waits_def Let_def)
  moreover have "\<exists>x. returns (complete bare_commissioner addr s) x" for s
    unfolding complete_def using bare_info bare_commands(5) by (intro returns_read) (auto intro: returns_simps)
  then have "\<exists>x. returns (deferring_close s (complete bare_commissioner addr s)) x" for s
    by (meson returns_simps(6))
  ultimately show ?thesis
    unfolding operate_def by (intro returns_read) (auto intro: returns_simps)
qed

lemma bare_Ok: "\<exists>x. returns (Commission bare_commissioner bare_params) x"
proof -
  let ?C = bare_commissioner
  have prepare: "\<exists>x. returns (prepare ?C s p) x" for s p
    unfolding prepare_def
    by (intro returns_read bare_reads) (blast intro: returns_simps bare_commands(1) returns_bare(6) | simp)+
  have attest: "\<exists>x. returns (attest ?C s) x" for s
  proof -
    have "cm_Attestation ?C = None" by (simp add: bare_commissioner_def)
    then have "returns (attest ?C s) ()"
      unfolding attest_def
      by (intro returns_bind [OF returns_simps(2) returns_bind [OF returns_simps(5) [OF bare_commands(6)]]])
        (simp add: returns_bind [OF returns_simps(2)])
    then show ?thesis by blast
  qed
  have give: "returns (give_credentials ?C s n) False" for s n
  proof -
    have issue: "returns (ask (\<lambda>h. cm_IssueNOC ?C h csr n) (NOCIssued csr n))
        \<lparr>is_noc = [1], is_icac = None, is_ipk = [2], is_rootCert = [3], is_adminSubject = 1\<rparr>" for csr
      by (simp add: returns_def ask_def bare_commissioner_def)
    show ?thesis
      unfolding give_credentials_def
      by (rule returns_bind [OF returns_simps(2)] returns_bind [OF returns_simps(5) [OF bare_commands(2)]]
        returns_bind [OF returns_simps(5) [OF issue]] returns_bind [OF returns_simps(5) [OF bare_commands(3)]]
        returns_bind [OF returns_try [OF bare_commands(4)]])+ simp
  qed
  define p where "p = bare_params\<lparr>cp_FailsafeSeconds := 180, cp_OnNetwork := True\<rparr>"
  have "\<exists>x. returns (commission_over_pase ?C s p addr passcode) x" for s addr passcode
  proof -
    have "returns (check_network ?C s (discard_credentials p)) ()"
      by (simp add: check_network_def discard_credentials_def p_def)
    moreover have "\<exists>x. returns (join_network ?C s (discard_credentials p) addr passcode d) x" for d
      using bare_operate by (simp add: join_network_def discard_credentials_def p_def bare_params_def)
    ultimately show ?thesis
      unfolding commission_over_pase_def Let_def
      using prepare attest give by (intro returns_read) blast+
  qed
  then have "\<exists>x. returns (deferring_close s (commission_over_pase ?C s p addr passcode)) x" for s addr passcode
    by (meson returns_simps(6))
  moreover have "found_at ''10.0.0.7:5540'' (bare_params\<lparr>cp_FailsafeSeconds := 180\<rparr>) = p"
    by (simp add: found_at_def p_def bare_params_def)
  ultimately have at: "\<exists>x. returns (commission_at ?C (bare_params\<lparr>cp_FailsafeSeconds := 180\<rparr>) passcode ''10.0.0.7:5540'') x" for passcode
    unfolding commission_at_def
    by (intro returns_read) (auto intro: returns_simps(2) returns_simps(5) [OF returns_bare(3)])
  have found: "returns (ask (\<lambda>h. cm_Discover ?C h 3840 0) (Discovered 3840 0)) ''10.0.0.7:5540''"
    by (simp add: returns_def ask_def bare_commissioner_def)
  obtain x where x: "returns (commission_at ?C (bare_params\<lparr>cp_FailsafeSeconds := 180\<rparr>) 20202021 ''10.0.0.7:5540'') x"
    using at by blast
  have parsed: "setup_of (bare_params\<lparr>cp_FailsafeSeconds := 180\<rparr>) = call_return (20202021, 3840, 0)"
    by (simp add: setup_of_def bare_params_def)
  have "returns (call_bind (call_return (20202021, 3840, 0)) (\<lambda>(passcode, discriminator, caps).
      call_bind (reportProgress StepDiscover) (\<lambda>_.
      call_bind (call_wrap ''commissioning: discovering device''
        (ask (\<lambda>h. cm_Discover ?C h discriminator caps) (Discovered discriminator caps)))
        (commission_at ?C (bare_params\<lparr>cp_FailsafeSeconds := 180\<rparr>) passcode)))) x"
    by (rule returns_bind [OF returns_simps(1)], simp only: prod.case)
      (rule returns_bind [OF returns_simps(2)], rule returns_bind [OF returns_simps(5) [OF found]], rule x)
  then have "returns (Commission ?C bare_params) x"
    unfolding Commission_def Let_def by (simp add: parsed) (simp add: bare_params_def)
  then show ?thesis by blast
qed

theorem commission_order_witness:
  "\<exists>x. fst (Commission bare_commissioner bare_params []) = Ok x \<and> finished_for 5 (snd (Commission bare_commissioner bare_params []))"
proof -
  obtain x where "fst (Commission bare_commissioner bare_params []) = Ok x" using bare_Ok unfolding returns_def by blast
  with commission_order [of bare_commissioner bare_params] show ?thesis by (auto simp: bare_params_def)
qed

end
