(* ===== verification/Secure_Keys.thy ===== *)
theory Secure_Keys
  imports Crypto_Spake Im_Client
begin

text \<open>
  What the two handshakes of \<^verbatim>\<open>internal/secure\<close> share: the session keys of \<^verbatim>\<open>session_keys.go\<close>, the
  messages of the secure channel, and how they are marshalled and read back.
\<close>

subsection \<open>Session keys\<close>

definition SessionKeyLength :: nat where "SessionKeyLength = 16"

definition AttestationChallengeLength :: nat where "AttestationChallengeLength = 16"

definition DerivedKeyMaterialLength :: nat where
  "DerivedKeyMaterialLength = SessionKeyLength + SessionKeyLength + AttestationChallengeLength"

definition sessionKeysInfo :: "byte list" where "sessionKeysInfo = ascii ''SessionKeys''"

lemmas key_lengths [const_defs] =
  SessionKeyLength_def AttestationChallengeLength_def DerivedKeyMaterialLength_def

record SessionKeys =
  I2RKey :: "byte list"
  R2IKey :: "byte list"
  AttestationChallenge :: "byte list"

definition split_keys :: "byte list \<Rightarrow> SessionKeys" where
  "split_keys keys = \<lparr>I2RKey = take SessionKeyLength keys,
     R2IKey = take SessionKeyLength (drop SessionKeyLength keys),
     AttestationChallenge = drop (2 * SessionKeyLength) keys\<rparr>"

definition DeriveSessionKeys :: "suite \<Rightarrow> byte list \<Rightarrow> SessionKeys res" where
  "DeriveSessionKeys S sharedSecret =
     (if sharedSecret = [] then Err (Errorf ''secure: shared secret must not be empty'')
      else bind_res (wrap_res ''secure: deriving session keys''
          (HKDFSHA256 S sharedSecret [] sessionKeysInfo DerivedKeyMaterialLength)) (\<lambda>keys. Ok (split_keys keys)))"

text \<open>Keys as a secured session needs them.\<close>

definition good_keys :: "SessionKeys \<Rightarrow> bool" where
  "good_keys k \<longleftrightarrow> length (I2RKey k) = 16 \<and> length (R2IKey k) = 16 \<and> length (AttestationChallenge k) = 16"

lemma good_split_keys: "length keys = 48 \<Longrightarrow> good_keys (split_keys keys)"
  by (simp add: good_keys_def split_keys_def const_defs)

lemma DeriveSessionKeys_ok:
  assumes "kdf_laws S" and "secret \<noteq> []"
  obtains k where "DeriveSessionKeys S secret = Ok k" and "good_keys k"
proof -
  have n: "DerivedKeyMaterialLength \<le> 255 * 32" by (simp add: const_defs)
  obtain out where "HKDFSHA256 S secret [] sessionKeysInfo DerivedKeyMaterialLength = Ok out"
      "length out = DerivedKeyMaterialLength"
    by (rule HKDF_ok [OF assms(1) n])
  then show ?thesis using that assms(2) good_split_keys [of out] by (simp add: DeriveSessionKeys_def const_defs)
qed

subsection \<open>Messages of the secure channel\<close>

definition ProtocolIDSecureChannel :: u16 where "ProtocolIDSecureChannel = 0x0000"
definition OpcodePBKDFParamRequest :: byte where "OpcodePBKDFParamRequest = 0x20"
definition OpcodePBKDFParamResponse :: byte where "OpcodePBKDFParamResponse = 0x21"
definition OpcodePASEPake1 :: byte where "OpcodePASEPake1 = 0x22"
definition OpcodePASEPake2 :: byte where "OpcodePASEPake2 = 0x23"
definition OpcodePASEPake3 :: byte where "OpcodePASEPake3 = 0x24"
definition OpcodeStatusReport :: byte where "OpcodeStatusReport = 0x40"
definition OpcodeSigma1 :: byte where "OpcodeSigma1 = 0x30"
definition OpcodeSigma2 :: byte where "OpcodeSigma2 = 0x31"
definition OpcodeSigma3 :: byte where "OpcodeSigma3 = 0x32"

lemmas secure_opcodes [const_defs] =
  OpcodePBKDFParamRequest_def OpcodePBKDFParamResponse_def OpcodePASEPake1_def OpcodePASEPake2_def
  OpcodePASEPake3_def OpcodeStatusReport_def OpcodeSigma1_def OpcodeSigma2_def OpcodeSigma3_def

definition secure_message :: "byte \<Rightarrow> byte list \<Rightarrow> Message" where
  "secure_message opcode payload =
     \<lparr>Header = \<lparr>Flags = 0, SessionID = 0, SecurityFlags = 0, MessageCounter = 0, SourceNodeID = 0,
        HasSourceNodeID = False, DestinationNodeID = 0, HasDestinationNodeID = False,
        DestinationGroupID = 0, HasDestinationGroupID = False\<rparr>,
      Protocol = \<lparr>ExchangeFlags = ExFlagReliable, ProtocolOpcode = opcode, ExchangeID = 0,
        ProtocolID = ProtocolIDSecureChannel, VendorID = 0, HasVendorID = False,
        AckMessageCounter = 0, HasAckCounter = False\<rparr>,
      Payload = payload\<rparr>"

definition sendSecureChannelMsg :: "Exchange \<Rightarrow> byte \<Rightarrow> byte list \<Rightarrow> unit io" where
  "sendSecureChannelMsg ex opcode payload s =
     (case Exchange_Send ex (secure_message opcode payload) of
        (e, m) \<Rightarrow> io_check (map_option IErr e) (s\<lparr>outbox := outbox s @ [m]\<rparr>))"

lemma sendSecureChannelMsg_quiet:
  "quiet (ex_SendFunc ex) \<Longrightarrow> sendSecureChannelMsg ex op payload s =
     (Val (), s\<lparr>outbox := outbox s @ [stamped ex (secure_message op payload)]\<rparr>)"
  by (simp add: sendSecureChannelMsg_def Exchange_Send_quiet io_defs)

text \<open>A method of the initiator inside an operation on an exchange; its state goes to the continuation.\<close>

definition side :: "string \<Rightarrow> ('s, 'a) call \<Rightarrow> 's \<Rightarrow> ('a \<Rightarrow> 's \<Rightarrow> 'b io) \<Rightarrow> 'b io" where
  "side what m p k = (case m p of (r, p) \<Rightarrow> io_bind (io_wrap what (io_of r)) (\<lambda>x. k x p))"

text \<open>The last message is only looked at for its opcode.\<close>

definition want_status_report :: "Message \<Rightarrow> unit io" where
  "want_status_report msg =
     (if opcode_of msg \<noteq> OpcodeStatusReport
      then io_fail (IErr (Errorf (''secure: expected status report, got opcode 0x'' @ fmt_02x (opcode_of msg))))
      else io_return ())"

text \<open>\<^verbatim>\<open>%0kX\<close> of an integer of \<open>4k\<close> bits.\<close>

definition fmt_X :: "nat \<Rightarrow> 'a::len word \<Rightarrow> string" where
  "fmt_X k w = concat (map fmt_02X (be_put (k div 2) w))"

definition parseStatusReportError :: "byte list \<Rightarrow> string \<Rightarrow> err" where
  "parseStatusReportError payload context =
     (if length payload < 8
      then Errorf (''secure: '' @ context @ '': malformed StatusReport (len='' @ fmt_d (length payload) @ '')'')
      else Errorf (''secure: '' @ context @ '': StatusReport general=0x'' @ fmt_X 4 (le_get (take 2 payload) :: u16) @
        '' protocol=0x'' @ fmt_X 8 (le_get (take 4 (drop 2 payload)) :: u32) @
        '' code=0x'' @ fmt_X 4 (le_get (take 2 (drop 6 payload)) :: u16)))"

subsection \<open>Handshake messages on the wire\<close>

lemma secure_entries [simp]:
  "field_entry (name, ''1,octets'', v) = Some (1, ''octets'')" "field_entry (name, ''2,octets'', v) = Some (2, ''octets'')"
  "field_entry (name, ''3,octets'', v) = Some (3, ''octets'')" "field_entry (name, ''4,octets'', v) = Some (4, ''octets'')"
  "field_entry (name, ''4,struct'', v) = Some (4, ''struct'')"
  by (simp_all add: field_entry.simps untagged_def parseTag_def ParseUint8_def of_char_def)

lemma wire_octets: "length bs \<le> max_alloc \<Longrightarrow> wire_value ''octets'' (GBytes bs)"
  by (rule W_octets)

text \<open>A message that is marshalled and read back.\<close>

lemma sent_received:
  assumes "wire_message v" and "reader v = Some x" and "typeof v = T"
  shows "\<exists>bs. Marshal v = Ok bs \<and> decode_msg T reader bs = Ok x"
  using message_roundtrip [of v reader x T, OF assms] by metis

text \<open>A message of octet strings, byte by byte.\<close>

lemma marshal_octet_field:
  assumes "field_entry (name, tag, GBytes bs) = Some (n, ''octets'')"
  shows "marshalFields w ((name, tag, GBytes bs) # fs) =
    marshalFields (w\<lparr>w_buf := w_buf w @ elem_bytes (ContextTag n) (VBytes bs)\<rparr>) fs"
  using assms
  by (auto simp: marshalFields.simps(2) field_entry.simps marshalValue.simps PutOctetString_emits emits_def to_res_def
      wf_tag_ContextTag [unfolded wf_tag_def] split: if_splits res.splits)

lemma length_elem_bytes: "length (elem_bytes (ContextTag n) (VBytes bs)) \<le> length bs + 10"
  using nat_width_cases [of "length bs"]
  by (auto simp: elem_bytes_def head_bytes_def ContextTag_def zero_tag_def tag_bytes_simps)

lemma Marshal_GStruct:
  assumes "\<And>w. marshalFields w fs = (Ok (), w\<lparr>w_buf := w_buf w @ body\<rparr>)"
  shows "Marshal (GStruct n fs) = Ok (head_bytes AnonymousTag TypeStructure @ body @ [TypeEndOfContainer])"
  by (simp add: Marshal_def marshalStruct_def Start_emits emits_def to_res_def assms EndContainer_emits
      wf_tag_AnonymousTag [unfolded wf_tag_def] Bytes_def NewWriter_def)

end
