(* ===== verification/Pase.thy ===== *)
theory Pase
  imports Secure_Keys
begin

text \<open>
  \<^verbatim>\<open>internal/secure/pase.go\<close>: the messages of PASE, its two sides as states with one definition per
  method, and \<^verbatim>\<open>EstablishPASE\<close>, which runs the initiator over an exchange.
\<close>

subsection \<open>Messages\<close>

record PBKDFParamRequest =
  pq_InitiatorRandom :: "byte list"
  pq_InitiatorSessionID :: u16
  pq_PasscodeID :: u16
  pq_HasPBKDFParameters :: bool

record PBKDFParams =
  pp_Iterations :: u32
  pp_Salt :: "byte list"

record PBKDFParamResponse =
  ps_InitiatorRandom :: "byte list"
  ps_ResponderRandom :: "byte list"
  ps_ResponderSessionID :: u16
  ps_PBKDFParameters :: PBKDFParams

record PAKE2 =
  pake2_PB :: "byte list"
  pake2_CB :: "byte list"

definition T_PBKDFParamRequest :: gotype where
  "T_PBKDFParamRequest = KStruct ''PBKDFParamRequest''
     [(''InitiatorRandom'', ''1,octets'', KBytes), (''InitiatorSessionID'', ''2,uint'', KUint 16),
      (''PasscodeID'', ''3,uint'', KUint 16), (''HasPBKDFParameters'', ''4,bool'', KBool)]"

definition gv_PBKDFParamRequest :: "PBKDFParamRequest \<Rightarrow> goval" where
  "gv_PBKDFParamRequest m = GStruct ''PBKDFParamRequest''
     [(''InitiatorRandom'', ''1,octets'', GBytes (pq_InitiatorRandom m)),
      (''InitiatorSessionID'', ''2,uint'', g_u 16 (pq_InitiatorSessionID m)),
      (''PasscodeID'', ''3,uint'', g_u 16 (pq_PasscodeID m)),
      (''HasPBKDFParameters'', ''4,bool'', GBool (pq_HasPBKDFParameters m))]"

definition of_PBKDFParamRequest :: "goval \<Rightarrow> PBKDFParamRequest option" where
  "of_PBKDFParamRequest v = (case o_fields v of
     [a, b, c, d] \<Rightarrow> do {
       a \<leftarrow> o_bytes a; b \<leftarrow> o_u b; c \<leftarrow> o_u c; d \<leftarrow> o_bool d;
       Some \<lparr>pq_InitiatorRandom = a, pq_InitiatorSessionID = b, pq_PasscodeID = c, pq_HasPBKDFParameters = d\<rparr> }
   | _ \<Rightarrow> None)"

definition T_PBKDFParams :: gotype where
  "T_PBKDFParams = KStruct ''PBKDFParams'' [(''Iterations'', ''1,uint'', KUint 32), (''Salt'', ''2,octets'', KBytes)]"

definition gv_PBKDFParams :: "PBKDFParams \<Rightarrow> goval" where
  "gv_PBKDFParams m = GStruct ''PBKDFParams''
     [(''Iterations'', ''1,uint'', g_u 32 (pp_Iterations m)), (''Salt'', ''2,octets'', GBytes (pp_Salt m))]"

definition of_PBKDFParams :: "goval \<Rightarrow> PBKDFParams option" where
  "of_PBKDFParams v = (case o_fields v of
     [a, b] \<Rightarrow> do { a \<leftarrow> o_u a; b \<leftarrow> o_bytes b; Some \<lparr>pp_Iterations = a, pp_Salt = b\<rparr> }
   | _ \<Rightarrow> None)"

definition T_PBKDFParamResponse :: gotype where
  "T_PBKDFParamResponse = KStruct ''PBKDFParamResponse''
     [(''InitiatorRandom'', ''1,octets'', KBytes), (''ResponderRandom'', ''2,octets'', KBytes),
      (''ResponderSessionID'', ''3,uint'', KUint 16), (''PBKDFParameters'', ''4,struct'', T_PBKDFParams)]"

definition gv_PBKDFParamResponse :: "PBKDFParamResponse \<Rightarrow> goval" where
  "gv_PBKDFParamResponse m = GStruct ''PBKDFParamResponse''
     [(''InitiatorRandom'', ''1,octets'', GBytes (ps_InitiatorRandom m)),
      (''ResponderRandom'', ''2,octets'', GBytes (ps_ResponderRandom m)),
      (''ResponderSessionID'', ''3,uint'', g_u 16 (ps_ResponderSessionID m)),
      (''PBKDFParameters'', ''4,struct'', gv_PBKDFParams (ps_PBKDFParameters m))]"

definition of_PBKDFParamResponse :: "goval \<Rightarrow> PBKDFParamResponse option" where
  "of_PBKDFParamResponse v = (case o_fields v of
     [a, b, c, d] \<Rightarrow> do {
       a \<leftarrow> o_bytes a; b \<leftarrow> o_bytes b; c \<leftarrow> o_u c; d \<leftarrow> of_PBKDFParams d;
       Some \<lparr>ps_InitiatorRandom = a, ps_ResponderRandom = b, ps_ResponderSessionID = c, ps_PBKDFParameters = d\<rparr> }
   | _ \<Rightarrow> None)"

definition T_PAKE1 :: gotype where "T_PAKE1 = KStruct ''PAKE1'' [(''PA'', ''1,octets'', KBytes)]"

definition gv_PAKE1 :: "byte list \<Rightarrow> goval" where
  "gv_PAKE1 pA = GStruct ''PAKE1'' [(''PA'', ''1,octets'', GBytes pA)]"

definition T_PAKE2 :: gotype where
  "T_PAKE2 = KStruct ''PAKE2'' [(''PB'', ''1,octets'', KBytes), (''CB'', ''2,octets'', KBytes)]"

definition gv_PAKE2 :: "PAKE2 \<Rightarrow> goval" where
  "gv_PAKE2 m = GStruct ''PAKE2'' [(''PB'', ''1,octets'', GBytes (pake2_PB m)), (''CB'', ''2,octets'', GBytes (pake2_CB m))]"

definition of_PAKE2 :: "goval \<Rightarrow> PAKE2 option" where
  "of_PAKE2 v = (case o_fields v of
     [a, b] \<Rightarrow> do { a \<leftarrow> o_bytes a; b \<leftarrow> o_bytes b; Some \<lparr>pake2_PB = a, pake2_CB = b\<rparr> }
   | _ \<Rightarrow> None)"

definition T_PAKE3 :: gotype where "T_PAKE3 = KStruct ''PAKE3'' [(''CA'', ''1,octets'', KBytes)]"

definition gv_PAKE3 :: "byte list \<Rightarrow> goval" where
  "gv_PAKE3 cA = GStruct ''PAKE3'' [(''CA'', ''1,octets'', GBytes cA)]"

text \<open>A message of one octet string.\<close>

definition of_octets :: "goval \<Rightarrow> byte list option" where
  "of_octets v = (case o_fields v of [a] \<Rightarrow> o_bytes a | _ \<Rightarrow> None)"

lemmas pase_gv_defs = gv_PBKDFParamRequest_def gv_PBKDFParams_def gv_PBKDFParamResponse_def gv_PAKE1_def
  gv_PAKE2_def gv_PAKE3_def

lemma of_pase_gv [simp]:
  "of_PBKDFParamRequest (gv_PBKDFParamRequest rq) = Some rq" "of_PBKDFParams (gv_PBKDFParams ps) = Some ps"
  "of_PBKDFParamResponse (gv_PBKDFParamResponse rs) = Some rs" "of_octets (gv_PAKE1 bs) = Some bs"
  "of_PAKE2 (gv_PAKE2 p2) = Some p2" "of_octets (gv_PAKE3 bs) = Some bs"
  by (simp_all add: of_PBKDFParamRequest_def of_PBKDFParams_def of_PBKDFParamResponse_def of_octets_def
      of_PAKE2_def pase_gv_defs)

lemma typeof_pase_gv [simp]:
  "typeof (gv_PBKDFParamRequest rq) = T_PBKDFParamRequest" "typeof (gv_PBKDFParams ps) = T_PBKDFParams"
  "typeof (gv_PBKDFParamResponse rs) = T_PBKDFParamResponse" "typeof (gv_PAKE1 bs) = T_PAKE1"
  "typeof (gv_PAKE2 p2) = T_PAKE2" "typeof (gv_PAKE3 bs) = T_PAKE3"
  by (simp_all add: pase_gv_defs T_PBKDFParamRequest_def T_PBKDFParams_def T_PBKDFParamResponse_def
      T_PAKE1_def T_PAKE2_def T_PAKE3_def)

lemma wire_PBKDFParams: "length (pp_Salt ps) \<le> max_alloc \<Longrightarrow> wire_value ''struct'' (gv_PBKDFParams ps)"
  unfolding gv_PBKDFParams_def
  by (rule W_struct) (auto simp: tag_numbers_simps intro!: wire_field_plain wire_octets)

lemma wire_pase:
  "length (pq_InitiatorRandom rq) \<le> max_alloc \<Longrightarrow> wire_message (gv_PBKDFParamRequest rq)"
  "length (ps_InitiatorRandom rs) \<le> max_alloc \<Longrightarrow> length (ps_ResponderRandom rs) \<le> max_alloc \<Longrightarrow>
     length (pp_Salt (ps_PBKDFParameters rs)) \<le> max_alloc \<Longrightarrow> wire_message (gv_PBKDFParamResponse rs)"
  "length bs \<le> max_alloc \<Longrightarrow> wire_message (gv_PAKE1 bs)"
  "length (pake2_PB p2) \<le> max_alloc \<Longrightarrow> length (pake2_CB p2) \<le> max_alloc \<Longrightarrow> wire_message (gv_PAKE2 p2)"
  "length bs \<le> max_alloc \<Longrightarrow> wire_message (gv_PAKE3 bs)"
  unfolding gv_PBKDFParamRequest_def gv_PBKDFParamResponse_def gv_PAKE1_def gv_PAKE2_def gv_PAKE3_def
  by (rule wire_messageI; auto simp: tag_numbers_simps intro!: wire_field_plain wire_octets wire_PBKDFParams W_bool)+

lemma pase_sent:
  "length (pq_InitiatorRandom rq) \<le> max_alloc \<Longrightarrow> \<exists>bs. Marshal (gv_PBKDFParamRequest rq) = Ok bs \<and>
     decode_msg T_PBKDFParamRequest of_PBKDFParamRequest bs = Ok rq"
  "length (ps_InitiatorRandom rs) \<le> max_alloc \<Longrightarrow> length (ps_ResponderRandom rs) \<le> max_alloc \<Longrightarrow>
     length (pp_Salt (ps_PBKDFParameters rs)) \<le> max_alloc \<Longrightarrow> \<exists>bs. Marshal (gv_PBKDFParamResponse rs) = Ok bs \<and>
     decode_msg T_PBKDFParamResponse of_PBKDFParamResponse bs = Ok rs"
  "length pA \<le> max_alloc \<Longrightarrow> \<exists>bs. Marshal (gv_PAKE1 pA) = Ok bs \<and> decode_msg T_PAKE1 of_octets bs = Ok pA"
  "length (pake2_PB p2) \<le> max_alloc \<Longrightarrow> length (pake2_CB p2) \<le> max_alloc \<Longrightarrow>
     \<exists>bs. Marshal (gv_PAKE2 p2) = Ok bs \<and> decode_msg T_PAKE2 of_PAKE2 bs = Ok p2"
  "length cA \<le> max_alloc \<Longrightarrow> \<exists>bs. Marshal (gv_PAKE3 cA) = Ok bs \<and> decode_msg T_PAKE3 of_octets bs = Ok cA"
  by (rule sent_received; simp add: wire_pase)+

subsection \<open>The initiator\<close>

definition kSpake2pContext :: "byte list" where "kSpake2pContext = ascii ''CHIP PAKE V1 Commissioning''"

definition spake_context :: "byte list \<Rightarrow> byte list \<Rightarrow> byte list" where
  "spake_context reqBytes respBytes = Sum256 (kSpake2pContext @ reqBytes @ respBytes)"

fun bytesEqual :: "byte list \<Rightarrow> byte list \<Rightarrow> bool" where
  "bytesEqual [] [] = True"
| "bytesEqual (a # as) (b # bs) = (a = b \<and> bytesEqual as bs)"
| "bytesEqual _ _ = False"

lemma bytesEqual_iff: "bytesEqual a b \<longleftrightarrow> a = b"
  by (induction a b rule: bytesEqual.induct) auto

record PASEInitiator =
  pi_passcode :: u32
  pi_sessionID :: u16
  pi_initiatorRandom :: "byte list"
  pi_spakeContext :: "byte list"
  pi_prover :: "SPAKE2PProver option"
  pi_sessionKeys :: "SessionKeys option"

definition NewPASEInitiator :: "u32 \<Rightarrow> u16 \<Rightarrow> PASEInitiator" where
  "NewPASEInitiator passcode sid =
     \<lparr>pi_passcode = passcode, pi_sessionID = sid, pi_initiatorRandom = [], pi_spakeContext = [],
      pi_prover = None, pi_sessionKeys = None\<rparr>"

definition GeneratePBKDFParamRequest :: "byte list res \<Rightarrow> (PASEInitiator, byte list) call" where
  "GeneratePBKDFParamRequest rnd =
     call_bind (call_of ''secure: generating initiator random'' rnd) (\<lambda>random.
     call_bind (call_set (\<lambda>p. p\<lparr>pi_initiatorRandom := random\<rparr>)) (\<lambda>_ p.
     call_of ''secure: marshaling PBKDFParamRequest'' (Marshal (gv_PBKDFParamRequest
       \<lparr>pq_InitiatorRandom = random, pq_InitiatorSessionID = pi_sessionID p, pq_PasscodeID = 0,
        pq_HasPBKDFParameters = False\<rparr>)) p))"

text \<open>The random scalar of the public share is an argument.\<close>

definition ProcessPBKDFParamResponse ::
  "suite \<Rightarrow> int res \<Rightarrow> byte list \<Rightarrow> byte list \<Rightarrow> (PASEInitiator, byte list \<times> u16) call" where
  "ProcessPBKDFParamResponse S rnd reqBytes respBytes =
     call_bind (call_of ''secure: unmarshaling PBKDFParamResponse''
       (decode_msg T_PBKDFParamResponse of_PBKDFParamResponse respBytes)) (\<lambda>resp p.
     if length (ps_InitiatorRandom resp) \<noteq> 32 \<or> \<not> bytesEqual (ps_InitiatorRandom resp) (pi_initiatorRandom p)
     then call_fail ''secure: PBKDFParamResponse initiator random mismatch'' p
     else
       call_bind (call_set (\<lambda>p. p\<lparr>pi_spakeContext := spake_context reqBytes respBytes\<rparr>)) (\<lambda>_.
       call_bind (call_of ''secure: deriving SPAKE2+ values''
         (DeriveSPAKE2PValues S (pi_passcode p) (pp_Salt (ps_PBKDFParameters resp))
           (uint (pp_Iterations (ps_PBKDFParameters resp))))) (\<lambda>(w0, w1).
       call_bind (call_of ''secure: creating SPAKE2+ prover'' (NewSPAKE2PProver S w0 w1)) (\<lambda>prover.
       call_bind (call_set (\<lambda>p. p\<lparr>pi_prover := Some prover\<rparr>)) (\<lambda>_.
       call_bind (call_of ''secure: computing SPAKE2+ public share'' (Prover_ComputePublicShare S rnd prover))
         (\<lambda>(pA, prover).
       call_bind (call_set (\<lambda>p. p\<lparr>pi_prover := Some prover\<rparr>)) (\<lambda>_.
       call_bind (call_of ''secure: marshaling PAKE1'' (Marshal (gv_PAKE1 pA))) (\<lambda>pake1Data.
       call_return (pake1Data, ps_ResponderSessionID resp)))))))) p)"

definition ProcessPAKE2 :: "suite \<Rightarrow> byte list \<Rightarrow> (PASEInitiator, byte list) call" where
  "ProcessPAKE2 S pake2Bytes =
     call_bind (call_of ''secure: unmarshaling PAKE2'' (decode_msg T_PAKE2 of_PAKE2 pake2Bytes)) (\<lambda>pake2 p.
     case pi_prover p of
       None \<Rightarrow> (Panic, p)
     | Some prover \<Rightarrow>
         call_bind (call_of ''secure: computing SPAKE2+ secret''
           (Prover_ComputeSecretAndConfirm S prover (pi_spakeContext p) [] [] (pake2_PB pake2))) (\<lambda>(Ke, cA, expectedCB).
         if \<not> VerifyConfirmation expectedCB (pake2_CB pake2)
         then call_fail ''secure: PAKE2 confirmation verification failed''
         else
           call_bind (call_of ''secure: deriving session keys from Ke'' (DeriveSessionKeys S Ke)) (\<lambda>keys.
           call_bind (call_set (\<lambda>p. p\<lparr>pi_sessionKeys := Some keys\<rparr>)) (\<lambda>_.
           call_of ''secure: marshaling PAKE3'' (Marshal (gv_PAKE3 cA))))) p)"

subsection \<open>The responder\<close>

record PASEResponder =
  pr_passcode :: u32
  pr_salt :: "byte list"
  pr_iterations :: u32
  pr_sessionID :: u16
  pr_spakeContext :: "byte list"
  pr_verifier :: "SPAKE2PVerifier option"
  pr_expectedCA :: "byte list"
  pr_sessionKeys :: "SessionKeys option"

definition NewPASEResponder :: "u32 \<Rightarrow> byte list \<Rightarrow> u32 \<Rightarrow> u16 \<Rightarrow> PASEResponder" where
  "NewPASEResponder passcode salt iterations sid =
     \<lparr>pr_passcode = passcode, pr_salt = salt, pr_iterations = iterations, pr_sessionID = sid,
      pr_spakeContext = [], pr_verifier = None, pr_expectedCA = [], pr_sessionKeys = None\<rparr>"

definition ProcessPBKDFParamRequest :: "byte list res \<Rightarrow> byte list \<Rightarrow> (PASEResponder, byte list) call" where
  "ProcessPBKDFParamRequest rnd reqBytes =
     call_bind (call_of ''secure: unmarshaling PBKDFParamRequest''
       (decode_msg T_PBKDFParamRequest of_PBKDFParamRequest reqBytes)) (\<lambda>req.
     call_bind (call_of ''secure: generating responder random'' rnd) (\<lambda>respRandom r.
     call_bind (call_of ''secure: marshaling PBKDFParamResponse'' (Marshal (gv_PBKDFParamResponse
         \<lparr>ps_InitiatorRandom = pq_InitiatorRandom req, ps_ResponderRandom = respRandom,
          ps_ResponderSessionID = pr_sessionID r,
          ps_PBKDFParameters = \<lparr>pp_Iterations = pr_iterations r, pp_Salt = pr_salt r\<rparr>\<rparr>))) (\<lambda>respData.
     call_bind (call_set (\<lambda>r. r\<lparr>pr_spakeContext := spake_context reqBytes respData\<rparr>)) (\<lambda>_.
     call_return respData)) r))"

definition ProcessPAKE1 :: "suite \<Rightarrow> int res \<Rightarrow> byte list \<Rightarrow> (PASEResponder, byte list) call" where
  "ProcessPAKE1 S rnd pake1Bytes =
     call_bind (call_of ''secure: unmarshaling PAKE1'' (decode_msg T_PAKE1 of_octets pake1Bytes)) (\<lambda>pA r.
     call_bind (call_of ''secure: deriving SPAKE2+ values''
       (DeriveSPAKE2PValues S (pr_passcode r) (pr_salt r) (uint (pr_iterations r)))) (\<lambda>(w0, w1).
     call_bind (\<lambda>r. (ComputeL S w1, r)) (\<lambda>L.
     call_bind (call_of ''secure: creating SPAKE2+ verifier'' (NewSPAKE2PVerifier S w0 L)) (\<lambda>verifier.
     call_bind (call_set (\<lambda>r. r\<lparr>pr_verifier := Some verifier\<rparr>)) (\<lambda>_.
     call_bind (call_of ''secure: computing verifier public share'' (Verifier_ComputePublicShare S rnd verifier))
       (\<lambda>(pB, verifier).
     call_bind (call_set (\<lambda>r. r\<lparr>pr_verifier := Some verifier\<rparr>)) (\<lambda>_.
     call_bind (call_of ''secure: computing verifier secret''
       (Verifier_ComputeSecretAndConfirm S verifier (pr_spakeContext r) [] [] pA)) (\<lambda>(Ke, cB, expectedCA).
     call_bind (call_set (\<lambda>r. r\<lparr>pr_expectedCA := expectedCA\<rparr>)) (\<lambda>_.
     call_bind (call_of ''secure: deriving session keys'' (DeriveSessionKeys S Ke)) (\<lambda>keys.
     call_bind (call_set (\<lambda>r. r\<lparr>pr_sessionKeys := Some keys\<rparr>)) (\<lambda>_.
     call_of ''secure: marshaling PAKE2'' (Marshal (gv_PAKE2 \<lparr>pake2_PB = pB, pake2_CB = cB\<rparr>)))))))))))) r)"

definition ProcessPAKE3 :: "byte list \<Rightarrow> (PASEResponder, unit) call" where
  "ProcessPAKE3 pake3Bytes =
     call_bind (call_of ''secure: unmarshaling PAKE3'' (decode_msg T_PAKE3 of_octets pake3Bytes)) (\<lambda>cA r.
     if \<not> VerifyConfirmation (pr_expectedCA r) cA
     then call_fail ''secure: PAKE3 confirmation verification failed'' r
     else call_return () r)"

subsection \<open>The handshake over an exchange\<close>

definition EstablishPASE ::
  "suite \<Rightarrow> byte list res \<Rightarrow> int res \<Rightarrow> Exchange \<Rightarrow> u32 \<Rightarrow> u16 \<Rightarrow> (SessionKeys option \<times> u16) io" where
  "EstablishPASE S rnd scalar ex passcode proposedSessionID =
     side ''secure: generating PBKDFParamRequest'' (GeneratePBKDFParamRequest rnd)
       (NewPASEInitiator passcode proposedSessionID) (\<lambda>reqBytes p.
     io_bind (io_wrap ''secure: sending PBKDFParamRequest''
       (sendSecureChannelMsg ex OpcodePBKDFParamRequest reqBytes)) (\<lambda>_.
     io_bind (io_wrap ''secure: receiving PBKDFParamResponse'' io_Receive) (\<lambda>respMsg.
     side ''secure: processing PBKDFParamResponse'' (ProcessPBKDFParamResponse S scalar reqBytes (Payload respMsg)) p
       (\<lambda>(pake1Bytes, peerSessionID) p.
     io_bind (io_wrap ''secure: sending PAKE1'' (sendSecureChannelMsg ex OpcodePASEPake1 pake1Bytes)) (\<lambda>_.
     io_bind (io_wrap ''secure: receiving PAKE2'' io_Receive) (\<lambda>pake2Msg.
     side ''secure: processing PAKE2'' (ProcessPAKE2 S (Payload pake2Msg)) p (\<lambda>pake3Bytes p.
     io_bind (io_wrap ''secure: sending PAKE3'' (sendSecureChannelMsg ex OpcodePASEPake3 pake3Bytes)) (\<lambda>_.
     io_bind (io_wrap ''secure: receiving status report'' io_Receive) (\<lambda>statusMsg.
     io_bind (want_status_report statusMsg) (\<lambda>_.
     io_return (pi_sessionKeys p, peerSessionID)))))))))))"

end
