(* ===== verification/Pase_Agreement.thy ===== *)
theory Pase_Agreement
  imports Pase
begin

text \<open>
  What a PASE handshake achieves: the two sides, each with its own random values, accept each other's
  messages and end with the same keys.
\<close>

subsection \<open>The secrets of a passcode\<close>

definition spake_secrets :: "suite \<Rightarrow> u32 \<Rightarrow> byte list \<Rightarrow> int \<Rightarrow> int \<times> int" where
  "spake_secrets S passcode salt iterations =
     (let ws = pbkdf2_Key S (passcode_bytes passcode) salt iterations 80
      in (big_SetBytes (take 40 ws) mod P256_N S, big_SetBytes (drop 40 ws) mod P256_N S))"

lemma DeriveSPAKE2PValues_ok:
  assumes "curve_laws S pt" and "kdf_laws S" and "1000 \<le> iter" and "spake_secrets S pc salt iter = (w0, w1)"
  obtains b0 b1 where "DeriveSPAKE2PValues S pc salt iter = Ok (b0, b1)"
    and "big_SetBytes b0 = w0" and "big_SetBytes b1 = w1" and "0 \<le> w0" and "w0 < P256_N S" and "0 \<le> w1" and "w1 < P256_N S"
proof -
  define ws where "ws = pbkdf2_Key S (passcode_bytes pc) salt iter 80"
  have len: "length ws = 80" using assms(2) by (simp add: kdf_laws_def ws_def)
  have w: "w0 = big_SetBytes (take 40 ws) mod P256_N S" "w1 = big_SetBytes (take 40 (drop 40 ws)) mod P256_N S"
    using assms(4) len by (auto simp: spake_secrets_def Let_def ws_def)
  have n: "0 < P256_N S" "P256_N S \<le> 256 ^ 32" using curve_facts(1,2) [OF assms(1)] by linarith+
  then have b: "0 \<le> w0" "w0 < P256_N S" "0 \<le> w1" "w1 < P256_N S" using w by simp_all
  moreover have "DeriveSPAKE2PValues S pc salt iter = Ok (zeroPad (int_Bytes w0) 32, zeroPad (int_Bytes w1) 32)"
    using assms(3) by (simp add: DeriveSPAKE2PValues_def PBKDF2SHA256_def Let_def w ws_def)
  moreover have "big_SetBytes (zeroPad (int_Bytes w0) 32) = w0" "big_SetBytes (zeroPad (int_Bytes w1) 32) = w1"
    using zeroPad_fits [of w0 32] zeroPad_fits [of w1 32] b n by linarith+
  ultimately show ?thesis using that by blast
qed

subsection \<open>One handshake\<close>

text \<open>
  What the two sides start from: the same passcode, and random values that the system delivered.
  Neither secret is zero and neither public share is the point at infinity, both of which happen
  with a chance of about one in \<open>2 ^ 256\<close> and end the handshake with an error.
\<close>

record pase_setup =
  su_passcode :: u32
  su_salt :: "byte list"
  su_iterations :: u32
  su_sidI :: u16
  su_sidR :: u16
  su_randomI :: "byte list"
  su_randomR :: "byte list"
  su_x :: int
  su_y :: int

definition nonzero :: "int \<Rightarrow> int" where "nonzero x = (if x = 0 then 1 else x)"

definition pase_ready :: "suite \<Rightarrow> pase_setup \<Rightarrow> bool" where
  "pase_ready S u \<longleftrightarrow>
     1000 \<le> uint (su_iterations u) \<and> length (su_salt u) \<le> max_alloc \<and>
     length (su_randomI u) = 32 \<and> length (su_randomR u) = 32 \<and> 0 \<le> su_x u \<and> 0 \<le> su_y u \<and>
     (case spake_secrets S (su_passcode u) (su_salt u) (uint (su_iterations u)) of
        (w0, w1) \<Rightarrow> w0 \<noteq> 0 \<and> w1 \<noteq> 0 \<and> share_ok S (spake2pM S) w0 (nonzero (su_x u)) \<and>
          share_ok S (spake2pN S) w0 (nonzero (su_y u)))"

lemma share_scalar_Ok: "share_scalar (Ok x) = Ok (nonzero x)"
  by (simp add: share_scalar_def nonzero_def)

lemma nonzero_nonneg: "0 \<le> x \<Longrightarrow> 0 \<le> nonzero x"
  by (simp add: nonzero_def)

definition initiator0 :: "pase_setup \<Rightarrow> PASEInitiator" where
  "initiator0 u = NewPASEInitiator (su_passcode u) (su_sidI u)"

definition responder0 :: "pase_setup \<Rightarrow> PASEResponder" where
  "responder0 u = NewPASEResponder (su_passcode u) (su_salt u) (su_iterations u) (su_sidR u)"

text \<open>
  The messages of a handshake between the two, and the keys both end with.
\<close>

definition pase_run :: "suite \<Rightarrow> pase_setup \<Rightarrow> byte list \<Rightarrow> byte list \<Rightarrow> byte list \<Rightarrow> byte list \<Rightarrow> byte list \<Rightarrow> SessionKeys \<Rightarrow> bool" where
  "pase_run S u req resp pake1 pake2 pake3 keys \<longleftrightarrow>
     (\<exists>i1 i2 i3 r1 r2.
       GeneratePBKDFParamRequest (Ok (su_randomI u)) (initiator0 u) = (Ok req, i1) \<and>
       ProcessPBKDFParamRequest (Ok (su_randomR u)) req (responder0 u) = (Ok resp, r1) \<and>
       ProcessPBKDFParamResponse S (Ok (su_x u)) req resp i1 = (Ok (pake1, su_sidR u), i2) \<and>
       ProcessPAKE1 S (Ok (su_y u)) pake1 r1 = (Ok pake2, r2) \<and>
       ProcessPAKE2 S pake2 i2 = (Ok pake3, i3) \<and>
       ProcessPAKE3 pake3 r2 = (Ok (), r2) \<and>
       pi_sessionKeys i3 = Some keys \<and> pr_sessionKeys r2 = Some keys)"

lemma small_alloc: "n \<le> 1000 \<Longrightarrow> n \<le> max_alloc"
  by (simp add: max_alloc_def)

lemma pase_params:
  assumes "pase_ready S u"
  obtains req resp where
    "GeneratePBKDFParamRequest (Ok (su_randomI u)) (initiator0 u) =
       (Ok req, (initiator0 u)\<lparr>pi_initiatorRandom := su_randomI u\<rparr>)"
    "ProcessPBKDFParamRequest (Ok (su_randomR u)) req (responder0 u) =
       (Ok resp, (responder0 u)\<lparr>pr_spakeContext := spake_context req resp\<rparr>)"
    "decode_msg T_PBKDFParamResponse of_PBKDFParamResponse resp =
       Ok \<lparr>ps_InitiatorRandom = su_randomI u, ps_ResponderRandom = su_randomR u, ps_ResponderSessionID = su_sidR u,
         ps_PBKDFParameters = \<lparr>pp_Iterations = su_iterations u, pp_Salt = su_salt u\<rparr>\<rparr>"
proof -
  define rq where "rq = \<lparr>pq_InitiatorRandom = su_randomI u, pq_InitiatorSessionID = su_sidI u, pq_PasscodeID = 0,
    pq_HasPBKDFParameters = False\<rparr>"
  define rs where "rs = \<lparr>ps_InitiatorRandom = su_randomI u, ps_ResponderRandom = su_randomR u,
    ps_ResponderSessionID = su_sidR u, ps_PBKDFParameters = \<lparr>pp_Iterations = su_iterations u, pp_Salt = su_salt u\<rparr>\<rparr>"
  have len: "length (su_randomI u) \<le> max_alloc" "length (su_randomR u) \<le> max_alloc" "length (su_salt u) \<le> max_alloc"
    using assms by (simp_all add: pase_ready_def small_alloc)
  obtain req where q: "Marshal (gv_PBKDFParamRequest rq) = Ok req"
      "decode_msg T_PBKDFParamRequest of_PBKDFParamRequest req = Ok rq"
    using pase_sent(1) [of rq] len by (auto simp: rq_def)
  obtain resp where s: "Marshal (gv_PBKDFParamResponse rs) = Ok resp"
      "decode_msg T_PBKDFParamResponse of_PBKDFParamResponse resp = Ok rs"
    using pase_sent(2) [of rs] len by (auto simp: rs_def)
  show ?thesis
  proof (rule that)
    show "GeneratePBKDFParamRequest (Ok (su_randomI u)) (initiator0 u) =
       (Ok req, (initiator0 u)\<lparr>pi_initiatorRandom := su_randomI u\<rparr>)"
      using q(1) by (simp add: GeneratePBKDFParamRequest_def call_defs initiator0_def NewPASEInitiator_def rq_def)
    show "ProcessPBKDFParamRequest (Ok (su_randomR u)) req (responder0 u) =
       (Ok resp, (responder0 u)\<lparr>pr_spakeContext := spake_context req resp\<rparr>)"
      using q(2) s(1)
      by (simp add: ProcessPBKDFParamRequest_def call_defs responder0_def NewPASEResponder_def rq_def rs_def)
  qed (use s(2) rs_def in simp)
qed

text \<open>The verifier of a passcode holds the point \<open>w1 * G\<close>.\<close>

lemma new_verifier:
  assumes C: "curve_laws S pt" and "big_SetBytes b0 = w0" and "big_SetBytes b1 = w1"
    and "0 < w0" "w0 < P256_N S" "0 < w1" "w1 < P256_N S"
  obtains L where "ComputeL S b1 = Ok L"
    and "NewSPAKE2PVerifier S b0 L = Ok \<lparr>ve_w0 = w0, ve_L = pt w1, ve_y = None, ve_pB = []\<rparr>"
proof -
  obtain L where L: "marshalEC (pt w1) = Ok L"
      "unmarshalEC S L = (if P256_N S dvd w1 then None else Some (pt w1))"
    by (rule marshalEC_pt [OF C])
  then have "unmarshalEC S L = Some (pt w1)" using not_order_dvd [OF C assms(6,7)] by simp
  with L(1) assms show ?thesis
    by (intro that [of L]) (simp_all add: ComputeL_def base_mult NewSPAKE2PVerifier_def Let_def)
qed

lemma new_prover:
  assumes "big_SetBytes b0 = w0" and "big_SetBytes b1 = w1" and "0 < w0" "w0 < P256_N S" "0 < w1" "w1 < P256_N S"
  shows "NewSPAKE2PProver S b0 b1 = Ok \<lparr>pr_w0 = w0, pr_w1 = w1, pr_x = None, pr_pA = []\<rparr>"
  using assms by (simp add: NewSPAKE2PProver_def Let_def)

lemma pase_completes:
  assumes L: "spake_laws S pt" and R: "pase_ready S u"
  obtains req resp pake1 pake2 pake3 keys where "pase_run S u req resp pake1 pake2 pake3 keys" and "good_keys keys"
proof -
  have C: "curve_laws S pt" and K: "kdf_laws S" using L by (simp_all add: spake_laws_def)
  obtain m n where mn: "spake2pM S = Ok (pt m)" "spake2pN S = Ok (pt n)" using L by (auto simp: spake_laws_def)
  obtain w0 w1 where w: "spake_secrets S (su_passcode u) (su_salt u) (uint (su_iterations u)) = (w0, w1)" by fastforce
  have it: "1000 \<le> uint (su_iterations u)" and ir: "length (su_randomI u) = 32"
    and xy: "0 \<le> nonzero (su_x u)" "0 \<le> nonzero (su_y u)" and nz: "w0 \<noteq> 0" "w1 \<noteq> 0"
    and sh: "share_ok S (spake2pM S) w0 (nonzero (su_x u))" "share_ok S (spake2pN S) w0 (nonzero (su_y u))"
    using R w by (simp_all add: pase_ready_def nonzero_nonneg)
  obtain b0 b1 where d: "DeriveSPAKE2PValues S (su_passcode u) (su_salt u) (uint (su_iterations u)) = Ok (b0, b1)"
      "big_SetBytes b0 = w0" "big_SetBytes b1 = w1" "0 \<le> w0" "w0 < P256_N S" "0 \<le> w1" "w1 < P256_N S"
    by (rule DeriveSPAKE2PValues_ok [OF C K it w])
  then have pos: "0 < w0" "0 < w1" using nz by linarith+
  obtain VL where VL: "ComputeL S b1 = Ok VL"
      "NewSPAKE2PVerifier S b0 VL = Ok \<lparr>ve_w0 = w0, ve_L = pt w1, ve_y = None, ve_pB = []\<rparr>"
    by (rule new_verifier [OF C d(2,3) pos(1) d(5) pos(2) d(7)])
  obtain pA where pA: "blind S (spake2pM S) w0 (nonzero (su_x u)) = Ok pA" "length pA = 65"
    by (rule share_okE [OF C mn(1) d(4) xy(1) sh(1)])
  obtain pB where pB: "blind S (spake2pN S) w0 (nonzero (su_y u)) = Ok pB" "length pB = 65"
    by (rule share_okE [OF C mn(2) d(4) xy(2) sh(2)])
  obtain req resp where
    p: "GeneratePBKDFParamRequest (Ok (su_randomI u)) (initiator0 u) =
         (Ok req, (initiator0 u)\<lparr>pi_initiatorRandom := su_randomI u\<rparr>)"
      "ProcessPBKDFParamRequest (Ok (su_randomR u)) req (responder0 u) =
         (Ok resp, (responder0 u)\<lparr>pr_spakeContext := spake_context req resp\<rparr>)"
      "decode_msg T_PBKDFParamResponse of_PBKDFParamResponse resp =
         Ok \<lparr>ps_InitiatorRandom = su_randomI u, ps_ResponderRandom = su_randomR u, ps_ResponderSessionID = su_sidR u,
           ps_PBKDFParameters = \<lparr>pp_Iterations = su_iterations u, pp_Salt = su_salt u\<rparr>\<rparr>"
    by (rule pase_params [OF R])
  obtain ke cA cB where k:
    "Prover_ComputeSecretAndConfirm S \<lparr>pr_w0 = w0, pr_w1 = w1, pr_x = Some (nonzero (su_x u)), pr_pA = pA\<rparr>
       (spake_context req resp) [] [] pB = Ok (ke, cA, cB)"
    "Verifier_ComputeSecretAndConfirm S \<lparr>ve_w0 = w0, ve_L = pt w1, ve_y = Some (nonzero (su_y u)), ve_pB = pB\<rparr>
       (spake_context req resp) [] [] pA = Ok (ke, cB, cA)"
    "length ke = 16" "length cA = 32" "length cB = 32"
    by (rule spake_agree [OF L pos(1) d(5) xy(1) pA(1) sh(1) xy(2) pB(1) sh(2) refl d(6) refl])
  have "ke \<noteq> []" using k(3) by auto
  then obtain keys where keys: "DeriveSessionKeys S ke = Ok keys" "good_keys keys"
    by (rule DeriveSessionKeys_ok [OF K])
  obtain pake1 where m1: "Marshal (gv_PAKE1 pA) = Ok pake1" "decode_msg T_PAKE1 of_octets pake1 = Ok pA"
    using pase_sent(3) [of pA] pA(2) by (auto simp: small_alloc)
  obtain pake2 where m2: "Marshal (gv_PAKE2 \<lparr>pake2_PB = pB, pake2_CB = cB\<rparr>) = Ok pake2"
      "decode_msg T_PAKE2 of_PAKE2 pake2 = Ok \<lparr>pake2_PB = pB, pake2_CB = cB\<rparr>"
    using pase_sent(4) [of "\<lparr>pake2_PB = pB, pake2_CB = cB\<rparr>"] pB(2) k(5) by (auto simp: small_alloc)
  obtain pake3 where m3: "Marshal (gv_PAKE3 cA) = Ok pake3" "decode_msg T_PAKE3 of_octets pake3 = Ok cA"
    using pase_sent(5) [of cA] k(4) by (auto simp: small_alloc)
  have i0: "pi_passcode (initiator0 u) = su_passcode u" by (simp add: initiator0_def NewPASEInitiator_def)
  have r0: "pr_passcode (responder0 u) = su_passcode u" "pr_salt (responder0 u) = su_salt u"
      "pr_iterations (responder0 u) = su_iterations u" by (simp_all add: responder0_def NewPASEResponder_def)
  have s1: "\<exists>i2. ProcessPBKDFParamResponse S (Ok (su_x u)) req resp ((initiator0 u)\<lparr>pi_initiatorRandom := su_randomI u\<rparr>)
      = (Ok (pake1, su_sidR u), i2) \<and>
    pi_prover i2 = Some \<lparr>pr_w0 = w0, pr_w1 = w1, pr_x = Some (nonzero (su_x u)), pr_pA = pA\<rparr> \<and>
    pi_spakeContext i2 = spake_context req resp"
    using ir d(1) pA(1) m1(1) new_prover [OF d(2,3) pos(1) d(5) pos(2) d(7)]
    by (simp add: ProcessPBKDFParamResponse_def call_defs p(3) bytesEqual_iff i0 Prover_ComputePublicShare_def
        share_scalar_Ok)
  have s2: "\<exists>r2. ProcessPAKE1 S (Ok (su_y u)) pake1 ((responder0 u)\<lparr>pr_spakeContext := spake_context req resp\<rparr>)
      = (Ok pake2, r2) \<and> pr_expectedCA r2 = cA \<and> pr_sessionKeys r2 = Some keys"
    using d(1) pB(1) m1(2) m2(1) VL k(2) keys(1)
    by (simp add: ProcessPAKE1_def call_defs r0 Verifier_ComputePublicShare_def share_scalar_Ok)
  obtain i2 r2 where i2: "ProcessPBKDFParamResponse S (Ok (su_x u)) req resp
        ((initiator0 u)\<lparr>pi_initiatorRandom := su_randomI u\<rparr>) = (Ok (pake1, su_sidR u), i2)"
      "pi_prover i2 = Some \<lparr>pr_w0 = w0, pr_w1 = w1, pr_x = Some (nonzero (su_x u)), pr_pA = pA\<rparr>"
      "pi_spakeContext i2 = spake_context req resp"
    and r2: "ProcessPAKE1 S (Ok (su_y u)) pake1 ((responder0 u)\<lparr>pr_spakeContext := spake_context req resp\<rparr>)
      = (Ok pake2, r2)" "pr_expectedCA r2 = cA" "pr_sessionKeys r2 = Some keys"
    using s1 s2 by blast
  have i3: "ProcessPAKE2 S pake2 i2 = (Ok pake3, i2\<lparr>pi_sessionKeys := Some keys\<rparr>)"
    using m2(2) m3(1) i2(2,3) k(1) keys(1) by (simp add: ProcessPAKE2_def call_defs VerifyConfirmation_def)
  have r3: "ProcessPAKE3 pake3 r2 = (Ok (), r2)"
    using m3(2) r2(2) by (simp add: ProcessPAKE3_def call_defs VerifyConfirmation_def)
  have "pase_run S u req resp pake1 pake2 pake3 keys"
    unfolding pase_run_def using p(1,2) i2(1) r2(1,3) i3 r3 by fastforce
  with keys(2) show ?thesis using that by blast
qed

end
