(* ===== verification/Pase_Confirmation.thy ===== *)
theory Pase_Confirmation
  imports Pase_Agreement
begin

text \<open>
  What an accepted PASE confirmation proves about the other side: unless two different transcripts
  have the same confirmation, the sides agree on everything they hashed and on the keys.
\<close>

subsection \<open>What a confirmation proves\<close>

text \<open>The transcript is unambiguous: length prefixes make its parts recoverable.\<close>

lemma writeWithLength_inject:
  assumes "writeWithLength a @ x = writeWithLength b @ y" and "length a < 2 ^ 64" and "length b < 2 ^ 64"
  shows "a = b \<and> x = y"
proof -
  have "le_put 8 (word_of_nat (length a) :: u64) = le_put 8 (word_of_nat (length b) :: u64)"
      and r: "a @ x = b @ y"
    using assms(1) by (simp_all add: writeWithLength_def append_eq_append_conv)
  then have "(word_of_nat (length a) :: u64) = word_of_nat (length b)" by (simp add: le_put_inject)
  moreover have "unat (word_of_nat (length a) :: u64) = length a" "unat (word_of_nat (length b) :: u64) = length b"
    using assms(2,3) by (simp_all add: unat_word_of_nat_id)
  ultimately have "length a = length b" by metis
  with r show ?thesis by simp
qed

definition transcript_bytes :: "byte list list \<Rightarrow> byte list" where
  "transcript_bytes parts = concat (map writeWithLength parts)"

lemma transcript_inject:
  assumes "transcript_bytes ps = transcript_bytes qs" and "length ps = length qs"
    and "\<forall>p \<in> set ps \<union> set qs. length p < 2 ^ 64"
  shows "ps = qs"
  using assms(2,1,3)
proof (induction ps qs rule: list_induct2)
  case (Cons p ps q qs)
  then have "p = q \<and> transcript_bytes ps = transcript_bytes qs"
    by (intro writeWithLength_inject) (auto simp: transcript_bytes_def)
  with Cons show ?case by simp
qed simp

text \<open>The transcripts the two sides hash.\<close>

definition transcript_parts ::
  "suite \<Rightarrow> byte list \<Rightarrow> byte list \<Rightarrow> byte list \<Rightarrow> point \<Rightarrow> point \<Rightarrow> int \<Rightarrow> byte list list res" where
  "transcript_parts S context pA pB Z V w0 =
     bind_res (bind_res (spake2pM S) marshalEC) (\<lambda>mBytes.
     bind_res (bind_res (spake2pN S) marshalEC) (\<lambda>nBytes.
     bind_res (marshalEC Z) (\<lambda>zBytes.
     bind_res (marshalEC V) (\<lambda>vBytes.
     Ok [context, [], [], mBytes, nBytes, pA, pB, zBytes, vBytes, zeroPad (int_Bytes w0) 32]))))"

lemma computeTranscriptAndKeys_parts:
  "computeTranscriptAndKeys S context [] [] pA pB Z V w0 = Ok (ke, a, b) \<longleftrightarrow>
     (\<exists>ps. transcript_parts S context pA pB Z V w0 = Ok ps \<and> transcript_keys S (transcript ps) pA pB = Ok (ke, a, b))"
  by (simp add: computeTranscriptAndKeys_def transcript_parts_def bind_res_Ok_iff) blast

text \<open>
  What \<^verbatim>\<open>ComputeSecretAndConfirm\<close> of each side hashes: the context, its shares and the points it
  computes from the other's share with its own secrets.
\<close>

definition prover_transcript :: "suite \<Rightarrow> SPAKE2PProver \<Rightarrow> byte list \<Rightarrow> byte list \<Rightarrow> byte list list res" where
  "prover_transcript S p context pB =
     (case unmarshalEC S pB of
        None \<Rightarrow> Err (Errorf ''crypto: SPAKE2+ invalid pB point'')
      | Some Y \<Rightarrow>
          bind_res (spake2pN S) (\<lambda>N. bind_res (unblind S N (pr_w0 p) Y) (\<lambda>tmp.
          case pr_x p of
            None \<Rightarrow> Panic
          | Some x \<Rightarrow>
              bind_res (curve_ScalarMult S tmp (int_Bytes x)) (\<lambda>Z.
              bind_res (curve_ScalarMult S tmp (int_Bytes (pr_w1 p))) (\<lambda>V.
              transcript_parts S context (pr_pA p) pB Z V (pr_w0 p))))))"

definition verifier_transcript :: "suite \<Rightarrow> SPAKE2PVerifier \<Rightarrow> byte list \<Rightarrow> byte list \<Rightarrow> byte list list res" where
  "verifier_transcript S v context pA =
     (case unmarshalEC S pA of
        None \<Rightarrow> Err (Errorf ''crypto: SPAKE2+ invalid pA point'')
      | Some X \<Rightarrow>
          bind_res (spake2pM S) (\<lambda>M. bind_res (unblind S M (ve_w0 v) X) (\<lambda>tmp.
          case ve_y v of
            None \<Rightarrow> Panic
          | Some y \<Rightarrow>
              bind_res (curve_ScalarMult S tmp (int_Bytes y)) (\<lambda>Z.
              bind_res (curve_ScalarMult S (ve_L v) (int_Bytes y)) (\<lambda>V.
              transcript_parts S context pA (ve_pB v) Z V (ve_w0 v))))))"

text \<open>The confirmation a side computes of a transcript, and two transcripts that it does not tell apart.\<close>

definition confirmB :: "suite \<Rightarrow> byte list \<Rightarrow> byte list \<Rightarrow> byte list \<Rightarrow> byte list" where
  "confirmB S bytes pA pB = (case transcript_keys S (Sum256 bytes) pA pB of Ok (ke, cA, cB) \<Rightarrow> cB | _ \<Rightarrow> [])"

definition collision :: "suite \<Rightarrow> byte list list \<Rightarrow> byte list list \<Rightarrow> bool" where
  "collision S ps qs \<longleftrightarrow> transcript_bytes ps \<noteq> transcript_bytes qs \<and>
     confirmB S (transcript_bytes ps) (ps ! 5) (ps ! 6) = confirmB S (transcript_bytes qs) (qs ! 5) (qs ! 6)"

lemma parts_shape:
  assumes "transcript_parts S context pA pB Z V w0 = Ok ps"
  shows "ps ! 0 = context" "ps ! 5 = pA" "ps ! 6 = pB" "length ps = 10" "ps ! 9 = zeroPad (int_Bytes w0) 32"
    and "length context \<le> 65 \<Longrightarrow> length pA \<le> 65 \<Longrightarrow> length pB \<le> 65 \<Longrightarrow> length (int_Bytes w0) \<le> 32 \<Longrightarrow>
      \<forall>p \<in> set ps. length p < 2 ^ 64"
proof -
  have len: "length b = 65" if "marshalEC q = Ok b" for q b
    using that by (auto simp: marshalEC_def FillBytes_def bind_res_Ok_iff length_left_pad split: if_splits)
  from assms show "ps ! 0 = context" "ps ! 5 = pA" "ps ! 6 = pB" "length ps = 10" "ps ! 9 = zeroPad (int_Bytes w0) 32"
    by (auto simp: transcript_parts_def bind_res_Ok_iff)
  show "\<forall>p \<in> set ps. length p < 2 ^ 64"
    if "length context \<le> 65" "length pA \<le> 65" "length pB \<le> 65" "length (int_Bytes w0) \<le> 32"
    using assms that by (auto simp: transcript_parts_def bind_res_Ok_iff zeroPad_def length_left_pad dest!: len)
qed

lemma same_confirmation:
  assumes "transcript_keys S (transcript ps) (ps ! 5) (ps ! 6) = Ok (ke, cA, cB)"
    and "transcript_keys S (transcript qs) (qs ! 5) (qs ! 6) = Ok (ke', cA', cB)"
    and "length ps = length qs" and "\<forall>p \<in> set ps \<union> set qs. length p < 2 ^ 64"
  shows "collision S ps qs \<or> (ps = qs \<and> ke = ke')"
proof (cases "transcript_bytes ps = transcript_bytes qs")
  case True
  then have "ps = qs" by (rule transcript_inject [OF _ assms(3,4)])
  with assms show ?thesis by simp
next
  case False
  have "transcript rs = Sum256 (transcript_bytes rs)" for rs by (simp add: transcript_def transcript_bytes_def)
  with False assms(1,2) show ?thesis by (simp add: collision_def confirmB_def)
qed
subsection \<open>Accepting a confirmation\<close>

lemma marshalEC_length: "marshalEC q = Ok b \<Longrightarrow> length b = 65"
  by (auto simp: marshalEC_def FillBytes_def bind_res_Ok_iff length_left_pad split: if_splits)

lemma unmarshalEC_length: "unmarshalEC S b = Some q \<Longrightarrow> length b = 65"
  by (simp add: unmarshalEC_def split: if_splits)

lemma small_scalar: "curve_laws S pt \<Longrightarrow> 0 \<le> w \<Longrightarrow> w < P256_N S \<Longrightarrow> length (int_Bytes w) \<le> 32"
  using curve_facts(2) [of S pt] by (intro length_int_Bytes) linarith

lemma blind_length: "blind S B w0 x = Ok b \<Longrightarrow> length b = 65"
  by (auto simp: blind_def Let_def bind_res_Ok_iff dest: marshalEC_length)

text \<open>The first secret of a passcode, as the two sides derive it.\<close>

definition passcode_secret :: "suite \<Rightarrow> u32 \<Rightarrow> byte list \<Rightarrow> u32 \<Rightarrow> int" where
  "passcode_secret S passcode salt iterations = fst (spake_secrets S passcode salt (uint iterations))"

lemma scalar_bytes:
  assumes C: "curve_laws S pt" and "0 \<le> w" and "w < P256_N S"
  shows "big_SetBytes (zeroPad (int_Bytes w) 32) = w"
  using zeroPad_fits [of w 32] curve_facts(2) [OF C] assms(2,3) by linarith

lemma derived_secret:
  assumes C: "curve_laws S pt" and d: "DeriveSPAKE2PValues S passcode salt (uint iterations) = Ok (w0, w1)"
  shows "big_SetBytes w0 = passcode_secret S passcode salt iterations"
    and "0 \<le> passcode_secret S passcode salt iterations" "passcode_secret S passcode salt iterations < P256_N S"
proof -
  have n: "0 < P256_N S" using curve_facts(1) [OF C] by linarith
  then show b: "0 \<le> passcode_secret S passcode salt iterations" "passcode_secret S passcode salt iterations < P256_N S"
    by (simp_all add: passcode_secret_def spake_secrets_def Let_def)
  have "w0 = zeroPad (int_Bytes (passcode_secret S passcode salt iterations)) 32"
    using d by (auto simp: DeriveSPAKE2PValues_def PBKDF2SHA256_def passcode_secret_def spake_secrets_def Let_def
        bind_res_Ok_iff split: if_splits)
  then show "big_SetBytes w0 = passcode_secret S passcode salt iterations" using scalar_bytes [OF C b] by simp
qed

text \<open>What a side knows after its share is out.\<close>

lemma pake1_sent:
  assumes C: "curve_laws S pt" and "ProcessPBKDFParamResponse S rx req resp i0 = (Ok (pake1, sid), i)"
  obtains rs p where "decode_msg T_PBKDFParamResponse of_PBKDFParamResponse resp = Ok rs" and "pi_prover i = Some p"
    and "length (pr_pA p) = 65" and "pi_spakeContext i = spake_context req resp"
    and "pr_w0 p = passcode_secret S (pi_passcode i) (pp_Salt (ps_PBKDFParameters rs)) (pp_Iterations (ps_PBKDFParameters rs))"
    and "0 \<le> pr_w0 p" and "pr_w0 p < P256_N S"
proof -
  obtain rs w0 w1 p pA where d: "decode_msg T_PBKDFParamResponse of_PBKDFParamResponse resp = Ok rs"
    "DeriveSPAKE2PValues S (pi_passcode i) (pp_Salt (ps_PBKDFParameters rs)) (uint (pp_Iterations (ps_PBKDFParameters rs)))
       = Ok (w0, w1)"
    "pi_prover i = Some p" "pr_pA p = pA" "length pA = 65" "pr_w0 p = big_SetBytes w0 mod P256_N S" "pi_spakeContext i = spake_context req resp"
    using assms(2)
    by (auto simp: ProcessPBKDFParamResponse_def call_defs bind_st_Ok_iff Prover_ComputePublicShare_def bind_res_Ok_iff
        NewSPAKE2PProver_def Let_def dest!: blind_length split: if_splits)
  with derived_secret [OF C d(2)] show ?thesis by (intro that [OF d(1,3)]) auto
qed

lemma Prover_parts:
  assumes "Prover_ComputeSecretAndConfirm S p context [] [] pB = Ok (ke, cA, cB)"
  obtains Z V ps where "prover_transcript S p context pB = Ok ps" and "transcript_parts S context (pr_pA p) pB Z V (pr_w0 p) = Ok ps"
    and "transcript_keys S (transcript ps) (pr_pA p) pB = Ok (ke, cA, cB)" and "length pB = 65"
  using assms
  by (auto simp: Prover_ComputeSecretAndConfirm_def prover_transcript_def bind_res_Ok_iff computeTranscriptAndKeys_parts
      split: option.splits) (metis unmarshalEC_length)

lemma Verifier_parts:
  assumes "Verifier_ComputeSecretAndConfirm S v context [] [] pA = Ok (ke, cB, cA)"
  obtains Z V qs where "verifier_transcript S v context pA = Ok qs" and "transcript_parts S context pA (ve_pB v) Z V (ve_w0 v) = Ok qs"
    and "transcript_keys S (transcript qs) pA (ve_pB v) = Ok (ke, cA, cB)" and "length pA = 65"
  using assms
  by (auto simp: Verifier_ComputeSecretAndConfirm_def verifier_transcript_def bind_res_Ok_iff computeTranscriptAndKeys_parts
      split: option.splits) (metis unmarshalEC_length)

lemma pake1_answered:
  assumes C: "curve_laws S pt" and "ProcessPAKE1 S ry pake1 r = (Ok pake2, r')" and "length (pr_spakeContext r) = 32"
  obtains pA v cB ke cA qs keys where "decode_msg T_PAKE1 of_octets pake1 = Ok pA" and "pr_verifier r' = Some v"
    and "verifier_transcript S v (pr_spakeContext r) pA = Ok qs"
    and "ve_w0 v = passcode_secret S (pr_passcode r) (pr_salt r) (pr_iterations r)" "0 \<le> ve_w0 v" "ve_w0 v < P256_N S"
    and "length (ve_pB v) = 65" and "Marshal (gv_PAKE2 \<lparr>pake2_PB = ve_pB v, pake2_CB = cB\<rparr>) = Ok pake2"
    and "transcript_keys S (transcript qs) pA (ve_pB v) = Ok (ke, cA, cB)" and "DeriveSessionKeys S ke = Ok keys"
    and "pr_sessionKeys r' = Some keys"
    and "qs ! 5 = pA" "qs ! 6 = ve_pB v" "length qs = 10" "qs ! 9 = zeroPad (int_Bytes (ve_w0 v)) 32" "\<forall>p \<in> set qs. length p < 2 ^ 64"
proof -
  obtain pA w0 w1 L u pB y ke cB cA keys where p: "decode_msg T_PAKE1 of_octets pake1 = Ok pA"
    "DeriveSPAKE2PValues S (pr_passcode r) (pr_salt r) (uint (pr_iterations r)) = Ok (w0, w1)"
    "NewSPAKE2PVerifier S w0 L = Ok u" "blind S (spake2pN S) (ve_w0 u) y = Ok pB"
    "Verifier_ComputeSecretAndConfirm S (u\<lparr>ve_y := Some y, ve_pB := pB\<rparr>) (pr_spakeContext r) [] [] pA = Ok (ke, cB, cA)"
    "DeriveSessionKeys S ke = Ok keys" "Marshal (gv_PAKE2 \<lparr>pake2_PB = pB, pake2_CB = cB\<rparr>) = Ok pake2"
    "pr_sessionKeys r' = Some keys" "pr_verifier r' = Some (u\<lparr>ve_y := Some y, ve_pB := pB\<rparr>)"
    using assms(2)
    by (auto simp: ProcessPAKE1_def call_defs bind_st_Ok_iff Verifier_ComputePublicShare_def bind_res_Ok_iff)
  define v where "v = u\<lparr>ve_y := Some y, ve_pB := pB\<rparr>"
  have "ve_w0 u = big_SetBytes w0 mod P256_N S"
    using p(3) by (auto simp: NewSPAKE2PVerifier_def Let_def split: if_splits option.splits)
  then have w: "ve_w0 v = passcode_secret S (pr_passcode r) (pr_salt r) (pr_iterations r)" "0 \<le> ve_w0 v" "ve_w0 v < P256_N S"
    using derived_secret [OF C p(2)] by (simp_all add: v_def)
  have pB: "ve_pB v = pB" "length (ve_pB v) = 65" using blind_length [OF p(4)] by (simp_all add: v_def)
  obtain Z V qs where q: "verifier_transcript S v (pr_spakeContext r) pA = Ok qs"
      "transcript_parts S (pr_spakeContext r) pA (ve_pB v) Z V (ve_w0 v) = Ok qs"
      "transcript_keys S (transcript qs) pA (ve_pB v) = Ok (ke, cA, cB)" "length pA = 65"
    by (rule Verifier_parts [OF p(5) [folded v_def]])
  show ?thesis
    by (rule that [OF p(1) p(9) [folded v_def] q(1) w pB(2) p(7) [folded pB(1)] q(3) p(6,8) parts_shape(2-5) [OF q(2)]])
      (rule parts_shape(6) [OF q(2)], use assms(3) q(4) pB small_scalar [OF C w(2,3)] in simp_all)
qed

lemma pake2_accepted:
  assumes C: "curve_laws S pt" and "ProcessPAKE2 S pake2 i = (Ok pake3, i')" and "pi_prover i = Some p"
    and "length (pr_pA p) = 65" "0 \<le> pr_w0 p" "pr_w0 p < P256_N S" "length (pi_spakeContext i) = 32"
  obtains m ke cA ps keys where "decode_msg T_PAKE2 of_PAKE2 pake2 = Ok m"
    and "prover_transcript S p (pi_spakeContext i) (pake2_PB m) = Ok ps"
    and "transcript_keys S (transcript ps) (pr_pA p) (pake2_PB m) = Ok (ke, cA, pake2_CB m)"
    and "DeriveSessionKeys S ke = Ok keys" and "pi_sessionKeys i' = Some keys"
    and "ps ! 5 = pr_pA p" "ps ! 6 = pake2_PB m" "length ps = 10" "ps ! 9 = zeroPad (int_Bytes (pr_w0 p)) 32"
      "\<forall>p \<in> set ps. length p < 2 ^ 64"
proof -
  obtain m ke cA keys where p: "decode_msg T_PAKE2 of_PAKE2 pake2 = Ok m"
    "Prover_ComputeSecretAndConfirm S p (pi_spakeContext i) [] [] (pake2_PB m) = Ok (ke, cA, pake2_CB m)"
    "DeriveSessionKeys S ke = Ok keys" "pi_sessionKeys i' = Some keys"
    using assms(2,3)
    by (auto simp: ProcessPAKE2_def call_defs bind_st_Ok_iff VerifyConfirmation_def split: if_splits)
  obtain Z V ps where q: "prover_transcript S p (pi_spakeContext i) (pake2_PB m) = Ok ps"
      "transcript_parts S (pi_spakeContext i) (pr_pA p) (pake2_PB m) Z V (pr_w0 p) = Ok ps"
      "transcript_keys S (transcript ps) (pr_pA p) (pake2_PB m) = Ok (ke, cA, pake2_CB m)" "length (pake2_PB m) = 65"
    by (rule Prover_parts [OF p(2)])
  show ?thesis
    by (rule that [OF p(1) q(1,3) p(3,4) parts_shape(2-5) [OF q(2)]])
      (rule parts_shape(6) [OF q(2)], use assms(4-7) q(4) small_scalar [OF C assms(5,6)] in simp_all)
qed

text \<open>
  The initiator accepted what the responder answered: the transcripts of the two agree, and so do the
  secrets of the passcodes and the keys.
\<close>

lemma acceptance_agrees:
  assumes C: "curve_laws S pt"
    and i: "ProcessPBKDFParamResponse S rx req resp i0 = (Ok (pake1', sid), i)"
    and r: "ProcessPAKE1 S ry pake1 r = (Ok pake2, r')" "length (pr_spakeContext r) = 32"
    and a: "ProcessPAKE2 S pake2 i = (Ok pake3, i')"
  obtains rs p v pA m ps qs where "decode_msg T_PBKDFParamResponse of_PBKDFParamResponse resp = Ok rs"
    and "decode_msg T_PAKE1 of_octets pake1 = Ok pA" and "decode_msg T_PAKE2 of_PAKE2 pake2 = Ok m"
    and "pi_prover i = Some p" and "prover_transcript S p (spake_context req resp) (pake2_PB m) = Ok ps"
    and "pr_verifier r' = Some v" and "verifier_transcript S v (pr_spakeContext r) pA = Ok qs"
    and "collision S ps qs \<or> (ps = qs \<and>
      passcode_secret S (pi_passcode i) (pp_Salt (ps_PBKDFParameters rs)) (pp_Iterations (ps_PBKDFParameters rs))
        = passcode_secret S (pr_passcode r) (pr_salt r) (pr_iterations r) \<and>
      pi_sessionKeys i' = pr_sessionKeys r')"
proof -
  obtain rs p where p: "decode_msg T_PBKDFParamResponse of_PBKDFParamResponse resp = Ok rs" "pi_prover i = Some p"
    "length (pr_pA p) = 65" "pi_spakeContext i = spake_context req resp"
    "pr_w0 p = passcode_secret S (pi_passcode i) (pp_Salt (ps_PBKDFParameters rs)) (pp_Iterations (ps_PBKDFParameters rs))"
    "0 \<le> pr_w0 p" "pr_w0 p < P256_N S" by (rule pake1_sent [OF C i])
  have ctx: "length (pi_spakeContext i) = 32" by (simp add: p(4) spake_context_def)
  obtain pA v cB ke cA qs keys where q: "decode_msg T_PAKE1 of_octets pake1 = Ok pA" "pr_verifier r' = Some v"
    "verifier_transcript S v (pr_spakeContext r) pA = Ok qs"
    "ve_w0 v = passcode_secret S (pr_passcode r) (pr_salt r) (pr_iterations r)" "0 \<le> ve_w0 v" "ve_w0 v < P256_N S"
    "length (ve_pB v) = 65" "Marshal (gv_PAKE2 \<lparr>pake2_PB = ve_pB v, pake2_CB = cB\<rparr>) = Ok pake2"
    "transcript_keys S (transcript qs) pA (ve_pB v) = Ok (ke, cA, cB)" "DeriveSessionKeys S ke = Ok keys"
    "pr_sessionKeys r' = Some keys"
    "qs ! 5 = pA" "qs ! 6 = ve_pB v" "length qs = 10" "qs ! 9 = zeroPad (int_Bytes (ve_w0 v)) 32" "\<forall>p \<in> set qs. length p < 2 ^ 64"
    by (rule pake1_answered [OF C r])
  obtain m ke' cA' ps keys' where m: "decode_msg T_PAKE2 of_PAKE2 pake2 = Ok m"
    "prover_transcript S p (pi_spakeContext i) (pake2_PB m) = Ok ps"
    "transcript_keys S (transcript ps) (pr_pA p) (pake2_PB m) = Ok (ke', cA', pake2_CB m)"
    "DeriveSessionKeys S ke' = Ok keys'" "pi_sessionKeys i' = Some keys'"
    "ps ! 5 = pr_pA p" "ps ! 6 = pake2_PB m" "length ps = 10" "ps ! 9 = zeroPad (int_Bytes (pr_w0 p)) 32"
    "\<forall>p \<in> set ps. length p < 2 ^ 64"
    by (rule pake2_accepted [OF C a p(2,3,6,7) ctx])
  have "length cB = 32" using q(9) by (auto simp: transcript_keys_def bind_res_Ok_iff)
  then have "m = \<lparr>pake2_PB = ve_pB v, pake2_CB = cB\<rparr>"
    using pase_sent(4) [of "\<lparr>pake2_PB = ve_pB v, pake2_CB = cB\<rparr>"] q(7,8) m(1) by (auto simp: small_alloc)
  then have agree: "collision S ps qs \<or> (ps = qs \<and> ke' = ke)"
    using m q by (intro same_confirmation [of S ps ke' cA' cB qs ke cA]) auto
  have "pr_w0 p = ve_w0 v" if "ps = qs"
    using that m(9) q(15) scalar_bytes [OF C p(6,7)] scalar_bytes [OF C q(5,6)] by metis
  with agree m(4,5) q(10,11) p(5) q(4) show ?thesis
    by (intro that [OF p(1) q(1) m(1) p(2) m(2) [unfolded p(4)] q(2,3)]) auto
qed

end
