(* ===== verification/Matter_Cert.thy ===== *)
theory Matter_Cert
  imports Crypto_Keys Tlv_Calls
begin

text \<open>
  \<^verbatim>\<open>internal/crypto/mattercert.go\<close>: an X.509 certificate in the Matter TLV form, and the public key read
  back from either form.  Texts of errors leave out the quoted operands.
\<close>

subsection \<open>Tags\<close>

definition certTagSerialNumber :: byte where "certTagSerialNumber = 1"
definition certTagSigAlgo :: byte where "certTagSigAlgo = 2"
definition certTagIssuer :: byte where "certTagIssuer = 3"
definition certTagNotBefore :: byte where "certTagNotBefore = 4"
definition certTagNotAfter :: byte where "certTagNotAfter = 5"
definition certTagSubject :: byte where "certTagSubject = 6"
definition certTagPubKeyAlgo :: byte where "certTagPubKeyAlgo = 7"
definition certTagECCurveID :: byte where "certTagECCurveID = 8"
definition certTagECPubKey :: byte where "certTagECPubKey = 9"
definition certTagExtensions :: byte where "certTagExtensions = 10"
definition certTagSignature :: byte where "certTagSignature = 11"

definition dnTagNodeID :: byte where "dnTagNodeID = 17"
definition dnTagICACID :: byte where "dnTagICACID = 19"
definition dnTagRCACID :: byte where "dnTagRCACID = 20"
definition dnTagFabricID :: byte where "dnTagFabricID = 21"

definition extTagBasicConstraints :: byte where "extTagBasicConstraints = 1"
definition extTagKeyUsage :: byte where "extTagKeyUsage = 2"
definition extTagExtendedKeyUsage :: byte where "extTagExtendedKeyUsage = 3"
definition extTagSubjectKeyID :: byte where "extTagSubjectKeyID = 4"
definition extTagAuthorityKeyID :: byte where "extTagAuthorityKeyID = 5"

definition sigAlgoECDSASHA256 :: u64 where "sigAlgoECDSASHA256 = 1"
definition pubKeyAlgoEC :: u64 where "pubKeyAlgoEC = 1"
definition ecCurveP256 :: u64 where "ecCurveP256 = 1"

definition matterEpoch :: int where "matterEpoch = 946684800"

lemmas cert_tags [const_defs] =
  certTagSerialNumber_def certTagSigAlgo_def certTagIssuer_def certTagNotBefore_def certTagNotAfter_def
  certTagSubject_def certTagPubKeyAlgo_def certTagECCurveID_def certTagECPubKey_def certTagExtensions_def
  certTagSignature_def dnTagNodeID_def dnTagICACID_def dnTagRCACID_def dnTagFabricID_def
  extTagBasicConstraints_def extTagKeyUsage_def extTagExtendedKeyUsage_def extTagSubjectKeyID_def
  extTagAuthorityKeyID_def

definition oidToMatterDNTag :: "string \<Rightarrow> byte option" where
  "oidToMatterDNTag oid =
     (if oid = ''1.3.6.1.4.1.37244.1.1'' then Some dnTagNodeID
      else if oid = ''1.3.6.1.4.1.37244.1.3'' then Some dnTagICACID
      else if oid = ''1.3.6.1.4.1.37244.1.4'' then Some dnTagRCACID
      else if oid = ''1.3.6.1.4.1.37244.1.5'' then Some dnTagFabricID
      else None)"

subsection \<open>Writing\<close>

text \<open>\<^verbatim>\<open>strconv.ParseUint(s, 16, 64)\<close>.\<close>

definition hex_value :: "char \<Rightarrow> nat option" where
  "hex_value c =
     (let n = of_char c :: nat in
      if 48 \<le> n \<and> n \<le> 57 then Some (n - 48)
      else if 97 \<le> n \<and> n \<le> 102 then Some (n - 87)
      else if 65 \<le> n \<and> n \<le> 70 then Some (n - 55)
      else None)"

fun parse_hex :: "nat \<Rightarrow> string \<Rightarrow> u64 res" where
  "parse_hex acc [] = Ok (word_of_nat acc)"
| "parse_hex acc (c # s) =
     (case hex_value c of
        None \<Rightarrow> Err (Errorf ''invalid syntax'')
      | Some d \<Rightarrow> if 16 * acc + d \<ge> 2 ^ 64 then Err (Errorf ''value out of range'') else parse_hex (16 * acc + d) s)"

definition ParseUint16 :: "string \<Rightarrow> u64 res" where
  "ParseUint16 s = (if s = [] then Err (Errorf ''invalid syntax'') else parse_hex 0 s)"

definition encodeRDN :: "string \<times> string option \<Rightarrow> (Writer, unit) call" where
  "encodeRDN rdn =
     (case oidToMatterDNTag (fst rdn) of
        None \<Rightarrow> call_return ()
      | Some dnTag \<Rightarrow>
          (case snd rdn of
             None \<Rightarrow> call_fail (''DN value for OID '' @ fst rdn @ '' is not a string'')
           | Some hexStr \<Rightarrow> call_bind (call_of ''parsing DN hex value'' (ParseUint16 hexStr)) (putUint dnTag)))"

definition encodeMatterDN :: "byte \<Rightarrow> (string \<times> string option) list \<Rightarrow> (Writer, unit) call" where
  "encodeMatterDN tag names =
     container (\<lambda>w. StartList w (ContextTag tag)) (call_seq (map encodeRDN names))"

text \<open>The bits of \<^verbatim>\<open>x509.KeyUsage\<close> and those of Matter.\<close>

definition convertKeyUsage :: "u64 \<Rightarrow> u16" where
  "convertKeyUsage ku =
     (if ku AND 1 \<noteq> 0 then 0x0001 else 0) OR (if ku AND 2 \<noteq> 0 then 0x0002 else 0) OR
     (if ku AND 4 \<noteq> 0 then 0x0004 else 0) OR (if ku AND 8 \<noteq> 0 then 0x0008 else 0) OR
     (if ku AND 16 \<noteq> 0 then 0x0010 else 0) OR (if ku AND 32 \<noteq> 0 then 0x0020 else 0) OR
     (if ku AND 64 \<noteq> 0 then 0x0040 else 0)"

definition toMatterTime :: "int \<Rightarrow> u32" where
  "toMatterTime unix = (if unix < matterEpoch then 0 else word_of_int (unix - matterEpoch))"

text \<open>\<^verbatim>\<open>sha1\<close> of \<^verbatim>\<open>computeSKID\<close> is an argument.\<close>

definition computeSKID :: "(byte list \<Rightarrow> byte list) \<Rightarrow> point \<Rightarrow> byte list res" where
  "computeSKID sha1 pub = bind_res (PublicKeyToUncompressed pub) (\<lambda>raw. Ok (sha1 raw))"

definition encodeEKU :: "int \<Rightarrow> (Writer, unit) call" where
  "encodeEKU eku =
     (if eku = 1 then put (\<lambda>w. PutUnsignedInt w AnonymousTag 1)
      else if eku = 2 then put (\<lambda>w. PutUnsignedInt w AnonymousTag 2)
      else call_return ())"

definition encodeMatterExtensions :: "(byte list \<Rightarrow> byte list) \<Rightarrow> Certificate \<Rightarrow> (Writer, unit) call" where
  "encodeMatterExtensions sha1 cert = container (\<lambda>w. StartList w (ContextTag certTagExtensions)) (call_seq
     [(if ct_BasicConstraintsValid cert then container (\<lambda>w. StartStructure w (ContextTag extTagBasicConstraints)) (call_seq
        [put (\<lambda>w. PutBool w (ContextTag 1) (ct_IsCA cert)),
         (if ct_IsCA cert \<and> ct_MaxPathLen cert \<ge> 0 then putUint 2 (word_of_int (ct_MaxPathLen cert)) else call_return ())])
       else call_return ()),
      (if ct_KeyUsage cert \<noteq> 0 then putUint extTagKeyUsage (ucast (convertKeyUsage (ct_KeyUsage cert))) else call_return ()),
      (if ct_ExtKeyUsage cert \<noteq> [] then
        container (\<lambda>w. StartArray w (ContextTag extTagExtendedKeyUsage)) (call_seq (map encodeEKU (ct_ExtKeyUsage cert)))
       else call_return ()),
      (if ct_SubjectKeyId cert \<noteq> [] then putOctets extTagSubjectKeyID (ct_SubjectKeyId cert)
       else case ct_PublicKey cert of
           None \<Rightarrow> call_return ()
         | Some pub \<Rightarrow> call_bind (\<lambda>w. (computeSKID sha1 pub, w)) (putOctets extTagSubjectKeyID)),
      (if ct_AuthorityKeyId cert \<noteq> [] then putOctets extTagAuthorityKeyID (ct_AuthorityKeyId cert) else call_return ())])"

definition serial_bytes :: "int \<Rightarrow> byte list" where
  "serial_bytes n =
     (let b = int_Bytes n in if b \<noteq> [] \<and> b ! 0 AND 0x80 \<noteq> 0 then 0 # b else b)"

definition writeMatterCertTBS :: "(byte list \<Rightarrow> byte list) \<Rightarrow> Certificate \<Rightarrow> (Writer, unit) call" where
  "writeMatterCertTBS sha1 cert = call_seq
     [putOctets certTagSerialNumber (serial_bytes (ct_SerialNumber cert)),
      putUint certTagSigAlgo sigAlgoECDSASHA256,
      call_wrap ''encoding issuer'' (encodeMatterDN certTagIssuer (ct_Issuer cert)),
      putUint certTagNotBefore (ucast (toMatterTime (ct_NotBefore cert))),
      putUint certTagNotAfter (ucast (toMatterTime (ct_NotAfter cert))),
      call_wrap ''encoding subject'' (encodeMatterDN certTagSubject (ct_Subject cert)),
      putUint certTagPubKeyAlgo pubKeyAlgoEC,
      putUint certTagECCurveID ecCurveP256,
      (case ct_PublicKey cert of
         None \<Rightarrow> call_fail ''crypto: certificate public key is not ECDSA''
       | Some pub \<Rightarrow> call_bind (\<lambda>w. (PublicKeyToUncompressed pub, w)) (putOctets certTagECPubKey)),
      call_wrap ''encoding extensions'' (encodeMatterExtensions sha1 cert)]"

definition derSignatureToRaw :: "suite \<Rightarrow> byte list \<Rightarrow> byte list res" where
  "derSignatureToRaw S derSig =
     bind_res (wrap_res ''parsing DER signature'' (asn1_Signature S derSig)) (\<lambda>(r, s). raw_signature r s)"

text \<open>The two conversions share everything but the signature.\<close>

definition matter_cert :: "(byte list \<Rightarrow> byte list) \<Rightarrow> Certificate \<Rightarrow> (Writer, byte list) call \<Rightarrow> byte list res" where
  "matter_cert sha1 cert signature =
     fst (call_then (container (\<lambda>w. StartStructure w AnonymousTag)
         (call_then (writeMatterCertTBS sha1 cert) (call_bind signature (putOctets certTagSignature))))
       (\<lambda>w. (Ok (Bytes w), w)) NewWriter)"

definition X509ToMatterCert :: "suite \<Rightarrow> (byte list \<Rightarrow> byte list) \<Rightarrow> byte list \<Rightarrow> byte list res" where
  "X509ToMatterCert S sha1 certDER =
     bind_res (wrap_res ''crypto: parsing X.509 cert'' (x509_ParseCertificate S certDER)) (\<lambda>cert.
     matter_cert sha1 cert (call_of ''converting signature'' (derSignatureToRaw S (ct_Signature cert))))"

definition matter_tbs :: "(byte list \<Rightarrow> byte list) \<Rightarrow> Certificate \<Rightarrow> byte list res" where
  "matter_tbs sha1 cert =
     fst (call_then (container (\<lambda>w. StartStructure w AnonymousTag) (writeMatterCertTBS sha1 cert))
       (\<lambda>w. (Ok (Bytes w), w)) NewWriter)"

definition X509ToMatterCertResigned ::
  "suite \<Rightarrow> (byte list \<Rightarrow> byte list) \<Rightarrow> byte list \<Rightarrow> byte list \<Rightarrow> PrivateKey \<Rightarrow> byte list res" where
  "X509ToMatterCertResigned S sha1 rnd certDER signingKey =
     bind_res (wrap_res ''crypto: parsing X.509 cert'' (x509_ParseCertificate S certDER)) (\<lambda>cert.
     bind_res (matter_tbs sha1 cert) (\<lambda>tbsBytes.
     bind_res (wrap_res ''crypto: signing TLV TBS'' (ecdsa_Sign S (pk_D signingKey) (Sum256 tbsBytes) rnd)) (\<lambda>(r, s).
     bind_res (raw_signature r s) (\<lambda>rawSig.
     matter_cert sha1 cert (call_return rawSig)))))"

subsection \<open>Reading the public key\<close>

text \<open>
  An empty certificate indexes its first byte while the error is put together, which panics.
\<close>

function scan_key :: "suite \<Rightarrow> Reader \<Rightarrow> point res" where
  "scan_key S r =
     (case Next r of
        (Err e, r') \<Rightarrow>
          if e = io_EOF then Err (Errorf ''crypto: EC public key tag not found in TLV certificate'')
          else Err (Errorw ''crypto: reading TLV cert'' e)
      | (Panic, r') \<Rightarrow> Panic
      | (Ok _, r') \<Rightarrow>
          if t_TagNum (TagValue r') = ucast certTagECPubKey \<and> t_Type (TagValue r') = TagContextSpecific then
            (case Reader_Value r' of
               VBytes b \<Rightarrow> PublicKeyFromUncompressed S b
             | _ \<Rightarrow> Err (Errorf ''crypto: EC public key is not an octet string''))
          else scan_key S r')"
  by pat_completeness auto
termination by (relation "measure (\<lambda>(S, r). length (r_src r))") (auto simp: Next_consumes)

declare scan_key.simps [simp del]

definition extractPublicKeyTLV :: "suite \<Rightarrow> byte list \<Rightarrow> point res" where
  "extractPublicKeyTLV S tlvCert =
     (case tlvCert of
        [] \<Rightarrow> Panic
      | b # _ \<Rightarrow>
          if b \<noteq> 0x15 then Err (Errorf (''crypto: not a TLV certificate (first byte 0x'' @ fmt_02x b @ '')''))
          else scan_key S (NewReader tlvCert))"

definition ExtractPublicKeyFromTLV :: "suite \<Rightarrow> byte list \<Rightarrow> point res" where
  "ExtractPublicKeyFromTLV S cert =
     (case extractPublicKeyTLV S cert of
        Ok pub \<Rightarrow> Ok pub
      | Err _ \<Rightarrow> ExtractPublicKey S cert
      | Panic \<Rightarrow> Panic)"

subsection \<open>What a conversion writes\<close>

definition is_key :: "Element \<Rightarrow> bool" where
  "is_key e \<longleftrightarrow> t_TagNum (e_Tag e) = ucast certTagECPubKey \<and> t_Type (e_Tag e) = TagContextSpecific"

definition keyless :: "Tlv list \<Rightarrow> bool" where
  "keyless ts \<longleftrightarrow> wf_forest ts \<and> (\<forall>e \<in> set (forest_elems ts). \<not> is_key e)"

text \<open>A call that, when it succeeds, appends well-formed elements none of which has the tag of the key.\<close>

definition writes_keyless :: "(Writer, 'a) call \<Rightarrow> bool" where
  "writes_keyless m \<longleftrightarrow> (\<forall>w x w'. m w = (Ok x, w') \<longrightarrow>
     (\<exists>ts. keyless ts \<and> w' = w\<lparr>w_buf := w_buf w @ forest_bytes ts\<rparr>))"

lemma keyless_append: "keyless ts \<Longrightarrow> keyless us \<Longrightarrow> keyless (ts @ us)"
  by (auto simp: keyless_def)

lemma writes_bind:
  assumes "writes_keyless m" and "\<And>x. writes_keyless (k x)"
  shows "writes_keyless (call_bind m k)"
  unfolding writes_keyless_def
proof (intro allI impI)
  fix w y w' assume "call_bind m k w = (Ok y, w')"
  then obtain x w1 where m: "m w = (Ok x, w1)" and k: "k x w1 = (Ok y, w')"
    by (auto simp: call_bind_def bind_st_Ok_iff)
  obtain ts where ts: "keyless ts" "w1 = w\<lparr>w_buf := w_buf w @ forest_bytes ts\<rparr>"
    using assms(1) m unfolding writes_keyless_def by blast
  obtain us where us: "keyless us" "w' = w1\<lparr>w_buf := w_buf w1 @ forest_bytes us\<rparr>"
    using assms(2) k unfolding writes_keyless_def by blast
  show "\<exists>vs. keyless vs \<and> w' = w\<lparr>w_buf := w_buf w @ forest_bytes vs\<rparr>"
    using ts us keyless_append [OF ts(1) us(1)] by (intro exI [of _ "ts @ us"]) simp
qed

lemma writes_then: "writes_keyless m \<Longrightarrow> writes_keyless k \<Longrightarrow> writes_keyless (call_then m k)"
  unfolding call_then_def by (rule writes_bind)

lemma writes_nothing [simp]:
  "writes_keyless (call_return x)" "writes_keyless (\<lambda>w. (r, w))" "writes_keyless (call_of what r)"
  "writes_keyless (call_fail what)"
  by (auto simp: writes_keyless_def call_return_def call_of_def call_fail_def keyless_def intro: exI [of _ "[]"])

lemma writes_seq: "(\<And>m. m \<in> set ms \<Longrightarrow> writes_keyless m) \<Longrightarrow> writes_keyless (call_seq ms)"
  by (induction ms) (auto intro!: writes_then)

lemma writes_wrap: "writes_keyless m \<Longrightarrow> writes_keyless (call_wrap what m)"
  by (simp add: writes_keyless_def call_wrap_def wrap_st_Ok_iff)

lemma writes_leaf:
  assumes "\<And>w. f w = emits w (elem_bytes tag v)" and "wf_tag tag" and "value_ok v"
    and "t_TagNum tag \<noteq> 9 \<or> t_Type tag \<noteq> TagContextSpecific"
  shows "writes_keyless (put f)"
proof -
  have "keyless [Leaf tag v]" using assms(2-4) by (simp add: keyless_def is_key_def const_defs)
  then show ?thesis unfolding writes_keyless_def
    by (auto simp: put_def assms(1) emits_def intro!: exI [of _ "[Leaf tag v]"])
qed

lemma writes_container:
  assumes "\<And>w. start w = emits (w\<lparr>w_containers := w_containers w @ [k]\<rparr>) (head_bytes tag k)" and "wf_tag tag"
    and "k \<in> {TypeStructure, TypeArray, TypeList}" and "t_TagNum tag \<noteq> 9 \<or> t_Type tag \<noteq> TagContextSpecific"
    and "writes_keyless inner"
  shows "writes_keyless (container start inner)"
  unfolding writes_keyless_def
proof (intro allI impI)
  fix w w' and x :: unit assume "container start inner w = (Ok x, w')"
  then obtain w2 y where i: "inner (w\<lparr>w_containers := w_containers w @ [k], w_buf := w_buf w @ head_bytes tag k\<rparr>) = (Ok y, w2)"
      and e: "put EndContainer w2 = (Ok x, w')"
    by (auto simp: container_def call_then_def call_bind_def bind_st_Ok_iff put_def assms(1) emits_def)
  obtain ts where ts: "keyless ts"
      "w2 = w\<lparr>w_containers := w_containers w @ [k], w_buf := (w_buf w @ head_bytes tag k) @ forest_bytes ts\<rparr>"
    using assms(5) i unfolding writes_keyless_def by fastforce
  have "keyless [Node tag k ts]"
    using ts(1) assms(2-4) by (auto simp: keyless_def is_key_def const_defs AnonymousTag_def zero_tag_def)
  moreover have "w' = w\<lparr>w_buf := w_buf w @ forest_bytes [Node tag k ts]\<rparr>"
    using e ts(2) by (auto simp: put_def EndContainer_emits emits_def)
  ultimately show "\<exists>us. keyless us \<and> w' = w\<lparr>w_buf := w_buf w @ forest_bytes us\<rparr>" by blast
qed

lemma ucast_9 [simp]: "(ucast (n :: byte) :: u32) = 9 \<longleftrightarrow> n = 9"
  by (simp add: word_unat_eq_iff unat_ucast_up)

lemma writes_put [simp]:
  "n \<noteq> 9 \<Longrightarrow> length bs \<le> max_alloc \<Longrightarrow> writes_keyless (putOctets n bs)"
  "n \<noteq> 9 \<Longrightarrow> writes_keyless (putUint n v)"
  "n \<noteq> 9 \<Longrightarrow> writes_keyless (put (\<lambda>w. PutBool w (ContextTag n) b))"
  "writes_keyless (put (\<lambda>w. PutUnsignedInt w AnonymousTag v))"
  unfolding putOctets_def putUint_def
  by (rule writes_leaf [OF PutOctetString_emits] writes_leaf [OF PutUnsignedInt_emits]
      writes_leaf [of "\<lambda>w. PutBool w (ContextTag n) b", OF put_value_emits [of _ _ "VBool b", unfolded put_value.simps]];
      simp add: wf_tag_ContextTag value_ok_def)+

lemma writes_RDN: "writes_keyless (encodeRDN rdn)"
proof (cases "oidToMatterDNTag (fst rdn)")
  case None
  then show ?thesis by (simp add: encodeRDN_def)
next
  case (Some t)
  then have "t \<noteq> 9" by (auto simp: oidToMatterDNTag_def const_defs split: if_splits)
  with Some show ?thesis by (auto simp: encodeRDN_def intro!: writes_bind split: option.splits)
qed

lemma writes_DN: "n \<noteq> 9 \<Longrightarrow> writes_keyless (encodeMatterDN n names)"
  unfolding encodeMatterDN_def
  by (rule writes_container [OF Start_emits(3)])
    (auto simp: wf_tag_ContextTag intro!: writes_seq writes_RDN)

lemma writes_EKU: "writes_keyless (encodeEKU e)"
  by (simp add: encodeEKU_def)

text \<open>Octet strings of a certificate that fit in memory.\<close>

definition cert_small :: "(byte list \<Rightarrow> byte list) \<Rightarrow> Certificate \<Rightarrow> bool" where
  "cert_small sha1 cert \<longleftrightarrow> length (serial_bytes (ct_SerialNumber cert)) \<le> max_alloc \<and>
     length (ct_SubjectKeyId cert) \<le> max_alloc \<and> length (ct_AuthorityKeyId cert) \<le> max_alloc \<and>
     (\<forall>bs. length (sha1 bs) = 20)"

lemma writes_SKID:
  assumes "\<forall>bs. length (sha1 bs) = 20"
  shows "writes_keyless (call_bind (\<lambda>w. (computeSKID sha1 pub, w)) (putOctets extTagSubjectKeyID))"
proof (cases "PublicKeyToUncompressed pub")
  case (Ok raw)
  have "writes_keyless (putOctets extTagSubjectKeyID (sha1 raw))"
    using assms by (simp add: const_defs max_alloc_def)
  moreover have "call_bind (\<lambda>w. (computeSKID sha1 pub, w)) (putOctets extTagSubjectKeyID)
      = putOctets extTagSubjectKeyID (sha1 raw)"
    using Ok by (intro ext) (simp add: computeSKID_def call_bind_def)
  ultimately show ?thesis by simp
qed (auto simp: computeSKID_def call_bind_def writes_keyless_def)

lemma writes_extensions:
  assumes "cert_small sha1 cert"
  shows "writes_keyless (encodeMatterExtensions sha1 cert)"
proof -
  have 1: "writes_keyless (if ct_BasicConstraintsValid cert then
      container (\<lambda>w. StartStructure w (ContextTag extTagBasicConstraints)) (call_seq
        [put (\<lambda>w. PutBool w (ContextTag 1) (ct_IsCA cert)),
         (if ct_IsCA cert \<and> ct_MaxPathLen cert \<ge> 0 then putUint 2 (word_of_int (ct_MaxPathLen cert)) else call_return ())])
       else call_return ())"
    by (auto intro!: writes_container [OF Start_emits(1)] writes_then simp: wf_tag_ContextTag const_defs)
  have 2: "writes_keyless (if ct_ExtKeyUsage cert \<noteq> [] then
      container (\<lambda>w. StartArray w (ContextTag extTagExtendedKeyUsage)) (call_seq (map encodeEKU (ct_ExtKeyUsage cert)))
      else call_return ())"
    by (auto intro!: writes_container [OF Start_emits(2)] writes_seq writes_EKU simp: wf_tag_ContextTag const_defs)
  show ?thesis unfolding encodeMatterExtensions_def
    using assms 1 2 writes_SKID [of sha1]
    by (intro writes_container [OF Start_emits(3)] writes_seq)
      (auto simp: wf_tag_ContextTag cert_small_def const_defs split: option.splits)
qed

subsection \<open>The key of a converted certificate\<close>

lemma scan_step: "Next r = (Ok (), r1) \<Longrightarrow> \<not> is_key (r_elem r1) \<Longrightarrow> scan_key S r = scan_key S r1"
  by (subst scan_key.simps) (auto simp: is_key_def TagValue_def)

lemma scan_hit:
  "Next r = (Ok (), r1) \<Longrightarrow> is_key (r_elem r1) \<Longrightarrow> e_Value (r_elem r1) = VBytes key \<Longrightarrow>
    scan_key S r = PublicKeyFromUncompressed S key"
  by (subst scan_key.simps) (simp add: is_key_def TagValue_def Reader_Value_def)

lemma scan_skip:
  "read_elems n r = (Ok es, r') \<Longrightarrow> \<forall>e \<in> set es. \<not> is_key e \<Longrightarrow> scan_key S r = scan_key S r'"
proof (induction n arbitrary: r es)
  case (Suc n)
  then obtain r1 zs where n: "Next r = (Ok (), r1)" "read_elems n r1 = (Ok zs, r')" "es = r_elem r1 # zs"
    by (auto simp: bind_st_Ok_iff map_st_Ok_iff)
  have "scan_key S r = scan_key S r1"
    by (rule scan_step [OF n(1)]) (use n(3) Suc.prems(2) in simp)
  with Suc.IH [OF n(2)] Suc.prems(2) n(3) show ?case by simp
qed simp

lemma scan_found:
  assumes "keyless ts" and "length key \<le> max_alloc"
  shows "extractPublicKeyTLV S (tlv_bytes (Node AnonymousTag TypeStructure (ts @ Leaf (ContextTag certTagECPubKey) (VBytes key) # us)) @ rest)
    = PublicKeyFromUncompressed S key"
proof -
  let ?bs = "tlv_bytes (Node AnonymousTag TypeStructure (ts @ Leaf (ContextTag certTagECPubKey) (VBytes key) # us)) @ rest"
  let ?inner = "forest_bytes (ts @ Leaf (ContextTag certTagECPubKey) (VBytes key) # us) @ TypeEndOfContainer # rest"
  have head: "head_bytes AnonymousTag TypeStructure = [0x15]"
    by (simp add: head_bytes_def AnonymousTag_def zero_tag_def tag_bytes_simps const_defs)
  let ?r1 = "(NewReader ?bs)\<lparr>r_src := ?inner, r_containers := [TypeStructure],
      r_elem := \<lparr>e_Tag = AnonymousTag, e_Type = TypeStructure, e_Value = VNil\<rparr>\<rparr>"
  have open1: "Next (NewReader ?bs) = (Ok (), ?r1)"
    using Next_open [of AnonymousTag TypeStructure "NewReader ?bs" ?inner] by (simp add: NewReader_def)
  have s0: "scan_key S (NewReader ?bs) = scan_key S ?r1"
    by (rule scan_step [OF open1]) (simp add: is_key_def)
  let ?rest = "elem_bytes (ContextTag certTagECPubKey) (VBytes key) @ forest_bytes us @ TypeEndOfContainer # rest"
  obtain e where e: "read_elems (length (forest_elems ts)) ?r1 = (Ok (forest_elems ts), ?r1\<lparr>r_src := ?rest, r_elem := e\<rparr>)"
    using read_elems_tree(2) [of ts ?r1 ?rest] assms(1) by (auto simp: keyless_def at_def NewReader_def)
  have s1: "scan_key S ?r1 = scan_key S (?r1\<lparr>r_src := ?rest, r_elem := e\<rparr>)"
    by (rule scan_skip [OF e]) (use assms(1) keyless_def in blast)
  have "Next (?r1\<lparr>r_src := ?rest, r_elem := e\<rparr>) = (Ok (), ?r1\<lparr>r_src := forest_bytes us @ TypeEndOfContainer # rest,
      r_elem := \<lparr>e_Tag = ContextTag certTagECPubKey, e_Type = value_type (VBytes key), e_Value = VBytes key\<rparr>\<rparr>)"
    using assms(2) Next_value [of "ContextTag certTagECPubKey" "VBytes key" "?r1\<lparr>r_src := ?rest, r_elem := e\<rparr>"
        "forest_bytes us @ TypeEndOfContainer # rest"]
    by (simp add: wf_tag_ContextTag value_ok_def NewReader_def)
  then have s2: "scan_key S (?r1\<lparr>r_src := ?rest, r_elem := e\<rparr>) = PublicKeyFromUncompressed S key"
    by (rule scan_hit) (simp_all add: is_key_def ContextTag_def zero_tag_def)
  have "extractPublicKeyTLV S ?bs = scan_key S (NewReader ?bs)" by (simp add: extractPublicKeyTLV_def head)
  with s0 s1 s2 show ?thesis by (simp only:)
qed

lemma call_then_assoc: "call_then m (call_then k l) = call_then (call_then m k) l"
proof
  fix w
  show "call_then m (call_then k l) w = call_then (call_then m k) l w"
  proof (cases "m w")
    case (Pair r w1)
    then show ?thesis by (cases r) (simp_all add: call_then_def call_bind_def)
  qed
qed

lemma call_seq_append: "call_seq (ms @ ns) = call_then (call_seq ms) (call_seq ns)"
proof (induction ms)
  case Nil
  show ?case by (simp add: call_then_def call_bind_def call_return_def fun_eq_iff)
next
  case (Cons m ms)
  then show ?case by (simp add: call_then_assoc)
qed

lemma writesD:
  assumes "writes_keyless m" and "m w = (Ok x, w')"
  obtains ts where "keyless ts" and "w' = w\<lparr>w_buf := w_buf w @ forest_bytes ts\<rparr>"
  using assms unfolding writes_keyless_def by blast

lemma raw_signature_length: "raw_signature r s = Ok sig \<Longrightarrow> length sig = 64"
  by (auto simp: raw_signature_def length_left_pad split: if_splits)

text \<open>What is written before the key, the key, and what is written after it.\<close>

lemma writeMatterCertTBS_key:
  assumes "writeMatterCertTBS sha1 cert w = (Ok x, w')" and "cert_small sha1 cert"
  obtains pub key ts us where "ct_PublicKey cert = Some pub" and "PublicKeyToUncompressed pub = Ok key"
    and "keyless ts" and "keyless us"
    and "w' = w\<lparr>w_buf := w_buf w @ forest_bytes (ts @ Leaf (ContextTag certTagECPubKey) (VBytes key) # us)\<rparr>"
proof -
  let ?before = "[putOctets certTagSerialNumber (serial_bytes (ct_SerialNumber cert)),
      putUint certTagSigAlgo sigAlgoECDSASHA256,
      call_wrap ''encoding issuer'' (encodeMatterDN certTagIssuer (ct_Issuer cert)),
      putUint certTagNotBefore (ucast (toMatterTime (ct_NotBefore cert))),
      putUint certTagNotAfter (ucast (toMatterTime (ct_NotAfter cert))),
      call_wrap ''encoding subject'' (encodeMatterDN certTagSubject (ct_Subject cert)),
      putUint certTagPubKeyAlgo pubKeyAlgoEC,
      putUint certTagECCurveID ecCurveP256]"
  let ?key = "case ct_PublicKey cert of
         None \<Rightarrow> call_fail ''crypto: certificate public key is not ECDSA''
       | Some pub \<Rightarrow> call_bind (\<lambda>w. (PublicKeyToUncompressed pub, w)) (putOctets certTagECPubKey)"
  let ?after = "[call_wrap ''encoding extensions'' (encodeMatterExtensions sha1 cert)]"
  have before: "writes_keyless (call_seq ?before)"
    by (rule writes_seq) (use assms(2) in \<open>auto simp: const_defs cert_small_def intro!: writes_wrap writes_DN\<close>)
  have after: "writes_keyless (call_seq ?after)"
    by (rule writes_seq) (use assms(2) in \<open>auto intro!: writes_wrap writes_extensions\<close>)
  have "writeMatterCertTBS sha1 cert = call_seq (?before @ ?key # ?after)"
    by (simp add: writeMatterCertTBS_def)
  then have "call_then (call_seq ?before) (call_then ?key (call_seq ?after)) w = (Ok x, w')"
    using assms(1) by (simp only: call_seq_append call_seq.simps(2))
  then obtain w1 w2 y z where 1: "call_seq ?before w = (Ok y, w1)" and 2: "?key w1 = (Ok z, w2)"
      and 3: "call_seq ?after w2 = (Ok x, w')"
    unfolding call_then_def call_bind_def bind_st_Ok_iff by blast
  obtain pub key where p: "ct_PublicKey cert = Some pub" "PublicKeyToUncompressed pub = Ok key"
      "putOctets certTagECPubKey key w1 = (Ok z, w2)"
    using 2 by (auto simp: call_fail_def call_bind_def bind_st_Ok_iff split: option.splits)
  have w2: "w2 = w1\<lparr>w_buf := w_buf w1 @ tlv_bytes (Leaf (ContextTag certTagECPubKey) (VBytes key))\<rparr>"
    using p(3) by (simp add: putOctets_def put_def PutOctetString_emits emits_def)
  obtain ts where ts: "keyless ts" "w1 = w\<lparr>w_buf := w_buf w @ forest_bytes ts\<rparr>"
    by (rule writesD [OF before 1])
  obtain us where us: "keyless us" "w' = w2\<lparr>w_buf := w_buf w2 @ forest_bytes us\<rparr>"
    by (rule writesD [OF after 3])
  show ?thesis by (rule that [OF p(1,2) ts(1) us(1)]) (use w2 ts us in simp)
qed

lemma container_Ok:
  assumes "container start inner w = (Ok x, w')" and "\<And>w. start w = emits (w\<lparr>w_containers := w_containers w @ [k]\<rparr>) bs"
  obtains w1 w2 y where "inner (w\<lparr>w_containers := w_containers w @ [k], w_buf := w_buf w @ bs\<rparr>) = (Ok y, w1)"
    and "put EndContainer w1 = (Ok x, w')"
  using assms by (auto simp: container_def call_then_def call_bind_def bind_st_Ok_iff put_def emits_def)

lemma matter_cert_key:
  assumes "matter_cert sha1 cert signature = Ok bytes" and "cert_small sha1 cert"
    and sig: "\<And>w x w'. signature w = (Ok x, w') \<Longrightarrow> w' = w"
  obtains pub key ts us where "ct_PublicKey cert = Some pub" and "PublicKeyToUncompressed pub = Ok key" and "keyless ts"
    and "bytes = tlv_bytes (Node AnonymousTag TypeStructure (ts @ Leaf (ContextTag certTagECPubKey) (VBytes key) # us))"
proof -
  obtain w5 where c: "container (\<lambda>w. StartStructure w AnonymousTag)
        (call_then (writeMatterCertTBS sha1 cert) (call_bind signature (putOctets certTagSignature))) NewWriter = (Ok (), w5)"
      and b: "Bytes w5 = bytes"
    by (rule finished_Ok [OF assms(1) [unfolded matter_cert_def]])
  let ?w0 = "NewWriter\<lparr>w_containers := w_containers NewWriter @ [TypeStructure],
    w_buf := w_buf NewWriter @ head_bytes AnonymousTag TypeStructure\<rparr>"
  obtain w4 y where i: "call_then (writeMatterCertTBS sha1 cert) (call_bind signature (putOctets certTagSignature)) ?w0 = (Ok y, w4)"
      and e: "put EndContainer w4 = (Ok (), w5)"
    by (rule container_Ok [OF c Start_emits(1)]) simp_all
  from i obtain w1 x raw where t: "writeMatterCertTBS sha1 cert ?w0 = (Ok x, w1)"
      and p: "putOctets certTagSignature raw w1 = (Ok y, w4)"
    using sig by (fastforce simp: call_then_def call_bind_def bind_st_Ok_iff)
  obtain pub key ts us where k: "ct_PublicKey cert = Some pub" "PublicKeyToUncompressed pub = Ok key" "keyless ts"
      "w1 = ?w0\<lparr>w_buf := w_buf ?w0 @ forest_bytes (ts @ Leaf (ContextTag certTagECPubKey) (VBytes key) # us)\<rparr>"
    by (rule writeMatterCertTBS_key [OF t assms(2)])
  have "bytes = tlv_bytes (Node AnonymousTag TypeStructure (ts @ Leaf (ContextTag certTagECPubKey) (VBytes key)
      # us @ [Leaf (ContextTag certTagSignature) (VBytes raw)]))"
    using e p k(4) b
    by (auto simp: putOctets_def put_def PutOctetString_emits EndContainer_emits emits_def Bytes_def NewWriter_def)
  with k(1-3) show ?thesis using that by blast
qed

lemma converted_key:
  assumes C: "curve_laws S pt" and "matter_cert sha1 cert signature = Ok bytes" and "cert_small sha1 cert"
    and "\<And>w x w'. signature w = (Ok x, w') \<Longrightarrow> w' = w"
    and "ct_PublicKey cert = Some pub" and "IsOnCurve S pub"
  shows "ExtractPublicKeyFromTLV S (bytes @ rest) = Ok pub"
proof -
  obtain key ts us where k: "PublicKeyToUncompressed pub = Ok key" "keyless ts"
      "bytes = tlv_bytes (Node AnonymousTag TypeStructure (ts @ Leaf (ContextTag certTagECPubKey) (VBytes key) # us))"
    by (rule matter_cert_key [OF assms(2,3,4)]) (use assms(5) in auto)
  obtain a where a: "pub = pt a" "\<not> P256_N S dvd a" using curve_facts(11) [OF C assms(6)] curve_facts(7) [OF C] assms(6) by auto
  obtain b where "PublicKeyToUncompressed (pt a) = Ok b" "length b = 65" "PublicKeyFromUncompressed S b = Ok (pt a)"
    by (rule point_encoding [OF C, of a]) (use a(2) in blast)
  with k(1) a(1) have "length key \<le> max_alloc" "PublicKeyFromUncompressed S key = Ok pub"
    by (simp_all add: max_alloc_def)
  with scan_found [OF k(2), of key S us rest] k(3) show ?thesis by (simp add: ExtractPublicKeyFromTLV_def)
qed

subsection \<open>Which certificates are converted\<close>

text \<open>A distinguished name of which every Matter attribute is a hexadecimal number of 64 bits.\<close>

definition rdn_ok :: "string \<times> string option \<Rightarrow> bool" where
  "rdn_ok rdn \<longleftrightarrow> oidToMatterDNTag (fst rdn) \<noteq> None \<longrightarrow> (\<exists>s v. snd rdn = Some s \<and> ParseUint16 s = Ok v)"

lemma proceeds_RDN: "rdn_ok rdn \<Longrightarrow> proceeds (encodeRDN rdn)"
  by (auto simp: encodeRDN_def rdn_ok_def intro!: proceeds_bind split: option.splits)

lemma proceeds_DN: "(\<And>rdn. rdn \<in> set names \<Longrightarrow> rdn_ok rdn) \<Longrightarrow> proceeds (encodeMatterDN n names)"
  unfolding encodeMatterDN_def
  by (rule proceeds_container [OF Start_emits(3)]) (auto intro!: proceeds_seq proceeds_RDN)

lemma proceeds_EKU: "proceeds (encodeEKU e)"
  by (simp add: encodeEKU_def)

lemma proceeds_extensions:
  assumes "ct_PublicKey cert = Some pub" and "PublicKeyToUncompressed pub = Ok key"
  shows "proceeds (encodeMatterExtensions sha1 cert)"
proof -
  have 1: "proceeds (if ct_BasicConstraintsValid cert then
      container (\<lambda>w. StartStructure w (ContextTag extTagBasicConstraints)) (call_seq
        [put (\<lambda>w. PutBool w (ContextTag 1) (ct_IsCA cert)),
         (if ct_IsCA cert \<and> ct_MaxPathLen cert \<ge> 0 then putUint 2 (word_of_int (ct_MaxPathLen cert)) else call_return ())])
       else call_return ())"
    by (auto intro!: proceeds_container [OF Start_emits(1)] proceeds_then)
  have 2: "proceeds (if ct_ExtKeyUsage cert \<noteq> [] then
      container (\<lambda>w. StartArray w (ContextTag extTagExtendedKeyUsage)) (call_seq (map encodeEKU (ct_ExtKeyUsage cert)))
      else call_return ())"
    by (auto intro!: proceeds_container [OF Start_emits(2)] proceeds_seq proceeds_EKU)
  show ?thesis unfolding encodeMatterExtensions_def
    using assms 1 2
    by (intro proceeds_container [OF Start_emits(3)] proceeds_seq)
      (auto simp: computeSKID_def intro!: proceeds_bind)
qed

definition convertible :: "suite \<Rightarrow> Certificate \<Rightarrow> bool" where
  "convertible S cert \<longleftrightarrow> (\<forall>rdn \<in> set (ct_Issuer cert @ ct_Subject cert). rdn_ok rdn) \<and>
     (\<exists>pub. ct_PublicKey cert = Some pub \<and> IsOnCurve S pub) \<and>
     (\<exists>raw. derSignatureToRaw S (ct_Signature cert) = Ok raw)"

lemma proceeds_TBS:
  assumes "\<forall>rdn \<in> set (ct_Issuer cert @ ct_Subject cert). rdn_ok rdn"
    and "ct_PublicKey cert = Some pub" and "PublicKeyToUncompressed pub = Ok key"
  shows "proceeds (writeMatterCertTBS sha1 cert)"
  unfolding writeMatterCertTBS_def
  by (rule proceeds_seq) (use assms in \<open>auto intro!: proceeds_wrap proceeds_DN proceeds_extensions proceeds_bind\<close>)

lemma conversion_succeeds:
  assumes "curve_laws S pt" and "x509_ParseCertificate S der = Ok cert" and "convertible S cert"
  shows "\<exists>bytes. X509ToMatterCert S sha1 der = Ok bytes"
proof -
  obtain pub raw where p: "ct_PublicKey cert = Some pub" "IsOnCurve S pub" "derSignatureToRaw S (ct_Signature cert) = Ok raw"
      and n: "\<forall>rdn \<in> set (ct_Issuer cert @ ct_Subject cert). rdn_ok rdn"
    using assms(3) unfolding convertible_def by blast
  obtain a where a: "pub = pt a" "\<not> P256_N S dvd a"
    using curve_facts(11) [OF assms(1) p(2)] curve_facts(7) [OF assms(1)] p(2) by auto
  obtain key where key: "PublicKeyToUncompressed pub = Ok key"
    by (rule point_encoding [OF assms(1), of a]) (use a that in auto)
  have "proceeds (call_bind (call_of ''converting signature'' (Ok raw)) (putOctets certTagSignature))"
    by (rule proceeds_bind) simp_all
  then have "proceeds (container (\<lambda>w. StartStructure w AnonymousTag) (call_then (writeMatterCertTBS sha1 cert)
      (call_bind (call_of ''converting signature'' (derSignatureToRaw S (ct_Signature cert))) (putOctets certTagSignature))))"
    unfolding p(3)
    by (intro proceeds_container [OF Start_emits(1)] proceeds_then proceeds_TBS [OF n p(1) key]) simp_all
  then obtain x w' where "container (\<lambda>w. StartStructure w AnonymousTag) (call_then (writeMatterCertTBS sha1 cert)
      (call_bind (call_of ''converting signature'' (derSignatureToRaw S (ct_Signature cert))) (putOctets certTagSignature)))
      NewWriter = (Ok x, w')"
    using proceedsD by metis
  then show ?thesis using assms(2) by (simp add: X509ToMatterCert_def matter_cert_def finished)
qed

end
