(* ===== verification/Case.thy ===== *)
theory Case
  imports Secure_Keys Matter_Cert Aes_Ccm
begin

text \<open>
  \<^verbatim>\<open>internal/secure/case.go\<close>: the messages of CASE, its two sides as states with one definition per
  method, and \<^verbatim>\<open>EstablishCASE\<close>, which runs the initiator over an exchange.
\<close>

subsection \<open>Messages\<close>

record Sigma1 =
  s1_InitiatorRandom :: "byte list"
  s1_InitiatorSessionID :: u16
  s1_DestinationID :: "byte list"
  s1_InitiatorEphPubKey :: "byte list"

definition T_Sigma1 :: gotype where
  "T_Sigma1 = KStruct ''Sigma1''
     [(''InitiatorRandom'', ''1,octets'', KBytes),
      (''InitiatorSessionID'', ''2,uint'', KUint 16),
      (''DestinationID'', ''3,octets'', KBytes),
      (''InitiatorEphPubKey'', ''4,octets'', KBytes)]"

definition gv_Sigma1 :: "Sigma1 \<Rightarrow> goval" where
  "gv_Sigma1 m = GStruct ''Sigma1''
     [(''InitiatorRandom'', ''1,octets'', GBytes (s1_InitiatorRandom m)),
      (''InitiatorSessionID'', ''2,uint'', g_u 16 (s1_InitiatorSessionID m)),
      (''DestinationID'', ''3,octets'', GBytes (s1_DestinationID m)),
      (''InitiatorEphPubKey'', ''4,octets'', GBytes (s1_InitiatorEphPubKey m))]"

definition of_Sigma1 :: "goval \<Rightarrow> Sigma1 option" where
  "of_Sigma1 v = (case o_fields v of
     [a, b, c, d] \<Rightarrow> do {
       a \<leftarrow> o_bytes a; b \<leftarrow> o_u b; c \<leftarrow> o_bytes c; d \<leftarrow> o_bytes d;
       Some \<lparr>s1_InitiatorRandom = a, s1_InitiatorSessionID = b, s1_DestinationID = c, s1_InitiatorEphPubKey = d\<rparr> }
   | _ \<Rightarrow> None)"

record Sigma2 =
  s2_ResponderRandom :: "byte list"
  s2_ResponderSessionID :: u16
  s2_ResponderEphPubKey :: "byte list"
  s2_Encrypted2 :: "byte list"

definition T_Sigma2 :: gotype where
  "T_Sigma2 = KStruct ''Sigma2''
     [(''ResponderRandom'', ''1,octets'', KBytes),
      (''ResponderSessionID'', ''2,uint'', KUint 16),
      (''ResponderEphPubKey'', ''3,octets'', KBytes),
      (''Encrypted2'', ''4,octets'', KBytes)]"

definition gv_Sigma2 :: "Sigma2 \<Rightarrow> goval" where
  "gv_Sigma2 m = GStruct ''Sigma2''
     [(''ResponderRandom'', ''1,octets'', GBytes (s2_ResponderRandom m)),
      (''ResponderSessionID'', ''2,uint'', g_u 16 (s2_ResponderSessionID m)),
      (''ResponderEphPubKey'', ''3,octets'', GBytes (s2_ResponderEphPubKey m)),
      (''Encrypted2'', ''4,octets'', GBytes (s2_Encrypted2 m))]"

definition of_Sigma2 :: "goval \<Rightarrow> Sigma2 option" where
  "of_Sigma2 v = (case o_fields v of
     [a, b, c, d] \<Rightarrow> do {
       a \<leftarrow> o_bytes a; b \<leftarrow> o_u b; c \<leftarrow> o_bytes c; d \<leftarrow> o_bytes d;
       Some \<lparr>s2_ResponderRandom = a, s2_ResponderSessionID = b, s2_ResponderEphPubKey = c, s2_Encrypted2 = d\<rparr> }
   | _ \<Rightarrow> None)"

record Sigma2TBEData =
  tbe2_ResponderNOC :: "byte list"
  tbe2_ResponderICAC :: "byte list"
  tbe2_Signature :: "byte list"
  tbe2_ResumptionID :: "byte list"

definition T_Sigma2TBEData :: gotype where
  "T_Sigma2TBEData = KStruct ''Sigma2TBEData''
     [(''ResponderNOC'', ''1,octets'', KBytes),
      (''ResponderICAC'', ''2,octets'', KBytes),
      (''Signature'', ''3,octets'', KBytes),
      (''ResumptionID'', ''4,octets'', KBytes)]"

definition gv_Sigma2TBEData :: "Sigma2TBEData \<Rightarrow> goval" where
  "gv_Sigma2TBEData m = GStruct ''Sigma2TBEData''
     [(''ResponderNOC'', ''1,octets'', GBytes (tbe2_ResponderNOC m)),
      (''ResponderICAC'', ''2,octets'', GBytes (tbe2_ResponderICAC m)),
      (''Signature'', ''3,octets'', GBytes (tbe2_Signature m)),
      (''ResumptionID'', ''4,octets'', GBytes (tbe2_ResumptionID m))]"

definition of_Sigma2TBEData :: "goval \<Rightarrow> Sigma2TBEData option" where
  "of_Sigma2TBEData v = (case o_fields v of
     [a, b, c, d] \<Rightarrow> do {
       a \<leftarrow> o_bytes a; b \<leftarrow> o_bytes b; c \<leftarrow> o_bytes c; d \<leftarrow> o_bytes d;
       Some \<lparr>tbe2_ResponderNOC = a, tbe2_ResponderICAC = b, tbe2_Signature = c, tbe2_ResumptionID = d\<rparr> }
   | _ \<Rightarrow> None)"

record Sigma3TBEData =
  tbe3_InitiatorNOC :: "byte list"
  tbe3_InitiatorICAC :: "byte list"
  tbe3_Signature :: "byte list"

definition T_Sigma3TBEData :: gotype where
  "T_Sigma3TBEData = KStruct ''Sigma3TBEData''
     [(''InitiatorNOC'', ''1,octets'', KBytes),
      (''InitiatorICAC'', ''2,octets'', KBytes),
      (''Signature'', ''3,octets'', KBytes)]"

definition gv_Sigma3TBEData :: "Sigma3TBEData \<Rightarrow> goval" where
  "gv_Sigma3TBEData m = GStruct ''Sigma3TBEData''
     [(''InitiatorNOC'', ''1,octets'', GBytes (tbe3_InitiatorNOC m)),
      (''InitiatorICAC'', ''2,octets'', GBytes (tbe3_InitiatorICAC m)),
      (''Signature'', ''3,octets'', GBytes (tbe3_Signature m))]"

definition of_Sigma3TBEData :: "goval \<Rightarrow> Sigma3TBEData option" where
  "of_Sigma3TBEData v = (case o_fields v of
     [a, b, c] \<Rightarrow> do {
       a \<leftarrow> o_bytes a; b \<leftarrow> o_bytes b; c \<leftarrow> o_bytes c;
       Some \<lparr>tbe3_InitiatorNOC = a, tbe3_InitiatorICAC = b, tbe3_Signature = c\<rparr> }
   | _ \<Rightarrow> None)"

definition T_Sigma3 :: gotype where "T_Sigma3 = KStruct ''Sigma3'' [(''Encrypted3'', ''1,octets'', KBytes)]"

definition gv_Sigma3 :: "byte list \<Rightarrow> goval" where
  "gv_Sigma3 e = GStruct ''Sigma3'' [(''Encrypted3'', ''1,octets'', GBytes e)]"

definition of_Sigma3 :: "goval \<Rightarrow> byte list option" where
  "of_Sigma3 v = (case o_fields v of [a] \<Rightarrow> o_bytes a | _ \<Rightarrow> None)"

text \<open>The data that is signed: a certificate chain and both ephemeral keys.\<close>

definition gv_Sigma2TBSData :: "byte list \<Rightarrow> byte list \<Rightarrow> byte list \<Rightarrow> byte list \<Rightarrow> goval" where
  "gv_Sigma2TBSData noc icac responderKey initiatorKey = GStruct ''Sigma2TBSData''
     [(''ResponderNOC'', ''1,octets'', GBytes noc), (''ResponderICAC'', ''2,octets'', GBytes icac),
      (''ResponderEphPubKey'', ''3,octets'', GBytes responderKey),
      (''InitiatorEphPubKey'', ''4,octets'', GBytes initiatorKey)]"

definition gv_Sigma3TBSData :: "byte list \<Rightarrow> byte list \<Rightarrow> byte list \<Rightarrow> byte list \<Rightarrow> goval" where
  "gv_Sigma3TBSData noc icac initiatorKey responderKey = GStruct ''Sigma3TBSData''
     [(''InitiatorNOC'', ''1,octets'', GBytes noc), (''InitiatorICAC'', ''2,octets'', GBytes icac),
      (''InitiatorEphPubKey'', ''3,octets'', GBytes initiatorKey),
      (''ResponderEphPubKey'', ''4,octets'', GBytes responderKey)]"

lemmas case_gv_defs = gv_Sigma1_def gv_Sigma2_def gv_Sigma2TBEData_def gv_Sigma3TBEData_def gv_Sigma3_def
  gv_Sigma2TBSData_def gv_Sigma3TBSData_def

lemma of_case_gv [simp]:
  "of_Sigma1 (gv_Sigma1 m1) = Some m1" "of_Sigma2 (gv_Sigma2 m2) = Some m2" "of_Sigma3 (gv_Sigma3 e) = Some e"
  "of_Sigma2TBEData (gv_Sigma2TBEData t2) = Some t2" "of_Sigma3TBEData (gv_Sigma3TBEData t3) = Some t3"
  by (simp_all add: of_Sigma1_def of_Sigma2_def of_Sigma3_def of_Sigma2TBEData_def of_Sigma3TBEData_def case_gv_defs)

lemma typeof_case_gv [simp]:
  "typeof (gv_Sigma1 m1) = T_Sigma1" "typeof (gv_Sigma2 m2) = T_Sigma2" "typeof (gv_Sigma3 e) = T_Sigma3"
  "typeof (gv_Sigma2TBEData t2) = T_Sigma2TBEData" "typeof (gv_Sigma3TBEData t3) = T_Sigma3TBEData"
  by (simp_all add: case_gv_defs T_Sigma1_def T_Sigma2_def T_Sigma3_def T_Sigma2TBEData_def T_Sigma3TBEData_def)

lemma wire_case:
  "length (s1_InitiatorRandom m1) \<le> max_alloc \<Longrightarrow> length (s1_DestinationID m1) \<le> max_alloc \<Longrightarrow>
     length (s1_InitiatorEphPubKey m1) \<le> max_alloc \<Longrightarrow> wire_message (gv_Sigma1 m1)"
  "length (s2_ResponderRandom m2) \<le> max_alloc \<Longrightarrow> length (s2_ResponderEphPubKey m2) \<le> max_alloc \<Longrightarrow>
     length (s2_Encrypted2 m2) \<le> max_alloc \<Longrightarrow> wire_message (gv_Sigma2 m2)"
  "length e \<le> max_alloc \<Longrightarrow> wire_message (gv_Sigma3 e)"
  "length (tbe2_ResponderNOC t2) \<le> max_alloc \<Longrightarrow> length (tbe2_ResponderICAC t2) \<le> max_alloc \<Longrightarrow>
     length (tbe2_Signature t2) \<le> max_alloc \<Longrightarrow> length (tbe2_ResumptionID t2) \<le> max_alloc \<Longrightarrow>
     wire_message (gv_Sigma2TBEData t2)"
  "length (tbe3_InitiatorNOC t3) \<le> max_alloc \<Longrightarrow> length (tbe3_InitiatorICAC t3) \<le> max_alloc \<Longrightarrow>
     length (tbe3_Signature t3) \<le> max_alloc \<Longrightarrow> wire_message (gv_Sigma3TBEData t3)"
  unfolding gv_Sigma1_def gv_Sigma2_def gv_Sigma3_def gv_Sigma2TBEData_def gv_Sigma3TBEData_def
  by (rule wire_messageI; auto simp: tag_numbers_simps intro!: wire_field_plain wire_octets)+

lemma case_sent:
  "length (s1_InitiatorRandom m1) \<le> max_alloc \<Longrightarrow> length (s1_DestinationID m1) \<le> max_alloc \<Longrightarrow>
     length (s1_InitiatorEphPubKey m1) \<le> max_alloc \<Longrightarrow>
     \<exists>bs. Marshal (gv_Sigma1 m1) = Ok bs \<and> decode_msg T_Sigma1 of_Sigma1 bs = Ok m1"
  "length (s2_ResponderRandom m2) \<le> max_alloc \<Longrightarrow> length (s2_ResponderEphPubKey m2) \<le> max_alloc \<Longrightarrow>
     length (s2_Encrypted2 m2) \<le> max_alloc \<Longrightarrow>
     \<exists>bs. Marshal (gv_Sigma2 m2) = Ok bs \<and> decode_msg T_Sigma2 of_Sigma2 bs = Ok m2"
  "length e \<le> max_alloc \<Longrightarrow> \<exists>bs. Marshal (gv_Sigma3 e) = Ok bs \<and> decode_msg T_Sigma3 of_Sigma3 bs = Ok e"
  by (rule sent_received; simp add: wire_case)+

text \<open>The encrypted data fits a CCM message.\<close>

lemma tbe_sent:
  "length (tbe2_ResponderNOC t2) + length (tbe2_ResponderICAC t2) \<le> 65000 \<Longrightarrow> length (tbe2_Signature t2) = 64 \<Longrightarrow>
     tbe2_ResumptionID t2 = [] \<Longrightarrow>
     \<exists>bs. Marshal (gv_Sigma2TBEData t2) = Ok bs \<and> length bs \<le> 65535 \<and>
       decode_msg T_Sigma2TBEData of_Sigma2TBEData bs = Ok t2"
  "length (tbe3_InitiatorNOC t3) + length (tbe3_InitiatorICAC t3) \<le> 65000 \<Longrightarrow> length (tbe3_Signature t3) = 64 \<Longrightarrow>
     \<exists>bs. Marshal (gv_Sigma3TBEData t3) = Ok bs \<and> length bs \<le> 65535 \<and>
       decode_msg T_Sigma3TBEData of_Sigma3TBEData bs = Ok t3"
proof -
  have head: "length (head_bytes AnonymousTag TypeStructure) = 1"
    by (simp add: head_bytes_def AnonymousTag_def zero_tag_def tag_bytes_simps)
  let ?e = "\<lambda>n bs. elem_bytes (ContextTag n) (VBytes bs)"
  note len = length_elem_bytes
  show "\<exists>bs. Marshal (gv_Sigma2TBEData t2) = Ok bs \<and> length bs \<le> 65535 \<and>
       decode_msg T_Sigma2TBEData of_Sigma2TBEData bs = Ok t2"
    if h: "length (tbe2_ResponderNOC t2) + length (tbe2_ResponderICAC t2) \<le> 65000" "length (tbe2_Signature t2) = 64"
      "tbe2_ResumptionID t2 = []"
  proof -
    have m: "Marshal (gv_Sigma2TBEData t2) = Ok (head_bytes AnonymousTag TypeStructure @
        (?e 1 (tbe2_ResponderNOC t2) @ ?e 2 (tbe2_ResponderICAC t2) @ ?e 3 (tbe2_Signature t2) @ ?e 4 (tbe2_ResumptionID t2)) @
        [TypeEndOfContainer])"
      unfolding gv_Sigma2TBEData_def by (rule Marshal_GStruct) (simp add: marshal_octet_field)
    have "wire_message (gv_Sigma2TBEData t2)" using h by (simp add: wire_case max_alloc_def)
    then obtain bs where "Marshal (gv_Sigma2TBEData t2) = Ok bs" "decode_msg T_Sigma2TBEData of_Sigma2TBEData bs = Ok t2"
      using sent_received [of "gv_Sigma2TBEData t2" of_Sigma2TBEData t2 T_Sigma2TBEData] by auto
    with m h head len [of 1 "tbe2_ResponderNOC t2"] len [of 2 "tbe2_ResponderICAC t2"] len [of 3 "tbe2_Signature t2"]
      len [of 4 "tbe2_ResumptionID t2"] show ?thesis by auto
  qed
  show "\<exists>bs. Marshal (gv_Sigma3TBEData t3) = Ok bs \<and> length bs \<le> 65535 \<and>
       decode_msg T_Sigma3TBEData of_Sigma3TBEData bs = Ok t3"
    if h: "length (tbe3_InitiatorNOC t3) + length (tbe3_InitiatorICAC t3) \<le> 65000" "length (tbe3_Signature t3) = 64"
  proof -
    have m: "Marshal (gv_Sigma3TBEData t3) = Ok (head_bytes AnonymousTag TypeStructure @
        (?e 1 (tbe3_InitiatorNOC t3) @ ?e 2 (tbe3_InitiatorICAC t3) @ ?e 3 (tbe3_Signature t3)) @ [TypeEndOfContainer])"
      unfolding gv_Sigma3TBEData_def by (rule Marshal_GStruct) (simp add: marshal_octet_field)
    have "wire_message (gv_Sigma3TBEData t3)" using h by (simp add: wire_case max_alloc_def)
    then obtain bs where "Marshal (gv_Sigma3TBEData t3) = Ok bs" "decode_msg T_Sigma3TBEData of_Sigma3TBEData bs = Ok t3"
      using sent_received [of "gv_Sigma3TBEData t3" of_Sigma3TBEData t3 T_Sigma3TBEData] by auto
    with m h head len [of 1 "tbe3_InitiatorNOC t3"] len [of 2 "tbe3_InitiatorICAC t3"] len [of 3 "tbe3_Signature t3"]
    show ?thesis by auto
  qed
qed

lemma tbs_sent: "\<exists>bs. Marshal (gv_Sigma2TBSData noc icac k1 k2) = Ok bs" "\<exists>bs. Marshal (gv_Sigma3TBSData noc icac k1 k2) = Ok bs"
  unfolding gv_Sigma2TBSData_def gv_Sigma3TBSData_def
  by (intro exI, rule Marshal_GStruct, simp add: marshal_octet_field)+

subsection \<open>Keys of the handshake\<close>

definition caseNonceSigma2 :: "byte list" where "caseNonceSigma2 = ascii ''NCASE_Sigma2N''"

definition caseNonceSigma3 :: "byte list" where "caseNonceSigma3 = ascii ''NCASE_Sigma3N''"

definition hashTranscript :: "byte list list \<Rightarrow> byte list" where "hashTranscript parts = Sum256 (concat parts)"

definition ComputeDestinationID :: "byte list \<Rightarrow> byte list \<Rightarrow> byte list \<Rightarrow> u64 \<Rightarrow> u64 \<Rightarrow> byte list" where
  "ComputeDestinationID ipk initiatorRandom rootPubKey fabricID nodeID =
     hmac_sha256 ipk (initiatorRandom @ rootPubKey @ le_put 8 fabricID @ le_put 8 nodeID)"

definition sigma2_salt :: "byte list \<Rightarrow> byte list \<Rightarrow> byte list \<Rightarrow> byte list \<Rightarrow> byte list" where
  "sigma2_salt ipk responderRandom responderEphPubKey sigma1Bytes =
     concat [ipk, responderRandom, responderEphPubKey, Sum256 sigma1Bytes]"

definition sigma3_salt :: "byte list \<Rightarrow> byte list \<Rightarrow> byte list \<Rightarrow> byte list" where
  "sigma3_salt ipk sigma1Bytes sigma2Bytes = concat [ipk, hashTranscript [sigma1Bytes, sigma2Bytes]]"

text \<open>The session keys of the whole transcript.\<close>

definition case_session_keys ::
  "suite \<Rightarrow> byte list \<Rightarrow> byte list \<Rightarrow> byte list \<Rightarrow> byte list \<Rightarrow> byte list \<Rightarrow> SessionKeys res" where
  "case_session_keys S sharedSecret ipk sigma1Bytes sigma2Bytes sigma3Bytes =
     bind_res (HKDFSHA256 S sharedSecret (concat [ipk, hashTranscript [sigma1Bytes, sigma2Bytes, sigma3Bytes]])
       sessionKeysInfo DerivedKeyMaterialLength) (\<lambda>keys. Ok (split_keys keys))"

subsection \<open>The initiator\<close>

record CASEInitiatorConfig =
  cfg_SessionID :: u16
  cfg_NodeKey :: PrivateKey
  cfg_NOC :: "byte list"
  cfg_ICAC :: "byte list"
  cfg_IPK :: "byte list"
  cfg_RootPubKey :: "byte list"
  cfg_FabricID :: u64
  cfg_PeerNodeID :: u64

record CASEInitiator =
  ci_cfg :: CASEInitiatorConfig
  ci_ephPrivKey :: "PrivateKey option"
  ci_ephPubKeyBytes :: "byte list"
  ci_initiatorRandom :: "byte list"
  ci_sharedSecret :: "byte list"
  ci_sessionKeys :: "SessionKeys option"
  ci_responderEphPubKey :: "byte list"
  ci_sigma1Bytes :: "byte list"
  ci_sigma2Bytes :: "byte list"
  ci_sigma3Bytes :: "byte list"

definition NewCASEInitiator :: "CASEInitiatorConfig \<Rightarrow> CASEInitiator" where
  "NewCASEInitiator cfg = \<lparr>ci_cfg = cfg, ci_ephPrivKey = None, ci_ephPubKeyBytes = [], ci_initiatorRandom = [],
     ci_sharedSecret = [], ci_sessionKeys = None, ci_responderEphPubKey = [], ci_sigma1Bytes = [],
     ci_sigma2Bytes = [], ci_sigma3Bytes = []\<rparr>"

definition computeDestinationID :: "CASEInitiator \<Rightarrow> byte list" where
  "computeDestinationID c = ComputeDestinationID (cfg_IPK (ci_cfg c)) (ci_initiatorRandom c)
     (cfg_RootPubKey (ci_cfg c)) (cfg_FabricID (ci_cfg c)) (cfg_PeerNodeID (ci_cfg c))"

definition GenerateSigma1 :: "suite \<Rightarrow> int res \<Rightarrow> byte list res \<Rightarrow> (CASEInitiator, byte list) call" where
  "GenerateSigma1 S scalar rnd =
     call_bind (call_of ''secure: generating ephemeral key'' (GenerateKeyPair S scalar)) (\<lambda>ephKey.
     call_bind (call_set (\<lambda>c. c\<lparr>ci_ephPrivKey := Some ephKey\<rparr>)) (\<lambda>_.
     call_bind (\<lambda>c. (PublicKeyToUncompressed (pk_Public ephKey), c)) (\<lambda>pub.
     call_bind (call_set (\<lambda>c. c\<lparr>ci_ephPubKeyBytes := pub\<rparr>)) (\<lambda>_.
     call_bind (call_of ''secure: generating initiator random'' rnd) (\<lambda>random.
     call_bind (call_set (\<lambda>c. c\<lparr>ci_initiatorRandom := random\<rparr>)) (\<lambda>_ c.
     call_bind (call_of ''secure: marshaling Sigma1'' (Marshal (gv_Sigma1
         \<lparr>s1_InitiatorRandom = ci_initiatorRandom c, s1_InitiatorSessionID = cfg_SessionID (ci_cfg c),
          s1_DestinationID = computeDestinationID c, s1_InitiatorEphPubKey = ci_ephPubKeyBytes c\<rparr>))) (\<lambda>data.
     call_bind (call_set (\<lambda>c. c\<lparr>ci_sigma1Bytes := data\<rparr>)) (\<lambda>_. call_return data)) c))))))"

text \<open>
  The responder is identified by the signature alone: its certificate is not checked against the
  root of the fabric, nor its node identifier against the one that was asked for.
\<close>

definition ProcessSigma2 :: "suite \<Rightarrow> byte list \<Rightarrow> (CASEInitiator, unit) call" where
  "ProcessSigma2 S sigma2Bytes =
     call_bind (call_set (\<lambda>c. c\<lparr>ci_sigma2Bytes := sigma2Bytes\<rparr>)) (\<lambda>_.
     call_bind (call_of ''secure: unmarshaling Sigma2'' (decode_msg T_Sigma2 of_Sigma2 sigma2Bytes)) (\<lambda>sigma2.
     call_bind (call_set (\<lambda>c. c\<lparr>ci_responderEphPubKey := s2_ResponderEphPubKey sigma2\<rparr>)) (\<lambda>_.
     call_bind (call_of ''secure: parsing responder ephemeral public key''
       (PublicKeyFromUncompressed S (s2_ResponderEphPubKey sigma2))) (\<lambda>respPubKey c.
     case ci_ephPrivKey c of
       None \<Rightarrow> (Panic, c)
     | Some ephPrivKey \<Rightarrow>
         call_bind (call_of ''secure: computing ECDH shared secret'' (ECDH S ephPrivKey respPubKey)) (\<lambda>sharedSecret.
         call_bind (call_set (\<lambda>c. c\<lparr>ci_sharedSecret := sharedSecret\<rparr>)) (\<lambda>_.
         call_bind (call_of ''secure: deriving S2K'' (HKDFSHA256 S sharedSecret
           (sigma2_salt (cfg_IPK (ci_cfg c)) (s2_ResponderRandom sigma2) (s2_ResponderEphPubKey sigma2) (ci_sigma1Bytes c))
           (ascii ''Sigma2'') 16)) (\<lambda>s2k.
         call_bind (call_of ''secure: decrypting Sigma2 TBE''
           (AESCCMDecrypt s2k caseNonceSigma2 (s2_Encrypted2 sigma2) [])) (\<lambda>tbeBytes.
         call_bind (call_of ''secure: unmarshaling Sigma2 TBE''
           (decode_msg T_Sigma2TBEData of_Sigma2TBEData tbeBytes)) (\<lambda>tbe.
         call_bind (call_of ''secure: marshaling Sigma2 TBS'' (Marshal (gv_Sigma2TBSData (tbe2_ResponderNOC tbe)
           (tbe2_ResponderICAC tbe) (s2_ResponderEphPubKey sigma2) (ci_ephPubKeyBytes c)))) (\<lambda>tbsBytes.
         call_bind (call_of ''secure: extracting public key from responder NOC''
           (ExtractPublicKeyFromTLV S (tbe2_ResponderNOC tbe))) (\<lambda>respPubKeyFromNOC.
         if \<not> VerifyECDSARaw S respPubKeyFromNOC tbsBytes (tbe2_Signature tbe)
         then call_fail ''secure: Sigma2 signature verification failed''
         else call_return ()))))))) c))))"

definition GenerateSigma3 :: "suite \<Rightarrow> byte list \<Rightarrow> (CASEInitiator, byte list) call" where
  "GenerateSigma3 S rnd c =
     call_bind (call_of ''secure: marshaling Sigma3 TBS'' (Marshal (gv_Sigma3TBSData (cfg_NOC (ci_cfg c))
       (cfg_ICAC (ci_cfg c)) (ci_ephPubKeyBytes c) (ci_responderEphPubKey c)))) (\<lambda>tbsBytes.
     call_bind (call_of ''secure: signing Sigma3 TBS'' (SignECDSARaw S rnd (cfg_NodeKey (ci_cfg c)) tbsBytes)) (\<lambda>signature.
     call_bind (call_of ''secure: marshaling Sigma3 TBE'' (Marshal (gv_Sigma3TBEData
       \<lparr>tbe3_InitiatorNOC = cfg_NOC (ci_cfg c), tbe3_InitiatorICAC = cfg_ICAC (ci_cfg c),
        tbe3_Signature = signature\<rparr>))) (\<lambda>tbeBytes.
     call_bind (call_of ''secure: deriving S3K'' (HKDFSHA256 S (ci_sharedSecret c)
       (sigma3_salt (cfg_IPK (ci_cfg c)) (ci_sigma1Bytes c) (ci_sigma2Bytes c)) (ascii ''Sigma3'') 16)) (\<lambda>s3k.
     call_bind (call_of ''secure: encrypting Sigma3 TBE'' (AESCCMEncrypt s3k caseNonceSigma3 tbeBytes [])) (\<lambda>encrypted.
     call_bind (call_of ''secure: marshaling Sigma3'' (Marshal (gv_Sigma3 encrypted))) (\<lambda>data.
     call_bind (call_set (\<lambda>c. c\<lparr>ci_sigma3Bytes := data\<rparr>)) (\<lambda>_.
     call_bind (call_of ''secure: deriving session keys'' (case_session_keys S (ci_sharedSecret c)
       (cfg_IPK (ci_cfg c)) (ci_sigma1Bytes c) (ci_sigma2Bytes c) data)) (\<lambda>keys.
     call_bind (call_set (\<lambda>c. c\<lparr>ci_sessionKeys := Some keys\<rparr>)) (\<lambda>_.
     call_return data))))))))) c"

subsection \<open>The responder\<close>

record CASEResponderConfig =
  rcfg_SessionID :: u16
  rcfg_NodeKey :: PrivateKey
  rcfg_NOC :: "byte list"
  rcfg_ICAC :: "byte list"
  rcfg_IPK :: "byte list"
  rcfg_RootPubKey :: "byte list"
  rcfg_FabricID :: u64
  rcfg_NodeID :: u64

record CASEResponder =
  cr_cfg :: CASEResponderConfig
  cr_ephPrivKey :: "PrivateKey option"
  cr_ephPubKeyBytes :: "byte list"
  cr_initiatorEphPubKey :: "byte list"
  cr_sharedSecret :: "byte list"
  cr_sessionKeys :: "SessionKeys option"
  cr_sigma1Bytes :: "byte list"
  cr_sigma2Bytes :: "byte list"

definition NewCASEResponder :: "CASEResponderConfig \<Rightarrow> CASEResponder" where
  "NewCASEResponder cfg = \<lparr>cr_cfg = cfg, cr_ephPrivKey = None, cr_ephPubKeyBytes = [], cr_initiatorEphPubKey = [],
     cr_sharedSecret = [], cr_sessionKeys = None, cr_sigma1Bytes = [], cr_sigma2Bytes = []\<rparr>"

definition ProcessSigma1 ::
  "suite \<Rightarrow> int res \<Rightarrow> byte list res \<Rightarrow> byte list \<Rightarrow> byte list \<Rightarrow> (CASEResponder, byte list) call" where
  "ProcessSigma1 S scalar rnd signRnd sigma1Bytes =
     call_bind (call_set (\<lambda>r. r\<lparr>cr_sigma1Bytes := sigma1Bytes\<rparr>)) (\<lambda>_.
     call_bind (call_of ''secure: unmarshaling Sigma1'' (decode_msg T_Sigma1 of_Sigma1 sigma1Bytes)) (\<lambda>sigma1.
     call_bind (call_set (\<lambda>r. r\<lparr>cr_initiatorEphPubKey := s1_InitiatorEphPubKey sigma1\<rparr>)) (\<lambda>_.
     call_bind (call_of ''secure: generating ephemeral key'' (GenerateKeyPair S scalar)) (\<lambda>ephKey.
     call_bind (call_set (\<lambda>r. r\<lparr>cr_ephPrivKey := Some ephKey\<rparr>)) (\<lambda>_.
     call_bind (\<lambda>r. (PublicKeyToUncompressed (pk_Public ephKey), r)) (\<lambda>pub.
     call_bind (call_set (\<lambda>r. r\<lparr>cr_ephPubKeyBytes := pub\<rparr>)) (\<lambda>_.
     call_bind (call_of ''secure: parsing initiator ephemeral public key''
       (PublicKeyFromUncompressed S (s1_InitiatorEphPubKey sigma1))) (\<lambda>initiatorPubKey.
     call_bind (call_of ''secure: computing ECDH shared secret'' (ECDH S ephKey initiatorPubKey)) (\<lambda>sharedSecret.
     call_bind (call_set (\<lambda>r. r\<lparr>cr_sharedSecret := sharedSecret\<rparr>)) (\<lambda>_.
     call_bind (call_of ''secure: generating responder random'' rnd) (\<lambda>respRandom r.
     call_bind (call_of ''secure: marshaling Sigma2 TBS'' (Marshal (gv_Sigma2TBSData (rcfg_NOC (cr_cfg r))
       (rcfg_ICAC (cr_cfg r)) pub (s1_InitiatorEphPubKey sigma1)))) (\<lambda>tbsBytes.
     call_bind (call_of ''secure: signing Sigma2 TBS''
       (SignECDSARaw S signRnd (rcfg_NodeKey (cr_cfg r)) tbsBytes)) (\<lambda>signature.
     call_bind (call_of ''secure: marshaling Sigma2 TBE'' (Marshal (gv_Sigma2TBEData
       \<lparr>tbe2_ResponderNOC = rcfg_NOC (cr_cfg r), tbe2_ResponderICAC = rcfg_ICAC (cr_cfg r),
        tbe2_Signature = signature, tbe2_ResumptionID = []\<rparr>))) (\<lambda>tbeBytes.
     call_bind (call_of ''secure: deriving S2K'' (HKDFSHA256 S sharedSecret
       (sigma2_salt (rcfg_IPK (cr_cfg r)) respRandom pub sigma1Bytes) (ascii ''Sigma2'') 16)) (\<lambda>s2k.
     call_bind (call_of ''secure: encrypting Sigma2 TBE'' (AESCCMEncrypt s2k caseNonceSigma2 tbeBytes [])) (\<lambda>encrypted.
     call_bind (call_of ''secure: marshaling Sigma2'' (Marshal (gv_Sigma2
       \<lparr>s2_ResponderRandom = respRandom, s2_ResponderSessionID = rcfg_SessionID (cr_cfg r),
        s2_ResponderEphPubKey = pub, s2_Encrypted2 = encrypted\<rparr>))) (\<lambda>data.
     call_bind (call_set (\<lambda>r. r\<lparr>cr_sigma2Bytes := data\<rparr>)) (\<lambda>_. call_return data))))))) r)))))))))))"

definition ProcessSigma3 :: "suite \<Rightarrow> byte list \<Rightarrow> (CASEResponder, unit) call" where
  "ProcessSigma3 S sigma3Bytes r =
     call_bind (call_of ''secure: unmarshaling Sigma3'' (decode_msg T_Sigma3 of_Sigma3 sigma3Bytes)) (\<lambda>encrypted3.
     call_bind (call_of ''secure: deriving S3K'' (HKDFSHA256 S (cr_sharedSecret r)
       (sigma3_salt (rcfg_IPK (cr_cfg r)) (cr_sigma1Bytes r) (cr_sigma2Bytes r)) (ascii ''Sigma3'') 16)) (\<lambda>s3k.
     call_bind (call_of ''secure: decrypting Sigma3 TBE'' (AESCCMDecrypt s3k caseNonceSigma3 encrypted3 [])) (\<lambda>tbeBytes.
     call_bind (call_of ''secure: unmarshaling Sigma3 TBE''
       (decode_msg T_Sigma3TBEData of_Sigma3TBEData tbeBytes)) (\<lambda>tbe.
     call_bind (call_of ''secure: marshaling Sigma3 TBS'' (Marshal (gv_Sigma3TBSData (tbe3_InitiatorNOC tbe)
       (tbe3_InitiatorICAC tbe) (cr_initiatorEphPubKey r) (cr_ephPubKeyBytes r)))) (\<lambda>tbsBytes.
     call_bind (call_of ''secure: extracting public key from initiator NOC''
       (ExtractPublicKeyFromTLV S (tbe3_InitiatorNOC tbe))) (\<lambda>initiatorPubKey.
     if \<not> VerifyECDSARaw S initiatorPubKey tbsBytes (tbe3_Signature tbe)
     then call_fail ''secure: Sigma3 signature verification failed''
     else
       call_bind (call_of ''secure: deriving session keys'' (case_session_keys S (cr_sharedSecret r)
         (rcfg_IPK (cr_cfg r)) (cr_sigma1Bytes r) (cr_sigma2Bytes r) sigma3Bytes)) (\<lambda>keys.
       call_set (\<lambda>r. r\<lparr>cr_sessionKeys := Some keys\<rparr>)))))))) r"

subsection \<open>The handshake over an exchange\<close>

definition EstablishCASE ::
  "suite \<Rightarrow> int res \<Rightarrow> byte list res \<Rightarrow> byte list \<Rightarrow> Exchange \<Rightarrow> CASEInitiatorConfig \<Rightarrow> (SessionKeys option \<times> u16) io" where
  "EstablishCASE S scalar rnd signRnd ex cfg =
     side ''secure: generating Sigma1'' (GenerateSigma1 S scalar rnd) (NewCASEInitiator cfg) (\<lambda>sigma1Bytes c.
     io_bind (io_wrap ''secure: sending Sigma1'' (sendSecureChannelMsg ex OpcodeSigma1 sigma1Bytes)) (\<lambda>_.
     io_bind (io_wrap ''secure: receiving Sigma2'' io_Receive) (\<lambda>sigma2Msg.
     if opcode_of sigma2Msg = OpcodeStatusReport
     then io_fail (IErr (parseStatusReportError (Payload sigma2Msg) ''CASE Sigma2 rejected''))
     else
       side ''secure: processing Sigma2'' (ProcessSigma2 S (Payload sigma2Msg)) c (\<lambda>_ c.
       side ''secure: generating Sigma3'' (GenerateSigma3 S signRnd) c (\<lambda>sigma3Bytes c.
       io_bind (io_wrap ''secure: sending Sigma3'' (sendSecureChannelMsg ex OpcodeSigma3 sigma3Bytes)) (\<lambda>_.
       io_bind (io_wrap ''secure: receiving status report'' io_Receive) (\<lambda>statusMsg.
       io_bind (want_status_report statusMsg) (\<lambda>_.
       io_bind (io_wrap ''secure: re-parsing Sigma2 for session ID''
         (io_of (decode_msg T_Sigma2 of_Sigma2 (Payload sigma2Msg)))) (\<lambda>sigma2.
       io_return (ci_sessionKeys c, s2_ResponderSessionID sigma2))))))))))"

end
