(* ===== verification/Case_Agreement.thy ===== *)
theory Case_Agreement
  imports Case
begin

text \<open>
  What a CASE handshake achieves: an initiator and a responder that hold the same identity protection
  key, each with a certificate of its own key, accept each other's messages and end with the same
  keys.
\<close>

subsection \<open>One handshake\<close>

record case_setup =
  cs_I :: CASEInitiatorConfig
  cs_R :: CASEResponderConfig
  cs_x :: int
  cs_y :: int
  cs_randomI :: "byte list"
  cs_randomR :: "byte list"
  cs_signI :: "byte list"
  cs_signR :: "byte list"

text \<open>
  A node key and a certificate that contains it: any certificate, whoever issued it.  The random
  values are those the system delivered, and signing succeeds.
\<close>

definition identity_ok :: "suite \<Rightarrow> PrivateKey \<Rightarrow> byte list \<Rightarrow> byte list \<Rightarrow> byte list \<Rightarrow> bool" where
  "identity_ok S key noc icac rnd \<longleftrightarrow> key_ok S key \<and> ExtractPublicKeyFromTLV S noc = Ok (pk_Public key) \<and>
     length noc + length icac \<le> 65000 \<and> (\<forall>hash. \<exists>r s. ecdsa_Sign S (pk_D key) hash rnd = Ok (r, s))"

definition case_ready :: "suite \<Rightarrow> case_setup \<Rightarrow> bool" where
  "case_ready S u \<longleftrightarrow>
     cfg_IPK (cs_I u) = rcfg_IPK (cs_R u) \<and>
     identity_ok S (cfg_NodeKey (cs_I u)) (cfg_NOC (cs_I u)) (cfg_ICAC (cs_I u)) (cs_signI u) \<and>
     identity_ok S (rcfg_NodeKey (cs_R u)) (rcfg_NOC (cs_R u)) (rcfg_ICAC (cs_R u)) (cs_signR u) \<and>
     0 < cs_x u \<and> cs_x u < P256_N S \<and> 0 < cs_y u \<and> cs_y u < P256_N S \<and>
     length (cs_randomI u) = 32 \<and> length (cs_randomR u) = 32"

definition case_run :: "suite \<Rightarrow> case_setup \<Rightarrow> byte list \<Rightarrow> byte list \<Rightarrow> byte list \<Rightarrow> SessionKeys \<Rightarrow> bool" where
  "case_run S u sigma1 sigma2 sigma3 keys \<longleftrightarrow>
     (\<exists>c1 c2 c3 r1 r2.
       GenerateSigma1 S (Ok (cs_x u)) (Ok (cs_randomI u)) (NewCASEInitiator (cs_I u)) = (Ok sigma1, c1) \<and>
       ProcessSigma1 S (Ok (cs_y u)) (Ok (cs_randomR u)) (cs_signR u) sigma1 (NewCASEResponder (cs_R u)) = (Ok sigma2, r1) \<and>
       ProcessSigma2 S sigma2 c1 = (Ok (), c2) \<and>
       GenerateSigma3 S (cs_signI u) c2 = (Ok sigma3, c3) \<and>
       ProcessSigma3 S sigma3 r1 = (Ok (), r2) \<and>
       ci_sessionKeys c3 = Some keys \<and> cr_sessionKeys r2 = Some keys)"

subsection \<open>Its parts\<close>

definition fresh_key :: "suite \<Rightarrow> int \<Rightarrow> PrivateKey" where
  "fresh_key S d = \<lparr>pk_D = d, pk_Public = curve_ScalarBaseMult S (int_Bytes d)\<rparr>"

lemma GenerateKeyPair_Ok: "GenerateKeyPair S (Ok d) = Ok (fresh_key S d)"
  by (simp add: GenerateKeyPair_def fresh_key_def)

lemma fresh_key_ok: "0 < d \<Longrightarrow> d < P256_N S \<Longrightarrow> key_ok S (fresh_key S d)"
  by (simp add: key_ok_def fresh_key_def)

text \<open>The encoding of a fresh public key.\<close>

lemma fresh_key_encoding:
  assumes "curve_laws S pt" and "0 < d" "d < P256_N S"
  obtains b where "PublicKeyToUncompressed (pk_Public (fresh_key S d)) = Ok b" and "length b = 65"
    and "PublicKeyFromUncompressed S b = Ok (pk_Public (fresh_key S d))"
proof -
  note k = key_ok_public [OF assms(1) fresh_key_ok [OF assms(2,3)]]
  show ?thesis by (rule point_encoding [OF assms(1), of d]) (use k that in \<open>auto simp: fresh_key_def\<close>)
qed

text \<open>A side signs what the other verifies.\<close>

lemma identity_signs:
  assumes "ecdsa_laws S" and "identity_ok S key noc icac rnd"
  obtains sig where "SignECDSARaw S rnd key msg = Ok sig" and "length sig = 64"
    and "VerifyECDSARaw S (pk_Public key) msg sig"
proof -
  obtain r s where "ecdsa_Sign S (pk_D key) (Sum256 msg) rnd = Ok (r, s)"
    using assms(2) unfolding identity_ok_def by blast
  moreover have "pk_Public key = curve_ScalarBaseMult S (int_Bytes (pk_D key))"
    using assms(2) by (simp add: identity_ok_def key_ok_def)
  ultimately show ?thesis using sign_verify [OF assms(1)] that by blast
qed

lemma sealed:
  assumes "length key = 16" and "length nonce = 13" and "length pt \<le> 65535"
  obtains ct where "AESCCMEncrypt key nonce pt [] = Ok ct" and "AESCCMDecrypt key nonce ct [] = Ok pt"
    and "length ct \<le> 65551"
  using ccm.enc_ok [OF assms, of "[]"] ccm.dec_enc ccm.enc_length assms(3) by fastforce

lemma nonce_lengths [simp]: "length caseNonceSigma2 = 13" "length caseNonceSigma3 = 13"
  by (simp_all add: caseNonceSigma2_def caseNonceSigma3_def ascii_def)

lemma small_key: "length b = 65 \<Longrightarrow> length b \<le> max_alloc"
  by (simp add: max_alloc_def)

lemma case_session_keys_ok:
  assumes "kdf_laws S"
  obtains keys where "case_session_keys S secret ipk m1 m2 m3 = Ok keys" and "good_keys keys"
proof -
  have n: "DerivedKeyMaterialLength \<le> 255 * 32" by (simp add: const_defs)
  obtain out where "HKDFSHA256 S secret (concat [ipk, hashTranscript [m1, m2, m3]]) sessionKeysInfo DerivedKeyMaterialLength = Ok out"
      "length out = DerivedKeyMaterialLength"
    by (rule HKDF_ok [OF assms n])
  then show ?thesis using that good_split_keys [of out] by (simp add: case_session_keys_def const_defs)
qed

lemma HKDF_16:
  assumes "kdf_laws S" obtains k where "HKDFSHA256 S ikm salt info 16 = Ok k" and "length k = 16"
  by (rule HKDF_ok [OF assms, of 16]) simp_all

subsection \<open>The handshake, message by message\<close>

lemma sigma1_exchanged:
  assumes C: "curve_laws S pt" and R: "case_ready S u"
  obtains sigma1 kx where
    "GenerateSigma1 S (Ok (cs_x u)) (Ok (cs_randomI u)) (NewCASEInitiator (cs_I u)) =
       (Ok sigma1, (NewCASEInitiator (cs_I u))\<lparr>ci_ephPrivKey := Some (fresh_key S (cs_x u)), ci_ephPubKeyBytes := kx,
         ci_initiatorRandom := cs_randomI u, ci_sigma1Bytes := sigma1\<rparr>)"
    and "\<exists>m. decode_msg T_Sigma1 of_Sigma1 sigma1 = Ok m \<and> s1_InitiatorEphPubKey m = kx"
    and "length kx = 65" and "PublicKeyFromUncompressed S kx = Ok (pk_Public (fresh_key S (cs_x u)))"
proof -
  obtain kx where kx: "PublicKeyToUncompressed (pk_Public (fresh_key S (cs_x u))) = Ok kx" "length kx = 65"
      "PublicKeyFromUncompressed S kx = Ok (pk_Public (fresh_key S (cs_x u)))"
    by (rule fresh_key_encoding [OF C]) (use R in \<open>auto simp: case_ready_def\<close>)
  define m where "m = \<lparr>s1_InitiatorRandom = cs_randomI u, s1_InitiatorSessionID = cfg_SessionID (cs_I u),
      s1_DestinationID = ComputeDestinationID (cfg_IPK (cs_I u)) (cs_randomI u) (cfg_RootPubKey (cs_I u))
        (cfg_FabricID (cs_I u)) (cfg_PeerNodeID (cs_I u)), s1_InitiatorEphPubKey = kx\<rparr>"
  have "length (cs_randomI u) = 32" using R by (simp add: case_ready_def)
  then obtain bs where bs: "Marshal (gv_Sigma1 m) = Ok bs" "decode_msg T_Sigma1 of_Sigma1 bs = Ok m"
    using case_sent(1) [of m] kx(2) by (auto simp: m_def ComputeDestinationID_def max_alloc_def)
  show ?thesis
  proof (rule that [of bs kx])
    show "GenerateSigma1 S (Ok (cs_x u)) (Ok (cs_randomI u)) (NewCASEInitiator (cs_I u)) =
       (Ok bs, (NewCASEInitiator (cs_I u))\<lparr>ci_ephPrivKey := Some (fresh_key S (cs_x u)), ci_ephPubKeyBytes := kx,
         ci_initiatorRandom := cs_randomI u, ci_sigma1Bytes := bs\<rparr>)"
      using kx(1) bs(1) by (simp add: GenerateSigma1_def call_defs GenerateKeyPair_Ok NewCASEInitiator_def
          computeDestinationID_def m_def)
  qed (use bs(2) kx(2,3) in \<open>auto simp: m_def\<close>)
qed

text \<open>The initiator accepts the second message and takes over the key and the secret.\<close>

definition accepts_sigma2 ::
  "suite \<Rightarrow> case_setup \<Rightarrow> byte list \<Rightarrow> byte list \<Rightarrow> byte list \<Rightarrow> byte list \<Rightarrow> byte list \<Rightarrow> bool" where
  "accepts_sigma2 S u sigma1 kx sigma2 ky secret \<longleftrightarrow> (\<forall>c :: CASEInitiator.
     ci_cfg c = cs_I u \<and> ci_ephPrivKey c = Some (fresh_key S (cs_x u)) \<and> ci_ephPubKeyBytes c = kx \<and>
     ci_sigma1Bytes c = sigma1 \<longrightarrow>
     ProcessSigma2 S sigma2 c = (Ok (), c\<lparr>ci_responderEphPubKey := ky, ci_sharedSecret := secret, ci_sigma2Bytes := sigma2\<rparr>))"

lemma sigma2_exchanged:
  assumes C: "curve_laws S pt" and K: "kdf_laws S" and E: "ecdsa_laws S" and R: "case_ready S u"
    and m: "decode_msg T_Sigma1 of_Sigma1 sigma1 = Ok m" "s1_InitiatorEphPubKey m = kx" "length kx = 65"
      "PublicKeyFromUncompressed S kx = Ok (pk_Public (fresh_key S (cs_x u)))"
  obtains sigma2 ky secret r1 where
    "ProcessSigma1 S (Ok (cs_y u)) (Ok (cs_randomR u)) (cs_signR u) sigma1 (NewCASEResponder (cs_R u)) = (Ok sigma2, r1)"
    and "r1 = (NewCASEResponder (cs_R u))\<lparr>cr_ephPrivKey := Some (fresh_key S (cs_y u)), cr_ephPubKeyBytes := ky,
         cr_initiatorEphPubKey := kx, cr_sharedSecret := secret, cr_sigma1Bytes := sigma1, cr_sigma2Bytes := sigma2\<rparr>"
    and "accepts_sigma2 S u sigma1 kx sigma2 ky secret"
    and "\<exists>s. decode_msg T_Sigma2 of_Sigma2 sigma2 = Ok s \<and> s2_ResponderSessionID s = rcfg_SessionID (cs_R u)"
proof -
  let ?kx = "fresh_key S (cs_x u)" and ?ky = "fresh_key S (cs_y u)"
  have id: "identity_ok S (rcfg_NodeKey (cs_R u)) (rcfg_NOC (cs_R u)) (rcfg_ICAC (cs_R u)) (cs_signR u)"
    and rr: "length (cs_randomR u) = 32" and ipk: "cfg_IPK (cs_I u) = rcfg_IPK (cs_R u)"
    and x: "0 < cs_x u" "cs_x u < P256_N S" and y: "0 < cs_y u" "cs_y u < P256_N S"
    using R by (simp_all add: case_ready_def)
  obtain ky where ky: "PublicKeyToUncompressed (pk_Public ?ky) = Ok ky" "length ky = 65"
      "PublicKeyFromUncompressed S ky = Ok (pk_Public ?ky)"
    by (rule fresh_key_encoding [OF C y])
  obtain secret where secret: "ECDH S ?kx (pk_Public ?ky) = Ok secret" "ECDH S ?ky (pk_Public ?kx) = Ok secret"
    by (rule ECDH_agree [OF C fresh_key_ok [OF x] fresh_key_ok [OF y]])
  obtain tbs where tbs: "Marshal (gv_Sigma2TBSData (rcfg_NOC (cs_R u)) (rcfg_ICAC (cs_R u)) ky kx) = Ok tbs"
    using tbs_sent(1) by blast
  obtain sig where sig: "SignECDSARaw S (cs_signR u) (rcfg_NodeKey (cs_R u)) tbs = Ok sig" "length sig = 64"
      "VerifyECDSARaw S (pk_Public (rcfg_NodeKey (cs_R u))) tbs sig"
    by (rule identity_signs [OF E id])
  define t where "t = \<lparr>tbe2_ResponderNOC = rcfg_NOC (cs_R u), tbe2_ResponderICAC = rcfg_ICAC (cs_R u),
    tbe2_Signature = sig, tbe2_ResumptionID = []\<rparr>"
  obtain tbe where tbe: "Marshal (gv_Sigma2TBEData t) = Ok tbe" "length tbe \<le> 65535"
      "decode_msg T_Sigma2TBEData of_Sigma2TBEData tbe = Ok t"
    using tbe_sent(1) [of t] id sig(2) by (auto simp: t_def identity_ok_def)
  obtain s2k where s2k: "HKDFSHA256 S secret (sigma2_salt (rcfg_IPK (cs_R u)) (cs_randomR u) ky sigma1) (ascii ''Sigma2'') 16 = Ok s2k"
      "length s2k = 16" by (rule HKDF_16 [OF K])
  obtain ct where ct: "AESCCMEncrypt s2k caseNonceSigma2 tbe [] = Ok ct" "AESCCMDecrypt s2k caseNonceSigma2 ct [] = Ok tbe"
      "length ct \<le> 65551" by (rule sealed [OF s2k(2) nonce_lengths(1) tbe(2)])
  define m2 where "m2 = \<lparr>s2_ResponderRandom = cs_randomR u, s2_ResponderSessionID = rcfg_SessionID (cs_R u),
    s2_ResponderEphPubKey = ky, s2_Encrypted2 = ct\<rparr>"
  obtain sigma2 where s2: "Marshal (gv_Sigma2 m2) = Ok sigma2" "decode_msg T_Sigma2 of_Sigma2 sigma2 = Ok m2"
    using case_sent(2) [of m2] rr ky(2) ct(3) by (auto simp: m2_def max_alloc_def)
  show ?thesis
  proof (rule that [OF _ refl])
    show "ProcessSigma1 S (Ok (cs_y u)) (Ok (cs_randomR u)) (cs_signR u) sigma1 (NewCASEResponder (cs_R u)) =
       (Ok sigma2, (NewCASEResponder (cs_R u))\<lparr>cr_ephPrivKey := Some ?ky, cr_ephPubKeyBytes := ky,
         cr_initiatorEphPubKey := kx, cr_sharedSecret := secret, cr_sigma1Bytes := sigma1, cr_sigma2Bytes := sigma2\<rparr>)"
      using m ky(1) secret(2) tbs sig(1) tbe(1) s2k(1) ct(1) s2(1)
      by (simp add: ProcessSigma1_def call_defs GenerateKeyPair_Ok NewCASEResponder_def t_def m2_def)
    show "accepts_sigma2 S u sigma1 kx sigma2 ky secret" unfolding accepts_sigma2_def
    proof (intro allI impI)
      fix c :: CASEInitiator
      assume c: "ci_cfg c = cs_I u \<and> ci_ephPrivKey c = Some ?kx \<and> ci_ephPubKeyBytes c = kx \<and> ci_sigma1Bytes c = sigma1"
      show "ProcessSigma2 S sigma2 c = (Ok (), c\<lparr>ci_responderEphPubKey := ky, ci_sharedSecret := secret, ci_sigma2Bytes := sigma2\<rparr>)"
        using c s2(2) ky(3) secret(1) s2k(1) ct(2) tbe(3) tbs sig(3) id ipk
        by (cases c) (simp add: ProcessSigma2_def call_defs m2_def t_def identity_ok_def)
    qed
  qed (use s2(2) in \<open>simp add: m2_def\<close>)
qed

lemma sigma3_exchanged:
  fixes c2 :: CASEInitiator and r1 :: CASEResponder
  assumes K: "kdf_laws S" and E: "ecdsa_laws S" and R: "case_ready S u"
    and c2: "ci_cfg c2 = cs_I u" "ci_ephPubKeyBytes c2 = kx" "ci_responderEphPubKey c2 = ky" "ci_sharedSecret c2 = secret"
      "ci_sigma1Bytes c2 = sigma1" "ci_sigma2Bytes c2 = sigma2"
    and r1: "cr_cfg r1 = cs_R u" "cr_ephPubKeyBytes r1 = ky" "cr_initiatorEphPubKey r1 = kx" "cr_sharedSecret r1 = secret"
      "cr_sigma1Bytes r1 = sigma1" "cr_sigma2Bytes r1 = sigma2"
  obtains sigma3 keys where
    "GenerateSigma3 S (cs_signI u) c2 = (Ok sigma3, c2\<lparr>ci_sigma3Bytes := sigma3, ci_sessionKeys := Some keys\<rparr>)"
    and "ProcessSigma3 S sigma3 r1 = (Ok (), r1\<lparr>cr_sessionKeys := Some keys\<rparr>)" and "good_keys keys"
proof -
  have id: "identity_ok S (cfg_NodeKey (cs_I u)) (cfg_NOC (cs_I u)) (cfg_ICAC (cs_I u)) (cs_signI u)"
    and ipk: "cfg_IPK (cs_I u) = rcfg_IPK (cs_R u)"
    using R by (simp_all add: case_ready_def)
  obtain tbs where tbs: "Marshal (gv_Sigma3TBSData (cfg_NOC (cs_I u)) (cfg_ICAC (cs_I u)) kx ky) = Ok tbs"
    using tbs_sent(2) by blast
  obtain sig where sig: "SignECDSARaw S (cs_signI u) (cfg_NodeKey (cs_I u)) tbs = Ok sig" "length sig = 64"
      "VerifyECDSARaw S (pk_Public (cfg_NodeKey (cs_I u))) tbs sig"
    by (rule identity_signs [OF E id])
  define t where "t = \<lparr>tbe3_InitiatorNOC = cfg_NOC (cs_I u), tbe3_InitiatorICAC = cfg_ICAC (cs_I u), tbe3_Signature = sig\<rparr>"
  obtain tbe where tbe: "Marshal (gv_Sigma3TBEData t) = Ok tbe" "length tbe \<le> 65535"
      "decode_msg T_Sigma3TBEData of_Sigma3TBEData tbe = Ok t"
    using tbe_sent(2) [of t] id sig(2) by (auto simp: t_def identity_ok_def)
  obtain s3k where s3k: "HKDFSHA256 S secret (sigma3_salt (rcfg_IPK (cs_R u)) sigma1 sigma2) (ascii ''Sigma3'') 16 = Ok s3k"
      "length s3k = 16" by (rule HKDF_16 [OF K])
  obtain ct where ct: "AESCCMEncrypt s3k caseNonceSigma3 tbe [] = Ok ct" "AESCCMDecrypt s3k caseNonceSigma3 ct [] = Ok tbe"
      "length ct \<le> 65551" by (rule sealed [OF s3k(2) nonce_lengths(2) tbe(2)])
  obtain sigma3 where s3: "Marshal (gv_Sigma3 ct) = Ok sigma3" "decode_msg T_Sigma3 of_Sigma3 sigma3 = Ok ct"
    using case_sent(3) [of ct] ct(3) by (auto simp: max_alloc_def)
  obtain keys where keys: "case_session_keys S secret (rcfg_IPK (cs_R u)) sigma1 sigma2 sigma3 = Ok keys" "good_keys keys"
    by (rule case_session_keys_ok [OF K])
  show ?thesis
  proof (rule that [OF _ _ keys(2)])
    show "GenerateSigma3 S (cs_signI u) c2 = (Ok sigma3, c2\<lparr>ci_sigma3Bytes := sigma3, ci_sessionKeys := Some keys\<rparr>)"
      using c2 tbs sig(1) tbe(1) s3k(1) ct(1) s3(1) keys(1) ipk
      by (simp add: GenerateSigma3_def call_defs t_def)
    show "ProcessSigma3 S sigma3 r1 = (Ok (), r1\<lparr>cr_sessionKeys := Some keys\<rparr>)"
      using r1 tbs sig(3) tbe(3) s3k(1) ct(2) s3(2) keys(1) id
      by (simp add: ProcessSigma3_def call_defs t_def identity_ok_def)
  qed
qed

lemma case_completes:
  assumes C: "curve_laws S pt" and K: "kdf_laws S" and E: "ecdsa_laws S" and R: "case_ready S u"
  obtains sigma1 sigma2 sigma3 keys where "case_run S u sigma1 sigma2 sigma3 keys" and "good_keys keys"
    and "\<exists>s. decode_msg T_Sigma2 of_Sigma2 sigma2 = Ok s \<and> s2_ResponderSessionID s = rcfg_SessionID (cs_R u)"
proof -
  obtain sigma1 kx where 1: "GenerateSigma1 S (Ok (cs_x u)) (Ok (cs_randomI u)) (NewCASEInitiator (cs_I u)) =
       (Ok sigma1, (NewCASEInitiator (cs_I u))\<lparr>ci_ephPrivKey := Some (fresh_key S (cs_x u)), ci_ephPubKeyBytes := kx,
         ci_initiatorRandom := cs_randomI u, ci_sigma1Bytes := sigma1\<rparr>)" (is "_ = (_, ?c1)")
      "\<exists>m. decode_msg T_Sigma1 of_Sigma1 sigma1 = Ok m \<and> s1_InitiatorEphPubKey m = kx"
      "length kx = 65" "PublicKeyFromUncompressed S kx = Ok (pk_Public (fresh_key S (cs_x u)))"
    by (rule sigma1_exchanged [OF C R])
  then obtain m where m: "decode_msg T_Sigma1 of_Sigma1 sigma1 = Ok m" "s1_InitiatorEphPubKey m = kx" by blast
  obtain sigma2 ky secret r1 where 2:
    "ProcessSigma1 S (Ok (cs_y u)) (Ok (cs_randomR u)) (cs_signR u) sigma1 (NewCASEResponder (cs_R u)) = (Ok sigma2, r1)"
    "r1 = (NewCASEResponder (cs_R u))\<lparr>cr_ephPrivKey := Some (fresh_key S (cs_y u)), cr_ephPubKeyBytes := ky,
       cr_initiatorEphPubKey := kx, cr_sharedSecret := secret, cr_sigma1Bytes := sigma1, cr_sigma2Bytes := sigma2\<rparr>"
    "accepts_sigma2 S u sigma1 kx sigma2 ky secret"
    "\<exists>s. decode_msg T_Sigma2 of_Sigma2 sigma2 = Ok s \<and> s2_ResponderSessionID s = rcfg_SessionID (cs_R u)"
    by (rule sigma2_exchanged [OF C K E R m 1(3,4)])
  let ?c2 = "?c1\<lparr>ci_responderEphPubKey := ky, ci_sharedSecret := secret, ci_sigma2Bytes := sigma2\<rparr>"
  have p2: "ProcessSigma2 S sigma2 ?c1 = (Ok (), ?c2)" 
    using 2(3) by (simp add: accepts_sigma2_def NewCASEInitiator_def)
  obtain sigma3 keys where 3:
    "GenerateSigma3 S (cs_signI u) ?c2 = (Ok sigma3, ?c2\<lparr>ci_sigma3Bytes := sigma3, ci_sessionKeys := Some keys\<rparr>)"
    "ProcessSigma3 S sigma3 r1 = (Ok (), r1\<lparr>cr_sessionKeys := Some keys\<rparr>)" "good_keys keys"
    by (rule sigma3_exchanged [OF K E R, of ?c2 kx ky secret sigma1 sigma2 r1])
      (simp_all add: 2(2) NewCASEInitiator_def NewCASEResponder_def)
  have "case_run S u sigma1 sigma2 sigma3 keys" unfolding case_run_def using 1(1) 2(1) p2 3(1,2) by fastforce
  with 3(3) 2(4) show ?thesis using that by blast
qed

end
