(* ===== verification/Secure.thy ===== *)
theory Secure
  imports Pase_Confirmation Case_Agreement
begin

text \<open>
  The properties of session establishment: what the two handshakes achieve over an exchange, what an
  accepted PASE confirmation proves, which certificates CASE accepts, and the key of a converted
  certificate.
\<close>

subsection \<open>The handshakes over an exchange\<close>

lemma opcode_secure_message [simp]: "opcode_of (secure_message op payload) = op"
  by (simp add: secure_message_def opcode_of_def)

lemma io_wrap_Val: "m s = (Val x, s') \<Longrightarrow> io_bind (io_wrap what m) k s = k x s'"
  by (simp add: io_bind_def io_wrap_def)

lemma io_wrap_receive: "inbox s = Ok m # ms \<Longrightarrow> io_bind (io_wrap what io_Receive) k s = k m (s\<lparr>inbox := ms\<rparr>)"
  by (rule io_wrap_Val) (simp add: io_Receive.simps)

lemma io_wrap_send:
  "quiet (ex_SendFunc ex) \<Longrightarrow> io_bind (io_wrap what (sendSecureChannelMsg ex op payload)) k s =
     k () (s\<lparr>outbox := outbox s @ [stamped ex (secure_message op payload)]\<rparr>)"
  by (rule io_wrap_Val) (rule sendSecureChannelMsg_quiet)

lemma io_wrap_of: "io_bind (io_wrap what (io_of (Ok x))) k s = k x s"
  by (rule io_wrap_Val) (simp add: io_of_def)

lemma io_bind_status: "opcode_of m = OpcodeStatusReport \<Longrightarrow> io_bind (want_status_report m) k s = k () s"
  by (simp add: want_status_report_def io_bind_def io_return_def)

lemmas handshake_steps = io_wrap_receive io_wrap_send io_wrap_of io_bind_status side_def

lemma EstablishPASE_run:
  assumes "pase_run S u req resp pake1 pake2 pake3 keys" and q: "quiet (ex_SendFunc ex)"
    and "Payload m1 = resp" "Payload m2 = pake2" "opcode_of st = OpcodeStatusReport"
  shows "EstablishPASE S (Ok (su_randomI u)) (Ok (su_x u)) ex (su_passcode u) (su_sidI u)
      \<lparr>inbox = Ok m1 # Ok m2 # Ok st # rest, outbox = out\<rparr> =
    (Val (Some keys, su_sidR u), \<lparr>inbox = rest, outbox = out @ map (stamped ex)
      [secure_message OpcodePBKDFParamRequest req, secure_message OpcodePASEPake1 pake1, secure_message OpcodePASEPake3 pake3]\<rparr>)"
proof -
  obtain i1 i2 i3 where i: "GeneratePBKDFParamRequest (Ok (su_randomI u)) (initiator0 u) = (Ok req, i1)"
      "ProcessPBKDFParamResponse S (Ok (su_x u)) req resp i1 = (Ok (pake1, su_sidR u), i2)"
      "ProcessPAKE2 S pake2 i2 = (Ok pake3, i3)" "pi_sessionKeys i3 = Some keys"
    using assms(1) unfolding pase_run_def by blast
  show ?thesis
    using assms(3-5) i
    by (simp add: EstablishPASE_def initiator0_def handshake_steps q io_return_def)
qed

lemma EstablishCASE_run:
  assumes "case_run S u sigma1 sigma2 sigma3 keys" and q: "quiet (ex_SendFunc ex)"
    and "Payload m = sigma2" "opcode_of m \<noteq> OpcodeStatusReport" "opcode_of st = OpcodeStatusReport"
    and "decode_msg T_Sigma2 of_Sigma2 sigma2 = Ok s2"
  shows "EstablishCASE S (Ok (cs_x u)) (Ok (cs_randomI u)) (cs_signI u) ex (cs_I u)
      \<lparr>inbox = Ok m # Ok st # rest, outbox = out\<rparr> =
    (Val (Some keys, s2_ResponderSessionID s2), \<lparr>inbox = rest, outbox = out @ map (stamped ex)
      [secure_message OpcodeSigma1 sigma1, secure_message OpcodeSigma3 sigma3]\<rparr>)"
proof -
  obtain c1 c2 c3 where c: "GenerateSigma1 S (Ok (cs_x u)) (Ok (cs_randomI u)) (NewCASEInitiator (cs_I u)) = (Ok sigma1, c1)"
      "ProcessSigma2 S sigma2 c1 = (Ok (), c2)" "GenerateSigma3 S (cs_signI u) c2 = (Ok sigma3, c3)"
      "ci_sessionKeys c3 = Some keys"
    using assms(1) unfolding case_run_def by blast
  show ?thesis
    using assms(3-6) c
    by (simp add: EstablishCASE_def handshake_steps q io_return_def)
qed

subsection \<open>An instance of the suite\<close>

text \<open>
  The laws can hold: a group of five points, with signatures that are always valid and constant key
  derivations.
\<close>

definition mini_pt :: "int \<Rightarrow> point" where
  "mini_pt a = (if a mod 5 = 0 then (0, 0) else if a mod 5 = 1 then (1, 1) else if a mod 5 = 2 then (2, 1)
     else if a mod 5 = 3 then (2, 6) else (1, 6))"

definition mini_log :: "point \<Rightarrow> int" where
  "mini_log q = (if q = (1, 1) then 1 else if q = (2, 1) then 2 else if q = (2, 6) then 3 else if q = (1, 6) then 4 else 0)"

definition mini_certificate :: Certificate where
  "mini_certificate = \<lparr>ct_SerialNumber = 200, ct_Issuer = [(''1.3.6.1.4.1.37244.1.4'', Some ''0A'')], ct_Subject = [],
     ct_NotBefore = 0, ct_NotAfter = 2000000000, ct_PublicKey = Some (mini_pt 1), ct_BasicConstraintsValid = True,
     ct_IsCA = True, ct_MaxPathLen = 1, ct_KeyUsage = 96, ct_ExtKeyUsage = [1, 2], ct_SubjectKeyId = [],
     ct_AuthorityKeyId = [1], ct_Signature = [0x30]\<rparr>"

definition mini_suite :: suite where
  "mini_suite = \<lparr>P256_P = 7, P256_N = 5, IsOnCurve = (\<lambda>q. q \<in> {(1, 1), (2, 1), (2, 6), (1, 6)}),
     raw_Add = (\<lambda>p q. mini_pt (mini_log p + mini_log q)),
     raw_ScalarMult = (\<lambda>p k. mini_pt (mini_log p * big_SetBytes k)), P256_G = (1, 1),
     UnmarshalCompressed = (\<lambda>bs. Some (mini_pt (uint (hd bs) - 1))),
     ecdsa_Sign = (\<lambda>d hash rnd. Ok (1, 1)), ecdsa_Verify = (\<lambda>q hash rs. True),
     hkdf_Read = (\<lambda>ikm salt info n. if n \<le> 8160 then Ok (replicate n 7) else Err (Errorf ''EOF'')),
     pbkdf2_Key = (\<lambda>pw salt iter n. map (\<lambda>i. if i mod 40 = 39 then 1 else 0) [0..<n]),
     x509_ParseCertificate = (\<lambda>der. Ok mini_certificate), asn1_Signature = (\<lambda>der. Ok (1, 1))\<rparr>"

lemma mini_sel [simp]:
  "P256_P mini_suite = 7" "P256_N mini_suite = 5" "IsOnCurve mini_suite q = (q \<in> {(1, 1), (2, 1), (2, 6), (1, 6)})"
  "raw_Add mini_suite p q = mini_pt (mini_log p + mini_log q)"
  "raw_ScalarMult mini_suite p k = mini_pt (mini_log p * big_SetBytes k)" "P256_G mini_suite = (1, 1)"
  "ecdsa_Sign mini_suite d hash rnd = Ok (1, 1)" "ecdsa_Verify mini_suite q hash rs"
  "UnmarshalCompressed mini_suite bs = Some (mini_pt (uint (hd bs) - 1))"
  "x509_ParseCertificate mini_suite der = Ok mini_certificate" "asn1_Signature mini_suite der = Ok (1, 1)"
  by (simp_all add: mini_suite_def)

lemma mini_mod: "a mod 5 \<in> {0, 1, 2, 3, 4 :: int}"
  by auto

lemma mini_log_pt [simp]: "mini_log (mini_pt a) = a mod 5"
  using mini_mod [of a] by (auto simp: mini_pt_def mini_log_def)

lemma mini_pt_mod [simp]: "mini_pt (a mod 5) = mini_pt a"
  by (simp add: mini_pt_def)

lemma mini_pt_eq: "mini_pt a = mini_pt b \<longleftrightarrow> 5 dvd a - b"
proof -
  have "mini_pt a = mini_pt b \<longleftrightarrow> a mod 5 = b mod 5" by (metis mini_log_pt mini_pt_mod)
  then show ?thesis by (simp add: mod_eq_dvd_iff)
qed

lemma mini_prime: "5 dvd a * (b :: int) \<Longrightarrow> 5 dvd a \<or> 5 dvd b"
proof -
  assume "5 dvd a * b"
  then have "(a mod 5) * (b mod 5) mod 5 = 0" by (simp add: mod_mult_eq dvd_eq_mod_eq_0)
  then show ?thesis using mini_mod [of a] mini_mod [of b] by (auto simp: dvd_eq_mod_eq_0)
qed

lemma mini_neg: "\<not> 5 dvd a \<Longrightarrow> mini_pt (- a) = (fst (mini_pt a), 7 - snd (mini_pt a))"
proof -
  assume "\<not> 5 dvd a"
  moreover have "(- a) mod 5 = (if a mod 5 = 0 then 0 else 5 - a mod 5)" by (simp add: zmod_zminus1_eq_if)
  ultimately show ?thesis using mini_mod [of a] by (auto simp: mini_pt_def dvd_eq_mod_eq_0)
qed

lemma mini_curve: "curve_laws mini_suite mini_pt"
  unfolding curve_laws_def
proof (intro conjI allI impI)
  fix q show "IsOnCurve mini_suite q \<longleftrightarrow> (\<exists>a. \<not> P256_N mini_suite dvd a \<and> q = mini_pt a)"
  proof
    assume "IsOnCurve mini_suite q"
    then have "q = mini_pt (mini_log q)" "\<not> 5 dvd mini_log q" by (auto simp: mini_pt_def mini_log_def)
    then show "\<exists>a. \<not> P256_N mini_suite dvd a \<and> q = mini_pt a" by auto
  next
    assume "\<exists>a. \<not> P256_N mini_suite dvd a \<and> q = mini_pt a"
    then show "IsOnCurve mini_suite q" using mini_mod by (fastforce simp: mini_pt_def dvd_eq_mod_eq_0)
  qed
next
  fix a b show "raw_Add mini_suite (mini_pt a) (mini_pt b) = mini_pt (a + b)"
    by (simp add: mini_pt_eq) presburger
next
  fix a k show "raw_ScalarMult mini_suite (mini_pt a) k = mini_pt (a * big_SetBytes k)"
    by (simp add: mini_pt_eq mod_eq_dvd_iff [symmetric] mod_mult_left_eq)
next
  fix a show "0 \<le> fst (mini_pt a)" "fst (mini_pt a) < P256_P mini_suite" "0 \<le> snd (mini_pt a)" "snd (mini_pt a) < P256_P mini_suite"
    by (auto simp: mini_pt_def)
qed (auto simp: mini_pt_eq mini_prime mini_neg, auto simp: mini_pt_def)

lemma mini_kdf: "kdf_laws mini_suite"
  by (simp add: kdf_laws_def mini_suite_def)

lemma mini_ecdsa: "ecdsa_laws mini_suite"
  by (simp add: ecdsa_laws_def)

lemma mini_hex: "case mustDecodeHex spake_hexM of Ok bs \<Rightarrow> hd bs = 2 | _ \<Rightarrow> False"
  "case mustDecodeHex spake_hexN of Ok bs \<Rightarrow> hd bs = 3 | _ \<Rightarrow> False"
  by code_simp+

lemma mini_M: "spake2pM mini_suite = Ok (mini_pt 1)" "spake2pN mini_suite = Ok (mini_pt 2)"
  using mini_hex by (auto simp: spake2pM_def spake2pN_def spake_point_def split: res.splits)

definition mini_setup :: pase_setup where
  "mini_setup = \<lparr>su_passcode = 20202021, su_salt = [1, 2], su_iterations = 1000, su_sidI = 5, su_sidR = 6,
     su_randomI = replicate 32 3, su_randomR = replicate 32 4, su_x = 1, su_y = 1\<rparr>"

lemma share_ok_pt:
  assumes "curve_laws S pt" and "B = Ok (pt m)" and "0 \<le> w0" and "0 \<le> x" and "\<not> P256_N S dvd x + w0 * m"
  shows "share_ok S B w0 x"
proof -
  obtain b where "marshalEC (pt (x + w0 * m)) = Ok b"
      "unmarshalEC S b = (if P256_N S dvd x + w0 * m then None else Some (pt (x + w0 * m)))"
    by (rule marshalEC_pt [OF assms(1)])
  with assms show ?thesis by (simp add: share_ok_def blind_pt)
qed

lemma mini_spake: "spake_laws mini_suite mini_pt"
  unfolding spake_laws_def
  by (intro conjI mini_curve mini_kdf, rule exI [of _ 1], rule exI [of _ 2]) (simp add: mini_M)

lemma mini_secrets: "spake_secrets mini_suite pc salt iter = (1, 1)"
proof -
  have "big_SetBytes (take 40 (map (\<lambda>i :: nat. if i mod 40 = 39 then 1 else 0 :: byte) [0..<80])) = 1"
    "big_SetBytes (drop 40 (map (\<lambda>i :: nat. if i mod 40 = 39 then 1 else 0 :: byte) [0..<80])) = 1"
    by code_simp+
  then show ?thesis by (simp add: spake_secrets_def mini_suite_def)
qed

lemma mini_ready: "pase_ready mini_suite mini_setup"
proof -
  have "share_ok mini_suite (spake2pM mini_suite) 1 1" "share_ok mini_suite (spake2pN mini_suite) 1 1"
    using share_ok_pt [OF mini_curve mini_M(1), of 1 1] share_ok_pt [OF mini_curve mini_M(2), of 1 1] by simp_all
  then show ?thesis by (simp add: pase_ready_def mini_setup_def mini_secrets nonzero_def max_alloc_def)
qed

definition mini_cfg :: CASEInitiatorConfig where
  "mini_cfg = \<lparr>cfg_SessionID = 5, cfg_NodeKey = \<lparr>pk_D = 1, pk_Public = mini_pt 1\<rparr>, cfg_NOC = [0x30], cfg_ICAC = [],
     cfg_IPK = replicate 16 9, cfg_RootPubKey = [4], cfg_FabricID = 1, cfg_PeerNodeID = 7\<rparr>"

definition mini_case :: case_setup where
  "mini_case = \<lparr>cs_I = mini_cfg,
     cs_R = \<lparr>rcfg_SessionID = 6, rcfg_NodeKey = \<lparr>pk_D = 1, pk_Public = mini_pt 1\<rparr>, rcfg_NOC = [0x30], rcfg_ICAC = [],
       rcfg_IPK = replicate 16 9, rcfg_RootPubKey = [], rcfg_FabricID = 2, rcfg_NodeID = 8\<rparr>,
     cs_x = 2, cs_y = 3, cs_randomI = replicate 32 1, cs_randomR = replicate 32 2, cs_signI = [], cs_signR = []\<rparr>"

lemma mini_key: "key_ok mini_suite \<lparr>pk_D = 1, pk_Public = mini_pt 1\<rparr>"
  using base_mult [OF mini_curve, of "int_Bytes 1"] by (simp add: key_ok_def)

lemma mini_noc: "ExtractPublicKeyFromTLV mini_suite [0x30] = Ok (mini_pt 1)"
  by (simp add: ExtractPublicKeyFromTLV_def extractPublicKeyTLV_def ExtractPublicKey_def mini_certificate_def)

lemma mini_case_ready: "case_ready mini_suite mini_case"
  by (simp add: case_ready_def identity_ok_def mini_case_def mini_cfg_def mini_key mini_noc)

lemma mini_exchange: "quiet (ex_SendFunc \<lparr>ex_ID = 1, ex_Session = s, ex_IsInitiator = True, ex_SendFunc = None,
    incoming = [], closed = False, chan_closed = False\<rparr>)"
  by (simp add: quiet_def)

subsection \<open>The properties\<close>

text \<open>
  C19 PASE: a commissioner and a device that know the same passcode complete the handshake, whatever
  their random values (short of a share at infinity or a zero secret): each accepts the messages of
  the other, and both derive the same session keys of 16 bytes each.  Over an exchange,
  \<^verbatim>\<open>EstablishPASE\<close> sends the three messages of the commissioner, takes the device's two, and after
  any status report, whatever its content, returns these keys and the session identifier the device
  chose.
\<close>

theorem pase_handshake:
  assumes "spake_laws S pt" and "pase_ready S u" and "quiet (ex_SendFunc ex)"
  shows "\<exists>req resp pake1 pake2 pake3 keys. pase_run S u req resp pake1 pake2 pake3 keys \<and> good_keys keys \<and>
    (\<forall>m1 m2 st rest out. Payload m1 = resp \<and> Payload m2 = pake2 \<and> opcode_of st = OpcodeStatusReport \<longrightarrow>
      EstablishPASE S (Ok (su_randomI u)) (Ok (su_x u)) ex (su_passcode u) (su_sidI u)
        \<lparr>inbox = Ok m1 # Ok m2 # Ok st # rest, outbox = out\<rparr> =
      (Val (Some keys, su_sidR u), \<lparr>inbox = rest, outbox = out @ map (stamped ex)
        [secure_message OpcodePBKDFParamRequest req, secure_message OpcodePASEPake1 pake1,
         secure_message OpcodePASEPake3 pake3]\<rparr>))"
proof -
  obtain req resp pake1 pake2 pake3 keys where r: "pase_run S u req resp pake1 pake2 pake3 keys" "good_keys keys"
    by (rule pase_completes [OF assms(1,2)])
  with EstablishPASE_run [OF r(1) assms(3)] show ?thesis by blast
qed

theorem pase_handshake_witness:
  "\<exists>req resp pake1 pake2 pake3 keys. pase_run mini_suite mini_setup req resp pake1 pake2 pake3 keys \<and> good_keys keys"
  using pase_handshake [OF mini_spake mini_ready mini_exchange] by blast

text \<open>
  C20 PASE confirmation: a commissioner accepts the answer of a device, which may have received another
  request, sent another response and hold another passcode.  Then the commissioner's transcript (\<open>ps\<close>:
  what its prover hashes of its own request and response and of the share in the answer) and the
  device's (\<open>qs\<close>: what its verifier hashes of the messages and the share it received) are the same, the
  secrets derived from the two passcodes are the same, and both hold the same session keys, unless
  these two transcripts differ and have the same confirmation value.
\<close>

theorem pase_acceptance:
  assumes "curve_laws S pt"
    and "ProcessPBKDFParamRequest rr req' r0 = (Ok resp', r1)" and "ProcessPAKE1 S ry pake1' r1 = (Ok pake2, r2)"
    and "ProcessPBKDFParamResponse S rx req resp i0 = (Ok (pake1, sid), i1)" and "ProcessPAKE2 S pake2 i1 = (Ok pake3, i2)"
  shows "\<exists>rs pA m p v ps qs. decode_msg T_PBKDFParamResponse of_PBKDFParamResponse resp = Ok rs \<and>
    decode_msg T_PAKE1 of_octets pake1' = Ok pA \<and> decode_msg T_PAKE2 of_PAKE2 pake2 = Ok m \<and>
    pi_prover i1 = Some p \<and> prover_transcript S p (spake_context req resp) (pake2_PB m) = Ok ps \<and>
    pr_verifier r2 = Some v \<and> verifier_transcript S v (spake_context req' resp') pA = Ok qs \<and>
    (collision S ps qs \<or> (ps = qs \<and>
      passcode_secret S (pi_passcode i1) (pp_Salt (ps_PBKDFParameters rs)) (pp_Iterations (ps_PBKDFParameters rs))
        = passcode_secret S (pr_passcode r1) (pr_salt r1) (pr_iterations r1) \<and>
      pi_sessionKeys i2 = pr_sessionKeys r2))"
proof -
  have c: "pr_spakeContext r1 = spake_context req' resp'"
    using assms(2) by (auto simp: ProcessPBKDFParamRequest_def call_defs bind_st_Ok_iff)
  then have len: "length (pr_spakeContext r1) = 32" by (simp add: spake_context_def)
  show ?thesis by (rule acceptance_agrees [OF assms(1,4,3) len assms(5)]) (unfold c, blast)
qed

theorem pase_acceptance_witness:
  "\<exists>req resp pake1 pake2 pake3 keys. pase_run mini_suite mini_setup req resp pake1 pake2 pake3 keys \<and>
     (\<exists>p v pA m ps qs. decode_msg T_PAKE1 of_octets pake1 = Ok pA \<and> decode_msg T_PAKE2 of_PAKE2 pake2 = Ok m \<and>
       prover_transcript mini_suite p (spake_context req resp) (pake2_PB m) = Ok ps \<and>
       verifier_transcript mini_suite v (spake_context req resp) pA = Ok qs \<and> (collision mini_suite ps qs \<or> ps = qs))"
proof -
  obtain req resp pake1 pake2 pake3 keys where r: "pase_run mini_suite mini_setup req resp pake1 pake2 pake3 keys"
    by (rule pase_completes [OF mini_spake mini_ready])
  then obtain i1 i2 i3 r1 r2 where h:
    "ProcessPBKDFParamRequest (Ok (su_randomR mini_setup)) req (responder0 mini_setup) = (Ok resp, r1)"
    "ProcessPBKDFParamResponse mini_suite (Ok (su_x mini_setup)) req resp i1 = (Ok (pake1, su_sidR mini_setup), i2)"
    "ProcessPAKE1 mini_suite (Ok (su_y mini_setup)) pake1 r1 = (Ok pake2, r2)"
    "ProcessPAKE2 mini_suite pake2 i2 = (Ok pake3, i3)"
    unfolding pase_run_def by blast
  from pase_acceptance [OF mini_curve h(1,3,2,4)] r show ?thesis by blast
qed

text \<open>
  C21 CASE: two nodes that hold the same identity protection key, each with a certificate of its own
  key, complete the handshake and derive the same session keys of 16 bytes each; over an exchange,
  \<^verbatim>\<open>EstablishCASE\<close> sends the two messages of the initiator and returns these keys and the session
  identifier the responder chose, after any status report.  Nothing is asked of the certificates'
  issuer, of the fabrics or of the node identifiers: a node of another fabric is accepted, and so is
  one that is not the node the initiator named.
\<close>

theorem case_handshake:
  assumes "curve_laws S pt" and "kdf_laws S" and "ecdsa_laws S" and "case_ready S u" and "quiet (ex_SendFunc ex)"
  shows "\<exists>sigma1 sigma2 sigma3 keys. case_run S u sigma1 sigma2 sigma3 keys \<and> good_keys keys \<and>
    (\<forall>m st rest out. Payload m = sigma2 \<and> opcode_of m \<noteq> OpcodeStatusReport \<and> opcode_of st = OpcodeStatusReport \<longrightarrow>
      EstablishCASE S (Ok (cs_x u)) (Ok (cs_randomI u)) (cs_signI u) ex (cs_I u)
        \<lparr>inbox = Ok m # Ok st # rest, outbox = out\<rparr> =
      (Val (Some keys, rcfg_SessionID (cs_R u)), \<lparr>inbox = rest, outbox = out @ map (stamped ex)
        [secure_message OpcodeSigma1 sigma1, secure_message OpcodeSigma3 sigma3]\<rparr>))"
proof -
  obtain sigma1 sigma2 sigma3 keys s where r: "case_run S u sigma1 sigma2 sigma3 keys" "good_keys keys"
      "decode_msg T_Sigma2 of_Sigma2 sigma2 = Ok s" "s2_ResponderSessionID s = rcfg_SessionID (cs_R u)"
    by (rule case_completes [OF assms(1-4)]) blast
  with EstablishCASE_run [OF r(1) assms(5) _ _ _ r(3)] show ?thesis by metis
qed

theorem case_handshake_witness:
  "\<exists>sigma1 sigma2 sigma3 keys. case_run mini_suite mini_case sigma1 sigma2 sigma3 keys \<and> good_keys keys"
  using case_handshake [OF mini_curve mini_kdf mini_ecdsa mini_case_ready mini_exchange] by blast

text \<open>
  A certificate of length zero: a responder that holds the identity protection key but sends an
  empty operational certificate makes the initiator panic, for the error that reports the missing
  first byte of the certificate indexes this byte.
\<close>

theorem empty_noc_panics:
  assumes C: "curve_laws S pt" and K: "kdf_laws S" and y: "0 < y" "y < P256_N S"
    and k: "key_ok S k" and c: "ci_ephPrivKey c = Some k"
  shows "\<exists>sigma2 m. decode_msg T_Sigma2 of_Sigma2 sigma2 = Ok m \<and> fst (ProcessSigma2 S sigma2 c) = Panic"
proof -
  obtain ky where ky: "PublicKeyToUncompressed (pk_Public (fresh_key S y)) = Ok ky" "length ky = 65"
      "PublicKeyFromUncompressed S ky = Ok (pk_Public (fresh_key S y))"
    by (rule fresh_key_encoding [OF C y])
  obtain secret where secret: "ECDH S k (pk_Public (fresh_key S y)) = Ok secret"
    by (rule ECDH_agree [OF C k fresh_key_ok [OF y]])
  define t where "t = \<lparr>tbe2_ResponderNOC = [], tbe2_ResponderICAC = [], tbe2_Signature = replicate 64 0, tbe2_ResumptionID = []\<rparr>"
  obtain tbe where tbe: "length tbe \<le> 65535" "decode_msg T_Sigma2TBEData of_Sigma2TBEData tbe = Ok t"
    using tbe_sent(1) [of t] by (auto simp: t_def)
  obtain s2k where s2k: "HKDFSHA256 S secret (sigma2_salt (cfg_IPK (ci_cfg c)) [] ky (ci_sigma1Bytes c)) (ascii ''Sigma2'') 16 = Ok s2k"
      "length s2k = 16" by (rule HKDF_16 [OF K])
  obtain ct where ct: "AESCCMDecrypt s2k caseNonceSigma2 ct [] = Ok tbe" "length ct \<le> 65551"
    by (rule sealed [OF s2k(2) nonce_lengths(1) tbe(1)])
  define m where "m = \<lparr>s2_ResponderRandom = [], s2_ResponderSessionID = 1, s2_ResponderEphPubKey = ky, s2_Encrypted2 = ct\<rparr>"
  obtain sigma2 where s2: "decode_msg T_Sigma2 of_Sigma2 sigma2 = Ok m"
    using case_sent(2) [of m] ky(2) ct(2) by (auto simp: m_def max_alloc_def)
  obtain tbs where tbs: "Marshal (gv_Sigma2TBSData [] [] ky (ci_ephPubKeyBytes c)) = Ok tbs"
    using tbs_sent(1) by blast
  have "fst (ProcessSigma2 S sigma2 c) = Panic"
    using c s2 ky(3) secret s2k(1) ct(1) tbe(2) tbs
    by (cases c) (simp add: ProcessSigma2_def call_defs m_def t_def ExtractPublicKeyFromTLV_def extractPublicKeyTLV_def)
  with s2 show ?thesis by blast
qed

theorem empty_noc_panics_witness:
  "\<exists>sigma2 m. decode_msg T_Sigma2 of_Sigma2 sigma2 = Ok m \<and>
     fst (ProcessSigma2 mini_suite sigma2
       ((NewCASEInitiator mini_cfg)\<lparr>ci_ephPrivKey := Some \<lparr>pk_D = 1, pk_Public = mini_pt 1\<rparr>\<rparr>)) = Panic"
  using empty_noc_panics [OF mini_curve mini_kdf, of 1 "\<lparr>pk_D = 1, pk_Public = mini_pt 1\<rparr>"
      "(NewCASEInitiator mini_cfg)\<lparr>ci_ephPrivKey := Some \<lparr>pk_D = 1, pk_Public = mini_pt 1\<rparr>\<rparr>"] mini_key by simp

text \<open>
  C22 Certificates: \<^verbatim>\<open>X509ToMatterCert\<close> converts every certificate with a key on the curve, a
  signature of two components of at most 32 bytes, and Matter attributes that are hexadecimal numbers
  of 64 bits; and from what it or \<^verbatim>\<open>X509ToMatterCertResigned\<close> writes, whatever follows it,
  \<^verbatim>\<open>ExtractPublicKeyFromTLV\<close> reads the public key of the certificate back, whatever its names,
  validity and extensions.
\<close>

theorem certificate_key_roundtrip:
  assumes "curve_laws S pt" and "x509_ParseCertificate S der = Ok cert" and "cert_small sha1 cert"
    and "ct_PublicKey cert = Some pub" and "IsOnCurve S pub"
  shows "(convertible S cert \<longrightarrow> (\<exists>bytes. X509ToMatterCert S sha1 der = Ok bytes)) \<and>
    (\<forall>bytes. X509ToMatterCert S sha1 der = Ok bytes \<or> X509ToMatterCertResigned S sha1 rnd der signingKey = Ok bytes \<longrightarrow>
      ExtractPublicKeyFromTLV S (bytes @ rest) = Ok pub)"
proof (intro conjI allI impI)
  fix bytes assume "X509ToMatterCert S sha1 der = Ok bytes \<or> X509ToMatterCertResigned S sha1 rnd der signingKey = Ok bytes"
  then have "\<exists>signature. matter_cert sha1 cert signature = Ok bytes \<and> (\<forall>w x w'. signature w = (Ok x, w') \<longrightarrow> w' = w)"
  proof (elim disjE)
    assume "X509ToMatterCert S sha1 der = Ok bytes"
    then have "matter_cert sha1 cert (call_of ''converting signature'' (derSignatureToRaw S (ct_Signature cert))) = Ok bytes"
      using assms(2) by (simp add: X509ToMatterCert_def)
    then show ?thesis by (intro exI conjI) (auto simp: call_of_def)
  next
    assume "X509ToMatterCertResigned S sha1 rnd der signingKey = Ok bytes"
    then obtain raw where "matter_cert sha1 cert (call_return raw) = Ok bytes"
      using assms(2) by (auto simp: X509ToMatterCertResigned_def bind_res_Ok_iff split: prod.splits)
    then show ?thesis by (intro exI conjI) (auto simp: call_return_def)
  qed
  then obtain signature where "matter_cert sha1 cert signature = Ok bytes" "\<And>w x w'. signature w = (Ok x, w') \<Longrightarrow> w' = w"
    by blast
  then show "ExtractPublicKeyFromTLV S (bytes @ rest) = Ok pub" by (rule converted_key [OF assms(1) _ assms(3) _ assms(4,5)])
qed (rule conversion_succeeds [OF assms(1,2)])

lemma mini_small: "cert_small (\<lambda>_. replicate 20 0) mini_certificate"
proof -
  have "length (serial_bytes (ct_SerialNumber mini_certificate)) = 2" by code_simp
  then show ?thesis by (simp add: cert_small_def mini_certificate_def max_alloc_def)
qed

lemma mini_convertible: "convertible mini_suite mini_certificate"
proof -
  have "ParseUint16 ''0A'' = Ok 10" by (simp add: ParseUint16_def hex_value_def)
  moreover have "length (int_Bytes 1) = 1" by code_simp
  ultimately show ?thesis
    by (simp add: convertible_def rdn_ok_def mini_certificate_def derSignatureToRaw_def raw_signature_def mini_pt_def)
qed

theorem certificate_key_roundtrip_witness:
  "\<exists>bytes. X509ToMatterCert mini_suite (\<lambda>_. replicate 20 0) [0x30] = Ok bytes \<and>
     ExtractPublicKeyFromTLV mini_suite (bytes @ []) = Ok (mini_pt 1)"
proof -
  have "(convertible mini_suite mini_certificate \<longrightarrow> (\<exists>bytes. X509ToMatterCert mini_suite (\<lambda>_. replicate 20 0) [0x30] = Ok bytes)) \<and>
      (\<forall>bytes. X509ToMatterCert mini_suite (\<lambda>_. replicate 20 0) [0x30] = Ok bytes \<or>
        X509ToMatterCertResigned mini_suite (\<lambda>_. replicate 20 0) [] [0x30] (cfg_NodeKey mini_cfg) = Ok bytes \<longrightarrow>
        ExtractPublicKeyFromTLV mini_suite (bytes @ []) = Ok (mini_pt 1))"
    by (rule certificate_key_roundtrip [OF mini_curve _ mini_small]) (simp_all add: mini_certificate_def mini_pt_def)
  with mini_convertible show ?thesis by blast
qed

end
