(* ===== verification/Commission_Checks.thy ===== *)
theory Commission_Checks
  imports Commission_Order Secure
begin

text \<open>
  What the cryptographic checks of commissioning come to: the validator of \<^verbatim>\<open>attestation.go\<close> within the
  flow, and the passcode verifier of \<^verbatim>\<open>verifier.go\<close> with the device's side of PASE.
\<close>

subsection \<open>The attestation validator in the flow\<close>

lemma unparsable_PAA:
  assumes "x509_ParseCertificate S (dc_PAA d) = Err e"
  shows "ValidateDAC S X roots d \<noteq> Ok info"
proof -
  have "ParseCertificate S (dc_PAA d) = Err (Errorw ''crypto: parse certificate'' e)"
    by (simp add: ParseCertificate_def assms)
  then show ?thesis
    by (cases "ParseCertificate S (dc_DAC d)"; cases "ParseCertificate S (dc_PAI d)") (simp_all add: ValidateDAC_def)
qed

text \<open>
  C25 The flow never asks for the root of the attestation certificates: with the validator of the
  repository and a parser that refuses the empty certificate, no device is ever sent a trusted root or
  a certificate, and no commissioning succeeds.
\<close>

theorem attestation_never_passes:
  assumes "cm_Attestation C = Some (DefaultAttestationValidator S X roots)" and "x509_ParseCertificate S [] = Err e"
  shows "(\<forall>x. fst (Commission C params []) \<noteq> Ok x) \<and>
    (\<forall>s ep cluster command req timed r. Invoked s ep cluster command req timed r \<in> set (snd (Commission C params [])) \<longrightarrow>
       \<not> (cluster = 0x003E \<and> command \<in> {0x06, 0x0B}) \<and> cluster \<noteq> 0x0031 \<and> (cluster, command) \<noteq> (0x0030, 0x04))"
proof -
  let ?h = "snd (Commission C params [])" and ?G = "requirement C (cp_NodeID params)"
  have "\<not> attested C s h" for s h
    using unparsable_PAA [where S = S and d = d for d] assms
    by (auto simp: attested_def answered_def DefaultAttestationValidator_def)
  then have credentials: "\<not> (cluster = 0x003E \<and> command \<in> {0x06, 0x0B})"
    if "Invoked s ep cluster command req timed r \<in> set ?h" for s ep cluster command req timed r
    using split_list [OF that] Commission_ordered(1) [of C params] ordered_split [of ?G] by fastforce
  then have unsent: "\<not> noc_sent pre" if "?h = pre @ post" for pre post
    using that by (fastforce simp: noc_sent_def)
  have rest: "cluster \<noteq> 0x0031 \<and> (cluster, command) \<noteq> (0x0030, 0x04)"
    if invoked: "Invoked s ep cluster command req timed r \<in> set ?h" for s ep cluster command req timed r
  proof -
    obtain pre post where h: "?h = pre @ Invoked s ep cluster command req timed r # post" using split_list [OF invoked] by blast
    then have "?G pre (Invoked s ep cluster command req timed r)"
      using Commission_ordered(1) [of C params] ordered_split [of ?G] by metis
    with unsent [OF h] show ?thesis by auto
  qed
  then have "fst (Commission C params []) \<noteq> Ok x" for x
    using Commission_ordered(2) [of C params x] by (fastforce simp: finished_for_def)
  with credentials rest show ?thesis by blast
qed

definition strict_suite :: suite where
  "strict_suite = mini_suite\<lparr>x509_ParseCertificate := (\<lambda>der. if der = [] then Err (Errorf ''asn1: syntax error'') else Ok mini_certificate)\<rparr>"

definition lenient_x509 :: x509_ops where
  "lenient_x509 = \<lparr>CheckSignatureFrom = (\<lambda>_ _. Ok ()), Certificate_Equal = (\<lambda>_ _. True), ecdsa_VerifyASN1 = (\<lambda>_ _ _. True)\<rparr>"

theorem attestation_never_passes_witness:
  "\<forall>x. fst (Commission (bare_commissioner\<lparr>cm_Attestation := Some (DefaultAttestationValidator strict_suite lenient_x509 [])\<rparr>)
     bare_params []) \<noteq> Ok x"
  using attestation_never_passes [of "bare_commissioner\<lparr>cm_Attestation := Some (DefaultAttestationValidator strict_suite lenient_x509 [])\<rparr>"
      strict_suite lenient_x509 "[]" "Errorf ''asn1: syntax error''" bare_params]
  by (simp add: strict_suite_def)

subsection \<open>The passcode verifier\<close>

lemma length_DeriveSPAKE2PValues:
  assumes "curve_laws S pt" and "DeriveSPAKE2PValues S pc salt iter = Ok (b0, b1)"
  shows "length b0 = 32"
proof -
  have n: "0 < P256_N S" "P256_N S \<le> 256 ^ 32" using assms(1) by (auto simp: curve_laws_def)
  define w where "w = big_SetBytes (take 40 (pbkdf2_Key S (passcode_bytes pc) salt iter 80)) mod P256_N S"
  have "0 \<le> w" "w < P256_N S" using n by (simp_all add: w_def)
  then have "0 \<le> w" "w < 256 ^ 32" using n by linarith+
  moreover have "b0 = zeroPad (int_Bytes w) 32"
    using assms(2) by (auto simp: DeriveSPAKE2PValues_def PBKDF2SHA256_def Let_def w_def split: if_splits)
  ultimately show ?thesis using zeroPad_fits [of w 32] by simp
qed

text \<open>
  C28 A verifier is computed exactly for a passcode of at most 27 bits that is not zero or trivial, a salt
  of 16 to 32 bytes and 1000 to 100000 iterations.  It has 97 bytes, and if both secrets of the passcode
  are not zero, the device's side of PASE accepts its parts as those of the secrets.
\<close>

theorem pake_verifier:
  assumes "curve_laws S pt" and "kdf_laws S"
  shows "((\<exists>v. ComputePAKEVerifier S pc salt iter = Ok v) \<longleftrightarrow>
      pc \<noteq> 0 \<and> pc \<le> 0x7FFFFFF \<and> pc \<notin> set forbidden_passcodes \<and> 16 \<le> length salt \<and> length salt \<le> 32 \<and>
      1000 \<le> iter \<and> iter \<le> 100000) \<and>
    (\<forall>v w0 w1. ComputePAKEVerifier S pc salt iter = Ok v \<and> spake_secrets S pc salt iter = (w0, w1) \<longrightarrow>
      length v = 97 \<and> (0 < w0 \<and> 0 < w1 \<longrightarrow>
        NewSPAKE2PVerifier S (take 32 v) (drop 32 v) = Ok \<lparr>ve_w0 = w0, ve_L = pt w1, ve_y = None, ve_pB = []\<rparr>))"
proof -
  let ?in = "pc \<noteq> 0 \<and> pc \<le> 0x7FFFFFF \<and> pc \<notin> set forbidden_passcodes \<and> 16 \<le> length salt \<and> length salt \<le> 32 \<and>
      1000 \<le> iter \<and> iter \<le> 100000"
  obtain w0 w1 where w: "spake_secrets S pc salt iter = (w0, w1)" by fastforce
  have out: "\<exists>e. ComputePAKEVerifier S pc salt iter = Err e" if "\<not> ?in"
    using that by (auto simp: ComputePAKEVerifier_def ValidatePasscode_def validatePasscode_def salt_range_error_def
        const_defs not_le split: option.splits)
  have made: "\<exists>b0 L. ComputePAKEVerifier S pc salt iter = Ok (b0 @ L) \<and> length b0 = 32 \<and> length L = 65 \<and>
      (0 < w0 \<and> 0 < w1 \<longrightarrow> NewSPAKE2PVerifier S b0 L = Ok \<lparr>ve_w0 = w0, ve_L = pt w1, ve_y = None, ve_pB = []\<rparr>)" if ?in
  proof -
    obtain b0 b1 where d: "DeriveSPAKE2PValues S pc salt iter = Ok (b0, b1)" "big_SetBytes b0 = w0" "big_SetBytes b1 = w1"
        "0 \<le> w0" "w0 < P256_N S" "0 \<le> w1" "w1 < P256_N S"
      by (rule DeriveSPAKE2PValues_ok [OF assms _ w]) (use \<open>?in\<close> in simp)
    obtain L where L: "marshalEC (pt w1) = Ok L" "length L = 65" by (rule marshalEC_pt [OF assms(1)])
    have cL: "ComputeL S b1 = Ok L" by (simp add: ComputeL_def base_mult [OF assms(1)] d(3) L)
    have b0: "length b0 = 32" by (rule length_DeriveSPAKE2PValues [OF assms(1) d(1)])
    have "ComputePAKEVerifier S pc salt iter = Ok (b0 @ L)"
      using \<open>?in\<close> by (simp add: ComputePAKEVerifier_def ValidatePasscode_def validatePasscode_def salt_range_error_def
          verifier_consts d(1) cL b0 L not_less)
    moreover have "NewSPAKE2PVerifier S b0 L = Ok \<lparr>ve_w0 = w0, ve_L = pt w1, ve_y = None, ve_pB = []\<rparr>" if "0 < w0" "0 < w1"
      using new_verifier [OF assms(1) d(2,3) that(1) d(5) that(2) d(7)] cL by force
    ultimately show ?thesis using b0 L(2) by blast
  qed
  show ?thesis
  proof (cases ?in)
    case True
    from made [OF this] w show ?thesis using True by auto
  next
    case False
    then show ?thesis using out by force
  qed
qed

theorem pake_verifier_witness:
  "\<exists>v. ComputePAKEVerifier mini_suite 20202021 (replicate 16 7) 1000 = Ok v \<and> length v = 97 \<and>
     NewSPAKE2PVerifier mini_suite (take 32 v) (drop 32 v) = Ok \<lparr>ve_w0 = 1, ve_L = mini_pt 1, ve_y = None, ve_pB = []\<rparr>"
proof -
  have "20202021 \<notin> set forbidden_passcodes" by (simp add: forbidden_passcodes_def)
  then show ?thesis
    using pake_verifier [OF mini_curve mini_kdf, of 20202021 "replicate 16 7" 1000] by (auto simp: mini_secrets)
qed

end
