(* ===== verification/Controller.thy ===== *)
theory Controller
  imports Secure Im_Client Msg_Codec Conn
begin

text \<open>
  \<^verbatim>\<open>internal/controller/controller.go\<close>: the controller between the connection and the exchanges.  It
  stamps and encrypts what exchanges send, decrypts and routes what arrives, and runs the handshakes
  that fill the session table.  What \<^verbatim>\<open>Send\<close> of the connection returns is an
  argument, and what it was given is recorded.
\<close>

subsection \<open>State\<close>

record fabricIdentity =
  fi_rootKey :: PrivateKey
  fi_icacKey :: PrivateKey
  fi_nodeKey :: PrivateKey
  fi_rcac :: "byte list"
  fi_icac :: "byte list"
  fi_noc :: "byte list"
  fi_nocTLV :: "byte list"
  fi_icacTLV :: "byte list"
  fi_ipk :: "byte list"
  fi_operationalIPK :: "byte list"
  fi_rootPubKey :: "byte list"
  fi_compressedFabricID :: "byte list"

record Controller =
  cl_isBLE :: bool
  cl_sessions :: SessionTable
  cl_exchanges :: ExchangeManager
  cl_fabricID :: u64
  cl_sourceNodeID :: u64
  cl_fabric :: "fabricIdentity option"
  cl_peerAddr :: "net_addr option"
  cl_pumping :: bool
  cl_sent :: "(byte list \<times> net_addr) list"

text \<open>\<open>rnd\<close> is what \<^verbatim>\<open>rand.Read\<close> leaves in the buffer of zeros; its error is ignored.\<close>

definition randomNodeID :: "byte list \<Rightarrow> u64" where
  "randomNodeID rnd = (let i = be_get rnd in if i = 0 then 1 else i)"

definition NewWithConn :: "bool \<Rightarrow> byte list \<Rightarrow> u64 \<Rightarrow> (Message \<Rightarrow> err option) option \<Rightarrow> fabricIdentity option \<Rightarrow> Controller" where
  "NewWithConn isBLE rnd fabricID sendFunc fabric =
     \<lparr>cl_isBLE = isBLE, cl_sessions = NewSessionTable, cl_exchanges = NewExchangeManager sendFunc,
      cl_fabricID = (if fabricID = 0 then 1 else fabricID), cl_sourceNodeID = randomNodeID rnd, cl_fabric = fabric,
      cl_peerAddr = None, cl_pumping = False, cl_sent = []\<rparr>"

definition Controller_CompressedFabricID :: "Controller \<Rightarrow> byte list option" where
  "Controller_CompressedFabricID c = map_option fi_compressedFabricID (cl_fabric c)"

subsection \<open>Sending\<close>

text \<open>The session of an identifier, or the unsecured session, with its key in the table.\<close>

definition session_or_unsecured :: "byte list option \<Rightarrow> u16 \<Rightarrow> SessionTable \<Rightarrow> (u16 \<times> Session) \<times> SessionTable" where
  "session_or_unsecured rnd i st =
     (case GetSession st i of
        Some s \<Rightarrow> ((i, s), st)
      | None \<Rightarrow> (case UnsecuredSession st rnd of (s, st) \<Rightarrow> ((0, s), st)))"

text \<open>The header of the session's wire form: its source, or the session identifier of the peer.\<close>

definition address_message :: "u64 \<Rightarrow> Session \<Rightarrow> Message \<Rightarrow> Message" where
  "address_message sourceNodeID s msg =
     (if Type s = SessionUnsecured
      then msg\<lparr>Header := (Header msg)\<lparr>HasSourceNodeID := True, SourceNodeID := sourceNodeID\<rparr>\<rparr>
      else msg\<lparr>Header := (Header msg)\<lparr>SessionID := PeerSessionID s\<rparr>\<rparr>)"

definition clear_reliable :: "bool \<Rightarrow> Message \<Rightarrow> Message" where
  "clear_reliable isBLE msg =
     (if isBLE then msg\<lparr>Protocol := (Protocol msg)\<lparr>ExchangeFlags := ExchangeFlags (Protocol msg) AND NOT ExFlagReliable\<rparr>\<rparr>
      else msg)"

definition sendMessage :: "(byte list \<Rightarrow> net_addr \<Rightarrow> unit res) \<Rightarrow> byte list option \<Rightarrow> Message \<Rightarrow> (Controller, unit) call" where
  "sendMessage conn_Send rnd msg c =
     (case cl_peerAddr c of
        None \<Rightarrow> (Err (Errorf ''controller: no peer address set''), c)
      | Some addr \<Rightarrow>
          let msg = clear_reliable (cl_isBLE c) msg;
              ((k, s), st) = session_or_unsecured rnd (SessionID (Header msg)) (cl_sessions c);
              msg = address_message (cl_sourceNodeID c) s msg;
              (counter, s) = NextMessageCounter s;
              c = c\<lparr>cl_sessions := st\<lparr>sessions := (sessions st)(k \<mapsto> s)\<rparr>\<rparr>;
              msg = msg\<lparr>Header := (Header msg)\<lparr>MessageCounter := counter\<rparr>\<rparr>
          in case wrap_res ''controller: encoding message'' (Encode msg (Some s)) of
               Err e \<Rightarrow> (Err e, c)
             | Panic \<Rightarrow> (Panic, c)
             | Ok data \<Rightarrow> (conn_Send data addr, c\<lparr>cl_sent := cl_sent c @ [(data, addr)]\<rparr>))"

subsection \<open>Receiving\<close>

definition mrp_ack :: "Message \<Rightarrow> Message" where
  "mrp_ack msg =
     \<lparr>Header = zero_header\<lparr>SessionID := SessionID (Header msg)\<rparr>,
      Protocol = \<lparr>ExchangeFlags = (if \<not> IsInitiator (Protocol msg) then ExFlagACK OR ExFlagInitiator else ExFlagACK),
        ProtocolOpcode = 0x10, ExchangeID = ExchangeID (Protocol msg), ProtocolID = 0x0000, VendorID = 0,
        HasVendorID = False, AckMessageCounter = MessageCounter (Header msg), HasAckCounter = True\<rparr>,
      Payload = []\<rparr>"

definition sendMRPAck :: "(byte list \<Rightarrow> net_addr \<Rightarrow> unit res) \<Rightarrow> byte list option \<Rightarrow> Message \<Rightarrow> Controller \<Rightarrow> Controller" where
  "sendMRPAck conn_Send rnd msg c = snd (sendMessage conn_Send rnd (mrp_ack msg) c)"

text \<open>The part of the loop after a message is decoded; the pump of a controller has no handler.\<close>

definition dispatch :: "(byte list \<Rightarrow> net_addr \<Rightarrow> unit res) \<Rightarrow> byte list option \<Rightarrow> Message \<Rightarrow> Controller \<Rightarrow> unit outcome \<times> Controller" where
  "dispatch conn_Send rnd msg c =
     (let c = (if NeedsACK (Protocol msg) \<and> \<not> cl_isBLE c then sendMRPAck conn_Send rnd msg c else c) in
      if ProtocolOpcode (Protocol msg) = 0x10 \<and> HasAckCounter (Protocol msg) then (Returned (), c)
      else case HandleMessage None None True msg (cl_exchanges c) of
          (r, em) \<Rightarrow> (case r of Returned _ \<Rightarrow> Returned () | Blocked \<Rightarrow> Blocked | Panicked \<Rightarrow> Panicked, c\<lparr>cl_exchanges := em\<rparr>))"

text \<open>One turn of the loop with a datagram and its sender.\<close>

definition pump_step ::
  "(byte list \<Rightarrow> net_addr \<Rightarrow> unit res) \<Rightarrow> byte list option \<Rightarrow> byte list \<Rightarrow> net_addr \<Rightarrow> Controller \<Rightarrow> unit outcome \<times> Controller" where
  "pump_step conn_Send rnd data addr c =
     (let c = c\<lparr>cl_peerAddr := Some addr\<rparr> in
      case DecodeMessageHeader data of
        Err _ \<Rightarrow> (Returned (), c)
      | Panic \<Rightarrow> (Panicked, c)
      | Ok (header, _) \<Rightarrow>
          let ((k, s), st) = session_or_unsecured rnd (SessionID header) (cl_sessions c);
              c = c\<lparr>cl_sessions := st\<rparr>
          in case Decode data (Some s) of
               Err _ \<Rightarrow> (Returned (), c)
             | Panic \<Rightarrow> (Panicked, c)
             | Ok msg \<Rightarrow> dispatch conn_Send rnd msg c)"

text \<open>
  What the successive calls of \<^verbatim>\<open>Receive\<close> return: a datagram, an error, an error after the context was
  cancelled.  A closed connection closes all exchanges; \<open>order\<close> is the order of the map.
\<close>

datatype received = Datagram "byte list" net_addr | RecvError err | RecvCancelled

fun runMessagePump ::
  "(byte list \<Rightarrow> net_addr \<Rightarrow> unit res) \<Rightarrow> byte list option \<Rightarrow> exchangeKey list \<Rightarrow> received list \<Rightarrow> Controller \<Rightarrow> unit outcome \<times> Controller" where
  "runMessagePump conn_Send rnd order [] c = (Blocked, c)"
| "runMessagePump conn_Send rnd order (RecvCancelled # rs) c = (Returned (), c)"
| "runMessagePump conn_Send rnd order (RecvError e # rs) c =
     (if errors_Is e ErrConnClosed then (Returned (), c\<lparr>cl_exchanges := CloseAll order (cl_exchanges c)\<rparr>)
      else runMessagePump conn_Send rnd order rs c)"
| "runMessagePump conn_Send rnd order (Datagram data addr # rs) c =
     (case pump_step conn_Send rnd data addr c of
        (Returned _, c) \<Rightarrow> runMessagePump conn_Send rnd order rs c
      | (r, c) \<Rightarrow> (r, c))"


subsection \<open>What a session table keeps\<close>

text \<open>
  Sending and receiving change a session in its outgoing counter only, and add no session but the
  unsecured one.
\<close>

definition table_keeps :: "SessionTable \<Rightarrow> SessionTable \<Rightarrow> bool" where
  "table_keeps st st' \<longleftrightarrow> nextID st' = nextID st \<and>
     (\<forall>i s. GetSession st i = Some s \<longrightarrow> (\<exists>n. GetSession st' i = Some (s\<lparr>localCounter := n\<rparr>))) \<and>
     (\<forall>i. GetSession st i = None \<longrightarrow> i \<noteq> 0 \<longrightarrow> GetSession st' i = None) \<and>
     (GetSession st 0 = None \<longrightarrow> GetSession st' 0 \<noteq> None \<longrightarrow>
       (\<exists>s n. GetSession st' 0 = Some (s\<lparr>localCounter := n\<rparr>) \<and> s = new_session 0 SessionUnsecured None))"

lemma table_keepsD:
  "table_keeps st st' \<Longrightarrow> GetSession st i = Some s \<Longrightarrow> \<exists>n. GetSession st' i = Some (s\<lparr>localCounter := n\<rparr>)"
  "table_keeps st st' \<Longrightarrow> GetSession st i = None \<Longrightarrow> i \<noteq> 0 \<Longrightarrow> GetSession st' i = None"
  unfolding table_keeps_def by blast+

lemma localCounter_same: "\<exists>n. s = s\<lparr>localCounter := n\<rparr>"
  by (rule exI [of _ "localCounter s"]) simp

lemma table_keeps_refl: "table_keeps st st"
  by (simp add: table_keeps_def localCounter_same)

lemma table_keeps_twice:
  assumes "table_keeps st st'" and "GetSession st i = Some (s\<lparr>localCounter := k\<rparr>)"
  shows "\<exists>n. GetSession st' i = Some (s\<lparr>localCounter := n\<rparr>)"
  using table_keepsD(1) [OF assms] by simp

lemma table_keeps_trans:
  assumes a: "table_keeps st st'" and b: "table_keeps st' st''"
  shows "table_keeps st st''"
  unfolding table_keeps_def
proof (intro conjI allI impI)
  show "nextID st'' = nextID st" using a b by (simp add: table_keeps_def)
  show "\<exists>n. GetSession st'' i = Some (s\<lparr>localCounter := n\<rparr>)" if "GetSession st i = Some s" for i s
    using table_keepsD(1) [OF a that] table_keeps_twice [OF b, where i = i and s = s] by blast
  show "GetSession st'' i = None" if "GetSession st i = None" "i \<noteq> 0" for i
    using that table_keepsD(2) [OF a] table_keepsD(2) [OF b] by blast
  show "\<exists>s n. GetSession st'' 0 = Some (s\<lparr>localCounter := n\<rparr>) \<and> s = new_session 0 SessionUnsecured None"
    if n: "GetSession st 0 = None" "GetSession st'' 0 \<noteq> None"
  proof (cases "GetSession st' 0 = None")
    case True
    with b n(2) show ?thesis by (simp add: table_keeps_def)
  next
    case False
    with a n(1) obtain k where "GetSession st' 0 = Some ((new_session 0 SessionUnsecured None)\<lparr>localCounter := k\<rparr>)"
      unfolding table_keeps_def by blast
    from table_keeps_twice [OF b this] show ?thesis by blast
  qed
qed

lemma new_session_counter: "\<exists>n. new_session i ty rnd = (new_session i ty None)\<lparr>localCounter := n\<rparr>"
  by (intro exI [of _ "localCounter (new_session i ty rnd)"]) (simp add: new_session_def)

lemma table_keeps_lookup:
  assumes "session_or_unsecured rnd i st = ((k, s), st')"
  shows "table_keeps st st'" and "GetSession st' k = Some s" and "GetSession st i = Some s \<or> GetSession st i = None \<and> k = 0"
  using assms new_session_counter [of 0 SessionUnsecured rnd]
  by (auto simp: session_or_unsecured_def UnsecuredSession_def GetSession_def table_keeps_def Let_def localCounter_same
      split: option.splits)

lemma table_keeps_counter:
  "GetSession st k = Some s \<Longrightarrow> table_keeps st (st\<lparr>sessions := (sessions st)(k \<mapsto> snd (NextMessageCounter s))\<rparr>)"
  by (auto simp: table_keeps_def GetSession_def NextMessageCounter_def Let_def localCounter_same)

lemma sendMessage_keeps:
  "cl_exchanges (snd (sendMessage conn rnd msg c)) = cl_exchanges c"
  "cl_peerAddr (snd (sendMessage conn rnd msg c)) = cl_peerAddr c"
  "cl_isBLE (snd (sendMessage conn rnd msg c)) = cl_isBLE c"
  "table_keeps (cl_sessions c) (cl_sessions (snd (sendMessage conn rnd msg c)))"
proof -
  obtain k s st where l: "session_or_unsecured rnd (SessionID (Header (clear_reliable (cl_isBLE c) msg))) (cl_sessions c) = ((k, s), st)"
    by (metis prod.collapse)
  note t = table_keeps_trans [OF table_keeps_lookup(1) [OF l] table_keeps_counter [OF table_keeps_lookup(2) [OF l]]]
  show "cl_exchanges (snd (sendMessage conn rnd msg c)) = cl_exchanges c"
    "cl_peerAddr (snd (sendMessage conn rnd msg c)) = cl_peerAddr c"
    "cl_isBLE (snd (sendMessage conn rnd msg c)) = cl_isBLE c"
    "table_keeps (cl_sessions c) (cl_sessions (snd (sendMessage conn rnd msg c)))"
    using t table_keeps_refl by (auto simp: sendMessage_def Let_def case_prod_beta l split: option.split res.split)
qed

text \<open>Decoding looks at the keys of a session, not at its counter.\<close>

lemma Decode_counter: "Decode data (Some (s\<lparr>localCounter := n\<rparr>)) = Decode data (Some s)"
proof -
  have "secured (Some (s\<lparr>localCounter := n\<rparr>)) DecryptKey =
      map_option (\<lambda>(s, key). (s\<lparr>localCounter := n\<rparr>, key)) (secured (Some s) DecryptKey)"
    by (cases "DecryptKey s") (simp_all add: secured_def)
  then show ?thesis by (cases "secured (Some s) DecryptKey") (auto simp: Codec_Decode_def Let_def cong: if_cong)
qed

subsection \<open>What a datagram does\<close>

lemma HandleMessage_heap:
  assumes "em_ok em" and "a < length (heap em)"
  shows "heap (snd (HandleMessage None ctx coin msg em)) ! a = heap em ! a \<or>
    exchanges em (msg_key msg) = Some a \<and>
    heap (snd (HandleMessage None ctx coin msg em)) ! a = (heap em ! a)\<lparr>incoming := incoming (heap em ! a) @ [msg]\<rparr>"
  using assms
proof (cases "exchanges em (msg_key msg)")
  case None
  with assms show ?thesis by (simp add: HandleMessage_def add_exchange_def nth_append)
next
  case (Some b)
  then show ?thesis
    using assms by (cases "a = b") (simp_all add: HandleMessage_def on_heap_def case_prod_beta chan_send_def split: option.split)
qed

lemma dispatch_keeps:
  "cl_exchanges (snd (dispatch conn rnd msg c)) = cl_exchanges c \<or>
   cl_exchanges (snd (dispatch conn rnd msg c)) = snd (HandleMessage None None True msg (cl_exchanges c))"
  "table_keeps (cl_sessions c) (cl_sessions (snd (dispatch conn rnd msg c)))"
  using sendMessage_keeps(1) [of conn rnd "mrp_ack msg" c] sendMessage_keeps(4) [of c conn rnd "mrp_ack msg"] table_keeps_refl
  by (auto simp: dispatch_def sendMRPAck_def Let_def case_prod_beta)

lemma dispatch_other:
  "cl_peerAddr (snd (dispatch conn rnd msg c)) = cl_peerAddr c" "cl_isBLE (snd (dispatch conn rnd msg c)) = cl_isBLE c"
  using sendMessage_keeps(2,3) [of conn rnd "mrp_ack msg" c]
  by (auto simp: dispatch_def sendMRPAck_def Let_def case_prod_beta)

lemma pump_step_cases:
  obtains (dropped) "cl_exchanges (snd (pump_step conn rnd data addr c)) = cl_exchanges c"
    "table_keeps (cl_sessions c) (cl_sessions (snd (pump_step conn rnd data addr c)))"
    "cl_peerAddr (snd (pump_step conn rnd data addr c)) = Some addr"
  | (decoded) h n k s st msg where "DecodeMessageHeader data = Ok (h, n)"
    "session_or_unsecured rnd (SessionID h) (cl_sessions c) = ((k, s), st)" "Decode data (Some s) = Ok msg"
    "pump_step conn rnd data addr c = dispatch conn rnd msg (c\<lparr>cl_peerAddr := Some addr, cl_sessions := st\<rparr>)"
proof (cases "DecodeMessageHeader data")
  case (Ok hn)
  obtain h n where hn: "hn = (h, n)" by fastforce
  obtain k s st where l: "session_or_unsecured rnd (SessionID h) (cl_sessions c) = ((k, s), st)" by (metis prod.collapse)
  show ?thesis
  proof (cases "Decode data (Some s)")
    case (Ok msg)
    with \<open>DecodeMessageHeader data = Ok hn\<close> hn l show ?thesis
      by (intro decoded [of h n k s st msg]) (simp_all add: pump_step_def)
  qed (intro dropped; use \<open>DecodeMessageHeader data = Ok hn\<close> hn l table_keeps_lookup(1) [OF l] in
      \<open>simp add: pump_step_def\<close>)+
qed (intro dropped; simp add: pump_step_def table_keeps_refl)+

lemma pump_step_keeps:
  "table_keeps (cl_sessions c) (cl_sessions (snd (pump_step conn rnd data addr c)))"
  "cl_peerAddr (snd (pump_step conn rnd data addr c)) = Some addr"
proof -
  have "table_keeps (cl_sessions c) (cl_sessions (snd (pump_step conn rnd data addr c))) \<and>
      cl_peerAddr (snd (pump_step conn rnd data addr c)) = Some addr"
  proof (cases rule: pump_step_cases [of conn rnd data addr c])
    case (decoded h n k s st msg)
    let ?c = "c\<lparr>cl_peerAddr := Some addr, cl_sessions := st\<rparr>"
    show ?thesis unfolding decoded(4)
      using table_keeps_trans [OF table_keeps_lookup(1) [OF decoded(2)]] dispatch_keeps(2) [of ?c conn rnd msg]
        dispatch_other(1) [of conn rnd msg ?c] by simp
  qed simp
  then show "table_keeps (cl_sessions c) (cl_sessions (snd (pump_step conn rnd data addr c)))"
    "cl_peerAddr (snd (pump_step conn rnd data addr c)) = Some addr" by auto
qed

lemma pump_step_exchanges:
  "em_ok (cl_exchanges c) \<Longrightarrow> em_ok (cl_exchanges (snd (pump_step conn rnd data addr c)))"
proof (cases rule: pump_step_cases [of conn rnd data addr c])
  case (decoded h n k s st msg)
  assume ok: "em_ok (cl_exchanges c)"
  let ?c = "c\<lparr>cl_peerAddr := Some addr, cl_sessions := st\<rparr>"
  show "em_ok (cl_exchanges (snd (pump_step conn rnd data addr c)))"
    unfolding decoded(4) using dispatch_keeps(1) [of conn rnd msg ?c] em_ok_HandleMessage [OF ok, of None None True msg] ok
    by auto
qed simp

text \<open>An exchange changes only when a message for it is decoded under the session the header names.\<close>

lemma pump_step_heap [consumes 2]:
  assumes "em_ok (cl_exchanges c)" and "a < length (heap (cl_exchanges c))"
  obtains (same) "heap (cl_exchanges (snd (pump_step conn rnd data addr c))) ! a = heap (cl_exchanges c) ! a"
  | (grown) h n k s st msg where "DecodeMessageHeader data = Ok (h, n)"
    "session_or_unsecured rnd (SessionID h) (cl_sessions c) = ((k, s), st)" "Decode data (Some s) = Ok msg"
    "exchanges (cl_exchanges c) (msg_key msg) = Some a"
    "heap (cl_exchanges (snd (pump_step conn rnd data addr c))) ! a =
      (heap (cl_exchanges c) ! a)\<lparr>incoming := incoming (heap (cl_exchanges c) ! a) @ [msg]\<rparr>"
proof (cases rule: pump_step_cases [of conn rnd data addr c])
  case (decoded h n k s st msg)
  from dispatch_keeps(1) [of conn rnd msg "c\<lparr>cl_peerAddr := Some addr, cl_sessions := st\<rparr>"]
    HandleMessage_heap [OF assms, of None True msg] same grown [OF decoded(1-3)]
  show ?thesis unfolding decoded(4) by auto
qed (use same in simp)


text \<open>Looking the session up again gives the same session, up to its counter.\<close>

lemma lookup_again:
  assumes "session_or_unsecured rnd i st = ((k, s), st1)" and "table_keeps st1 st2"
  shows "\<exists>n. session_or_unsecured rnd' i st2 = ((k, s\<lparr>localCounter := n\<rparr>), st2)"
proof -
  obtain n where n: "GetSession st2 k = Some (s\<lparr>localCounter := n\<rparr>)"
    using table_keepsD(1) [OF assms(2) table_keeps_lookup(2) [OF assms(1)]] by blast
  show ?thesis
  proof (cases "GetSession st i")
    case (Some t)
    with assms(1) n show ?thesis by (auto simp: session_or_unsecured_def)
  next
    case None
    with assms(1) have k: "k = 0" by (simp add: session_or_unsecured_def split: prod.splits)
    have "GetSession st1 i = None" if "i \<noteq> 0"
      using None assms(1) that by (auto simp: session_or_unsecured_def UnsecuredSession_def GetSession_def Let_def split: option.splits)
    then have "GetSession st2 i = None" if "i \<noteq> 0" using table_keepsD(2) [OF assms(2)] that by blast
    with n k show ?thesis
      by (cases "i = 0") (auto simp: session_or_unsecured_def UnsecuredSession_def GetSession_def)
  qed
qed

lemma HandleMessage_delivers:
  assumes "em_ok em" and "exchanges em (msg_key msg) = Some a" and "\<not> closed (heap em ! a)"
    and "length (incoming (heap em ! a)) < chan_capacity"
  shows "HandleMessage None None True msg em =
    (Returned None, em\<lparr>heap := (heap em)[a := (heap em ! a)\<lparr>incoming := incoming (heap em ! a) @ [msg]\<rparr>]\<rparr>)"
proof -
  have "a < length (heap em)" using assms(1,2) by (auto simp: em_ok_def)
  then have "\<not> chan_closed (heap em ! a)" using exchange_ok_nth [OF assms(1)] assms(3) by (simp add: exchange_ok_def)
  with assms show ?thesis by (simp add: HandleMessage_def check_closed_def on_heap_def chan_send_def)
qed

lemma HandleMessage_closed:
  "exchanges em (msg_key msg) = Some a \<Longrightarrow> closed (heap em ! a) \<Longrightarrow> snd (HandleMessage None ctx coin msg em) = em"
  by (simp add: HandleMessage_def check_closed_def)

text \<open>A message that is not an acknowledgement of its own reaches its exchange.\<close>

definition standalone_ack :: "Message \<Rightarrow> bool" where
  "standalone_ack msg \<longleftrightarrow> ProtocolOpcode (Protocol msg) = 0x10 \<and> HasAckCounter (Protocol msg)"

lemma dispatch_exchanges:
  "cl_exchanges (snd (dispatch conn rnd msg c)) =
    (if standalone_ack msg then cl_exchanges c else snd (HandleMessage None None True msg (cl_exchanges c)))"
  using sendMessage_keeps(1) [of conn rnd "mrp_ack msg" c]
  by (auto simp: dispatch_def standalone_ack_def sendMRPAck_def Let_def case_prod_beta)

lemma dispatch_delivers:
  assumes "\<not> standalone_ack msg" and "em_ok (cl_exchanges c)" and "exchanges (cl_exchanges c) (msg_key msg) = Some a"
    and "\<not> closed (heap (cl_exchanges c) ! a)" and "length (incoming (heap (cl_exchanges c) ! a)) < chan_capacity"
  shows "\<exists>c'. dispatch conn rnd msg c = (Returned (), c') \<and> cl_exchanges c' = (cl_exchanges c)\<lparr>heap :=
    (heap (cl_exchanges c))[a := (heap (cl_exchanges c) ! a)\<lparr>incoming := incoming (heap (cl_exchanges c) ! a) @ [msg]\<rparr>]\<rparr>"
  using assms(1) HandleMessage_delivers [OF assms(2-5)] sendMessage_keeps(1) [of conn rnd "mrp_ack msg" c]
  by (auto simp: dispatch_def standalone_ack_def sendMRPAck_def Let_def)

lemma pump_step_decoded:
  assumes "DecodeMessageHeader data = Ok (h, n)" and "session_or_unsecured rnd (SessionID h) (cl_sessions c) = ((k, s), st)"
    and "Decode data (Some s) = Ok msg"
  shows "pump_step conn rnd data addr c = dispatch conn rnd msg (c\<lparr>cl_peerAddr := Some addr, cl_sessions := st\<rparr>)"
  using assms by (simp add: pump_step_def)

lemma Decode_header:
  assumes "Decode data s = Ok msg"
  shows "\<exists>n. DecodeMessageHeader data = Ok (Header msg, n)"
  using assms by (auto simp: Codec_Decode_def Let_def bind_res_Ok_iff)

lemma flags_u8: "((a :: byte) AND NOT ExFlagReliable) AND ExFlagVendor = a AND ExFlagVendor"
  "(a AND NOT ExFlagReliable) AND ExFlagACK = a AND ExFlagACK"
  "(a AND NOT ExFlagReliable) AND ExFlagInitiator = a AND ExFlagInitiator"
  unfolding ExFlagReliable_def ExFlagVendor_def ExFlagACK_def ExFlagInitiator_def and_single_bit
  by (simp_all only: bit_and_iff bit_not_iff bit_push_bit_iff bit_1_iff) simp_all

lemma ph_flags_initiator: "ph_flags p AND ExFlagInitiator = ExchangeFlags p AND ExFlagInitiator"
  unfolding ph_flags_def ExFlagVendor_def ExFlagACK_def ExFlagInitiator_def and_single_bit
  by (simp only: bit_or_iff bit_push_bit_iff bit_1_iff if_distrib [of "\<lambda>w. bit w 0"] bit_0_eq) simp

lemma ph_flags_reliable: "ph_flags p AND ExFlagReliable = ExchangeFlags p AND ExFlagReliable"
  unfolding ph_flags_def ExFlagVendor_def ExFlagACK_def ExFlagReliable_def and_single_bit
  by (simp only: bit_or_iff bit_push_bit_iff bit_1_iff if_distrib [of "\<lambda>w. bit w 2"] bit_0_eq) simp

lemma clear_reliable_keeps:
  "flags_consistent (Protocol (clear_reliable b m)) = flags_consistent (Protocol m)"
  "IsInitiator (Protocol (clear_reliable b m)) = IsInitiator (Protocol m)"
  "length (wire_plaintext (clear_reliable b m)) = length (wire_plaintext m)"
  "Header (clear_reliable b m) = Header m" "Payload (clear_reliable b m) = Payload m"
  "ProtocolOpcode (Protocol (clear_reliable b m)) = ProtocolOpcode (Protocol m)"
  "ExchangeID (Protocol (clear_reliable b m)) = ExchangeID (Protocol m)"
  "ProtocolID (Protocol (clear_reliable b m)) = ProtocolID (Protocol m)"
  "HasAckCounter (Protocol (clear_reliable b m)) = HasAckCounter (Protocol m)"
  by (simp_all add: clear_reliable_def flags_consistent_def flags_u8 IsInitiator_def wire_plaintext_def length_ph_bytes)

lemma norm_message_keeps:
  "SessionID (Header (norm_message m)) = SessionID (Header m)"
  "MessageCounter (Header (norm_message m)) = MessageCounter (Header m)"
  "Payload (norm_message m) = Payload m"
  "ProtocolOpcode (Protocol (norm_message m)) = ProtocolOpcode (Protocol m)"
  "ExchangeID (Protocol (norm_message m)) = ExchangeID (Protocol m)"
  "ProtocolID (Protocol (norm_message m)) = ProtocolID (Protocol m)"
  "HasAckCounter (Protocol (norm_message m)) = HasAckCounter (Protocol m)"
  "IsInitiator (Protocol (norm_message m)) = IsInitiator (Protocol m)"
  by (simp_all add: norm_message_def norm_header_def norm_protocol_def ph_flags_initiator IsInitiator_def)


lemma msg_key_norm: "msg_key (norm_message m) = msg_key m"
  by (simp add: msg_key_def norm_message_keeps)

text \<open>What one end of a session seals for the other reaches the exchange it is for.\<close>

lemma sealed_arrives:
  assumes "paired s r" and "flags_consistent (Protocol w)" and "length (wire_plaintext w) \<le> 65535" and "\<not> standalone_ack w"
    and "GetSession (cl_sessions B) (SessionID (Header w)) = Some r" and "em_ok (cl_exchanges B)"
    and "exchanges (cl_exchanges B) (msg_key w) = Some a"
    and "\<not> closed (heap (cl_exchanges B) ! a)" and "length (incoming (heap (cl_exchanges B) ! a)) < chan_capacity"
  obtains data B' where "Encode w (Some s) = Ok data" and "length data \<le> 65575"
    and "pump_step conn rnd data sender B = (Returned (), B')"
    and "cl_exchanges B' = (cl_exchanges B)\<lparr>heap := (heap (cl_exchanges B))[a := (heap (cl_exchanges B) ! a)\<lparr>incoming :=
       incoming (heap (cl_exchanges B) ! a) @ [norm_message w]\<rparr>]\<rparr>"
    and "table_keeps (cl_sessions B) (cl_sessions B')"
proof -
  obtain data where data: "Encode w (Some s) = Ok data" "Decode data (Some r) = Ok (norm_message w)"
    using ccm.codec_roundtrip [OF assms(1-3)] by blast
  have "length data \<le> 65575"
    using data(1) assms(3)
    by (auto simp: Codec_Encode_def EncodeProtocolHeader_bytes EncodeMessageHeader_bytes bind_res_Ok_iff Let_def
        length_mh_bytes wire_plaintext_def split: option.splits dest!: ccm.enc_length)
  obtain n where "DecodeMessageHeader data = Ok (Header (norm_message w), n)" using Decode_header [OF data(2)] by blast
  then have step: "pump_step conn rnd data sender B = dispatch conn rnd (norm_message w) (B\<lparr>cl_peerAddr := Some sender\<rparr>)"
    using pump_step_decoded [of data "Header (norm_message w)" n rnd B "SessionID (Header w)" r "cl_sessions B"] data(2) assms(5)
    by (simp add: norm_message_keeps session_or_unsecured_def)
  have "\<not> standalone_ack (norm_message w)" using assms(4) by (simp add: standalone_ack_def norm_message_keeps)
  from dispatch_delivers [OF this, of "B\<lparr>cl_peerAddr := Some sender\<rparr>" a conn rnd] assms(6-9)
    dispatch_keeps(2) [of "B\<lparr>cl_peerAddr := Some sender\<rparr>" conn rnd "norm_message w"] step
  show ?thesis using that [OF data(1) \<open>length data \<le> 65575\<close>] by (auto simp: msg_key_norm)
qed

subsection \<open>Properties\<close>

lemma pump_accepts_replays:
  assumes "em_ok (cl_exchanges c)" and "a < length (heap (cl_exchanges c))"
    and "pump_step conn rnd data addr c = (Returned (), c1)"
    and "incoming (heap (cl_exchanges c1) ! a) = incoming (heap (cl_exchanges c) ! a) @ [m]"
    and "length (incoming (heap (cl_exchanges c) ! a)) \<le> 6"
  shows "\<exists>c2. pump_step conn rnd' data addr' c1 = (Returned (), c2) \<and>
    incoming (heap (cl_exchanges c2) ! a) = incoming (heap (cl_exchanges c) ! a) @ [m, m]"
  using assms(1,2)
proof (cases rule: pump_step_heap [where conn = conn and rnd = rnd and data = data and addr = addr])
  case same
  with assms(3,4) show ?thesis by simp
next
  case (grown h n k s st msg)
  note step = pump_step_decoded [OF grown(1-3), of conn addr]
  let ?c = "c\<lparr>cl_peerAddr := Some addr, cl_sessions := st\<rparr>"
  have m: "msg = m" using grown(5) assms(3,4) by simp
  have d: "dispatch conn rnd msg ?c = (Returned (), c1)" using step assms(3) by simp
  have grew: "incoming (heap (cl_exchanges (snd (dispatch conn rnd msg ?c))) ! a) \<noteq> incoming (heap (cl_exchanges c) ! a)"
    using d assms(4) by simp
  then have not_ack: "\<not> standalone_ack msg" by (auto simp: dispatch_exchanges)
  have "\<not> closed (heap (cl_exchanges c) ! a)"
    using grew not_ack HandleMessage_closed [OF grown(4), of None True] by (auto simp: dispatch_exchanges)
  with dispatch_delivers [OF not_ack, of ?c a conn rnd] grown(4) assms(1,5) d
  have em: "cl_exchanges c1 = (cl_exchanges c)\<lparr>heap := (heap (cl_exchanges c))[a :=
      (heap (cl_exchanges c) ! a)\<lparr>incoming := incoming (heap (cl_exchanges c) ! a) @ [msg]\<rparr>]\<rparr>"
    by (simp add: chan_capacity_def)
  have "em_ok (cl_exchanges c1)" using pump_step_exchanges [OF assms(1), of conn rnd data addr] assms(3) by simp
  moreover have "table_keeps st (cl_sessions c1)" using dispatch_keeps(2) [of ?c conn rnd msg] d by simp
  then obtain n' where "session_or_unsecured rnd' (SessionID h) (cl_sessions c1) = ((k, s\<lparr>localCounter := n'\<rparr>), cl_sessions c1)"
    using lookup_again [OF grown(2)] by blast
  from pump_step_decoded [OF grown(1) this, of msg conn addr'] grown(3)
  have "pump_step conn rnd' data addr' c1 = dispatch conn rnd' msg (c1\<lparr>cl_peerAddr := Some addr'\<rparr>)"
    by (simp add: Decode_counter)
  ultimately show ?thesis
    using dispatch_delivers [OF not_ack, of "c1\<lparr>cl_peerAddr := Some addr'\<rparr>" a conn rnd'] assms(2,5) grown(4)
      \<open>\<not> closed (heap (cl_exchanges c) ! a)\<close> m
    by (auto simp: em chan_capacity_def)
qed

text \<open>What a datagram brings to an exchange of a secured session, and that it does so again.\<close>

lemma pump_delivers_sealed:
  assumes "em_ok (cl_exchanges c)" and "a < length (heap (cl_exchanges c))"
    and "GetSession (cl_sessions c) (ID (ex_Session (heap (cl_exchanges c) ! a))) = Some s"
    and "Type s \<noteq> SessionUnsecured" and "DecryptKey s = Some key" and "pump_step conn rnd data addr c = (r, c')"
  shows "heap (cl_exchanges c') ! a = heap (cl_exchanges c) ! a \<or>
    (\<exists>m n pt k nonce. incoming (heap (cl_exchanges c') ! a) = incoming (heap (cl_exchanges c) ! a) @ [m] \<and>
       msg_key m = key_of (heap (cl_exchanges c) ! a) \<and> DecodeMessageHeader data = Ok (Header m, n) \<and>
       nonce = buildNonce (SecurityFlags (Header m)) (MessageCounter (Header m))
           (if \<not> HasSourceNodeID (Header m) then PeerNodeID s else SourceNodeID (Header m)) \<and>
       drop n data = ccm_seal key nonce pt (take n data) \<and> DecodeProtocolHeader pt = Ok (Protocol m, k) \<and> Payload m = drop k pt)"
  using assms(1,2)
proof (cases rule: pump_step_heap [where conn = conn and rnd = rnd and data = data and addr = addr])
  case same
  with assms(6) show ?thesis by simp
next
  case (grown h n k t st msg)
  have key: "msg_key msg = key_of (heap (cl_exchanges c) ! a)" using grown(4) assms(1) by (auto simp: em_ok_def)
  moreover have "Header msg = h" using Decode_header [OF grown(3)] grown(1) by auto
  ultimately have "SessionID h = ID (ex_Session (heap (cl_exchanges c) ! a))" by (auto simp: msg_key_def key_of_def)
  then have t: "t = s" using table_keeps_lookup(3) [OF grown(2)] assms(3) by auto
  from ccm.decode_only_sealed [OF grown(3) [unfolded t] assms(4,5)] obtain n' pt k' nonce where
    f: "DecodeMessageHeader data = Ok (Header msg, n')" "drop n' data = ccm_seal key nonce pt (take n' data)"
    "DecodeProtocolHeader pt = Ok (Protocol msg, k')" "Payload msg = drop k' pt"
    "nonce = buildNonce (SecurityFlags (Header msg)) (MessageCounter (Header msg))
       (if \<not> HasSourceNodeID (Header msg) then PeerNodeID s else SourceNodeID (Header msg))" by blast
  moreover have "incoming (heap (cl_exchanges c') ! a) = incoming (heap (cl_exchanges c) ! a) @ [msg]"
    using grown(5) assms(6) by simp
  ultimately show ?thesis using key by blast
qed

text \<open>
  C40 What the pump brings to a secured session: whatever datagram arrives, of whatever length and from
  whatever address, an exchange of a session that has its keys either keeps its state or gets one
  message more, and then the datagram is the header of this message followed by the sealed form, under
  the session's key, with the nonce and the associated data of this header, of its protocol header and
  payload, and the message is for this exchange.  But nothing stops a replay: no peer counter is
  checked, so the same datagram again, from the same or another address, brings the same message again.
\<close>

theorem pump_delivers:
  assumes "em_ok (cl_exchanges c)" and "a < length (heap (cl_exchanges c))"
    and "GetSession (cl_sessions c) (ID (ex_Session (heap (cl_exchanges c) ! a))) = Some s"
    and "Type s \<noteq> SessionUnsecured" and "DecryptKey s = Some key"
    and "pump_step conn rnd data addr c = (Returned (), c')" and "old = incoming (heap (cl_exchanges c) ! a)"
  shows "heap (cl_exchanges c') ! a = heap (cl_exchanges c) ! a \<or>
    (\<exists>m n pt k nonce. incoming (heap (cl_exchanges c') ! a) = old @ [m] \<and>
       msg_key m = key_of (heap (cl_exchanges c) ! a) \<and> DecodeMessageHeader data = Ok (Header m, n) \<and>
       nonce = buildNonce (SecurityFlags (Header m)) (MessageCounter (Header m))
           (if \<not> HasSourceNodeID (Header m) then PeerNodeID s else SourceNodeID (Header m)) \<and>
       drop n data = ccm_seal key nonce pt (take n data) \<and> DecodeProtocolHeader pt = Ok (Protocol m, k) \<and> Payload m = drop k pt \<and>
       (length old \<le> 6 \<longrightarrow> (\<forall>rnd' addr'. \<exists>c2. pump_step conn rnd' data addr' c' = (Returned (), c2) \<and>
          incoming (heap (cl_exchanges c2) ! a) = old @ [m, m])))"
  using pump_delivers_sealed [OF assms(1-6)]
proof
  assume "\<exists>m n pt k nonce. incoming (heap (cl_exchanges c') ! a) = incoming (heap (cl_exchanges c) ! a) @ [m] \<and>
       msg_key m = key_of (heap (cl_exchanges c) ! a) \<and> DecodeMessageHeader data = Ok (Header m, n) \<and>
       nonce = buildNonce (SecurityFlags (Header m)) (MessageCounter (Header m))
           (if \<not> HasSourceNodeID (Header m) then PeerNodeID s else SourceNodeID (Header m)) \<and>
       drop n data = ccm_seal key nonce pt (take n data) \<and> DecodeProtocolHeader pt = Ok (Protocol m, k) \<and> Payload m = drop k pt"
  then obtain m n pt k nonce where d: "incoming (heap (cl_exchanges c') ! a) = incoming (heap (cl_exchanges c) ! a) @ [m]"
    "msg_key m = key_of (heap (cl_exchanges c) ! a)" "DecodeMessageHeader data = Ok (Header m, n)"
    "nonce = buildNonce (SecurityFlags (Header m)) (MessageCounter (Header m))
       (if \<not> HasSourceNodeID (Header m) then PeerNodeID s else SourceNodeID (Header m))"
    "drop n data = ccm_seal key nonce pt (take n data)" "DecodeProtocolHeader pt = Ok (Protocol m, k)" "Payload m = drop k pt"
    by blast
  have "\<exists>c2. pump_step conn rnd' data addr' c' = (Returned (), c2) \<and> incoming (heap (cl_exchanges c2) ! a) = old @ [m, m]"
    if "length old \<le> 6" for rnd' addr'
    using pump_accepts_replays [OF assms(1,2,6) d(1), of rnd' addr'] that unfolding assms(7) by blast
  with d assms(7) show ?thesis by blast
qed blast

text \<open>The session of identifier 0, if the table has one, is not secured.\<close>

definition unsecured_here :: "SessionTable \<Rightarrow> bool" where
  "unsecured_here st \<longleftrightarrow> (\<forall>s. GetSession st 0 = Some s \<longrightarrow> Type s = SessionUnsecured)"

lemma unsecured_lookup:
  assumes "unsecured_here st"
  obtains s st' where "session_or_unsecured rnd 0 st = ((0, s), st')" and "Type s = SessionUnsecured"
    and "unsecured_here st'"
proof -
  obtain k s st' where l: "session_or_unsecured rnd 0 st = ((k, s), st')" by (metis prod.collapse)
  have k: "k = 0" using table_keeps_lookup(3) [OF l] l by (auto simp: session_or_unsecured_def split: option.splits prod.splits)
  have "Type s = SessionUnsecured"
    using l assms by (auto simp: session_or_unsecured_def unsecured_here_def UnsecuredSession_def GetSession_def
        new_session_def Let_def split: option.splits)
  with that [of s st'] l k table_keeps_lookup(2) [OF l] show ?thesis by (simp add: unsecured_here_def)
qed

lemma pump_step_plain:
  assumes "unsecured_here (cl_sessions c)" and "flags_consistent (Protocol m)" and "SessionID (Header m) = 0"
    and "\<not> NeedsACK (Protocol m)" and "\<not> standalone_ack m"
  shows "\<exists>st. pump_step conn rnd (mh_bytes (Header m) @ wire_plaintext m) addr c =
     (case HandleMessage None None True (norm_message m) (cl_exchanges c) of
        (r, em) \<Rightarrow> (case r of Returned _ \<Rightarrow> Returned () | Blocked \<Rightarrow> Blocked | Panicked \<Rightarrow> Panicked,
          c\<lparr>cl_peerAddr := Some addr, cl_sessions := st, cl_exchanges := em\<rparr>)) \<and> unsecured_here st"
proof -
  obtain s st where l: "session_or_unsecured rnd 0 (cl_sessions c) = ((0, s), st)" "Type s = SessionUnsecured" "unsecured_here st"
    by (rule unsecured_lookup [OF assms(1)])
  have h: "DecodeMessageHeader (mh_bytes (Header m) @ wire_plaintext m) = Ok (norm_header (Header m), length (mh_bytes (Header m)))"
    by (rule DecodeMessageHeader_mh_bytes)
  have d: "Decode (mh_bytes (Header m) @ wire_plaintext m) (Some s) = Ok (norm_message m)"
    using l(2) h Codec_Decode_plain [OF assms(2)] by (auto simp: Codec_Decode_def secured_def Let_def bind_res_Ok_iff)
  have "ExchangeFlags (Protocol (norm_message m)) AND ExFlagReliable = ExchangeFlags (Protocol m) AND ExFlagReliable"
    by (simp add: norm_message_def norm_protocol_def ph_flags_reliable)
  then have "\<not> NeedsACK (Protocol (norm_message m))" "\<not> standalone_ack (norm_message m)"
    using assms(4,5) by (simp_all add: NeedsACK_def standalone_ack_def norm_message_keeps)
  with pump_step_decoded [OF h _ d, of rnd c 0 st conn addr] l(1,3) assms(3) show ?thesis
    by (intro exI [of _ st]) (auto simp: dispatch_def standalone_ack_def norm_header_def Let_def)
qed

text \<open>An exchange that nobody reads, with \<open>k\<close> messages waiting.\<close>

definition stuffed :: "exchangeKey \<Rightarrow> nat \<Rightarrow> Controller \<Rightarrow> bool" where
  "stuffed key k c \<longleftrightarrow> em_ok (cl_exchanges c) \<and> unsecured_here (cl_sessions c) \<and>
     (\<exists>a. exchanges (cl_exchanges c) key = Some a \<and> \<not> closed (heap (cl_exchanges c) ! a) \<and>
       length (incoming (heap (cl_exchanges c) ! a)) = k)"

definition strange :: "Message \<Rightarrow> bool" where
  "strange m \<longleftrightarrow> flags_consistent (Protocol m) \<and> SessionID (Header m) = 0 \<and> IsInitiator (Protocol m) \<and>
     \<not> NeedsACK (Protocol m) \<and> \<not> standalone_ack m"

lemma stuffed_step:
  assumes "strange m" and "stuffed (msg_key m) k c" and "k < chan_capacity"
  shows "\<exists>c'. pump_step conn rnd (mh_bytes (Header m) @ wire_plaintext m) addr c = (Returned (), c') \<and>
    stuffed (msg_key m) (Suc k) c'"
proof -
  obtain a where a: "exchanges (cl_exchanges c) (msg_key (norm_message m)) = Some a"
      "\<not> closed (heap (cl_exchanges c) ! a)" "length (incoming (heap (cl_exchanges c) ! a)) = k"
    and ok: "em_ok (cl_exchanges c)" "unsecured_here (cl_sessions c)"
    using assms(2) by (auto simp: stuffed_def msg_key_norm)
  have al: "a < length (heap (cl_exchanges c))" using a(1) ok(1) by (auto simp: em_ok_def)
  note h = HandleMessage_delivers [OF ok(1) a(1,2) assms(3) [folded a(3)]]
  obtain st where st: "pump_step conn rnd (mh_bytes (Header m) @ wire_plaintext m) addr c = (Returned (),
      c\<lparr>cl_peerAddr := Some addr, cl_sessions := st, cl_exchanges := snd (HandleMessage None None True (norm_message m) (cl_exchanges c))\<rparr>)"
      "unsecured_here st"
    using pump_step_plain [OF ok(2), of m conn rnd addr] assms(1) h by (auto simp: strange_def)
  moreover have "em_ok (snd (HandleMessage None None True (norm_message m) (cl_exchanges c)))"
    by (rule em_ok_HandleMessage [OF ok(1)]) simp
  ultimately show ?thesis using a al h by (auto simp: stuffed_def msg_key_norm)
qed

lemma stuffed_full:
  assumes "strange m" and "stuffed (msg_key m) chan_capacity c"
  shows "\<exists>c'. pump_step conn rnd (mh_bytes (Header m) @ wire_plaintext m) addr c = (Blocked, c')"
proof -
  obtain a where a: "exchanges (cl_exchanges c) (msg_key (norm_message m)) = Some a"
      "\<not> closed (heap (cl_exchanges c) ! a)" "length (incoming (heap (cl_exchanges c) ! a)) = chan_capacity"
    and ok: "em_ok (cl_exchanges c)" "unsecured_here (cl_sessions c)"
    using assms(2) by (auto simp: stuffed_def msg_key_norm)
  have "\<not> chan_closed (heap (cl_exchanges c) ! a)"
    using exchange_ok_nth [OF ok(1), of a] a(1,2) ok(1) by (auto simp: em_ok_def exchange_ok_def)
  then obtain em where "HandleMessage None None True (norm_message m) (cl_exchanges c) = (Blocked, em)"
    using a by (simp add: HandleMessage_def check_closed_def on_heap_def chan_send_def)
  with pump_step_plain [OF ok(2), of m conn rnd addr] assms(1) show ?thesis by (auto simp: strange_def)
qed

lemma stuffed_opens:
  assumes "strange m" and "em_ok (cl_exchanges c)" and "unsecured_here (cl_sessions c)"
    and "exchanges (cl_exchanges c) (msg_key m) = None"
  shows "\<exists>c'. pump_step conn rnd (mh_bytes (Header m) @ wire_plaintext m) addr c = (Returned (), c') \<and>
    stuffed (msg_key m) 0 c'"
proof -
  obtain em where em: "HandleMessage None None True (norm_message m) (cl_exchanges c) = (Returned None, em)"
    using assms(1,4) by (simp add: HandleMessage_def msg_key_norm strange_def norm_message_keeps case_prod_beta)
  have "em_ok em" using em_ok_HandleMessage [OF assms(2), of None None True "norm_message m"] em by simp
  moreover have "exchanges em (msg_key m) = Some (length (heap (cl_exchanges c)))"
    "\<not> closed (heap em ! length (heap (cl_exchanges c)))" "incoming (heap em ! length (heap (cl_exchanges c))) = []"
    using assms(1,4) em
    by (auto simp: HandleMessage_def msg_key_norm strange_def norm_message_keeps add_exchange_def mk_exchange_def
        key_of_def msg_key_def session_for_def new_session_def)
  ultimately show ?thesis
    using pump_step_plain [OF assms(3), of m conn rnd addr] assms(1) em by (auto simp: strange_def stuffed_def)
qed

lemma stuffed_blocks:
  "strange m \<Longrightarrow> stuffed (msg_key m) k c \<Longrightarrow> k \<le> chan_capacity \<Longrightarrow>
   \<exists>c'. runMessagePump conn rnd order (replicate (Suc (chan_capacity - k)) (Datagram (mh_bytes (Header m) @ wire_plaintext m) addr) @ rest) c
     = (Blocked, c')"
proof (induction "chan_capacity - k" arbitrary: k c)
  case 0
  then have "k = chan_capacity" by simp
  with stuffed_full [of m c conn rnd addr] 0 show ?case by auto
next
  case (Suc n)
  then have "k < chan_capacity" by simp
  with stuffed_step [of m k c conn rnd addr] Suc.prems obtain c1
    where "pump_step conn rnd (mh_bytes (Header m) @ wire_plaintext m) addr c = (Returned (), c1)" "stuffed (msg_key m) (Suc k) c1"
    by blast
  moreover have "chan_capacity - k = Suc (chan_capacity - Suc k)" using \<open>k < chan_capacity\<close> by simp
  ultimately show ?case using Suc.hyps(1) [of "Suc k" c1] Suc.hyps(2) Suc.prems(1) \<open>k < chan_capacity\<close> by simp
qed

text \<open>
  The pump can be stalled by anyone: ten copies of one datagram in clear, for the unsecured session
  and from an initiator with an exchange identifier that is not in use, block the pump for ever.  The
  first opens an exchange that nobody reads, the next eight fill its queue, the last waits for room;
  no later datagram is looked at, and not even the end of the connection is noticed any more.
\<close>

theorem pump_stalled_by_strangers:
  assumes "em_ok (cl_exchanges c)" and "unsecured_here (cl_sessions c)"
    and "SessionID (Header m) = 0" and "IsInitiator (Protocol m)" and "\<not> NeedsACK (Protocol m)"
    and "flags_consistent (Protocol m)" and "\<not> HasAckCounter (Protocol m)"
    and "exchanges (cl_exchanges c) (msg_key m) = None" and "Encode m None = Ok data"
  shows "\<exists>c'. runMessagePump conn rnd order (replicate 10 (Datagram data addr) @ rest) c = (Blocked, c')"
proof -
  have m: "strange m" using assms(3-7) by (simp add: strange_def standalone_ack_def)
  have data: "data = mh_bytes (Header m) @ wire_plaintext m"
    using assms(9) by (simp add: Codec_Encode_def EncodeProtocolHeader_bytes EncodeMessageHeader_bytes secured_def wire_plaintext_def Let_def)
  obtain c1 where c1: "pump_step conn rnd data addr c = (Returned (), c1)" "stuffed (msg_key m) 0 c1"
    using stuffed_opens [OF m assms(1,2,8)] data by blast
  have "replicate 10 (Datagram data addr) = Datagram data addr # replicate (Suc (chan_capacity - 0)) (Datagram data addr)"
    by (simp add: chan_capacity_def numeral_eq_Suc)
  with stuffed_blocks [OF m c1(2), of conn rnd order addr rest] c1(1) data show ?thesis by simp
qed


text \<open>
  From one controller to another: a message sent on a secured session, whose peer holds the other
  end of the session under the identifier this end knows, goes out as one datagram to the peer's
  address, stamped with the session's next counter; and the peer's pump, from whatever address it
  arrives, puts it into the queue of the exchange it belongs to, with the payload, opcode, protocol,
  exchange and counter that were sent.  Over Bluetooth only the reliable flag is lost.
\<close>

theorem sent_is_delivered:
  assumes "cl_peerAddr A = Some addr" and "GetSession (cl_sessions A) (SessionID (Header m)) = Some s"
    and "GetSession (cl_sessions B) (PeerSessionID s) = Some r" and "paired s r"
    and "flags_consistent (Protocol m)" and "length (wire_plaintext m) \<le> 65535" and "\<not> standalone_ack m"
    and "em_ok (cl_exchanges B)"
    and "exchanges (cl_exchanges B) \<lparr>sessionID = PeerSessionID s, exchangeID = ExchangeID (Protocol m),
           isLocal = (\<not> IsInitiator (Protocol m))\<rparr> = Some a"
    and "\<not> closed (heap (cl_exchanges B) ! a)" and "length (incoming (heap (cl_exchanges B) ! a)) < 8"
  shows "\<exists>data A' B' m'. sendMessage conn rnd m A = (conn data addr, A') \<and> cl_sent A' = cl_sent A @ [(data, addr)] \<and>
    pump_step conn' rnd' data sender B = (Returned (), B') \<and>
    incoming (heap (cl_exchanges B') ! a) = incoming (heap (cl_exchanges B) ! a) @ [m'] \<and>
    Payload m' = Payload m \<and> ProtocolOpcode (Protocol m') = ProtocolOpcode (Protocol m) \<and>
    ProtocolID (Protocol m') = ProtocolID (Protocol m) \<and> ExchangeID (Protocol m') = ExchangeID (Protocol m) \<and>
    MessageCounter (Header m') = localCounter s \<and> SessionID (Header m') = PeerSessionID s"
proof -
  define s' where "s' = s\<lparr>localCounter := localCounter s + 1\<rparr>"
  define w where "w = (clear_reliable (cl_isBLE A) m)\<lparr>Header := (Header m)\<lparr>SessionID := PeerSessionID s, MessageCounter := localCounter s\<rparr>\<rparr>"
  have ty: "Type s \<noteq> SessionUnsecured" using assms(4) by (simp add: paired_def)
  have p: "paired s' r" using assms(4) by (simp add: s'_def paired_def)
  have w: "flags_consistent (Protocol w)" "length (wire_plaintext w) \<le> 65535" "\<not> standalone_ack w"
    "IsInitiator (Protocol w) = IsInitiator (Protocol m)" "ExchangeID (Protocol w) = ExchangeID (Protocol m)"
    "Payload w = Payload m" "ProtocolOpcode (Protocol w) = ProtocolOpcode (Protocol m)" "ProtocolID (Protocol w) = ProtocolID (Protocol m)"
    "SessionID (Header w) = PeerSessionID s" "MessageCounter (Header w) = localCounter s"
    using assms(5-7) clear_reliable_keeps [of "cl_isBLE A" m]
    by (simp_all add: w_def standalone_ack_def norm_message_keeps wire_plaintext_def)
  have "msg_key w = \<lparr>sessionID = PeerSessionID s, exchangeID = ExchangeID (Protocol m), isLocal = (\<not> IsInitiator (Protocol m))\<rparr>"
    by (simp add: msg_key_def w)
  then obtain data B' where data: "Encode w (Some s') = Ok data"
    and B': "pump_step conn' rnd' data sender B = (Returned (), B')"
      "cl_exchanges B' = (cl_exchanges B)\<lparr>heap := (heap (cl_exchanges B))[a := (heap (cl_exchanges B) ! a)\<lparr>incoming :=
       incoming (heap (cl_exchanges B) ! a) @ [norm_message w]\<rparr>]\<rparr>"
    using sealed_arrives [OF p w(1-3), of B a conn' rnd' sender] assms(3,8-11) w(9) by (metis chan_capacity_def)
  have sent: "\<exists>A'. sendMessage conn rnd m A = (conn data addr, A') \<and> cl_sent A' = cl_sent A @ [(data, addr)]"
    using assms(1,2) ty data
    by (simp add: sendMessage_def session_or_unsecured_def address_message_def NextMessageCounter_def
        clear_reliable_keeps w_def s'_def Let_def)
  have "a < length (heap (cl_exchanges B))" using assms(8,9) by (auto simp: em_ok_def)
  with sent B' w show ?thesis by (auto simp: norm_message_keeps)
qed

subsection \<open>Instances\<close>

text \<open>Two controllers at the ends of one session, and an exchange on each of them.\<close>

definition sample_controller :: "u16 \<Rightarrow> Session \<Rightarrow> Controller" where
  "sample_controller i s = (NewWithConn False (replicate 8 1) 1 None None)
     \<lparr>cl_sessions := NewSessionTable\<lparr>sessions := [i \<mapsto> s]\<rparr>,
      cl_exchanges := snd (NewExchange None s (NewExchangeManager None)), cl_peerAddr := Some (UDPAddr ''peer'')\<rparr>"

definition sample_end :: Session where "sample_end = sample_sender\<lparr>PeerSessionID := 2\<rparr>"

definition sample_reply :: Message where
  "sample_reply = \<lparr>Header = zero_header\<lparr>SessionID := 1\<rparr>,
     Protocol = \<lparr>ExchangeFlags = 0, ProtocolOpcode = 5, ExchangeID = 0, ProtocolID = 1, VendorID = 0,
       HasVendorID = False, AckMessageCounter = 0, HasAckCounter = False\<rparr>, Payload = [0x15, 0x18]\<rparr>"

lemma sample_controller_facts:
  "em_ok (cl_exchanges (sample_controller i s))" "cl_peerAddr (sample_controller i s) = Some (UDPAddr ''peer'')"
  "GetSession (cl_sessions (sample_controller i s)) i = Some s"
  "heap (cl_exchanges (sample_controller i s)) = [mk_exchange 0 s True None]"
  "exchanges (cl_exchanges (sample_controller i s)) = [\<lparr>sessionID = ID s, exchangeID = 0, isLocal = True\<rparr> \<mapsto> 0]"
proof -
  show "em_ok (cl_exchanges (sample_controller i s))"
    using em_ok_NewExchange [OF em_ok_NewExchangeManager] by (simp add: sample_controller_def)
qed (simp_all add: sample_controller_def GetSession_def NewExchange_def add_exchange_def NewExchangeManager_def
    key_of_def mk_exchange_def Let_def)

lemma sample_pair: "paired sample_end sample_receiver" "PeerSessionID sample_end = 2" "ID sample_receiver = 2"
  "Type sample_receiver \<noteq> SessionUnsecured" "DecryptKey sample_receiver = Some (replicate 16 7)"
  using sample_session_facts(1) by (simp_all add: paired_def sample_end_def sample_receiver_def new_session_def const_defs)

lemma sample_reply_facts: "flags_consistent (Protocol sample_reply)" "length (wire_plaintext sample_reply) \<le> 65535"
  "\<not> standalone_ack sample_reply" "\<not> IsInitiator (Protocol sample_reply)" "SessionID (Header sample_reply) = 1"
  "ExchangeID (Protocol sample_reply) = 0" "Payload sample_reply = [0x15, 0x18]"
  by (simp_all add: sample_reply_def flags_consistent_def wire_plaintext_def ph_bytes_def standalone_ack_def IsInitiator_def)

theorem sent_is_delivered_witness:
  "\<exists>data A' B'. sendMessage (\<lambda>_ _. Ok ()) None sample_reply (sample_controller 1 sample_end) = (Ok (), A') \<and>
     pump_step (\<lambda>_ _. Ok ()) None data (UDPAddr ''elsewhere'') (sample_controller 2 sample_receiver) = (Returned (), B') \<and>
     (\<exists>m'. incoming (heap (cl_exchanges B') ! 0) = [m'] \<and> Payload m' = [0x15, 0x18])"
proof -
  have "exchanges (cl_exchanges (sample_controller 2 sample_receiver)) \<lparr>sessionID = PeerSessionID sample_end,
      exchangeID = ExchangeID (Protocol sample_reply), isLocal = (\<not> IsInitiator (Protocol sample_reply))\<rparr> = Some 0"
    by (simp add: sample_controller_facts(5) sample_pair sample_reply_facts)
  from sent_is_delivered [OF sample_controller_facts(2) _ _ sample_pair(1) sample_reply_facts(1-3) sample_controller_facts(1) this,
      of 1 sample_end "\<lambda>_ _. Ok ()" None "\<lambda>_ _. Ok ()" None "UDPAddr ''elsewhere''"]
  show ?thesis
    by (simp add: sample_controller_facts(3,4) sample_pair sample_reply_facts mk_exchange_def) blast
qed


text \<open>A datagram for the second of them, and the state it leaves.\<close>

lemma sample_arrives:
  obtains data c m where "pump_step (\<lambda>_ _. Ok ()) None data (UDPAddr ''peer'') (sample_controller 2 sample_receiver) = (Returned (), c)"
    and "incoming (heap (cl_exchanges c) ! 0) = [m]" and "Payload m = [0x15, 0x18]"
proof -
  define w where "w = sample_reply\<lparr>Header := zero_header\<lparr>SessionID := 2\<rparr>\<rparr>"
  have w: "flags_consistent (Protocol w)" "length (wire_plaintext w) \<le> 65535" "\<not> standalone_ack w" "SessionID (Header w) = 2"
    "msg_key w = \<lparr>sessionID = 2, exchangeID = 0, isLocal = True\<rparr>" "Payload w = [0x15, 0x18]"
    using sample_reply_facts by (simp_all add: w_def wire_plaintext_def standalone_ack_def msg_key_def)
  obtain data c where d: "Encode w (Some sample_end) = Ok data"
      "pump_step (\<lambda>_ _. Ok ()) None data (UDPAddr ''peer'') (sample_controller 2 sample_receiver) = (Returned (), c)"
      "cl_exchanges c = (cl_exchanges (sample_controller 2 sample_receiver))\<lparr>heap := (heap (cl_exchanges (sample_controller 2 sample_receiver)))
        [0 := (heap (cl_exchanges (sample_controller 2 sample_receiver)) ! 0)\<lparr>incoming :=
          incoming (heap (cl_exchanges (sample_controller 2 sample_receiver)) ! 0) @ [norm_message w]\<rparr>]\<rparr>"
    by (rule sealed_arrives [OF sample_pair(1) w(1-3), of "sample_controller 2 sample_receiver" 0 "\<lambda>_ _. Ok ()" None "UDPAddr ''peer''"])
      (simp_all add: w sample_controller_facts sample_pair mk_exchange_def chan_capacity_def)
  with d(2,3) w(6) show ?thesis
    by (intro that [of data c "norm_message w"]) (simp_all add: sample_controller_facts mk_exchange_def norm_message_keeps)
qed

theorem pump_delivers_witness:
  "\<exists>data (m :: Message) n pt k nonce c1 c2. DecodeMessageHeader data = Ok (Header m, n) \<and> Payload m = [0x15, 0x18] \<and>
     drop n data = ccm_seal (replicate 16 7) nonce pt (take n data) \<and> Payload m = drop k pt \<and>
     pump_step (\<lambda>_ _. Ok ()) None data (UDPAddr ''eavesdropper'') c1 = (Returned (), c2) \<and>
     incoming (heap (cl_exchanges c2) ! 0) = [m, m]"
proof -
  let ?c = "sample_controller 2 sample_receiver"
  obtain data c m where d: "pump_step (\<lambda>_ _. Ok ()) None data (UDPAddr ''peer'') ?c = (Returned (), c)"
    "incoming (heap (cl_exchanges c) ! 0) = [m]" "Payload m = [0x15, 0x18]"
    by (rule sample_arrives)
  have q: "0 < length (heap (cl_exchanges ?c))"
    "GetSession (cl_sessions ?c) (ID (ex_Session (heap (cl_exchanges ?c) ! 0))) = Some sample_receiver"
    "incoming (heap (cl_exchanges ?c) ! 0) = []"
    by (simp_all add: sample_controller_facts mk_exchange_def sample_pair)
  have "heap (cl_exchanges c) ! 0 \<noteq> heap (cl_exchanges ?c) ! 0"
    using q(3) d(2) by auto
  with pump_delivers [OF sample_controller_facts(1) q(1,2) sample_pair(4,5) d(1) q(3) [symmetric]]
  obtain m' n pt k nonce where f: "incoming (heap (cl_exchanges c) ! 0) = [m']" "DecodeMessageHeader data = Ok (Header m', n)"
    "drop n data = ccm_seal (replicate 16 7) nonce pt (take n data)" "Payload m' = drop k pt"
    and r: "\<forall>rnd' addr'. \<exists>c2. pump_step (\<lambda>_ _. Ok ()) rnd' data addr' c = (Returned (), c2) \<and>
          incoming (heap (cl_exchanges c2) ! 0) = [m', m']"
    by auto
  have "m' = m" using f(1) d(2) by simp
  with f d(3) r show ?thesis by blast
qed

definition sample_intruder :: Message where
  "sample_intruder = sample_reply\<lparr>Header := zero_header, Protocol := (Protocol sample_reply)\<lparr>ExchangeFlags := ExFlagInitiator\<rparr>\<rparr>"

theorem pump_stalled_by_strangers_witness:
  "\<exists>data c'. Encode sample_intruder None = Ok data \<and>
     runMessagePump (\<lambda>_ _. Ok ()) None [] (replicate 10 (Datagram data (UDPAddr ''anyone'')) @ [RecvError ErrConnClosed])
       (sample_controller 2 sample_receiver) = (Blocked, c')"
proof -
  obtain data where data: "Encode sample_intruder None = Ok data"
    by (simp add: Codec_Encode_def EncodeProtocolHeader_bytes EncodeMessageHeader_bytes secured_def)
  have "unsecured_here (cl_sessions (sample_controller 2 sample_receiver))"
    by (simp add: unsecured_here_def sample_controller_def GetSession_def)
  from pump_stalled_by_strangers [OF sample_controller_facts(1) this _ _ _ _ _ _ data] data show ?thesis
    by (fastforce simp: sample_intruder_def sample_reply_def zero_header_def IsInitiator_def NeedsACK_def flags_consistent_def
        const_defs sample_controller_facts msg_key_def)
qed

end
