(* ===== verification/Controller_Connect.thy ===== *)
theory Controller_Connect
  imports Controller
begin

text \<open>
  \<^verbatim>\<open>internal/controller/controller.go\<close> and \<^verbatim>\<open>rediscover.go\<close>: how a controller opens a session.  It
  reserves the session in its table, runs the handshake on an exchange of the unsecured session, and
  fills the session in or removes it.  Meanwhile the pump and other callers change the controller.
\<close>

subsection \<open>Handshakes\<close>

text \<open>
  What a handshake finds around it: the counters \<^verbatim>\<open>rand.Read\<close> gives to the new and to the unsecured
  session, its random values, the error of a context that is over, what its calls of \<^verbatim>\<open>Receive\<close>
  return, and what the pump and other goroutines make of the controller while it runs.
\<close>

record surroundings =
  sr_counter :: "byte list option"
  sr_unsecured :: "byte list option"
  sr_random :: "byte list res"
  sr_scalar :: "int res"
  sr_sign :: "byte list"
  sr_ctx :: "err option"
  sr_inbox :: "Message res list"
  sr_traffic :: "Controller \<Rightarrow> Controller"

definition drop_session :: "u16 \<Rightarrow> Controller \<Rightarrow> Controller" where
  "drop_session i c = c\<lparr>cl_sessions := RemoveSession (cl_sessions c) i\<rparr>"

definition fill_session :: "u16 \<Rightarrow> (Session \<Rightarrow> Session) \<Rightarrow> Controller \<Rightarrow> Controller" where
  "fill_session i f c = c\<lparr>cl_sessions := (cl_sessions c)\<lparr>sessions :=
     (sessions (cl_sessions c))(i := map_option f (sessions (cl_sessions c) i))\<rparr>\<rparr>"

definition close_exchange :: "addr \<Rightarrow> Controller \<Rightarrow> Controller" where
  "close_exchange a c = c\<lparr>cl_exchanges := CloseExchange a (cl_exchanges c)\<rparr>"

text \<open>
  The two functions share this course; \<open>body\<close> is the handshake on the exchange for the reserved
  identifier, \<open>fill\<close> what it puts into the session.  The session is returned by its identifier.  The
  outer \<open>None\<close> would be a search for an identifier that does not end.
\<close>

definition run_handshake ::
  "surroundings \<Rightarrow> SessionType \<Rightarrow> string \<Rightarrow> (Exchange \<Rightarrow> u16 \<Rightarrow> (SessionKeys option \<times> u16) io) \<Rightarrow>
    (SessionKeys \<Rightarrow> u16 \<Rightarrow> Session \<Rightarrow> Session) \<Rightarrow> Controller \<Rightarrow> (u16 im \<times> Message list \<times> Controller) option" where
  "run_handshake R ty name body fill c =
     (let c = c\<lparr>cl_pumping := True\<rparr> in
      map_option (\<lambda>(created, st).
        let c = c\<lparr>cl_sessions := st\<rparr> in
        case created of
          Err e \<Rightarrow> (Fail (IErrorw (''controller: creating '' @ name @ '' session'') (IErr e)), [], c)
        | Panic \<Rightarrow> (Crashed, [], c)
        | Ok session \<Rightarrow>
            let (unsecured, st) = UnsecuredSession (cl_sessions c) (sr_unsecured R);
                c = c\<lparr>cl_sessions := st\<rparr>
            in case NewExchange (sr_ctx R) unsecured (cl_exchanges c) of
                 (Err e, em) \<Rightarrow> (Fail (IErrorw ''controller: creating exchange'' (IErr e)), [],
                                drop_session (ID session) (c\<lparr>cl_exchanges := em\<rparr>))
               | (Panic, em) \<Rightarrow> (Crashed, [], c\<lparr>cl_exchanges := em\<rparr>)
               | (Ok a, em) \<Rightarrow>
                   (case body (heap em ! a) (ID session) \<lparr>inbox = sr_inbox R, outbox = []\<rparr> of
                      (r, s) \<Rightarrow>
                        let c = sr_traffic R (c\<lparr>cl_exchanges := em\<rparr>) in
                        (case r of
                           Val (Some keys, peer) \<Rightarrow>
                             (Val (ID session), outbox s, close_exchange a (fill_session (ID session) (fill keys peer) c))
                         | Val (None, peer) \<Rightarrow> (Crashed, outbox s, close_exchange a c)
                         | Fail e \<Rightarrow> (Fail (IErrorw (''controller: '' @ name @ '' handshake'') e), outbox s,
                                      close_exchange a (drop_session (ID session) c))
                         | Waiting \<Rightarrow> (Waiting, outbox s, c)
                         | Crashed \<Rightarrow> (Crashed, outbox s, close_exchange a c))))
        (CreateSession (cl_sessions c) ty (sr_counter R)))"

definition fill_PASE :: "SessionKeys \<Rightarrow> u16 \<Rightarrow> Session \<Rightarrow> Session" where
  "fill_PASE keys peer s = s\<lparr>PeerSessionID := peer, EncryptKey := Some (I2RKey keys), DecryptKey := Some (R2IKey keys),
     Session.AttestationChallenge := SessionKeys.AttestationChallenge keys\<rparr>"

definition connectPASEWithAddr ::
  "suite \<Rightarrow> surroundings \<Rightarrow> u32 \<Rightarrow> Controller \<Rightarrow> (u16 im \<times> Message list \<times> Controller) option" where
  "connectPASEWithAddr S R passcode =
     run_handshake R SessionPASE ''PASE''
       (\<lambda>ex i. EstablishPASE S (sr_random R) (sr_scalar R) ex passcode i) fill_PASE"

text \<open>The address is resolved by the system; the text of the error leaves out the address.\<close>

definition ConnectPASE ::
  "suite \<Rightarrow> (string \<Rightarrow> string res) \<Rightarrow> surroundings \<Rightarrow> string \<Rightarrow> u32 \<Rightarrow> Controller \<Rightarrow> (u16 im \<times> Message list \<times> Controller) option" where
  "ConnectPASE S resolve R addr passcode c =
     (case resolve addr of
        Err e \<Rightarrow> Some (Fail (IErrorw ''controller: resolving address'' (IErr e)), [], c)
      | Panic \<Rightarrow> Some (Crashed, [], c)
      | Ok udpAddr \<Rightarrow> connectPASEWithAddr S R passcode (c\<lparr>cl_peerAddr := Some (UDPAddr udpAddr)\<rparr>))"

definition fill_CASE :: "u64 \<Rightarrow> u64 \<Rightarrow> SessionKeys \<Rightarrow> u16 \<Rightarrow> Session \<Rightarrow> Session" where
  "fill_CASE nodeID fabricID keys peer s =
     s\<lparr>PeerSessionID := peer, PeerNodeID := nodeID, LocalNodeID := fabricID, EncryptKey := Some (I2RKey keys),
       DecryptKey := Some (R2IKey keys), Session.AttestationChallenge := SessionKeys.AttestationChallenge keys\<rparr>"

definition case_config :: "fabricIdentity \<Rightarrow> u64 \<Rightarrow> u64 \<Rightarrow> u16 \<Rightarrow> CASEInitiatorConfig" where
  "case_config f fabricID nodeID i =
     \<lparr>cfg_SessionID = i, cfg_NodeKey = fi_nodeKey f, cfg_NOC = fi_nocTLV f, cfg_ICAC = fi_icacTLV f,
      cfg_IPK = fi_operationalIPK f, cfg_RootPubKey = fi_rootPubKey f, cfg_FabricID = fabricID, cfg_PeerNodeID = nodeID\<rparr>"

definition ConnectCASE ::
  "suite \<Rightarrow> (string \<Rightarrow> string res) \<Rightarrow> surroundings \<Rightarrow> string \<Rightarrow> u64 \<Rightarrow> Controller \<Rightarrow> (u16 im \<times> Message list \<times> Controller) option" where
  "ConnectCASE S resolve R addr nodeID c =
     (case cl_fabric c of
        None \<Rightarrow> Some (Fail (IErr (Errorf ''controller: no fabric identity configured'')), [], c)
      | Some f \<Rightarrow>
          (case resolve addr of
             Err e \<Rightarrow> Some (Fail (IErrorw ''controller: resolving address'' (IErr e)), [], c)
           | Panic \<Rightarrow> Some (Crashed, [], c)
           | Ok udpAddr \<Rightarrow>
               run_handshake R SessionCASE ''CASE''
                 (\<lambda>ex i. EstablishCASE S (sr_scalar R) (sr_random R) (sr_sign R) ex (case_config f (cl_fabricID c) nodeID i))
                 (fill_CASE nodeID (cl_fabricID c)) (c\<lparr>cl_peerAddr := Some (UDPAddr udpAddr)\<rparr>)))"

subsection \<open>Looking for a node that does not answer\<close>

text \<open>
  \<open>dial1\<close> is the attempt under the short timeout, \<open>dial2\<close> the one under the caller's context, whose
  error after the first attempt is \<open>ctx\<close>.  The last component lists the calls of \<^verbatim>\<open>onRediscovered\<close>.
\<close>

datatype rediscovery_err = FirstFailed im_err | NotRediscovered im_err err | AfterRediscovery string im_err

definition connectWithRediscovery ::
  "(string \<Rightarrow> u64 \<Rightarrow> 'c \<Rightarrow> (im_err + 's) \<times> 'c) \<Rightarrow> (string \<Rightarrow> u64 \<Rightarrow> 'c \<Rightarrow> (im_err + 's) \<times> 'c) \<Rightarrow> err option \<Rightarrow>
    (u64 \<Rightarrow> err + string) \<Rightarrow> string \<Rightarrow> u64 \<Rightarrow> 'c \<Rightarrow> (rediscovery_err + 's \<times> string) \<times> string list \<times> 'c" where
  "connectWithRediscovery dial1 dial2 ctx resolve addr nodeID c =
     (case dial1 addr nodeID c of
        (Inr session, c) \<Rightarrow> (Inr (session, addr), [], c)
      | (Inl e, c) \<Rightarrow>
          if ctx \<noteq> None then (Inl (FirstFailed e), [], c)
          else case resolve nodeID of
                 Inl e' \<Rightarrow> (Inl (NotRediscovered e e'), [], c)
               | Inr newAddr \<Rightarrow>
                   (case dial2 newAddr nodeID c of
                      (Inr session, c) \<Rightarrow> (Inr (session, newAddr), [newAddr], c)
                    | (Inl e, c) \<Rightarrow> (Inl (AfterRediscovery newAddr e), [newAddr], c)))"

text \<open>Addresses are 4 or 16 bytes; the two tests are those of the \<^verbatim>\<open>net\<close> package.\<close>

definition To4 :: "byte list \<Rightarrow> byte list option" where
  "To4 ip =
     (if length ip = 4 then Some ip
      else if length ip = 16 \<and> take 10 ip = replicate 10 0 \<and> ip ! 10 = 0xff \<and> ip ! 11 = 0xff then Some (drop 12 ip)
      else None)"

definition IsLinkLocalUnicast :: "byte list \<Rightarrow> bool" where
  "IsLinkLocalUnicast ip =
     (case To4 ip of
        Some ip4 \<Rightarrow> ip4 ! 0 = 169 \<and> ip4 ! 1 = 254
      | None \<Rightarrow> length ip = 16 \<and> ip ! 0 = 0xfe \<and> ip ! 1 AND 0xc0 = 0x80)"

fun pick_loop :: "byte list option \<Rightarrow> byte list option \<Rightarrow> byte list option \<Rightarrow> byte list list \<Rightarrow>
    byte list option \<times> byte list option \<times> byte list option" where
  "pick_loop ipv6Global ipv4 ipv6LinkLocal [] = (ipv6Global, ipv4, ipv6LinkLocal)"
| "pick_loop ipv6Global ipv4 ipv6LinkLocal (ip # ips) =
     (if To4 ip \<noteq> None then pick_loop ipv6Global (if ipv4 = None then Some ip else ipv4) ipv6LinkLocal ips
      else if IsLinkLocalUnicast ip then pick_loop ipv6Global ipv4 (if ipv6LinkLocal = None then Some ip else ipv6LinkLocal) ips
      else if ipv6Global = None then pick_loop (Some ip) ipv4 ipv6LinkLocal ips
      else pick_loop ipv6Global ipv4 ipv6LinkLocal ips)"

definition pickBestIP :: "byte list list \<Rightarrow> byte list option" where
  "pickBestIP ips =
     (if ips = [] then None
      else case pick_loop None None None ips of
             (Some ip, _, _) \<Rightarrow> Some ip
           | (None, Some ip, _) \<Rightarrow> Some ip
           | (None, None, Some ip) \<Rightarrow> Some ip
           | (None, None, None) \<Rightarrow> Some (ips ! 0))"


subsection \<open>What goes on meanwhile\<close>

text \<open>The steps of the pump and of senders on other exchanges.\<close>

inductive concurrent :: "Controller \<Rightarrow> Controller \<Rightarrow> bool" where
  concurrent_send: "concurrent c (snd (sendMessage conn rnd msg c))"
| concurrent_pump: "concurrent c (snd (pump_step conn rnd data addr c))"

lemma HandleMessage_entries:
  "exchanges em k = Some a \<Longrightarrow> exchanges (snd (HandleMessage None ctx coin msg em)) k = Some a"
  by (auto simp: HandleMessage_def on_heap_def case_prod_beta add_exchange_def key_of_def mk_exchange_def msg_key_def
      session_for_def split: option.split)

definition calm :: "Controller \<Rightarrow> Controller \<Rightarrow> bool" where
  "calm c c' \<longleftrightarrow> table_keeps (cl_sessions c) (cl_sessions c') \<and> em_ok (cl_exchanges c') \<and>
     (\<forall>k a. exchanges (cl_exchanges c) k = Some a \<longrightarrow> exchanges (cl_exchanges c') k = Some a)"

lemma concurrent_calm: "concurrent c c' \<Longrightarrow> em_ok (cl_exchanges c) \<Longrightarrow> calm c c'"
proof (induction rule: concurrent.induct)
  case (concurrent_send c conn rnd msg)
  then show ?case using sendMessage_keeps(1) [of conn rnd msg c] sendMessage_keeps(4) [of c conn rnd msg] by (simp add: calm_def)
next
  case (concurrent_pump c conn rnd data addr)
  have "exchanges (cl_exchanges (snd (pump_step conn rnd data addr c))) k = Some a"
    if "exchanges (cl_exchanges c) k = Some a" for k a
  proof (cases rule: pump_step_cases [of conn rnd data addr c])
    case (decoded h n i s st msg)
    with that show ?thesis unfolding decoded(4) by (auto simp: dispatch_exchanges intro: HandleMessage_entries)
  qed (simp add: that)
  with concurrent_pump show ?case using pump_step_keeps(1) pump_step_exchanges by (simp add: calm_def)
qed

lemma concurrent_run: "concurrent\<^sup>*\<^sup>* c c' \<Longrightarrow> em_ok (cl_exchanges c) \<Longrightarrow> calm c c'"
proof (induction rule: rtranclp_induct)
  case base
  then show ?case by (simp add: calm_def table_keeps_refl)
next
  case (step c' c'')
  then have "calm c c'" "calm c' c''" using concurrent_calm by (auto simp: calm_def)
  then show ?case using table_keeps_trans by (auto simp: calm_def)
qed

text \<open>The surroundings of a handshake do nothing else.\<close>

definition orderly :: "surroundings \<Rightarrow> bool" where
  "orderly R \<longleftrightarrow> (\<forall>c. concurrent\<^sup>*\<^sup>* c (sr_traffic R c))"

subsection \<open>The course of a handshake\<close>

text \<open>
  The table after a session is gone: what was there is as it was, up to counters, and nothing but
  the unsecured session is new.
\<close>

lemma drop_keeps:
  assumes "GetSession st i = None" and "\<And>j. j \<noteq> i \<Longrightarrow> GetSession st1 j = GetSession st j"
    and "table_keeps st1 st2"
  shows "\<And>j s. GetSession st j = Some s \<Longrightarrow> \<exists>n. GetSession (RemoveSession st2 i) j = Some (s\<lparr>localCounter := n\<rparr>)"
    and "\<And>j. GetSession st j = None \<Longrightarrow> j \<noteq> 0 \<Longrightarrow> GetSession (RemoveSession st2 i) j = None"
proof -
  have r: "GetSession (RemoveSession st2 i) j = (if j = i then None else GetSession st2 j)" for j
    by (simp add: GetSession_def RemoveSession_def)
  fix j
  show "\<exists>n. GetSession (RemoveSession st2 i) j = Some (s\<lparr>localCounter := n\<rparr>)" if "GetSession st j = Some s" for s
    using that assms(1) assms(2) [of j] table_keepsD(1) [OF assms(3), of j s] by (cases "j = i") (auto simp: r)
  show "GetSession (RemoveSession st2 i) j = None" if "GetSession st j = None" "j \<noteq> 0"
    using that assms(2) [of j] table_keepsD(2) [OF assms(3), of j] by (cases "j = i") (auto simp: r)
qed

lemma CloseExchange_entry:
  assumes "em_ok em" and "exchanges em k = Some a"
  shows "exchanges (CloseExchange a em) k = None"
  using assms by (auto simp: CloseExchange_def em_ok_def Let_def)


definition handshake_key :: "Controller \<Rightarrow> exchangeKey" where
  "handshake_key c = \<lparr>sessionID = 0, exchangeID = em_nextID (cl_exchanges c), isLocal = True\<rparr>"

text \<open>What happens to the reserved session and the exchange when the handshake is over.\<close>

fun finish :: "string \<Rightarrow> (SessionKeys \<Rightarrow> u16 \<Rightarrow> Session \<Rightarrow> Session) \<Rightarrow> u16 \<Rightarrow> addr \<Rightarrow>
    (SessionKeys option \<times> u16) im \<Rightarrow> Controller \<Rightarrow> u16 im \<times> Controller" where
  "finish name fill i a (Val (Some keys, peer)) c = (Val i, close_exchange a (fill_session i (fill keys peer) c))"
| "finish name fill i a (Val (None, peer)) c = (Crashed, close_exchange a c)"
| "finish name fill i a (Fail e) c =
     (Fail (IErrorw (''controller: '' @ name @ '' handshake'') e), close_exchange a (drop_session i c))"
| "finish name fill i a Waiting c = (Waiting, c)"
| "finish name fill i a Crashed c = (Crashed, close_exchange a c)"

lemma UnsecuredSession_keeps:
  assumes "table_ok st" and "UnsecuredSession st rnd = (u, st')"
  shows "table_keeps st st'" and "ID u = 0"
  using assms new_session_counter [of 0 SessionUnsecured rnd]
  by (auto simp: UnsecuredSession_def table_keeps_def table_ok_def GetSession_def Let_def localCounter_same split: option.splits)

lemma run_handshake_course [consumes 3]:
  assumes T: "table_ok (cl_sessions c)" and E: "em_ok (cl_exchanges c)" and R: "orderly R"
  obtains (full) e st where "sessions st = sessions (cl_sessions c)"
    "run_handshake R ty name body fill c = Some (Fail e, [], c\<lparr>cl_pumping := True, cl_sessions := st\<rparr>)"
    "\<exists>e. CreateSession (cl_sessions c) ty (sr_counter R) = Some (Err e, st)"
  | (over) i st1 c1 e where "i \<noteq> 0" "GetSession (cl_sessions c) i = None"
    "sessions st1 = (sessions (cl_sessions c))(i \<mapsto> new_session i ty (sr_counter R))"
    "table_keeps st1 (cl_sessions c1)" "cl_exchanges c1 = cl_exchanges c" "sr_ctx R \<noteq> None"
    "run_handshake R ty name body fill c = Some (Fail e, [], drop_session i c1)"
  | (ran) i st1 ex a c1 r s where "i \<noteq> 0" "GetSession (cl_sessions c) i = None"
    "sessions st1 = (sessions (cl_sessions c))(i \<mapsto> new_session i ty (sr_counter R))"
    "table_keeps st1 (cl_sessions c1)" "ex_SendFunc (ex) = DefaultSendFunc (cl_exchanges c)"
    "em_ok (cl_exchanges c1)" "exchanges (cl_exchanges c1) (handshake_key c) = Some a"
    "\<And>k b. k \<noteq> handshake_key c \<Longrightarrow> exchanges (cl_exchanges c) k = Some b \<Longrightarrow> exchanges (cl_exchanges c1) k = Some b"
    "body (ex) i \<lparr>inbox = sr_inbox R, outbox = []\<rparr> = (r, s)"
    "run_handshake R ty name body fill c = Some (fst (finish name fill i a r c1), outbox s, snd (finish name fill i a r c1))"
    "CreateSession (cl_sessions c) ty (sr_counter R) = Some (Ok (new_session i ty (sr_counter R)), st1)"
proof -
  from T have "nextID (cl_sessions c) \<noteq> 0" by (simp add: table_ok_def)
  then consider (none) st where "CreateSession (cl_sessions c) ty (sr_counter R) = Some (Err (Errorf ''protocol: session table full''), st)"
      "sessions st = sessions (cl_sessions c)"
    | (new) i st where "CreateSession (cl_sessions c) ty (sr_counter R) = Some (Ok (new_session i ty (sr_counter R)), st)"
      "sessions st = (sessions (cl_sessions c))(i \<mapsto> new_session i ty (sr_counter R))" "i \<noteq> 0" "GetSession (cl_sessions c) i = None"
    by (cases rule: search_id_total [where m = "sessions (cl_sessions c)"]) (auto simp: CreateSession_def GetSession_def Let_def)
  then show ?thesis
  proof cases
    case none
    then show ?thesis by (intro full [of st]) (simp_all add: run_handshake_def)
  next
    case new
    obtain u st2 where u: "UnsecuredSession st (sr_unsecured R) = (u, st2)" by fastforce
    have st: "table_ok st" by (rule table_ok_steps(3) [OF T new(1)])
    note keeps = UnsecuredSession_keeps [OF st u]
    let ?c = "c\<lparr>cl_pumping := True, cl_sessions := st2\<rparr>"
    show ?thesis
    proof (cases "sr_ctx R")
      case (Some e)
      show ?thesis
        by (rule over [OF new(3,4,2), of ?c]) (use new(1) u Some keeps in \<open>simp_all add: run_handshake_def NewExchange_def\<close>)
    next
      case None
      obtain a em where n: "NewExchange None u (cl_exchanges c) = (Ok a, em)"
        by (simp add: NewExchange_def add_exchange_def Let_def)
      have em: "heap em ! a = mk_exchange (em_nextID (cl_exchanges c)) u True (DefaultSendFunc (cl_exchanges c))"
        "exchanges em = (exchanges (cl_exchanges c))(handshake_key c \<mapsto> a)"
        using n keeps(2) by (auto simp: NewExchange_def add_exchange_def handshake_key_def key_of_def mk_exchange_def Let_def)
      have "em_ok em" using em_ok_NewExchange [OF E, of None u] n by simp
      define c1 where "c1 = sr_traffic R (?c\<lparr>cl_exchanges := em\<rparr>)"
      have calm: "calm (?c\<lparr>cl_exchanges := em\<rparr>) c1"
        unfolding c1_def by (rule concurrent_run) (use R \<open>em_ok em\<close> in \<open>simp_all add: orderly_def\<close>)
      obtain r s where b: "body (heap em ! a) i \<lparr>inbox = sr_inbox R, outbox = []\<rparr> = (r, s)" by fastforce
      have "run_handshake R ty name body fill c = Some (fst (finish name fill i a r c1), outbox s, snd (finish name fill i a r c1))"
      proof (cases r)
        case (Val kp)
        then show ?thesis using new(1) u None n b
          by (cases kp; cases "fst kp") (auto simp: run_handshake_def c1_def)
      qed (use new(1) u None n b in \<open>auto simp: run_handshake_def c1_def\<close>)
      moreover have "table_keeps st (cl_sessions c1)" using table_keeps_trans [OF keeps(1)] calm by (simp add: calm_def)
      ultimately show ?thesis
        using calm em b new
        by (intro ran [of i st c1 "heap em ! a" a r s]) (auto simp: calm_def mk_exchange_def)
    qed
  qed
qed


definition leaves_nothing :: "Controller \<Rightarrow> Controller \<Rightarrow> bool" where
  "leaves_nothing c c' \<longleftrightarrow>
     (\<forall>i s. GetSession (cl_sessions c) i = Some s \<longrightarrow> (\<exists>n. GetSession (cl_sessions c') i = Some (s\<lparr>localCounter := n\<rparr>))) \<and>
     (\<forall>i. i \<noteq> 0 \<longrightarrow> GetSession (cl_sessions c) i = None \<longrightarrow> GetSession (cl_sessions c') i = None) \<and>
     (exchanges (cl_exchanges c') (handshake_key c) = None \<or> cl_exchanges c' = cl_exchanges c)"

lemma leaves_nothing_drop:
  assumes "GetSession (cl_sessions c) i = None" and "sessions st1 = (sessions (cl_sessions c))(i \<mapsto> s)"
    and "table_keeps st1 (cl_sessions c1)" and "cl_sessions c' = RemoveSession (cl_sessions c1) i"
    and "exchanges (cl_exchanges c') (handshake_key c) = None \<or> cl_exchanges c' = cl_exchanges c"
  shows "leaves_nothing c c'"
proof -
  have "GetSession st1 j = GetSession (cl_sessions c) j" if "j \<noteq> i" for j
    using assms(2) that by (simp add: GetSession_def)
  from drop_keeps [OF assms(1) this assms(3)] assms(4,5) show ?thesis unfolding leaves_nothing_def by metis
qed

lemma run_handshake_fails:
  assumes "table_ok (cl_sessions c)" and "em_ok (cl_exchanges c)" and "orderly R"
  shows "\<exists>r out c'. run_handshake R ty name body fill c = Some (r, out, c') \<and> (\<forall>e. r = Fail e \<longrightarrow> leaves_nothing c c')"
  using assms
proof (cases rule: run_handshake_course [where ty = ty and name = name and body = body and fill = fill])
  case (full e st)
  then have "\<forall>i. GetSession st i = GetSession (cl_sessions c) i" by (simp add: GetSession_def)
  with full(2) show ?thesis by (auto simp: leaves_nothing_def localCounter_same)
next
  case (over i st1 c1 e)
  have "leaves_nothing c (drop_session i c1)"
    by (rule leaves_nothing_drop [OF over(2-4)]) (simp_all add: drop_session_def over(5))
  with over(7) show ?thesis by blast
next
  case (ran i st1 ex a c1 r s)
  have "leaves_nothing c (close_exchange a (drop_session i c1))"
  proof (rule leaves_nothing_drop [OF ran(2-4)])
    show "exchanges (cl_exchanges (close_exchange a (drop_session i c1))) (handshake_key c) = None \<or>
        cl_exchanges (close_exchange a (drop_session i c1)) = cl_exchanges c"
      using CloseExchange_entry [OF ran(6,7)] by (simp add: close_exchange_def drop_session_def)
  qed (simp add: close_exchange_def drop_session_def)
  then have "leaves_nothing c (snd (finish name fill i a r c1))" if "fst (finish name fill i a r c1) = Fail e" for e
    using that by (cases "(name, fill, i, a, r, c1)" rule: finish.cases) auto
  with ran(10) show ?thesis by blast
qed

subsection \<open>Properties\<close>

text \<open>
  Opening a session always returns, and when it fails, for whatever reason and whatever the pump and
  other senders did meanwhile, nothing is left of it: the sessions are those there were before, with
  their keys, and no new one but the unsecured session; the exchange of the handshake is not in the
  manager's map.
\<close>

theorem connect_failure_leaves_nothing:
  assumes "table_ok (cl_sessions c)" and "em_ok (cl_exchanges c)" and "orderly R"
    and "result = ConnectPASE S resolve R addr passcode c \<or> result = ConnectCASE S resolve R addr nodeID c"
  shows "\<exists>r out c'. result = Some (r, out, c') \<and> (\<forall>e. r = Fail e \<longrightarrow>
    (\<forall>i s. GetSession (cl_sessions c) i = Some s \<longrightarrow> (\<exists>n. GetSession (cl_sessions c') i = Some (s\<lparr>localCounter := n\<rparr>))) \<and>
    (\<forall>i. i \<noteq> 0 \<longrightarrow> GetSession (cl_sessions c) i = None \<longrightarrow> GetSession (cl_sessions c') i = None) \<and>
    (exchanges (cl_exchanges c') (handshake_key c) = None \<or> cl_exchanges c' = cl_exchanges c))"
proof -
  have run: "\<exists>r out c'. run_handshake R ty name body fill (c\<lparr>cl_peerAddr := p\<rparr>) = Some (r, out, c') \<and>
      (\<forall>e. r = Fail e \<longrightarrow> leaves_nothing c c')" for ty name body fill p
    using run_handshake_fails [of "c\<lparr>cl_peerAddr := p\<rparr>" R ty name body fill] assms(1-3)
    by (simp add: leaves_nothing_def handshake_key_def)
  have untouched: "leaves_nothing c c" by (simp add: leaves_nothing_def localCounter_same)
  have "\<exists>r out c'. result = Some (r, out, c') \<and> (\<forall>e. r = Fail e \<longrightarrow> leaves_nothing c c')"
    using assms(4)
  proof
    assume r: "result = ConnectPASE S resolve R addr passcode c"
    show ?thesis
    proof (cases "resolve addr")
      case (Err e)
      with r have "result = Some (Fail (IErrorw ''controller: resolving address'' (IErr e)), [], c)"
        by (simp add: ConnectPASE_def)
      then show ?thesis using untouched by blast
    qed (use run r in \<open>auto simp: ConnectPASE_def connectPASEWithAddr_def\<close>)
  next
    assume "result = ConnectCASE S resolve R addr nodeID c"
    then show ?thesis using run by (cases "cl_fabric c"; cases "resolve addr") (simp_all add: ConnectCASE_def untouched)
  qed
  then show ?thesis unfolding leaves_nothing_def .
qed

text \<open>
  What the other side of a handshake holds: the keys the other way round.
\<close>

definition device_end :: "SessionType \<Rightarrow> SessionKeys \<Rightarrow> u16 \<Rightarrow> u16 \<Rightarrow> u64 \<Rightarrow> u64 \<Rightarrow> Session" where
  "device_end ty keys i peer nodeID peerNodeID =
     (new_session i ty None)\<lparr>PeerSessionID := peer, LocalNodeID := nodeID, PeerNodeID := peerNodeID,
        EncryptKey := Some (R2IKey keys), DecryptKey := Some (I2RKey keys)\<rparr>"

lemma filled_session:
  assumes "table_keeps st1 (cl_sessions c1)" and "sessions st1 i = Some (new_session i ty rnd)"
    and "finish name fill i a (Val (Some keys, peer)) c1 = (v, c')"
  shows "v = Val i \<and> (\<exists>n. GetSession (cl_sessions c') i = Some (fill keys peer ((new_session i ty rnd)\<lparr>localCounter := n\<rparr>)))"
  using assms table_keepsD(1) [OF assms(1), of i "new_session i ty rnd"]
  by (auto simp: close_exchange_def fill_session_def GetSession_def)

text \<open>
  A session for commissioning: a controller that knows the device's passcode and has a session
  identifier left opens a session, whatever goes on meanwhile; the session in its table and the one
  the device sets up with its own keys are the two ends of one secured session in both directions,
  each knows the other's identifier, and the handshake's exchange is given back.
\<close>

theorem pase_opens_session:
  assumes "table_ok (cl_sessions c)" and "em_ok (cl_exchanges c)" and "orderly R"
    and "spake_laws S pt" and "pase_ready S u" and "quiet (DefaultSendFunc (cl_exchanges c))"
    and "resolve addr = Ok udp" and "sr_ctx R = None" and "sr_random R = Ok (su_randomI u)" and "sr_scalar R = Ok (su_x u)"
    and "CreateSession (cl_sessions c) SessionPASE (sr_counter R) = Some (Ok session, st)" and "su_sidI u = ID session"
  shows "\<exists>req resp pake1 pake2 pake3 keys. pase_run S u req resp pake1 pake2 pake3 keys \<and>
    (\<forall>m1 m2 report rest. Payload m1 = resp \<and> Payload m2 = pake2 \<and> opcode_of report = OpcodeStatusReport \<longrightarrow>
      (\<exists>out c' s. ConnectPASE S resolve (R\<lparr>sr_inbox := Ok m1 # Ok m2 # Ok report # rest\<rparr>) addr (su_passcode u) c = Some (Val (ID session), out, c') \<and>
        GetSession (cl_sessions c') (ID session) = Some s \<and> PeerSessionID s = su_sidR u \<and>
        (let device = device_end SessionPASE keys (su_sidR u) (ID session) 0 0
         in paired s device \<and> paired device s) \<and>
        exchanges (cl_exchanges c') (handshake_key c) = None))"
proof -
  obtain req resp pake1 pake2 pake3 keys where run: "pase_run S u req resp pake1 pake2 pake3 keys" "good_keys keys"
    by (rule pase_completes [OF assms(4,5)])
  have "\<exists>out c' s. ConnectPASE S resolve (R\<lparr>sr_inbox := Ok m1 # Ok m2 # Ok report # rest\<rparr>) addr (su_passcode u) c = Some (Val (ID session), out, c') \<and>
      GetSession (cl_sessions c') (ID session) = Some s \<and> PeerSessionID s = su_sidR u \<and>
      (let device = device_end SessionPASE keys (su_sidR u) (ID session) 0 0 in paired s device \<and> paired device s) \<and>
      exchanges (cl_exchanges c') (handshake_key c) = None"
    if "Payload m1 = resp" "Payload m2 = pake2" "opcode_of report = OpcodeStatusReport" for m1 m2 report rest
  proof -
    let ?R = "R\<lparr>sr_inbox := Ok m1 # Ok m2 # Ok report # rest\<rparr>"
    let ?c = "c\<lparr>cl_peerAddr := Some (UDPAddr udp)\<rparr>"
    let ?body = "\<lambda>ex i. EstablishPASE S (sr_random ?R) (sr_scalar ?R) ex (su_passcode u) i"
    have ok: "table_ok (cl_sessions ?c)" "em_ok (cl_exchanges ?c)" "orderly ?R"
      using assms(1-3) by (simp_all add: orderly_def)
    show ?thesis
      using ok
    proof (cases rule: run_handshake_course [where ty = SessionPASE and name = "''PASE''" and body = ?body and fill = fill_PASE])
      case (full e st1)
      with assms(11) show ?thesis by auto
    next
      case (over i st1 c1 e)
      with assms(8) show ?thesis by simp
    next
      case (ran i st1 ex a c1 r s)
      have i: "i = ID session" using ran(11) assms(11) by auto
      have r: "r = Val (Some keys, su_sidR u)"
        using ran(9) EstablishPASE_run [OF run(1) _ that(1-3), of ex rest "[]"] ran(5) assms(6,9,10,12) i by simp
      have st1: "sessions st1 i = Some (new_session i SessionPASE (sr_counter R))" using ran(3) by simp
      obtain v c' where f: "finish ''PASE'' fill_PASE i a r c1 = (v, c')" by fastforce
      from filled_session [OF ran(4) st1 f [unfolded r]] obtain n where
        v: "v = Val i" "GetSession (cl_sessions c') i = Some (fill_PASE keys (su_sidR u) ((new_session i SessionPASE (sr_counter R))\<lparr>localCounter := n\<rparr>))"
        by auto
      have "exchanges (cl_exchanges c') (handshake_key c) = None"
        using f r CloseExchange_entry [OF ran(6,7)] by (auto simp: close_exchange_def fill_session_def handshake_key_def)
      moreover have "ConnectPASE S resolve ?R addr (su_passcode u) c = Some (v, outbox s, c')"
        using ran(10) f assms(7) by (simp add: ConnectPASE_def connectPASEWithAddr_def)
      ultimately show ?thesis using v i run(2)
        by (auto simp: fill_PASE_def device_end_def paired_def new_session_def good_keys_def const_defs)
    qed
  qed
  with run(1) show ?thesis by blast
qed


text \<open>
  An operational session: with a device that holds the same identity protection key, each side with
  a certificate of its own key, the controller opens a session whose two ends are one secured session
  in both directions, under the node identifiers the caller named and the controller's fabric
  identifier, and gives the exchange back.
\<close>

theorem case_opens_session:
  assumes "table_ok (cl_sessions c)" and "em_ok (cl_exchanges c)" and "orderly R"
    and "curve_laws S pt" and "kdf_laws S" and "ecdsa_laws S" and "case_ready S u" and "quiet (DefaultSendFunc (cl_exchanges c))"
    and "cl_fabric c = Some f" and "resolve addr = Ok udp" and "sr_ctx R = None" and "sr_random R = Ok (cs_randomI u)"
    and "sr_scalar R = Ok (cs_x u)" and "sr_sign R = cs_signI u"
    and "CreateSession (cl_sessions c) SessionCASE (sr_counter R) = Some (Ok session, st)"
    and "cs_I u = case_config f (cl_fabricID c) nodeID (ID session)"
  shows "\<exists>sigma1 sigma2 sigma3 keys. case_run S u sigma1 sigma2 sigma3 keys \<and>
    (\<forall>m report rest. Payload m = sigma2 \<and> opcode_of m \<noteq> OpcodeStatusReport \<and> opcode_of report = OpcodeStatusReport \<longrightarrow>
      (\<exists>out c' s. ConnectCASE S resolve (R\<lparr>sr_inbox := Ok m # Ok report # rest\<rparr>) addr nodeID c = Some (Val (ID session), out, c') \<and>
        GetSession (cl_sessions c') (ID session) = Some s \<and> PeerSessionID s = rcfg_SessionID (cs_R u) \<and>
        (let device = device_end SessionCASE keys (rcfg_SessionID (cs_R u)) (ID session) nodeID (cl_fabricID c)
         in paired s device \<and> paired device s) \<and>
        exchanges (cl_exchanges c') (handshake_key c) = None))"
proof -
  obtain sigma1 sigma2 sigma3 keys s2 where run: "case_run S u sigma1 sigma2 sigma3 keys" "good_keys keys"
      "decode_msg T_Sigma2 of_Sigma2 sigma2 = Ok s2" "s2_ResponderSessionID s2 = rcfg_SessionID (cs_R u)"
    by (rule case_completes [OF assms(4-7)]) blast
  have "\<exists>out c' s. ConnectCASE S resolve (R\<lparr>sr_inbox := Ok m # Ok report # rest\<rparr>) addr nodeID c = Some (Val (ID session), out, c') \<and>
      GetSession (cl_sessions c') (ID session) = Some s \<and> PeerSessionID s = rcfg_SessionID (cs_R u) \<and>
      (let device = device_end SessionCASE keys (rcfg_SessionID (cs_R u)) (ID session) nodeID (cl_fabricID c)
       in paired s device \<and> paired device s) \<and>
      exchanges (cl_exchanges c') (handshake_key c) = None"
    if "Payload m = sigma2" "opcode_of m \<noteq> OpcodeStatusReport" "opcode_of report = OpcodeStatusReport" for m report rest
  proof -
    let ?R = "R\<lparr>sr_inbox := Ok m # Ok report # rest\<rparr>"
    let ?c = "c\<lparr>cl_peerAddr := Some (UDPAddr udp)\<rparr>"
    let ?body = "\<lambda>ex i. EstablishCASE S (sr_scalar ?R) (sr_random ?R) (sr_sign ?R) ex (case_config f (cl_fabricID c) nodeID i)"
    have ok: "table_ok (cl_sessions ?c)" "em_ok (cl_exchanges ?c)" "orderly ?R"
      using assms(1-3) by (simp_all add: orderly_def)
    show ?thesis
      using ok
    proof (cases rule: run_handshake_course [where ty = SessionCASE and name = "''CASE''" and body = ?body
          and fill = "fill_CASE nodeID (cl_fabricID c)"])
      case (full e st1)
      with assms(15) show ?thesis by auto
    next
      case (over i st1 c1 e)
      with assms(11) show ?thesis by simp
    next
      case (ran i st1 ex a c1 r s)
      have i: "i = ID session" using ran(11) assms(15) by auto
      have "quiet (ex_SendFunc ex)" using ran(5) assms(8) by simp
      from EstablishCASE_run [OF run(1) this that run(3), of rest "[]"]
      have r: "r = Val (Some keys, rcfg_SessionID (cs_R u))"
        using ran(9) assms(12-14,16) run(4) i by simp
      have st1: "sessions st1 i = Some (new_session i SessionCASE (sr_counter R))" using ran(3) by simp
      obtain v c' where f: "finish ''CASE'' (fill_CASE nodeID (cl_fabricID c)) i a r c1 = (v, c')" by fastforce
      from filled_session [OF ran(4) st1 f [unfolded r]] obtain n where
        v: "v = Val i" "GetSession (cl_sessions c') i = Some (fill_CASE nodeID (cl_fabricID c) keys (rcfg_SessionID (cs_R u))
          ((new_session i SessionCASE (sr_counter R))\<lparr>localCounter := n\<rparr>))"
        by auto
      have "exchanges (cl_exchanges c') (handshake_key c) = None"
        using f r CloseExchange_entry [OF ran(6,7)] by (auto simp: close_exchange_def fill_session_def handshake_key_def)
      moreover have "ConnectCASE S resolve ?R addr nodeID c = Some (v, outbox s, c')"
        using ran(10) f assms(9,10) by (simp add: ConnectCASE_def)
      ultimately show ?thesis using v i run(2)
        by (auto simp: fill_CASE_def device_end_def paired_def new_session_def good_keys_def const_defs)
    qed
  qed
  with run(1) show ?thesis by blast
qed


subsection \<open>Instances\<close>

definition mini_surroundings :: surroundings where
  "mini_surroundings = \<lparr>sr_counter = None, sr_unsecured = None, sr_random = Ok (su_randomI mini_setup),
     sr_scalar = Ok (su_x mini_setup), sr_sign = [], sr_ctx = None, sr_inbox = [], sr_traffic = id\<rparr>"

definition mini_fabric :: fabricIdentity where
  "mini_fabric = \<lparr>fi_rootKey = \<lparr>pk_D = 1, pk_Public = mini_pt 1\<rparr>, fi_icacKey = \<lparr>pk_D = 1, pk_Public = mini_pt 1\<rparr>,
     fi_nodeKey = \<lparr>pk_D = 1, pk_Public = mini_pt 1\<rparr>, fi_rcac = [], fi_icac = [], fi_noc = [], fi_nocTLV = [0x30],
     fi_icacTLV = [], fi_ipk = [], fi_operationalIPK = replicate 16 9, fi_rootPubKey = [4], fi_compressedFabricID = []\<rparr>"

definition mini_controller :: Controller where
  "mini_controller = NewWithConn False (replicate 8 1) 1 None (Some mini_fabric)"

lemma mini_controller_facts:
  "table_ok (cl_sessions mini_controller)" "em_ok (cl_exchanges mini_controller)" "orderly mini_surroundings"
  "quiet (DefaultSendFunc (cl_exchanges mini_controller))" "cl_fabric mini_controller = Some mini_fabric"
  using table_ok_steps(1) em_ok_NewExchangeManager
  by (simp_all add: mini_controller_def NewWithConn_def orderly_def mini_surroundings_def quiet_def NewExchangeManager_def)

lemma fresh_session:
  obtains session st where "CreateSession NewSessionTable ty rnd = Some (Ok session, st)"
proof -
  have "(1 :: u16) \<noteq> 0" by simp
  then show ?thesis
    by (cases rule: search_id_total [where m = "Map.empty :: u16 \<Rightarrow> Session option"])
      (auto simp: CreateSession_def NewSessionTable_def Let_def intro: that dest: spec [of _ 1])
qed

definition answer :: "byte \<Rightarrow> byte list \<Rightarrow> Message" where
  "answer op bs = \<lparr>Header = zero_header, Protocol = \<lparr>ExchangeFlags = 0, ProtocolOpcode = op, ExchangeID = 0,
     ProtocolID = 0, VendorID = 0, HasVendorID = False, AckMessageCounter = 0, HasAckCounter = False\<rparr>, Payload = bs\<rparr>"

lemma answer_simps [simp]: "Payload (answer op bs) = bs" "opcode_of (answer op bs) = op"
  by (simp_all add: answer_def opcode_of_def)

theorem connect_failure_leaves_nothing_witness:
  "\<exists>r out c'. ConnectPASE mini_suite (\<lambda>_. Ok ''device'') mini_surroundings ''device'' 20202021 mini_controller = Some (r, out, c')"
proof -
  note connect_failure_leaves_nothing [OF mini_controller_facts(1-3) disjI1 [OF refl], of mini_suite "\<lambda>_. Ok ''device''" "''device''" 20202021]
  then show ?thesis by blast
qed

theorem pase_opens_session_witness:
  "\<exists>R i out c' s device. ConnectPASE mini_suite (\<lambda>_. Ok ''device'') R ''device'' 20202021 mini_controller = Some (Val i, out, c') \<and>
     GetSession (cl_sessions c') i = Some s \<and> PeerSessionID s = 6 \<and> paired s device \<and> paired device s"
proof -
  obtain session st where c: "CreateSession (cl_sessions mini_controller) SessionPASE (sr_counter mini_surroundings) = Some (Ok session, st)"
    using fresh_session [of SessionPASE None] by (auto simp: mini_controller_def NewWithConn_def mini_surroundings_def)
  define u where "u = mini_setup\<lparr>su_sidI := ID session\<rparr>"
  have u: "pase_ready mini_suite u" "sr_random mini_surroundings = Ok (su_randomI u)" "sr_scalar mini_surroundings = Ok (su_x u)"
    "sr_ctx mini_surroundings = None" "su_sidI u = ID session" "su_passcode u = 20202021" "su_sidR u = 6"
    using mini_ready by (simp_all add: u_def pase_ready_def mini_surroundings_def) (simp_all add: mini_setup_def)
  obtain resp pake2 keys where opens: "\<forall>m1 m2 report rest. Payload m1 = resp \<and> Payload m2 = pake2 \<and> opcode_of report = OpcodeStatusReport \<longrightarrow>
      (\<exists>out c' s. ConnectPASE mini_suite (\<lambda>_. Ok ''device'') (mini_surroundings\<lparr>sr_inbox := Ok m1 # Ok m2 # Ok report # rest\<rparr>)
          ''device'' (su_passcode u) mini_controller = Some (Val (ID session), out, c') \<and>
        GetSession (cl_sessions c') (ID session) = Some s \<and> PeerSessionID s = su_sidR u \<and>
        (let device = device_end SessionPASE keys (su_sidR u) (ID session) 0 0 in paired s device \<and> paired device s) \<and>
        exchanges (cl_exchanges c') (handshake_key mini_controller) = None)"
    using pase_opens_session [OF mini_controller_facts(1-3) mini_spake u(1) mini_controller_facts(4) _ u(4,2,3) c u(5),
        of "\<lambda>_. Ok ''device''" "''device''" "''device''"] by blast
  from opens have "\<exists>out c' s. ConnectPASE mini_suite (\<lambda>_. Ok ''device'')
          (mini_surroundings\<lparr>sr_inbox := [Ok (answer 0 resp), Ok (answer 0 pake2), Ok (answer OpcodeStatusReport [])]\<rparr>) ''device'' (su_passcode u) mini_controller = Some (Val (ID session), out, c') \<and>
        GetSession (cl_sessions c') (ID session) = Some s \<and> PeerSessionID s = su_sidR u \<and>
        (let device = device_end SessionPASE keys (su_sidR u) (ID session) 0 0 in paired s device \<and> paired device s) \<and>
        exchanges (cl_exchanges c') (handshake_key mini_controller) = None" by simp
  then show ?thesis unfolding u(6,7) Let_def by blast
qed

theorem case_opens_session_witness:
  "\<exists>R i out c' s device. ConnectCASE mini_suite (\<lambda>_. Ok ''device'') R ''device'' 7 mini_controller = Some (Val i, out, c') \<and>
     GetSession (cl_sessions c') i = Some s \<and> paired s device \<and> paired device s"
proof -
  define R where "R = mini_surroundings\<lparr>sr_random := Ok (cs_randomI mini_case), sr_scalar := Ok (cs_x mini_case), sr_sign := cs_signI mini_case\<rparr>"
  obtain session st where c: "CreateSession (cl_sessions mini_controller) SessionCASE (sr_counter R) = Some (Ok session, st)"
    using fresh_session [of SessionCASE None] by (auto simp: R_def mini_controller_def NewWithConn_def mini_surroundings_def)
  define u where "u = mini_case\<lparr>cs_I := case_config mini_fabric (cl_fabricID mini_controller) 7 (ID session)\<rparr>"
  have u: "case_ready mini_suite u" "sr_random R = Ok (cs_randomI u)" "sr_scalar R = Ok (cs_x u)" "sr_sign R = cs_signI u"
    "sr_ctx R = None" "cs_I u = case_config mini_fabric (cl_fabricID mini_controller) 7 (ID session)" "orderly R"
    using mini_case_ready mini_controller_facts(3)
    by (simp_all add: u_def case_ready_def R_def case_config_def mini_fabric_def orderly_def)
      (simp_all add: mini_case_def mini_cfg_def mini_surroundings_def)
  obtain sigma2 keys where opens: "\<forall>m report rest. Payload m = sigma2 \<and> opcode_of m \<noteq> OpcodeStatusReport \<and> opcode_of report = OpcodeStatusReport \<longrightarrow>
      (\<exists>out c' s. ConnectCASE mini_suite (\<lambda>_. Ok ''device'') (R\<lparr>sr_inbox := Ok m # Ok report # rest\<rparr>) ''device'' 7 mini_controller
          = Some (Val (ID session), out, c') \<and>
        GetSession (cl_sessions c') (ID session) = Some s \<and> PeerSessionID s = rcfg_SessionID (cs_R u) \<and>
        (let device = device_end SessionCASE keys (rcfg_SessionID (cs_R u)) (ID session) 7 (cl_fabricID mini_controller)
         in paired s device \<and> paired device s) \<and>
        exchanges (cl_exchanges c') (handshake_key mini_controller) = None)"
    using case_opens_session [OF mini_controller_facts(1,2) u(7) mini_curve mini_kdf mini_ecdsa u(1) mini_controller_facts(4,5) _
        u(5,2,3,4) c u(6), of "\<lambda>_. Ok ''device''" "''device''" "''device''"] by blast
  have "OpcodeSigma2 \<noteq> OpcodeStatusReport" by (simp add: const_defs)
  with opens have "\<exists>out c' s. ConnectCASE mini_suite (\<lambda>_. Ok ''device'') (R\<lparr>sr_inbox := [Ok (answer OpcodeSigma2 sigma2), Ok (answer OpcodeStatusReport [])]\<rparr>) ''device'' 7 mini_controller
          = Some (Val (ID session), out, c') \<and>
        GetSession (cl_sessions c') (ID session) = Some s \<and> PeerSessionID s = rcfg_SessionID (cs_R u) \<and>
        (let device = device_end SessionCASE keys (rcfg_SessionID (cs_R u)) (ID session) 7 (cl_fabricID mini_controller)
         in paired s device \<and> paired device s) \<and>
        exchanges (cl_exchanges c') (handshake_key mini_controller) = None" by simp
  then show ?thesis unfolding Let_def by blast
qed

end
