(* ===== verification/Spec2Isabelle.thy ===== *)
theory Spec2Isabelle
  imports Tlv_Reflection Msg_Codec Mrp Btp Setup_Manual Stores Interaction Commissioning Commission_Checks
    Controller_Connect
begin

text \<open>
  A model of the core of \<^verbatim>\<open>matter-cli\<close>, a controller for the Matter smart-home protocol written in Go.
  The program finds devices, commissions them into a fabric over an encrypted session, and reads,
  writes, invokes and subscribes to their attributes.  The theories model the layers a request
  passes through, from the bytes upwards.

  \<^bold>\<open>The layers and their theories\<close>

  \<^item> \<^bold>\<open>Shared vocabulary\<close> (\<^verbatim>\<open>Prelude\<close>).  Bytes and machine integers as words, Go's error values, the
    outcome \<open>'a res\<close> of a call that returns, fails or panics, the byte order functions.
  \<^item> \<^bold>\<open>TLV\<close> (\<^verbatim>\<open>internal/tlv\<close>).  \<^verbatim>\<open>Tlv_Types\<close>: element types, tag forms, tag coding.  \<^verbatim>\<open>Tlv_Writer\<close> and
    \<^verbatim>\<open>Tlv_Reader\<close>: one definition per method of \<^verbatim>\<open>Writer\<close> and \<^verbatim>\<open>Reader\<close>, the buffer or input and the stack
    of open containers as a record.  \<^verbatim>\<open>Tlv_Stream\<close>: what \<^verbatim>\<open>Next\<close> does on what each method wrote.
    \<^verbatim>\<open>Tlv_Capture\<close>: skipping, re-encoding and capturing elements.  \<^verbatim>\<open>Tlv_Canonical\<close>: the properties of
    these.  \<^verbatim>\<open>Tlv_Marshal\<close> and \<^verbatim>\<open>Tlv_Unmarshal\<close>: the reflection engine, with Go values and Go types as
    datatypes and the struct tags as data; \<^verbatim>\<open>Tlv_Roundtrip\<close> and \<^verbatim>\<open>Tlv_Reflection\<close>: the two against each
    other.
  \<^item> \<^bold>\<open>Messages\<close> (\<^verbatim>\<open>internal/protocol\<close>, \<^verbatim>\<open>internal/crypto/aesccm.go\<close>).  \<^verbatim>\<open>Msg_Header\<close>: both headers.  \<^verbatim>\<open>Aes\<close>
    and \<^verbatim>\<open>Aes_Ccm\<close>: the block cipher of the standard library and the mode of the repository, whose
    cipher is an argument.  \<^verbatim>\<open>Session\<close>: counters, the replay window, the session table.  \<^verbatim>\<open>Msg_Codec\<close>:
    a message secured by a session, over the interface \<^verbatim>\<open>aead\<close>.  \<^verbatim>\<open>Exchange\<close>: exchanges in a heap and the
    manager that routes messages to them, as functions for calls that run alone and as an
    interleaved step relation for the part of \<^verbatim>\<open>HandleMessage\<close> that runs without the lock.
  \<^item> \<^bold>\<open>Reliable messages\<close> (\<^verbatim>\<open>internal/transport/mrp.go\<close>).  \<^verbatim>\<open>Mrp\<close>: the parts under the lock as functions,
    and a step relation that interleaves them with timers, waiting callers and channel operations.
  \<^item> \<^bold>\<open>BLE transport\<close> (\<^verbatim>\<open>internal/transport/btp.go\<close>).  \<^verbatim>\<open>Btp\<close>: handshake, segmentation, reassembly, window.
  \<^item> \<^bold>\<open>Setup codes\<close> (\<^verbatim>\<open>internal/commissioning/payload.go\<close>).  \<^verbatim>\<open>Setup_Payload\<close>: bit fields, base 38, QR
    codes.  \<^verbatim>\<open>Setup_Check\<close>: the check digit.  \<^verbatim>\<open>Setup_Manual\<close>: the manual pairing code.
  \<^item> \<^bold>\<open>Stores\<close> (\<^verbatim>\<open>internal/store\<close>).  \<^verbatim>\<open>Store_Types\<close>: the records and their JSON documents.  \<^verbatim>\<open>Store_Spec\<close>:
    the interface \<^verbatim>\<open>Store\<close> as an abstract state, the answers a call may give in it and its update, and a
    locale for an implementation that simulates it.  \<^verbatim>\<open>Store_Memory\<close>, \<^verbatim>\<open>Store_Bolt\<close>, \<^verbatim>\<open>Store_Refine\<close>: the
    two implementations and their simulations.  \<^verbatim>\<open>Stores\<close>: what follows for sequences of calls.
  \<^item> \<^bold>\<open>Interaction model\<close> (\<^verbatim>\<open>internal/interaction\<close>).  \<^verbatim>\<open>Im_Types\<close> and \<^verbatim>\<open>Im_Wire\<close>: the messages as records,
    as Go values and on the wire.  \<^verbatim>\<open>Im_Reassemble\<close>: lists that arrive in fragments.  \<^verbatim>\<open>Im_Client\<close> and
    \<^verbatim>\<open>Im_Subscribe\<close>: the client operations.  \<^verbatim>\<open>Interaction\<close>: their properties.
  \<^item> \<^bold>\<open>Cryptography\<close> (\<^verbatim>\<open>internal/crypto\<close>).  \<^verbatim>\<open>Sha256\<close>: SHA-256 and HMAC.  \<^verbatim>\<open>Crypto_Keys\<close>: keys, key
    agreement, raw signatures and derivations.  \<^verbatim>\<open>Crypto_Spake\<close>: SPAKE2+.  \<^verbatim>\<open>Matter_Cert\<close>: certificates
    in their TLV form.
  \<^item> \<^bold>\<open>Secure sessions\<close> (\<^verbatim>\<open>internal/secure\<close>).  \<^verbatim>\<open>Secure_Keys\<close>: session keys and messages.  \<^verbatim>\<open>Pase\<close> and
    \<^verbatim>\<open>Case\<close>: both sides of the two handshakes.  \<^verbatim>\<open>Pase_Agreement\<close>, \<^verbatim>\<open>Pase_Confirmation\<close> and
    \<^verbatim>\<open>Case_Agreement\<close>: what a handshake and an accepted confirmation achieve.  \<^verbatim>\<open>Secure\<close>: the properties.
  \<^item> \<^bold>\<open>Commissioning\<close> (\<^verbatim>\<open>internal/commissioning\<close>).  \<^verbatim>\<open>Network\<close>: credentials and Thread datasets.
    \<^verbatim>\<open>Commission_Wire\<close>: the encoders of commands, the readers of attributes, the checks of responses; the
    encoders chain the writer's methods with \<^verbatim>\<open>Tlv_Calls\<close>.  \<^verbatim>\<open>Attestation\<close>: the attestation validator and
    the passcode verifier.  \<^verbatim>\<open>Commission\<close>: the flow, whose interfaces are a record of functions of the
    history, the list of events so far.  \<^verbatim>\<open>Commission_Trace\<close>: rules for what a call leaves in the history.
    \<^verbatim>\<open>Commissioning\<close>: sessions, attempts and steps.  \<^verbatim>\<open>Commission_Order\<close>: what must have happened before a
    command is sent.  \<^verbatim>\<open>Commission_Checks\<close>: attestation within the flow, and the verifier against PASE.

  \<^item> \<^bold>\<open>Controller\<close> (\<^verbatim>\<open>internal/controller\<close>, \<^verbatim>\<open>internal/transport/udp.go\<close>).  \<^verbatim>\<open>Conn\<close>: the connection as
    far as its callers see it.  \<^verbatim>\<open>Controller\<close>: sending a message of an exchange, and the pump that decodes,
    acknowledges and routes what arrives.  \<^verbatim>\<open>Controller_Connect\<close>: opening a session, which reserves it, runs
    a handshake while the pump and other senders go on, and fills or removes it; looking for a node
    that does not answer.

  \<^bold>\<open>How the layers meet.\<close>  Locales state the contracts between layers and are interpreted on the code's
  own definitions: \<open>block_cipher\<close>, what CCM needs of AES; \<open>aead\<close>, what the codec needs of CCM (a
  decryption that accepts only what the sealing function gives);
  \<open>replay_filter\<close>, a replay check that simulates the set of accepted counters, met by the window and by a
  session; \<open>store\<close>, the contract of \<^verbatim>\<open>Store\<close>, met by the in-memory store and, under the laws of its
  database, by the bolt store.  The interaction model marshals with \<^verbatim>\<open>Tlv_Marshal\<close> and runs on the
  exchanges of \<^verbatim>\<open>Exchange\<close>.

  \<^bold>\<open>Correspondence.\<close>  A struct is a record with the struct's fields; a method is a function that takes
  the state and returns it updated with the method's results; an error return is the \<open>Err\<close> branch
  of \<open>res\<close> (or the left of a sum, or an error option where the method returns only an error), a
  run-time panic is \<open>Panic\<close>.  Integers of fixed width are words and wrap as in Go; \<^verbatim>\<open>int\<close> values are
  \<open>int\<close> or \<open>nat\<close> where the code keeps them in range.  Random numbers, the answers of the peer and
  callbacks are arguments; the interfaces of the commissioning flow are arbitrary functions of the history,
  so its properties hold for every device, network and random source.

  \<^bold>\<open>Termination.\<close>  No definition uses fuel.  Loops over input recurse structurally or on the bytes
  left; \<^verbatim>\<open>CreateSession\<close>'s search for a free identifier, which ends when it is back where it began, is
  a partial function proved to return.  Allocation is bounded by \<open>2 ^ 48\<close> bytes, the limit of
  Go's allocator on 64-bit systems: a longer request panics.

  \<^bold>\<open>Parameters.\<close>  bbolt is third-party code: a record of its operations with the laws of its
  documentation (\<open>bolt_laws\<close>), instantiated by a concrete database in \<^verbatim>\<open>Stores\<close>.  The textual forms of
  times, byte strings and numbers in JSON and in keys are functions with their round-trip laws
  (\<open>text_laws\<close>).  The curve P-256, ECDSA, HKDF, PBKDF2, the X.509 and ASN.1 parsers are the fields of a
  record \<open>suite\<close>, with the laws \<open>curve_laws\<close>, \<open>ecdsa_laws\<close>, \<open>kdf_laws\<close> and \<open>spake_laws\<close>, which a small group
  in \<^verbatim>\<open>Secure\<close> meets.  The order in which the runtime ranges over a map is an argument.

  \<^bold>\<open>Not modelled.\<close>  Sockets, radio and operating-system bindings (the BLE adapters, the mDNS
  browsers, opening and closing the UDP socket); generated tables (\<^verbatim>\<open>internal/clusters\<close>, the vendor database); terminal
  output and command registration of the command line; timers, other than that a timeout is an error \<^verbatim>\<open>Receive\<close> may
  return; the generation of certificates, which is calls of \<^verbatim>\<open>crypto/x509\<close>, and with it
  the creation and loading of a fabric identity; the adapters between the controller and the commissioning
  flow.  The daemon and discovery wire the components above to sockets, files and mDNS.  The code
  generator and the command line work on text with the standard library and run outside the protocol.
\<close>

end
